(* ===== verification/MPrelude.thy ===== *)
theory MPrelude
  imports Main "HOL-Library.Word"
begin

unbundle bit_operations_syntax

text \<open>
  What every component shares: the result type of C code that can go wrong, reads from
  memory with their bounds check, 32-bit offset arithmetic, C strings, and the rewrite
  collections the component proofs use.

  \<^item> A C object that a pointer points to is the list of the bytes from the pointer to the
    end of the object. A read past the end is the value \<open>Inl OutOfBounds\<close>, so a theorem
    that says a function returns \<open>Inr\<close> says, among other things, that the C code reads no
    byte outside the object. \<open>Inl AssertFail\<close> is a failed \<open>BSON_ASSERT\<close>
    (the process aborts), \<open>Inl NullDeref\<close> a read through \<open>NULL\<close>, \<open>Inl BadCast\<close> a conversion of a
    \<open>double\<close> that is out of the range of the integer type, \<open>Inl Overflow\<close> an overflow of
    signed arithmetic, which C leaves undefined, \<open>Inl Uninit\<close> a use of a variable that was not
    set, \<open>Inl NoFuel\<close> a loop that did not finish within its fuel.
  \<^item> A \<open>uint32_t\<close> that is an offset or a length is a \<open>nat\<close>; its additions and
    subtractions are \<open>add32\<close> and \<open>sub32\<close>, which wrap modulo \<open>2 ^ 32\<close>.
\<close>

section \<open>Results\<close>

datatype fault = OutOfBounds | AssertFail | NullDeref | NoFuel | BadCast | Overflow | Uninit

type_synonym 'a res = "fault + 'a"
type_synonym byte = "8 word"

definition bind_res :: "'a res \<Rightarrow> ('a \<Rightarrow> 'b res) \<Rightarrow> 'b res" where
  "bind_res m f = (case m of Inl e \<Rightarrow> Inl e | Inr x \<Rightarrow> f x)"

definition map_res :: "('a \<Rightarrow> 'b) \<Rightarrow> 'a res \<Rightarrow> 'b res" where
  "map_res f m = bind_res m (\<lambda>x. Inr (f x))"

definition c_assert :: "bool \<Rightarrow> unit res" where
  "c_assert b = (if b then Inr () else Inl AssertFail)"

definition deref :: "'a option \<Rightarrow> 'a res" where
  "deref p = (case p of None \<Rightarrow> Inl NullDeref | Some x \<Rightarrow> Inr x)"

named_theorems res_simps \<open>evaluation of the result combinators\<close>

lemma bind_res_simps [simp, res_simps]:
  "bind_res (Inr x) f = f x"
  "bind_res (Inl e) f = Inl e"
  by (simp_all add: bind_res_def)

lemma map_res_simps [simp, res_simps]:
  "map_res g (Inr x) = Inr (g x)"
  "map_res g (Inl e) = Inl e"
  by (simp_all add: map_res_def)

lemma c_assert_simps [simp, res_simps]:
  "c_assert True = Inr ()"
  "c_assert False = Inl AssertFail"
  by (simp_all add: c_assert_def)

lemma deref_simps [simp, res_simps]:
  "deref (Some x) = Inr x"
  "deref None = Inl NullDeref"
  by (simp_all add: deref_def)

lemma bind_res_eq_Inr: "bind_res m f = Inr y \<longleftrightarrow> (\<exists>x. m = Inr x \<and> f x = Inr y)"
  by (cases m) auto

lemma map_res_eq_Inr: "map_res g m = Inr y \<longleftrightarrow> (\<exists>x. m = Inr x \<and> y = g x)"
  by (cases m) auto

lemma bind_res_cong [fundef_cong]:
  "m = m' \<Longrightarrow> (\<And>x. m' = Inr x \<Longrightarrow> f x = g x) \<Longrightarrow> bind_res m f = bind_res m' g"
  by (cases m') auto

section \<open>Memory reads\<close>

definition rd8 :: "byte list \<Rightarrow> nat \<Rightarrow> byte res" where
  "rd8 m i = (if i < length m then Inr (m ! i) else Inl OutOfBounds)"

definition rd_range :: "byte list \<Rightarrow> nat \<Rightarrow> nat \<Rightarrow> byte list res" where
  "rd_range m i n = (if i + n \<le> length m then Inr (take n (drop i m)) else Inl OutOfBounds)"

lemma rd8_Inr [simp]: "i < length m \<Longrightarrow> rd8 m i = Inr (m ! i)"
  by (simp add: rd8_def)

lemma rd8_eq_Inr: "rd8 m i = Inr b \<longleftrightarrow> i < length m \<and> b = m ! i"
  by (auto simp: rd8_def)

lemma rd_range_Inr [simp]: "i + n \<le> length m \<Longrightarrow> rd_range m i n = Inr (take n (drop i m))"
  by (simp add: rd_range_def)

lemma rd_range_eq_Inr:
  "rd_range m i n = Inr bs \<longleftrightarrow> i + n \<le> length m \<and> bs = take n (drop i m)"
  by (auto simp: rd_range_def)

section \<open>Offsets of 32 bits\<close>

definition add32 :: "nat \<Rightarrow> nat \<Rightarrow> nat" where
  "add32 a b = (a + b) mod 2 ^ 32"

definition sub32 :: "nat \<Rightarrow> nat \<Rightarrow> nat" where
  "sub32 a b = (a + 2 ^ 32 - b) mod 2 ^ 32"

lemma add32_eq [simp]: "a + b < 2 ^ 32 \<Longrightarrow> add32 a b = a + b"
  by (simp add: add32_def)

lemma sub32_eq [simp]:
  assumes "b \<le> a" and "a < 2 ^ 32"
  shows "sub32 a b = a - b"
proof -
  have "a + 2 ^ 32 - b = (a - b) + 2 ^ 32" using assms(1) by simp
  then have "sub32 a b = (a - b) mod 2 ^ 32" by (simp add: sub32_def del: power_numeral)
  with assms(2) show ?thesis by simp
qed

lemma add32_less: "add32 a b < 2 ^ 32"
  by (simp add: add32_def)

lemma add32_eq_iff:
  assumes "a \<le> c" and "c < 2 ^ 32" and "b < 2 ^ 32"
  shows "add32 a b = c \<longleftrightarrow> a + b = c"
proof (cases "a + b < 2 ^ 32")
  case True
  then show ?thesis by simp
next
  case False
  with assms have "add32 a b = a + b - 2 ^ 32"
    unfolding add32_def by (subst mod_if) (auto simp: mod_if)
  with False assms show ?thesis by auto
qed

lemma sub32_less: "sub32 a b < 2 ^ 32"
  by (simp add: sub32_def)

lemma sub32_wrap: "a < b \<Longrightarrow> b < 2 ^ 32 \<Longrightarrow> sub32 a b = a + 2 ^ 32 - b"
  by (simp add: sub32_def)

section \<open>C strings\<close>

text \<open>
  \<open>c_str m\<close> is the string that starts at the pointer: the bytes before the first NUL.
  Reading it is in bounds only if there is a NUL.
\<close>

definition c_str :: "byte list \<Rightarrow> byte list" where
  "c_str m = takeWhile (\<lambda>b. b \<noteq> 0) m"

definition c_strlen :: "byte list \<Rightarrow> nat res" where
  "c_strlen m = (if 0 \<in> set m then Inr (length (c_str m)) else Inl OutOfBounds)"

lemma c_str_append [simp]: "0 \<notin> set k \<Longrightarrow> c_str (k @ 0 # r) = k"
proof -
  assume "0 \<notin> set k"
  then have "\<forall>b\<in>set k. b \<noteq> 0" by auto
  then show ?thesis by (simp add: c_str_def takeWhile_append2)
qed

lemma c_strlen_append [simp]: "0 \<notin> set k \<Longrightarrow> c_strlen (k @ 0 # r) = Inr (length k)"
  by (simp add: c_strlen_def)

lemma zero_notin_c_str [simp]: "0 \<notin> set (c_str m)"
  by (auto simp: c_str_def dest: set_takeWhileD)

lemma c_str_id: "0 \<notin> set k \<Longrightarrow> c_str k = k"
  by (induction k) (auto simp: c_str_def)

lemma length_c_str_less: "0 \<in> set m \<Longrightarrow> length (c_str m) < length m"
  by (induction m) (auto simp: c_str_def)

lemma c_str_decomp: "0 \<in> set m \<Longrightarrow> \<exists>r. m = c_str m @ 0 # r"
  by (induction m) (auto simp: c_str_def)

text \<open>
  Scanning for a NUL from offset \<open>o\<close> below \<open>n\<close>: the loop
  \<open>for (; o < len; o++) if (!data[o]) break;\<close>. The result is the offset of the first NUL.
\<close>

fun scan_nul :: "nat \<Rightarrow> byte list \<Rightarrow> nat \<Rightarrow> nat \<Rightarrow> nat option res" where
  "scan_nul 0 m n i = (if i < n then Inl NoFuel else Inr None)"
| "scan_nul (Suc fuel) m n i =
     (if i < n then
        bind_res (rd8 m i) (\<lambda>b. if b = 0 then Inr (Some i) else scan_nul fuel m n (Suc i))
      else Inr None)"

lemma scan_nul_None:
  assumes "n \<le> length m" and "n \<le> i + fuel" and "\<And>j. i \<le> j \<Longrightarrow> j < n \<Longrightarrow> m ! j \<noteq> 0"
  shows "scan_nul fuel m n i = Inr None"
  using assms by (induction fuel arbitrary: i) auto

lemma scan_nul_Some:
  assumes "n \<le> length m" and "n \<le> i + fuel" and "i \<le> j" and "j < n" and "m ! j = 0"
    and "\<And>k. i \<le> k \<Longrightarrow> k < j \<Longrightarrow> m ! k \<noteq> 0"
  shows "scan_nul fuel m n i = Inr (Some j)"
  using assms
proof (induction fuel arbitrary: i)
  case 0
  then show ?case by simp
next
  case (Suc fuel)
  show ?case
  proof (cases "i = j")
    case True
    with Suc.prems show ?thesis by simp
  next
    case False
    with Suc.prems have "scan_nul fuel m n (Suc i) = Inr (Some j)"
      by (intro Suc.IH) auto
    with False Suc.prems show ?thesis by simp
  qed
qed

lemma scan_nul_cases:
  assumes "n \<le> length m" and "n \<le> i + fuel"
  shows "scan_nul fuel m n i = Inr None \<and> (\<forall>j. i \<le> j \<and> j < n \<longrightarrow> m ! j \<noteq> 0)
    \<or> (\<exists>j. scan_nul fuel m n i = Inr (Some j) \<and> i \<le> j \<and> j < n \<and> m ! j = 0
         \<and> (\<forall>k. i \<le> k \<and> k < j \<longrightarrow> m ! k \<noteq> 0))"
proof (cases "\<exists>j. i \<le> j \<and> j < n \<and> m ! j = 0")
  case True
  define j where "j = (LEAST j. i \<le> j \<and> j < n \<and> m ! j = 0)"
  have j: "i \<le> j \<and> j < n \<and> m ! j = 0"
    unfolding j_def by (rule LeastI_ex [OF True])
  have least: "m ! k \<noteq> 0" if "i \<le> k" "k < j" for k
    using not_less_Least [of k "\<lambda>j. i \<le> j \<and> j < n \<and> m ! j = 0"] that j
    by (auto simp: j_def)
  have "scan_nul fuel m n i = Inr (Some j)"
    using assms j least by (intro scan_nul_Some) auto
  with j least show ?thesis by blast
next
  case False
  with assms have "scan_nul fuel m n i = Inr None"
    by (intro scan_nul_None) auto
  with False show ?thesis by blast
qed

section \<open>Comparing memory\<close>

text \<open>The sign of \<open>memcmp\<close> on two ranges of the same length.\<close>

fun memcmp_sgn :: "byte list \<Rightarrow> byte list \<Rightarrow> int" where
  "memcmp_sgn (x # xs) (y # ys) = (if x < y then - 1 else if y < x then 1 else memcmp_sgn xs ys)"
| "memcmp_sgn _ _ = 0"

lemma memcmp_sgn_range: "memcmp_sgn xs ys \<in> {- 1, 0, 1}"
  by (induction xs ys rule: memcmp_sgn.induct) auto

lemma memcmp_sgn_eq_0: "length xs = length ys \<Longrightarrow> memcmp_sgn xs ys = 0 \<longleftrightarrow> xs = ys"
  by (induction xs ys rule: memcmp_sgn.induct) (auto simp: not_less)

lemma memcmp_sgn_antisym: "memcmp_sgn ys xs = - memcmp_sgn xs ys"
  by (induction xs ys rule: memcmp_sgn.induct) (auto simp: not_less)

lemma memcmp_sgn_append:
  "length xs = length ys \<Longrightarrow> memcmp_sgn (xs @ us) (ys @ vs)
     = (if memcmp_sgn xs ys \<noteq> 0 then memcmp_sgn xs ys else memcmp_sgn us vs)"
  by (induction xs ys rule: memcmp_sgn.induct) auto

lemma memcmp_sgn_refl [simp]: "memcmp_sgn xs xs = 0"
  by (induction xs) auto

end
