(* ===== verification/Endian.thy ===== *)
theory Endian
  imports MPrelude
begin

text \<open>
  Little-endian encoding of fixed-width integers (\<open>src/src/common/mlib/intencode.h\<close>): the
  portable loops, which the \<open>memcpy\<close> branch of a little-endian machine agrees with.
\<close>

section \<open>Reading and writing\<close>

text \<open>
  \<open>le_word\<close> is the loop \<open>ret <<= 8; ret |= cptr[size - i - 1]\<close>, from the last byte to
  the first; \<open>le_bytes n v\<close> the loop \<open>*o++ = (value >> (8 * i)) & 0xff\<close> for \<open>i < n\<close>.
\<close>

definition le_word :: "byte list \<Rightarrow> 'a::len word" where
  "le_word bs = foldr (\<lambda>b ret. push_bit 8 ret OR ucast b) bs 0"

definition le_bytes :: "nat \<Rightarrow> 'a::len word \<Rightarrow> byte list" where
  "le_bytes n v = map (\<lambda>i. ucast (drop_bit (8 * i) v AND 0xFF)) [0..<n]"

definition mlib_read_u32le :: "byte list \<Rightarrow> nat \<Rightarrow> 32 word res" where
  "mlib_read_u32le m off = map_res le_word (rd_range m off 4)"

definition mlib_read_i32le :: "byte list \<Rightarrow> nat \<Rightarrow> int res" where
  "mlib_read_i32le m off = map_res sint (mlib_read_u32le m off)"

definition mlib_read_u64le :: "byte list \<Rightarrow> nat \<Rightarrow> 64 word res" where
  "mlib_read_u64le m off = map_res le_word (rd_range m off 8)"

definition mlib_write_u32le :: "32 word \<Rightarrow> byte list" where
  "mlib_write_u32le v = le_bytes 4 v"

definition mlib_write_u64le :: "64 word \<Rightarrow> byte list" where
  "mlib_write_u64le v = le_bytes 8 v"

section \<open>Round trips\<close>

lemma length_le_bytes [simp]: "length (le_bytes n v) = n"
  by (simp add: le_bytes_def)

lemma length_mlib_write [simp]:
  "length (mlib_write_u32le v) = 4" "length (mlib_write_u64le w) = 8"
  by (simp_all add: mlib_write_u32le_def mlib_write_u64le_def)

lemma le_word_Nil [simp]: "le_word [] = 0"
  by (simp add: le_word_def)

lemma le_word_Cons: "le_word (b # bs) = push_bit 8 (le_word bs) OR ucast b"
  by (simp add: le_word_def)

lemma bit_le_word:
  "bit (le_word bs :: 'a::len word) k \<longleftrightarrow>
     k < LENGTH('a) \<and> k div 8 < length bs \<and> bit (bs ! (k div 8)) (k mod 8)"
proof (induction bs arbitrary: k)
  case Nil
  then show ?case by simp
next
  case (Cons b bs)
  show ?case
  proof (cases "k < 8")
    case True
    then show ?thesis
      by (auto simp: le_word_Cons bit_or_iff bit_push_bit_iff bit_ucast_iff)
  next
    case False
    then have k: "k div 8 = Suc ((k - 8) div 8)" "(k - 8) mod 8 = k mod 8"
      by (simp_all add: le_div_geq le_mod_geq)
    have "\<not> bit b k"
      using False bit_imp_le_length by fastforce
    with False k show ?thesis
      by (auto simp: le_word_Cons bit_or_iff bit_push_bit_iff bit_ucast_iff Cons.IH)
  qed
qed

lemma bit_le_bytes:
  assumes "i < n"
  shows "bit (le_bytes n (v :: 'a::len word) ! i) j \<longleftrightarrow> j < 8 \<and> bit v (8 * i + j)"
proof -
  have "(255 :: int) = mask 8" by (simp add: mask_eq_exp_minus_1)
  then have ff: "bit (255 :: int) k \<longleftrightarrow> k < 8" for k
    by (simp only: bit_mask_iff) simp
  show ?thesis
    using assms
    by (auto simp: le_bytes_def bit_ucast_iff bit_and_iff bit_drop_bit_eq ff
        dest: bit_imp_le_length)
qed

lemma le_word_le_bytes:
  assumes "LENGTH('a) \<le> 8 * n"
  shows "le_word (le_bytes n (v :: 'a::len word)) = v"
proof (rule bit_word_eqI)
  fix k assume "k < LENGTH('a)"
  then show "bit (le_word (le_bytes n v) :: 'a word) k = bit v k"
    using assms by (auto simp: bit_le_word bit_le_bytes)
qed

lemma le_bytes_le_word:
  assumes "8 * length bs = LENGTH('a)"
  shows "le_bytes (length bs) (le_word bs :: 'a::len word) = bs"
proof (rule nth_equalityI)
  show "length (le_bytes (length bs) (le_word bs :: 'a word)) = length bs" by simp
next
  fix i assume "i < length (le_bytes (length bs) (le_word bs :: 'a word))"
  then have i: "i < length bs" by simp
  show "le_bytes (length bs) (le_word bs :: 'a word) ! i = bs ! i"
  proof (rule bit_word_eqI)
    fix j assume "j < LENGTH(8)"
    then have "j < 8" by simp
    with i assms show "bit (le_bytes (length bs) (le_word bs :: 'a word) ! i) j = bit (bs ! i) j"
      by (auto simp: bit_le_bytes bit_le_word)
  qed
qed

lemma le_word_write [simp]:
  "le_word (mlib_write_u32le v) = v" "le_word (mlib_write_u64le w) = w"
  by (simp_all add: mlib_write_u32le_def mlib_write_u64le_def le_word_le_bytes)

text \<open>Reading what was written, at any place of the buffer.\<close>

lemma mlib_read_u32le_Inr [simp]:
  "off + 4 \<le> length m \<Longrightarrow> mlib_read_u32le m off = Inr (le_word (take 4 (drop off m)))"
  by (simp add: mlib_read_u32le_def)

lemma mlib_read_u64le_Inr [simp]:
  "off + 8 \<le> length m \<Longrightarrow> mlib_read_u64le m off = Inr (le_word (take 8 (drop off m)))"
  by (simp add: mlib_read_u64le_def)

lemma mlib_read_i32le_Inr [simp]:
  "off + 4 \<le> length m \<Longrightarrow> mlib_read_i32le m off = Inr (sint (le_word (take 4 (drop off m)) :: 32 word))"
  by (simp add: mlib_read_i32le_def)

lemma mlib_read_u32le_write:
  "length p = off \<Longrightarrow> mlib_read_u32le (p @ mlib_write_u32le v @ r) off = Inr v"
  by (auto simp: mlib_read_u32le_def)

lemma mlib_read_u64le_write:
  "length p = off \<Longrightarrow> mlib_read_u64le (p @ mlib_write_u64le v @ r) off = Inr v"
  by (auto simp: mlib_read_u64le_def)

lemma unat_u32_less [simp]: "unat (w :: 32 word) < 2 ^ 32"
  using unsigned_less [of w, where 'a = nat] by simp

lemma unat_u32_less' [simp]: "unat (w :: 32 word) < 4294967296"
  using unsigned_less [of w, where 'a = nat] by simp

lemma take4_write:
  assumes "4 \<le> length bs"
  shows "take 4 bs = mlib_write_u32le (le_word (take 4 bs))"
  using le_bytes_le_word [where bs = "take 4 bs" and 'a = 32] assms
  by (simp add: mlib_write_u32le_def min_def)

end
