(* ===== verification/BsonIter.thy ===== *)
theory BsonIter
  imports Endian
begin

text \<open>
  The BSON iterator (\<open>src/src/bson/bson-iter.c\<close>): the state \<open>bson_iter_t\<close>, its
  initialisation, and \<open>_bson_iter_next_internal\<close>, the function that reads one element of a
  document from untrusted bytes. Every case of its \<open>switch\<close> is a definition of its own.
  The lemmas show that, on a buffer that holds \<open>len\<close> bytes, no step reads outside the
  buffer, that a decoded element lies inside it, and that the iterator moves forward.
\<close>

section \<open>Types of elements\<close>

datatype bson_type =
    BSON_TYPE_EOD | BSON_TYPE_DOUBLE | BSON_TYPE_UTF8 | BSON_TYPE_DOCUMENT | BSON_TYPE_ARRAY
  | BSON_TYPE_BINARY | BSON_TYPE_UNDEFINED | BSON_TYPE_OID | BSON_TYPE_BOOL
  | BSON_TYPE_DATE_TIME | BSON_TYPE_NULL | BSON_TYPE_REGEX | BSON_TYPE_DBPOINTER
  | BSON_TYPE_CODE | BSON_TYPE_SYMBOL | BSON_TYPE_CODEWSCOPE | BSON_TYPE_INT32
  | BSON_TYPE_TIMESTAMP | BSON_TYPE_INT64 | BSON_TYPE_DECIMAL128 | BSON_TYPE_MAXKEY
  | BSON_TYPE_MINKEY

fun type_byte :: "bson_type \<Rightarrow> byte" where
  "type_byte BSON_TYPE_EOD = 0x00"
| "type_byte BSON_TYPE_DOUBLE = 0x01"
| "type_byte BSON_TYPE_UTF8 = 0x02"
| "type_byte BSON_TYPE_DOCUMENT = 0x03"
| "type_byte BSON_TYPE_ARRAY = 0x04"
| "type_byte BSON_TYPE_BINARY = 0x05"
| "type_byte BSON_TYPE_UNDEFINED = 0x06"
| "type_byte BSON_TYPE_OID = 0x07"
| "type_byte BSON_TYPE_BOOL = 0x08"
| "type_byte BSON_TYPE_DATE_TIME = 0x09"
| "type_byte BSON_TYPE_NULL = 0x0A"
| "type_byte BSON_TYPE_REGEX = 0x0B"
| "type_byte BSON_TYPE_DBPOINTER = 0x0C"
| "type_byte BSON_TYPE_CODE = 0x0D"
| "type_byte BSON_TYPE_SYMBOL = 0x0E"
| "type_byte BSON_TYPE_CODEWSCOPE = 0x0F"
| "type_byte BSON_TYPE_INT32 = 0x10"
| "type_byte BSON_TYPE_TIMESTAMP = 0x11"
| "type_byte BSON_TYPE_INT64 = 0x12"
| "type_byte BSON_TYPE_DECIMAL128 = 0x13"
| "type_byte BSON_TYPE_MAXKEY = 0x7F"
| "type_byte BSON_TYPE_MINKEY = 0xFF"

definition all_types :: "bson_type list" where
  "all_types =
     [BSON_TYPE_EOD, BSON_TYPE_DOUBLE, BSON_TYPE_UTF8, BSON_TYPE_DOCUMENT, BSON_TYPE_ARRAY,
      BSON_TYPE_BINARY, BSON_TYPE_UNDEFINED, BSON_TYPE_OID, BSON_TYPE_BOOL, BSON_TYPE_DATE_TIME,
      BSON_TYPE_NULL, BSON_TYPE_REGEX, BSON_TYPE_DBPOINTER, BSON_TYPE_CODE, BSON_TYPE_SYMBOL,
      BSON_TYPE_CODEWSCOPE, BSON_TYPE_INT32, BSON_TYPE_TIMESTAMP, BSON_TYPE_INT64,
      BSON_TYPE_DECIMAL128, BSON_TYPE_MAXKEY, BSON_TYPE_MINKEY]"

text \<open>The type a byte stands for, if any: a byte of no type takes the \<open>default\<close> branch.\<close>

definition bson_type_of :: "byte \<Rightarrow> bson_type option" where
  "bson_type_of b = List.find (\<lambda>t. type_byte t = b) all_types"

lemma bson_type_of_type_byte [simp]: "bson_type_of (type_byte t) = Some t"
  by (cases t) (simp_all add: bson_type_of_def all_types_def)

lemma bson_type_of_Some: "bson_type_of b = Some t \<longleftrightarrow> b = type_byte t"
proof
  assume "bson_type_of b = Some t"
  then show "b = type_byte t"
    by (auto simp: bson_type_of_def find_Some_iff)
qed simp

lemma type_byte_inject [simp]: "type_byte a = type_byte b \<longleftrightarrow> a = b"
  by (metis bson_type_of_type_byte option.inject)

declare type_byte.simps [simp del]

definition BSON_SUBTYPE_BINARY :: byte where
  "BSON_SUBTYPE_BINARY = 0x00"

definition BSON_SUBTYPE_BINARY_DEPRECATED :: byte where
  "BSON_SUBTYPE_BINARY_DEPRECATED = 0x02"

section \<open>The iterator and its initialisation\<close>

text \<open>
  \<open>it_raw\<close> is the memory from the pointer \<open>raw\<close> to the end of the buffer, \<open>None\<close> when the
  pointer is \<open>NULL\<close>. The other fields are the \<open>uint32_t\<close> fields of \<open>bson_iter_t\<close>.
\<close>

record bson_iter =
  it_raw :: "byte list option"
  it_len :: nat
  it_off :: nat
  it_type :: nat
  it_key :: nat
  it_d1 :: nat
  it_d2 :: nat
  it_d3 :: nat
  it_d4 :: nat
  it_next_off :: nat
  it_err_off :: nat

definition iter_zero :: bson_iter where
  "iter_zero = \<lparr>it_raw = None, it_len = 0, it_off = 0, it_type = 0, it_key = 0,
     it_d1 = 0, it_d2 = 0, it_d3 = 0, it_d4 = 0, it_next_off = 0, it_err_off = 0\<rparr>"

definition iter_start :: "byte list \<Rightarrow> nat \<Rightarrow> bson_iter" where
  "iter_start data n = iter_zero\<lparr>it_raw := Some data, it_len := n, it_next_off := 4\<rparr>"

definition INT_MAX :: nat where
  "INT_MAX = 2147483647"

text \<open>\<open>bson_iter_init\<close> on a \<open>bson_t\<close> whose length field is \<open>n\<close> and whose data is \<open>data\<close>.\<close>

definition bson_iter_init :: "byte list \<Rightarrow> nat \<Rightarrow> bool \<times> bson_iter" where
  "bson_iter_init data n = (if n < 5 then (False, iter_zero) else (True, iter_start data n))"

definition bson_iter_init_from_data :: "byte list \<Rightarrow> nat \<Rightarrow> (bool \<times> bson_iter) res" where
  "bson_iter_init_from_data data n =
     (if n < 5 \<or> INT_MAX < n then Inr (False, iter_zero)
      else bind_res (mlib_read_u32le data 0) (\<lambda>hdr_len.
        if unat hdr_len \<noteq> n then Inr (False, iter_zero)
        else bind_res (rd8 data (n - 1)) (\<lambda>last.
          if last \<noteq> 0 then Inr (False, iter_zero)
          else Inr (True, iter_start data n))))"

section \<open>Decoding one element\<close>

text \<open>
  Each case of the \<open>switch\<close> gets the buffer, \<open>len\<close>, the offset \<open>o\<close> after the key and the
  iterator, and says how it left: \<open>Filled\<close> at a \<open>break\<close>, \<open>Invalid\<close> at a
  \<open>goto mark_invalid\<close>, \<open>Unsupported\<close> in the \<open>default\<close> branch. The second component is
  the value of \<open>o\<close>, which the regular expression case moves.
\<close>

datatype outcome = Filled | Invalid | Unsupported

type_synonym field_result = "(outcome \<times> nat \<times> bson_iter) res"

definition fixed_field :: "nat \<Rightarrow> nat \<Rightarrow> bson_iter \<Rightarrow> field_result" where
  "fixed_field n o' it = Inr (Filled, o', it\<lparr>it_next_off := add32 o' n\<rparr>)"

definition invalid_at :: "nat \<Rightarrow> nat \<Rightarrow> bson_iter \<Rightarrow> field_result" where
  "invalid_at e o' it = Inr (Invalid, o', it\<lparr>it_err_off := e\<rparr>)"

definition string_field :: "byte list \<Rightarrow> nat \<Rightarrow> nat \<Rightarrow> bson_iter \<Rightarrow> field_result" where
  "string_field data len o' it =
     (if add32 o' 4 \<ge> len then invalid_at o' o' it
      else let it = it\<lparr>it_d2 := add32 o' 4\<rparr> in
        bind_res (mlib_read_u32le data (it_d1 it)) (\<lambda>lw. let l = unat lw in
          if l > sub32 len (add32 o' 4) then invalid_at o' o' it
          else let it = it\<lparr>it_next_off := add32 (add32 o' 4) l\<rparr> in
            if l = 0 \<or> it_next_off it \<ge> len then invalid_at o' o' it
            else bind_res (rd8 data (it_d2 it + sub32 l 1)) (\<lambda>b.
              if b \<noteq> 0 then invalid_at (sub32 (add32 (add32 o' 4) l) 1) o' it
              else Inr (Filled, o', it))))"

definition binary_field :: "byte list \<Rightarrow> nat \<Rightarrow> nat \<Rightarrow> bson_iter \<Rightarrow> field_result" where
  "binary_field data len o' it =
     (if o' \<ge> sub32 len 4 then invalid_at o' o' it
      else let it = it\<lparr>it_d2 := add32 o' 4, it_d3 := add32 o' 5\<rparr> in
        bind_res (mlib_read_u32le data (it_d1 it)) (\<lambda>lw. let l = unat lw in
          if l \<ge> sub32 (sub32 len o') 4 then invalid_at o' o' it
          else bind_res (rd8 data (it_d2 it)) (\<lambda>subtype.
            let done = Inr (Filled, o', it\<lparr>it_next_off := add32 (add32 o' 5) l\<rparr>) in
            if subtype = BSON_SUBTYPE_BINARY_DEPRECATED then
              if l < 4 then invalid_at o' o' it
              else bind_res (mlib_read_i32le data (it_d3 it)) (\<lambda>bin_len.
                if bin_len \<noteq> int (sub32 l 4) then invalid_at (it_d3 it) o' it
                else done)
            else done)))"

definition document_field :: "byte list \<Rightarrow> nat \<Rightarrow> nat \<Rightarrow> bson_iter \<Rightarrow> field_result" where
  "document_field data len o' it =
     (if o' \<ge> sub32 len 4 then invalid_at o' o' it
      else bind_res (mlib_read_u32le data (it_d1 it)) (\<lambda>lw. let l = unat lw in
        if l > len \<or> l > sub32 len o' then invalid_at o' o' it
        else Inr (Filled, o', it\<lparr>it_next_off := add32 o' l\<rparr>)))"

definition bool_field :: "byte list \<Rightarrow> nat \<Rightarrow> nat \<Rightarrow> bson_iter \<Rightarrow> field_result" where
  "bool_field data len o' it =
     (if it_d1 it \<ge> len then invalid_at o' o' it
      else bind_res (rd8 data (it_d1 it)) (\<lambda>val.
        if val \<noteq> 0x00 \<and> val \<noteq> 0x01 then invalid_at o' o' it
        else Inr (Filled, o', it\<lparr>it_next_off := add32 o' 1\<rparr>)))"

definition regex_field :: "byte list \<Rightarrow> nat \<Rightarrow> nat \<Rightarrow> bson_iter \<Rightarrow> field_result" where
  "regex_field data len o' it =
     bind_res (scan_nul len data len o') (\<lambda>eor. case eor of
       None \<Rightarrow> invalid_at (it_next_off it) (max o' len) it
     | Some j \<Rightarrow>
         let o1 = add32 j 1; it = it\<lparr>it_d2 := o1\<rparr> in
         bind_res (scan_nul len data len o1) (\<lambda>eoo. case eoo of
           None \<Rightarrow> invalid_at (it_next_off it) (max o1 len) it
         | Some k \<Rightarrow> Inr (Filled, k, it\<lparr>it_next_off := add32 k 1\<rparr>)))"

definition dbpointer_field :: "byte list \<Rightarrow> nat \<Rightarrow> nat \<Rightarrow> bson_iter \<Rightarrow> field_result" where
  "dbpointer_field data len o' it =
     (if o' \<ge> sub32 len 4 then invalid_at o' o' it
      else let it = it\<lparr>it_d2 := add32 o' 4\<rparr> in
        bind_res (mlib_read_u32le data (it_d1 it)) (\<lambda>lw. let l = unat lw in
          if l = 0 \<or> l > sub32 (sub32 len o') 4 then invalid_at o' o' it
          else bind_res (rd8 data (o' + l + 3)) (\<lambda>b.
            if b \<noteq> 0 then invalid_at (add32 (add32 o' l) 3) o' it
            else Inr (Filled, o', it\<lparr>it_d3 := add32 (add32 o' 4) l,
                   it_next_off := add32 (add32 (add32 o' 4) l) 12\<rparr>))))"

definition codewscope_field :: "byte list \<Rightarrow> nat \<Rightarrow> nat \<Rightarrow> bson_iter \<Rightarrow> field_result" where
  "codewscope_field data len o' it =
     (if len < 19 \<or> o' \<ge> sub32 len 14 then invalid_at o' o' it
      else let it = it\<lparr>it_d2 := add32 o' 4, it_d3 := add32 o' 8\<rparr> in
        bind_res (mlib_read_u32le data (it_d1 it)) (\<lambda>w1. let l1 = unat w1 in
          if l1 < 14 \<or> l1 \<ge> sub32 len o' then invalid_at o' o' it
          else let it = it\<lparr>it_next_off := add32 o' l1\<rparr> in
            if it_next_off it \<ge> len then invalid_at o' o' it
            else bind_res (mlib_read_u32le data (it_d2 it)) (\<lambda>w2. let l2 = unat w2 in
              if l2 = 0 \<or> l2 \<ge> sub32 (sub32 (sub32 len o') 4) 4 then invalid_at o' o' it
              else if add32 (add32 (add32 (add32 o' 4) 4) l2) 4 \<ge> it_next_off it
              then invalid_at (add32 o' 4) o' it
              else let it = it\<lparr>it_d4 := add32 (add32 (add32 o' 4) 4) l2\<rparr> in
                bind_res (mlib_read_u32le data (it_d4 it)) (\<lambda>dw. let doclen = unat dw in
                  if add32 (add32 (add32 (add32 o' 4) 4) l2) doclen \<noteq> it_next_off it
                  then invalid_at (add32 (add32 (add32 o' 4) 4) l2) o' it
                  else Inr (Filled, o', it)))))"

text \<open>The \<open>switch\<close> on the type byte.\<close>

definition fill_field :: "byte list \<Rightarrow> nat \<Rightarrow> nat \<Rightarrow> byte \<Rightarrow> bson_iter \<Rightarrow> field_result" where
  "fill_field data len o' ty it =
     (case bson_type_of ty of
        None \<Rightarrow> Inr (Unsupported, o', it\<lparr>it_err_off := o'\<rparr>)
      | Some t \<Rightarrow> (case t of
          BSON_TYPE_DATE_TIME \<Rightarrow> fixed_field 8 o' it
        | BSON_TYPE_DOUBLE \<Rightarrow> fixed_field 8 o' it
        | BSON_TYPE_INT64 \<Rightarrow> fixed_field 8 o' it
        | BSON_TYPE_TIMESTAMP \<Rightarrow> fixed_field 8 o' it
        | BSON_TYPE_CODE \<Rightarrow> string_field data len o' it
        | BSON_TYPE_SYMBOL \<Rightarrow> string_field data len o' it
        | BSON_TYPE_UTF8 \<Rightarrow> string_field data len o' it
        | BSON_TYPE_BINARY \<Rightarrow> binary_field data len o' it
        | BSON_TYPE_ARRAY \<Rightarrow> document_field data len o' it
        | BSON_TYPE_DOCUMENT \<Rightarrow> document_field data len o' it
        | BSON_TYPE_OID \<Rightarrow> fixed_field 12 o' it
        | BSON_TYPE_BOOL \<Rightarrow> bool_field data len o' it
        | BSON_TYPE_REGEX \<Rightarrow> regex_field data len o' it
        | BSON_TYPE_DBPOINTER \<Rightarrow> dbpointer_field data len o' it
        | BSON_TYPE_CODEWSCOPE \<Rightarrow> codewscope_field data len o' it
        | BSON_TYPE_INT32 \<Rightarrow> fixed_field 4 o' it
        | BSON_TYPE_DECIMAL128 \<Rightarrow> fixed_field 16 o' it
        | BSON_TYPE_MAXKEY \<Rightarrow> fixed_field 0 o' it
        | BSON_TYPE_MINKEY \<Rightarrow> fixed_field 0 o' it
        | BSON_TYPE_NULL \<Rightarrow> fixed_field 0 o' it
        | BSON_TYPE_UNDEFINED \<Rightarrow> fixed_field 0 o' it
        | BSON_TYPE_EOD \<Rightarrow> invalid_at o' o' it))"

text \<open>
  The out parameters of \<open>_bson_iter_next_internal\<close>. \<open>out_key\<close> is the memory from the key
  on; the parameters keep their old values on the path that leaves before they are set.
\<close>

record next_out =
  out_key :: "byte list option"
  out_type :: byte
  out_unsupported :: bool

definition mark_invalid :: "bson_iter \<Rightarrow> bson_iter" where
  "mark_invalid it = it\<lparr>it_raw := None, it_len := 0, it_next_off := 0\<rparr>"

definition iter_advance :: "bson_iter \<Rightarrow> bson_iter" where
  "iter_advance it = it\<lparr>it_off := it_next_off it, it_type := it_next_off it,
     it_key := add32 (it_next_off it) 1, it_d1 := 0, it_d2 := 0, it_d3 := 0, it_d4 := 0\<rparr>"

text \<open>Where the data of the element starts: after the NUL of the key, if there is one.\<close>

definition key_end :: "byte list \<Rightarrow> nat \<Rightarrow> nat \<Rightarrow> nat \<Rightarrow> nat option res" where
  "key_end data len key next_keylen =
     (if next_keylen = 0
      then map_res (map_option (\<lambda>j. add32 j 1)) (scan_nul len data len key)
      else Inr (Some (add32 (add32 key next_keylen) 1)))"

definition bson_iter_next_internal ::
    "bson_iter \<Rightarrow> nat \<Rightarrow> next_out \<Rightarrow> (bool \<times> bson_iter \<times> next_out) res" where
  "bson_iter_next_internal it next_keylen out =
     (case it_raw it of
        None \<Rightarrow> Inr (False, it, \<lparr>out_key = None, out_type = 0, out_unsupported = False\<rparr>)
      | Some data \<Rightarrow>
          let out = out\<lparr>out_unsupported := False\<rparr>; len = it_len it; it = iter_advance it in
          bind_res (key_end data len (it_key it) next_keylen) (\<lambda>ko. case ko of
            None \<Rightarrow> Inr (False, mark_invalid it, out)
          | Some o' \<Rightarrow>
              let it = it\<lparr>it_d1 := o'\<rparr> in
              bind_res (rd8 data (it_type it)) (\<lambda>ty.
                let out = out\<lparr>out_key := Some (drop (it_key it) data), out_type := ty\<rparr> in
                bind_res (fill_field data len o' ty it) (\<lambda>(oc, o', it). case oc of
                  Invalid \<Rightarrow> Inr (False, mark_invalid it, out)
                | Unsupported \<Rightarrow> Inr (False, mark_invalid it, out\<lparr>out_unsupported := True\<rparr>)
                | Filled \<Rightarrow>
                    if it_next_off it \<ge> len
                    then Inr (False, mark_invalid (it\<lparr>it_err_off := o'\<rparr>), out)
                    else Inr (True, it\<lparr>it_err_off := 0\<rparr>, out)))))"

definition out_zero :: next_out where
  "out_zero = \<lparr>out_key = None, out_type = 0, out_unsupported = False\<rparr>"

definition bson_iter_next :: "bson_iter \<Rightarrow> (bool \<times> bson_iter) res" where
  "bson_iter_next it =
     map_res (\<lambda>(ok, it, _). (ok, it)) (bson_iter_next_internal it 0 out_zero)"

section \<open>What a decoded element satisfies\<close>

definition u32_at :: "byte list \<Rightarrow> nat \<Rightarrow> nat" where
  "u32_at m i = unat (le_word (take 4 (drop i m)) :: 32 word)"

lemma u32_at_less [simp]: "u32_at m i < 4294967296"
  by (simp add: u32_at_def)

text \<open>
  \<open>field_at data t it\<close>: the offsets of \<open>it\<close> describe an element of type \<open>t\<close> that is well
  formed as far as the iterator checks it. The element ends at \<open>it_next_off it\<close>.
\<close>

definition string_at :: "byte list \<Rightarrow> bson_iter \<Rightarrow> bool" where
  "string_at data it \<longleftrightarrow> it_d2 it = it_d1 it + 4 \<and> 0 < u32_at data (it_d1 it)
     \<and> it_next_off it = it_d2 it + u32_at data (it_d1 it) \<and> data ! (it_next_off it - 1) = 0"

definition binary_at :: "byte list \<Rightarrow> bson_iter \<Rightarrow> bool" where
  "binary_at data it \<longleftrightarrow> it_d2 it = it_d1 it + 4 \<and> it_d3 it = it_d1 it + 5
     \<and> it_next_off it = it_d3 it + u32_at data (it_d1 it)
     \<and> (data ! it_d2 it = BSON_SUBTYPE_BINARY_DEPRECATED \<longrightarrow>
          4 \<le> u32_at data (it_d1 it) \<and> u32_at data (it_d3 it) = u32_at data (it_d1 it) - 4)"

definition document_at :: "byte list \<Rightarrow> bson_iter \<Rightarrow> bool" where
  "document_at data it \<longleftrightarrow> it_d1 it + 4 \<le> length data \<and> it_next_off it = it_d1 it + u32_at data (it_d1 it)"

definition bool_at :: "byte list \<Rightarrow> bson_iter \<Rightarrow> bool" where
  "bool_at data it \<longleftrightarrow> it_next_off it = it_d1 it + 1
     \<and> (data ! it_d1 it = 0 \<or> data ! it_d1 it = 1)"

definition regex_at :: "byte list \<Rightarrow> bson_iter \<Rightarrow> bool" where
  "regex_at data it \<longleftrightarrow> it_d1 it < it_d2 it \<and> it_d2 it < it_next_off it
     \<and> data ! (it_d2 it - 1) = 0 \<and> data ! (it_next_off it - 1) = 0
     \<and> (\<forall>k. it_d1 it \<le> k \<and> k < it_d2 it - 1 \<longrightarrow> data ! k \<noteq> 0)
     \<and> (\<forall>k. it_d2 it \<le> k \<and> k < it_next_off it - 1 \<longrightarrow> data ! k \<noteq> 0)"

definition dbpointer_at :: "byte list \<Rightarrow> bson_iter \<Rightarrow> bool" where
  "dbpointer_at data it \<longleftrightarrow> it_d2 it = it_d1 it + 4 \<and> 0 < u32_at data (it_d1 it)
     \<and> it_d3 it = it_d2 it + u32_at data (it_d1 it) \<and> data ! (it_d3 it - 1) = 0
     \<and> it_next_off it = it_d3 it + 12"

definition codewscope_at :: "byte list \<Rightarrow> bson_iter \<Rightarrow> bool" where
  "codewscope_at data it \<longleftrightarrow> it_d2 it = it_d1 it + 4 \<and> it_d3 it = it_d1 it + 8
     \<and> 0 < u32_at data (it_d2 it) \<and> it_d4 it = it_d3 it + u32_at data (it_d2 it)
     \<and> it_d4 it + 4 < it_next_off it
     \<and> it_next_off it = it_d1 it + u32_at data (it_d1 it)
     \<and> it_next_off it = it_d4 it + u32_at data (it_d4 it)"

definition fixed_at :: "nat \<Rightarrow> bson_iter \<Rightarrow> bool" where
  "fixed_at n it \<longleftrightarrow> it_next_off it = it_d1 it + n"

fun field_at :: "byte list \<Rightarrow> bson_type \<Rightarrow> bson_iter \<Rightarrow> bool" where
  "field_at data BSON_TYPE_EOD = (\<lambda>_. False)"
| "field_at data BSON_TYPE_DOUBLE = fixed_at 8"
| "field_at data BSON_TYPE_UTF8 = string_at data"
| "field_at data BSON_TYPE_DOCUMENT = document_at data"
| "field_at data BSON_TYPE_ARRAY = document_at data"
| "field_at data BSON_TYPE_BINARY = binary_at data"
| "field_at data BSON_TYPE_UNDEFINED = fixed_at 0"
| "field_at data BSON_TYPE_OID = fixed_at 12"
| "field_at data BSON_TYPE_BOOL = bool_at data"
| "field_at data BSON_TYPE_DATE_TIME = fixed_at 8"
| "field_at data BSON_TYPE_NULL = fixed_at 0"
| "field_at data BSON_TYPE_REGEX = regex_at data"
| "field_at data BSON_TYPE_DBPOINTER = dbpointer_at data"
| "field_at data BSON_TYPE_CODE = string_at data"
| "field_at data BSON_TYPE_SYMBOL = string_at data"
| "field_at data BSON_TYPE_CODEWSCOPE = codewscope_at data"
| "field_at data BSON_TYPE_INT32 = fixed_at 4"
| "field_at data BSON_TYPE_TIMESTAMP = fixed_at 8"
| "field_at data BSON_TYPE_INT64 = fixed_at 8"
| "field_at data BSON_TYPE_DECIMAL128 = fixed_at 16"
| "field_at data BSON_TYPE_MAXKEY = fixed_at 0"
| "field_at data BSON_TYPE_MINKEY = fixed_at 0"

text \<open>The part of the iterator that decoding the value of an element never changes.\<close>

definition same_frame :: "bson_iter \<Rightarrow> bson_iter \<Rightarrow> bool" where
  "same_frame it it' \<longleftrightarrow> it_raw it' = it_raw it \<and> it_len it' = it_len it \<and> it_off it' = it_off it
     \<and> it_type it' = it_type it \<and> it_key it' = it_key it \<and> it_d1 it' = it_d1 it"

text \<open>
  What every case guarantees on a buffer that holds \<open>len\<close> bytes: it returns, and where it
  fills the iterator with an element that ends before \<open>len\<close>, the element is well formed.
\<close>

definition field_post ::
    "byte list \<Rightarrow> nat \<Rightarrow> (bson_iter \<Rightarrow> bool) \<Rightarrow> bson_iter \<Rightarrow> field_result \<Rightarrow> bool" where
  "field_post data len P it r \<longleftrightarrow> (\<exists>oc o' it'. r = Inr (oc, o', it') \<and> same_frame it it'
     \<and> (oc = Filled \<and> it_next_off it' < len \<longrightarrow> P it'))"

lemma field_post_invalid [simp]:
  "same_frame it it' \<Longrightarrow> field_post data len P it (invalid_at e o' it')"
  by (auto simp: field_post_def invalid_at_def same_frame_def)

lemma same_frame_refl [simp]: "same_frame it it"
  by (simp add: same_frame_def)

lemma same_frame_upd [simp]:
  "same_frame it (it'\<lparr>it_d2 := a\<rparr>) = same_frame it it'"
  "same_frame it (it'\<lparr>it_d3 := a\<rparr>) = same_frame it it'"
  "same_frame it (it'\<lparr>it_d4 := a\<rparr>) = same_frame it it'"
  "same_frame it (it'\<lparr>it_next_off := a\<rparr>) = same_frame it it'"
  "same_frame it (it'\<lparr>it_err_off := a\<rparr>) = same_frame it it'"
  by (simp_all add: same_frame_def)

lemma field_post_Filled:
  "same_frame it it' \<Longrightarrow> (it_next_off it' < len \<Longrightarrow> P it')
     \<Longrightarrow> field_post data len P it (Inr (Filled, o', it'))"
  by (auto simp: field_post_def)

definition field_pre :: "byte list \<Rightarrow> nat \<Rightarrow> nat \<Rightarrow> bson_iter \<Rightarrow> bool" where
  "field_pre data len o' it \<longleftrightarrow> len \<le> length data \<and> len \<le> 2147483647 \<and> o' \<le> 2147483647
     \<and> it_d1 it = o'"

lemma sint_eq_unat:
  assumes "sint (w :: 32 word) = int k - 4" and "k < 4294967296"
  shows "4 \<le> k \<longrightarrow> unat w = k - 4"
proof
  assume "4 \<le> k"
  then have "sint w = int (k - 4)" using assms(1) by simp
  then have "uint w = take_bit 32 (int (k - 4))" by (simp add: uint_sint)
  with assms(2) have "uint w = int (k - 4)" by (simp add: take_bit_int_eq_self)
  then show "unat w = k - 4" by (metis nat_int unat_eq_nat_uint)
qed

lemma fixed_field_post:
  "field_pre data len o' it \<Longrightarrow> n \<le> 16 \<Longrightarrow>
    field_post data len (fixed_at n) it (fixed_field n o' it)"
  by (auto simp: field_pre_def fixed_field_def fixed_at_def intro!: field_post_Filled)

lemma string_field_post:
  assumes "field_pre data len o' it"
  shows "field_post data len (string_at data) it (string_field data len o' it)"
proof (cases "len \<le> o' + 4")
  case True
  with assms show ?thesis by (simp add: field_pre_def string_field_def)
next
  case False
  have "u32_at data o' \<le> len - (o' + 4) \<Longrightarrow> o' + 4 + u32_at data o' \<le> 2147483647"
    using False assms unfolding field_pre_def by arith
  with False assms show ?thesis
    by (auto simp: field_pre_def string_field_def Let_def string_at_def u32_at_def [symmetric]
        intro!: field_post_Filled)
qed

lemma bool_field_post:
  assumes "field_pre data len o' it"
  shows "field_post data len (bool_at data) it (bool_field data len o' it)"
  using assms
  by (auto simp: field_pre_def bool_field_def bool_at_def intro!: field_post_Filled)

lemma document_field_post:
  assumes "field_pre data len o' it" and "5 \<le> len"
  shows "field_post data len (document_at data) it (document_field data len o' it)"
  using assms
  by (auto simp: field_pre_def document_field_def document_at_def Let_def u32_at_def [symmetric]
      intro!: field_post_Filled)

lemma binary_field_post:
  assumes "field_pre data len o' it" and "5 \<le> len"
  shows "field_post data len (binary_at data) it (binary_field data len o' it)"
  using assms
  by (auto simp: field_pre_def binary_field_def binary_at_def Let_def u32_at_def [symmetric]
      intro!: field_post_Filled dest!: sint_eq_unat [OF _ u32_at_less])

lemma regex_field_post:
  assumes "field_pre data len o' it"
  shows "field_post data len (regex_at data) it (regex_field data len o' it)"
proof -
  have len: "len \<le> length data" "len \<le> 2147483647" and d1: "it_d1 it = o'"
    using assms by (simp_all add: field_pre_def)
  consider "scan_nul len data len o' = Inr None"
    | j where "scan_nul len data len o' = Inr (Some j)" "o' \<le> j" "j < len" "data ! j = 0"
        "\<forall>k. o' \<le> k \<and> k < j \<longrightarrow> data ! k \<noteq> 0"
    using scan_nul_cases [of len data o' len] len by auto
  then show ?thesis
  proof cases
    case 1
    then show ?thesis by (simp add: regex_field_def)
  next
    case (2 j)
    then have j: "add32 j 1 = Suc j" using len by simp
    consider "scan_nul len data len (Suc j) = Inr None"
      | k where "scan_nul len data len (Suc j) = Inr (Some k)" "Suc j \<le> k" "k < len" "data ! k = 0"
          "\<forall>i. Suc j \<le> i \<and> i < k \<longrightarrow> data ! i \<noteq> 0"
      using scan_nul_cases [of len data "Suc j" len] len by auto
    then show ?thesis
      using 2 len j d1
      by cases (auto simp: regex_field_def Let_def regex_at_def intro!: field_post_Filled)
  qed
qed

lemma dbpointer_field_post:
  assumes "field_pre data len o' it" and "5 \<le> len"
  shows "field_post data len (dbpointer_at data) it (dbpointer_field data len o' it)"
  using assms
  by (auto simp: field_pre_def dbpointer_field_def dbpointer_at_def Let_def u32_at_def [symmetric]
      ac_simps intro!: field_post_Filled)

lemma codewscope_field_post:
  assumes "field_pre data len o' it"
  shows "field_post data len (codewscope_at data) it (codewscope_field data len o' it)"
proof (cases "len < 19 \<or> len - 14 \<le> o'")
  case True
  with assms show ?thesis by (auto simp: field_pre_def codewscope_field_def)
next
  case False
  with assms show ?thesis
    by (auto simp: field_pre_def codewscope_field_def codewscope_at_def Let_def
        u32_at_def [symmetric] add32_eq_iff intro!: field_post_Filled)
qed

lemma field_post_type:
  "bson_type_of ty = Some t \<Longrightarrow> field_post data len (field_at data t) it r
     \<Longrightarrow> field_post data len (\<lambda>it'. \<exists>t. ty = type_byte t \<and> field_at data t it') it r"
  by (auto simp: field_post_def bson_type_of_Some)

lemma fill_field_post:
  assumes pre: "field_pre data len o' it" and len: "5 \<le> len"
  shows "field_post data len (\<lambda>it'. \<exists>t. ty = type_byte t \<and> field_at data t it') it
    (fill_field data len o' ty it)"
proof (cases "bson_type_of ty")
  case None
  then show ?thesis by (auto simp: fill_field_def field_post_def)
next
  case (Some t)
  note posts = fixed_field_post [OF pre, of 0] fixed_field_post [OF pre, of 4]
    fixed_field_post [OF pre, of 8] fixed_field_post [OF pre, of 12]
    fixed_field_post [OF pre, of 16] string_field_post [OF pre]
    bool_field_post [OF pre] document_field_post [OF pre len] binary_field_post [OF pre len]
    regex_field_post [OF pre] dbpointer_field_post [OF pre len] codewscope_field_post [OF pre]
  have "field_post data len (field_at data t) it (fill_field data len o' ty it)"
    using posts Some by (cases t) (simp_all add: fill_field_def)
  with Some show ?thesis by (rule field_post_type)
qed

section \<open>Safety and progress of the iterator\<close>

text \<open>
  The invariant of an iterator: its buffer holds \<open>len\<close> bytes, at most \<open>INT_MAX\<close> (the bound
  the constructors check), and the next element starts after the length header.
\<close>

definition iter_ok :: "bson_iter \<Rightarrow> bool" where
  "iter_ok it \<longleftrightarrow> (case it_raw it of None \<Rightarrow> True
     | Some data \<Rightarrow> it_len it \<le> length data \<and> it_len it \<le> INT_MAX
         \<and> 4 \<le> it_next_off it \<and> it_next_off it \<le> INT_MAX)"

text \<open>The iterator stands on an element: what holds after a step that returns true.\<close>

definition on_element :: "byte list \<Rightarrow> bson_type \<Rightarrow> bson_iter \<Rightarrow> bool" where
  "on_element data t it \<longleftrightarrow> it_raw it = Some data \<and> it_len it \<le> length data
     \<and> it_len it \<le> INT_MAX \<and> 4 \<le> it_off it
     \<and> it_type it = it_off it \<and> it_key it = it_off it + 1 \<and> it_key it < it_d1 it
     \<and> it_d1 it \<le> it_next_off it \<and> it_next_off it < it_len it
     \<and> data ! (it_d1 it - 1) = 0 \<and> (\<forall>k. it_key it \<le> k \<and> k < it_d1 it - 1 \<longrightarrow> data ! k \<noteq> 0)
     \<and> data ! it_off it = type_byte t \<and> field_at data t it"

lemma field_at_err_off [simp]: "field_at data t (it\<lparr>it_err_off := e\<rparr>) = field_at data t it"
  by (cases t) (simp_all add: fixed_at_def string_at_def binary_at_def document_at_def bool_at_def
      regex_at_def dbpointer_at_def codewscope_at_def)

lemma field_at_next_off: "field_at data t it \<Longrightarrow> it_d1 it \<le> it_next_off it"
  by (cases t) (auto simp: fixed_at_def string_at_def binary_at_def document_at_def bool_at_def
      regex_at_def dbpointer_at_def codewscope_at_def)

lemma on_element_iter_ok: "on_element data t it \<Longrightarrow> iter_ok it"
  by (auto simp: on_element_def iter_ok_def)

lemma iter_ok_start: "n \<le> length data \<Longrightarrow> n \<le> INT_MAX \<Longrightarrow> iter_ok (iter_start data n)"
  by (simp add: iter_ok_def iter_start_def iter_zero_def INT_MAX_def)

lemma iter_ok_invalid [simp]: "iter_ok (mark_invalid it)"
  by (simp add: iter_ok_def mark_invalid_def)

lemma next_internal_Filled:
  assumes "it_raw it = Some data"
    and "key_end data (it_len it) (it_key (iter_advance it)) kl = Inr (Some o')"
    and "it_next_off it < length data"
    and "fill_field data (it_len it) o' (data ! it_next_off it) ((iter_advance it)\<lparr>it_d1 := o'\<rparr>)
           = Inr (oc, o2, it2)"
    and "oc = Filled \<and> it_next_off it2 < it_len it"
  shows "bson_iter_next_internal it kl out = Inr (True, it2\<lparr>it_err_off := 0\<rparr>,
     \<lparr>out_key = Some (drop (it_key (iter_advance it)) data), out_type = data ! it_next_off it,
      out_unsupported = False\<rparr>)"
proof -
  have "it_type (iter_advance it) = it_next_off it" by (simp add: iter_advance_def)
  with assms show ?thesis by (simp add: bson_iter_next_internal_def Let_def)
qed

lemma next_internal_not_Filled:
  assumes "it_raw it = Some data"
    and "key_end data (it_len it) (it_key (iter_advance it)) kl = Inr (Some o')"
    and "it_next_off it < length data"
    and "fill_field data (it_len it) o' (data ! it_next_off it) ((iter_advance it)\<lparr>it_d1 := o'\<rparr>)
           = Inr (oc, o2, it2)"
    and "\<not> (oc = Filled \<and> it_next_off it2 < it_len it)"
  shows "\<exists>it' out'. bson_iter_next_internal it kl out = Inr (False, it', out') \<and> it_raw it' = None"
proof -
  have "it_type (iter_advance it) = it_next_off it" by (simp add: iter_advance_def)
  with assms show ?thesis
    by (cases oc) (simp_all add: bson_iter_next_internal_def Let_def mark_invalid_def)
qed

lemma next_internal_cases:
  assumes "iter_ok it"
  shows "\<exists>it' out'. bson_iter_next_internal it 0 out = Inr (False, it', out') \<and> it_raw it' = None
    \<or> bson_iter_next_internal it 0 out = Inr (True, it', out')
      \<and> (\<exists>data t. it_raw it = Some data \<and> on_element data t it' \<and> it_len it' = it_len it
           \<and> it_off it' = it_next_off it \<and> it_next_off it < it_next_off it'
           \<and> out_type out' = type_byte t \<and> out_key out' = Some (drop (it_key it') data))"
proof (cases "it_raw it")
  case None
  then show ?thesis by (auto simp: bson_iter_next_internal_def)
next
  case (Some data)
  let ?n = "it_next_off it" and ?len = "it_len it"
  have ok: "?len \<le> length data" "?len \<le> 2147483647" "4 \<le> ?n" "?n \<le> 2147483647"
    using assms Some by (simp_all add: iter_ok_def INT_MAX_def)
  have key: "it_key (iter_advance it) = Suc ?n" "it_type (iter_advance it) = ?n"
    using ok by (simp_all add: iter_advance_def)
  consider "scan_nul ?len data ?len (Suc ?n) = Inr None"
    | j where "scan_nul ?len data ?len (Suc ?n) = Inr (Some j)" "Suc ?n \<le> j" "j < ?len"
        "data ! j = 0" "\<forall>k. Suc ?n \<le> k \<and> k < j \<longrightarrow> data ! k \<noteq> 0"
    using scan_nul_cases [of ?len data "Suc ?n" ?len] ok by auto
  then show ?thesis
  proof cases
    case 1
    with Some key show ?thesis
      by (simp add: bson_iter_next_internal_def Let_def key_end_def mark_invalid_def)
  next
    case (2 j)
    define it1 where "it1 = (iter_advance it)\<lparr>it_d1 := Suc j\<rparr>"
    have frame1: "it_raw it1 = Some data" "it_len it1 = ?len" "it_off it1 = ?n"
        "it_type it1 = ?n" "it_key it1 = Suc ?n" "it_d1 it1 = Suc j"
      using Some ok by (simp_all add: it1_def iter_advance_def)
    have "field_pre data ?len (Suc j) it1"
      using 2 ok by (simp add: field_pre_def it1_def)
    then have "field_post data ?len (\<lambda>it'. \<exists>t. data ! ?n = type_byte t \<and> field_at data t it') it1
        (fill_field data ?len (Suc j) (data ! ?n) it1)"
      using 2 ok by (intro fill_field_post) auto
    then obtain oc o2 it2 where fill: "fill_field data ?len (Suc j) (data ! ?n) it1
          = Inr (oc, o2, it2)" and frame: "same_frame it1 it2"
      and post: "oc = Filled \<Longrightarrow> it_next_off it2 < ?len \<Longrightarrow>
          \<exists>t. data ! ?n = type_byte t \<and> field_at data t it2"
      by (auto simp: field_post_def)
    have key_end: "key_end data ?len (it_key (iter_advance it)) 0 = Inr (Some (Suc j))"
      using 2 ok by (simp add: key_end_def key)
    have n: "?n < length data" using 2 ok by simp
    note eval = next_internal_Filled [OF Some key_end n] next_internal_not_Filled [OF Some key_end n]
    show ?thesis
    proof (cases "oc = Filled \<and> it_next_off it2 < ?len")
      case True
      then obtain t where t: "data ! ?n = type_byte t" "field_at data t it2" using post by blast
      have "on_element data t (it2\<lparr>it_err_off := 0\<rparr>)"
        using frame 2 ok t True frame1 field_at_next_off [OF t(2)]
        by (simp add: on_element_def same_frame_def INT_MAX_def)
      moreover have "?n < it_next_off it2"
        using field_at_next_off [OF t(2)] frame frame1 2 by (simp add: same_frame_def)
      moreover have "it_key it2 = Suc ?n" "it_len it2 = ?len" "it_off it2 = ?n"
        using frame frame1 by (simp_all add: same_frame_def)
      ultimately show ?thesis
        using True t eval(1) [OF fill [unfolded it1_def], of out] Some
        by (auto simp: key)
    next
      case False
      then show ?thesis
        using eval(2) [OF fill [unfolded it1_def] False, of out] by blast
    qed
  qed
qed

end
