(* ===== verification/IterAccess.thy ===== *)
theory IterAccess
  imports BsonIter "HOL-Library.Signed_Division"
begin

text \<open>
  The accessors of the iterator (\<open>bson-iter.c\<close>, \<open>bson-iter.h\<close>), the searches by key and the
  descent into nested documents. A \<open>const char *\<close> or \<open>const uint8_t *\<close> result is the memory
  from the pointer on, \<open>None\<close> when it is \<open>NULL\<close>. A \<open>double\<close> is its 64 bits.
\<close>

section \<open>Reading the current element\<close>

definition ITER_TYPE :: "bson_iter \<Rightarrow> byte res" where
  "ITER_TYPE it = bind_res (deref (it_raw it)) (\<lambda>data. rd8 data (it_type it))"

definition bson_iter_type :: "bson_iter \<Rightarrow> byte res" where
  "bson_iter_type it =
     bind_res (c_assert (it_raw it \<noteq> None)) (\<lambda>_.
     bind_res (c_assert (it_len it \<noteq> 0)) (\<lambda>_. ITER_TYPE it))"

definition iter_ptr :: "bson_iter \<Rightarrow> nat \<Rightarrow> byte list res" where
  "iter_ptr it i = map_res (drop i) (deref (it_raw it))"

definition iter_u32 :: "bson_iter \<Rightarrow> nat \<Rightarrow> 32 word res" where
  "iter_u32 it i = bind_res (deref (it_raw it)) (\<lambda>data. mlib_read_u32le data i)"

definition iter_u64 :: "bson_iter \<Rightarrow> nat \<Rightarrow> 64 word res" where
  "iter_u64 it i = bind_res (deref (it_raw it)) (\<lambda>data. mlib_read_u64le data i)"

definition bson_iter_key :: "bson_iter \<Rightarrow> byte list res" where
  "bson_iter_key it = iter_ptr it (it_key it)"

definition bson_iter_key_len :: "bson_iter \<Rightarrow> nat res" where
  "bson_iter_key_len it =
     bind_res (c_assert (it_key it < it_d1 it)) (\<lambda>_. Inr (sub32 (sub32 (it_d1 it) (it_key it)) 1))"

definition bson_iter_utf8_len_unsafe :: "bson_iter \<Rightarrow> nat res" where
  "bson_iter_utf8_len_unsafe it =
     map_res (\<lambda>w. let len = sint w in if len \<le> 0 then 0 else nat (len - 1)) (iter_u32 it (it_d1 it))"

definition bson_iter_binary :: "bson_iter \<Rightarrow> bool \<Rightarrow> (byte \<times> nat \<times> byte list option) res" where
  "bson_iter_binary it want_data =
     bind_res (ITER_TYPE it) (\<lambda>ty.
       if ty = type_byte BSON_TYPE_BINARY then
         bind_res (bind_res (deref (it_raw it)) (\<lambda>data. rd8 data (it_d2 it))) (\<lambda>subtype.
           if want_data then
             bind_res (iter_u32 it (it_d1 it)) (\<lambda>l.
             bind_res (iter_ptr it (it_d3 it)) (\<lambda>p.
               if subtype = BSON_SUBTYPE_BINARY_DEPRECATED
               then Inr (subtype, sub32 (unat l) 4, Some (drop 4 p))
               else Inr (subtype, unat l, Some p)))
           else Inr (subtype, 0, None))
       else Inr (BSON_SUBTYPE_BINARY, 0, None))"

definition bson_iter_binary_subtype :: "bson_iter \<Rightarrow> byte res" where
  "bson_iter_binary_subtype it = map_res fst (bson_iter_binary it False)"

definition bson_iter_binary_equal :: "bson_iter \<Rightarrow> bson_iter \<Rightarrow> bool res" where
  "bson_iter_binary_equal a b =
     bind_res (bson_iter_type a) (\<lambda>ta.
     if ta \<noteq> type_byte BSON_TYPE_BINARY then Inr False
     else bind_res (bson_iter_type b) (\<lambda>tb.
     if tb \<noteq> type_byte BSON_TYPE_BINARY then Inr False
     else bind_res (bson_iter_binary a True) (\<lambda>(st_a, la, da).
          bind_res (bson_iter_binary b True) (\<lambda>(st_b, lb, db).
            if st_a = st_b \<and> la = lb then
              bind_res (deref da) (\<lambda>da. bind_res (deref db) (\<lambda>db.
              bind_res (rd_range da 0 la) (\<lambda>xa. bind_res (rd_range db 0 la) (\<lambda>xb.
                Inr (xa = xb)))))
            else Inr False))))"

definition bson_iter_bool :: "bson_iter \<Rightarrow> bool res" where
  "bson_iter_bool it = bind_res (ITER_TYPE it) (\<lambda>ty.
     if ty = type_byte BSON_TYPE_BOOL
     then bind_res (deref (it_raw it)) (\<lambda>data. map_res (\<lambda>v. v \<noteq> 0) (rd8 data (it_d1 it)))
     else Inr False)"

definition bson_iter_double :: "bson_iter \<Rightarrow> 64 word res" where
  "bson_iter_double it = bind_res (ITER_TYPE it) (\<lambda>ty.
     if ty = type_byte BSON_TYPE_DOUBLE then iter_u64 it (it_d1 it) else Inr 0)"

definition bson_iter_int32 :: "bson_iter \<Rightarrow> 32 word res" where
  "bson_iter_int32 it = bind_res (ITER_TYPE it) (\<lambda>ty.
     if ty = type_byte BSON_TYPE_INT32 then iter_u32 it (it_d1 it) else Inr 0)"

definition bson_iter_int64 :: "bson_iter \<Rightarrow> 64 word res" where
  "bson_iter_int64 it = bind_res (ITER_TYPE it) (\<lambda>ty.
     if ty = type_byte BSON_TYPE_INT64 then iter_u64 it (it_d1 it) else Inr 0)"

text \<open>A \<open>double\<close> compares equal to \<open>0.0\<close> when all bits but the sign are zero.\<close>

definition double_is_zero :: "64 word \<Rightarrow> bool" where
  "double_is_zero d \<longleftrightarrow> d AND 0x7FFFFFFFFFFFFFFF = 0"

definition bson_iter_as_bool :: "bson_iter \<Rightarrow> bool res" where
  "bson_iter_as_bool it = bind_res (ITER_TYPE it) (\<lambda>ty.
     if ty = type_byte BSON_TYPE_BOOL then bson_iter_bool it
     else if ty = type_byte BSON_TYPE_DOUBLE then map_res (\<lambda>d. \<not> double_is_zero d) (bson_iter_double it)
     else if ty = type_byte BSON_TYPE_INT64 then map_res (\<lambda>i. i \<noteq> 0) (bson_iter_int64 it)
     else if ty = type_byte BSON_TYPE_INT32 then map_res (\<lambda>i. i \<noteq> 0) (bson_iter_int32 it)
     else if ty = type_byte BSON_TYPE_UTF8 then Inr True
     else if ty = type_byte BSON_TYPE_NULL \<or> ty = type_byte BSON_TYPE_UNDEFINED then Inr False
     else Inr True)"

text \<open>The pair \<open>(low, high)\<close> of a decimal.\<close>

definition bson_iter_decimal128 :: "bson_iter \<Rightarrow> (64 word \<times> 64 word) option res" where
  "bson_iter_decimal128 it = bind_res (ITER_TYPE it) (\<lambda>ty.
     if ty = type_byte BSON_TYPE_DECIMAL128
     then bind_res (iter_u64 it (it_d1 it)) (\<lambda>low.
          bind_res (iter_u64 it (it_d1 it + 8)) (\<lambda>high. Inr (Some (low, high))))
     else Inr None)"

text \<open>
  \<open>bson_iter_oid\<close> gives a pointer to 12 bytes; every use in this library copies them, so the
  model reads them here.
\<close>

definition bson_iter_oid :: "bson_iter \<Rightarrow> byte list option res" where
  "bson_iter_oid it = bind_res (ITER_TYPE it) (\<lambda>ty.
     if ty = type_byte BSON_TYPE_OID
     then bind_res (deref (it_raw it)) (\<lambda>data. map_res Some (rd_range data (it_d1 it) 12))
     else Inr None)"

definition bson_iter_regex :: "bson_iter \<Rightarrow> (byte list option \<times> byte list option) res" where
  "bson_iter_regex it = bind_res (ITER_TYPE it) (\<lambda>ty.
     if ty = type_byte BSON_TYPE_REGEX
     then bind_res (iter_ptr it (it_d1 it)) (\<lambda>r.
          bind_res (iter_ptr it (it_d2 it)) (\<lambda>opts. Inr (Some r, Some opts)))
     else Inr (None, None))"

definition iter_string :: "bson_type \<Rightarrow> bson_iter \<Rightarrow> (byte list option \<times> nat) res" where
  "iter_string t it = bind_res (ITER_TYPE it) (\<lambda>ty.
     if ty = type_byte t
     then bind_res (bson_iter_utf8_len_unsafe it) (\<lambda>len.
          bind_res (iter_ptr it (it_d2 it)) (\<lambda>s. Inr (Some s, len)))
     else Inr (None, 0))"

definition bson_iter_utf8 :: "bson_iter \<Rightarrow> (byte list option \<times> nat) res" where
  "bson_iter_utf8 it = iter_string BSON_TYPE_UTF8 it"

definition bson_iter_code :: "bson_iter \<Rightarrow> (byte list option \<times> nat) res" where
  "bson_iter_code it = iter_string BSON_TYPE_CODE it"

definition bson_iter_symbol :: "bson_iter \<Rightarrow> (byte list option \<times> nat) res" where
  "bson_iter_symbol it = iter_string BSON_TYPE_SYMBOL it"

text \<open>The fresh copy \<open>bson_iter_dup_utf8\<close> makes: \<open>length\<close> bytes and a NUL.\<close>

definition bson_iter_dup_utf8 :: "bson_iter \<Rightarrow> (byte list option \<times> nat) res" where
  "bson_iter_dup_utf8 it = bind_res (bson_iter_utf8 it) (\<lambda>(s, local_length). case s of
       None \<Rightarrow> Inr (None, local_length)
     | Some str \<Rightarrow> bind_res (rd_range str 0 local_length) (\<lambda>bs.
         Inr (Some (bs @ [0]), local_length)))"

definition bson_iter_codewscope ::
    "bson_iter \<Rightarrow> (byte list option \<times> nat \<times> nat \<times> byte list option) res" where
  "bson_iter_codewscope it = bind_res (ITER_TYPE it) (\<lambda>ty.
     if ty = type_byte BSON_TYPE_CODEWSCOPE
     then bind_res (iter_u32 it (it_d2 it)) (\<lambda>len.
          bind_res (c_assert (0 < unat len)) (\<lambda>_.
          bind_res (iter_u32 it (it_d4 it)) (\<lambda>scope_len.
          bind_res (iter_ptr it (it_d4 it)) (\<lambda>scope.
          bind_res (iter_ptr it (it_d3 it)) (\<lambda>code.
            Inr (Some code, unat len - 1, unat scope_len, Some scope))))))
     else Inr (None, 0, 0, None))"

text \<open>
  The length, the collection and the 12 bytes of the oid. Where the element has another type the
  length is not written (\<open>None\<close>) and the pointers are \<open>NULL\<close>.
\<close>

definition bson_iter_dbpointer ::
    "bson_iter \<Rightarrow> (nat option \<times> byte list option \<times> byte list option) res" where
  "bson_iter_dbpointer it = bind_res (ITER_TYPE it) (\<lambda>ty.
     if ty = type_byte BSON_TYPE_DBPOINTER
     then bind_res (iter_u32 it (it_d1 it)) (\<lambda>l.
          bind_res (iter_ptr it (it_d2 it)) (\<lambda>collection.
          bind_res (deref (it_raw it)) (\<lambda>data.
          bind_res (rd_range data (it_d3 it) 12) (\<lambda>oid.
            Inr (Some (unat l - 1), Some collection, Some oid)))))
     else Inr (None, None, None))"

definition bson_iter_date_time :: "bson_iter \<Rightarrow> 64 word res" where
  "bson_iter_date_time it = bind_res (ITER_TYPE it) (\<lambda>ty.
     if ty = type_byte BSON_TYPE_DATE_TIME then iter_u64 it (it_d1 it) else Inr 0)"

definition bson_iter_time_t :: "bson_iter \<Rightarrow> int res" where
  "bson_iter_time_t it = bind_res (ITER_TYPE it) (\<lambda>ty.
     if ty = type_byte BSON_TYPE_DATE_TIME
     then map_res (\<lambda>v. sint v sdiv 1000) (iter_u64 it (it_d1 it)) else Inr 0)"

text \<open>\<open>(tv_sec, tv_usec)\<close>\<close>

definition bson_iter_timeval :: "bson_iter \<Rightarrow> (int \<times> int) res" where
  "bson_iter_timeval it = bind_res (ITER_TYPE it) (\<lambda>ty.
     if ty = type_byte BSON_TYPE_DATE_TIME
     then map_res (\<lambda>v. (sint v sdiv 1000, (sint v smod 1000) * 1000)) (iter_u64 it (it_d1 it))
     else Inr (0, 0))"

text \<open>\<open>(timestamp, increment)\<close>\<close>

definition bson_iter_timestamp :: "bson_iter \<Rightarrow> (32 word \<times> 32 word) res" where
  "bson_iter_timestamp it = bind_res (ITER_TYPE it) (\<lambda>ty.
     if ty = type_byte BSON_TYPE_TIMESTAMP
     then bind_res (iter_u32 it (it_d1 it)) (\<lambda>inc.
          bind_res (iter_u32 it (it_d1 it + 4)) (\<lambda>ts. Inr (ts, inc)))
     else Inr (0, 0))"

definition bson_iter_document :: "bson_iter \<Rightarrow> (nat \<times> byte list option) res" where
  "bson_iter_document it = bind_res (ITER_TYPE it) (\<lambda>ty.
     if ty = type_byte BSON_TYPE_DOCUMENT
     then bind_res (iter_u32 it (it_d1 it)) (\<lambda>l.
          bind_res (iter_ptr it (it_d1 it)) (\<lambda>p. Inr (unat l, Some p)))
     else Inr (0, None))"

definition bson_iter_array :: "bson_iter \<Rightarrow> (nat \<times> byte list option) res" where
  "bson_iter_array it = bind_res (ITER_TYPE it) (\<lambda>ty.
     if ty = type_byte BSON_TYPE_ARRAY
     then bind_res (iter_u32 it (it_d1 it)) (\<lambda>l.
          bind_res (iter_ptr it (it_d1 it)) (\<lambda>p. Inr (unat l, Some p)))
     else Inr (0, None))"

text \<open>The child iterator of a nested document or array, \<open>None\<close> when the function returns false.\<close>

definition bson_iter_recurse :: "bson_iter \<Rightarrow> bson_iter option res" where
  "bson_iter_recurse it = bind_res (ITER_TYPE it) (\<lambda>ty.
     let child = (\<lambda>(len, data). Some (iter_zero\<lparr>it_raw := data, it_len := len, it_next_off := 4\<rparr>)) in
     if ty = type_byte BSON_TYPE_DOCUMENT then map_res child (bson_iter_document it)
     else if ty = type_byte BSON_TYPE_ARRAY then map_res child (bson_iter_array it)
     else Inr None)"

section \<open>The value of an element\<close>

text \<open>
  \<open>bson_value_t\<close>, one constructor for each member of its union. Strings and documents are the
  memory from the pointer on, with the length next to it.
\<close>

datatype bson_value =
    V_double "64 word" | V_utf8 "byte list" nat | V_document "byte list" nat | V_array "byte list" nat
  | V_binary byte "byte list" nat | V_undefined | V_oid "byte list" | V_bool bool
  | V_datetime "64 word" | V_null | V_regex "byte list" "byte list"
  | V_dbpointer "byte list" nat "byte list" | V_code "byte list" nat | V_symbol "byte list" nat
  | V_codewscope "byte list" nat "byte list" nat | V_int32 "32 word" | V_timestamp "32 word" "32 word"
  | V_int64 "64 word" | V_decimal128 "64 word" "64 word" | V_maxkey | V_minkey

definition bson_iter_value :: "bson_iter \<Rightarrow> bson_value option res" where
  "bson_iter_value it = bind_res (ITER_TYPE it) (\<lambda>ty. case bson_type_of ty of
       None \<Rightarrow> Inr None
     | Some t \<Rightarrow> (case t of
         BSON_TYPE_DOUBLE \<Rightarrow> map_res (\<lambda>d. Some (V_double d)) (bson_iter_double it)
       | BSON_TYPE_UTF8 \<Rightarrow> bind_res (bson_iter_utf8 it) (\<lambda>(s, l).
           map_res (\<lambda>s. Some (V_utf8 s l)) (deref s))
       | BSON_TYPE_DOCUMENT \<Rightarrow> bind_res (bson_iter_document it) (\<lambda>(l, d).
           map_res (\<lambda>d. Some (V_document d l)) (deref d))
       | BSON_TYPE_ARRAY \<Rightarrow> bind_res (bson_iter_array it) (\<lambda>(l, d).
           map_res (\<lambda>d. Some (V_array d l)) (deref d))
       | BSON_TYPE_BINARY \<Rightarrow> bind_res (bson_iter_binary it True) (\<lambda>(st, l, d).
           map_res (\<lambda>d. Some (V_binary st d l)) (deref d))
       | BSON_TYPE_OID \<Rightarrow> bind_res (bson_iter_oid it) (\<lambda>o'.
           map_res (\<lambda>o'. Some (V_oid o')) (deref o'))
       | BSON_TYPE_BOOL \<Rightarrow> map_res (\<lambda>b. Some (V_bool b)) (bson_iter_bool it)
       | BSON_TYPE_DATE_TIME \<Rightarrow> map_res (\<lambda>d. Some (V_datetime d)) (bson_iter_date_time it)
       | BSON_TYPE_REGEX \<Rightarrow> bind_res (bson_iter_regex it) (\<lambda>(r, opts).
           bind_res (deref r) (\<lambda>r. map_res (\<lambda>opts. Some (V_regex r opts)) (deref opts)))
       | BSON_TYPE_DBPOINTER \<Rightarrow> bind_res (bson_iter_dbpointer it) (\<lambda>(l, c, o').
           bind_res (deref l) (\<lambda>l. bind_res (deref o') (\<lambda>o'.
             map_res (\<lambda>c. Some (V_dbpointer c l o')) (deref c))))
       | BSON_TYPE_CODE \<Rightarrow> bind_res (bson_iter_code it) (\<lambda>(s, l).
           map_res (\<lambda>s. Some (V_code s l)) (deref s))
       | BSON_TYPE_SYMBOL \<Rightarrow> bind_res (bson_iter_symbol it) (\<lambda>(s, l).
           map_res (\<lambda>s. Some (V_symbol s l)) (deref s))
       | BSON_TYPE_CODEWSCOPE \<Rightarrow> bind_res (bson_iter_codewscope it) (\<lambda>(c, l, sl, s).
           bind_res (deref c) (\<lambda>c. map_res (\<lambda>s. Some (V_codewscope c l s sl)) (deref s)))
       | BSON_TYPE_INT32 \<Rightarrow> map_res (\<lambda>i. Some (V_int32 i)) (bson_iter_int32 it)
       | BSON_TYPE_TIMESTAMP \<Rightarrow> map_res (\<lambda>(t, i). Some (V_timestamp t i)) (bson_iter_timestamp it)
       | BSON_TYPE_INT64 \<Rightarrow> map_res (\<lambda>i. Some (V_int64 i)) (bson_iter_int64 it)
       | BSON_TYPE_DECIMAL128 \<Rightarrow> map_res (map_option (\<lambda>(l, h). V_decimal128 l h)) (bson_iter_decimal128 it)
       | BSON_TYPE_NULL \<Rightarrow> Inr (Some V_null)
       | BSON_TYPE_UNDEFINED \<Rightarrow> Inr (Some V_undefined)
       | BSON_TYPE_MAXKEY \<Rightarrow> Inr (Some V_maxkey)
       | BSON_TYPE_MINKEY \<Rightarrow> Inr (Some V_minkey)
       | BSON_TYPE_EOD \<Rightarrow> Inr None))"

section \<open>The accessors stay inside the element\<close>

text \<open>
  A string of a value has its length's bytes and a NUL after them; a document or a binary has
  its length's bytes.
\<close>

definition str_ok :: "byte list \<Rightarrow> nat \<Rightarrow> bool" where
  "str_ok m l \<longleftrightarrow> l < length m \<and> m ! l = 0"

fun value_ok :: "bson_value \<Rightarrow> bool" where
  "value_ok (V_utf8 m l) = str_ok m l"
| "value_ok (V_document m l) = (l \<le> length m)"
| "value_ok (V_array m l) = (l \<le> length m)"
| "value_ok (V_binary st m l) = (l \<le> length m)"
| "value_ok (V_oid b) = (length b = 12)"
| "value_ok (V_regex r opts) = (0 \<in> set r \<and> 0 \<in> set opts)"
| "value_ok (V_dbpointer m l b) = (str_ok m l \<and> length b = 12)"
| "value_ok (V_code m l) = str_ok m l"
| "value_ok (V_symbol m l) = str_ok m l"
| "value_ok (V_codewscope m l s sl) = (l < length m \<and> sl \<le> length s)"
| "value_ok _ = True"

named_theorems access_defs \<open>definitions of the accessors\<close>

lemmas [access_defs] = bson_iter_value_def bson_iter_double_def bson_iter_utf8_def iter_string_def
  bson_iter_utf8_len_unsafe_def bson_iter_document_def bson_iter_array_def bson_iter_binary_def
  bson_iter_oid_def bson_iter_bool_def bson_iter_date_time_def bson_iter_regex_def
  bson_iter_dbpointer_def bson_iter_code_def bson_iter_symbol_def bson_iter_codewscope_def
  bson_iter_int32_def bson_iter_timestamp_def bson_iter_int64_def bson_iter_decimal128_def
  iter_u64_def iter_ptr_def u32_at_def [symmetric]

lemma on_element_type: "on_element data t it \<Longrightarrow> ITER_TYPE it = Inr (type_byte t)"
  by (auto simp: on_element_def ITER_TYPE_def)

lemma on_elementD:
  assumes "on_element data t it"
  shows "it_raw it = Some data" "it_next_off it < length data" "length data \<ge> it_len it"
    "it_d1 it \<le> it_next_off it" "it_next_off it < 2147483647" "field_at data t it"
    "it_next_off it < it_len it" "it_len it \<le> 2147483647"
  using assms by (auto simp: on_element_def INT_MAX_def)

lemma sint_u32_small:
  assumes "unat (w :: 32 word) < 2147483648"
  shows "sint w = int (unat w)"
proof -
  have u: "uint w = int (unat w)" by simp
  have "int (unat w) < int (2 ^ 31)" unfolding of_nat_less_iff using assms by simp
  also have "int (2 ^ 31) = 2 ^ 31" by simp
  finally have hi: "int (unat w) < 2 ^ 31" .
  have lo: "- (2 ^ 31) \<le> int (unat w)" by (rule order_trans [of _ 0]) simp_all
  have "signed_take_bit 31 (int (unat w)) = int (unat w)"
    using lo hi by (rule signed_take_bit_int_eq_self)
  then show ?thesis unfolding sint_uint u by simp
qed

lemma iter_u32_ok [simp]:
  "it_raw it = Some data \<Longrightarrow> i + 4 \<le> length data \<Longrightarrow>
    iter_u32 it i = Inr (le_word (take 4 (drop i data)))"
  by (simp add: iter_u32_def)

lemma iter_utf8_len:
  assumes "it_raw it = Some data" and "it_d1 it + 4 \<le> length data"
    and "u32_at data (it_d1 it) < 2147483648"
  shows "bson_iter_utf8_len_unsafe it = Inr (u32_at data (it_d1 it) - 1)"
proof -
  have "sint (le_word (take 4 (drop (it_d1 it) data)) :: 32 word) = int (u32_at data (it_d1 it))"
    using assms(3) unfolding u32_at_def by (rule sint_u32_small)
  then show ?thesis
    using assms(1,2)
    by (auto simp: bson_iter_utf8_len_unsafe_def iter_u32_def Let_def nat_diff_distrib)
qed

lemma iter_string_ok:
  assumes "on_element data t it" and "string_at data it"
  shows "iter_string t it = Inr (Some (drop (it_d2 it) data), u32_at data (it_d1 it) - 1)"
    and "str_ok (drop (it_d2 it) data) (u32_at data (it_d1 it) - 1)"
proof -
  note el = on_elementD [OF assms(1)]
  have d: "it_d2 it = it_d1 it + 4" "0 < u32_at data (it_d1 it)"
    "it_next_off it = it_d2 it + u32_at data (it_d1 it)" "data ! (it_next_off it - 1) = 0"
    using assms(2) by (auto simp: string_at_def)
  with el have "bson_iter_utf8_len_unsafe it = Inr (u32_at data (it_d1 it) - 1)"
    by (intro iter_utf8_len) auto
  then show "iter_string t it = Inr (Some (drop (it_d2 it) data), u32_at data (it_d1 it) - 1)"
    using el(1) by (simp add: iter_string_def on_element_type [OF assms(1)] iter_ptr_def)
  show "str_ok (drop (it_d2 it) data) (u32_at data (it_d1 it) - 1)"
    using el d by (simp add: str_ok_def)
qed

lemma value_ok_string:
  assumes "on_element data t it" and "string_at data it"
  shows "bind_res (iter_string t it) (\<lambda>(s, l). map_res (\<lambda>s. Some (f s l)) (deref s))
      = Inr (Some (f (drop (it_d2 it) data) (u32_at data (it_d1 it) - 1)))"
  by (simp add: iter_string_ok [OF assms])

lemma zero_in_dropI: "i \<le> k \<Longrightarrow> k < length m \<Longrightarrow> m ! k = 0 \<Longrightarrow> 0 \<in> set (drop i (m :: byte list))"
  using nth_mem [of "k - i" "drop i m"] by simp

lemma bson_iter_value_ok:
  assumes "on_element data t it"
  shows "\<exists>v. bson_iter_value it = Inr (Some v) \<and> value_ok v"
proof -
  note el = on_elementD [OF assms] and ty = on_element_type [OF assms]
  note str = iter_string_ok [OF assms]
  have fixed: ?thesis if "fixed_at n it" and
    "n = 8 \<and> t \<in> {BSON_TYPE_DOUBLE, BSON_TYPE_DATE_TIME, BSON_TYPE_TIMESTAMP, BSON_TYPE_INT64}
     \<or> n = 12 \<and> t = BSON_TYPE_OID \<or> n = 4 \<and> t = BSON_TYPE_INT32
     \<or> n = 16 \<and> t = BSON_TYPE_DECIMAL128
     \<or> t \<in> {BSON_TYPE_NULL, BSON_TYPE_UNDEFINED, BSON_TYPE_MAXKEY, BSON_TYPE_MINKEY}" for n
    using that el ty by (elim disjE conjE insertE emptyE) (simp_all add: access_defs fixed_at_def)
  have string: ?thesis if "string_at data it"
    "t \<in> {BSON_TYPE_UTF8, BSON_TYPE_CODE, BSON_TYPE_SYMBOL}"
    using that str ty by (elim insertE emptyE)
      (simp_all add: bson_iter_value_def bson_iter_utf8_def bson_iter_code_def bson_iter_symbol_def)
  have doc: ?thesis if "document_at data it" "t \<in> {BSON_TYPE_DOCUMENT, BSON_TYPE_ARRAY}"
    using that el ty by (elim insertE emptyE) (simp_all add: access_defs document_at_def)
  show ?thesis
  proof (cases t)
    case BSON_TYPE_BOOL
    then have "bool_at data it" using el by simp
    with BSON_TYPE_BOOL el ty show ?thesis by (simp add: access_defs bool_at_def)
  next
    case BSON_TYPE_BINARY
    then have "binary_at data it" using el by simp
    with BSON_TYPE_BINARY el ty show ?thesis
      by (simp add: access_defs binary_at_def split: if_splits) auto
  next
    case BSON_TYPE_REGEX
    then have "regex_at data it" using el by simp
    then have "0 \<in> set (drop (it_d1 it) data)" "0 \<in> set (drop (it_d2 it) data)"
      using el by (auto simp: regex_at_def intro: zero_in_dropI [of _ "it_d2 it - 1"]
          zero_in_dropI [of _ "it_next_off it - 1"])
    with BSON_TYPE_REGEX el ty show ?thesis by (simp add: access_defs)
  next
    case BSON_TYPE_CODEWSCOPE
    then have "codewscope_at data it" using el by simp
    with BSON_TYPE_CODEWSCOPE el ty show ?thesis
      by (simp add: access_defs codewscope_at_def) arith
  next
    case BSON_TYPE_DBPOINTER
    then have "dbpointer_at data it" using el by simp
    with BSON_TYPE_DBPOINTER el ty show ?thesis
      by (simp add: access_defs dbpointer_at_def str_ok_def)
  qed (use el in \<open>auto intro: fixed string doc\<close>)
qed

end
