(* ===== verification/IterFind.thy ===== *)
theory IterFind
  imports IterAccess
begin

text \<open>
  Searching by key and descending into nested documents (\<open>bson-iter.c\<close>): the loops
  \<open>while (bson_iter_next (iter))\<close> with the comparison of keys. Each loop has fuel; an iterator
  whose buffer holds \<open>len\<close> bytes needs at most \<open>len\<close> rounds, which the lemmas show.
\<close>

section \<open>Comparing C strings\<close>

text \<open>\<open>strncmp (a, b, n) == 0\<close>, reading both strings byte by byte.\<close>

fun c_strncmp_eq :: "byte list \<Rightarrow> byte list \<Rightarrow> nat \<Rightarrow> bool res" where
  "c_strncmp_eq a b 0 = Inr True"
| "c_strncmp_eq a b (Suc n) =
     bind_res (rd8 a 0) (\<lambda>x. bind_res (rd8 b 0) (\<lambda>y.
       if x \<noteq> y then Inr False else if x = 0 then Inr True
       else c_strncmp_eq (tl a) (tl b) n))"

text \<open>\<open>tolower\<close> of the C locale, and \<open>bson_strcasecmp (a, b) == 0\<close>.\<close>

definition c_tolower :: "byte \<Rightarrow> byte" where
  "c_tolower b = (if 0x41 \<le> b \<and> b \<le> 0x5A then b + 0x20 else b)"

fun c_strcasecmp_eq :: "byte list \<Rightarrow> byte list \<Rightarrow> bool res" where
  "c_strcasecmp_eq [] _ = Inl OutOfBounds"
| "c_strcasecmp_eq (x # a) [] = Inl OutOfBounds"
| "c_strcasecmp_eq (x # a) (y # b) =
     (if c_tolower x \<noteq> c_tolower y then Inr False else if x = 0 then Inr True
      else c_strcasecmp_eq a b)"

section \<open>The searches\<close>

text \<open>
  \<open>key\<close> is the memory of the key; \<open>keylen\<close> is negative for a NUL-terminated key. The first
  result is the return value.
\<close>

fun find_w_len_loop :: "nat \<Rightarrow> bson_iter \<Rightarrow> byte list \<Rightarrow> nat \<Rightarrow> (bool \<times> bson_iter) res" where
  "find_w_len_loop 0 it key keylen = Inl NoFuel"
| "find_w_len_loop (Suc fuel) it key keylen =
     bind_res (bson_iter_next it) (\<lambda>(ok, it).
       if \<not> ok then Inr (False, it)
       else bind_res (bson_iter_key it) (\<lambda>ikey.
            bind_res (c_strncmp_eq key ikey keylen) (\<lambda>eq.
              if \<not> eq then find_w_len_loop fuel it key keylen
              else bind_res (rd8 ikey keylen) (\<lambda>c.
                if c = 0 then Inr (True, it) else find_w_len_loop fuel it key keylen))))"

definition bson_iter_find_w_len :: "bson_iter \<Rightarrow> byte list \<Rightarrow> int \<Rightarrow> (bool \<times> bson_iter) res" where
  "bson_iter_find_w_len it key keylen =
     bind_res (if keylen < 0 then c_strlen key else Inr (nat keylen)) (\<lambda>n.
       find_w_len_loop (Suc (it_len it)) it key n)"

definition bson_iter_find :: "bson_iter \<Rightarrow> byte list \<Rightarrow> (bool \<times> bson_iter) res" where
  "bson_iter_find it key = bson_iter_find_w_len it key (-1)"

fun find_case_loop :: "nat \<Rightarrow> bson_iter \<Rightarrow> byte list \<Rightarrow> (bool \<times> bson_iter) res" where
  "find_case_loop 0 it key = Inl NoFuel"
| "find_case_loop (Suc fuel) it key =
     bind_res (bson_iter_next it) (\<lambda>(ok, it).
       if \<not> ok then Inr (False, it)
       else bind_res (bson_iter_key it) (\<lambda>ikey.
            bind_res (c_strcasecmp_eq key ikey) (\<lambda>eq.
              if eq then Inr (True, it) else find_case_loop fuel it key)))"

definition bson_iter_find_case :: "bson_iter \<Rightarrow> byte list \<Rightarrow> (bool \<times> bson_iter) res" where
  "bson_iter_find_case it key = find_case_loop (Suc (it_len it)) it key"

definition bson_iter_init_find :: "byte list \<Rightarrow> nat \<Rightarrow> byte list \<Rightarrow> (bool \<times> bson_iter) res" where
  "bson_iter_init_find data n key =
     (case bson_iter_init data n of (ok, it) \<Rightarrow>
        if ok then bson_iter_find it key else Inr (False, it))"

definition bson_iter_init_find_w_len ::
    "byte list \<Rightarrow> nat \<Rightarrow> byte list \<Rightarrow> int \<Rightarrow> (bool \<times> bson_iter) res" where
  "bson_iter_init_find_w_len data n key keylen =
     (case bson_iter_init data n of (ok, it) \<Rightarrow>
        if ok then bson_iter_find_w_len it key keylen else Inr (False, it))"

definition bson_iter_init_find_case :: "byte list \<Rightarrow> nat \<Rightarrow> byte list \<Rightarrow> (bool \<times> bson_iter) res" where
  "bson_iter_init_find_case data n key =
     (case bson_iter_init data n of (ok, it) \<Rightarrow>
        if ok then bson_iter_find_case it key else Inr (False, it))"

text \<open>
  \<open>bson_iter_find_descendant\<close>: the dotted key is the string \<open>dotkey\<close> (its bytes before the NUL).
  The result is \<open>Some descendant\<close> when the function returns true.
\<close>

definition dot :: byte where
  "dot = 0x2E"

definition holds_container :: "bson_iter \<Rightarrow> bool res" where
  "holds_container it = map_res (\<lambda>ty. ty = type_byte BSON_TYPE_DOCUMENT \<or> ty = type_byte BSON_TYPE_ARRAY)
     (bson_iter_type it)"

function bson_iter_find_descendant :: "bson_iter \<Rightarrow> byte list \<Rightarrow> bson_iter option res" where
  "bson_iter_find_descendant it dotkey =
     (let sub = takeWhile (\<lambda>b. b \<noteq> dot) dotkey; rest = dropWhile (\<lambda>b. b \<noteq> dot) dotkey in
      bind_res (bson_iter_find_w_len it (dotkey @ [0]) (int (length sub))) (\<lambda>(found, it).
        if \<not> found then Inr None
        else (case rest of
            [] \<Rightarrow> Inr (Some it)
          | _ # dotkey' \<Rightarrow>
              bind_res (holds_container it) (\<lambda>c.
                if \<not> c then Inr None
                else bind_res (bson_iter_recurse it) (\<lambda>tmp. case tmp of
                    None \<Rightarrow> Inr None
                  | Some tmp \<Rightarrow> bson_iter_find_descendant tmp dotkey')))))"
  by pat_completeness auto
termination
proof (relation "measure (\<lambda>(it, dotkey). length dotkey)", goal_cases)
  case 1
  show ?case by simp
next
  case (2 it dotkey sub rest p found it' c dotkey')
  then have "length (c # dotkey') \<le> length dotkey"
    using length_dropWhile_le [of "\<lambda>b. b \<noteq> dot" dotkey] by simp
  then show ?case by simp
qed

declare bson_iter_find_descendant.simps [simp del]

section \<open>Keys of elements\<close>

definition elem_key :: "byte list \<Rightarrow> bson_iter \<Rightarrow> byte list" where
  "elem_key data it = c_str (drop (it_key it) data)"

lemma on_element_key_decomp:
  assumes "on_element data t it"
  shows "drop (it_key it) data
    = take (it_d1 it - it_key it - 1) (drop (it_key it) data) @ 0 # drop (it_d1 it) data"
proof -
  let ?k = "it_key it" and ?d = "it_d1 it"
  have *: "?k < ?d" "?d \<le> length data" "data ! (?d - 1) = 0"
    using assms by (auto simp: on_element_def)
  have "drop ?k data = take (?d - ?k - 1) (drop ?k data) @ drop (?d - ?k - 1) (drop ?k data)"
    by (rule append_take_drop_id [symmetric])
  also have "drop (?d - ?k - 1) (drop ?k data) = drop (?d - 1) data"
    using * by simp
  also have "drop (?d - 1) data = data ! (?d - 1) # drop ?d data"
    using * Cons_nth_drop_Suc [of "?d - 1" data] by simp
  finally show ?thesis using * by simp
qed

lemma on_element_key:
  assumes "on_element data t it"
  shows "elem_key data it = take (it_d1 it - it_key it - 1) (drop (it_key it) data)"
    and "bson_iter_key it = Inr (drop (it_key it) data)"
    and "drop (it_key it) data = elem_key data it @ 0 # drop (it_d1 it) data"
    and "0 \<notin> set (elem_key data it)"
proof -
  let ?k = "it_key it" and ?d = "it_d1 it"
  have "\<forall>i. ?k \<le> i \<and> i < ?d - 1 \<longrightarrow> data ! i \<noteq> 0" "?d \<le> length data"
    using assms by (auto simp: on_element_def)
  then have nz: "0 \<notin> set (take (?d - ?k - 1) (drop ?k data))"
    by (auto simp: in_set_conv_nth)
  note dec = on_element_key_decomp [OF assms]
  show key: "elem_key data it = take (?d - ?k - 1) (drop ?k data)"
    unfolding elem_key_def by (subst dec) (rule c_str_append [OF nz])
  show "bson_iter_key it = Inr (drop ?k data)"
    using assms by (simp add: bson_iter_key_def iter_ptr_def on_element_def)
  show "drop ?k data = elem_key data it @ 0 # drop ?d data" "0 \<notin> set (elem_key data it)"
    using dec nz by (simp_all add: key)
qed

lemma bson_iter_key_len_ok:
  assumes "on_element data t it"
  shows "bson_iter_key_len it = Inr (length (elem_key data it))"
  using assms on_elementD [OF assms]
  by (auto simp: bson_iter_key_len_def on_element_key(1) [OF assms] on_element_def INT_MAX_def)

lemma c_strncmp_eq_ok:
  assumes "0 \<notin> set k" and "0 \<notin> set i"
  shows "c_strncmp_eq (k @ kr) (i @ 0 # r) (length k) = Inr (take (length k) i = k)"
  using assms
proof (induction k arbitrary: i)
  case Nil
  then show ?case by simp
next
  case (Cons a k)
  then show ?case by (cases i) (auto simp: rd8_def)
qed

lemma find_match:
  assumes "on_element data t it" and "0 \<notin> set k"
  shows "bind_res (c_strncmp_eq (k @ kr) (drop (it_key it) data) (length k)) (\<lambda>eq.
      if \<not> eq then A else bind_res (rd8 (drop (it_key it) data) (length k)) (\<lambda>c.
        if c = 0 then B else A)) = (if elem_key data it = k then B else A)"
proof -
  let ?i = "elem_key data it" and ?r = "drop (it_d1 it) data"
  note key = on_element_key [OF assms(1)]
  have cmp: "c_strncmp_eq (k @ kr) (?i @ 0 # ?r) (length k) = Inr (take (length k) ?i = k)"
    using assms(2) key(4) by (rule c_strncmp_eq_ok)
  show ?thesis
  proof (cases "take (length k) ?i = k")
    case True
    then have le: "length k \<le> length ?i" by (metis length_take min.cobounded1)
    show ?thesis
    proof (cases "length k = length ?i")
      case eq: True
      with True have "?i = k" by simp
      with cmp True show ?thesis by (simp add: key(3))
    next
      case False
      with le have lt: "length k < length ?i" by simp
      then have "?i ! length k \<noteq> 0" using key(4) by (metis nth_mem)
      moreover have "?i \<noteq> k" using lt by auto
      ultimately show ?thesis using cmp True lt by (simp add: key(3) nth_append)
    qed
  next
    case False
    then have "?i \<noteq> k" by auto
    with False cmp show ?thesis by (simp add: key(3))
  qed
qed

section \<open>The searches return, and find the first element with the key\<close>

text \<open>
  \<open>elements it\<close>: the iterators of the elements that follow, in order. It is the specification
  of the loops; \<open>None\<close> from a read outside the buffer does not occur on valid iterators.
\<close>

fun elements_fuel :: "nat \<Rightarrow> bson_iter \<Rightarrow> bson_iter list" where
  "elements_fuel 0 it = []"
| "elements_fuel (Suc fuel) it =
     (case bson_iter_next it of
        Inr (True, it') \<Rightarrow> it' # elements_fuel fuel it'
      | _ \<Rightarrow> [])"

definition elements :: "bson_iter \<Rightarrow> bson_iter list" where
  "elements it = elements_fuel (it_len it) it"

lemma bson_iter_next_cases:
  assumes "iter_ok it"
  shows "(\<exists>it'. bson_iter_next it = Inr (False, it') \<and> it_raw it' = None)
    \<or> (\<exists>it' data t. bson_iter_next it = Inr (True, it') \<and> it_raw it = Some data
         \<and> on_element data t it' \<and> it_len it' = it_len it \<and> it_off it' = it_next_off it
         \<and> it_next_off it < it_next_off it')"
  using next_internal_cases [OF assms, of out_zero] by (auto simp: bson_iter_next_def)

text \<open>Rounds an iterator can still make.\<close>

definition rounds :: "bson_iter \<Rightarrow> nat" where
  "rounds it = it_len it - it_next_off it"

lemma elements_fuel_enough:
  assumes "iter_ok it" and "rounds it \<le> f" and "rounds it \<le> g"
  shows "elements_fuel f it = elements_fuel g it"
  using assms
proof (induction f arbitrary: it g)
  case 0
  show ?case
  proof (cases g)
    case (Suc g')
    from bson_iter_next_cases [OF 0(1)] show ?thesis
    proof (elim disjE exE conjE)
      fix it' data t assume "on_element data t it'" "it_next_off it < it_next_off it'" "it_len it' = it_len it"
      with 0 show ?thesis using on_elementD(7) by (fastforce simp: rounds_def)
    qed (simp add: Suc)
  qed simp
next
  case (Suc f)
  from bson_iter_next_cases [OF Suc.prems(1)] show ?case
  proof (elim disjE exE conjE)
    fix it' assume "bson_iter_next it = Inr (False, it')"
    then show ?thesis by (cases g) simp_all
  next
    fix it' data t
    assume *: "bson_iter_next it = Inr (True, it')" "on_element data t it'"
      "it_next_off it < it_next_off it'" "it_len it' = it_len it"
    then have lt: "rounds it' < rounds it"
      using on_elementD(7) [OF *(2)] by (simp add: rounds_def)
    then obtain g' where g: "g = Suc g'" using Suc.prems(3) by (cases g) auto
    have "elements_fuel f it' = elements_fuel g' it'"
      using lt Suc.prems g by (intro Suc.IH on_element_iter_ok [OF *(2)]) auto
    with * g show ?thesis by simp
  qed
qed

text \<open>
  Induction along an iterator: it stops, or it moves to an element and has fewer rounds left.
\<close>

lemma iter_induct [consumes 1, case_names stop step]:
  assumes "iter_ok it"
    and stop: "\<And>it it'. iter_ok it \<Longrightarrow> bson_iter_next it = Inr (False, it') \<Longrightarrow> it_raw it' = None \<Longrightarrow> P it"
    and step: "\<And>it it' data t. iter_ok it \<Longrightarrow> bson_iter_next it = Inr (True, it') \<Longrightarrow>
      it_raw it = Some data \<Longrightarrow> on_element data t it' \<Longrightarrow> it_len it' = it_len it \<Longrightarrow>
      rounds it' < rounds it \<Longrightarrow> P it' \<Longrightarrow> P it"
  shows "P it"
  using assms(1)
proof (induction "rounds it" arbitrary: it rule: less_induct)
  case less
  from bson_iter_next_cases [OF less.prems] show ?case
  proof (elim disjE exE conjE)
    fix it' assume "bson_iter_next it = Inr (False, it')" "it_raw it' = None"
    with less.prems show ?thesis by (rule stop)
  next
    fix it' data t
    assume *: "bson_iter_next it = Inr (True, it')" "it_raw it = Some data" "on_element data t it'"
      "it_next_off it < it_next_off it'" "it_len it' = it_len it"
    then have lt: "rounds it' < rounds it"
      using on_elementD(7) [OF *(3)] by (simp add: rounds_def)
    then have "P it'" using on_element_iter_ok [OF *(3)] by (rule less.hyps)
    with less.prems * lt show ?thesis by (intro step [of it it' data t])
  qed
qed

lemma elements_stop: "bson_iter_next it = Inr (False, it') \<Longrightarrow> elements it = []"
  by (cases "it_len it") (simp_all add: elements_def)

lemma elements_step:
  assumes "iter_ok it" and "bson_iter_next it = Inr (True, it')" and "on_element data t it'"
    and "it_len it' = it_len it" and "rounds it' < rounds it"
  shows "elements it = it' # elements it'"
proof -
  obtain n where n: "it_len it = Suc n"
    using assms(5) by (cases "it_len it") (simp_all add: rounds_def)
  have "elements_fuel n it' = elements_fuel (Suc n) it'"
    using assms n on_element_iter_ok [OF assms(3)]
    by (intro elements_fuel_enough) (simp_all add: rounds_def)
  with assms(2,4) n show ?thesis by (simp add: elements_def)
qed

lemma elements_on_element:
  assumes "iter_ok it" and "it_raw it = Some data"
  shows "\<forall>e \<in> set (elements it). \<exists>t. on_element data t e"
  using assms
proof (induction rule: iter_induct)
  case (stop it it')
  then show ?case by (simp add: elements_stop)
next
  case (step it it' data' t)
  then have "it_raw it' = Some data" by (auto dest: on_elementD(1))
  with step show ?case by (auto simp: elements_step)
qed

text \<open>The outcome of a search that looks for the first of \<open>es\<close> that satisfies \<open>P\<close>.\<close>

definition found_first :: "(bson_iter \<Rightarrow> bool) \<Rightarrow> bson_iter list \<Rightarrow> (bool \<times> bson_iter) res \<Rightarrow> bool" where
  "found_first P es r \<longleftrightarrow> (case List.find P es of
      Some e \<Rightarrow> r = Inr (True, e)
    | None \<Rightarrow> \<exists>it'. r = Inr (False, it') \<and> it_raw it' = None)"

lemma find_w_len_loop_first:
  assumes "iter_ok it" and "it_raw it = Some data" and "0 \<notin> set k" and "rounds it < f"
  shows "found_first (\<lambda>e. elem_key data e = k) (elements it) (find_w_len_loop f it (k @ kr) (length k))"
  using assms
proof (induction arbitrary: f rule: iter_induct)
  case (stop it it')
  then obtain f' where "f = Suc f'" by (cases f) auto
  with stop show ?case by (simp add: elements_stop found_first_def)
next
  case (step it it' data' t)
  then obtain f' where f: "f = Suc f'" by (cases f) auto
  have raw: "it_raw it' = Some data" and [simp]: "data' = data"
    using step by (auto dest: on_elementD(1))
  with step f have IH: "found_first (\<lambda>e. elem_key data e = k) (elements it')
      (find_w_len_loop f' it' (k @ kr) (length k))" by simp
  have "find_w_len_loop f it (k @ kr) (length k)
      = (if elem_key data it' = k then Inr (True, it') else find_w_len_loop f' it' (k @ kr) (length k))"
    using step f on_element_key(2) [of data t it']
      find_match [of data t it' k kr "find_w_len_loop f' it' (k @ kr) (length k)" "Inr (True, it')"]
    by simp
  with IH step show ?case
    by (auto simp: found_first_def elements_step)
qed

lemma bson_iter_find_first:
  assumes "iter_ok it" and "it_raw it = Some data" and "0 \<notin> set k"
  shows "found_first (\<lambda>e. elem_key data e = k) (elements it) (bson_iter_find it (k @ 0 # kr))"
  using find_w_len_loop_first [OF assms, of "Suc (it_len it)" "0 # kr"] assms(3)
  by (simp add: bson_iter_find_def bson_iter_find_w_len_def rounds_def)

lemma bson_iter_find_w_len_first:
  assumes "iter_ok it" and "it_raw it = Some data" and "0 \<notin> set k"
  shows "found_first (\<lambda>e. elem_key data e = k) (elements it)
    (bson_iter_find_w_len it (k @ kr) (int (length k)))"
  using find_w_len_loop_first [OF assms, of "Suc (it_len it)" kr]
  by (simp add: bson_iter_find_w_len_def rounds_def)

lemma c_strcasecmp_eq_ok:
  assumes "0 \<notin> set k" and "0 \<notin> set i"
  shows "c_strcasecmp_eq (k @ 0 # kr) (i @ 0 # r) = Inr (map c_tolower k = map c_tolower i)"
proof -
  have tl: "c_tolower a = c_tolower 0 \<longleftrightarrow> a = 0" "c_tolower 0 = c_tolower a \<longleftrightarrow> a = 0" for a
    unfolding c_tolower_def by (auto; uint_arith)+
  show ?thesis
    using assms
  proof (induction k arbitrary: i)
    case Nil
    then show ?case by (cases i) (auto simp: tl)
  next
    case (Cons a k)
    then show ?case by (cases i) (auto simp: tl)
  qed
qed

lemma find_case_loop_first:
  assumes "iter_ok it" and "it_raw it = Some data" and "0 \<notin> set k" and "rounds it < f"
  shows "found_first (\<lambda>e. map c_tolower k = map c_tolower (elem_key data e)) (elements it)
    (find_case_loop f it (k @ 0 # kr))"
  using assms
proof (induction arbitrary: f rule: iter_induct)
  case (stop it it')
  then obtain f' where "f = Suc f'" by (cases f) auto
  with stop show ?case by (simp add: elements_stop found_first_def)
next
  case (step it it' data' t)
  then obtain f' where f: "f = Suc f'" by (cases f) auto
  have raw: "it_raw it' = Some data" and [simp]: "data' = data"
    using step by (auto dest: on_elementD(1))
  note key = on_element_key [of data t it']
  have "find_case_loop f it (k @ 0 # kr) = (if map c_tolower k = map c_tolower (elem_key data it')
      then Inr (True, it') else find_case_loop f' it' (k @ 0 # kr))"
    using step f key c_strcasecmp_eq_ok [of k "elem_key data it'"] by simp
  with raw step f show ?case
    by (auto simp: found_first_def elements_step)
qed

lemma bson_iter_find_case_first:
  assumes "iter_ok it" and "it_raw it = Some data" and "0 \<notin> set k"
  shows "found_first (\<lambda>e. map c_tolower k = map c_tolower (elem_key data e)) (elements it)
    (bson_iter_find_case it (k @ 0 # kr))"
  using find_case_loop_first [OF assms, of "Suc (it_len it)"]
  by (simp add: bson_iter_find_case_def rounds_def)

end
