(* ===== verification/DocNest.thy ===== *)
theory DocNest
  imports IterFind
begin

text \<open>
  Descending into nested documents (\<open>bson_iter_recurse\<close>, \<open>bson_iter_find_descendant\<close>): the
  child iterator satisfies the invariant of its parent, and a dotted search reads no byte
  outside the buffer.
\<close>

lemma bson_iter_recurse_ok:
  assumes "on_element data t it" and "t = BSON_TYPE_DOCUMENT \<or> t = BSON_TYPE_ARRAY"
  shows "bson_iter_recurse it
      = Inr (Some (iter_start (drop (it_d1 it) data) (u32_at data (it_d1 it))))"
    and "u32_at data (it_d1 it) \<le> length (drop (it_d1 it) data)"
    and "iter_ok (iter_start (drop (it_d1 it) data) (u32_at data (it_d1 it)))"
proof -
  note el = on_elementD [OF assms(1)] and ty = on_element_type [OF assms(1)]
  have d: "document_at data it" using el assms(2) by auto
  show "bson_iter_recurse it
      = Inr (Some (iter_start (drop (it_d1 it) data) (u32_at data (it_d1 it))))"
    using assms(2) el d ty
    by (auto simp: bson_iter_recurse_def access_defs document_at_def iter_start_def)
  show le: "u32_at data (it_d1 it) \<le> length (drop (it_d1 it) data)"
    using el d by (simp add: document_at_def)
  show "iter_ok (iter_start (drop (it_d1 it) data) (u32_at data (it_d1 it)))"
    using le el d by (intro iter_ok_start) (auto simp: document_at_def INT_MAX_def)
qed

lemma bson_iter_recurse_other:
  assumes "on_element data t it" and "\<not> (t = BSON_TYPE_DOCUMENT \<or> t = BSON_TYPE_ARRAY)"
  shows "bson_iter_recurse it = Inr None"
  using assms on_element_type [OF assms(1)] by (simp add: bson_iter_recurse_def)

lemma holds_container_ok:
  assumes "on_element data t it"
  shows "holds_container it = Inr (t = BSON_TYPE_DOCUMENT \<or> t = BSON_TYPE_ARRAY)"
  using on_element_type [OF assms] on_elementD [OF assms]
  by (auto simp: holds_container_def bson_iter_type_def)

text \<open>The last part of a dotted key.\<close>

definition last_part :: "byte list \<Rightarrow> byte list" where
  "last_part k = rev (takeWhile (\<lambda>b. b \<noteq> dot) (rev k))"

lemma last_part_no_dot: "dropWhile (\<lambda>b. b \<noteq> dot) k = [] \<Longrightarrow> last_part k = k"
proof -
  assume "dropWhile (\<lambda>b. b \<noteq> dot) k = []"
  then have "\<forall>b \<in> set (rev k). b \<noteq> dot" by (simp add: dropWhile_eq_Nil_conv)
  then have *: "takeWhile (\<lambda>b. b \<noteq> dot) (rev k) = rev k" by (subst takeWhile_eq_all_conv)
  show ?thesis unfolding last_part_def * by (rule rev_rev_ident)
qed

lemma last_part_dot: "dropWhile (\<lambda>b. b \<noteq> dot) k = c # k' \<Longrightarrow> last_part k = last_part k'"
proof -
  assume *: "dropWhile (\<lambda>b. b \<noteq> dot) k = c # k'"
  then have c: "\<not> c \<noteq> dot"
    using hd_dropWhile [of "\<lambda>b. b \<noteq> dot" k] by simp
  have "k = takeWhile (\<lambda>b. b \<noteq> dot) k @ c # k'"
    using takeWhile_dropWhile_id [of "\<lambda>b. b \<noteq> dot" k] * by simp
  then have "rev k = rev k' @ c # rev (takeWhile (\<lambda>b. b \<noteq> dot) k)"
    by (metis append.assoc append_Cons append_Nil rev.simps(2) rev_append)
  then show ?thesis using c by (simp add: last_part_def takeWhile_tail)
qed

lemma takeWhile_find:
  assumes "iter_ok it" and "it_raw it = Some data" and "0 \<notin> set k"
  shows "(\<exists>it'. bson_iter_find_w_len it (k @ [0]) (int (length (takeWhile (\<lambda>b. b \<noteq> dot) k)))
            = Inr (False, it'))
    \<or> (\<exists>e t. bson_iter_find_w_len it (k @ [0]) (int (length (takeWhile (\<lambda>b. b \<noteq> dot) k)))
            = Inr (True, e) \<and> on_element data t e
          \<and> elem_key data e = takeWhile (\<lambda>b. b \<noteq> dot) k)"
proof -
  let ?s = "takeWhile (\<lambda>b. b \<noteq> dot) k" and ?r = "dropWhile (\<lambda>b. b \<noteq> dot) k"
  have "0 \<notin> set ?s" using assms(3) by (auto dest: set_takeWhileD)
  from bson_iter_find_w_len_first [OF assms(1,2) this, of "?r @ [0]"]
  have ff: "found_first (\<lambda>e. elem_key data e = ?s) (elements it)
      (bson_iter_find_w_len it (k @ [0]) (int (length ?s)))"
    by (simp add: append_assoc [symmetric] del: append_assoc)
  show ?thesis
  proof (cases "List.find (\<lambda>e. elem_key data e = ?s) (elements it)")
    case None
    with ff show ?thesis by (auto simp: found_first_def)
  next
    case (Some e)
    then have "e \<in> set (elements it)" "elem_key data e = ?s"
      by (auto simp: find_Some_iff)
    with elements_on_element [OF assms(1,2)] ff Some show ?thesis
      by (auto simp: found_first_def)
  qed
qed

lemma find_descendant_ok:
  assumes "iter_ok it" and "it_raw it = Some data" and "0 \<notin> set k"
  shows "\<exists>r. bson_iter_find_descendant it k = Inr r
    \<and> (case r of None \<Rightarrow> True | Some d \<Rightarrow> \<exists>data' t. on_element data' t d \<and> elem_key data' d = last_part k)"
  using assms
proof (induction k arbitrary: it data rule: length_induct)
  case (1 k)
  note eval = bson_iter_find_descendant.simps [of it k]
  from takeWhile_find [OF "1.prems"] show ?case
  proof (elim disjE exE conjE)
    fix it' assume "bson_iter_find_w_len it (k @ [0]) (int (length (takeWhile (\<lambda>b. b \<noteq> dot) k)))
            = Inr (False, it')"
    then show ?thesis by (simp add: eval)
  next
    fix e t
    assume find: "bson_iter_find_w_len it (k @ [0]) (int (length (takeWhile (\<lambda>b. b \<noteq> dot) k)))
            = Inr (True, e)"
      and e: "on_element data t e" "elem_key data e = takeWhile (\<lambda>b. b \<noteq> dot) k"
    show ?thesis
    proof (cases "dropWhile (\<lambda>b. b \<noteq> dot) k")
      case Nil
      then have "takeWhile (\<lambda>b. b \<noteq> dot) k = k"
        by (metis append_Nil2 takeWhile_dropWhile_id)
      with Nil find have "bson_iter_find_descendant it k = Inr (Some e)"
        by (simp only: eval Let_def) simp
      with Nil e \<open>takeWhile (\<lambda>b. b \<noteq> dot) k = k\<close> show ?thesis
        by (auto simp: last_part_no_dot)
    next
      case (Cons c k')
      have "length (dropWhile (\<lambda>b. b \<noteq> dot) k) \<le> length k" by (rule length_dropWhile_le)
      then have len: "length k' < length k" using Cons by simp
      have "set (dropWhile (\<lambda>b. b \<noteq> dot) k) \<subseteq> set k" by (auto dest: set_dropWhileD)
      then have nz: "0 \<notin> set k'" using Cons "1.prems"(3) by auto
      show ?thesis
      proof (cases "t = BSON_TYPE_DOCUMENT \<or> t = BSON_TYPE_ARRAY")
        case True
        let ?child = "iter_start (drop (it_d1 e) data) (u32_at data (it_d1 e))"
        have "it_raw ?child = Some (drop (it_d1 e) data)" by (simp add: iter_start_def)
        from "1.IH" [rule_format, OF len bson_iter_recurse_ok(3) [OF e(1) True] this nz]
        show ?thesis
          using find Cons True bson_iter_recurse_ok(1) [OF e(1) True] holds_container_ok [OF e(1)]
          unfolding last_part_dot [OF Cons]
          by (simp add: eval)
      next
        case False
        then show ?thesis
          using find Cons holds_container_ok [OF e(1)] by (simp add: eval)
      qed
    qed
  qed
qed

end
