(* ===== verification/BsonBuild.thy ===== *)
theory BsonBuild
  imports DocNest
begin

text \<open>
  Building documents (\<open>src/src/bson/bson.c\<close>): the storage behind \<open>bson_t\<close>, its growth, the
  list of byte ranges an append collects, and the append that copies them in.

  The storage is explicit, because documents share it: \<open>bson_append_document_begin\<close> makes a
  child that writes into the buffer of its parent. A cell of the heap is the pair
  \<open>own_buffer\<close>/\<open>own_buflen\<close> of a root document (or its inline array), which the
  \<open>indirect_buffer\<close> pointers of its descendants refer to; its list has the length of the
  buffer. \<open>h_junk\<close> gives the contents of fresh memory, which \<open>malloc\<close> and \<open>realloc\<close>
  leave undetermined. Reads and writes outside a cell are faults.
\<close>

section \<open>Documents and their storage\<close>

datatype bson_flag =
    BSON_FLAG_INLINE_DATA | BSON_FLAG_NO_FREE_OBJECT | BSON_FLAG_RDONLY | BSON_FLAG_CHILD
  | BSON_FLAG_IN_CHILD | BSON_FLAG_NO_FREE_DATA

record heap =
  h_cell :: "nat \<Rightarrow> byte list"
  h_junk :: "nat \<Rightarrow> byte"

text \<open>
  \<open>b_indirect\<close> says that \<open>indirect_buffer\<close> is not \<open>NULL\<close>; \<open>b_cell\<close> is the cell that
  \<open>indirect_buffer\<close> or \<open>own_buffer\<close> leads to. The field \<open>parent\<close> is written but never read
  by the code, and is left out.
\<close>

record bson_t =
  b_flags :: "bson_flag set"
  b_len :: nat
  b_depth :: nat
  b_indirect :: bool
  b_cell :: nat
  b_offset :: nat
  b_realloc :: bool

definition BSON_MAX_SIZE :: nat where
  "BSON_MAX_SIZE = 2147483647"

definition BSON_INLINE_DATA_SIZE :: nat where
  "BSON_INLINE_DATA_SIZE = 120"

definition UINT32_MAX :: nat where
  "UINT32_MAX = 4294967295"

definition sub64 :: "nat \<Rightarrow> nat \<Rightarrow> nat" where
  "sub64 a b = (a + 2 ^ 64 - b) mod 2 ^ 64"

lemma sub64_eq [simp]:
  assumes "b \<le> a" and "a < 2 ^ 64"
  shows "sub64 a b = a - b"
proof -
  have "a + 2 ^ 64 - b = (a - b) + 2 ^ 64" using assms(1) by simp
  then have "sub64 a b = (a - b) mod 2 ^ 64" by (simp add: sub64_def del: power_numeral)
  with assms(2) show ?thesis by simp
qed

text \<open>\<open>_bson_data\<close>: the memory from the first byte of the document.\<close>

definition bson_data :: "heap \<Rightarrow> bson_t \<Rightarrow> byte list" where
  "bson_data h b =
     (if BSON_FLAG_INLINE_DATA \<in> b_flags b then h_cell h (b_cell b)
      else drop (b_offset b) (h_cell h (b_cell b)))"

text \<open>Where that is in the cell.\<close>

definition data_offset :: "bson_t \<Rightarrow> nat" where
  "data_offset b = (if BSON_FLAG_INLINE_DATA \<in> b_flags b then 0 else b_offset b)"

definition wr_range :: "heap \<Rightarrow> nat \<Rightarrow> nat \<Rightarrow> byte list \<Rightarrow> heap res" where
  "wr_range h c i bs =
     (let m = h_cell h c in
      if i + length bs \<le> length m
      then Inr (h\<lparr>h_cell := (h_cell h)(c := take i m @ bs @ drop (i + length bs) m)\<rparr>)
      else Inl OutOfBounds)"

section \<open>Growing\<close>

definition bson_next_power_of_two :: "64 word \<Rightarrow> 64 word" where
  "bson_next_power_of_two v =
     (let v = v - 1;
          v = v OR drop_bit 1 v;
          v = v OR drop_bit 2 v;
          v = v OR drop_bit 4 v;
          v = v OR drop_bit 8 v;
          v = v OR drop_bit 16 v;
          v = v OR drop_bit 32 v
      in v + 1)"

definition bson_round_up_alloc_size :: "nat \<Rightarrow> nat" where
  "bson_round_up_alloc_size sz =
     (if sz \<le> BSON_MAX_SIZE
      then min (unat (bson_next_power_of_two (of_nat sz))) BSON_MAX_SIZE
      else sz)"

text \<open>Memory of \<open>n\<close> bytes that starts with \<open>bs\<close>.\<close>

definition fresh_buffer :: "heap \<Rightarrow> byte list \<Rightarrow> nat \<Rightarrow> byte list" where
  "fresh_buffer h bs n = take n bs @ map (h_junk h) [length bs..<n]"

definition bson_impl_inline_grow :: "heap \<Rightarrow> bson_t \<Rightarrow> nat \<Rightarrow> bool \<times> heap \<times> bson_t" where
  "bson_impl_inline_grow h b grow_size =
     (let req = b_len b + grow_size in
      if req \<le> BSON_INLINE_DATA_SIZE then (True, h, b)
      else let req = bson_round_up_alloc_size req in
        if req \<le> BSON_MAX_SIZE then
          (True,
           h\<lparr>h_cell := (h_cell h)(b_cell b :=
               fresh_buffer h (take (b_len b) (h_cell h (b_cell b))) req)\<rparr>,
           b\<lparr>b_flags := b_flags b - {BSON_FLAG_INLINE_DATA}, b_depth := 0, b_indirect := False,
             b_offset := 0, b_realloc := True\<rparr>)
        else (False, h, b))"

definition bson_impl_alloc_grow :: "heap \<Rightarrow> bson_t \<Rightarrow> nat \<Rightarrow> bool \<times> heap \<times> bson_t" where
  "bson_impl_alloc_grow h b grow_size =
     (let req = b_offset b + b_len b + grow_size + b_depth b in
      if req \<le> length (h_cell h (b_cell b)) then (True, h, b)
      else let req = bson_round_up_alloc_size req in
        if req \<le> BSON_MAX_SIZE \<and> b_realloc b then
          (True, h\<lparr>h_cell := (h_cell h)(b_cell b := fresh_buffer h (h_cell h (b_cell b)) req)\<rparr>, b)
        else (False, h, b))"

definition bson_grow :: "heap \<Rightarrow> bson_t \<Rightarrow> nat \<Rightarrow> (bool \<times> heap \<times> bson_t) res" where
  "bson_grow h b grow_size =
     bind_res (c_assert (grow_size \<le> BSON_MAX_SIZE)) (\<lambda>_.
       Inr (if BSON_FLAG_INLINE_DATA \<in> b_flags b then bson_impl_inline_grow h b grow_size
            else bson_impl_alloc_grow h b grow_size))"

definition bson_encode_length :: "heap \<Rightarrow> bson_t \<Rightarrow> heap res" where
  "bson_encode_length h b = wr_range h (b_cell b) (data_offset b) (mlib_write_u32le (of_nat (b_len b)))"

section \<open>The argument list of an append\<close>

text \<open>
  \<open>Arg bytes n\<close> is \<open>BSON_APPEND_BYTES_ADD_ARGUMENT\<close> with a pointer (\<open>None\<close> for \<open>NULL\<close>) and
  a length; \<open>Str key n\<close> is \<open>BSON_APPEND_BYTES_ADD_CHECKED_STRING\<close> with the memory of the
  string and its length argument. \<open>collect\<close> runs them in order; \<open>None\<close> is the jump to
  \<open>append_failure\<close>. The list holds the arguments of non-zero length; the number is
  \<open>n_bytes\<close>.
\<close>

type_synonym byte_arg = "byte list option \<times> nat"

datatype append_op = Arg "byte list option" nat | Str "byte list" int

definition add_argument :: "byte list option \<Rightarrow> nat \<Rightarrow> byte_arg list \<times> nat \<Rightarrow> (byte_arg list \<times> nat) option" where
  "add_argument bytes n l =
     (case l of (args, n_bytes) \<Rightarrow>
        if n > sub64 BSON_MAX_SIZE n_bytes then None
        else if n > 0 then Some (args @ [(bytes, n)], add32 n_bytes n)
        else Some (args, n_bytes))"

definition add_checked_string ::
    "byte list \<Rightarrow> int \<Rightarrow> byte_arg list \<times> nat \<Rightarrow> (byte_arg list \<times> nat) option res" where
  "add_checked_string key key_len l =
     (if key_len < 0
      then bind_res (c_strlen key) (\<lambda>key_zulen.
        if key_zulen > UINT32_MAX then Inr None
        else Inr (add_argument (Some key) key_zulen l))
      else let key_zulen = nat key_len in
        if key_zulen > UINT32_MAX then Inr None
        else if 0 \<in> set (take key_zulen key) then Inr None
        else if key_zulen > length key then Inl OutOfBounds
        else Inr (add_argument (Some key) key_zulen l))"

fun collect :: "append_op list \<Rightarrow> byte_arg list \<times> nat \<Rightarrow> (byte_arg list \<times> nat) option res" where
  "collect [] l = Inr (Some l)"
| "collect (Arg bytes n # ops) l =
     (case add_argument bytes n l of None \<Rightarrow> Inr None | Some l \<Rightarrow> collect ops l)"
| "collect (Str key n # ops) l =
     bind_res (add_checked_string key n l) (\<lambda>r. case r of None \<Rightarrow> Inr None | Some l \<Rightarrow> collect ops l)"

text \<open>The loop that copies the arguments: \<open>pos\<close> is the pointer \<open>data\<close>.\<close>

fun copy_args :: "heap \<Rightarrow> bson_t \<Rightarrow> nat \<Rightarrow> byte_arg list \<Rightarrow> (heap \<times> bson_t \<times> nat) res" where
  "copy_args h b pos [] = Inr (h, b, pos)"
| "copy_args h b pos ((bytes, n) # args) =
     bind_res (case bytes of
         None \<Rightarrow> Inr h
       | Some m \<Rightarrow> bind_res (rd_range m 0 n) (\<lambda>bs. wr_range h (b_cell b) pos bs)) (\<lambda>h.
       copy_args h (b\<lparr>b_len := add32 (b_len b) n\<rparr>) (pos + n) args)"

definition apply_arguments ::
    "heap \<Rightarrow> bson_t \<Rightarrow> byte_arg list \<times> nat \<Rightarrow> (bool \<times> heap \<times> bson_t) res" where
  "apply_arguments h b l =
     (case l of (args, n_bytes) \<Rightarrow>
        if n_bytes > sub64 BSON_MAX_SIZE (b_len b) then Inr (False, h, b)
        else bind_res (bson_grow h b n_bytes) (\<lambda>(ok, h, b).
          if \<not> ok then Inr (False, h, b)
          else bind_res (copy_args h b (data_offset b + sub32 (b_len b) 1) args) (\<lambda>(h, b, pos).
               bind_res (bson_encode_length h b) (\<lambda>h.
               bind_res (wr_range h (b_cell b) pos [0]) (\<lambda>h. Inr (True, h, b))))))"

text \<open>An append function: collect the arguments, then apply them.\<close>

type_synonym append_result = "(bool \<times> heap \<times> bson_t) res"

definition append_ops :: "heap \<Rightarrow> bson_t \<Rightarrow> append_op list \<Rightarrow> append_result" where
  "append_ops h b ops =
     bind_res (collect ops ([], 0)) (\<lambda>r. case r of
         None \<Rightarrow> Inr (False, h, b)
       | Some l \<Rightarrow> apply_arguments h b l)"

abbreviation arg :: "byte list \<Rightarrow> append_op" where
  "arg bs \<equiv> Arg (Some bs) (length bs)"

text \<open>The type byte, the key and its NUL, with which every element starts.\<close>

definition key_ops :: "bson_type \<Rightarrow> byte list \<Rightarrow> int \<Rightarrow> append_op list" where
  "key_ops t key key_length = [arg [type_byte t], Str key key_length, arg [0]]"

end
