(* ===== verification/BsonAppend.thy ===== *)
theory BsonAppend
  imports BsonBuild
begin

text \<open>
  The append functions of \<open>src/src/bson/bson.c\<close>, one definition each. A key is the memory its
  pointer points to and an \<open>int\<close> length, negative for a NUL-terminated key. An argument of type
  \<open>const bson_t *\<close> that is only read is the pair of its data and its length.
\<close>

section \<open>Constructors\<close>

definition empty_doc :: "byte list" where
  "empty_doc = [5, 0, 0, 0, 0]"

text \<open>\<open>bson_init\<close> on a \<open>bson_t\<close> whose inline array is the cell \<open>c\<close>, of 120 bytes.\<close>

definition bson_init :: "heap \<Rightarrow> nat \<Rightarrow> (heap \<times> bson_t) res" where
  "bson_init h c =
     bind_res (wr_range h c 0 empty_doc) (\<lambda>h. Inr (h,
       \<lparr>b_flags = {BSON_FLAG_INLINE_DATA, BSON_FLAG_NO_FREE_OBJECT}, b_len = 5, b_depth = 0,
        b_indirect = False, b_cell = c, b_offset = 0, b_realloc = False\<rparr>))"

definition bson_reinit :: "heap \<Rightarrow> bson_t \<Rightarrow> (heap \<times> bson_t) res" where
  "bson_reinit h b =
     bind_res (wr_range h (b_cell b) (data_offset b) empty_doc) (\<lambda>h. Inr (h, b\<lparr>b_len := 5\<rparr>))"

text \<open>
  The check of \<open>bson_init_static\<close> on external memory; on success the \<open>bson_t\<close> is read-only
  and its data is that memory.
\<close>

definition bson_init_static :: "byte list \<Rightarrow> nat \<Rightarrow> bool res" where
  "bson_init_static data n =
     (if n < 5 \<or> n > BSON_MAX_SIZE then Inr False
      else bind_res (mlib_read_u32le data 0) (\<lambda>hdr_len.
        if unat hdr_len \<noteq> n then Inr False
        else map_res (\<lambda>last. last = 0) (rd8 data (n - 1))))"

definition static_bson :: "nat \<Rightarrow> nat \<Rightarrow> bson_t" where
  "static_bson c n =
     \<lparr>b_flags = {BSON_FLAG_NO_FREE_OBJECT, BSON_FLAG_RDONLY}, b_len = n, b_depth = 0,
      b_indirect = False, b_cell = c, b_offset = 0, b_realloc = False\<rparr>"

definition bson_sized_new :: "heap \<Rightarrow> nat \<Rightarrow> nat \<Rightarrow> (heap \<times> bson_t) res" where
  "bson_sized_new h c sz =
     bind_res (c_assert (sz \<le> BSON_MAX_SIZE)) (\<lambda>_.
       if sz \<le> BSON_INLINE_DATA_SIZE then
         map_res (\<lambda>(h, b). (h, b\<lparr>b_flags := b_flags b - {BSON_FLAG_NO_FREE_OBJECT}\<rparr>))
           (bson_init (h\<lparr>h_cell := (h_cell h)(c := map (h_junk h) [0..<BSON_INLINE_DATA_SIZE])\<rparr>) c)
       else Inr
         (h\<lparr>h_cell := (h_cell h)(c := fresh_buffer h empty_doc (max 5 sz))\<rparr>,
          \<lparr>b_flags = {}, b_len = 5, b_depth = 0, b_indirect = False, b_cell = c, b_offset = 0,
           b_realloc = True\<rparr>))"

section \<open>Scalars\<close>

definition bson_append_double :: "heap \<Rightarrow> bson_t \<Rightarrow> byte list \<Rightarrow> int \<Rightarrow> 64 word \<Rightarrow> append_result" where
  "bson_append_double h b key klen v =
     append_ops h b (key_ops BSON_TYPE_DOUBLE key klen @ [arg (mlib_write_u64le v)])"

definition bson_append_int32 :: "heap \<Rightarrow> bson_t \<Rightarrow> byte list \<Rightarrow> int \<Rightarrow> 32 word \<Rightarrow> append_result" where
  "bson_append_int32 h b key klen v =
     append_ops h b (key_ops BSON_TYPE_INT32 key klen @ [arg (mlib_write_u32le v)])"

definition bson_append_int64 :: "heap \<Rightarrow> bson_t \<Rightarrow> byte list \<Rightarrow> int \<Rightarrow> 64 word \<Rightarrow> append_result" where
  "bson_append_int64 h b key klen v =
     append_ops h b (key_ops BSON_TYPE_INT64 key klen @ [arg (mlib_write_u64le v)])"

definition bson_append_decimal128 ::
    "heap \<Rightarrow> bson_t \<Rightarrow> byte list \<Rightarrow> int \<Rightarrow> 64 word \<times> 64 word \<Rightarrow> append_result" where
  "bson_append_decimal128 h b key klen v = (case v of (low, high) \<Rightarrow>
     append_ops h b (key_ops BSON_TYPE_DECIMAL128 key klen
       @ [arg (mlib_write_u64le low @ mlib_write_u64le high)]))"

definition bson_append_bool :: "heap \<Rightarrow> bson_t \<Rightarrow> byte list \<Rightarrow> int \<Rightarrow> bool \<Rightarrow> append_result" where
  "bson_append_bool h b key klen v =
     append_ops h b (key_ops BSON_TYPE_BOOL key klen @ [arg [if v then 1 else 0]])"

definition bson_append_null :: "heap \<Rightarrow> bson_t \<Rightarrow> byte list \<Rightarrow> int \<Rightarrow> append_result" where
  "bson_append_null h b key klen = append_ops h b (key_ops BSON_TYPE_NULL key klen)"

definition bson_append_undefined :: "heap \<Rightarrow> bson_t \<Rightarrow> byte list \<Rightarrow> int \<Rightarrow> append_result" where
  "bson_append_undefined h b key klen = append_ops h b (key_ops BSON_TYPE_UNDEFINED key klen)"

definition bson_append_maxkey :: "heap \<Rightarrow> bson_t \<Rightarrow> byte list \<Rightarrow> int \<Rightarrow> append_result" where
  "bson_append_maxkey h b key klen = append_ops h b (key_ops BSON_TYPE_MAXKEY key klen)"

definition bson_append_minkey :: "heap \<Rightarrow> bson_t \<Rightarrow> byte list \<Rightarrow> int \<Rightarrow> append_result" where
  "bson_append_minkey h b key klen = append_ops h b (key_ops BSON_TYPE_MINKEY key klen)"

definition bson_append_oid :: "heap \<Rightarrow> bson_t \<Rightarrow> byte list \<Rightarrow> int \<Rightarrow> byte list \<Rightarrow> append_result" where
  "bson_append_oid h b key klen oid =
     append_ops h b (key_ops BSON_TYPE_OID key klen @ [Arg (Some oid) 12])"

text \<open>\<open>timestamp << 32 | increment\<close>\<close>

definition bson_append_timestamp ::
    "heap \<Rightarrow> bson_t \<Rightarrow> byte list \<Rightarrow> int \<Rightarrow> 32 word \<Rightarrow> 32 word \<Rightarrow> append_result" where
  "bson_append_timestamp h b key klen timestamp increment =
     append_ops h b (key_ops BSON_TYPE_TIMESTAMP key klen
       @ [arg (mlib_write_u64le (push_bit 32 (ucast timestamp) OR ucast increment))])"

definition bson_append_date_time :: "heap \<Rightarrow> bson_t \<Rightarrow> byte list \<Rightarrow> int \<Rightarrow> 64 word \<Rightarrow> append_result" where
  "bson_append_date_time h b key klen v =
     append_ops h b (key_ops BSON_TYPE_DATE_TIME key klen @ [arg (mlib_write_u64le v)])"

text \<open>
  \<open>(uint64_t) tv_sec * 1000UL + tv_usec / 1000UL\<close>: the division is of unsigned values, so a
  negative \<open>tv_usec\<close> is first converted to \<open>unsigned long\<close>.
\<close>

definition bson_append_timeval ::
    "heap \<Rightarrow> bson_t \<Rightarrow> byte list \<Rightarrow> int \<Rightarrow> 64 word \<times> 64 word \<Rightarrow> append_result" where
  "bson_append_timeval h b key klen tv = (case tv of (tv_sec, tv_usec) \<Rightarrow>
     bson_append_date_time h b key klen (tv_sec * 1000 + tv_usec div 1000))"

definition bson_append_time_t :: "heap \<Rightarrow> bson_t \<Rightarrow> byte list \<Rightarrow> int \<Rightarrow> 64 word \<Rightarrow> append_result" where
  "bson_append_time_t h b key klen v = bson_append_timeval h b key klen (v, 0)"

section \<open>Strings, binaries and nested documents\<close>

text \<open>
  The argument of a string is its memory and an \<open>int\<close> length, negative for a NUL-terminated
  one; \<open>None\<close> is \<open>NULL\<close>.
\<close>

definition append_string ::
    "bson_type \<Rightarrow> heap \<Rightarrow> bson_t \<Rightarrow> byte list \<Rightarrow> int \<Rightarrow> byte list option \<Rightarrow> int \<Rightarrow> append_result" where
  "append_string t h b key klen val len = (case val of
       None \<Rightarrow> bson_append_null h b key klen
     | Some str \<Rightarrow>
         bind_res (if len < 0 then c_strlen str else Inr (nat len)) (\<lambda>zulength.
           if zulength > UINT32_MAX - 1 then Inr (False, h, b)
           else append_ops h b (key_ops t key klen
             @ [arg (mlib_write_u32le (of_nat zulength + 1)), Arg (Some str) zulength, arg [0]])))"

definition bson_append_utf8 ::
    "heap \<Rightarrow> bson_t \<Rightarrow> byte list \<Rightarrow> int \<Rightarrow> byte list option \<Rightarrow> int \<Rightarrow> append_result" where
  "bson_append_utf8 = append_string BSON_TYPE_UTF8"

definition bson_append_symbol ::
    "heap \<Rightarrow> bson_t \<Rightarrow> byte list \<Rightarrow> int \<Rightarrow> byte list option \<Rightarrow> int \<Rightarrow> append_result" where
  "bson_append_symbol = append_string BSON_TYPE_SYMBOL"

definition bson_append_code :: "heap \<Rightarrow> bson_t \<Rightarrow> byte list \<Rightarrow> int \<Rightarrow> byte list \<Rightarrow> append_result" where
  "bson_append_code h b key klen javascript =
     bind_res (c_strlen javascript) (\<lambda>zulength.
       if zulength > UINT32_MAX - 1 then Inr (False, h, b)
       else append_ops h b (key_ops BSON_TYPE_CODE key klen
         @ [arg (mlib_write_u32le (of_nat zulength + 1)), Arg (Some javascript) (zulength + 1)]))"

definition bson_append_code_with_scope ::
    "heap \<Rightarrow> bson_t \<Rightarrow> byte list \<Rightarrow> int \<Rightarrow> byte list \<Rightarrow> (byte list \<times> nat) option \<Rightarrow> append_result" where
  "bson_append_code_with_scope h b key klen javascript scope = (case scope of
       None \<Rightarrow> bson_append_code h b key klen javascript
     | Some (scope_data, scope_len) \<Rightarrow>
         bind_res (c_strlen javascript) (\<lambda>zulength.
           if zulength > UINT32_MAX - 1 then Inr (False, h, b)
           else let js_length = zulength + 1 in
             if js_length > sub32 UINT32_MAX scope_len then Inr (False, h, b)
             else if add32 js_length scope_len > UINT32_MAX - 8 then Inr (False, h, b)
             else let total_length = add32 (add32 8 js_length) scope_len in
               append_ops h b (key_ops BSON_TYPE_CODEWSCOPE key klen
                 @ [arg (mlib_write_u32le (of_nat total_length)),
                    arg (mlib_write_u32le (of_nat js_length)),
                    Arg (Some javascript) js_length, Arg (Some scope_data) scope_len])))"

definition bson_append_dbpointer ::
    "heap \<Rightarrow> bson_t \<Rightarrow> byte list \<Rightarrow> int \<Rightarrow> byte list \<Rightarrow> byte list \<Rightarrow> append_result" where
  "bson_append_dbpointer h b key klen collection oid =
     bind_res (c_strlen collection) (\<lambda>zulength.
       if zulength > UINT32_MAX - 1 then Inr (False, h, b)
       else append_ops h b (key_ops BSON_TYPE_DBPOINTER key klen
         @ [arg (mlib_write_u32le (of_nat zulength + 1)), Arg (Some collection) (zulength + 1),
            Arg (Some oid) 12]))"

text \<open>What follows the arguments of the key in the function, where they do not fail.\<close>

definition after_key ::
    "heap \<Rightarrow> bson_t \<Rightarrow> bson_type \<Rightarrow> byte list \<Rightarrow> int \<Rightarrow> append_result \<Rightarrow> append_result" where
  "after_key h b t key klen cont =
     bind_res (collect (key_ops t key klen) ([], 0)) (\<lambda>r. case r of
         None \<Rightarrow> Inr (False, h, b)
       | Some _ \<Rightarrow> cont)"

definition append_binary ::
    "heap \<Rightarrow> bson_t \<Rightarrow> byte list \<Rightarrow> int \<Rightarrow> byte \<Rightarrow> byte list option \<Rightarrow> nat \<Rightarrow> append_result" where
  "append_binary h b key klen subtype binary len =
     (if subtype = BSON_SUBTYPE_BINARY_DEPRECATED then
        after_key h b BSON_TYPE_BINARY key klen (if len > UINT32_MAX - 4 then Inr (False, h, b)
        else append_ops h b (key_ops BSON_TYPE_BINARY key klen
          @ [arg (mlib_write_u32le (of_nat len + 4)), arg [subtype],
             arg (mlib_write_u32le (of_nat len)), Arg binary len]))
      else append_ops h b (key_ops BSON_TYPE_BINARY key klen
          @ [arg (mlib_write_u32le (of_nat len)), arg [subtype], Arg binary len]))"

definition bson_append_binary ::
    "heap \<Rightarrow> bson_t \<Rightarrow> byte list \<Rightarrow> int \<Rightarrow> byte \<Rightarrow> byte list option \<Rightarrow> nat \<Rightarrow> append_result" where
  "bson_append_binary h b key klen subtype binary len =
     (if binary = None \<and> len > 0 then Inr (False, h, b)
      else append_binary h b key klen subtype binary len)"

text \<open>
  \<open>bson_append_binary_uninit\<close> leaves the bytes of the binary as they are in the buffer; the
  last component is the offset of the pointer it returns, in the cell.
\<close>

definition bson_append_binary_uninit ::
    "heap \<Rightarrow> bson_t \<Rightarrow> byte list \<Rightarrow> int \<Rightarrow> byte \<Rightarrow> nat \<Rightarrow> (bool \<times> heap \<times> bson_t \<times> nat option) res" where
  "bson_append_binary_uninit h b key klen subtype len =
     map_res (\<lambda>(ok, h, b). (ok, h, b,
         if ok then Some (data_offset b + b_len b - 1 - len) else None))
       (append_binary h b key klen subtype None len)"

definition regex_options_sorted :: "byte list" where
  "regex_options_sorted = [0x69, 0x6C, 0x6D, 0x73, 0x75, 0x78]"  \<comment> \<open>\<open>"ilmsux"\<close>\<close>

definition bson_append_regex_w_len ::
    "heap \<Rightarrow> bson_t \<Rightarrow> byte list \<Rightarrow> int \<Rightarrow> byte list option \<Rightarrow> int \<Rightarrow> byte list option \<Rightarrow> append_result" where
  "bson_append_regex_w_len h b key klen regex regex_length options =
     (let regex = (case regex of None \<Rightarrow> [0] | Some r \<Rightarrow> r);
          options = (case options of None \<Rightarrow> [0] | Some r \<Rightarrow> r) in
      bind_res (c_strlen options) (\<lambda>_.
        let sorted = filter (\<lambda>c. c \<in> set (c_str options)) regex_options_sorted in
        append_ops h b (key_ops BSON_TYPE_REGEX key klen
          @ [Str regex regex_length, arg [0], arg (sorted @ [0])])))"

definition bson_append_regex ::
    "heap \<Rightarrow> bson_t \<Rightarrow> byte list \<Rightarrow> int \<Rightarrow> byte list option \<Rightarrow> byte list option \<Rightarrow> append_result" where
  "bson_append_regex h b key klen regex options =
     bson_append_regex_w_len h b key klen regex (-1) options"

definition bson_append_document ::
    "heap \<Rightarrow> bson_t \<Rightarrow> byte list \<Rightarrow> int \<Rightarrow> byte list \<times> nat \<Rightarrow> append_result" where
  "bson_append_document h b key klen val = (case val of (data, len) \<Rightarrow>
     append_ops h b (key_ops BSON_TYPE_DOCUMENT key klen @ [Arg (Some data) len]))"

text \<open>
  \<open>bson_append_array\<close> looks at the first key and prints a warning when it is not \<open>"0"\<close>; the
  result does not depend on it, its reads do.
\<close>

definition array_warning :: "byte list \<Rightarrow> nat \<Rightarrow> bool res" where
  "array_warning data len =
     (if len = 5 then Inr False
      else bind_res (rd8 data 4) (\<lambda>c.
        if c = 0 then Inr False
        else (case bson_iter_init data len of (ok, it) \<Rightarrow>
          if \<not> ok then Inr False
          else bind_res (bson_iter_next it) (\<lambda>(ok, it).
            if \<not> ok then Inr False
            else bind_res (bson_iter_key it) (\<lambda>key.
              map_res (\<lambda>eq. \<not> eq) (c_strncmp_eq [0x30, 0] key 2))))))"

definition bson_append_array ::
    "heap \<Rightarrow> bson_t \<Rightarrow> byte list \<Rightarrow> int \<Rightarrow> byte list \<times> nat \<Rightarrow> append_result" where
  "bson_append_array h b key klen val = (case val of (data, len) \<Rightarrow>
     after_key h b BSON_TYPE_ARRAY key klen (bind_res (array_warning data len) (\<lambda>_.
       append_ops h b (key_ops BSON_TYPE_ARRAY key klen @ [Arg (Some data) len]))))"

section \<open>Values\<close>

text \<open>The conversion of a \<open>uint32_t\<close> to \<open>int\<close>.\<close>

definition c_int :: "nat \<Rightarrow> int" where
  "c_int n = (if n < 2 ^ 31 then int n else int n - 2 ^ 32)"

text \<open>
  \<open>bson_append_value\<close>: a document, an array or a scope that \<open>bson_init_static\<close> refuses is
  not appended.
\<close>

definition bson_append_value :: "heap \<Rightarrow> bson_t \<Rightarrow> byte list \<Rightarrow> int \<Rightarrow> bson_value \<Rightarrow> append_result" where
  "bson_append_value h b key klen val =
     (let if_static = (\<lambda>data len app. bind_res (bson_init_static data len) (\<lambda>ok.
            if ok then app else Inr (False, h, b))) in
      case val of
        V_double d \<Rightarrow> bson_append_double h b key klen d
      | V_utf8 str len \<Rightarrow> bson_append_utf8 h b key klen (Some str) (c_int len)
      | V_document data len \<Rightarrow> if_static data len (bson_append_document h b key klen (data, len))
      | V_array data len \<Rightarrow> if_static data len (bson_append_array h b key klen (data, len))
      | V_binary subtype data len \<Rightarrow> bson_append_binary h b key klen subtype (Some data) len
      | V_undefined \<Rightarrow> bson_append_undefined h b key klen
      | V_oid oid \<Rightarrow> bson_append_oid h b key klen oid
      | V_bool v \<Rightarrow> bson_append_bool h b key klen v
      | V_datetime v \<Rightarrow> bson_append_date_time h b key klen v
      | V_null \<Rightarrow> bson_append_null h b key klen
      | V_regex regex options \<Rightarrow> bson_append_regex h b key klen (Some regex) (Some options)
      | V_dbpointer collection _ oid \<Rightarrow> bson_append_dbpointer h b key klen collection oid
      | V_code code _ \<Rightarrow> bson_append_code h b key klen code
      | V_symbol symbol len \<Rightarrow> bson_append_symbol h b key klen (Some symbol) (c_int len)
      | V_codewscope code _ scope scope_len \<Rightarrow> if_static scope scope_len
          (bson_append_code_with_scope h b key klen code (Some (scope, scope_len)))
      | V_int32 v \<Rightarrow> bson_append_int32 h b key klen v
      | V_timestamp t i \<Rightarrow> bson_append_timestamp h b key klen t i
      | V_int64 v \<Rightarrow> bson_append_int64 h b key klen v
      | V_decimal128 low high \<Rightarrow> bson_append_decimal128 h b key klen (low, high)
      | V_maxkey \<Rightarrow> bson_append_maxkey h b key klen
      | V_minkey \<Rightarrow> bson_append_minkey h b key klen)"

end
