(* ===== verification/PowerTwo.thy ===== *)
theory PowerTwo
  imports BsonBuild
begin

text \<open>
  \<open>bson_next_power_of_two\<close> (\<open>bson-types.h\<close>), the rounding of allocation sizes: it gives the
  least power of two that is not less than its argument.
\<close>

lemma smear_step:
  fixes v x :: "64 word"
  assumes "\<And>k. bit v k \<longleftrightarrow> (\<exists>i < s. bit x (k + i))"
  shows "bit (v OR drop_bit s v) k \<longleftrightarrow> (\<exists>i < s + s. bit x (k + i))"
proof -
  have "bit (v OR drop_bit s v) k \<longleftrightarrow> bit v k \<or> bit v (s + k)"
    by (simp add: bit_or_iff bit_drop_bit_eq)
  also have "\<dots> \<longleftrightarrow> (\<exists>i < s. bit x (k + i)) \<or> (\<exists>i < s. bit x (k + (s + i)))"
    by (simp add: assms ac_simps)
  also have "\<dots> \<longleftrightarrow> (\<exists>i < s + s. bit x (k + i))"
  proof
    assume "(\<exists>i < s. bit x (k + i)) \<or> (\<exists>i < s. bit x (k + (s + i)))"
    then show "\<exists>i < s + s. bit x (k + i)"
    proof (elim disjE exE conjE)
      fix i assume "i < s" "bit x (k + i)"
      then show ?thesis by (intro exI [of _ i]) simp
    next
      fix i assume "i < s" "bit x (k + (s + i))"
      then show ?thesis by (intro exI [of _ "s + i"]) simp
    qed
  next
    assume "\<exists>i < s + s. bit x (k + i)"
    then obtain i where i: "i < s + s" "bit x (k + i)" by blast
    show "(\<exists>i < s. bit x (k + i)) \<or> (\<exists>i < s. bit x (k + (s + i)))"
    proof (cases "i < s")
      case True
      with i show ?thesis by blast
    next
      case False
      then obtain j where "i = s + j" by (metis le_add_diff_inverse not_less)
      with i show ?thesis by auto
    qed
  qed
  finally show ?thesis .
qed

definition smear :: "64 word \<Rightarrow> 64 word" where
  "smear x =
     (let v = x OR drop_bit 1 x; v = v OR drop_bit 2 v; v = v OR drop_bit 4 v;
          v = v OR drop_bit 8 v; v = v OR drop_bit 16 v
      in v OR drop_bit 32 v)"

lemma bit_smear: "bit (smear x) k \<longleftrightarrow> (\<exists>j\<ge>k. bit x j)"
proof -
  define v1 where "v1 = x OR drop_bit 1 x"
  define v2 where "v2 = v1 OR drop_bit 2 v1"
  define v4 where "v4 = v2 OR drop_bit 4 v2"
  define v8 where "v8 = v4 OR drop_bit 8 v4"
  define v16 where "v16 = v8 OR drop_bit 16 v8"
  have b0: "bit x k \<longleftrightarrow> (\<exists>i<1. bit x (k + i))" for k by simp
  have b1: "bit v1 k \<longleftrightarrow> (\<exists>i<2. bit x (k + i))" for k
    unfolding v1_def using smear_step [of x 1 x k, OF b0] by (simp only: one_add_one)
  have b2: "bit v2 k \<longleftrightarrow> (\<exists>i<4. bit x (k + i))" for k
    unfolding v2_def using smear_step [of v1 2 x k, OF b1] by simp
  have b4: "bit v4 k \<longleftrightarrow> (\<exists>i<8. bit x (k + i))" for k
    unfolding v4_def using smear_step [of v2 4 x k, OF b2] by simp
  have b8: "bit v8 k \<longleftrightarrow> (\<exists>i<16. bit x (k + i))" for k
    unfolding v8_def using smear_step [of v4 8 x k, OF b4] by simp
  have b16: "bit v16 k \<longleftrightarrow> (\<exists>i<32. bit x (k + i))" for k
    unfolding v16_def using smear_step [of v8 16 x k, OF b8] by simp
  have "smear x = v16 OR drop_bit 32 v16"
    by (simp add: smear_def Let_def v1_def v2_def v4_def v8_def v16_def)
  then have "bit (smear x) k \<longleftrightarrow> (\<exists>i<64. bit x (k + i))"
    using smear_step [of v16 32 x k, OF b16] by simp
  also have "\<dots> \<longleftrightarrow> (\<exists>j\<ge>k. bit x j)"
  proof
    assume "\<exists>i<64. bit x (k + i)"
    then show "\<exists>j\<ge>k. bit x j" by (auto intro: le_add1)
  next
    assume "\<exists>j\<ge>k. bit x j"
    then obtain j where j: "k \<le> j" "bit x j" by blast
    then have "j < 64" using bit_imp_le_length [of x j] by simp
    with j show "\<exists>i<64. bit x (k + i)" by (intro exI [of _ "j - k"]) simp
  qed
  finally show ?thesis .
qed

text \<open>The number of bits of \<open>x\<close>, and smearing as the mask of that many bits.\<close>

definition bit_length :: "64 word \<Rightarrow> nat" where
  "bit_length x = (LEAST m. \<forall>j\<ge>m. \<not> bit x j)"

lemma bit_length_bound: "\<forall>j\<ge>bit_length x. \<not> bit x j"
  unfolding bit_length_def
  by (rule LeastI [of _ 64]) (auto dest: bit_imp_le_length)

lemma bit_length_least: "k < bit_length x \<Longrightarrow> \<exists>j\<ge>k. bit x j"
  using not_less_Least [of k "\<lambda>m. \<forall>j\<ge>m. \<not> bit x j"] by (auto simp: bit_length_def)

lemma bit_length_le: "bit_length x \<le> 64"
  unfolding bit_length_def by (rule Least_le) (auto dest: bit_imp_le_length)

lemma smear_eq_mask: "smear x = mask (bit_length x)"
proof (rule bit_word_eqI)
  fix k assume "k < LENGTH(64)"
  then show "bit (smear x) k = bit (mask (bit_length x) :: 64 word) k"
    using bit_length_bound [of x] bit_length_least [of k x]
    by (cases "k < bit_length x") (auto simp: bit_smear bit_mask_iff not_less intro: order.trans)
qed

lemma unat_less_2p_iff: "n < 64 \<Longrightarrow> unat (x :: 64 word) < 2 ^ n \<longleftrightarrow> (\<forall>j\<ge>n. \<not> bit x j)"
proof -
  assume n: "n < 64"
  have "unat x < 2 ^ n \<longleftrightarrow> take_bit n (unat x) = unat x"
    by (simp add: take_bit_nat_eq_self_iff)
  also have "\<dots> \<longleftrightarrow> take_bit n x = x"
    by (simp add: word_unat_eq_iff flip: unsigned_take_bit_eq)
  also have "\<dots> \<longleftrightarrow> (\<forall>j\<ge>n. \<not> bit x j)"
  proof
    assume *: "take_bit n x = x"
    show "\<forall>j\<ge>n. \<not> bit x j"
    proof (intro allI impI)
      fix j assume "n \<le> j"
      then have "\<not> bit (take_bit n x) j" by (simp add: bit_take_bit_iff)
      then show "\<not> bit x j" unfolding * .
    qed
  next
    assume "\<forall>j\<ge>n. \<not> bit x j"
    then show "take_bit n x = x"
      by (intro bit_word_eqI) (auto simp: bit_take_bit_iff not_less intro: leI)
  qed
  finally show ?thesis .
qed

lemma unat_two_power: "n \<le> 63 \<Longrightarrow> unat (2 ^ n :: 64 word) = 2 ^ n"
proof -
  assume "n \<le> 63"
  then have "(2::nat) ^ n < 2 ^ 64" by (intro power_strict_increasing) auto
  then have "unat (of_nat (2 ^ n) :: 64 word) = 2 ^ n"
    unfolding unat_of_nat by (simp del: of_nat_power)
  then show ?thesis by (simp only: of_nat_power of_nat_numeral)
qed

lemma bson_next_power_of_two_eq:
  "bson_next_power_of_two v = mask (bit_length (v - 1)) + 1"
  unfolding smear_eq_mask [symmetric]
  by (simp add: bson_next_power_of_two_def smear_def Let_def)

lemma next_power_of_two_spec:
  assumes "0 < unat v" and "unat v \<le> 2 ^ 63"
  shows "\<exists>m\<le>63. unat (bson_next_power_of_two v) = 2 ^ m \<and> unat v \<le> 2 ^ m
    \<and> (\<forall>n. unat v \<le> 2 ^ n \<longrightarrow> m \<le> n)"
proof -
  let ?x = "v - 1" and ?m = "bit_length (v - 1)"
  have v: "unat v = unat ?x + 1" using assms(1) by (simp add: unat_sub_if' unat_minus_one)
  then have lt: "unat ?x < 2 ^ 63" using assms(2) by simp
  then have "\<forall>j\<ge>63. \<not> bit ?x j" by (subst (asm) unat_less_2p_iff) auto
  then have m: "?m \<le> 63" unfolding bit_length_def by (rule Least_le)
  then have "mask ?m + 1 = (2 ^ ?m :: 64 word)" by (simp add: mask_eq_exp_minus_1)
  then have eq: "unat (bson_next_power_of_two v) = 2 ^ ?m"
    using m by (simp add: bson_next_power_of_two_eq unat_two_power)
  have "unat ?x < 2 ^ ?m"
    using m bit_length_bound [of ?x] by (subst unat_less_2p_iff) auto
  then have le: "unat v \<le> 2 ^ ?m" using v by simp
  have least: "?m \<le> n" if "unat v \<le> 2 ^ n" for n
  proof (cases "n < 64")
    case True
    from that v have "unat ?x < 2 ^ n" by simp
    then have "\<forall>j\<ge>n. \<not> bit ?x j" using True by (subst (asm) unat_less_2p_iff) auto
    then show ?thesis unfolding bit_length_def by (rule Least_le)
  next
    case False
    with m show ?thesis by simp
  qed
  show ?thesis using m eq le least by blast
qed

end
