(* ===== verification/BuildSpec.thy ===== *)
theory BuildSpec
  imports BsonAppend PowerTwo
begin

text \<open>
  What an append does to a document: \<open>holds h b body\<close> says that the storage of \<open>b\<close> holds a
  document with the elements \<open>body\<close> (its bytes between the length header and the final NUL).
  An append of the byte ranges \<open>bss\<close> either fails and changes nothing, or makes the body
  \<open>body @ concat bss\<close>, with the header and the final NUL in place, and touches no byte
  before the document and no other storage.
\<close>

section \<open>The abstraction\<close>

definition doc_bytes :: "byte list \<Rightarrow> byte list" where
  "doc_bytes body = mlib_write_u32le (of_nat (length body + 5)) @ body @ [0]"

lemma length_doc_bytes [simp]: "length (doc_bytes body) = length body + 5"
  by (simp add: doc_bytes_def)

definition storage_ok :: "heap \<Rightarrow> bson_t \<Rightarrow> bool" where
  "storage_ok h b \<longleftrightarrow>
     (if BSON_FLAG_INLINE_DATA \<in> b_flags b
      then length (h_cell h (b_cell b)) = BSON_INLINE_DATA_SIZE \<and> b_len b \<le> BSON_INLINE_DATA_SIZE
      else b_offset b + b_len b + b_depth b \<le> length (h_cell h (b_cell b)))"

definition holds :: "heap \<Rightarrow> bson_t \<Rightarrow> byte list \<Rightarrow> bool" where
  "holds h b body \<longleftrightarrow> storage_ok h b \<and> b_len b = length body + 5 \<and> b_len b \<le> BSON_MAX_SIZE
     \<and> take (b_len b) (bson_data h b) = doc_bytes body"

lemma bson_data_eq: "bson_data h b = drop (data_offset b) (h_cell h (b_cell b))"
  by (simp add: bson_data_def data_offset_def)

text \<open>The condition under which \<open>_bson_grow\<close> succeeds.\<close>

definition can_grow :: "heap \<Rightarrow> bson_t \<Rightarrow> nat \<Rightarrow> bool" where
  "can_grow h b n \<longleftrightarrow>
     (if BSON_FLAG_INLINE_DATA \<in> b_flags b then b_len b + n \<le> BSON_MAX_SIZE
      else let req = b_offset b + b_len b + n + b_depth b in
        req \<le> length (h_cell h (b_cell b)) \<or> req \<le> BSON_MAX_SIZE \<and> b_realloc b)"

text \<open>A document with storage of its own that may be reallocated and holds nothing else.\<close>

definition growable :: "bson_t \<Rightarrow> bool" where
  "growable b \<longleftrightarrow> BSON_FLAG_INLINE_DATA \<in> b_flags b
     \<or> b_realloc b \<and> \<not> b_indirect b \<and> b_offset b = 0 \<and> b_depth b = 0"

text \<open>
  Storage and document before and after an operation that keeps the first \<open>keep\<close> bytes of the
  cell and every other cell.
\<close>

definition frame :: "nat \<Rightarrow> heap \<Rightarrow> bson_t \<Rightarrow> heap \<Rightarrow> bson_t \<Rightarrow> bool" where
  "frame keep h b h' b' \<longleftrightarrow>
     (\<forall>c. c \<noteq> b_cell b \<longrightarrow> h_cell h' c = h_cell h c)
     \<and> take keep (h_cell h' (b_cell b)) = take keep (h_cell h (b_cell b))
     \<and> length (h_cell h (b_cell b)) \<le> length (h_cell h' (b_cell b))
     \<and> b_cell b' = b_cell b \<and> data_offset b' = data_offset b
     \<and> b_flags b - {BSON_FLAG_INLINE_DATA} = b_flags b' - {BSON_FLAG_INLINE_DATA}
     \<and> (growable b \<longrightarrow> growable b')
     \<and> (BSON_FLAG_INLINE_DATA \<notin> b_flags b \<longrightarrow> BSON_FLAG_INLINE_DATA \<notin> b_flags b'
          \<and> b_offset b' = b_offset b \<and> b_depth b' = b_depth b
          \<and> b_indirect b' = b_indirect b \<and> b_realloc b' = b_realloc b)"

lemma round_up_bounds:
  assumes "0 < sz" and "sz \<le> BSON_MAX_SIZE"
  shows "sz \<le> bson_round_up_alloc_size sz" and "bson_round_up_alloc_size sz \<le> BSON_MAX_SIZE"
proof -
  have "unat (of_nat sz :: 64 word) = sz"
    using assms by (simp add: unat_of_nat BSON_MAX_SIZE_def take_bit_nat_eq_self_iff)
  then obtain m where "unat (bson_next_power_of_two (of_nat sz)) = 2 ^ m" "sz \<le> 2 ^ m"
    using next_power_of_two_spec [of "of_nat sz"] assms by (auto simp: BSON_MAX_SIZE_def)
  then show "sz \<le> bson_round_up_alloc_size sz" "bson_round_up_alloc_size sz \<le> BSON_MAX_SIZE"
    using assms by (simp_all add: bson_round_up_alloc_size_def)
qed

lemma round_up_over: "BSON_MAX_SIZE < sz \<Longrightarrow> bson_round_up_alloc_size sz = sz"
  by (simp add: bson_round_up_alloc_size_def)

lemma round_up_le_iff:
  "0 < sz \<Longrightarrow> bson_round_up_alloc_size sz \<le> BSON_MAX_SIZE \<longleftrightarrow> sz \<le> BSON_MAX_SIZE"
  using round_up_bounds [of sz] round_up_over [of sz] by (cases "sz \<le> BSON_MAX_SIZE") auto

lemma length_fresh_buffer [simp]: "length (fresh_buffer h bs n) = n"
  by (simp add: fresh_buffer_def min_def)

lemma take_fresh_buffer: "k \<le> length bs \<Longrightarrow> k \<le> n \<Longrightarrow> take k (fresh_buffer h bs n) = take k bs"
  by (simp add: fresh_buffer_def min_def)

text \<open>Room for \<open>n\<close> more bytes.\<close>

definition room :: "heap \<Rightarrow> bson_t \<Rightarrow> nat \<Rightarrow> bool" where
  "room h b n \<longleftrightarrow>
     (if BSON_FLAG_INLINE_DATA \<in> b_flags b
      then length (h_cell h (b_cell b)) = BSON_INLINE_DATA_SIZE \<and> b_len b + n \<le> BSON_INLINE_DATA_SIZE
      else b_offset b + b_len b + n + b_depth b \<le> length (h_cell h (b_cell b)))"

lemma bson_grow_spec:
  assumes "holds h b body" and "n \<le> BSON_MAX_SIZE"
  shows "\<exists>h' b'. bson_grow h b n = Inr (can_grow h b n, h', b')
    \<and> (if can_grow h b n
        then frame (data_offset b + b_len b) h b h' b' \<and> room h' b' n \<and> b_len b' = b_len b
        else h' = h \<and> b' = b)"
proof (cases "BSON_FLAG_INLINE_DATA \<in> b_flags b")
  case True
  have b: "length (h_cell h (b_cell b)) = BSON_INLINE_DATA_SIZE" "b_len b \<le> BSON_INLINE_DATA_SIZE"
    "0 < b_len b" using assms True by (auto simp: holds_def storage_ok_def)
  have off: "data_offset b = 0" using True by (simp add: data_offset_def)
  let ?req = "b_len b + n"
  note grow = bson_grow_def bson_impl_inline_grow_def Let_def can_grow_def True assms(2)
  consider "?req \<le> BSON_INLINE_DATA_SIZE"
    | "BSON_INLINE_DATA_SIZE < ?req" "?req \<le> BSON_MAX_SIZE"
    | "BSON_MAX_SIZE < ?req" "BSON_INLINE_DATA_SIZE < ?req"
    by (force simp: BSON_MAX_SIZE_def BSON_INLINE_DATA_SIZE_def)
  then show ?thesis
  proof cases
    case 1
    then show ?thesis
      using b off by (auto simp: grow frame_def room_def BSON_MAX_SIZE_def BSON_INLINE_DATA_SIZE_def)
  next
    case 2
    note r = round_up_bounds [of ?req]
    from 2 b show ?thesis
      using r off
      by (auto simp: grow frame_def room_def take_fresh_buffer data_offset_def min_def growable_def)
  next
    case 3
    then show ?thesis using b by (simp add: grow round_up_over)
  qed
next
  case False
  have b: "b_offset b + b_len b + b_depth b \<le> length (h_cell h (b_cell b))" "0 < b_len b"
    using assms False by (auto simp: holds_def storage_ok_def)
  have off: "data_offset b = b_offset b" using False by (simp add: data_offset_def)
  let ?req = "b_offset b + b_len b + n + b_depth b"
  note grow = bson_grow_def bson_impl_alloc_grow_def Let_def can_grow_def False assms(2)
  consider "?req \<le> length (h_cell h (b_cell b))"
    | "length (h_cell h (b_cell b)) < ?req" "?req \<le> BSON_MAX_SIZE" "b_realloc b"
    | "length (h_cell h (b_cell b)) < ?req" "BSON_MAX_SIZE < ?req \<or> \<not> b_realloc b"
    by force
  then show ?thesis
  proof cases
    case 1
    then show ?thesis using b off by (auto simp: grow frame_def room_def)
  next
    case 2
    note r = round_up_bounds [of ?req]
    from 2 b show ?thesis
      using r off
      by (auto simp: grow frame_def room_def take_fresh_buffer data_offset_def)
  next
    case 3
    then have "\<not> (bson_round_up_alloc_size ?req \<le> BSON_MAX_SIZE \<and> b_realloc b)"
      using b by (auto simp: round_up_le_iff)
    with 3 show ?thesis by (auto simp: grow)
  qed
qed

section \<open>Collecting and copying\<close>

text \<open>The bytes an argument stands for; \<open>None\<close> where its memory is too short.\<close>

fun op_bytes :: "append_op \<Rightarrow> byte list option" where
  "op_bytes (Arg (Some m) n) = (if n \<le> length m then Some (take n m) else None)"
| "op_bytes (Arg None n) = (if n = 0 then Some [] else None)"
| "op_bytes (Str key n) =
     (if n < 0 then if 0 \<in> set key then Some (c_str key) else None
      else if nat n \<le> length key \<and> 0 \<notin> set (take (nat n) key) then Some (take (nat n) key) else None)"

definition arg_bytes :: "byte_arg \<Rightarrow> byte list" where
  "arg_bytes a = (case a of (bytes, n) \<Rightarrow> (case bytes of None \<Rightarrow> [] | Some m \<Rightarrow> take n m))"

definition arg_ok :: "byte_arg \<Rightarrow> bool" where
  "arg_ok a = (case a of (bytes, n) \<Rightarrow> (case bytes of None \<Rightarrow> False | Some m \<Rightarrow> n \<le> length m))"

lemma op_bytes_key [simp]: "op_bytes (arg bs) = Some bs"
  by simp

lemma add_argument_ok:
  assumes "n_bytes \<le> BSON_MAX_SIZE" and "n \<le> length m"
  shows "add_argument (Some m) n (args, n_bytes)
    = (if n_bytes + n \<le> BSON_MAX_SIZE
       then Some (if n = 0 then args else args @ [(Some m, n)], n_bytes + n) else None)"
  using assms by (auto simp: add_argument_def BSON_MAX_SIZE_def)

lemma collect_Cons:
  assumes "op_bytes op = Some bs" and "n_bytes \<le> BSON_MAX_SIZE" and "length bs \<le> UINT32_MAX"
  shows "\<exists>args'. (\<forall>a\<in>set args'. arg_ok a) \<and> concat (map arg_bytes args') = bs
    \<and> collect (op # ops) (args, n_bytes)
      = (if n_bytes + length bs \<le> BSON_MAX_SIZE
         then collect ops (args @ args', n_bytes + length bs) else Inr None)"
proof -
  have *: ?thesis if "op = Arg (Some m) n \<or> op = Str m k \<and>
      add_checked_string m k (args, n_bytes) = Inr (add_argument (Some m) n (args, n_bytes))"
    "n \<le> length m" "bs = take n m" for m n k
    using that assms(2)
    by (intro exI [of _ "if n = 0 then [] else [(Some m, n)]"])
      (auto simp: add_argument_ok arg_ok_def arg_bytes_def)
  show ?thesis
  proof (cases op)
    case (Arg bytes n)
    show ?thesis
    proof (cases bytes)
      case None
      then have "n = 0" "bs = []" using assms(1) Arg by (auto split: if_splits)
      with None Arg assms(2) show ?thesis
        by (intro exI [of _ "[]"]) (auto simp: add_argument_def)
    next
      case (Some m)
      with assms(1) Arg show ?thesis by (intro * [of m n]) (auto split: if_splits)
    qed
  next
    case (Str key k)
    show ?thesis
    proof (cases "k < 0")
      case True
      then have k: "0 \<in> set key" "bs = c_str key" using assms(1) Str by (auto split: if_splits)
      then obtain r where "key = c_str key @ 0 # r" using c_str_decomp by blast
      then have "take (length (c_str key)) key = c_str key"
        by (metis append_eq_conv_conj)
      with k True Str assms(3) show ?thesis
        by (intro * [of key "length (c_str key)" k])
          (auto simp: add_checked_string_def c_strlen_def less_imp_le length_c_str_less)
    next
      case False
      with assms(1) Str have "nat k \<le> length key" "0 \<notin> set (take (nat k) key)" "bs = take (nat k) key"
        by (auto split: if_splits)
      moreover from this have "length bs = nat k" by simp
      ultimately show ?thesis
        using False Str assms(3)
        by (intro * [of key "nat k" k]) (simp_all add: add_checked_string_def Let_def)
    qed
  qed
qed

lemma collect_spec:
  assumes "list_all2 (\<lambda>op bs. op_bytes op = Some bs) ops bss" and "n_bytes \<le> BSON_MAX_SIZE"
    and "\<forall>bs\<in>set bss. length bs \<le> UINT32_MAX"
  shows "\<exists>args'. (\<forall>a\<in>set args'. arg_ok a) \<and> concat (map arg_bytes args') = concat bss
    \<and> collect ops (args, n_bytes)
      = (if n_bytes + length (concat bss) \<le> BSON_MAX_SIZE
         then Inr (Some (args @ args', n_bytes + length (concat bss))) else Inr None)"
  using assms
proof (induction ops bss arbitrary: args n_bytes rule: list_all2_induct)
  case Nil
  then show ?case by (intro exI [of _ "[]"]) simp
next
  case (Cons op ops bs bss)
  obtain a1 where a1: "\<forall>a\<in>set a1. arg_ok a" "concat (map arg_bytes a1) = bs"
    "collect (op # ops) (args, n_bytes)
      = (if n_bytes + length bs \<le> BSON_MAX_SIZE
         then collect ops (args @ a1, n_bytes + length bs) else Inr None)"
    using collect_Cons [OF Cons.hyps(1) Cons.prems(1), of ops args] Cons.prems(2) by auto
  show ?case
  proof (cases "n_bytes + length bs \<le> BSON_MAX_SIZE")
    case True
    from Cons.IH [OF True, of "args @ a1"] Cons.prems(2) obtain a2 where
      "\<forall>a\<in>set a2. arg_ok a" "concat (map arg_bytes a2) = concat bss"
      "collect ops (args @ a1, n_bytes + length bs)
        = (if n_bytes + length bs + length (concat bss) \<le> BSON_MAX_SIZE
           then Inr (Some ((args @ a1) @ a2, n_bytes + length bs + length (concat bss))) else Inr None)"
      by auto
    with a1 True show ?thesis
      by (intro exI [of _ "a1 @ a2"]) (auto simp: add.assoc)
  next
    case False
    from Cons.IH [of 0 "[]"] Cons.prems(2) obtain a2 where
      "\<forall>a\<in>set a2. arg_ok a" "concat (map arg_bytes a2) = concat bss" by auto
    with a1 False show ?thesis by (intro exI [of _ "a1 @ a2"]) auto
  qed
qed

lemma wr_range_mid:
  "h_cell h c = X @ Y @ Z \<Longrightarrow> length Y = length bs \<Longrightarrow> i = length X \<Longrightarrow>
    wr_range h c i bs = Inr (h\<lparr>h_cell := (h_cell h)(c := X @ bs @ Z)\<rparr>)"
  by (simp add: wr_range_def)

lemma copy_args_spec:
  assumes "\<forall>a\<in>set args. arg_ok a" and "h_cell h (b_cell b) = X @ Y @ Z"
    and "length Y = length (concat (map arg_bytes args))" and "b_len b + length Y < 2 ^ 32"
    and "pos = length X"
  shows "copy_args h b pos args
    = Inr (h\<lparr>h_cell := (h_cell h)(b_cell b := X @ concat (map arg_bytes args) @ Z)\<rparr>,
           b\<lparr>b_len := b_len b + length Y\<rparr>, pos + length Y)"
  using assms
proof (induction args arbitrary: h b X Y pos)
  case Nil
  then have "(h_cell h)(b_cell b := X @ Z) = h_cell h" by auto
  with Nil show ?case by simp
next
  case (Cons a args)
  obtain m n where a: "a = (Some m, n)" "n \<le> length m"
    using Cons.prems(1) by (auto simp: arg_ok_def split: prod.splits option.splits)
  define bs where "bs = concat (map arg_bytes args)"
  have ab: "arg_bytes a = take n m" using a by (simp add: arg_bytes_def)
  have Y: "length Y = n + length bs"
    using Cons.prems(3) a(2) by (simp add: ab bs_def)
  define Y1 Y2 where "Y1 = take n Y" and "Y2 = drop n Y"
  have Y12: "Y = Y1 @ Y2" "length Y1 = n" "length Y2 = length bs"
    using Y by (simp_all add: Y1_def Y2_def)
  let ?h1 = "h\<lparr>h_cell := (h_cell h)(b_cell b := X @ take n m @ Y2 @ Z)\<rparr>"
    and ?b1 = "b\<lparr>b_len := b_len b + n\<rparr>"
  have wr: "wr_range h (b_cell b) pos (take n m) = Inr ?h1"
    using Cons.prems Y12 a by (intro wr_range_mid [of _ _ _ Y1]) simp_all
  have "copy_args ?h1 ?b1 (pos + n) args
      = Inr (?h1\<lparr>h_cell := (h_cell ?h1)(b_cell ?b1 := (X @ take n m) @ bs @ Z)\<rparr>,
             ?b1\<lparr>b_len := b_len ?b1 + length Y2\<rparr>, pos + n + length Y2)"
    unfolding bs_def
    using Cons.prems a Y12 by (intro Cons.IH) (simp_all add: bs_def)
  then have "copy_args h b pos (a # args)
      = Inr (?h1\<lparr>h_cell := (h_cell ?h1)(b_cell ?b1 := (X @ take n m) @ bs @ Z)\<rparr>,
             ?b1\<lparr>b_len := b_len ?b1 + length Y2\<rparr>, pos + n + length Y2)"
    using Cons.prems(4) Y a wr by simp
  then show ?case
    using Y Y12 ab by (simp add: bs_def add.assoc fun_upd_def cong: if_cong)
qed

section \<open>The append\<close>

lemma apply_arguments_spec:
  assumes holds: "holds h b body" and args: "\<forall>a\<in>set args. arg_ok a"
    and bs: "bs = concat (map arg_bytes args)" and max: "length bs \<le> BSON_MAX_SIZE"
  shows "\<exists>h' b'. apply_arguments h b (args, length bs)
      = Inr (b_len b + length bs \<le> BSON_MAX_SIZE \<and> can_grow h b (length bs), h', b')
    \<and> (if b_len b + length bs \<le> BSON_MAX_SIZE \<and> can_grow h b (length bs)
        then holds h' b' (body @ bs) \<and> frame (data_offset b) h b h' b'
        else h' = h \<and> b' = b)"
proof (cases "b_len b + length bs \<le> BSON_MAX_SIZE")
  case False
  have le: "b_len b \<le> BSON_MAX_SIZE" using holds by (simp add: holds_def)
  then have "sub64 BSON_MAX_SIZE (b_len b) = BSON_MAX_SIZE - b_len b"
    by (simp add: BSON_MAX_SIZE_def)
  with le have "length bs > sub64 BSON_MAX_SIZE (b_len b)"
    using False by simp
  then have "apply_arguments h b (args, length bs) = Inr (False, h, b)"
    by (simp add: apply_arguments_def)
  with False show ?thesis by simp
next
  case len: True
  have sub: "sub64 BSON_MAX_SIZE (b_len b) = BSON_MAX_SIZE - b_len b"
    using len by (simp add: BSON_MAX_SIZE_def)
  from bson_grow_spec [OF holds max] obtain h1 b1 where grow:
    "bson_grow h b (length bs) = Inr (can_grow h b (length bs), h1, b1)"
    "if can_grow h b (length bs)
     then frame (data_offset b + b_len b) h b h1 b1 \<and> room h1 b1 (length bs) \<and> b_len b1 = b_len b
     else h1 = h \<and> b1 = b" by blast
  show ?thesis
  proof (cases "can_grow h b (length bs)")
    case False
    with grow len sub show ?thesis by (simp add: apply_arguments_def)
  next
    case True
    then have fr: "frame (data_offset b + b_len b) h b h1 b1" and room: "room h1 b1 (length bs)"
      and lb: "b_len b1 = b_len b" using grow(2) by auto
    let ?c = "b_cell b" and ?off = "data_offset b"
    have c1: "b_cell b1 = ?c" "data_offset b1 = ?off" using fr by (auto simp: frame_def)
    define m1 where "m1 = h_cell h1 ?c"
    have doc: "take (b_len b) (drop ?off (h_cell h ?c)) = doc_bytes body"
        and blen: "b_len b = length body + 5"
      using holds by (auto simp: holds_def bson_data_eq)
    have space: "?off + b_len b + length bs \<le> length m1"
      using room c1 lb by (auto simp: room_def m1_def data_offset_def split: if_splits)
    have take1: "take (?off + b_len b) m1 = take (?off + b_len b) (h_cell h ?c)"
      using fr by (simp add: frame_def m1_def)
    then have doc1: "take (b_len b) (drop ?off m1) = doc_bytes body"
      using doc by (metis drop_take add_diff_cancel_left')
    define P R where "P = take ?off m1" and "R = drop (?off + b_len b) m1"
    have "m1 = P @ take (b_len b) (drop ?off m1) @ R"
      unfolding P_def R_def append_assoc [symmetric] take_add [symmetric] by simp
    then have m1: "m1 = P @ mlib_write_u32le (of_nat (length body + 5)) @ body @ [0] @ R"
      using doc1 by (simp add: doc_bytes_def)
    define Y Z where "Y = take (length bs) ([0] @ R)" and "Z = drop (length bs) ([0] @ R)"
    have lP: "length P = ?off" using space by (simp add: P_def)
    have lR: "length bs \<le> length R" using space by (simp add: R_def)
    have Y: "[0] @ R = Y @ Z" "length Y = length bs" using lR by (simp_all add: Y_def Z_def)
    obtain z Z' where Z: "Z = z # Z'" "length Z' = length R - length bs"
    proof -
      have "length Z = Suc (length R - length bs)" using lR by (simp add: Z_def)
      then show thesis using that by (cases Z) auto
    qed
    let ?X = "P @ mlib_write_u32le (of_nat (length body + 5)) @ body"
    define b2 where "b2 = b1\<lparr>b_len := b_len b + length bs\<rparr>"
    have "data_offset b2 = data_offset b1" by (simp add: b2_def data_offset_def)
    then have b2: "b_len b2 = b_len b + length bs" "b_cell b2 = ?c" "data_offset b2 = ?off"
      "b_flags b2 = b_flags b1" "b_offset b2 = b_offset b1" "b_depth b2 = b_depth b1"
      "b_indirect b2 = b_indirect b1" "b_realloc b2 = b_realloc b1"
      using c1 by (simp_all add: b2_def)
    have pos: "?off + sub32 (b_len b) 1 = length ?X"
      using lP blen len by (simp add: BSON_MAX_SIZE_def)
    let ?h2 = "h1\<lparr>h_cell := (h_cell h1)(?c := ?X @ bs @ Z)\<rparr>"
    have copy: "copy_args h1 b1 (length ?X) args = Inr (?h2, b2, length ?X + length bs)"
      using copy_args_spec [of args h1 b1 ?X Y Z "length ?X"] args m1 Y lb len bs c1
      by (simp add: m1_def [symmetric] BSON_MAX_SIZE_def b2_def)
    let ?H = "mlib_write_u32le (of_nat (b_len b + length bs))"
    let ?h3 = "h1\<lparr>h_cell := (h_cell h1)(?c := P @ ?H @ body @ bs @ Z)\<rparr>"
    have enc: "bson_encode_length ?h2 b2 = Inr ?h3"
      unfolding bson_encode_length_def b2
      by (subst wr_range_mid [of _ _ P "mlib_write_u32le (of_nat (length body + 5))" "body @ bs @ Z"])
        (simp_all add: lP)
    let ?h4 = "h1\<lparr>h_cell := (h_cell h1)(?c := P @ ?H @ body @ bs @ 0 # Z')\<rparr>"
    have nul: "wr_range ?h3 ?c (length ?X + length bs) [0] = Inr ?h4"
      by (subst wr_range_mid [of _ _ "P @ ?H @ body @ bs" "[z]" Z']) (simp_all add: Z)
    have eval: "apply_arguments h b (args, length bs) = Inr (True, ?h4, b2)"
      using grow(1) True sub len pos copy enc nul c1 lb b2
      by (simp add: apply_arguments_def)
    have doc4: "P @ ?H @ body @ bs @ 0 # Z' = P @ doc_bytes (body @ bs) @ Z'"
      using blen by (simp add: doc_bytes_def ac_simps)
    have len4: "length (P @ ?H @ body @ bs @ 0 # Z') = length m1"
      using Z lR by (simp add: m1)
    have storage: "storage_ok ?h4 b2"
      using room b2 len4 by (simp add: storage_ok_def room_def c1 m1_def [symmetric] lb split: if_splits)
    have "bson_data ?h4 b2 = doc_bytes (body @ bs) @ Z'"
      using lP by (simp only: bson_data_eq b2 heap.simps fun_upd_same doc4) simp
    then have "holds ?h4 b2 (body @ bs)"
      using storage b2 blen len by (simp add: holds_def)
    moreover have "frame ?off h b ?h4 b2"
    proof -
      have "take ?off (P @ ?H @ body @ bs @ 0 # Z') = take ?off m1" using lP by (simp add: P_def)
      also have "\<dots> = take ?off (h_cell h ?c)"
        using arg_cong [OF take1, of "take ?off"] by (simp add: min_def)
      finally show ?thesis using fr b2 len4 by (auto simp: frame_def m1_def growable_def)
    qed
    ultimately show ?thesis using eval len True by auto
  qed
qed

end
