(* ===== verification/AppendLaw.thy ===== *)
theory AppendLaw
  imports BuildSpec
begin

text \<open>
  The contract of the append functions: a successful append puts exactly the bytes of one element
  after the elements of the document, a failing one changes nothing, and which of the two
  happens depends on the sizes alone. The locale \<open>appender\<close> states it for a function
  that takes a key; the functions of \<open>BsonAppend\<close> are its interpretations.
\<close>

section \<open>The outcome of an append\<close>

definition can_append :: "heap \<Rightarrow> bson_t \<Rightarrow> nat \<Rightarrow> bool" where
  "can_append h b n \<longleftrightarrow> b_len b + n \<le> BSON_MAX_SIZE \<and> can_grow h b n"

lemma empty_doc_bytes: "empty_doc = doc_bytes []"
  by (simp add: empty_doc_def doc_bytes_def mlib_write_u32le_def le_bytes_def upt_conv_Cons)

text \<open>\<open>appended h b body bs r\<close>: the result \<open>r\<close> of an append of \<open>bs\<close> to the body \<open>body\<close>.\<close>

definition appended :: "heap \<Rightarrow> bson_t \<Rightarrow> byte list \<Rightarrow> byte list \<Rightarrow> append_result \<Rightarrow> bool" where
  "appended h b body bs r \<longleftrightarrow> (\<exists>h' b'. r = Inr (can_append h b (length bs), h', b')
     \<and> (if can_append h b (length bs)
         then holds h' b' (body @ bs) \<and> frame (data_offset b) h b h' b'
         else h' = h \<and> b' = b))"

lemma appendedE:
  assumes "appended h b body bs r"
  obtains h' b' where "r = Inr (True, h', b')" "can_append h b (length bs)"
      "holds h' b' (body @ bs)" "frame (data_offset b) h b h' b'"
    | "r = Inr (False, h, b)" "\<not> can_append h b (length bs)"
  using assms by (auto simp: appended_def split: if_splits)

lemma op_bytes_length:
  "op_bytes op = Some bs \<Longrightarrow> length bs \<le> BSON_MAX_SIZE \<Longrightarrow> length bs \<le> UINT32_MAX"
  by (simp add: BSON_MAX_SIZE_def UINT32_MAX_def)

text \<open>
  The lengths of the arguments are at most \<open>UINT32_MAX\<close>: they are \<open>uint32_t\<close> or \<open>int\<close> values in
  the code, or string lengths that the code checks.
\<close>

lemma append_ops_spec:
  assumes holds: "holds h b body"
    and ops: "list_all2 (\<lambda>op bs. op_bytes op = Some bs) ops bss"
    and len: "\<forall>bs\<in>set bss. length bs \<le> UINT32_MAX"
  shows "appended h b body (concat bss) (append_ops h b ops)"
proof -
  let ?n = "length (concat bss)"
  from collect_spec [OF ops _ len, of 0 "[]"] obtain args where
    args: "\<forall>a\<in>set args. arg_ok a" "concat (map arg_bytes args) = concat bss"
    "collect ops ([], 0) = (if ?n \<le> BSON_MAX_SIZE then Inr (Some (args, ?n)) else Inr None)"
    by auto
  show ?thesis
  proof (cases "?n \<le> BSON_MAX_SIZE")
    case True
    from apply_arguments_spec [OF holds args(1) args(2) [symmetric] True] args(3) True
    show ?thesis
      unfolding append_ops_def appended_def can_append_def by simp
  next
    case False
    then show ?thesis
      using args(3) by (simp add: append_ops_def appended_def can_append_def)
  qed
qed

text \<open>The key argument and the bytes of an element.\<close>

definition key_arg :: "byte list \<Rightarrow> int \<Rightarrow> byte list \<Rightarrow> bool" where
  "key_arg key klen k \<longleftrightarrow> op_bytes (Str key klen) = Some k \<and> length k \<le> UINT32_MAX"

lemma key_arg_str [intro]: "0 \<notin> set k \<Longrightarrow> length k \<le> UINT32_MAX \<Longrightarrow> klen < 0 \<Longrightarrow> key_arg (k @ 0 # r) klen k"
  by (simp add: key_arg_def)

lemma key_arg_len [intro]:
  "0 \<notin> set k \<Longrightarrow> length k \<le> UINT32_MAX \<Longrightarrow> key_arg (k @ r) (int (length k)) k"
  by (simp add: key_arg_def)

lemma key_arg_no_nul: "key_arg key klen k \<Longrightarrow> 0 \<notin> set k"
  by (auto simp: key_arg_def split: if_splits)

definition elem_bytes :: "bson_type \<Rightarrow> byte list \<Rightarrow> byte list \<Rightarrow> byte list" where
  "elem_bytes t k payload = type_byte t # k @ 0 # payload"

lemma length_elem_bytes [simp]: "length (elem_bytes t k p) = length k + length p + 2"
  by (simp add: elem_bytes_def)

lemma append_elem:
  assumes "holds h b body" and "key_arg key klen k"
    and "list_all2 (\<lambda>op bs. op_bytes op = Some bs) ops bss"
    and "\<forall>bs\<in>set bss. length bs \<le> UINT32_MAX"
  shows "appended h b body (elem_bytes t k (concat bss)) (append_ops h b (key_ops t key klen @ ops))"
proof -
  have "appended h b body (concat ([[type_byte t], k, [0]] @ bss))
      (append_ops h b (key_ops t key klen @ ops))"
    using assms unfolding key_ops_def key_arg_def
    by (intro append_ops_spec list_all2_appendI) (auto simp: UINT32_MAX_def)
  then show ?thesis by (simp add: elem_bytes_def)
qed

lemma bson_init_holds:
  assumes "length (h_cell h c) = BSON_INLINE_DATA_SIZE"
  shows "\<exists>h' b. bson_init h c = Inr (h', b) \<and> holds h' b [] \<and> growable b
    \<and> (\<forall>c'. c' \<noteq> c \<longrightarrow> h_cell h' c' = h_cell h c') \<and> length (h_cell h' c) = BSON_INLINE_DATA_SIZE
    \<and> b_flags b = {BSON_FLAG_INLINE_DATA, BSON_FLAG_NO_FREE_OBJECT} \<and> b_cell b = c"
proof -
  note e = empty_doc_bytes
  show ?thesis
    using assms
    by (simp add: bson_init_def wr_range_def BSON_INLINE_DATA_SIZE_def holds_def storage_ok_def
        bson_data_def growable_def BSON_MAX_SIZE_def e)
qed

text \<open>Growing a document with its own storage fails only at \<open>BSON_MAX_SIZE\<close>.\<close>

lemma can_append_growable:
  assumes "holds h b body" and "growable b"
  shows "can_append h b n \<longleftrightarrow> b_len b + n \<le> BSON_MAX_SIZE"
  using assms by (auto simp: can_append_def can_grow_def growable_def holds_def storage_ok_def Let_def
      split: if_splits)

section \<open>The contract as a locale\<close>

locale appender =
  fixes app :: "heap \<Rightarrow> bson_t \<Rightarrow> byte list \<Rightarrow> int \<Rightarrow> append_result"
    and t :: bson_type and payload :: "byte list"
  assumes app: "holds h b body \<Longrightarrow> key_arg key klen k \<Longrightarrow>
    appended h b body (elem_bytes t k payload) (app h b key klen)"
begin

lemma success_body:
  assumes "holds h b body" and "key_arg key klen k" and "app h b key klen = Inr (True, h', b')"
  shows "holds h' b' (body @ elem_bytes t k payload)"
  using app [OF assms(1,2)] assms(3) by (auto elim!: appendedE)

lemma failure_unchanged:
  assumes "holds h b body" and "key_arg key klen k" and "app h b key klen = Inr (False, h', b')"
  shows "h' = h" and "b' = b"
  using app [OF assms(1,2)] assms(3) by (auto elim!: appendedE)

lemma success_length:
  assumes "holds h b body" and "key_arg key klen k" and "app h b key klen = Inr (True, h', b')"
  shows "b_len b' = b_len b + length k + length payload + 2"
  using success_body [OF assms] assms(1) by (simp add: holds_def)

lemma no_fault:
  assumes "holds h b body" and "key_arg key klen k"
  shows "\<exists>r. app h b key klen = Inr r"
  using app [OF assms] by (auto elim!: appendedE)

lemma success_frame:
  assumes "holds h b body" and "key_arg key klen k" and "app h b key klen = Inr (True, h', b')"
  shows "frame (data_offset b) h b h' b'"
  using app [OF assms(1,2)] assms(3) by (auto elim!: appendedE)

end

end
