(* ===== verification/BsonCodec.thy ===== *)
theory BsonCodec
  imports AppendLaw
begin

text \<open>
  The iterator decodes what the append functions encode. A document is the bytes of a list of
  elements \<open>(type, key, payload)\<close>; \<open>payload_ok\<close> are the payloads of the BSON grammar as far as
  the iterator checks them. Iterating over the document of a list of such elements gives back
  exactly the list.
\<close>

section \<open>Payloads\<close>

type_synonym element = "bson_type \<times> byte list \<times> byte list"

definition string_payload :: "byte list \<Rightarrow> bool" where
  "string_payload p \<longleftrightarrow> 4 < length p \<and> u32_at p 0 = length p - 4 \<and> last p = 0"

definition binary_payload :: "byte list \<Rightarrow> bool" where
  "binary_payload p \<longleftrightarrow> 5 \<le> length p \<and> u32_at p 0 = length p - 5
     \<and> (p ! 4 = BSON_SUBTYPE_BINARY_DEPRECATED \<longrightarrow> 9 \<le> length p \<and> u32_at p 5 = length p - 9)"

definition document_payload :: "byte list \<Rightarrow> bool" where
  "document_payload p \<longleftrightarrow> 4 \<le> length p \<and> u32_at p 0 = length p"

definition regex_payload :: "byte list \<Rightarrow> bool" where
  "regex_payload p \<longleftrightarrow> (let r = c_str p; o' = c_str (drop (Suc (length r)) p) in p = r @ 0 # o' @ [0])"

definition dbpointer_payload :: "byte list \<Rightarrow> bool" where
  "dbpointer_payload p \<longleftrightarrow> 16 < length p \<and> u32_at p 0 = length p - 16 \<and> p ! (length p - 13) = 0"

definition codewscope_payload :: "byte list \<Rightarrow> bool" where
  "codewscope_payload p \<longleftrightarrow> 14 \<le> length p \<and> u32_at p 0 = length p \<and> 0 < u32_at p 4
     \<and> u32_at p 4 + 12 < length p \<and> u32_at p 4 + 8 + u32_at p (u32_at p 4 + 8) = length p"

fun payload_ok :: "bson_type \<Rightarrow> byte list \<Rightarrow> bool" where
  "payload_ok BSON_TYPE_EOD p = False"
| "payload_ok BSON_TYPE_DOUBLE p = (length p = 8)"
| "payload_ok BSON_TYPE_UTF8 p = string_payload p"
| "payload_ok BSON_TYPE_DOCUMENT p = document_payload p"
| "payload_ok BSON_TYPE_ARRAY p = document_payload p"
| "payload_ok BSON_TYPE_BINARY p = binary_payload p"
| "payload_ok BSON_TYPE_UNDEFINED p = (p = [])"
| "payload_ok BSON_TYPE_OID p = (length p = 12)"
| "payload_ok BSON_TYPE_BOOL p = (p = [0] \<or> p = [1])"
| "payload_ok BSON_TYPE_DATE_TIME p = (length p = 8)"
| "payload_ok BSON_TYPE_NULL p = (p = [])"
| "payload_ok BSON_TYPE_REGEX p = regex_payload p"
| "payload_ok BSON_TYPE_DBPOINTER p = dbpointer_payload p"
| "payload_ok BSON_TYPE_CODE p = string_payload p"
| "payload_ok BSON_TYPE_SYMBOL p = string_payload p"
| "payload_ok BSON_TYPE_CODEWSCOPE p = codewscope_payload p"
| "payload_ok BSON_TYPE_INT32 p = (length p = 4)"
| "payload_ok BSON_TYPE_TIMESTAMP p = (length p = 8)"
| "payload_ok BSON_TYPE_INT64 p = (length p = 8)"
| "payload_ok BSON_TYPE_DECIMAL128 p = (length p = 16)"
| "payload_ok BSON_TYPE_MAXKEY p = (p = [])"
| "payload_ok BSON_TYPE_MINKEY p = (p = [])"

text \<open>Decoding fills the iterator, and the element ends where its payload does.\<close>

definition fills :: "nat \<Rightarrow> nat \<Rightarrow> bson_iter \<Rightarrow> field_result \<Rightarrow> bool" where
  "fills o' n it r \<longleftrightarrow> (\<exists>o2 it2. r = Inr (Filled, o2, it2) \<and> same_frame it it2
     \<and> it_next_off it2 = o' + n)"

text \<open>The payload \<open>p\<close> lies in the buffer at \<open>o'\<close>, with a byte after it below \<open>len\<close>.\<close>

definition lies_at :: "byte list \<Rightarrow> nat \<Rightarrow> nat \<Rightarrow> byte list \<Rightarrow> bool" where
  "lies_at data len o' p \<longleftrightarrow> len \<le> length data \<and> len \<le> 2147483647 \<and> o' + length p < len
     \<and> take (length p) (drop o' data) = p"

lemma lies_atD:
  assumes "lies_at data len o' p"
  shows "len \<le> length data" "len \<le> 2147483647" "o' + length p < len"
    and "i < length p \<Longrightarrow> data ! (o' + i) = p ! i"
    and "i + 4 \<le> length p \<Longrightarrow> u32_at data (o' + i) = u32_at p i"
proof -
  show *: "len \<le> length data" "len \<le> 2147483647" "o' + length p < len"
    using assms by (auto simp: lies_at_def)
  have p: "take (length p) (drop o' data) = p" using assms by (simp add: lies_at_def)
  { assume "i < length p"
    then have "p ! i = take (length p) (drop o' data) ! i" by (simp add: p)
    with \<open>i < length p\<close> * show "data ! (o' + i) = p ! i" by simp }
  { assume "i + 4 \<le> length p"
    then have "take 4 (drop i (take (length p) (drop o' data))) = take 4 (drop (o' + i) data)"
      by (simp add: drop_take min_def add.commute)
    then show "u32_at data (o' + i) = u32_at p i" by (simp add: u32_at_def p) }
qed

lemmas lies_at_bounds = lies_atD(1-3)
lemmas lies_at_nth = lies_atD(4)
lemmas lies_at_u32 = lies_atD(5)

lemma lies_at_u32_0: "lies_at data len o' p \<Longrightarrow> 4 \<le> length p \<Longrightarrow> u32_at data o' = u32_at p 0"
  using lies_at_u32 [of data len o' p 0] by simp

lemma fixed_fills: "lies_at data len o' p \<Longrightarrow> length p = n \<Longrightarrow> fills o' n it (fixed_field n o' it)"
  using lies_at_bounds by (fastforce simp: fills_def fixed_field_def)

lemma string_fills:
  assumes l: "lies_at data len o' p" and p: "string_payload p" and d1: "it_d1 it = o'"
  shows "fills o' (length p) it (string_field data len o' it)"
proof -
  note b = lies_at_bounds [OF l]
  have len: "u32_at data o' = length p - 4" "4 < length p"
    using p lies_at_u32_0 [OF l] by (auto simp: string_payload_def)
  then have "p \<noteq> []" by auto
  then have z: "data ! (o' + (length p - 1)) = 0"
    using p lies_at_nth [OF l, of "length p - 1"] by (simp add: string_payload_def last_conv_nth)
  have g: "\<not> len \<le> o' + 4" "\<not> len - (o' + 4) < length p - 4" "length p - 4 \<noteq> 0"
    "o' + 4 + (length p - 4) = o' + length p" "o' + 4 + (length p - 4 - 1) = o' + (length p - 1)"
    "o' + length p < 4294967296" "length p - 4 < 4294967296"
    using b len by arith+
  show ?thesis
    using b len(1) d1 z g
    by (simp add: fills_def string_field_def Let_def u32_at_def [symmetric])
qed

lemma document_fills:
  assumes l: "lies_at data len o' p" and p: "document_payload p" and d1: "it_d1 it = o'"
  shows "fills o' (length p) it (document_field data len o' it)"
proof -
  note b = lies_at_bounds [OF l]
  have len: "u32_at data o' = length p" "4 \<le> length p"
    using p lies_at_u32_0 [OF l] by (auto simp: document_payload_def)
  have g: "\<not> len - 4 \<le> o'" "\<not> len - o' < length p" using b len by arith+
  show ?thesis
    using b len d1 g
    by (simp add: fills_def document_field_def Let_def u32_at_def [symmetric])
qed

lemma bool_fills:
  assumes l: "lies_at data len o' p" and p: "p = [0] \<or> p = [1]" and d1: "it_d1 it = o'"
  shows "fills o' (length p) it (bool_field data len o' it)"
proof -
  have "data ! o' = 0 \<or> data ! o' = 1" using p lies_at_nth [OF l, of 0] by auto
  moreover have "length p = 1" using p by auto
  ultimately show ?thesis
    using lies_at_bounds [OF l] d1 by (auto simp: fills_def bool_field_def)
qed

lemma sint_eq_nat:
  assumes "unat (w :: 32 word) < 2147483648"
  shows "sint w = int (unat w)"
  using assms by (rule sint_u32_small)

lemma binary_fills:
  assumes l: "lies_at data len o' p" and p: "binary_payload p" and d1: "it_d1 it = o'"
  shows "fills o' (length p) it (binary_field data len o' it)"
proof -
  note b = lies_at_bounds [OF l]
  have len: "u32_at data o' = length p - 5" "5 \<le> length p"
    using p lies_at_u32_0 [OF l] by (auto simp: binary_payload_def)
  have st: "data ! (o' + 4) = p ! 4" using len lies_at_nth [OF l] by simp
  have g: "\<not> len - 4 \<le> o'" "\<not> len - (o' + 4) \<le> length p - 5" using b len by arith+
  show ?thesis
  proof (cases "p ! 4 = BSON_SUBTYPE_BINARY_DEPRECATED")
    case True
    then have old: "9 \<le> length p" "u32_at data (o' + 5) = length p - 9"
      using p lies_at_u32 [OF l, of 5] by (auto simp: binary_payload_def)
    then have "sint (le_word (take 4 (drop (o' + 5) data)) :: 32 word) = int (length p - 9)"
      using b by (subst sint_u32_small) (simp_all add: u32_at_def)
    moreover have "\<not> length p - 5 < 4" using old by arith
    ultimately show ?thesis
      using True st old b len d1 g
      by (simp add: fills_def binary_field_def Let_def u32_at_def [symmetric])
  next
    case False
    with st b len d1 g show ?thesis
      by (simp add: fills_def binary_field_def Let_def u32_at_def [symmetric])
  qed
qed

lemma dbpointer_fills:
  assumes l: "lies_at data len o' p" and p: "dbpointer_payload p" and d1: "it_d1 it = o'"
  shows "fills o' (length p) it (dbpointer_field data len o' it)"
proof -
  note b = lies_at_bounds [OF l]
  have len: "u32_at data o' = length p - 16" "16 < length p"
    using p lies_at_u32_0 [OF l] by (auto simp: dbpointer_payload_def)
  have z: "data ! (o' + (length p - 13)) = 0"
    using p lies_at_nth [OF l, of "length p - 13"] len by (simp add: dbpointer_payload_def)
  have i: "o' + (length p - 16) + 3 = o' + (length p - 13)" using len by simp
  have g: "\<not> len - 4 \<le> o'" "\<not> len - (o' + 4) < length p - 16" using b len by arith+
  show ?thesis
    using b len d1 z g
    by (simp add: fills_def dbpointer_field_def Let_def u32_at_def [symmetric] i)
qed

lemma codewscope_fills:
  assumes l: "lies_at data len o' p" and p: "codewscope_payload p" and d1: "it_d1 it = o'"
    and o': "4 \<le> o'"
  shows "fills o' (length p) it (codewscope_field data len o' it)"
proof -
  note b = lies_at_bounds [OF l]
  define js where "js = u32_at p 4"
  have p': "14 \<le> length p" "u32_at p 0 = length p" "0 < js" "js + 12 < length p"
    "js + 8 + u32_at p (js + 8) = length p"
    using p by (auto simp: codewscope_payload_def js_def)
  have len: "u32_at data o' = length p" "u32_at data (o' + 4) = js"
    using p' lies_at_u32_0 [OF l] lies_at_u32 [OF l, of 4] by (auto simp: js_def)
  have doc: "u32_at data (o' + 8 + js) = u32_at p (js + 8)"
    using p' lies_at_u32 [OF l, of "js + 8"] by (simp add: ac_simps)
  have eq: "8 + o' + js = o' + 8 + js" "8 + o' = o' + 8" by simp_all
  have doc2: "u32_at data (8 + o' + js) = length p - (8 + js)"
    unfolding eq doc using p' by arith
  have g: "\<not> len - 14 \<le> o'" "\<not> len - o' \<le> length p" "\<not> len - (8 + o') \<le> js" "\<not> len < 19"
    "8 + o' + js + (length p - (8 + js)) = o' + length p"
    "\<not> len - (o' + 8) \<le> js"
    using b len p' o' by arith+
  show ?thesis
    using b len d1 p' doc2 g
    by (simp add: fills_def codewscope_field_def Let_def u32_at_def [symmetric])
qed

lemma regex_fills:
  assumes l: "lies_at data len o' p" and p: "regex_payload p" and d1: "it_d1 it = o'"
  shows "fills o' (length p) it (regex_field data len o' it)"
proof -
  note b = lies_at_bounds [OF l]
  define r t where "r = c_str p" and "t = c_str (drop (Suc (length r)) p)"
  have p: "p = r @ 0 # t @ [0]" using p by (simp add: regex_payload_def Let_def r_def t_def)
  have nz: "0 \<notin> set r" "0 \<notin> set t" by (simp_all add: r_def t_def)
  have lp: "length p = length r + length t + 2" by (simp add: p)
  have at: "data ! (o' + i) = p ! i" if "i < length p" for i using that by (rule lies_at_nth [OF l])
  have r_at: "data ! k \<noteq> 0" if "o' \<le> k" "k < o' + length r" for k
  proof -
    have "k - o' < length r" using that by arith
    moreover have "data ! k = p ! (k - o')" using at [of "k - o'"] that lp by simp
    ultimately show ?thesis using nz(1) by (auto simp: p nth_append in_set_conv_nth)
  qed
  have t_at: "data ! k \<noteq> 0" if "o' + length r + 1 \<le> k" "k < o' + length r + 1 + length t" for k
  proof -
    have i: "k - (o' + length r + 1) < length t" "k - o' = Suc (length r + (k - (o' + length r + 1)))"
      using that by arith+
    have "data ! k = p ! (k - o')" using at [of "k - o'"] that lp by simp
    also have "\<dots> = t ! (k - (o' + length r + 1))"
      using i(1) unfolding i(2) by (simp add: p nth_append)
    finally show ?thesis using nz(2) i(1) by (metis nth_mem)
  qed
  have z: "data ! (o' + length r) = 0" "data ! (o' + length r + 1 + length t) = 0"
    using at [of "length r"] at [of "length r + 1 + length t"] lp
    by (simp_all add: p nth_append add.assoc)
  have o: "o' + length r < len" "o' + length r + 1 + length t < len" "len \<le> o' + len"
    "len \<le> o' + length r + 1 + len" using b lp by arith+
  have scan1: "scan_nul len data len o' = Inr (Some (o' + length r))"
    by (rule scan_nul_Some [OF b(1) o(3) _ o(1) z(1) r_at]) auto
  have scan2: "scan_nul len data len (o' + length r + 1) = Inr (Some (o' + length r + 1 + length t))"
    by (rule scan_nul_Some [OF b(1) o(4) _ o(2) z(2) t_at]) auto
  have w: "add32 (o' + length r) 1 = o' + length r + 1"
    "add32 (o' + length r + 1 + length t) 1 = o' + length p"
    using b lp by (simp_all add: ac_simps)
  show ?thesis
    unfolding fills_def regex_field_def scan1 bind_res_simps option.case Let_def w scan2
    by (simp add: same_frame_def)
qed

lemma fill_field_fills:
  assumes l: "lies_at data len o' p" and p: "payload_ok t p" and d1: "it_d1 it = o'" and o': "4 \<le> o'"
  shows "fills o' (length p) it (fill_field data len o' (type_byte t) it)"
proof -
  note fixed = fixed_fills [OF l, of _ it]
  show ?thesis
    using p fixed string_fills [OF l _ d1] binary_fills [OF l _ d1] document_fills [OF l _ d1]
      bool_fills [OF l _ d1] regex_fills [OF l _ d1] dbpointer_fills [OF l _ d1]
      codewscope_fills [OF l _ d1 o']
    by (cases t) (simp_all add: fill_field_def)
qed

section \<open>One step of the iterator\<close>

definition elem_ok :: "element \<Rightarrow> bool" where
  "elem_ok e \<longleftrightarrow> (case e of (t, k, p) \<Rightarrow> 0 \<notin> set k \<and> payload_ok t p)"

definition enc :: "element \<Rightarrow> byte list" where
  "enc e = (case e of (t, k, p) \<Rightarrow> elem_bytes t k p)"

text \<open>The type byte, the key and the payload of the element an iterator stands on.\<close>

definition decode :: "byte list \<Rightarrow> bson_iter \<Rightarrow> byte \<times> byte list \<times> byte list" where
  "decode data it = (data ! it_off it, elem_key data it,
     take (it_next_off it - it_d1 it) (drop (it_d1 it) data))"

lemma next_element:
  assumes raw: "it_raw it = Some data" and len: "it_len it \<le> length data" "it_len it \<le> INT_MAX"
    and off: "it_next_off it = length pre" "4 \<le> length pre"
    and data: "data = pre @ elem_bytes t k p @ post"
    and ok: "0 \<notin> set k" "payload_ok t p" and fit: "length pre + length (elem_bytes t k p) < it_len it"
  shows "\<exists>it'. bson_iter_next it = Inr (True, it') \<and> decode data it' = (type_byte t, k, p)
    \<and> it_next_off it' = length pre + length (elem_bytes t k p)"
proof -
  let ?len = "it_len it" and ?o = "length pre + length k + 2"
  have iok: "iter_ok it" using raw len off fit by (simp add: iter_ok_def)
  have lp: "length pre + length k + length p + 2 < ?len" using fit by simp
  have bnd: "?len \<le> 2147483647" using len by (simp add: INT_MAX_def)
  have key: "it_key (iter_advance it) = Suc (length pre)"
    using off lp bnd by (simp add: iter_advance_def)
  have at: "data ! (Suc (length pre) + i) = (k @ 0 # p @ post) ! i" for i
    by (simp add: data elem_bytes_def nth_append)
  have "scan_nul ?len data ?len (Suc (length pre)) = Inr (Some (Suc (length pre) + length k))"
  proof (rule scan_nul_Some)
    show "data ! (Suc (length pre) + length k) = 0" unfolding at by simp
  next
    fix j assume "Suc (length pre) \<le> j" "j < Suc (length pre) + length k"
    then have i: "j - Suc (length pre) < length k" "Suc (length pre) + (j - Suc (length pre)) = j"
      by arith+
    then have "data ! j = k ! (j - Suc (length pre))"
      using at [of "j - Suc (length pre)"] by (simp add: nth_append)
    with i(1) show "data ! j \<noteq> 0" using ok(1) by (metis nth_mem)
  qed (use len lp in auto)
  then have key_end: "key_end data ?len (it_key (iter_advance it)) 0 = Inr (Some ?o)"
    using lp bnd by (simp add: key_end_def key)
  have "drop ?o data = p @ post" by (simp add: data elem_bytes_def)
  then have lies: "lies_at data ?len ?o p"
    using len bnd lp by (simp add: lies_at_def)
  have ty: "data ! it_next_off it = type_byte t" by (simp add: off data elem_bytes_def)
  have "fills ?o (length p) ((iter_advance it)\<lparr>it_d1 := ?o\<rparr>)
      (fill_field data ?len ?o (data ! it_next_off it) ((iter_advance it)\<lparr>it_d1 := ?o\<rparr>))"
    unfolding ty using lies ok off by (intro fill_field_fills) simp_all
  then obtain o2 it2 where fill: "fill_field data ?len ?o (data ! it_next_off it)
        ((iter_advance it)\<lparr>it_d1 := ?o\<rparr>) = Inr (Filled, o2, it2)"
    and frame: "same_frame ((iter_advance it)\<lparr>it_d1 := ?o\<rparr>) it2" and n2: "it_next_off it2 = ?o + length p"
    by (auto simp: fills_def)
  have "it_next_off it < length data" using off lp len by simp
  from next_internal_Filled [OF raw key_end this fill, of out_zero] n2 lp
  have nxt: "bson_iter_next it = Inr (True, it2\<lparr>it_err_off := 0\<rparr>)" (is "_ = Inr (True, ?it')")
    by (simp add: bson_iter_next_def)
  obtain t' where el: "on_element data t' ?it'"
    using bson_iter_next_cases [OF iok] nxt raw by auto
  have fr: "it_off ?it' = length pre" "it_key ?it' = Suc (length pre)" "it_d1 ?it' = ?o"
    using frame off key by (simp_all add: same_frame_def iter_advance_def)
  have "elem_key data ?it' = k"
    unfolding on_element_key(1) [OF el] fr by (simp add: data elem_bytes_def)
  then have "decode data ?it' = (type_byte t, k, p)"
    using fr ty n2 off \<open>drop ?o data = p @ post\<close> by (simp add: decode_def)
  with nxt n2 show ?thesis by auto
qed

section \<open>The whole document\<close>

lemma length_enc_pos [simp]: "0 < length (enc e)"
  by (cases e) (simp add: enc_def)

lemma next_at_end:
  assumes raw: "it_raw it = Some data" and len: "it_len it \<le> length data" "it_len it \<le> INT_MAX"
    and off: "Suc (it_next_off it) = it_len it" "4 \<le> it_next_off it"
  shows "\<exists>it'. bson_iter_next it = Inr (False, it')"
proof -
  have "iter_ok it" using assms by (simp add: iter_ok_def)
  from bson_iter_next_cases [OF this] show ?thesis
  proof (elim disjE exE conjE)
    fix it' data' t
    assume "on_element data' t it'" "it_next_off it < it_next_off it'" "it_len it' = it_len it"
    then show ?thesis using off on_elementD(7) by fastforce
  qed auto
qed

lemma elements_enc:
  assumes "it_raw it = Some data" and "it_len it \<le> length data" and "it_len it \<le> INT_MAX"
    and "data = pre @ concat (map enc es) @ post" and "it_next_off it = length pre" and "4 \<le> length pre"
    and "it_len it = length pre + length (concat (map enc es)) + 1" and "\<forall>e\<in>set es. elem_ok e"
  shows "map (decode data) (elements it) = map (\<lambda>(t, k, p). (type_byte t, k, p)) es"
  using assms
proof (induction es arbitrary: it pre)
  case Nil
  then obtain it' where "bson_iter_next it = Inr (False, it')"
    using next_at_end [of it data] by auto
  then show ?case by (simp add: elements_stop)
next
  case (Cons e es)
  obtain t k p where e: "e = (t, k, p)" by (cases e)
  have enc: "enc e = elem_bytes t k p" by (simp add: e enc_def)
  have iok: "iter_ok it" using Cons.prems by (simp add: iter_ok_def INT_MAX_def)
  have d: "data = pre @ elem_bytes t k p @ (concat (map enc es) @ post)"
    using Cons.prems(4) by (simp add: enc)
  have ok: "0 \<notin> set k" "payload_ok t p" using Cons.prems(8) by (simp_all add: e elem_ok_def)
  have fit: "length pre + length (elem_bytes t k p) < it_len it"
    using Cons.prems(7) by (simp add: enc del: length_elem_bytes)
  obtain it' where nxt: "bson_iter_next it = Inr (True, it')" and dec: "decode data it' = (type_byte t, k, p)"
    and off: "it_next_off it' = length pre + length (enc e)"
    using next_element [OF Cons.prems(1-3) Cons.prems(5,6) d ok fit] unfolding enc by auto
  from bson_iter_next_cases [OF iok] nxt obtain t' where el: "on_element data t' it'"
    and it': "it_len it' = it_len it" "it_next_off it < it_next_off it'"
    using Cons.prems(1) by auto
  have rounds: "rounds it' < rounds it"
    using on_elementD(7) [OF el] it' by (simp add: rounds_def)
  have "map (decode data) (elements it') = map (\<lambda>(t, k, p). (type_byte t, k, p)) es"
    using Cons.prems it' off on_elementD(1) [OF el]
    by (intro Cons.IH [of it' "pre @ enc e"]) (auto simp: INT_MAX_def)
  then show ?case
    using elements_step [OF iok nxt el it'(1) rounds] dec by (simp add: e)
qed

text \<open>The document of a list of elements.\<close>

definition doc_of :: "element list \<Rightarrow> byte list" where
  "doc_of es = doc_bytes (concat (map enc es))"

lemma elements_doc_of:
  assumes "\<forall>e\<in>set es. elem_ok e" and "length (doc_of es) \<le> INT_MAX"
  shows "map (decode (doc_of es @ rest)) (elements (iter_start (doc_of es @ rest) (length (doc_of es))))
    = map (\<lambda>(t, k, p). (type_byte t, k, p)) es"
  using assms
  by (intro elements_enc [of _ _ "mlib_write_u32le (of_nat (length (concat (map enc es)) + 5))" _ "0 # rest"])
    (simp_all add: iter_start_def iter_zero_def doc_of_def doc_bytes_def)

text \<open>\<open>bson_iter_init_from_data\<close> accepts the document.\<close>

lemma init_from_data_doc_of:
  assumes "length (doc_of es) \<le> INT_MAX"
  shows "bson_iter_init_from_data (doc_of es @ rest) (length (doc_of es))
    = Inr (True, iter_start (doc_of es @ rest) (length (doc_of es)))"
proof -
  let ?b = "concat (map enc es)" and ?d = "doc_of es @ rest"
  have n: "length (doc_of es) = length ?b + 5" by (simp add: doc_of_def)
  have w: "unat (of_nat (length ?b + 5) :: 32 word) = length ?b + 5"
    using assms n unfolding unat_of_nat by (simp add: INT_MAX_def take_bit_nat_eq_self_iff)
  have rd: "mlib_read_u32le ?d 0 = Inr (of_nat (length ?b + 5))"
    unfolding doc_of_def doc_bytes_def append_assoc
    using mlib_read_u32le_write [of "[]" 0] by simp
  have last: "rd8 ?d (length ?b + 4) = Inr 0"
    by (simp add: doc_of_def doc_bytes_def nth_append)
  show ?thesis
    using assms w rd last by (simp add: bson_iter_init_from_data_def n add.commute)
qed

end
