(* ===== verification/AppendInst.thy ===== *)
theory AppendInst
  imports BsonCodec
begin

text \<open>
  The append functions of \<open>bson.c\<close> are appenders: which payload each writes, and that the
  iterator accepts the payload.
\<close>

section \<open>Appends of a fixed payload\<close>

lemma append_elem1:
  assumes "holds h b body" and "key_arg key klen k" and "op_bytes op = Some p" and "length p \<le> UINT32_MAX"
  shows "appended h b body (elem_bytes t k p) (append_ops h b (key_ops t key klen @ [op]))"
  using append_elem [OF assms(1,2), of "[op]" "[p]" t] assms(3,4) by simp

lemma append_elem0:
  assumes "holds h b body" and "key_arg key klen k"
  shows "appended h b body (elem_bytes t k []) (append_ops h b (key_ops t key klen))"
  using append_elem [OF assms, of "[]" "[]" t] by simp

named_theorems append_defs \<open>definitions of the append functions\<close>

lemmas [append_defs] = bson_append_double_def bson_append_int32_def bson_append_int64_def
  bson_append_decimal128_def bson_append_bool_def bson_append_null_def bson_append_undefined_def
  bson_append_maxkey_def bson_append_minkey_def bson_append_oid_def bson_append_timestamp_def
  bson_append_date_time_def bson_append_timeval_def bson_append_time_t_def bson_append_document_def

named_theorems append_rules \<open>appends with at most one argument after the key\<close>

lemmas [append_rules] = append_elem0 append_elem1

interpretation dbl: appender "\<lambda>h b key klen. bson_append_double h b key klen v"
    BSON_TYPE_DOUBLE "mlib_write_u64le v" for v
  by unfold_locales (simp add: append_defs append_rules UINT32_MAX_def)

interpretation i32: appender "\<lambda>h b key klen. bson_append_int32 h b key klen v"
    BSON_TYPE_INT32 "mlib_write_u32le v" for v
  by unfold_locales (simp add: append_defs append_rules UINT32_MAX_def)

interpretation i64: appender "\<lambda>h b key klen. bson_append_int64 h b key klen v"
    BSON_TYPE_INT64 "mlib_write_u64le v" for v
  by unfold_locales (simp add: append_defs append_rules UINT32_MAX_def)

interpretation dec: appender "\<lambda>h b key klen. bson_append_decimal128 h b key klen (low, high)"
    BSON_TYPE_DECIMAL128 "mlib_write_u64le low @ mlib_write_u64le high" for low high
  by unfold_locales (simp add: append_defs append_rules UINT32_MAX_def)

interpretation bool: appender "\<lambda>h b key klen. bson_append_bool h b key klen v"
    BSON_TYPE_BOOL "[if v then 1 else 0]" for v
  by unfold_locales (simp add: append_defs append_rules UINT32_MAX_def)

interpretation null: appender bson_append_null BSON_TYPE_NULL "[]"
  by unfold_locales (simp add: append_defs append_rules)

interpretation undef: appender bson_append_undefined BSON_TYPE_UNDEFINED "[]"
  by unfold_locales (simp add: append_defs append_rules)

interpretation maxkey: appender bson_append_maxkey BSON_TYPE_MAXKEY "[]"
  by unfold_locales (simp add: append_defs append_rules)

interpretation minkey: appender bson_append_minkey BSON_TYPE_MINKEY "[]"
  by unfold_locales (simp add: append_defs append_rules)

interpretation ts: appender "\<lambda>h b key klen. bson_append_timestamp h b key klen t i"
    BSON_TYPE_TIMESTAMP "mlib_write_u64le (push_bit 32 (ucast t) OR ucast i)" for t i
  by unfold_locales (simp add: append_defs append_rules UINT32_MAX_def)

interpretation date: appender "\<lambda>h b key klen. bson_append_date_time h b key klen v"
    BSON_TYPE_DATE_TIME "mlib_write_u64le v" for v
  by unfold_locales (simp add: append_defs append_rules UINT32_MAX_def)

interpretation timeval: appender "\<lambda>h b key klen. bson_append_timeval h b key klen (sec, usec)"
    BSON_TYPE_DATE_TIME "mlib_write_u64le (sec * 1000 + usec div 1000)" for sec usec
  by unfold_locales (simp add: append_defs append_rules UINT32_MAX_def)

section \<open>Appends that read memory\<close>

text \<open>Their contract holds when the memory they read is there.\<close>

lemma oid_appender:
  "length oid = 12 \<Longrightarrow> appender (\<lambda>h b key klen. bson_append_oid h b key klen oid) BSON_TYPE_OID oid"
  by unfold_locales (simp add: append_defs append_rules UINT32_MAX_def)

lemma document_appender:
  "n \<le> length data \<Longrightarrow> n \<le> UINT32_MAX \<Longrightarrow>
    appender (\<lambda>h b key klen. bson_append_document h b key klen (data, n)) BSON_TYPE_DOCUMENT (take n data)"
  by unfold_locales (simp add: append_defs append_rules min_def)

text \<open>A string argument: \<open>s\<close> is what the pointer and the length denote.\<close>

definition str_arg :: "byte list \<Rightarrow> int \<Rightarrow> byte list \<Rightarrow> bool" where
  "str_arg m len s \<longleftrightarrow> (if len < 0 then 0 \<in> set m \<and> s = c_str m
     else nat len \<le> length m \<and> s = take (nat len) m) \<and> length s \<le> UINT32_MAX - 1"

definition string_bytes :: "byte list \<Rightarrow> byte list" where
  "string_bytes s = mlib_write_u32le (of_nat (length s) + 1) @ s @ [0]"

lemma take_c_str: "0 \<in> set m \<Longrightarrow> take (length (c_str m)) m = c_str m"
  using c_str_decomp by (metis append_eq_conv_conj)

lemma take_Suc_c_str: "0 \<in> set m \<Longrightarrow> take (Suc (length (c_str m))) m = c_str m @ [0]"
proof -
  assume "0 \<in> set m"
  then obtain r where r: "m = c_str m @ 0 # r" using c_str_decomp by blast
  define s where "s = c_str m"
  from r have m: "m = s @ 0 # r" by (simp add: s_def)
  show ?thesis unfolding s_def [symmetric] by (simp add: m)
qed

lemma str_arg_ops:
  assumes "str_arg m len s"
  shows "(if len < 0 then c_strlen m else Inr (nat len)) = Inr (length s)"
    and "op_bytes (Arg (Some m) (length s)) = Some s" and "length s < UINT32_MAX"
  using assms take_c_str [of m] length_c_str_less [of m]
  by (auto simp: str_arg_def c_strlen_def UINT32_MAX_def min_def split: if_splits)

lemma append_string_appender:
  assumes "str_arg m len s"
  shows "appender (\<lambda>h b key klen. append_string t h b key klen (Some m) len) t (string_bytes s)"
proof
  fix h b body key klen k
  assume *: "holds h b body" "key_arg key klen k"
  note str = str_arg_ops [OF assms]
  let ?ops = "[arg (mlib_write_u32le (of_nat (length s) + 1)), Arg (Some m) (length s), arg [0]]"
  have "appended h b body (elem_bytes t k (concat [mlib_write_u32le (of_nat (length s) + 1), s, [0]]))
      (append_ops h b (key_ops t key klen @ ?ops))"
    using * str by (intro append_elem) (auto simp: UINT32_MAX_def)
  moreover have "append_string t h b key klen (Some m) len = append_ops h b (key_ops t key klen @ ?ops)"
    using str by (simp add: append_string_def UINT32_MAX_def)
  ultimately show "appended h b body (elem_bytes t k (string_bytes s))
      (append_string t h b key klen (Some m) len)"
    by (simp add: string_bytes_def)
qed

lemma utf8_appender:
  "str_arg m len s \<Longrightarrow>
    appender (\<lambda>h b key klen. bson_append_utf8 h b key klen (Some m) len) BSON_TYPE_UTF8 (string_bytes s)"
  unfolding bson_append_utf8_def by (rule append_string_appender)

lemma symbol_appender:
  "str_arg m len s \<Longrightarrow>
    appender (\<lambda>h b key klen. bson_append_symbol h b key klen (Some m) len) BSON_TYPE_SYMBOL (string_bytes s)"
  unfolding bson_append_symbol_def by (rule append_string_appender)

lemma code_appender:
  assumes "0 \<in> set m" and "length (c_str m) < UINT32_MAX"
  shows "appender (\<lambda>h b key klen. bson_append_code h b key klen m) BSON_TYPE_CODE (string_bytes (c_str m))"
proof
  fix h b body key klen k
  assume *: "holds h b body" "key_arg key klen k"
  let ?l = "length (c_str m)"
  let ?ops = "[arg (mlib_write_u32le (of_nat ?l + 1)), Arg (Some m) (?l + 1)]"
  have "op_bytes (Arg (Some m) (?l + 1)) = Some (c_str m @ [0])"
    using assms length_c_str_less [of m] by (simp add: take_Suc_c_str)
  then have "appended h b body (elem_bytes BSON_TYPE_CODE k
        (concat [mlib_write_u32le (of_nat ?l + 1), c_str m @ [0]]))
      (append_ops h b (key_ops BSON_TYPE_CODE key klen @ ?ops))"
    using * assms by (intro append_elem) (auto simp: UINT32_MAX_def)
  moreover have "bson_append_code h b key klen m = append_ops h b (key_ops BSON_TYPE_CODE key klen @ ?ops)"
    using assms by (simp add: bson_append_code_def c_strlen_def UINT32_MAX_def)
  ultimately show "appended h b body (elem_bytes BSON_TYPE_CODE k (string_bytes (c_str m)))
      (bson_append_code h b key klen m)"
    by (simp add: string_bytes_def)
qed

end
