(* ===== verification/ChildDoc.thy ===== *)
theory ChildDoc
  imports AppendInst
begin

text \<open>
  Nested documents under construction (\<open>bson.c\<close>): \<open>bson_append_document_begin\<close> opens a child
  document that lives in the buffer of its parent, after the parent's elements; appends to the
  child may move and grow that buffer; \<open>bson_append_document_end\<close> closes the child and brings the
  length and the final NUL of the parent up to date. In the model the parent and the child have the
  same cell.
\<close>

section \<open>Opening and closing a child\<close>

definition child_of :: "bson_t \<Rightarrow> bson_t" where
  "child_of b =
     \<lparr>b_flags = {BSON_FLAG_CHILD, BSON_FLAG_NO_FREE_DATA, BSON_FLAG_NO_FREE_OBJECT}, b_len = 5,
      b_depth = (if BSON_FLAG_CHILD \<in> b_flags b then b_depth b + 1 else 1), b_indirect = True,
      b_cell = b_cell b, b_offset = b_offset b + b_len b - 1 - 5, b_realloc = b_realloc b\<rparr>"

text \<open>
  \<open>_bson_append_bson_begin\<close>; the child is there when the result is true. An inline parent is first
  moved to the heap.
\<close>

definition spill_inline :: "heap \<Rightarrow> bson_t \<Rightarrow> (bool \<times> heap \<times> bson_t) res" where
  "spill_inline h b =
     (if BSON_FLAG_INLINE_DATA \<in> b_flags b
      then bind_res (c_assert (b_len b \<le> 120)) (\<lambda>_.
           bind_res (bson_grow h b (sub32 128 (b_len b))) (\<lambda>(ok, h, b).
             if \<not> ok then Inr (False, h, b)
             else bind_res (c_assert (BSON_FLAG_INLINE_DATA \<notin> b_flags b)) (\<lambda>_. Inr (True, h, b))))
      else Inr (True, h, b))"

definition bson_append_bson_begin ::
    "heap \<Rightarrow> bson_t \<Rightarrow> byte list \<Rightarrow> int \<Rightarrow> bson_type \<Rightarrow> (bool \<times> heap \<times> bson_t \<times> bson_t option) res" where
  "bson_append_bson_begin h b key klen t =
     bind_res (c_assert (BSON_FLAG_RDONLY \<notin> b_flags b)) (\<lambda>_.
     bind_res (c_assert (BSON_FLAG_IN_CHILD \<notin> b_flags b)) (\<lambda>_.
     bind_res (c_assert (t = BSON_TYPE_DOCUMENT \<or> t = BSON_TYPE_ARRAY)) (\<lambda>_.
     bind_res (collect (key_ops t key klen) ([], 0)) (\<lambda>l. case l of
         None \<Rightarrow> Inr (False, h, b, None)
       | Some l \<Rightarrow>
           bind_res (spill_inline h b) (\<lambda>(ok, h, b).
             if \<not> ok then Inr (False, h, b, None)
             else bind_res (collect [arg empty_doc] l) (\<lambda>l. case l of
                 None \<Rightarrow> Inr (False, h, b, None)
               | Some l \<Rightarrow>
                   bind_res (apply_arguments h b l) (\<lambda>(ok, h, b).
                     if \<not> ok then Inr (False, h, b, None)
                     else let b = b\<lparr>b_flags := insert BSON_FLAG_IN_CHILD (b_flags b)\<rparr> in
                       Inr (True, h, b, Some (child_of b)))))))))"

definition bson_append_bson_end :: "heap \<Rightarrow> bson_t \<Rightarrow> bson_t \<Rightarrow> (bool \<times> heap \<times> bson_t) res" where
  "bson_append_bson_end h b child =
     bind_res (c_assert (BSON_FLAG_IN_CHILD \<in> b_flags b)) (\<lambda>_.
     bind_res (c_assert (BSON_FLAG_IN_CHILD \<notin> b_flags child)) (\<lambda>_.
       let b = b\<lparr>b_flags := b_flags b - {BSON_FLAG_IN_CHILD},
                 b_len := sub32 (add32 (b_len b) (b_len child)) 5\<rparr> in
       bind_res (wr_range h (b_cell b) (data_offset b + b_len b - 1) [0]) (\<lambda>h.
       bind_res (bson_encode_length h b) (\<lambda>h. Inr (True, h, b)))))"

definition bson_append_array_begin ::
    "heap \<Rightarrow> bson_t \<Rightarrow> byte list \<Rightarrow> int \<Rightarrow> (bool \<times> heap \<times> bson_t \<times> bson_t option) res" where
  "bson_append_array_begin h b key klen = bson_append_bson_begin h b key klen BSON_TYPE_ARRAY"

definition bson_append_array_end :: "heap \<Rightarrow> bson_t \<Rightarrow> bson_t \<Rightarrow> (bool \<times> heap \<times> bson_t) res" where
  "bson_append_array_end h b child = bson_append_bson_end h b child"

definition bson_append_document_begin ::
    "heap \<Rightarrow> bson_t \<Rightarrow> byte list \<Rightarrow> int \<Rightarrow> (bool \<times> heap \<times> bson_t \<times> bson_t option) res" where
  "bson_append_document_begin h b key klen = bson_append_bson_begin h b key klen BSON_TYPE_DOCUMENT"

definition bson_append_document_end :: "heap \<Rightarrow> bson_t \<Rightarrow> bson_t \<Rightarrow> (bool \<times> heap \<times> bson_t) res" where
  "bson_append_document_end h b child = bson_append_bson_end h b child"

section \<open>A parent with an open child\<close>

text \<open>
  The cell holds the elements of the parent, then the type and the key of the child, then the
  child. The length of the parent counts an empty child.
\<close>

definition in_child :: "heap \<Rightarrow> bson_t \<Rightarrow> byte list \<Rightarrow> bson_type \<Rightarrow> byte list \<Rightarrow> bson_t \<Rightarrow> byte list \<Rightarrow> bool" where
  "in_child h b pbody t k child cbody \<longleftrightarrow>
     BSON_FLAG_INLINE_DATA \<notin> b_flags b \<and> BSON_FLAG_INLINE_DATA \<notin> b_flags child
     \<and> BSON_FLAG_IN_CHILD \<in> b_flags b \<and> BSON_FLAG_IN_CHILD \<notin> b_flags child
     \<and> b_cell child = b_cell b
     \<and> b_len b = length pbody + length k + 12
     \<and> b_offset child = b_offset b + length pbody + length k + 6
     \<and> b_depth child = b_depth b + 1
     \<and> holds h child cbody
     \<and> take (b_offset child - b_offset b - 4) (drop (b_offset b + 4) (h_cell h (b_cell b)))
         = pbody @ type_byte t # k @ [0]"

text \<open>An append to the child keeps the relation.\<close>

lemma in_child_append:
  assumes "in_child h b pbody t k child cbody" and "frame (data_offset child) h child h' child'"
    and "holds h' child' cbody'"
  shows "in_child h' b pbody t k child' cbody'"
proof -
  have c: "BSON_FLAG_INLINE_DATA \<notin> b_flags child" "b_cell child = b_cell b"
    "b_offset child = b_offset b + length pbody + length k + 6"
    using assms(1) by (auto simp: in_child_def)
  have fr: "BSON_FLAG_INLINE_DATA \<notin> b_flags child'" "b_flags child' = b_flags child" "b_offset child' = b_offset child"
    "b_depth child' = b_depth child" "b_cell child' = b_cell child"
    "take (b_offset child) (h_cell h' (b_cell b)) = take (b_offset child) (h_cell h (b_cell b))"
    using assms(2) c(1,2) by (auto simp: frame_def data_offset_def)
  have dt: "take (b_offset child - b_offset b - 4) (drop (b_offset b + 4) m)
      = drop (b_offset b + 4) (take (b_offset child) m)" for m :: "byte list"
    using c(3) by (simp add: drop_take)
  have "take (b_offset child - b_offset b - 4) (drop (b_offset b + 4) (h_cell h (b_cell b)))
      = pbody @ type_byte t # k @ [0]"
    using assms(1) unfolding in_child_def by (elim conjE)
  then have "take (b_offset child - b_offset b - 4) (drop (b_offset b + 4) (h_cell h' (b_cell b)))
      = pbody @ type_byte t # k @ [0]"
    by (simp only: dt fr(6))
  moreover have "BSON_FLAG_IN_CHILD \<notin> b_flags child'" using assms(1) fr(2) by (simp add: in_child_def)
  ultimately show ?thesis using assms(1,3) fr(1,3-5) unfolding in_child_def by simp
qed

section \<open>Opening\<close>

lemma holds_flags:
  "BSON_FLAG_INLINE_DATA \<in> fs \<longleftrightarrow> BSON_FLAG_INLINE_DATA \<in> b_flags b \<Longrightarrow>
    holds h (b\<lparr>b_flags := fs\<rparr>) body = holds h b body"
  by (simp add: holds_def storage_ok_def bson_data_def)

text \<open>Moving an inline document to the heap keeps the document.\<close>

lemma spill_inline_spec:
  assumes "holds h b body"
  shows "\<exists>h' b'. spill_inline h b = Inr (True, h', b') \<and> holds h' b' body
    \<and> BSON_FLAG_INLINE_DATA \<notin> b_flags b' \<and> b_cell b' = b_cell b
    \<and> b_flags b' = b_flags b - {BSON_FLAG_INLINE_DATA} \<and> data_offset b' = data_offset b
    \<and> b_len b' = b_len b \<and> (growable b \<longrightarrow> growable b')
    \<and> (BSON_FLAG_INLINE_DATA \<in> b_flags b \<longrightarrow> b_depth b' = 0)
    \<and> (BSON_FLAG_INLINE_DATA \<notin> b_flags b \<longrightarrow> b_depth b' = b_depth b)"
proof (cases "BSON_FLAG_INLINE_DATA \<in> b_flags b")
  case False
  then show ?thesis using assms by (simp add: spill_inline_def)
next
  case True
  have len: "b_len b \<le> 120" "5 \<le> b_len b" "length (h_cell h (b_cell b)) = 120"
    using assms True by (auto simp: holds_def storage_ok_def BSON_INLINE_DATA_SIZE_def)
  have req: "b_len b + (128 - b_len b) = 128" using len by simp
  have r: "128 \<le> bson_round_up_alloc_size 128" "bson_round_up_alloc_size 128 \<le> BSON_MAX_SIZE"
    using round_up_bounds [of 128] by (simp_all add: BSON_MAX_SIZE_def)
  have sub: "sub32 128 (b_len b) = 128 - b_len b" using len by simp
  let ?buf = "fresh_buffer h (take (b_len b) (h_cell h (b_cell b))) (bson_round_up_alloc_size 128)"
  let ?h = "h\<lparr>h_cell := (h_cell h)(b_cell b := ?buf)\<rparr>"
  let ?b = "b\<lparr>b_flags := b_flags b - {BSON_FLAG_INLINE_DATA}, b_depth := 0, b_indirect := False,
      b_offset := 0, b_realloc := True\<rparr>"
  have small: "128 - b_len b \<le> BSON_MAX_SIZE" by (simp add: BSON_MAX_SIZE_def)
  have "bson_grow h b (128 - b_len b) = Inr (True, ?h, ?b)"
    using True r len req small
    by (simp add: bson_grow_def bson_impl_inline_grow_def Let_def BSON_INLINE_DATA_SIZE_def BSON_MAX_SIZE_def)
  then have eval: "spill_inline h b = Inr (True, ?h, ?b)"
    using True len by (simp add: spill_inline_def sub)
  have "take (b_len b) ?buf = take (b_len b) (h_cell h (b_cell b))"
    using len r by (subst take_fresh_buffer) simp_all
  also have "\<dots> = doc_bytes body" using assms True unfolding holds_def bson_data_def by (metis (full_types))
  finally have "holds ?h ?b body"
    using assms True len r
    by (simp add: holds_def storage_ok_def bson_data_def)
  with eval True show ?thesis by (simp add: data_offset_def growable_def)
qed

lemma in_child_begin:
  assumes "holds h b (body @ type_byte t # k @ 0 # empty_doc)" and "BSON_FLAG_INLINE_DATA \<notin> b_flags b"
    and "b_depth (child_of b) = b_depth b + 1"
  shows "in_child h (b\<lparr>b_flags := insert BSON_FLAG_IN_CHILD (b_flags b)\<rparr>) body t k
    (child_of (b\<lparr>b_flags := insert BSON_FLAG_IN_CHILD (b_flags b)\<rparr>)) []"
proof -
  let ?b = "b\<lparr>b_flags := insert BSON_FLAG_IN_CHILD (b_flags b)\<rparr>"
  define m where "m = drop (b_offset b) (h_cell h (b_cell b))"
  have len: "b_len b = length body + length k + 12" "b_len b \<le> BSON_MAX_SIZE"
      "b_offset b + b_len b + b_depth b \<le> length (h_cell h (b_cell b))"
    using assms(1,2) by (auto simp: holds_def storage_ok_def empty_doc_def)
  have "take (b_len b) m = doc_bytes (body @ type_byte t # k @ 0 # empty_doc)"
    using assms(1,2) unfolding holds_def bson_data_def m_def by (metis (full_types))
  then obtain R where R: "m = doc_bytes (body @ type_byte t # k @ 0 # empty_doc) @ R"
    by (metis append_take_drop_id)
  let ?H = "mlib_write_u32le (of_nat (length (body @ type_byte t # k @ 0 # empty_doc) + 5))"
  have m: "m = ?H @ (body @ type_byte t # k @ [0]) @ doc_bytes [] @ 0 # R"
    unfolding R doc_bytes_def [of "body @ _"] empty_doc_bytes by simp
  let ?o = "b_offset b + length body + length k + 6"
  have off: "b_offset (child_of ?b) = ?o" using len by (simp add: child_of_def)
  have "drop ?o (h_cell h (b_cell b)) = drop (length body + length k + 6) m"
    by (simp add: m_def add.commute add.left_commute)
  also have "\<dots> = doc_bytes [] @ 0 # R" unfolding m by simp
  finally have d: "drop (6 + (b_offset b + (length body + length k))) (h_cell h (b_cell b)) = doc_bytes [] @ 0 # R"
    by (simp add: ac_simps)
  have "holds h (child_of ?b) []"
    using len assms(3) off d by (simp add: holds_def storage_ok_def bson_data_def child_of_def BSON_MAX_SIZE_def)
  moreover have "take (?o - b_offset b - 4) (drop (b_offset b + 4) (h_cell h (b_cell b)))
      = body @ type_byte t # k @ [0]"
  proof -
    have "drop (b_offset b + 4) (h_cell h (b_cell b)) = drop 4 m" by (simp add: m_def add.commute)
    also have "\<dots> = (body @ type_byte t # k @ [0]) @ doc_bytes [] @ 0 # R" unfolding m by simp
    finally show ?thesis by simp
  qed
  ultimately show ?thesis
    unfolding in_child_def off using assms(2,3) len
    by (cases "BSON_FLAG_CHILD \<in> b_flags b") (simp_all add: child_of_def)
qed

lemma begin_tail:
  assumes "holds h b body" and "BSON_FLAG_INLINE_DATA \<notin> b_flags b" and "b_depth (child_of b) = b_depth b + 1"
    and args: "\<forall>a\<in>set args. arg_ok a" "concat (map arg_bytes args) = type_byte t # k @ [0]"
    and fits: "length k + 2 \<le> BSON_MAX_SIZE"
  shows "\<exists>ok h' b' child.
      bind_res (collect [arg empty_doc] (args, length k + 2)) (\<lambda>l. case l of
          None \<Rightarrow> Inr (False, h, b, None)
        | Some l \<Rightarrow> bind_res (apply_arguments h b l) (\<lambda>(ok, h, b).
            if \<not> ok then Inr (False, h, b, None)
            else let b = b\<lparr>b_flags := insert BSON_FLAG_IN_CHILD (b_flags b)\<rparr> in
              Inr (True, h, b, Some (child_of b)))) = Inr (ok, h', b', child)
    \<and> (if ok then \<exists>c. child = Some c \<and> in_child h' b' body t k c [] else child = None \<and> h' = h \<and> b' = b)
    \<and> ok = can_append h b (length k + 7)"
proof -
  have ops: "list_all2 (\<lambda>op bs. op_bytes op = Some bs) [arg empty_doc] [empty_doc]"
    "\<forall>bs\<in>set [empty_doc]. length bs \<le> UINT32_MAX"
    by (simp_all add: empty_doc_def UINT32_MAX_def)
  have five: "length empty_doc = 5" by (simp add: empty_doc_def)
  from collect_spec [OF ops(1) fits ops(2), of args] obtain args2 where args2: "\<forall>a\<in>set args2. arg_ok a"
    "concat (map arg_bytes args2) = empty_doc"
    "collect [arg empty_doc] (args, length k + 2) = (if length k + 7 \<le> BSON_MAX_SIZE
       then Inr (Some (args @ args2, length k + 7)) else Inr None)" by (auto simp: five)
  show ?thesis
  proof (cases "length k + 7 \<le> BSON_MAX_SIZE")
    case False
    then show ?thesis using args2(3) unfolding can_append_def
      by (intro exI [of _ False]) (simp del: collect.simps)
  next
    case True
    let ?bs = "type_byte t # k @ 0 # empty_doc"
    have bs: "?bs = concat (map arg_bytes (args @ args2))" "length ?bs = length k + 7"
      using args(2) args2(2) five by simp_all
    have ok: "\<forall>a\<in>set (args @ args2). arg_ok a" using args(1) args2(1) by auto
    from apply_arguments_spec [OF assms(1) ok bs(1)] True obtain h2 b2 where
      app: "apply_arguments h b (args @ args2, length k + 7) = Inr (can_append h b (length k + 7), h2, b2)"
      "if can_append h b (length k + 7) then holds h2 b2 (body @ ?bs) \<and> frame (data_offset b) h b h2 b2
       else h2 = h \<and> b2 = b"
      unfolding bs(2) can_append_def by blast
    let ?b = "b2\<lparr>b_flags := insert BSON_FLAG_IN_CHILD (b_flags b2)\<rparr>"
    have "in_child h2 ?b body t k (child_of ?b) []" if "can_append h b (length k + 7)"
    proof -
      from that app(2) have h2: "holds h2 b2 (body @ ?bs)" and fr: "frame (data_offset b) h b h2 b2" by auto
      then show ?thesis using assms(2,3)
        by (intro in_child_begin) (auto simp: frame_def child_of_def split: if_splits)
    qed
    then show ?thesis using args2(3) True app by (auto simp: Let_def simp del: collect.simps)
  qed
qed

text \<open>
  Opening a child makes an empty one after the key, or leaves the document as it was. It succeeds
  on a document with its own storage unless that becomes too large.
\<close>

lemma bson_append_bson_begin_ok:
  assumes "holds h b body" and "key_arg key klen k" and t: "t = BSON_TYPE_DOCUMENT \<or> t = BSON_TYPE_ARRAY"
    and flags: "BSON_FLAG_RDONLY \<notin> b_flags b" "BSON_FLAG_IN_CHILD \<notin> b_flags b"
    and depth: "BSON_FLAG_INLINE_DATA \<notin> b_flags b \<Longrightarrow> BSON_FLAG_CHILD \<notin> b_flags b \<Longrightarrow> b_depth b = 0"
    and inl: "BSON_FLAG_INLINE_DATA \<in> b_flags b \<Longrightarrow> BSON_FLAG_CHILD \<notin> b_flags b"
  shows "\<exists>ok h' b' child. bson_append_bson_begin h b key klen t = Inr (ok, h', b', child)
    \<and> (if ok then \<exists>c. child = Some c \<and> in_child h' b' body t k c [] else child = None \<and> holds h' b' body)
    \<and> (growable b \<longrightarrow> b_len b + length k + 7 \<le> BSON_MAX_SIZE \<longrightarrow> ok)"
proof -
  let ?bss = "[[type_byte t], k, [0]]"
  have ops: "list_all2 (\<lambda>op bs. op_bytes op = Some bs) (key_ops t key klen) ?bss"
    "\<forall>bs\<in>set ?bss. length bs \<le> UINT32_MAX"
    using assms(2) by (auto simp: key_ops_def key_arg_def UINT32_MAX_def)
  from collect_spec [OF ops(1) _ ops(2), of 0 "[]"] obtain args where args: "\<forall>a\<in>set args. arg_ok a"
    "concat (map arg_bytes args) = type_byte t # k @ [0]"
    "collect (key_ops t key klen) ([], 0) = (if length k + 2 \<le> BSON_MAX_SIZE
       then Inr (Some (args, length k + 2)) else Inr None)" by auto
  show ?thesis
  proof (cases "length k + 2 \<le> BSON_MAX_SIZE")
    case False
    then have "bson_append_bson_begin h b key klen t = Inr (False, h, b, None)"
      using args(3) t flags by (simp add: bson_append_bson_begin_def)
    then show ?thesis using assms(1) False by (intro exI [of _ False]) simp
  next
    case fits: True
    obtain h1 b1 where spill: "spill_inline h b = Inr (True, h1, b1)" "holds h1 b1 body"
      "BSON_FLAG_INLINE_DATA \<notin> b_flags b1" "b_flags b1 = b_flags b - {BSON_FLAG_INLINE_DATA}"
      "BSON_FLAG_INLINE_DATA \<in> b_flags b \<Longrightarrow> b_depth b1 = 0"
      "BSON_FLAG_INLINE_DATA \<notin> b_flags b \<Longrightarrow> b_depth b1 = b_depth b"
      "b_len b1 = b_len b" "growable b \<Longrightarrow> growable b1"
      using spill_inline_spec [OF assms(1)] by blast
    have depth1: "b_depth (child_of b1) = b_depth b1 + 1"
      using spill(4-6) depth inl by (cases "BSON_FLAG_INLINE_DATA \<in> b_flags b") (auto simp: child_of_def)
    from begin_tail [OF spill(2,3) depth1 args(1,2) fits] obtain ok h' b' child where
      tail: "bson_append_bson_begin h b key klen t = Inr (ok, h', b', child)"
      "if ok then \<exists>c. child = Some c \<and> in_child h' b' body t k c [] else child = None \<and> h' = h1 \<and> b' = b1"
      "ok = can_append h1 b1 (length k + 7)"
      using t flags args(3) fits spill(1)
      by (force simp: bson_append_bson_begin_def simp del: collect.simps)
    have "growable b \<Longrightarrow> b_len b + length k + 7 \<le> BSON_MAX_SIZE \<Longrightarrow> ok"
      using can_append_growable [OF spill(2) spill(8)] spill(7) tail(3) by simp
    with tail(1,2) spill(2) show ?thesis by (cases ok) auto
  qed
qed

text \<open>Any appends to a document, one after the other.\<close>

inductive grows :: "heap \<times> bson_t \<times> byte list \<Rightarrow> heap \<times> bson_t \<times> byte list \<Rightarrow> bool" where
  grows_refl: "grows s s"
| grows_step: "grows s (h, b, body) \<Longrightarrow> appended h b body bs (Inr (True, h', b')) \<Longrightarrow> grows s (h', b', body @ bs)"

lemma in_child_grows:
  assumes "grows (h, child, cbody) s" and "in_child h b pbody t k child cbody"
  shows "case s of (h', child', cbody') \<Rightarrow> in_child h' b pbody t k child' cbody'"
  using assms
proof (induction "(h, child, cbody)" s rule: grows.induct)
  case grows_refl
  then show ?case by simp
next
  case (grows_step h1 c1 body1 bs h2 c2)
  then have c1: "in_child h1 b pbody t k c1 body1" by auto
  from grows_step(3) have new: "holds h2 c2 (body1 @ bs)" "frame (data_offset c1) h1 c1 h2 c2"
    by (auto elim!: appendedE)
  then show ?case using in_child_append [OF c1 new(2,1)] by simp
qed

section \<open>Closing\<close>

lemma holds_cell:
  assumes "h_cell h (b_cell b) = P @ doc_bytes body @ R" and "BSON_FLAG_INLINE_DATA \<notin> b_flags b"
    and "length P = b_offset b" and "b_depth b \<le> length R"
    and "b_len b = length body + 5" and "b_len b \<le> BSON_MAX_SIZE"
  shows "holds h b body"
  using assms by (simp add: holds_def storage_ok_def bson_data_eq data_offset_def)

text \<open>
  Closing writes the final NUL of the parent and its length; the elements of the parent are then
  the former ones and the child.
\<close>

lemma bson_append_bson_end_ok:
  assumes "in_child h b pbody t k child cbody" and "b_len b + b_len child - 5 \<le> BSON_MAX_SIZE"
  shows "\<exists>h' b'. bson_append_bson_end h b child = Inr (True, h', b')
    \<and> holds h' b' (pbody @ elem_bytes t k (doc_bytes cbody))
    \<and> b_flags b' = b_flags b - {BSON_FLAG_IN_CHILD}
    \<and> (\<forall>c. c \<noteq> b_cell b \<longrightarrow> h_cell h' c = h_cell h c)
    \<and> take (b_offset b) (h_cell h' (b_cell b)) = take (b_offset b) (h_cell h (b_cell b))"
proof -
  let ?c = "b_cell b" and ?pre = "pbody @ type_byte t # k @ [0]"
  have b: "BSON_FLAG_INLINE_DATA \<notin> b_flags b" "BSON_FLAG_INLINE_DATA \<notin> b_flags child"
      "BSON_FLAG_IN_CHILD \<in> b_flags b" "BSON_FLAG_IN_CHILD \<notin> b_flags child" "b_cell child = ?c" "b_len b = length pbody + length k + 12"
      "b_offset child = b_offset b + length ?pre + 4" "b_depth child = b_depth b + 1"
      "take (length ?pre) (drop (b_offset b + 4) (h_cell h ?c)) = ?pre"
    and hc: "holds h child cbody"
    using assms(1) by (auto simp: in_child_def)
  have c: "b_offset child + b_len child + b_depth child \<le> length (h_cell h ?c)"
      "b_len child = length cbody + 5" "take (b_len child) (drop (b_offset child) (h_cell h ?c)) = doc_bytes cbody"
    using hc b(2,5) by (auto simp: holds_def storage_ok_def bson_data_def)
  define P where "P = take (b_offset b) (h_cell h ?c)"
  define H where "H = take 4 (drop (b_offset b) (h_cell h ?c))"
  define R where "R = drop (b_offset child + b_len child) (h_cell h ?c)"
  have lP: "length P = b_offset b" and lH: "length H = 4" and lR: "0 < length R"
    using c b by (simp_all add: P_def H_def R_def)
  have "h_cell h ?c = P @ H @ drop (b_offset b + 4) (h_cell h ?c)"
    by (simp add: P_def H_def flip: append_assoc take_add)
  also have "drop (b_offset b + 4) (h_cell h ?c) = ?pre @ drop (b_offset child) (h_cell h ?c)"
    using append_take_drop_id [of "length ?pre" "drop (b_offset b + 4) (h_cell h ?c)"] b(9) b(7)
    by (simp add: ac_simps)
  also have "drop (b_offset child) (h_cell h ?c) = doc_bytes cbody @ R"
    using append_take_drop_id [of "b_len child" "drop (b_offset child) (h_cell h ?c)"] c(3)
    by (simp add: R_def add.commute)
  finally have cell: "h_cell h ?c = P @ H @ ?pre @ doc_bytes cbody @ R" .
  obtain r R' where R: "R = r # R'" using lR by (cases R) auto
  let ?n = "length (pbody @ elem_bytes t k (doc_bytes cbody)) + 5"
  let ?b = "b\<lparr>b_flags := b_flags b - {BSON_FLAG_IN_CHILD}, b_len := ?n\<rparr>"
  have n: "?n \<le> BSON_MAX_SIZE" using assms(2) b(6) c(2) by simp
  have len: "sub32 (add32 (b_len b) (b_len child)) 5 = ?n"
    using n b(6) c(2) by (simp add: BSON_MAX_SIZE_def)
  have off: "data_offset ?b = b_offset b" using b(1) by (simp add: data_offset_def)
  let ?h1 = "h\<lparr>h_cell := (h_cell h)(?c := P @ H @ ?pre @ doc_bytes cbody @ 0 # R')\<rparr>"
  have w1: "wr_range h ?c (b_offset b + ?n - 1) [0] = Inr ?h1"
    by (subst wr_range_mid [of _ _ "P @ H @ ?pre @ doc_bytes cbody" "[r]" R'])
      (simp_all add: cell R lP lH)
  let ?h2 = "h\<lparr>h_cell := (h_cell h)(?c := P @ mlib_write_u32le (of_nat ?n) @ ?pre @ doc_bytes cbody @ 0 # R')\<rparr>"
  have w2: "bson_encode_length ?h1 ?b = Inr ?h2"
    unfolding bson_encode_length_def off
    by (subst wr_range_mid [of _ _ P H "?pre @ doc_bytes cbody @ 0 # R'"]) (simp_all add: lP lH)
  have eval: "bson_append_bson_end h b child = Inr (True, ?h2, ?b)"
    using b(3,4) w1 w2 off by (simp add: bson_append_bson_end_def Let_def len del: length_append)
  have cell2: "h_cell ?h2 ?c = P @ doc_bytes (pbody @ elem_bytes t k (doc_bytes cbody)) @ R'"
    by (simp add: doc_bytes_def [of "pbody @ _"] elem_bytes_def)
  have cR: "b_depth b \<le> length R'" using c(1) b(8) arg_cong [OF cell, of length] lP lH b(7) c(2) R by simp
  have "holds ?h2 ?b (pbody @ elem_bytes t k (doc_bytes cbody))"
    using b(1) n cR lP cell2 by (intro holds_cell [where P = P and R = R']) simp_all
  then show ?thesis using eval lP by (auto simp: P_def)
qed

end
