(* ===== verification/BsonCopy.thy ===== *)
theory BsonCopy
  imports AppendInst
begin

text \<open>
  Copying elements between documents (\<open>bson.c\<close>): \<open>bson_append_iter\<close>, \<open>bson_concat\<close>,
  \<open>bson_copy_to_excluding_noinit\<close>, and the queries that walk a document.
\<close>

section \<open>The operations\<close>

text \<open>
  \<open>bson_append_iter\<close>; \<open>key\<close> is \<open>None\<close> for \<open>NULL\<close>. \<open>append_static\<close> is the
  common part of the cases that wrap the bytes of a document in a read-only \<open>bson_t\<close>.
\<close>

definition append_static ::
    "heap \<Rightarrow> bson_t \<Rightarrow> byte list option \<Rightarrow> nat \<Rightarrow> (byte list \<times> nat \<Rightarrow> append_result) \<Rightarrow> append_result" where
  "append_static h b data len app =
     bind_res (deref data) (\<lambda>d. bind_res (bson_init_static d len) (\<lambda>ok.
       if ok then app (d, len) else Inr (False, h, b)))"

definition append_iter_case ::
    "heap \<Rightarrow> bson_t \<Rightarrow> byte list \<Rightarrow> int \<Rightarrow> bson_iter \<Rightarrow> bson_type \<Rightarrow> append_result" where
  "append_iter_case h b key klen it t = (case t of
       BSON_TYPE_EOD \<Rightarrow> Inr (False, h, b)
     | BSON_TYPE_DOUBLE \<Rightarrow> bind_res (bson_iter_double it) (bson_append_double h b key klen)
     | BSON_TYPE_UTF8 \<Rightarrow> bind_res (bson_iter_utf8 it) (\<lambda>(str, len).
         bson_append_utf8 h b key klen str (c_int len))
     | BSON_TYPE_DOCUMENT \<Rightarrow> bind_res (bson_iter_document it) (\<lambda>(len, buf).
         append_static h b buf len (bson_append_document h b key klen))
     | BSON_TYPE_ARRAY \<Rightarrow> bind_res (bson_iter_array it) (\<lambda>(len, buf).
         append_static h b buf len (bson_append_array h b key klen))
     | BSON_TYPE_BINARY \<Rightarrow> bind_res (bson_iter_binary it True) (\<lambda>(subtype, len, binary).
         bson_append_binary h b key klen subtype binary len)
     | BSON_TYPE_UNDEFINED \<Rightarrow> bson_append_undefined h b key klen
     | BSON_TYPE_OID \<Rightarrow> bind_res (bson_iter_oid it) (\<lambda>oid.
         bind_res (deref oid) (bson_append_oid h b key klen))
     | BSON_TYPE_BOOL \<Rightarrow> bind_res (bson_iter_bool it) (bson_append_bool h b key klen)
     | BSON_TYPE_DATE_TIME \<Rightarrow> bind_res (bson_iter_date_time it) (bson_append_date_time h b key klen)
     | BSON_TYPE_NULL \<Rightarrow> bson_append_null h b key klen
     | BSON_TYPE_REGEX \<Rightarrow> bind_res (bson_iter_regex it) (\<lambda>(regex, options).
         bson_append_regex h b key klen regex options)
     | BSON_TYPE_DBPOINTER \<Rightarrow> bind_res (bson_iter_dbpointer it) (\<lambda>(_, collection, oid).
         bind_res (deref collection) (\<lambda>c. bind_res (deref oid) (bson_append_dbpointer h b key klen c)))
     | BSON_TYPE_CODE \<Rightarrow> bind_res (bson_iter_code it) (\<lambda>(code, _).
         bind_res (deref code) (bson_append_code h b key klen))
     | BSON_TYPE_SYMBOL \<Rightarrow> bind_res (bson_iter_symbol it) (\<lambda>(symbol, len).
         bson_append_symbol h b key klen symbol (c_int len))
     | BSON_TYPE_CODEWSCOPE \<Rightarrow> bind_res (bson_iter_codewscope it) (\<lambda>(javascript, _, scope_len, scope).
         append_static h b scope scope_len (\<lambda>doc. bind_res (deref javascript) (\<lambda>js.
           bson_append_code_with_scope h b key klen js (Some doc))))
     | BSON_TYPE_INT32 \<Rightarrow> bind_res (bson_iter_int32 it) (bson_append_int32 h b key klen)
     | BSON_TYPE_TIMESTAMP \<Rightarrow> bind_res (bson_iter_timestamp it) (\<lambda>(ts, inc).
         bson_append_timestamp h b key klen ts inc)
     | BSON_TYPE_INT64 \<Rightarrow> bind_res (bson_iter_int64 it) (bson_append_int64 h b key klen)
     | BSON_TYPE_DECIMAL128 \<Rightarrow> bind_res (bson_iter_decimal128 it) (\<lambda>dec. case dec of
         None \<Rightarrow> Inr (False, h, b)
       | Some dec \<Rightarrow> bson_append_decimal128 h b key klen dec)
     | BSON_TYPE_MAXKEY \<Rightarrow> bson_append_maxkey h b key klen
     | BSON_TYPE_MINKEY \<Rightarrow> bson_append_minkey h b key klen)"

definition bson_append_iter ::
    "heap \<Rightarrow> bson_t \<Rightarrow> byte list option \<Rightarrow> int \<Rightarrow> bson_iter \<Rightarrow> append_result" where
  "bson_append_iter h b key key_length it =
     bind_res (case key of
         None \<Rightarrow> map_res (\<lambda>k. (k, - 1)) (bson_iter_key it)
       | Some k \<Rightarrow> Inr (k, key_length)) (\<lambda>(key, klen).
     bind_res (ITER_TYPE it) (\<lambda>ty. case bson_type_of ty of
         None \<Rightarrow> Inr (False, h, b)
       | Some t \<Rightarrow> append_iter_case h b key klen it t))"

text \<open>\<open>bson_concat\<close> of a document with the data \<open>data\<close> and the length \<open>len\<close>.\<close>

definition bson_empty :: "byte list \<Rightarrow> nat \<Rightarrow> bool res" where
  "bson_empty data len =
     (if len = 5 then Inr True else map_res (\<lambda>c. c = 0) (rd8 data 4))"

definition bson_concat :: "heap \<Rightarrow> bson_t \<Rightarrow> byte list \<Rightarrow> nat \<Rightarrow> append_result" where
  "bson_concat h dst data len =
     bind_res (bson_empty data len) (\<lambda>e.
       if e then Inr (True, h, dst)
       else append_ops h dst [Arg (Some (drop 4 data)) (sub32 len 5)])"

text \<open>\<open>strcmp (a, b) == 0\<close>\<close>

fun c_strcmp_eq :: "byte list \<Rightarrow> byte list \<Rightarrow> bool res" where
  "c_strcmp_eq [] _ = Inl OutOfBounds"
| "c_strcmp_eq (x # a) [] = Inl OutOfBounds"
| "c_strcmp_eq (x # a) (y # b) =
     (if x \<noteq> y then Inr False else if x = 0 then Inr True else c_strcmp_eq a b)"

text \<open>The names to exclude are the list \<open>first_exclude # args\<close>.\<close>

fun should_ignore :: "byte list list \<Rightarrow> byte list \<Rightarrow> bool res" where
  "should_ignore [] name = Inr False"
| "should_ignore (exclude # rest) name =
     bind_res (c_strcmp_eq name exclude) (\<lambda>eq. if eq then Inr True else should_ignore rest name)"

fun copy_excluding_loop ::
    "nat \<Rightarrow> heap \<Rightarrow> bson_t \<Rightarrow> byte list list \<Rightarrow> bson_iter \<Rightarrow> (heap \<times> bson_t) res" where
  "copy_excluding_loop 0 h dst excl it = Inl NoFuel"
| "copy_excluding_loop (Suc fuel) h dst excl it =
     bind_res (bson_iter_next it) (\<lambda>(ok, it).
       if \<not> ok then Inr (h, dst)
       else bind_res (bson_iter_key it) (\<lambda>key.
            bind_res (should_ignore excl key) (\<lambda>ign.
              if ign then copy_excluding_loop fuel h dst excl it
              else bind_res (bson_append_iter h dst None 0 it) (\<lambda>(ok, h, dst).
                   bind_res (c_assert ok) (\<lambda>_. copy_excluding_loop fuel h dst excl it)))))"

definition bson_copy_to_excluding_noinit ::
    "heap \<Rightarrow> byte list \<Rightarrow> nat \<Rightarrow> bson_t \<Rightarrow> byte list list \<Rightarrow> (heap \<times> bson_t) res" where
  "bson_copy_to_excluding_noinit h data len dst excl =
     (case bson_iter_init data len of (ok, it) \<Rightarrow>
        if ok then copy_excluding_loop (Suc len) h dst excl it else Inr (h, dst))"

fun count_keys_loop :: "nat \<Rightarrow> bson_iter \<Rightarrow> nat \<Rightarrow> nat res" where
  "count_keys_loop 0 it count = Inl NoFuel"
| "count_keys_loop (Suc fuel) it count =
     bind_res (bson_iter_next it) (\<lambda>(ok, it).
       if ok then count_keys_loop fuel it (add32 count 1) else Inr count)"

definition bson_count_keys :: "byte list \<Rightarrow> nat \<Rightarrow> nat res" where
  "bson_count_keys data len =
     (case bson_iter_init data len of (ok, it) \<Rightarrow>
        if ok then count_keys_loop (Suc len) it 0 else Inr 0)"

text \<open>\<open>key\<close> is the string without its NUL.\<close>

definition bson_has_field :: "byte list \<Rightarrow> nat \<Rightarrow> byte list \<Rightarrow> bool res" where
  "bson_has_field data len key =
     (if dot \<in> set key
      then (case bson_iter_init data len of (ok, it) \<Rightarrow>
        if ok then map_res (\<lambda>r. r \<noteq> None) (bson_iter_find_descendant it key) else Inr False)
      else map_res fst (bson_iter_init_find data len (key @ [0])))"

text \<open>\<open>memcmp\<close> on \<open>n\<close> bytes, as its sign.\<close>

definition c_memcmp :: "byte list \<Rightarrow> byte list \<Rightarrow> nat \<Rightarrow> int res" where
  "c_memcmp a b n =
     bind_res (rd_range a 0 n) (\<lambda>xs. bind_res (rd_range b 0 n) (\<lambda>ys. Inr (memcmp_sgn xs ys)))"

definition bson_compare :: "byte list \<Rightarrow> nat \<Rightarrow> byte list \<Rightarrow> nat \<Rightarrow> int res" where
  "bson_compare data len other other_len =
     (let data1 = drop 4 data; len1 = sub32 len 4; data2 = drop 4 other; len2 = sub32 other_len 4 in
      if len1 = len2 then c_memcmp data1 data2 len1
      else bind_res (c_memcmp data1 data2 (min len1 len2)) (\<lambda>ret.
        let ret = (if ret = 0 then int len1 - int len2 else ret) in
        Inr (if ret < 0 then - 1 else if ret > 0 then 1 else 0)))"

definition bson_equal :: "byte list \<Rightarrow> nat \<Rightarrow> byte list \<Rightarrow> nat \<Rightarrow> bool res" where
  "bson_equal data len other other_len = map_res (\<lambda>c. c = 0) (bson_compare data len other other_len)"

end
