(* ===== verification/CopySpec.thy ===== *)
theory CopySpec
  imports BsonCopy
begin

text \<open>
  \<open>bson_append_iter\<close> copies an element byte for byte, for every element the append functions
  can write (\<open>copyable\<close>), and what follows for the loops that copy whole documents.
\<close>

section \<open>Which elements are copied unchanged\<close>

text \<open>
  The append functions take the strings of code, of a database pointer and of a regular
  expression up to their first NUL, sort the options of a regular expression, and refuse a
  document without its final NUL.
\<close>

fun copyable :: "bson_type \<Rightarrow> byte list \<Rightarrow> bool" where
  "copyable BSON_TYPE_DOCUMENT p = (5 \<le> length p \<and> last p = 0)"
| "copyable BSON_TYPE_ARRAY p = (5 \<le> length p \<and> last p = 0)"
| "copyable BSON_TYPE_CODE p = (0 \<notin> set (butlast (drop 4 p)))"
| "copyable BSON_TYPE_DBPOINTER p = (0 \<notin> set (take (length p - 17) (drop 4 p)))"
| "copyable BSON_TYPE_REGEX p =
     (let o' = c_str (drop (Suc (length (c_str p))) p) in
      o' = filter (\<lambda>c. c \<in> set o') regex_options_sorted)"
| "copyable BSON_TYPE_CODEWSCOPE p =
     (let n = u32_at p 4; js = take n (drop 8 p); scope = drop (8 + n) p in
      last js = 0 \<and> 0 \<notin> set (butlast js) \<and> 5 \<le> length scope \<and> last scope = 0)"
| "copyable t p = True"

definition payload_of :: "byte list \<Rightarrow> bson_iter \<Rightarrow> byte list" where
  "payload_of data it = take (it_next_off it - it_d1 it) (drop (it_d1 it) data)"

lemma length_payload_of:
  "on_element data t it \<Longrightarrow> length (payload_of data it) = it_next_off it - it_d1 it"
  using on_elementD [of data t it] by (simp add: payload_of_def)

section \<open>Bytes of integers read and written back\<close>

lemma take_drop_add: "take (n + m) (drop a xs) = take n (drop a xs) @ take m (drop (a + n) xs)"
  unfolding take_add drop_drop add.commute [of n a] ..

lemma write_read_u32:
  "i + 4 \<le> length data \<Longrightarrow> mlib_write_u32le (le_word (take 4 (drop i data))) = take 4 (drop i data)"
  using take4_write [of "drop i data"] by simp

lemma write_of_u32_at:
  "i + 4 \<le> length data \<Longrightarrow> mlib_write_u32le (of_nat (u32_at data i)) = take 4 (drop i data)"
  by (simp add: u32_at_def write_read_u32)

lemma write_read_u64:
  assumes "i + 8 \<le> length data"
  shows "mlib_write_u64le (le_word (take 8 (drop i data))) = take 8 (drop i data)"
proof -
  have "length (take 8 (drop i data)) = 8" using assms by simp
  then show ?thesis
    using le_bytes_le_word [where bs = "take 8 (drop i data)" and 'a = 64]
    by (simp add: mlib_write_u64le_def)
qed

lemma write_u64_halves:
  "mlib_write_u64le (push_bit 32 (ucast t) OR ucast i) = mlib_write_u32le i @ mlib_write_u32le t"
proof (rule nth_equalityI)
  fix n assume "n < length (mlib_write_u64le (push_bit 32 (ucast t) OR ucast i))"
  then have n: "n < 8" by simp
  show "mlib_write_u64le (push_bit 32 (ucast t) OR ucast i) ! n
      = (mlib_write_u32le i @ mlib_write_u32le t) ! n"
  proof (rule bit_word_eqI)
    fix j assume "j < LENGTH(8)"
    then have j: "j < 8" by simp
    show "bit (mlib_write_u64le (push_bit 32 (ucast t) OR ucast i) ! n) j
        = bit ((mlib_write_u32le i @ mlib_write_u32le t) ! n) j"
    proof (cases "n < 4")
      case True
      then have "8 * n + j < 32" using j by arith
      with True n j show ?thesis
        by (simp add: mlib_write_u64le_def mlib_write_u32le_def bit_le_bytes nth_append
            bit_or_iff bit_push_bit_iff bit_ucast_iff)
    next
      case False
      then have e: "8 * n + j - 32 = 8 * (n - 4) + j" "32 \<le> 8 * n + j" "n - 4 < 4" "8 * n + j < 64"
        using n j by arith+
      have "\<not> bit i (8 * n + j)" using e(2) bit_imp_le_length [of i "8 * n + j"] by auto
      with False n j e show ?thesis
        by (simp add: mlib_write_u64le_def mlib_write_u32le_def bit_le_bytes nth_append
            bit_or_iff bit_push_bit_iff bit_ucast_iff)
    qed
  qed
qed simp

section \<open>The payload an append writes back\<close>

lemma string_payload_of:
  assumes "on_element data t it" and "string_at data it"
  shows "payload_of data it
      = string_bytes (take (u32_at data (it_d1 it) - 1) (drop (it_d2 it) data))"
proof -
  note el = on_elementD [OF assms(1)]
  let ?l = "u32_at data (it_d1 it)" and ?d = "it_d1 it"
  have d: "it_d2 it = ?d + 4" "0 < ?l" "it_next_off it = ?d + 4 + ?l" "data ! (?d + 4 + (?l - 1)) = 0"
    using assms(2) by (auto simp: string_at_def)
  have "payload_of data it = take (4 + ((?l - 1) + 1)) (drop ?d data)"
    using d by (simp add: payload_of_def)
  also have "\<dots> = take 4 (drop ?d data) @ take (?l - 1) (drop (?d + 4) data)
      @ take 1 (drop (?d + 4 + (?l - 1)) data)"
    unfolding take_drop_add ..
  also have "take 1 (drop (?d + 4 + (?l - 1)) data) = [0]"
  proof -
    have "?d + 4 + (?l - 1) < length data" using d el by simp
    then have "drop (?d + 4 + (?l - 1)) data
        = data ! (?d + 4 + (?l - 1)) # drop (Suc (?d + 4 + (?l - 1))) data"
      by (rule Cons_nth_drop_Suc [symmetric])
    then show ?thesis using d(4) by simp
  qed
  also have "take 4 (drop ?d data) = mlib_write_u32le (of_nat ?l)"
    using d el by (simp add: write_of_u32_at)
  finally show ?thesis
    using d el by (simp add: string_bytes_def of_nat_diff)
qed

lemma iter_str_arg:
  assumes "on_element data t it" and "string_at data it"
  shows "str_arg (drop (it_d2 it) data) (c_int (u32_at data (it_d1 it) - 1))
      (take (u32_at data (it_d1 it) - 1) (drop (it_d2 it) data))"
  using on_elementD [OF assms(1)] assms(2)
  by (auto simp: str_arg_def c_int_def string_at_def UINT32_MAX_def nat_diff_distrib)

lemma string_copy:
  assumes "on_element data t it" and "string_at data it"
    and "f = (\<lambda>h b key klen. append_string t h b key klen (Some (drop (it_d2 it) data))
              (c_int (u32_at data (it_d1 it) - 1)))"
  shows "appender f t (payload_of data it)"
  unfolding string_payload_of [OF assms(1,2)] assms(3)
  by (rule append_string_appender [OF iter_str_arg [OF assms(1,2)]])

section \<open>Arrays and binaries\<close>

lemma after_key_ok:
  assumes "key_arg key klen k" and "appended h b body (elem_bytes t k p) cont"
  shows "appended h b body (elem_bytes t k p) (after_key h b t key klen cont)"
proof -
  have "list_all2 (\<lambda>op bs. op_bytes op = Some bs) (key_ops t key klen) [[type_byte t], k, [0]]"
    "\<forall>bs\<in>set [[type_byte t], k, [0]]. length bs \<le> UINT32_MAX"
    using assms(1) by (auto simp: key_ops_def key_arg_def UINT32_MAX_def)
  from collect_spec [OF this(1) _ this(2), of 0 "[]"]
  have "collect (key_ops t key klen) ([], 0) = Inr None \<and> length k + 2 > BSON_MAX_SIZE
      \<or> (\<exists>l. collect (key_ops t key klen) ([], 0) = Inr (Some l))"
    by (auto split: if_splits)
  then show ?thesis
  proof (elim disjE conjE exE)
    assume *: "collect (key_ops t key klen) ([], 0) = Inr None" "length k + 2 > BSON_MAX_SIZE"
    then have "\<not> can_append h b (length (elem_bytes t k p))" by (simp add: can_append_def)
    with *(1) show ?thesis by (simp add: after_key_def appended_def)
  qed (use assms(2) in \<open>simp add: after_key_def\<close>)
qed

lemma array_warning_ok:
  assumes "n \<le> length data" and "5 \<le> n" and "n \<le> INT_MAX"
  shows "\<exists>w. array_warning data n = Inr w"
proof -
  have ok: "iter_ok (iter_start data n)" using assms by (intro iter_ok_start)
  have "\<exists>w. c_strncmp_eq [0x30, 0] (drop (it_key it') data) 2 = Inr w"
    if el: "on_element data t it'" for t it'
  proof -
    have "\<exists>w. c_strncmp_eq [0x30, 0] (i @ 0 # r) 2 = Inr w" for i r
      by (cases i; cases "tl i") (auto simp: numeral_2_eq_2 rd8_def)
    then show ?thesis unfolding on_element_key(3) [OF el] .
  qed
  moreover from bson_iter_next_cases [OF ok] have
    "(\<exists>it'. bson_iter_next (iter_start data n) = Inr (False, it'))
     \<or> (\<exists>it' t. bson_iter_next (iter_start data n) = Inr (True, it') \<and> on_element data t it')"
    by (auto simp: iter_start_def)
  ultimately show ?thesis
    using assms on_element_key(2)
    by (fastforce simp: array_warning_def bson_iter_init_def map_res_def)
qed

lemma array_appender:
  assumes "n \<le> length data" and "5 \<le> n" and "n \<le> INT_MAX"
  shows "appender (\<lambda>h b key klen. bson_append_array h b key klen (data, n)) BSON_TYPE_ARRAY (take n data)"
proof
  fix h b body key klen k
  assume *: "holds h b body" "key_arg key klen k"
  obtain w where w: "array_warning data n = Inr w" using array_warning_ok [OF assms] ..
  have "appended h b body (elem_bytes BSON_TYPE_ARRAY k (take n data))
      (append_ops h b (key_ops BSON_TYPE_ARRAY key klen @ [Arg (Some data) n]))"
    using * assms by (intro append_elem1) (auto simp: UINT32_MAX_def INT_MAX_def)
  with w show "appended h b body (elem_bytes BSON_TYPE_ARRAY k (take n data))
      (bson_append_array h b key klen (data, n))"
    using after_key_ok [OF *(2)] by (simp add: bson_append_array_def)
qed

text \<open>The payload of a binary with the subtype \<open>st\<close> and the bytes \<open>bs\<close>.\<close>

definition binary_bytes :: "byte \<Rightarrow> byte list \<Rightarrow> byte list" where
  "binary_bytes st bs =
     (if st = BSON_SUBTYPE_BINARY_DEPRECATED
      then mlib_write_u32le (of_nat (length bs) + 4) @ [st] @ mlib_write_u32le (of_nat (length bs)) @ bs
      else mlib_write_u32le (of_nat (length bs)) @ [st] @ bs)"

lemma binary_appender:
  assumes "n \<le> length m" and "n \<le> UINT32_MAX - 4"
  shows "appender (\<lambda>h b key klen. bson_append_binary h b key klen st (Some m) n)
    BSON_TYPE_BINARY (binary_bytes st (take n m))"
proof
  fix h b body key klen k
  assume *: "holds h b body" "key_arg key klen k"
  have n: "length (take n m) = n" using assms by simp
  show "appended h b body (elem_bytes BSON_TYPE_BINARY k (binary_bytes st (take n m)))
      (bson_append_binary h b key klen st (Some m) n)"
  proof (cases "st = BSON_SUBTYPE_BINARY_DEPRECATED")
    case True
    let ?bss = "[mlib_write_u32le (of_nat n + 4), [st], mlib_write_u32le (of_nat n), take n m]"
    have "appended h b body (elem_bytes BSON_TYPE_BINARY k (concat ?bss))
        (append_ops h b (key_ops BSON_TYPE_BINARY key klen @
          [arg (mlib_write_u32le (of_nat n + 4)), arg [st], arg (mlib_write_u32le (of_nat n)),
           Arg (Some m) n]))"
      using * assms by (intro append_elem) (auto simp: UINT32_MAX_def)
    from after_key_ok [OF *(2) this] True assms show ?thesis
      by (simp add: bson_append_binary_def append_binary_def binary_bytes_def n del: length_take)
  next
    case False
    let ?bss = "[mlib_write_u32le (of_nat n), [st], take n m]"
    have "appended h b body (elem_bytes BSON_TYPE_BINARY k (concat ?bss))
        (append_ops h b (key_ops BSON_TYPE_BINARY key klen @
          [arg (mlib_write_u32le (of_nat n)), arg [st], Arg (Some m) n]))"
      using * assms by (intro append_elem) (auto simp: UINT32_MAX_def)
    with False assms show ?thesis
      by (simp add: bson_append_binary_def append_binary_def binary_bytes_def n del: length_take)
  qed
qed

end
