(* ===== verification/CopyElem.thy ===== *)
theory CopyElem
  imports CopySpec
begin

text \<open>
  \<open>append_iter_case\<close> is an appender of the payload the iterator stands on, type by type, and
  \<open>bson_append_iter\<close> copies the element.
\<close>

section \<open>Payloads of a fixed size\<close>

lemma on_elementI:
  assumes "on_element data t it"
  shows "it_raw it = Some data" "it_d1 it \<le> length data" "ITER_TYPE it = Inr (type_byte t)"
  using on_elementD [OF assms] on_element_type [OF assms] by auto

lemma fixed_payload_of:
  assumes "fixed_at n it"
  shows "payload_of data it = take n (drop (it_d1 it) data)"
  using assms by (simp add: payload_of_def fixed_at_def)

lemma fixed_bound: "on_element data t it \<Longrightarrow> fixed_at n it \<Longrightarrow> it_d1 it + n \<le> length data"
  using on_elementD [of data t it] by (simp add: fixed_at_def)

lemma copy_fixed8:
  assumes el: "on_element data t it" and t: "t \<in> {BSON_TYPE_DOUBLE, BSON_TYPE_INT64, BSON_TYPE_DATE_TIME}"
  shows "appender (\<lambda>h b key klen. append_iter_case h b key klen it t) t (payload_of data it)"
proof -
  have f: "fixed_at 8 it" using on_elementD(6) [OF el] t by auto
  note b = fixed_bound [OF el f] and raw = on_elementI [OF el]
  have p: "payload_of data it = mlib_write_u64le (le_word (take 8 (drop (it_d1 it) data)))"
    using b by (simp add: fixed_payload_of [OF f] write_read_u64)
  show ?thesis
    unfolding p using t raw b dbl.appender_axioms i64.appender_axioms date.appender_axioms
    by (elim insertE emptyE) (simp_all add: append_iter_case_def access_defs)
qed

lemma copy_int32:
  assumes el: "on_element data t it" and t: "t = BSON_TYPE_INT32"
  shows "appender (\<lambda>h b key klen. append_iter_case h b key klen it t) t (payload_of data it)"
proof -
  have f: "fixed_at 4 it" using on_elementD(6) [OF el] t by auto
  note b = fixed_bound [OF el f] and raw = on_elementI [OF el]
  have p: "payload_of data it = mlib_write_u32le (le_word (take 4 (drop (it_d1 it) data)))"
    using b by (simp add: fixed_payload_of [OF f] write_read_u32)
  show ?thesis
    unfolding p using t raw b i32.appender_axioms
    by (simp add: append_iter_case_def access_defs)
qed

lemma copy_timestamp:
  assumes el: "on_element data t it" and t: "t = BSON_TYPE_TIMESTAMP"
  shows "appender (\<lambda>h b key klen. append_iter_case h b key klen it t) t (payload_of data it)"
proof -
  have f: "fixed_at 8 it" using on_elementD(6) [OF el] t by auto
  note b = fixed_bound [OF el f] and raw = on_elementI [OF el]
  have "payload_of data it = take (4 + 4) (drop (it_d1 it) data)"
    by (simp add: fixed_payload_of [OF f])
  then have p: "payload_of data it = mlib_write_u64le
      (push_bit 32 (ucast (le_word (take 4 (drop (it_d1 it + 4) data)) :: 32 word))
       OR ucast (le_word (take 4 (drop (it_d1 it) data)) :: 32 word))"
    using b unfolding take_drop_add write_u64_halves by (simp add: write_read_u32)
  show ?thesis
    unfolding p using t raw b ts.appender_axioms
    by (simp add: append_iter_case_def access_defs)
qed

lemma copy_decimal128:
  assumes el: "on_element data t it" and t: "t = BSON_TYPE_DECIMAL128"
  shows "appender (\<lambda>h b key klen. append_iter_case h b key klen it t) t (payload_of data it)"
proof -
  have f: "fixed_at 16 it" using on_elementD(6) [OF el] t by auto
  note b = fixed_bound [OF el f] and raw = on_elementI [OF el]
  have "payload_of data it = take (8 + 8) (drop (it_d1 it) data)"
    by (simp add: fixed_payload_of [OF f])
  then have p: "payload_of data it = mlib_write_u64le (le_word (take 8 (drop (it_d1 it) data)))
      @ mlib_write_u64le (le_word (take 8 (drop (it_d1 it + 8) data)))"
    using b unfolding take_drop_add by (simp add: write_read_u64)
  show ?thesis
    unfolding p using t raw b dec.appender_axioms
    by (simp add: append_iter_case_def access_defs)
qed

lemma copy_oid:
  assumes el: "on_element data t it" and t: "t = BSON_TYPE_OID"
  shows "appender (\<lambda>h b key klen. append_iter_case h b key klen it t) t (payload_of data it)"
proof -
  have f: "fixed_at 12 it" using on_elementD(6) [OF el] t by auto
  note b = fixed_bound [OF el f] and raw = on_elementI [OF el]
  show ?thesis
    unfolding fixed_payload_of [OF f] using t raw b oid_appender [of "take 12 (drop (it_d1 it) data)"]
    by (simp add: append_iter_case_def access_defs)
qed

lemma copy_empty:
  assumes el: "on_element data t it"
    and t: "t \<in> {BSON_TYPE_NULL, BSON_TYPE_UNDEFINED, BSON_TYPE_MAXKEY, BSON_TYPE_MINKEY}"
  shows "appender (\<lambda>h b key klen. append_iter_case h b key klen it t) t (payload_of data it)"
proof -
  have f: "fixed_at 0 it" using on_elementD(6) [OF el] t by auto
  show ?thesis
    unfolding fixed_payload_of [OF f] using t null.appender_axioms undef.appender_axioms
      maxkey.appender_axioms minkey.appender_axioms
    by (elim insertE emptyE) (simp_all add: append_iter_case_def)
qed

lemma copy_bool:
  assumes el: "on_element data t it" and t: "t = BSON_TYPE_BOOL"
  shows "appender (\<lambda>h b key klen. append_iter_case h b key klen it t) t (payload_of data it)"
proof -
  have f: "bool_at data it" using on_elementD(6) [OF el] t by auto
  note raw = on_elementI [OF el] and d = on_elementD [OF el]
  have i: "it_d1 it < length data" using d f by (simp add: bool_at_def)
  have "payload_of data it = [data ! it_d1 it]"
    using i f Cons_nth_drop_Suc [OF i, symmetric] by (simp add: payload_of_def bool_at_def)
  then have p: "payload_of data it = [if data ! it_d1 it \<noteq> 0 then 1 else 0]"
    using f by (auto simp: bool_at_def)
  show ?thesis
    unfolding p using t raw i bool.appender_axioms
    by (simp add: append_iter_case_def access_defs)
qed

section \<open>Documents, strings and binaries\<close>

lemma init_static_ok:
  assumes "n \<le> length data" and "5 \<le> n" and "n \<le> INT_MAX" and "u32_at data 0 = n" and "data ! (n - 1) = 0"
  shows "bson_init_static data n = Inr True"
  using assms by (simp add: bson_init_static_def BSON_MAX_SIZE_def INT_MAX_def u32_at_def)

lemma last_take_drop:
  "0 < n \<Longrightarrow> i + n \<le> length xs \<Longrightarrow> last (take n (drop i xs)) = xs ! (i + n - 1)"
proof -
  assume *: "0 < n" "i + n \<le> length xs"
  then have "length (take n (drop i xs)) = n" by simp
  with * show ?thesis by (subst last_conv_nth) auto
qed

lemma u32_at_drop: "u32_at (drop i data) j = u32_at data (i + j)"
  by (simp add: u32_at_def add.commute)

lemma copy_document:
  assumes el: "on_element data t it" and t: "t \<in> {BSON_TYPE_DOCUMENT, BSON_TYPE_ARRAY}"
    and c: "copyable t (payload_of data it)"
  shows "appender (\<lambda>h b key klen. append_iter_case h b key klen it t) t (payload_of data it)"
proof -
  have f: "document_at data it" using on_elementD(6) [OF el] t by auto
  note d = on_elementD [OF el]
  let ?l = "u32_at data (it_d1 it)" and ?m = "drop (it_d1 it) data"
  have next_off: "it_next_off it = it_d1 it + ?l" using f by (simp add: document_at_def)
  then have p: "payload_of data it = take ?l ?m" by (simp add: payload_of_def)
  have l: "?l \<le> length ?m" "?l \<le> INT_MAX" "?l \<le> UINT32_MAX" "it_d1 it + ?l \<le> length data"
    using d next_off by (simp_all add: INT_MAX_def UINT32_MAX_def)
  have c': "5 \<le> ?l" "data ! (it_d1 it + ?l - 1) = 0"
    using c t l last_take_drop [of ?l "it_d1 it" data] by (auto simp: p min_def split: if_splits)
  then have "?m ! (?l - 1) = 0" using l by (simp add: add_diff_assoc)
  then have st: "bson_init_static ?m ?l = Inr True"
    using l c' by (intro init_static_ok) (simp_all add: u32_at_drop)
  show ?thesis
    unfolding p using t on_elementI [OF el] l c' st
      document_appender [OF l(1,3)] array_appender [OF l(1) c'(1) l(2)]
    by (elim insertE emptyE) (simp_all add: append_iter_case_def access_defs append_static_def)
qed

lemma copy_string:
  assumes el: "on_element data t it" and t: "t \<in> {BSON_TYPE_UTF8, BSON_TYPE_SYMBOL}"
  shows "appender (\<lambda>h b key klen. append_iter_case h b key klen it t) t (payload_of data it)"
proof -
  have f: "string_at data it" using on_elementD(6) [OF el] t by auto
  show ?thesis
    using t iter_string_ok(1) [OF el f] by (intro string_copy [OF el f])
      (elim insertE emptyE; simp add: append_iter_case_def bson_iter_utf8_def bson_iter_symbol_def
        bson_append_utf8_def bson_append_symbol_def)
qed

lemma c_str_prefix:
  assumes "0 \<notin> set (take n m)" and "n < length m" and "m ! n = 0"
  shows "c_str m = take n m" and "0 \<in> set m"
proof -
  have "m = take n m @ 0 # drop (Suc n) m" using assms(2,3) by (metis id_take_nth_drop)
  then show "c_str m = take n m" using assms(1) c_str_append by metis
  show "0 \<in> set m" using assms(2,3) by (metis nth_mem)
qed

lemma butlast_string_bytes: "butlast (drop 4 (string_bytes s)) = s"
  by (simp add: string_bytes_def butlast_append)

lemma copy_code:
  assumes el: "on_element data t it" and t: "t = BSON_TYPE_CODE"
    and c: "copyable t (payload_of data it)"
  shows "appender (\<lambda>h b key klen. append_iter_case h b key klen it t) t (payload_of data it)"
proof -
  have f: "string_at data it" using on_elementD(6) [OF el] t by auto
  let ?n = "u32_at data (it_d1 it) - 1" and ?m = "drop (it_d2 it) data"
  note p = string_payload_of [OF el f]
  have nz: "0 \<notin> set (take ?n ?m)" using c t by (simp add: p butlast_string_bytes)
  have ok: "?n < length ?m" "?m ! ?n = 0" using iter_string_ok(2) [OF el f] by (auto simp: str_ok_def)
  note cs = c_str_prefix [OF nz ok]
  have "?n < 4294967295" using u32_at_less [of data "it_d1 it"] by linarith
  then have len: "length (c_str ?m) < UINT32_MAX" by (simp add: cs(1) UINT32_MAX_def)
  show ?thesis
    unfolding p cs(1) [symmetric]
    using t iter_string_ok(1) [OF el f] code_appender [OF cs(2) len]
    by (simp add: append_iter_case_def bson_iter_code_def)
qed

lemma copy_binary:
  assumes el: "on_element data t it" and t: "t = BSON_TYPE_BINARY"
  shows "appender (\<lambda>h b key klen. append_iter_case h b key klen it t) t (payload_of data it)"
proof -
  have f: "binary_at data it" using on_elementD(6) [OF el] t by auto
  note d = on_elementD [OF el] and raw = on_elementI [OF el]
  let ?o = "it_d1 it" let ?l = "u32_at data ?o" and ?st = "data ! (?o + 4)"
  have b: "it_d2 it = ?o + 4" "it_d3 it = ?o + 5" "it_next_off it = ?o + 5 + ?l"
    using f by (auto simp: binary_at_def)
  have len: "?o + 5 + ?l < length data" using d b by simp
  have st: "take 1 (drop (?o + 4) data) = [?st]"
    using len Cons_nth_drop_Suc [of "?o + 4" data, symmetric] by simp
  show ?thesis
  proof (cases "?st = BSON_SUBTYPE_BINARY_DEPRECATED")
    case False
    have "payload_of data it = take (4 + (1 + ?l)) (drop ?o data)"
      using b by (simp add: payload_of_def)
    then have p: "payload_of data it = binary_bytes ?st (take ?l (drop (?o + 5) data))"
      using False len unfolding take_drop_add st
      by (simp add: binary_bytes_def write_of_u32_at add.commute)
    have "?l \<le> UINT32_MAX - 4" using d b by (simp add: UINT32_MAX_def)
    then show ?thesis
      unfolding p using t raw False b len binary_appender [of ?l "drop (?o + 5) data" ?st]
      by (simp add: append_iter_case_def access_defs)
  next
    case True
    then have old: "4 \<le> ?l" "u32_at data (?o + 5) = ?l - 4"
      using f by (auto simp: binary_at_def b)
    have "payload_of data it = take (4 + (1 + (4 + (?l - 4)))) (drop ?o data)"
      using b old by (simp add: payload_of_def)
    then have p: "payload_of data it = binary_bytes ?st (take (?l - 4) (drop (?o + 9) data))"
      using True old len write_of_u32_at [of ?o data] write_of_u32_at [of "?o + 5" data]
      unfolding take_drop_add st by (simp add: binary_bytes_def of_nat_diff add.commute)
    have "?l - 4 \<le> UINT32_MAX - 4" "?l - 4 \<le> length (drop (?o + 9) data)"
      using d b len old by (simp_all add: UINT32_MAX_def)
    note app = binary_appender [OF this(2,1), of ?st]
    have e: "9 + ?o = ?o + 9" by simp
    show ?thesis
      unfolding p using t raw True b old len app
      by (simp add: append_iter_case_def access_defs e)
  qed
qed

end
