(* ===== verification/CopyDoc.thy ===== *)
theory CopyDoc
  imports CopyElem
begin

text \<open>
  Regular expressions, database pointers and code with scope, then the copy of any element and
  of whole documents.
\<close>

section \<open>The remaining appenders\<close>

lemma regex_appender:
  assumes "0 \<in> set r" and "0 \<in> set opts" and "length (c_str r) \<le> UINT32_MAX"
  shows "appender (\<lambda>h b key klen. bson_append_regex h b key klen (Some r) (Some opts)) BSON_TYPE_REGEX
    (c_str r @ 0 # filter (\<lambda>c. c \<in> set (c_str opts)) regex_options_sorted @ [0])"
proof
  fix h b body key klen k
  assume *: "holds h b body" "key_arg key klen k"
  let ?s = "filter (\<lambda>c. c \<in> set (c_str opts)) regex_options_sorted"
  have "length ?s \<le> 6"
    using length_filter_le [of "\<lambda>c. c \<in> set (c_str opts)" regex_options_sorted]
    by (simp add: regex_options_sorted_def)
  then have "appended h b body (elem_bytes BSON_TYPE_REGEX k (concat [c_str r, [0], ?s @ [0]]))
      (append_ops h b (key_ops BSON_TYPE_REGEX key klen @ [Str r (-1), arg [0], arg (?s @ [0])]))"
    using * assms by (intro append_elem) (auto simp: UINT32_MAX_def)
  then show "appended h b body (elem_bytes BSON_TYPE_REGEX k (c_str r @ 0 # ?s @ [0]))
      (bson_append_regex h b key klen (Some r) (Some opts))"
    using assms by (simp add: bson_append_regex_def bson_append_regex_w_len_def Let_def c_strlen_def)
qed

lemma dbpointer_appender:
  assumes "0 \<in> set m" and "length (c_str m) < UINT32_MAX" and "length oid = 12"
  shows "appender (\<lambda>h b key klen. bson_append_dbpointer h b key klen m oid) BSON_TYPE_DBPOINTER
    (string_bytes (c_str m) @ oid)"
proof
  fix h b body key klen k
  assume *: "holds h b body" "key_arg key klen k"
  let ?l = "length (c_str m)"
  let ?ops = "[arg (mlib_write_u32le (of_nat ?l + 1)), Arg (Some m) (?l + 1), Arg (Some oid) 12]"
  have "op_bytes (Arg (Some m) (?l + 1)) = Some (c_str m @ [0])"
    using assms length_c_str_less [of m] by (simp add: take_Suc_c_str)
  then have "appended h b body (elem_bytes BSON_TYPE_DBPOINTER k
        (concat [mlib_write_u32le (of_nat ?l + 1), c_str m @ [0], oid]))
      (append_ops h b (key_ops BSON_TYPE_DBPOINTER key klen @ ?ops))"
    using * assms by (intro append_elem) (auto simp: UINT32_MAX_def)
  moreover have "bson_append_dbpointer h b key klen m oid
      = append_ops h b (key_ops BSON_TYPE_DBPOINTER key klen @ ?ops)"
    using assms by (simp add: bson_append_dbpointer_def c_strlen_def UINT32_MAX_def)
  ultimately show "appended h b body (elem_bytes BSON_TYPE_DBPOINTER k (string_bytes (c_str m) @ oid))
      (bson_append_dbpointer h b key klen m oid)"
    by (simp add: string_bytes_def)
qed

lemma codewscope_appender:
  assumes "0 \<in> set m" and "length (c_str m) + n + 9 \<le> UINT32_MAX" and "n \<le> length scope"
  shows "appender (\<lambda>h b key klen. bson_append_code_with_scope h b key klen m (Some (scope, n)))
    BSON_TYPE_CODEWSCOPE (mlib_write_u32le (of_nat (length (c_str m) + n + 9))
      @ string_bytes (c_str m) @ take n scope)"
proof
  fix h b body key klen k
  assume *: "holds h b body" "key_arg key klen k"
  let ?l = "length (c_str m)" let ?t = "?l + n + 9"
  let ?ops = "[arg (mlib_write_u32le (of_nat ?t)), arg (mlib_write_u32le (of_nat (?l + 1))),
    Arg (Some m) (?l + 1), Arg (Some scope) n]"
  have "op_bytes (Arg (Some m) (?l + 1)) = Some (c_str m @ [0])"
    using assms length_c_str_less [of m] by (simp add: take_Suc_c_str)
  then have "appended h b body (elem_bytes BSON_TYPE_CODEWSCOPE k
        (concat [mlib_write_u32le (of_nat ?t), mlib_write_u32le (of_nat (?l + 1)), c_str m @ [0], take n scope]))
      (append_ops h b (key_ops BSON_TYPE_CODEWSCOPE key klen @ ?ops))"
    using * assms by (intro append_elem) (auto simp: UINT32_MAX_def)
  moreover have "bson_append_code_with_scope h b key klen m (Some (scope, n))
      = append_ops h b (key_ops BSON_TYPE_CODEWSCOPE key klen @ ?ops)"
  proof -
    have bnd: "?l + n + 9 \<le> 4294967295" using assms(2) by (simp add: UINT32_MAX_def)
    then have "\<not> ?l > 4294967294" "\<not> ?l + 1 > 4294967295 - n" "\<not> ?l + 1 + n > 4294967287"
      by arith+
    with bnd assms(1) show ?thesis
      by (simp add: bson_append_code_with_scope_def c_strlen_def UINT32_MAX_def Let_def ac_simps)
  qed
  ultimately show "appended h b body (elem_bytes BSON_TYPE_CODEWSCOPE k
      (mlib_write_u32le (of_nat ?t) @ string_bytes (c_str m) @ take n scope))
      (bson_append_code_with_scope h b key klen m (Some (scope, n)))"
    by (simp add: string_bytes_def add.commute)
qed

section \<open>Copies with more than one string\<close>

lemma take_nul:
  assumes "i < length data" and "data ! i = 0"
  shows "take 1 (drop i data) = [0 :: byte]"
  using assms Cons_nth_drop_Suc [of i data, symmetric] by simp

lemma nonzero_slice:
  assumes "\<forall>k. i \<le> k \<and> k < j \<longrightarrow> data ! k \<noteq> (0 :: byte)" and "j \<le> length data"
  shows "0 \<notin> set (take (j - i) (drop i data))"
  using assms by (auto simp: in_set_conv_nth)

lemma copy_regex:
  assumes el: "on_element data t it" and t: "t = BSON_TYPE_REGEX"
    and c: "copyable t (payload_of data it)"
  shows "appender (\<lambda>h b key klen. append_iter_case h b key klen it t) t (payload_of data it)"
proof -
  have f: "regex_at data it" using on_elementD(6) [OF el] t by auto
  note d = on_elementD [OF el] and raw = on_elementI [OF el]
  let ?a = "it_d1 it" let ?b = "it_d2 it" let ?e = "it_next_off it"
  define r opts where "r = take (?b - 1 - ?a) (drop ?a data)" and "opts = take (?e - 1 - ?b) (drop ?b data)"
  have pos: "?a < ?b" "?b < ?e" "?e < length data" using f d by (auto simp: regex_at_def)
  have z: "data ! (?b - 1) = 0" "data ! (?e - 1) = 0" using f by (auto simp: regex_at_def)
  have nz: "0 \<notin> set r" "0 \<notin> set opts"
    unfolding r_def opts_def using f pos by (intro nonzero_slice; simp add: regex_at_def)+
  have "drop ?a data ! (?b - 1 - ?a) = 0" "?b - 1 - ?a < length (drop ?a data)"
    using pos z by simp_all
  note cr = c_str_prefix [OF nz(1) [unfolded r_def] this(2,1), folded r_def]
  have "drop ?b data ! (?e - 1 - ?b) = 0" "?e - 1 - ?b < length (drop ?b data)"
    using pos z by simp_all
  note co = c_str_prefix [OF nz(2) [unfolded opts_def] this(2,1), folded opts_def]
  have s1: "?e - ?a = (?b - 1 - ?a) + (1 + ((?e - 1 - ?b) + 1))" and
    s2: "?a + (?b - 1 - ?a) = ?b - 1" "?b - 1 + 1 = ?b" "?b + (?e - 1 - ?b) = ?e - 1" using pos by arith+
  have p: "payload_of data it = r @ 0 # opts @ [0]"
    unfolding payload_of_def s1 take_drop_add s2
    using take_nul [of "?b - 1" data] take_nul [of "?e - 1" data] z pos by (simp add: r_def opts_def)
  have "opts = filter (\<lambda>c. c \<in> set opts) regex_options_sorted"
    using c t nz by (simp add: p Let_def)
  then have p': "payload_of data it
      = c_str (drop ?a data) @ 0 # filter (\<lambda>c. c \<in> set (c_str (drop ?b data))) regex_options_sorted @ [0]"
    using p unfolding cr(1) co(1) by simp
  have "length r \<le> UINT32_MAX" using d pos by (simp add: r_def UINT32_MAX_def)
  then show ?thesis
    unfolding p' using t raw regex_appender [OF cr(2) co(2)]
    by (simp add: append_iter_case_def access_defs cr(1))
qed

lemma copy_dbpointer:
  assumes el: "on_element data t it" and t: "t = BSON_TYPE_DBPOINTER"
    and c: "copyable t (payload_of data it)"
  shows "appender (\<lambda>h b key klen. append_iter_case h b key klen it t) t (payload_of data it)"
proof -
  have f: "dbpointer_at data it" using on_elementD(6) [OF el] t by auto
  note d = on_elementD [OF el] and raw = on_elementI [OF el]
  let ?o = "it_d1 it" let ?l = "u32_at data ?o"
  define s oid where "s = take (?l - 1) (drop (?o + 4) data)" and "oid = take 12 (drop (?o + 4 + ?l) data)"
  have b: "it_d2 it = ?o + 4" "it_d3 it = ?o + 4 + ?l" "it_next_off it = ?o + 4 + ?l + 12" "0 < ?l"
    "data ! (?o + 4 + (?l - 1)) = 0"
    using f by (auto simp: dbpointer_at_def add_diff_assoc)
  have len: "?o + 4 + ?l + 12 < length data" using d b by simp
  have s1: "it_next_off it - ?o = 4 + ((?l - 1) + (1 + 12))" "?o + 4 + (?l - 1) + 1 = ?o + 4 + ?l"
    using b by simp_all
  have p4: "payload_of data it = take 4 (drop ?o data) @ s @ 0 # oid"
    unfolding payload_of_def s1(1) take_drop_add s1(2)
    using take_nul [of "?o + 4 + (?l - 1)" data] b len by (simp add: s_def oid_def)
  have ls: "length s = ?l - 1" "length oid = 12" using len b by (simp_all add: s_def oid_def)
  have p: "payload_of data it = string_bytes s @ oid"
    using p4 len b ls write_of_u32_at [of ?o data] by (simp add: string_bytes_def of_nat_diff)
  have "take (length (payload_of data it) - 17) (drop 4 (payload_of data it)) = s"
    using ls b by (simp add: p string_bytes_def)
  then have nz: "0 \<notin> set (take (?l - 1) (drop (?o + 4) data))" using c t by (simp add: s_def)
  have "drop (?o + 4) data ! (?l - 1) = 0" "?l - 1 < length (drop (?o + 4) data)"
    using b len by simp_all
  note cs = c_str_prefix [OF nz this(2,1), folded s_def]
  have small: "length (c_str (drop (?o + 4) data)) < UINT32_MAX"
    using d b ls by (simp add: cs(1) UINT32_MAX_def)
  show ?thesis
    unfolding p using t raw b len dbpointer_appender [OF cs(2) small ls(2)]
    by (simp add: append_iter_case_def access_defs cs(1) oid_def)
qed

lemma copy_codewscope:
  assumes el: "on_element data t it" and t: "t = BSON_TYPE_CODEWSCOPE"
    and c: "copyable t (payload_of data it)"
  shows "appender (\<lambda>h b key klen. append_iter_case h b key klen it t) t (payload_of data it)"
proof -
  have f: "codewscope_at data it" using on_elementD(6) [OF el] t by auto
  note d = on_elementD [OF el] and raw = on_elementI [OF el]
  let ?o = "it_d1 it" let ?n = "u32_at data (?o + 4)" let ?q = "?o + 8 + ?n"
  let ?m = "u32_at data ?q"
  define s scope where "s = take (?n - 1) (drop (?o + 8) data)" and "scope = take ?m (drop ?q data)"
  have b: "it_d2 it = ?o + 4" "it_d3 it = ?o + 8" "it_d4 it = ?q" "0 < ?n"
    "it_next_off it = ?q + ?m" "it_next_off it = ?o + u32_at data ?o"
    using f by (auto simp: codewscope_at_def)
  have len: "?q + ?m < length data" using d b by simp
  have tot: "u32_at data ?o = 8 + ?n + ?m" using b(5,6) by simp
  have s1: "it_next_off it - ?o = 4 + (4 + ((?n - 1) + (1 + ?m)))"
    "?o + 4 + 4 = ?o + 8" "?o + 8 + (?n - 1) + 1 = ?q" using b by simp_all
  define z where "z = data ! (?o + 8 + (?n - 1))"
  have "?o + 8 + (?n - 1) < length data" using len b by simp
  then have z1: "take 1 (drop (?o + 8 + (?n - 1)) data) = [z]"
    using Cons_nth_drop_Suc [of "?o + 8 + (?n - 1)" data, symmetric] by (simp add: z_def)
  have p4: "payload_of data it = take 4 (drop ?o data) @ take 4 (drop (?o + 4) data) @ s @ z # scope"
    unfolding payload_of_def s1(1) take_drop_add s1(2,3) z1 by (simp add: s_def scope_def)
  have ls: "length s = ?n - 1" "length scope = ?m" using len b by (simp_all add: s_def scope_def)
  have l4: "length (take 4 (drop ?o data)) = 4" "length (take 4 (drop (?o + 4) data)) = 4"
    using len by simp_all
  have n: "u32_at (payload_of data it) 4 = ?n"
    using l4 by (simp add: p4 u32_at_def)
  have drop8: "drop 8 (payload_of data it) = s @ z # scope" using l4 by (simp add: p4)
  have js: "take ?n (drop 8 (payload_of data it)) = s @ [z]" and sc: "drop (8 + ?n) (payload_of data it) = scope"
    using ls b unfolding drop_drop [symmetric, of ?n 8] add.commute [of 8 ?n] drop8
    by (simp_all add: drop_Cons')
  have c': "z = 0" "0 \<notin> set s" "5 \<le> length scope" "last scope = 0"
    using c unfolding t copyable.simps n Let_def js sc by simp_all
  have "drop (?o + 8) data ! (?n - 1) = 0" "?n - 1 < length (drop (?o + 8) data)"
    using c'(1) b len by (simp_all add: z_def)
  note cs = c_str_prefix [OF c'(2) [unfolded s_def] this(2,1), folded s_def]
  have p: "payload_of data it = mlib_write_u32le (of_nat (length s + ?m + 9)) @ string_bytes s @ take ?m (drop ?q data)"
  proof -
    have "length s + ?m + 9 = u32_at data ?o" using tot ls b by simp
    then show ?thesis
      using p4 len ls b c'(1) write_of_u32_at [of ?o data] write_of_u32_at [of "?o + 4" data]
      by (simp add: string_bytes_def of_nat_diff scope_def del: of_nat_add)
  qed
  have m: "5 \<le> ?m" "?m \<le> length (drop ?q data)" "?m \<le> INT_MAX"
    using c' ls len d b by (simp_all add: INT_MAX_def)
  have "drop ?q data ! (?m - 1) = 0"
    using c'(4) m len last_take_drop [of ?m ?q data] by (simp add: scope_def add_diff_assoc)
  then have st: "bson_init_static (drop ?q data) ?m = Inr True"
    using m by (intro init_static_ok) (simp_all add: u32_at_drop)
  have small: "length (c_str (drop (?o + 8) data)) + ?m + 9 \<le> UINT32_MAX"
    using d b ls by (simp add: cs(1) UINT32_MAX_def)
  have "?q + 4 \<le> length data" "?o + 8 \<le> length data" using m(1) len by simp_all
  then show ?thesis
    unfolding p using t raw b len st codewscope_appender [OF cs(2) small m(2)]
    by (simp add: append_iter_case_def access_defs cs(1) append_static_def)
qed

section \<open>Copying an element\<close>

lemma copy_appender:
  assumes "on_element data t it" and "copyable t (payload_of data it)"
  shows "appender (\<lambda>h b key klen. append_iter_case h b key klen it t) t (payload_of data it)"
proof -
  have neq: "t \<noteq> BSON_TYPE_EOD" using on_elementD(6) [OF assms(1)] by auto
  note el = assms(1) and c = assms(2)
  note copies = copy_fixed8 [OF el] copy_int32 [OF el] copy_timestamp [OF el] copy_decimal128 [OF el]
    copy_oid [OF el] copy_empty [OF el] copy_bool [OF el] copy_document [OF el _ c] copy_string [OF el]
    copy_code [OF el _ c] copy_binary [OF el] copy_regex [OF el _ c] copy_dbpointer [OF el _ c]
    copy_codewscope [OF el _ c]
  from neq have "t \<in> {BSON_TYPE_DOUBLE, BSON_TYPE_INT64, BSON_TYPE_DATE_TIME} \<or> t = BSON_TYPE_INT32
    \<or> t = BSON_TYPE_TIMESTAMP \<or> t = BSON_TYPE_DECIMAL128 \<or> t = BSON_TYPE_OID
    \<or> t \<in> {BSON_TYPE_NULL, BSON_TYPE_UNDEFINED, BSON_TYPE_MAXKEY, BSON_TYPE_MINKEY} \<or> t = BSON_TYPE_BOOL
    \<or> t \<in> {BSON_TYPE_DOCUMENT, BSON_TYPE_ARRAY} \<or> t \<in> {BSON_TYPE_UTF8, BSON_TYPE_SYMBOL}
    \<or> t = BSON_TYPE_CODE \<or> t = BSON_TYPE_BINARY \<or> t = BSON_TYPE_REGEX \<or> t = BSON_TYPE_DBPOINTER
    \<or> t = BSON_TYPE_CODEWSCOPE"
    by (cases t) simp_all
  then show ?thesis by (elim disjE) (rule copies, assumption)+
qed

text \<open>With the key of the element, or with another one.\<close>

lemma append_iter_other_key:
  assumes "on_element data t it" and "copyable t (payload_of data it)"
    and "holds h b body" and "key_arg key klen k"
  shows "appended h b body (elem_bytes t k (payload_of data it)) (bson_append_iter h b (Some key) klen it)"
  using appender.app [OF copy_appender [OF assms(1,2)] assms(3,4)] on_element_type [OF assms(1)]
  by (simp add: bson_append_iter_def)

lemma append_iter_same_key:
  assumes "on_element data t it" and "copyable t (payload_of data it)" and "holds h b body"
  shows "appended h b body (elem_bytes t (elem_key data it) (payload_of data it))
    (bson_append_iter h b None 0 it)"
proof -
  note key = on_element_key [OF assms(1)] and d = on_elementD [OF assms(1)]
  have "length (elem_key data it) \<le> UINT32_MAX"
    using d by (simp add: key(1) UINT32_MAX_def)
  then have "key_arg (drop (it_key it) data) (- 1) (elem_key data it)"
    using key(4) unfolding key(3) by auto
  from appender.app [OF copy_appender [OF assms(1,2)] assms(3) this]
  show ?thesis
    using on_element_type [OF assms(1)] key(2) by (simp add: bson_append_iter_def)
qed

end
