(* ===== verification/BsonKeys.thy ===== *)
theory BsonKeys
  imports MPrelude
begin

text \<open>
  The keys of arrays (\<open>src/src/bson/bson-keys.c\<close>): a table of the first thousand numbers, and
  \<open>snprintf\<close> for the others. A C string is its bytes and a NUL.
\<close>

text \<open>The characters of the entries, without their NUL, in rows of one hundred.\<close>

definition uint_strs_0 :: "byte list list" where
  "uint_strs_0 = [
   [48], [49], [50], [51], [52], [53], [54], [55],
   [56], [57], [49, 48], [49, 49], [49, 50], [49, 51], [49, 52], [49, 53],
   [49, 54], [49, 55], [49, 56], [49, 57], [50, 48], [50, 49], [50, 50], [50, 51],
   [50, 52], [50, 53], [50, 54], [50, 55], [50, 56], [50, 57], [51, 48], [51, 49],
   [51, 50], [51, 51], [51, 52], [51, 53], [51, 54], [51, 55], [51, 56], [51, 57],
   [52, 48], [52, 49], [52, 50], [52, 51], [52, 52], [52, 53], [52, 54], [52, 55],
   [52, 56], [52, 57], [53, 48], [53, 49], [53, 50], [53, 51], [53, 52], [53, 53],
   [53, 54], [53, 55], [53, 56], [53, 57], [54, 48], [54, 49], [54, 50], [54, 51],
   [54, 52], [54, 53], [54, 54], [54, 55], [54, 56], [54, 57], [55, 48], [55, 49],
   [55, 50], [55, 51], [55, 52], [55, 53], [55, 54], [55, 55], [55, 56], [55, 57],
   [56, 48], [56, 49], [56, 50], [56, 51], [56, 52], [56, 53], [56, 54], [56, 55],
   [56, 56], [56, 57], [57, 48], [57, 49], [57, 50], [57, 51], [57, 52], [57, 53],
   [57, 54], [57, 55], [57, 56], [57, 57]
  ]"

definition uint_strs_1 :: "byte list list" where
  "uint_strs_1 = [
   [49, 48, 48], [49, 48, 49], [49, 48, 50], [49, 48, 51], [49, 48, 52], [49, 48, 53], [49, 48, 54], [49, 48, 55],
   [49, 48, 56], [49, 48, 57], [49, 49, 48], [49, 49, 49], [49, 49, 50], [49, 49, 51], [49, 49, 52], [49, 49, 53],
   [49, 49, 54], [49, 49, 55], [49, 49, 56], [49, 49, 57], [49, 50, 48], [49, 50, 49], [49, 50, 50], [49, 50, 51],
   [49, 50, 52], [49, 50, 53], [49, 50, 54], [49, 50, 55], [49, 50, 56], [49, 50, 57], [49, 51, 48], [49, 51, 49],
   [49, 51, 50], [49, 51, 51], [49, 51, 52], [49, 51, 53], [49, 51, 54], [49, 51, 55], [49, 51, 56], [49, 51, 57],
   [49, 52, 48], [49, 52, 49], [49, 52, 50], [49, 52, 51], [49, 52, 52], [49, 52, 53], [49, 52, 54], [49, 52, 55],
   [49, 52, 56], [49, 52, 57], [49, 53, 48], [49, 53, 49], [49, 53, 50], [49, 53, 51], [49, 53, 52], [49, 53, 53],
   [49, 53, 54], [49, 53, 55], [49, 53, 56], [49, 53, 57], [49, 54, 48], [49, 54, 49], [49, 54, 50], [49, 54, 51],
   [49, 54, 52], [49, 54, 53], [49, 54, 54], [49, 54, 55], [49, 54, 56], [49, 54, 57], [49, 55, 48], [49, 55, 49],
   [49, 55, 50], [49, 55, 51], [49, 55, 52], [49, 55, 53], [49, 55, 54], [49, 55, 55], [49, 55, 56], [49, 55, 57],
   [49, 56, 48], [49, 56, 49], [49, 56, 50], [49, 56, 51], [49, 56, 52], [49, 56, 53], [49, 56, 54], [49, 56, 55],
   [49, 56, 56], [49, 56, 57], [49, 57, 48], [49, 57, 49], [49, 57, 50], [49, 57, 51], [49, 57, 52], [49, 57, 53],
   [49, 57, 54], [49, 57, 55], [49, 57, 56], [49, 57, 57]
  ]"

definition uint_strs_2 :: "byte list list" where
  "uint_strs_2 = [
   [50, 48, 48], [50, 48, 49], [50, 48, 50], [50, 48, 51], [50, 48, 52], [50, 48, 53], [50, 48, 54], [50, 48, 55],
   [50, 48, 56], [50, 48, 57], [50, 49, 48], [50, 49, 49], [50, 49, 50], [50, 49, 51], [50, 49, 52], [50, 49, 53],
   [50, 49, 54], [50, 49, 55], [50, 49, 56], [50, 49, 57], [50, 50, 48], [50, 50, 49], [50, 50, 50], [50, 50, 51],
   [50, 50, 52], [50, 50, 53], [50, 50, 54], [50, 50, 55], [50, 50, 56], [50, 50, 57], [50, 51, 48], [50, 51, 49],
   [50, 51, 50], [50, 51, 51], [50, 51, 52], [50, 51, 53], [50, 51, 54], [50, 51, 55], [50, 51, 56], [50, 51, 57],
   [50, 52, 48], [50, 52, 49], [50, 52, 50], [50, 52, 51], [50, 52, 52], [50, 52, 53], [50, 52, 54], [50, 52, 55],
   [50, 52, 56], [50, 52, 57], [50, 53, 48], [50, 53, 49], [50, 53, 50], [50, 53, 51], [50, 53, 52], [50, 53, 53],
   [50, 53, 54], [50, 53, 55], [50, 53, 56], [50, 53, 57], [50, 54, 48], [50, 54, 49], [50, 54, 50], [50, 54, 51],
   [50, 54, 52], [50, 54, 53], [50, 54, 54], [50, 54, 55], [50, 54, 56], [50, 54, 57], [50, 55, 48], [50, 55, 49],
   [50, 55, 50], [50, 55, 51], [50, 55, 52], [50, 55, 53], [50, 55, 54], [50, 55, 55], [50, 55, 56], [50, 55, 57],
   [50, 56, 48], [50, 56, 49], [50, 56, 50], [50, 56, 51], [50, 56, 52], [50, 56, 53], [50, 56, 54], [50, 56, 55],
   [50, 56, 56], [50, 56, 57], [50, 57, 48], [50, 57, 49], [50, 57, 50], [50, 57, 51], [50, 57, 52], [50, 57, 53],
   [50, 57, 54], [50, 57, 55], [50, 57, 56], [50, 57, 57]
  ]"

definition uint_strs_3 :: "byte list list" where
  "uint_strs_3 = [
   [51, 48, 48], [51, 48, 49], [51, 48, 50], [51, 48, 51], [51, 48, 52], [51, 48, 53], [51, 48, 54], [51, 48, 55],
   [51, 48, 56], [51, 48, 57], [51, 49, 48], [51, 49, 49], [51, 49, 50], [51, 49, 51], [51, 49, 52], [51, 49, 53],
   [51, 49, 54], [51, 49, 55], [51, 49, 56], [51, 49, 57], [51, 50, 48], [51, 50, 49], [51, 50, 50], [51, 50, 51],
   [51, 50, 52], [51, 50, 53], [51, 50, 54], [51, 50, 55], [51, 50, 56], [51, 50, 57], [51, 51, 48], [51, 51, 49],
   [51, 51, 50], [51, 51, 51], [51, 51, 52], [51, 51, 53], [51, 51, 54], [51, 51, 55], [51, 51, 56], [51, 51, 57],
   [51, 52, 48], [51, 52, 49], [51, 52, 50], [51, 52, 51], [51, 52, 52], [51, 52, 53], [51, 52, 54], [51, 52, 55],
   [51, 52, 56], [51, 52, 57], [51, 53, 48], [51, 53, 49], [51, 53, 50], [51, 53, 51], [51, 53, 52], [51, 53, 53],
   [51, 53, 54], [51, 53, 55], [51, 53, 56], [51, 53, 57], [51, 54, 48], [51, 54, 49], [51, 54, 50], [51, 54, 51],
   [51, 54, 52], [51, 54, 53], [51, 54, 54], [51, 54, 55], [51, 54, 56], [51, 54, 57], [51, 55, 48], [51, 55, 49],
   [51, 55, 50], [51, 55, 51], [51, 55, 52], [51, 55, 53], [51, 55, 54], [51, 55, 55], [51, 55, 56], [51, 55, 57],
   [51, 56, 48], [51, 56, 49], [51, 56, 50], [51, 56, 51], [51, 56, 52], [51, 56, 53], [51, 56, 54], [51, 56, 55],
   [51, 56, 56], [51, 56, 57], [51, 57, 48], [51, 57, 49], [51, 57, 50], [51, 57, 51], [51, 57, 52], [51, 57, 53],
   [51, 57, 54], [51, 57, 55], [51, 57, 56], [51, 57, 57]
  ]"

definition uint_strs_4 :: "byte list list" where
  "uint_strs_4 = [
   [52, 48, 48], [52, 48, 49], [52, 48, 50], [52, 48, 51], [52, 48, 52], [52, 48, 53], [52, 48, 54], [52, 48, 55],
   [52, 48, 56], [52, 48, 57], [52, 49, 48], [52, 49, 49], [52, 49, 50], [52, 49, 51], [52, 49, 52], [52, 49, 53],
   [52, 49, 54], [52, 49, 55], [52, 49, 56], [52, 49, 57], [52, 50, 48], [52, 50, 49], [52, 50, 50], [52, 50, 51],
   [52, 50, 52], [52, 50, 53], [52, 50, 54], [52, 50, 55], [52, 50, 56], [52, 50, 57], [52, 51, 48], [52, 51, 49],
   [52, 51, 50], [52, 51, 51], [52, 51, 52], [52, 51, 53], [52, 51, 54], [52, 51, 55], [52, 51, 56], [52, 51, 57],
   [52, 52, 48], [52, 52, 49], [52, 52, 50], [52, 52, 51], [52, 52, 52], [52, 52, 53], [52, 52, 54], [52, 52, 55],
   [52, 52, 56], [52, 52, 57], [52, 53, 48], [52, 53, 49], [52, 53, 50], [52, 53, 51], [52, 53, 52], [52, 53, 53],
   [52, 53, 54], [52, 53, 55], [52, 53, 56], [52, 53, 57], [52, 54, 48], [52, 54, 49], [52, 54, 50], [52, 54, 51],
   [52, 54, 52], [52, 54, 53], [52, 54, 54], [52, 54, 55], [52, 54, 56], [52, 54, 57], [52, 55, 48], [52, 55, 49],
   [52, 55, 50], [52, 55, 51], [52, 55, 52], [52, 55, 53], [52, 55, 54], [52, 55, 55], [52, 55, 56], [52, 55, 57],
   [52, 56, 48], [52, 56, 49], [52, 56, 50], [52, 56, 51], [52, 56, 52], [52, 56, 53], [52, 56, 54], [52, 56, 55],
   [52, 56, 56], [52, 56, 57], [52, 57, 48], [52, 57, 49], [52, 57, 50], [52, 57, 51], [52, 57, 52], [52, 57, 53],
   [52, 57, 54], [52, 57, 55], [52, 57, 56], [52, 57, 57]
  ]"

definition uint_strs_5 :: "byte list list" where
  "uint_strs_5 = [
   [53, 48, 48], [53, 48, 49], [53, 48, 50], [53, 48, 51], [53, 48, 52], [53, 48, 53], [53, 48, 54], [53, 48, 55],
   [53, 48, 56], [53, 48, 57], [53, 49, 48], [53, 49, 49], [53, 49, 50], [53, 49, 51], [53, 49, 52], [53, 49, 53],
   [53, 49, 54], [53, 49, 55], [53, 49, 56], [53, 49, 57], [53, 50, 48], [53, 50, 49], [53, 50, 50], [53, 50, 51],
   [53, 50, 52], [53, 50, 53], [53, 50, 54], [53, 50, 55], [53, 50, 56], [53, 50, 57], [53, 51, 48], [53, 51, 49],
   [53, 51, 50], [53, 51, 51], [53, 51, 52], [53, 51, 53], [53, 51, 54], [53, 51, 55], [53, 51, 56], [53, 51, 57],
   [53, 52, 48], [53, 52, 49], [53, 52, 50], [53, 52, 51], [53, 52, 52], [53, 52, 53], [53, 52, 54], [53, 52, 55],
   [53, 52, 56], [53, 52, 57], [53, 53, 48], [53, 53, 49], [53, 53, 50], [53, 53, 51], [53, 53, 52], [53, 53, 53],
   [53, 53, 54], [53, 53, 55], [53, 53, 56], [53, 53, 57], [53, 54, 48], [53, 54, 49], [53, 54, 50], [53, 54, 51],
   [53, 54, 52], [53, 54, 53], [53, 54, 54], [53, 54, 55], [53, 54, 56], [53, 54, 57], [53, 55, 48], [53, 55, 49],
   [53, 55, 50], [53, 55, 51], [53, 55, 52], [53, 55, 53], [53, 55, 54], [53, 55, 55], [53, 55, 56], [53, 55, 57],
   [53, 56, 48], [53, 56, 49], [53, 56, 50], [53, 56, 51], [53, 56, 52], [53, 56, 53], [53, 56, 54], [53, 56, 55],
   [53, 56, 56], [53, 56, 57], [53, 57, 48], [53, 57, 49], [53, 57, 50], [53, 57, 51], [53, 57, 52], [53, 57, 53],
   [53, 57, 54], [53, 57, 55], [53, 57, 56], [53, 57, 57]
  ]"

definition uint_strs_6 :: "byte list list" where
  "uint_strs_6 = [
   [54, 48, 48], [54, 48, 49], [54, 48, 50], [54, 48, 51], [54, 48, 52], [54, 48, 53], [54, 48, 54], [54, 48, 55],
   [54, 48, 56], [54, 48, 57], [54, 49, 48], [54, 49, 49], [54, 49, 50], [54, 49, 51], [54, 49, 52], [54, 49, 53],
   [54, 49, 54], [54, 49, 55], [54, 49, 56], [54, 49, 57], [54, 50, 48], [54, 50, 49], [54, 50, 50], [54, 50, 51],
   [54, 50, 52], [54, 50, 53], [54, 50, 54], [54, 50, 55], [54, 50, 56], [54, 50, 57], [54, 51, 48], [54, 51, 49],
   [54, 51, 50], [54, 51, 51], [54, 51, 52], [54, 51, 53], [54, 51, 54], [54, 51, 55], [54, 51, 56], [54, 51, 57],
   [54, 52, 48], [54, 52, 49], [54, 52, 50], [54, 52, 51], [54, 52, 52], [54, 52, 53], [54, 52, 54], [54, 52, 55],
   [54, 52, 56], [54, 52, 57], [54, 53, 48], [54, 53, 49], [54, 53, 50], [54, 53, 51], [54, 53, 52], [54, 53, 53],
   [54, 53, 54], [54, 53, 55], [54, 53, 56], [54, 53, 57], [54, 54, 48], [54, 54, 49], [54, 54, 50], [54, 54, 51],
   [54, 54, 52], [54, 54, 53], [54, 54, 54], [54, 54, 55], [54, 54, 56], [54, 54, 57], [54, 55, 48], [54, 55, 49],
   [54, 55, 50], [54, 55, 51], [54, 55, 52], [54, 55, 53], [54, 55, 54], [54, 55, 55], [54, 55, 56], [54, 55, 57],
   [54, 56, 48], [54, 56, 49], [54, 56, 50], [54, 56, 51], [54, 56, 52], [54, 56, 53], [54, 56, 54], [54, 56, 55],
   [54, 56, 56], [54, 56, 57], [54, 57, 48], [54, 57, 49], [54, 57, 50], [54, 57, 51], [54, 57, 52], [54, 57, 53],
   [54, 57, 54], [54, 57, 55], [54, 57, 56], [54, 57, 57]
  ]"

definition uint_strs_7 :: "byte list list" where
  "uint_strs_7 = [
   [55, 48, 48], [55, 48, 49], [55, 48, 50], [55, 48, 51], [55, 48, 52], [55, 48, 53], [55, 48, 54], [55, 48, 55],
   [55, 48, 56], [55, 48, 57], [55, 49, 48], [55, 49, 49], [55, 49, 50], [55, 49, 51], [55, 49, 52], [55, 49, 53],
   [55, 49, 54], [55, 49, 55], [55, 49, 56], [55, 49, 57], [55, 50, 48], [55, 50, 49], [55, 50, 50], [55, 50, 51],
   [55, 50, 52], [55, 50, 53], [55, 50, 54], [55, 50, 55], [55, 50, 56], [55, 50, 57], [55, 51, 48], [55, 51, 49],
   [55, 51, 50], [55, 51, 51], [55, 51, 52], [55, 51, 53], [55, 51, 54], [55, 51, 55], [55, 51, 56], [55, 51, 57],
   [55, 52, 48], [55, 52, 49], [55, 52, 50], [55, 52, 51], [55, 52, 52], [55, 52, 53], [55, 52, 54], [55, 52, 55],
   [55, 52, 56], [55, 52, 57], [55, 53, 48], [55, 53, 49], [55, 53, 50], [55, 53, 51], [55, 53, 52], [55, 53, 53],
   [55, 53, 54], [55, 53, 55], [55, 53, 56], [55, 53, 57], [55, 54, 48], [55, 54, 49], [55, 54, 50], [55, 54, 51],
   [55, 54, 52], [55, 54, 53], [55, 54, 54], [55, 54, 55], [55, 54, 56], [55, 54, 57], [55, 55, 48], [55, 55, 49],
   [55, 55, 50], [55, 55, 51], [55, 55, 52], [55, 55, 53], [55, 55, 54], [55, 55, 55], [55, 55, 56], [55, 55, 57],
   [55, 56, 48], [55, 56, 49], [55, 56, 50], [55, 56, 51], [55, 56, 52], [55, 56, 53], [55, 56, 54], [55, 56, 55],
   [55, 56, 56], [55, 56, 57], [55, 57, 48], [55, 57, 49], [55, 57, 50], [55, 57, 51], [55, 57, 52], [55, 57, 53],
   [55, 57, 54], [55, 57, 55], [55, 57, 56], [55, 57, 57]
  ]"

definition uint_strs_8 :: "byte list list" where
  "uint_strs_8 = [
   [56, 48, 48], [56, 48, 49], [56, 48, 50], [56, 48, 51], [56, 48, 52], [56, 48, 53], [56, 48, 54], [56, 48, 55],
   [56, 48, 56], [56, 48, 57], [56, 49, 48], [56, 49, 49], [56, 49, 50], [56, 49, 51], [56, 49, 52], [56, 49, 53],
   [56, 49, 54], [56, 49, 55], [56, 49, 56], [56, 49, 57], [56, 50, 48], [56, 50, 49], [56, 50, 50], [56, 50, 51],
   [56, 50, 52], [56, 50, 53], [56, 50, 54], [56, 50, 55], [56, 50, 56], [56, 50, 57], [56, 51, 48], [56, 51, 49],
   [56, 51, 50], [56, 51, 51], [56, 51, 52], [56, 51, 53], [56, 51, 54], [56, 51, 55], [56, 51, 56], [56, 51, 57],
   [56, 52, 48], [56, 52, 49], [56, 52, 50], [56, 52, 51], [56, 52, 52], [56, 52, 53], [56, 52, 54], [56, 52, 55],
   [56, 52, 56], [56, 52, 57], [56, 53, 48], [56, 53, 49], [56, 53, 50], [56, 53, 51], [56, 53, 52], [56, 53, 53],
   [56, 53, 54], [56, 53, 55], [56, 53, 56], [56, 53, 57], [56, 54, 48], [56, 54, 49], [56, 54, 50], [56, 54, 51],
   [56, 54, 52], [56, 54, 53], [56, 54, 54], [56, 54, 55], [56, 54, 56], [56, 54, 57], [56, 55, 48], [56, 55, 49],
   [56, 55, 50], [56, 55, 51], [56, 55, 52], [56, 55, 53], [56, 55, 54], [56, 55, 55], [56, 55, 56], [56, 55, 57],
   [56, 56, 48], [56, 56, 49], [56, 56, 50], [56, 56, 51], [56, 56, 52], [56, 56, 53], [56, 56, 54], [56, 56, 55],
   [56, 56, 56], [56, 56, 57], [56, 57, 48], [56, 57, 49], [56, 57, 50], [56, 57, 51], [56, 57, 52], [56, 57, 53],
   [56, 57, 54], [56, 57, 55], [56, 57, 56], [56, 57, 57]
  ]"

definition uint_strs_9 :: "byte list list" where
  "uint_strs_9 = [
   [57, 48, 48], [57, 48, 49], [57, 48, 50], [57, 48, 51], [57, 48, 52], [57, 48, 53], [57, 48, 54], [57, 48, 55],
   [57, 48, 56], [57, 48, 57], [57, 49, 48], [57, 49, 49], [57, 49, 50], [57, 49, 51], [57, 49, 52], [57, 49, 53],
   [57, 49, 54], [57, 49, 55], [57, 49, 56], [57, 49, 57], [57, 50, 48], [57, 50, 49], [57, 50, 50], [57, 50, 51],
   [57, 50, 52], [57, 50, 53], [57, 50, 54], [57, 50, 55], [57, 50, 56], [57, 50, 57], [57, 51, 48], [57, 51, 49],
   [57, 51, 50], [57, 51, 51], [57, 51, 52], [57, 51, 53], [57, 51, 54], [57, 51, 55], [57, 51, 56], [57, 51, 57],
   [57, 52, 48], [57, 52, 49], [57, 52, 50], [57, 52, 51], [57, 52, 52], [57, 52, 53], [57, 52, 54], [57, 52, 55],
   [57, 52, 56], [57, 52, 57], [57, 53, 48], [57, 53, 49], [57, 53, 50], [57, 53, 51], [57, 53, 52], [57, 53, 53],
   [57, 53, 54], [57, 53, 55], [57, 53, 56], [57, 53, 57], [57, 54, 48], [57, 54, 49], [57, 54, 50], [57, 54, 51],
   [57, 54, 52], [57, 54, 53], [57, 54, 54], [57, 54, 55], [57, 54, 56], [57, 54, 57], [57, 55, 48], [57, 55, 49],
   [57, 55, 50], [57, 55, 51], [57, 55, 52], [57, 55, 53], [57, 55, 54], [57, 55, 55], [57, 55, 56], [57, 55, 57],
   [57, 56, 48], [57, 56, 49], [57, 56, 50], [57, 56, 51], [57, 56, 52], [57, 56, 53], [57, 56, 54], [57, 56, 55],
   [57, 56, 56], [57, 56, 57], [57, 57, 48], [57, 57, 49], [57, 57, 50], [57, 57, 51], [57, 57, 52], [57, 57, 53],
   [57, 57, 54], [57, 57, 55], [57, 57, 56], [57, 57, 57]
  ]"

definition gUint32Strs :: "byte list list" where
  "gUint32Strs = concat [uint_strs_0, uint_strs_1, uint_strs_2, uint_strs_3, uint_strs_4, uint_strs_5,
     uint_strs_6, uint_strs_7, uint_strs_8, uint_strs_9]"

text \<open>The digits \<open>%u\<close> prints.\<close>

fun dec :: "nat \<Rightarrow> byte list" where
  "dec n = (if n < 10 then [of_nat (48 + n)] else dec (n div 10) @ [of_nat (48 + n mod 10)])"

declare dec.simps [simp del]

text \<open>
  \<open>bson_uint32_to_string\<close> with a buffer of \<open>n\<close> bytes: the memory \<open>strptr\<close> points to and the
  return value. \<open>snprintf\<close> truncates the string to the buffer.
\<close>

definition bson_uint32_to_string :: "32 word \<Rightarrow> nat \<Rightarrow> (byte list \<times> nat) res" where
  "bson_uint32_to_string value n =
     (if unat value < 1000
      then Inr (gUint32Strs ! unat value @ [0],
                if unat value < 10 then 1 else if unat value < 100 then 2 else 3)
      else let s = dec (unat value) in
        Inr (take (n - 1) s @ [0], length s))"

section \<open>The table is the decimal numbers\<close>

lemma row_0: "uint_strs_0 = map dec [0..<100]"
  by (simp add: uint_strs_0_def upt_conv_Cons dec.simps)

lemma row_1: "uint_strs_1 = map dec [100..<200]"
  by (simp add: uint_strs_1_def upt_conv_Cons dec.simps)

lemma row_2: "uint_strs_2 = map dec [200..<300]"
  by (simp add: uint_strs_2_def upt_conv_Cons dec.simps)

lemma row_3: "uint_strs_3 = map dec [300..<400]"
  by (simp add: uint_strs_3_def upt_conv_Cons dec.simps)

lemma row_4: "uint_strs_4 = map dec [400..<500]"
  by (simp add: uint_strs_4_def upt_conv_Cons dec.simps)

lemma row_5: "uint_strs_5 = map dec [500..<600]"
  by (simp add: uint_strs_5_def upt_conv_Cons dec.simps)

lemma row_6: "uint_strs_6 = map dec [600..<700]"
  by (simp add: uint_strs_6_def upt_conv_Cons dec.simps)

lemma row_7: "uint_strs_7 = map dec [700..<800]"
  by (simp add: uint_strs_7_def upt_conv_Cons dec.simps)

lemma row_8: "uint_strs_8 = map dec [800..<900]"
  by (simp add: uint_strs_8_def upt_conv_Cons dec.simps)

lemma row_9: "uint_strs_9 = map dec [900..<1000]"
  by (simp add: uint_strs_9_def upt_conv_Cons dec.simps)

lemma upt_split: "i \<le> j \<Longrightarrow> j \<le> k \<Longrightarrow> [i..<j] @ [j..<k] = [i..<k]"
  by (metis le_Suc_ex upt_add_eq_append)

lemma gUint32Strs_dec: "gUint32Strs = map dec [0..<1000]"
proof -
  have "gUint32Strs = map dec ([0..<100] @ [100..<200] @ [200..<300] @ [300..<400] @ [400..<500]
      @ [500..<600] @ [600..<700] @ [700..<800] @ [800..<900] @ [900..<1000])"
    by (simp only: gUint32Strs_def row_0 row_1 row_2 row_3 row_4 row_5 row_6 row_7 row_8 row_9
        concat.simps map_append append_Nil2)
  also have "[0..<100] @ [100..<200] @ [200..<300] @ [300..<400] @ [400..<500]
      @ [500..<600] @ [600..<700] @ [700..<800] @ [800..<900] @ [900..<1000] = [0..<1000 :: nat]"
    by (simp only: upt_split numeral_le_iff semiring_norm le_num_simps zero_le)
  finally show ?thesis .
qed

text \<open>The decimal string of a number: its digits, no leading zero, no NUL.\<close>

lemma dec_nonempty [simp]: "dec n \<noteq> []"
  by (subst dec.simps) simp

lemma unat_digit: "n < 10 \<Longrightarrow> unat (of_nat (48 + n) :: byte) = 48 + n"
  by (simp only: unat_of_nat) simp

lemma dec_digits: "c \<in> set (dec n) \<Longrightarrow> 48 \<le> unat c \<and> unat c \<le> 57"
proof (induction n rule: dec.induct)
  case (1 n)
  show ?case
  proof (cases "n < 10")
    case True
    then have "c = of_nat (48 + n)" using "1.prems" by (simp add: dec.simps)
    then show ?thesis unfolding \<open>c = _\<close> unat_digit [OF True] using True by simp
  next
    case False
    then have "c \<in> set (dec (n div 10)) \<or> c = of_nat (48 + n mod 10)"
      using "1.prems" by (subst (asm) dec.simps) auto
    moreover have "n mod 10 < 10" by simp
    ultimately show ?thesis using "1.IH" False unat_digit [of "n mod 10"] by auto
  qed
qed

lemma zero_notin_dec [simp]: "0 \<notin> set (dec n)"
  using dec_digits [of 0 n] by auto

text \<open>The value of a digit string, and the round trip.\<close>

definition dec_value :: "byte list \<Rightarrow> nat" where
  "dec_value s = foldl (\<lambda>v c. 10 * v + (unat c - 48)) 0 s"

lemma dec_value_dec: "dec_value (dec n) = n"
proof (induction n rule: dec.induct)
  case (1 n)
  show ?case
  proof (cases "n < 10")
    case True
    then show ?thesis using unat_digit [of n] by (simp add: dec.simps dec_value_def)
  next
    case False
    have "n mod 10 < 10" by simp
    then have "unat (of_nat (48 + n mod 10) :: byte) = 48 + n mod 10" by (rule unat_digit)
    moreover have "dec_value (dec n) = 10 * dec_value (dec (n div 10)) + (unat (of_nat (48 + n mod 10) :: byte) - 48)"
      using False by (subst dec.simps) (simp add: dec_value_def)
    ultimately show ?thesis using 1 [OF False] by simp
  qed
qed

lemma dec_inject [simp]: "dec m = dec n \<longleftrightarrow> m = n"
  by (metis dec_value_dec)

lemma length_dec: "n < 10 ^ k \<Longrightarrow> 0 < k \<Longrightarrow> length (dec n) \<le> k"
proof (induction n arbitrary: k rule: dec.induct)
  case (1 n)
  show ?case
  proof (cases "n < 10")
    case True
    then show ?thesis using "1.prems" by (simp add: dec.simps)
  next
    case False
    then obtain j where k: "k = Suc j" "0 < j" using "1.prems" by (cases k; cases "k - 1") auto
    then have "n div 10 < 10 ^ j" using "1.prems" by (simp add: less_mult_imp_div_less mult.commute)
    then have "length (dec (n div 10)) \<le> j" using "1.IH" [OF False] k by blast
    then show ?thesis using False k by (subst dec.simps) simp
  qed
qed

lemma length_dec_small: "length (dec n) = (if n < 10 then 1 else if n < 100 then 2 else 3)" if "n < 1000"
proof -
  have "n div 10 div 10 < 10" "n div 10 < 10 \<longleftrightarrow> n < 100" "n < 10 \<Longrightarrow> n < 100" using that by auto
  then show ?thesis
    by (simp add: dec.simps [of n] dec.simps [of "n div 10"] dec.simps [of "n div 10 div 10"])
qed

lemma bson_uint32_to_string_dec:
  assumes "11 \<le> n"
  shows "bson_uint32_to_string v n = Inr (dec (unat v) @ [0], length (dec (unat v)))"
proof -
  have "unat v < 10 ^ 10" using unsigned_less [of v, where 'a = nat] by simp
  then have "length (dec (unat v)) \<le> n - 1" using length_dec [of "unat v" 10] assms by simp
  then show ?thesis
    by (auto simp: bson_uint32_to_string_def gUint32Strs_dec length_dec_small Let_def)
qed

end
