(* ===== verification/ArrayBuilder.thy ===== *)
theory ArrayBuilder
  imports ChildDoc CopyDoc BsonKeys
begin

text \<open>
  The array builder of \<open>bson.c\<close>: a document and the index of the next element. Every append
  prints the index as the key, by \<open>bson_uint32_to_string\<close> with a buffer of 16 bytes, and counts
  it up when the append succeeds. The lemmas show that the document is always an array: its keys
  are \<open>"0"\<close>, \<open>"1"\<close>, \<open>"2"\<close>, \<open>\<dots>\<close> in order.
\<close>

section \<open>The builder\<close>

record bab =
  bab_index :: "32 word"
  bab_bson :: bson_t

type_synonym bab_result = "(bool \<times> heap \<times> bab) res"

text \<open>\<open>bson_array_builder_new\<close>; \<open>c\<close> is the cell of the inline data of the new document.\<close>

definition bson_array_builder_new :: "heap \<Rightarrow> nat \<Rightarrow> (heap \<times> bab) res" where
  "bson_array_builder_new h c =
     bind_res (bson_init (h\<lparr>h_cell := (h_cell h)(c := replicate BSON_INLINE_DATA_SIZE 0)\<rparr>) c) (\<lambda>(h, b).
       Inr (h, \<lparr>bab_index = 0, bab_bson = b\<rparr>))"

text \<open>
  \<open>bson_array_builder_append_impl\<close>, for an append function with a further result (a child) and
  for one without.
\<close>

definition bab_append_out ::
    "(heap \<Rightarrow> bson_t \<Rightarrow> byte list \<Rightarrow> int \<Rightarrow> (bool \<times> heap \<times> bson_t \<times> 'a) res) \<Rightarrow> heap \<Rightarrow> bab
      \<Rightarrow> (bool \<times> heap \<times> bab \<times> 'a) res" where
  "bab_append_out append_fn h bab =
     bind_res (bson_uint32_to_string (bab_index bab) 16) (\<lambda>(key, key_length).
     bind_res (c_assert (key_length < 16)) (\<lambda>_.
     bind_res (append_fn h (bab_bson bab) key (int key_length)) (\<lambda>(ok, h, b, x).
       let index = (if ok then bab_index bab + 1 else bab_index bab) in
       Inr (ok, h, \<lparr>bab_index = index, bab_bson = b\<rparr>, x))))"

definition bab_append ::
    "(heap \<Rightarrow> bson_t \<Rightarrow> byte list \<Rightarrow> int \<Rightarrow> append_result) \<Rightarrow> heap \<Rightarrow> bab \<Rightarrow> bab_result" where
  "bab_append append_fn h bab =
     bind_res (bson_uint32_to_string (bab_index bab) 16) (\<lambda>(key, key_length).
     bind_res (c_assert (key_length < 16)) (\<lambda>_.
     bind_res (append_fn h (bab_bson bab) key (int key_length)) (\<lambda>(ok, h, b).
       let index = (if ok then bab_index bab + 1 else bab_index bab) in
       Inr (ok, h, \<lparr>bab_index = index, bab_bson = b\<rparr>))))"

section \<open>The appends\<close>

definition bson_array_builder_append_value :: "heap \<Rightarrow> bab \<Rightarrow> bson_value \<Rightarrow> bab_result" where
  "bson_array_builder_append_value h bab v = bab_append (\<lambda>h b key klen. bson_append_value h b key klen v) h bab"

definition bson_array_builder_append_array :: "heap \<Rightarrow> bab \<Rightarrow> byte list \<times> nat \<Rightarrow> bab_result" where
  "bson_array_builder_append_array h bab v = bab_append (\<lambda>h b key klen. bson_append_array h b key klen v) h bab"

definition bson_array_builder_append_bool :: "heap \<Rightarrow> bab \<Rightarrow> bool \<Rightarrow> bab_result" where
  "bson_array_builder_append_bool h bab v = bab_append (\<lambda>h b key klen. bson_append_bool h b key klen v) h bab"

definition bson_array_builder_append_code :: "heap \<Rightarrow> bab \<Rightarrow> byte list \<Rightarrow> bab_result" where
  "bson_array_builder_append_code h bab v = bab_append (\<lambda>h b key klen. bson_append_code h b key klen v) h bab"

definition bson_array_builder_append_double :: "heap \<Rightarrow> bab \<Rightarrow> 64 word \<Rightarrow> bab_result" where
  "bson_array_builder_append_double h bab v = bab_append (\<lambda>h b key klen. bson_append_double h b key klen v) h bab"

definition bson_array_builder_append_document :: "heap \<Rightarrow> bab \<Rightarrow> byte list \<times> nat \<Rightarrow> bab_result" where
  "bson_array_builder_append_document h bab v = bab_append (\<lambda>h b key klen. bson_append_document h b key klen v) h bab"

definition bson_array_builder_append_int32 :: "heap \<Rightarrow> bab \<Rightarrow> 32 word \<Rightarrow> bab_result" where
  "bson_array_builder_append_int32 h bab v = bab_append (\<lambda>h b key klen. bson_append_int32 h b key klen v) h bab"

definition bson_array_builder_append_int64 :: "heap \<Rightarrow> bab \<Rightarrow> 64 word \<Rightarrow> bab_result" where
  "bson_array_builder_append_int64 h bab v = bab_append (\<lambda>h b key klen. bson_append_int64 h b key klen v) h bab"

definition bson_array_builder_append_decimal128 :: "heap \<Rightarrow> bab \<Rightarrow> 64 word \<times> 64 word \<Rightarrow> bab_result" where
  "bson_array_builder_append_decimal128 h bab v = bab_append (\<lambda>h b key klen. bson_append_decimal128 h b key klen v) h bab"

definition bson_array_builder_append_iter :: "heap \<Rightarrow> bab \<Rightarrow> bson_iter \<Rightarrow> bab_result" where
  "bson_array_builder_append_iter h bab v = bab_append (\<lambda>h b key klen. bson_append_iter h b (Some key) klen v) h bab"

definition bson_array_builder_append_oid :: "heap \<Rightarrow> bab \<Rightarrow> byte list \<Rightarrow> bab_result" where
  "bson_array_builder_append_oid h bab v = bab_append (\<lambda>h b key klen. bson_append_oid h b key klen v) h bab"

definition bson_array_builder_append_time_t :: "heap \<Rightarrow> bab \<Rightarrow> 64 word \<Rightarrow> bab_result" where
  "bson_array_builder_append_time_t h bab v = bab_append (\<lambda>h b key klen. bson_append_time_t h b key klen v) h bab"

definition bson_array_builder_append_timeval :: "heap \<Rightarrow> bab \<Rightarrow> 64 word \<times> 64 word \<Rightarrow> bab_result" where
  "bson_array_builder_append_timeval h bab v = bab_append (\<lambda>h b key klen. bson_append_timeval h b key klen v) h bab"

definition bson_array_builder_append_date_time :: "heap \<Rightarrow> bab \<Rightarrow> 64 word \<Rightarrow> bab_result" where
  "bson_array_builder_append_date_time h bab v = bab_append (\<lambda>h b key klen. bson_append_date_time h b key klen v) h bab"

definition bson_array_builder_append_minkey :: "heap \<Rightarrow> bab \<Rightarrow> bab_result" where
  "bson_array_builder_append_minkey h bab = bab_append bson_append_minkey h bab"

definition bson_array_builder_append_maxkey :: "heap \<Rightarrow> bab \<Rightarrow> bab_result" where
  "bson_array_builder_append_maxkey h bab = bab_append bson_append_maxkey h bab"

definition bson_array_builder_append_null :: "heap \<Rightarrow> bab \<Rightarrow> bab_result" where
  "bson_array_builder_append_null h bab = bab_append bson_append_null h bab"

definition bson_array_builder_append_undefined :: "heap \<Rightarrow> bab \<Rightarrow> bab_result" where
  "bson_array_builder_append_undefined h bab = bab_append bson_append_undefined h bab"

definition bson_array_builder_append_binary ::
    "heap \<Rightarrow> bab \<Rightarrow> byte \<Rightarrow> byte list option \<Rightarrow> nat \<Rightarrow> bab_result" where
  "bson_array_builder_append_binary h bab subtype binary len =
     bab_append (\<lambda>h b key klen. bson_append_binary h b key klen subtype binary len) h bab"

definition bson_array_builder_append_code_with_scope ::
    "heap \<Rightarrow> bab \<Rightarrow> byte list \<Rightarrow> (byte list \<times> nat) option \<Rightarrow> bab_result" where
  "bson_array_builder_append_code_with_scope h bab javascript scope =
     bab_append (\<lambda>h b key klen. bson_append_code_with_scope h b key klen javascript scope) h bab"

definition bson_array_builder_append_dbpointer ::
    "heap \<Rightarrow> bab \<Rightarrow> byte list \<Rightarrow> byte list \<Rightarrow> bab_result" where
  "bson_array_builder_append_dbpointer h bab collection oid =
     bab_append (\<lambda>h b key klen. bson_append_dbpointer h b key klen collection oid) h bab"

definition bson_array_builder_append_regex ::
    "heap \<Rightarrow> bab \<Rightarrow> byte list option \<Rightarrow> byte list option \<Rightarrow> bab_result" where
  "bson_array_builder_append_regex h bab regex options =
     bab_append (\<lambda>h b key klen. bson_append_regex h b key klen regex options) h bab"

definition bson_array_builder_append_regex_w_len ::
    "heap \<Rightarrow> bab \<Rightarrow> byte list option \<Rightarrow> int \<Rightarrow> byte list option \<Rightarrow> bab_result" where
  "bson_array_builder_append_regex_w_len h bab regex regex_length options =
     bab_append (\<lambda>h b key klen. bson_append_regex_w_len h b key klen regex regex_length options) h bab"

definition bson_array_builder_append_utf8 ::
    "heap \<Rightarrow> bab \<Rightarrow> byte list option \<Rightarrow> int \<Rightarrow> bab_result" where
  "bson_array_builder_append_utf8 h bab v len =
     bab_append (\<lambda>h b key klen. bson_append_utf8 h b key klen v len) h bab"

definition bson_array_builder_append_symbol ::
    "heap \<Rightarrow> bab \<Rightarrow> byte list option \<Rightarrow> int \<Rightarrow> bab_result" where
  "bson_array_builder_append_symbol h bab v len =
     bab_append (\<lambda>h b key klen. bson_append_symbol h b key klen v len) h bab"

definition bson_array_builder_append_timestamp ::
    "heap \<Rightarrow> bab \<Rightarrow> 32 word \<Rightarrow> 32 word \<Rightarrow> bab_result" where
  "bson_array_builder_append_timestamp h bab timestamp increment =
     bab_append (\<lambda>h b key klen. bson_append_timestamp h b key klen timestamp increment) h bab"

text \<open>The time is the result of \<open>time\<close>, a parameter.\<close>

definition bson_append_now_utc :: "64 word \<Rightarrow> heap \<Rightarrow> bson_t \<Rightarrow> byte list \<Rightarrow> int \<Rightarrow> append_result" where
  "bson_append_now_utc now h b key klen =
     bind_res (c_assert (- 1 \<le> klen)) (\<lambda>_. bson_append_time_t h b key klen now)"

definition bson_array_builder_append_now_utc :: "64 word \<Rightarrow> heap \<Rightarrow> bab \<Rightarrow> bab_result" where
  "bson_array_builder_append_now_utc now h bab = bab_append (bson_append_now_utc now) h bab"

definition bson_array_builder_append_binary_uninit ::
    "heap \<Rightarrow> bab \<Rightarrow> byte \<Rightarrow> nat \<Rightarrow> (bool \<times> heap \<times> bab \<times> nat option) res" where
  "bson_array_builder_append_binary_uninit h bab subtype len =
     bab_append_out (\<lambda>h b key klen. bson_append_binary_uninit h b key klen subtype len) h bab"

section \<open>Nested builders\<close>

definition bson_array_builder_append_document_begin ::
    "heap \<Rightarrow> bab \<Rightarrow> (bool \<times> heap \<times> bab \<times> bson_t option) res" where
  "bson_array_builder_append_document_begin h bab = bab_append_out bson_append_document_begin h bab"

definition bson_array_builder_append_document_end :: "heap \<Rightarrow> bab \<Rightarrow> bson_t \<Rightarrow> bab_result" where
  "bson_array_builder_append_document_end h bab child =
     map_res (\<lambda>(ok, h, b). (ok, h, bab\<lparr>bab_bson := b\<rparr>)) (bson_append_document_end h (bab_bson bab) child)"

definition bson_append_array_unsafe_begin ::
    "heap \<Rightarrow> bson_t \<Rightarrow> byte list \<Rightarrow> int \<Rightarrow> (bool \<times> heap \<times> bson_t \<times> bson_t option) res" where
  "bson_append_array_unsafe_begin h b key klen = bson_append_bson_begin h b key klen BSON_TYPE_ARRAY"

text \<open>
  The builder of a nested array: the document that \<open>bson_array_builder_new\<close> made is overwritten
  by the child, so only its index, zero, is left of it.
\<close>

definition bson_append_array_builder_begin ::
    "heap \<Rightarrow> bson_t \<Rightarrow> byte list \<Rightarrow> int \<Rightarrow> (bool \<times> heap \<times> bson_t \<times> bab option) res" where
  "bson_append_array_builder_begin h b key klen =
     map_res (\<lambda>(ok, h, b, child). (ok, h, b, map_option (\<lambda>c. \<lparr>bab_index = 0, bab_bson = c\<rparr>) child))
       (bson_append_array_unsafe_begin h b key klen)"

definition bson_append_array_builder_end :: "heap \<Rightarrow> bson_t \<Rightarrow> bab \<Rightarrow> (bool \<times> heap \<times> bson_t) res" where
  "bson_append_array_builder_end h b child = bson_append_array_end h b (bab_bson child)"

definition bson_array_builder_append_array_builder_begin ::
    "heap \<Rightarrow> bab \<Rightarrow> (bool \<times> heap \<times> bab \<times> bab option) res" where
  "bson_array_builder_append_array_builder_begin h bab = bab_append_out bson_append_array_builder_begin h bab"

definition bson_array_builder_append_array_builder_end :: "heap \<Rightarrow> bab \<Rightarrow> bab \<Rightarrow> bab_result" where
  "bson_array_builder_append_array_builder_end h bab child =
     map_res (\<lambda>(ok, h, b). (ok, h, bab\<lparr>bab_bson := b\<rparr>))
       (bson_append_array_builder_end h (bab_bson bab) child)"

section \<open>Taking the array\<close>

text \<open>
  \<open>bson_steal\<close>: \<open>c\<close> is the cell of the inline data of \<open>dst\<close>. A document with its own buffer
  hands the buffer over; stealing from one whose buffer belongs to somebody else (a writer, a caller
  of \<open>bson_new_from_buffer\<close>) would leave \<open>dst\<close> without data and is a fault of the model. The source
  is left with length zero, or freed when it was allocated.
\<close>

definition bson_steal :: "heap \<Rightarrow> nat \<Rightarrow> bson_t \<Rightarrow> (bool \<times> heap \<times> bson_t \<times> bson_t) res" where
  "bson_steal h c src =
     bind_res (bson_init h c) (\<lambda>(h, dst).
       if BSON_FLAG_CHILD \<in> b_flags src \<or> BSON_FLAG_IN_CHILD \<in> b_flags src \<or> BSON_FLAG_RDONLY \<in> b_flags src
       then Inr (False, h, dst, src)
       else if BSON_FLAG_INLINE_DATA \<in> b_flags src then
         bind_res (wr_range h c 0 (h_cell h (b_cell src))) (\<lambda>h.
           Inr (True, h, dst\<lparr>b_len := b_len src\<rparr>, src\<lparr>b_len := 0\<rparr>))
       else bind_res (c_assert (\<not> b_indirect src)) (\<lambda>_.
         Inr (True, h, src\<lparr>b_flags := insert BSON_FLAG_NO_FREE_OBJECT (b_flags src)\<rparr>,
              if BSON_FLAG_NO_FREE_OBJECT \<in> b_flags src then src\<lparr>b_len := 0\<rparr> else src)))"

text \<open>
  \<open>bson_array_builder_build\<close>: \<open>c\<close> is the cell of the inline data of \<open>out\<close>, \<open>own\<close> that of the
  document in the builder, which starts anew.
\<close>

definition bson_array_builder_build ::
    "heap \<Rightarrow> nat \<Rightarrow> nat \<Rightarrow> bab \<Rightarrow> (bool \<times> heap \<times> bson_t \<times> bab) res" where
  "bson_array_builder_build h c own bab =
     bind_res (bson_steal h c (bab_bson bab)) (\<lambda>(ok, h, out, src).
       if \<not> ok then Inr (False, h, out, bab\<lparr>bab_bson := src\<rparr>)
       else bind_res (bson_init h own) (\<lambda>(h, b).
         Inr (True, h, out, \<lparr>bab_index = 0, bab_bson = b\<rparr>)))"

section \<open>The document is an array\<close>

definition array_elements :: "(bson_type \<times> byte list) list \<Rightarrow> element list" where
  "array_elements es = map (\<lambda>(i, t, p). (t, dec i, p)) (enumerate 0 es)"

abbreviation array_body :: "(bson_type \<times> byte list) list \<Rightarrow> byte list" where
  "array_body es \<equiv> concat (map enc (array_elements es))"

definition bab_holds :: "heap \<Rightarrow> bab \<Rightarrow> (bson_type \<times> byte list) list \<Rightarrow> bool" where
  "bab_holds h bab es \<longleftrightarrow>
     holds h (bab_bson bab) (array_body es) \<and> bab_index bab = of_nat (length es)"

lemma array_elements_Nil [simp]: "array_elements [] = []"
  by (simp add: array_elements_def)

lemma array_elements_snoc: "array_elements (es @ [(t, p)]) = array_elements es @ [(t, dec (length es), p)]"
  by (simp add: array_elements_def enumerate_append_eq)

lemma array_body_snoc: "array_body (es @ [(t, p)]) = array_body es @ elem_bytes t (dec (length es)) p"
  by (simp add: array_elements_snoc enc_def)

lemma array_elements_keys: "map (fst \<circ> snd) (array_elements es) = map dec [0..<length es]"
  by (induction es rule: rev_induct) (auto simp: array_elements_snoc)

text \<open>The index cannot wrap: every element takes bytes of the document.\<close>

lemma length_array_body: "length es \<le> length (array_body es)"
  by (induction es rule: rev_induct) (auto simp: array_body_snoc)

lemma bab_holds_index:
  assumes "bab_holds h bab es"
  shows "unat (bab_index bab) = length es"
proof -
  have "length es < 2 ^ 32"
    using assms length_array_body [of es] by (simp add: bab_holds_def holds_def BSON_MAX_SIZE_def)
  then show ?thesis using assms by (simp add: bab_holds_def unat_of_nat)
qed

lemma key_arg_dec: "n < 2 ^ 32 \<Longrightarrow> key_arg (dec n @ [0]) (int (length (dec n))) (dec n)"
  using length_dec [of n 10] by (intro key_arg_len) (simp_all add: UINT32_MAX_def)

lemma bab_key:
  assumes "bab_holds h bab es"
  shows "bson_uint32_to_string (bab_index bab) 16 = Inr (dec (length es) @ [0], length (dec (length es)))"
    and "length (dec (length es)) < 16"
    and "key_arg (dec (length es) @ [0]) (int (length (dec (length es)))) (dec (length es))"
proof -
  note i = bab_holds_index [OF assms]
  then have small: "length es < 2 ^ 32" using unsigned_less [of "bab_index bab", where 'a = nat] by simp
  show "bson_uint32_to_string (bab_index bab) 16 = Inr (dec (length es) @ [0], length (dec (length es)))"
    by (simp add: bson_uint32_to_string_dec i)
  show "length (dec (length es)) < 16" using small length_dec [of "length es" 10] by simp
  show "key_arg (dec (length es) @ [0]) (int (length (dec (length es)))) (dec (length es))"
    using small by (rule key_arg_dec)
qed

lemma bab_append_eq:
  assumes "bab_holds h bab es"
  shows "bab_append f h bab
    = bind_res (f h (bab_bson bab) (dec (length es) @ [0]) (int (length (dec (length es))))) (\<lambda>(ok, h, b).
        Inr (ok, h, \<lparr>bab_index = (if ok then of_nat (length es) + 1 else of_nat (length es)), bab_bson = b\<rparr>))"
  using bab_key(1,2) [OF assms] assms by (simp add: bab_append_def bab_holds_def cong: if_cong)

definition bab_appended ::
    "heap \<Rightarrow> bab \<Rightarrow> (bson_type \<times> byte list) list \<Rightarrow> bson_type \<times> byte list \<Rightarrow> bab_result \<Rightarrow> bool" where
  "bab_appended h bab es e r \<longleftrightarrow>
     (\<exists>ok h' bab'. r = Inr (ok, h', bab')
        \<and> ok = can_append h (bab_bson bab) (length (dec (length es)) + length (snd e) + 2)
        \<and> (if ok then bab_holds h' bab' (es @ [e]) \<and> frame (data_offset (bab_bson bab)) h (bab_bson bab) h' (bab_bson bab')
           else h' = h \<and> bab' = bab))"

context appender
begin

text \<open>An append through the builder adds the next element of the array or changes nothing.\<close>

lemma builder_append:
  assumes "bab_holds h bab es"
  shows "bab_appended h bab es (t, payload) (bab_append app h bab)"
proof -
  let ?k = "dec (length es)"
  have "appended h (bab_bson bab) (array_body es) (elem_bytes t ?k payload)
      (app h (bab_bson bab) (?k @ [0]) (int (length ?k)))"
    using assms bab_key(3) [OF assms] by (intro app) (simp_all add: bab_holds_def)
  then show ?thesis
  proof (rule appendedE)
    fix h' b' assume r: "app h (bab_bson bab) (?k @ [0]) (int (length ?k)) = Inr (True, h', b')"
      "can_append h (bab_bson bab) (length (elem_bytes t ?k payload))"
      "holds h' b' (array_body es @ elem_bytes t ?k payload)" "frame (data_offset (bab_bson bab)) h (bab_bson bab) h' b'"
    then show ?thesis unfolding bab_appended_def bab_append_eq [OF assms]
      by (intro exI [of _ True]) (simp add: bab_holds_def array_body_snoc add.commute)
  next
    assume "app h (bab_bson bab) (?k @ [0]) (int (length ?k)) = Inr (False, h, bab_bson bab)"
      "\<not> can_append h (bab_bson bab) (length (elem_bytes t ?k payload))"
    then show ?thesis using assms unfolding bab_appended_def bab_append_eq [OF assms]
      by (intro exI [of _ False]) (simp add: bab_holds_def add.commute)
  qed
qed

end

section \<open>Stealing and building\<close>

lemma holds_cong: "h_cell h' (b_cell b) = h_cell h (b_cell b) \<Longrightarrow> holds h' b body = holds h b body"
  by (simp add: holds_def storage_ok_def bson_data_def)

lemma bson_steal_ok:
  assumes "holds h src body" and "length (h_cell h c) = BSON_INLINE_DATA_SIZE" and "c \<noteq> b_cell src"
    and "b_flags src \<inter> {BSON_FLAG_CHILD, BSON_FLAG_IN_CHILD, BSON_FLAG_RDONLY} = {}"
    and "BSON_FLAG_INLINE_DATA \<notin> b_flags src \<Longrightarrow> \<not> b_indirect src"
  shows "\<exists>h' dst src'. bson_steal h c src = Inr (True, h', dst, src') \<and> holds h' dst body
    \<and> (BSON_FLAG_INLINE_DATA \<in> b_flags dst \<longleftrightarrow> BSON_FLAG_INLINE_DATA \<in> b_flags src)
    \<and> b_cell dst = (if BSON_FLAG_INLINE_DATA \<in> b_flags src then c else b_cell src)
    \<and> (\<forall>d. d \<noteq> c \<longrightarrow> h_cell h' d = h_cell h d)"
proof -
  obtain h1 b1 where init: "bson_init h c = Inr (h1, b1)" "holds h1 b1 []"
      "\<forall>d. d \<noteq> c \<longrightarrow> h_cell h1 d = h_cell h d" "length (h_cell h1 c) = BSON_INLINE_DATA_SIZE"
      "b_flags b1 = {BSON_FLAG_INLINE_DATA, BSON_FLAG_NO_FREE_OBJECT}" "b_cell b1 = c"
    using bson_init_holds [OF assms(2)] by blast
  have cell: "h_cell h1 (b_cell src) = h_cell h (b_cell src)" using init(3) assms(3) by simp
  show ?thesis
  proof (cases "BSON_FLAG_INLINE_DATA \<in> b_flags src")
    case True
    have src: "length (h_cell h (b_cell src)) = BSON_INLINE_DATA_SIZE" "b_len src \<le> BSON_INLINE_DATA_SIZE"
        "b_len src = length body + 5" "b_len src \<le> BSON_MAX_SIZE" "take (b_len src) (h_cell h (b_cell src)) = doc_bytes body"
      using assms(1) True by (auto simp: holds_def storage_ok_def bson_data_def)
    let ?h2 = "h1\<lparr>h_cell := (h_cell h1)(c := h_cell h (b_cell src))\<rparr>"
    have "wr_range h1 c 0 (h_cell h1 (b_cell src)) = Inr ?h2"
      using cell init(4) src(1) by (simp add: wr_range_def)
    then have eval: "bson_steal h c src = Inr (True, ?h2, b1\<lparr>b_len := b_len src\<rparr>, src\<lparr>b_len := 0\<rparr>)"
      using True assms(4) init(1) by (auto simp: bson_steal_def)
    have "holds ?h2 (b1\<lparr>b_len := b_len src\<rparr>) body"
      using src init(5,6) unfolding holds_def storage_ok_def bson_data_def by simp
    then show ?thesis using eval True init assms(4) by auto
  next
    case False
    let ?dst = "src\<lparr>b_flags := insert BSON_FLAG_NO_FREE_OBJECT (b_flags src)\<rparr>"
    have eval: "\<exists>src'. bson_steal h c src = Inr (True, h1, ?dst, src')"
      using False assms(4,5) init(1) by (auto simp: bson_steal_def)
    have "holds h1 ?dst body"
      using assms(1) False cell by (simp add: holds_flags holds_cong [of h1 src h])
    then show ?thesis using eval False init(3) by auto
  qed
qed

text \<open>The result of a build is the array; the builder holds the empty array again.\<close>

lemma bson_array_builder_build_ok:
  assumes "bab_holds h bab es" and "length (h_cell h c) = BSON_INLINE_DATA_SIZE" and "c \<noteq> b_cell (bab_bson bab)"
    and "b_flags (bab_bson bab) \<inter> {BSON_FLAG_CHILD, BSON_FLAG_IN_CHILD, BSON_FLAG_RDONLY} = {}"
    and "BSON_FLAG_INLINE_DATA \<notin> b_flags (bab_bson bab) \<Longrightarrow> \<not> b_indirect (bab_bson bab)"
    and "length (h_cell h own) = BSON_INLINE_DATA_SIZE" and "own \<noteq> c"
    and "own = b_cell (bab_bson bab) \<Longrightarrow> BSON_FLAG_INLINE_DATA \<in> b_flags (bab_bson bab)"
  shows "\<exists>h' out bab'. bson_array_builder_build h c own bab = Inr (True, h', out, bab')
    \<and> holds h' out (array_body es) \<and> bab_holds h' bab' []"
proof -
  obtain h1 out src where steal: "bson_steal h c (bab_bson bab) = Inr (True, h1, out, src)"
      "holds h1 out (array_body es)"
      "b_cell out = (if BSON_FLAG_INLINE_DATA \<in> b_flags (bab_bson bab) then c else b_cell (bab_bson bab))"
      "\<forall>d. d \<noteq> c \<longrightarrow> h_cell h1 d = h_cell h d"
    using bson_steal_ok [of h "bab_bson bab" "array_body es" c] assms(1-5)
    by (auto simp: bab_holds_def)
  have own: "length (h_cell h1 own) = BSON_INLINE_DATA_SIZE" "b_cell out \<noteq> own"
    using assms(6-8) steal(3,4) by (auto split: if_splits)
  obtain h2 b2 where init: "bson_init h1 own = Inr (h2, b2)" "holds h2 b2 []"
      "\<forall>d. d \<noteq> own \<longrightarrow> h_cell h2 d = h_cell h1 d"
    using bson_init_holds [OF own(1)] by blast
  have "holds h2 out (array_body es)"
    using steal(2) init(3) own(2) by (simp add: holds_cong [of h2 out h1])
  then show ?thesis using steal(1) init
    by (simp add: bson_array_builder_build_def bab_holds_def)
qed

section \<open>Histories of a builder\<close>

text \<open>
  One successful append through the builder, with the type and the payload of the element; the
  arguments that point to memory must be what their function documents.
\<close>

inductive bab_step :: "heap \<times> bab \<Rightarrow> bson_type \<times> byte list \<Rightarrow> heap \<times> bab \<Rightarrow> bool" where
  step_int32: "bson_array_builder_append_int32 h bab v = Inr (True, h', bab')
    \<Longrightarrow> bab_step (h, bab) (BSON_TYPE_INT32, mlib_write_u32le v) (h', bab')"
| step_int64: "bson_array_builder_append_int64 h bab w = Inr (True, h', bab')
    \<Longrightarrow> bab_step (h, bab) (BSON_TYPE_INT64, mlib_write_u64le w) (h', bab')"
| step_double: "bson_array_builder_append_double h bab w = Inr (True, h', bab')
    \<Longrightarrow> bab_step (h, bab) (BSON_TYPE_DOUBLE, mlib_write_u64le w) (h', bab')"
| step_date_time: "bson_array_builder_append_date_time h bab w = Inr (True, h', bab')
    \<Longrightarrow> bab_step (h, bab) (BSON_TYPE_DATE_TIME, mlib_write_u64le w) (h', bab')"
| step_bool: "bson_array_builder_append_bool h bab x = Inr (True, h', bab')
    \<Longrightarrow> bab_step (h, bab) (BSON_TYPE_BOOL, [if x then 1 else 0]) (h', bab')"
| step_null: "bson_array_builder_append_null h bab = Inr (True, h', bab')
    \<Longrightarrow> bab_step (h, bab) (BSON_TYPE_NULL, []) (h', bab')"
| step_undefined: "bson_array_builder_append_undefined h bab = Inr (True, h', bab')
    \<Longrightarrow> bab_step (h, bab) (BSON_TYPE_UNDEFINED, []) (h', bab')"
| step_minkey: "bson_array_builder_append_minkey h bab = Inr (True, h', bab')
    \<Longrightarrow> bab_step (h, bab) (BSON_TYPE_MINKEY, []) (h', bab')"
| step_maxkey: "bson_array_builder_append_maxkey h bab = Inr (True, h', bab')
    \<Longrightarrow> bab_step (h, bab) (BSON_TYPE_MAXKEY, []) (h', bab')"
| step_timestamp: "bson_array_builder_append_timestamp h bab v i = Inr (True, h', bab')
    \<Longrightarrow> bab_step (h, bab) (BSON_TYPE_TIMESTAMP, mlib_write_u64le (push_bit 32 (ucast v) OR ucast i)) (h', bab')"
| step_decimal128: "bson_array_builder_append_decimal128 h bab (w, z) = Inr (True, h', bab')
    \<Longrightarrow> bab_step (h, bab) (BSON_TYPE_DECIMAL128, mlib_write_u64le w @ mlib_write_u64le z) (h', bab')"
| step_oid: "length m = 12 \<Longrightarrow> bson_array_builder_append_oid h bab m = Inr (True, h', bab')
    \<Longrightarrow> bab_step (h, bab) (BSON_TYPE_OID, m) (h', bab')"
| step_utf8: "str_arg m len s \<Longrightarrow> bson_array_builder_append_utf8 h bab (Some m) len = Inr (True, h', bab')
    \<Longrightarrow> bab_step (h, bab) (BSON_TYPE_UTF8, string_bytes s) (h', bab')"
| step_symbol: "str_arg m len s \<Longrightarrow> bson_array_builder_append_symbol h bab (Some m) len = Inr (True, h', bab')
    \<Longrightarrow> bab_step (h, bab) (BSON_TYPE_SYMBOL, string_bytes s) (h', bab')"
| step_document: "n \<le> length m \<Longrightarrow> n \<le> UINT32_MAX \<Longrightarrow> document_payload (take n m)
    \<Longrightarrow> bson_array_builder_append_document h bab (m, n) = Inr (True, h', bab')
    \<Longrightarrow> bab_step (h, bab) (BSON_TYPE_DOCUMENT, take n m) (h', bab')"

inductive_cases bab_stepE: "bab_step (h, bab) e (h', bab')"

inductive bab_run :: "heap \<times> bab \<Rightarrow> (bson_type \<times> byte list) list \<Rightarrow> heap \<times> bab \<Rightarrow> bool" where
  run_Nil: "bab_run s [] s"
| run_snoc: "bab_run s es s' \<Longrightarrow> bab_step s' e s'' \<Longrightarrow> bab_run s (es @ [e]) s''"

lemmas array_builder_defs = bson_array_builder_append_int32_def bson_array_builder_append_int64_def
  bson_array_builder_append_double_def bson_array_builder_append_date_time_def
  bson_array_builder_append_bool_def bson_array_builder_append_null_def
  bson_array_builder_append_undefined_def bson_array_builder_append_minkey_def
  bson_array_builder_append_maxkey_def bson_array_builder_append_timestamp_def
  bson_array_builder_append_decimal128_def bson_array_builder_append_oid_def
  bson_array_builder_append_utf8_def bson_array_builder_append_symbol_def
  bson_array_builder_append_document_def

lemmas builder_appends = i32.builder_append i64.builder_append dbl.builder_append date.builder_append
  bool.builder_append null.builder_append undef.builder_append minkey.builder_append
  maxkey.builder_append ts.builder_append dec.builder_append
  oid_appender [THEN appender.builder_append, rotated] utf8_appender [THEN appender.builder_append, rotated]
  symbol_appender [THEN appender.builder_append, rotated] document_appender [THEN appender.builder_append, rotated 2]

lemma string_bytes_payload:
  assumes "length s < UINT32_MAX"
  shows "string_payload (string_bytes s)"
proof -
  have "(of_nat (length s) + 1 :: 32 word) = of_nat (Suc (length s))" by simp
  then have "unat (of_nat (length s) + 1 :: 32 word) = Suc (length s)"
    using assms by (simp only: unat_of_nat) (simp add: UINT32_MAX_def take_bit_nat_eq_self_iff)
  then show ?thesis by (simp add: string_payload_def string_bytes_def u32_at_def)
qed

lemma bab_appended_True:
  assumes "bab_appended h bab es e (Inr (True, h', bab'))"
  shows "bab_holds h' bab' (es @ [e])" "frame (data_offset (bab_bson bab)) h (bab_bson bab) h' (bab_bson bab')"
  using assms by (auto simp: bab_appended_def)

lemma bab_appended_eqI:
  "bab_append f h bab = r \<Longrightarrow> bab_appended h bab es e (bab_append f h bab) \<Longrightarrow> bab_appended h bab es e r"
  by simp

lemma bab_step_appended:
  assumes "bab_step (h, bab) e (h', bab')" and "bab_holds h bab es"
  shows "bab_appended h bab es e (Inr (True, h', bab'))"
  using assms(1)
  apply (rule bab_stepE; unfold array_builder_defs; hypsubst)
  apply (erule bab_appended_eqI, rule builder_appends [OF assms(2)], (assumption+)?)+
  done

lemma bab_step_payload:
  assumes "bab_step (h, bab) e (h', bab')"
  shows "payload_ok (fst e) (snd e)"
  using assms
  by (rule bab_stepE) (auto simp: str_arg_def UINT32_MAX_def intro!: string_bytes_payload)

lemma frame_trans:
  assumes "frame (data_offset b) h b h1 b1" and "frame (data_offset b1) h1 b1 h2 b2"
  shows "frame (data_offset b) h b h2 b2"
proof -
  have "data_offset b1 = data_offset b" using assms(1) by (simp add: frame_def)
  then show ?thesis using assms unfolding frame_def by auto
qed

text \<open>Whatever was appended, the builder holds an array of well-formed values.\<close>

lemma bab_run_holds:
  assumes "bab_run s es s'" and "bab_holds (fst s) (snd s) []"
  shows "bab_holds (fst s') (snd s') es \<and> (\<forall>(t, p)\<in>set es. payload_ok t p)
    \<and> frame (data_offset (bab_bson (snd s))) (fst s) (bab_bson (snd s)) (fst s') (bab_bson (snd s'))"
  using assms
proof (induction rule: bab_run.induct)
  case (run_Nil s)
  then show ?case by (auto simp: frame_def)
next
  case (run_snoc s es s' e s'')
  obtain h' bab' h'' bab'' where s: "s' = (h', bab')" "s'' = (h'', bab'')" by (cases s', cases s'')
  from bab_step_appended [of h' bab' e h'' bab'' es] run_snoc s
  have "bab_appended h' bab' es e (Inr (True, h'', bab''))" by simp
  note new = bab_appended_True [OF this]
  have "frame (data_offset (bab_bson (snd s))) (fst s) (bab_bson (snd s)) h'' (bab_bson bab'')"
    using run_snoc new(2) s by (intro frame_trans [OF _ new(2)]) simp
  then show ?case
    using new(1) bab_step_payload [of h' bab' e h'' bab''] run_snoc s by auto
qed

lemma array_elements_ok: "\<forall>(t, p)\<in>set es. payload_ok t p \<Longrightarrow> \<forall>e\<in>set (array_elements es). elem_ok e"
  by (induction es rule: rev_induct) (auto simp: array_elements_snoc elem_ok_def)

end
