(* ===== verification/DocOps.thy ===== *)
theory DocOps
  imports CopyDoc
begin

text \<open>
  Operations on whole documents: \<open>bson_concat\<close> appends the elements of a document,
  \<open>bson_copy_to_excluding_noinit\<close> copies the elements whose key is not excluded, in order,
  \<open>bson_count_keys\<close> counts, \<open>bson_compare\<close> orders.
\<close>

section \<open>Concatenation\<close>

lemma bson_concat_spec:
  assumes "holds h b body" and "doc_bytes src = take n data" and "n = length src + 5" and "n \<le> length data"
    and "n \<le> BSON_MAX_SIZE"
  shows "if src = [] \<or> src ! 0 = 0 then bson_concat h b data n = Inr (True, h, b)
    else appended h b body src (bson_concat h b data n)"
proof -
  have "data = doc_bytes src @ drop n data" by (simp add: assms(2))
  then have data: "data = mlib_write_u32le (of_nat (length src + 5)) @ src @ [0] @ drop n data"
    by (simp add: doc_bytes_def)
  have d4: "drop 4 data = src @ 0 # drop n data" by (subst data) simp
  have "4 < length data" using assms by simp
  then have "data ! 4 = (src @ 0 # drop n data) ! 0" using nth_drop [of 4 data 0] by (simp add: d4)
  then have e: "bson_empty data n = Inr (src = [] \<or> src ! 0 = 0)"
    using assms \<open>4 < length data\<close> by (auto simp: bson_empty_def nth_append)
  have sub: "sub32 n 5 = length src" using assms by (simp add: BSON_MAX_SIZE_def)
  have "appended h b body (concat [src]) (append_ops h b [Arg (Some (drop 4 data)) (length src)])"
    using assms by (intro append_ops_spec) (auto simp: d4 BSON_MAX_SIZE_def UINT32_MAX_def)
  then show ?thesis by (simp add: bson_concat_def e sub)
qed

section \<open>Counting\<close>

lemma count_keys_loop_ok:
  assumes "iter_ok it" and "rounds it < f" and "c + rounds it \<le> INT_MAX"
  shows "count_keys_loop f it c = Inr (c + length (elements it))"
  using assms
proof (induction arbitrary: f c rule: iter_induct)
  case (stop it it')
  then obtain f' where "f = Suc f'" by (cases f) auto
  with stop show ?case by (simp add: elements_stop)
next
  case (step it it' data t)
  then obtain f' where f: "f = Suc f'" by (cases f) auto
  have "c < 2147483648" using step by (simp add: INT_MAX_def)
  with step f show ?case by (simp add: elements_step)
qed

lemma bson_count_keys_ok:
  assumes "n \<le> length data" and "5 \<le> n" and "n \<le> INT_MAX"
  shows "bson_count_keys data n = Inr (length (elements (iter_start data n)))"
  using assms count_keys_loop_ok [OF iter_ok_start [OF assms(1,3)], of "Suc n" 0]
  by (simp add: bson_count_keys_def bson_iter_init_def rounds_def iter_start_def iter_zero_def)

section \<open>Copying without some keys\<close>

lemma c_strcmp_eq_ok:
  assumes "0 \<notin> set a" and "0 \<notin> set b"
  shows "c_strcmp_eq (a @ 0 # r) (b @ 0 # s) = Inr (a = b)"
  using assms
proof (induction a arbitrary: b)
  case Nil
  then show ?case by (cases b) auto
next
  case (Cons x a)
  then show ?case by (cases b) auto
qed

lemma should_ignore_ok:
  assumes "0 \<notin> set k" and "\<forall>x\<in>set names. 0 \<notin> set x"
  shows "should_ignore (map (\<lambda>x. x @ [0]) names) (k @ 0 # r) = Inr (k \<in> set names)"
  using assms by (induction names) (auto simp: c_strcmp_eq_ok)

text \<open>The bytes of the element an iterator stands on, as an append writes them.\<close>

definition elem_at :: "byte list \<Rightarrow> bson_iter \<Rightarrow> byte list" where
  "elem_at data e = data ! it_off e # elem_key data e @ 0 # payload_of data e"

definition copyable_at :: "byte list \<Rightarrow> bson_iter \<Rightarrow> bool" where
  "copyable_at data e \<longleftrightarrow> (case bson_type_of (data ! it_off e) of
      None \<Rightarrow> False | Some t \<Rightarrow> copyable t (payload_of data e))"

lemma elem_at_elem_bytes:
  "on_element data t e \<Longrightarrow> elem_at data e = elem_bytes t (elem_key data e) (payload_of data e)"
  by (simp add: elem_at_def elem_bytes_def on_element_def)

lemma copyable_at_type: "on_element data t e \<Longrightarrow> copyable_at data e = copyable t (payload_of data e)"
  by (simp add: copyable_at_def on_element_def)

lemma frame_growable: "frame k h b h' b' \<Longrightarrow> growable b \<Longrightarrow> growable b'"
  by (simp add: frame_def)

definition kept :: "byte list \<Rightarrow> byte list list \<Rightarrow> bson_iter list \<Rightarrow> bson_iter list" where
  "kept data names es = filter (\<lambda>e. elem_key data e \<notin> set names) es"

lemma copy_excluding_loop_ok:
  assumes "iter_ok it" and "it_raw it = Some data" and "rounds it < f"
    and "\<forall>x\<in>set names. 0 \<notin> set x" and "holds h b body" and "growable b"
    and "\<forall>e\<in>set (kept data names (elements it)). copyable_at data e"
    and "length body + 5 + length (concat (map (elem_at data) (kept data names (elements it)))) \<le> BSON_MAX_SIZE"
  shows "\<exists>h' b'. copy_excluding_loop f h b (map (\<lambda>x. x @ [0]) names) it = Inr (h', b')
    \<and> holds h' b' (body @ concat (map (elem_at data) (kept data names (elements it)))) \<and> growable b'"
  using assms
proof (induction arbitrary: f h b body rule: iter_induct)
  case (stop it it')
  then obtain f' where "f = Suc f'" by (cases f) auto
  with stop show ?case by (simp add: elements_stop kept_def)
next
  case (step it it' data' t)
  then obtain f' where f: "f = Suc f'" by (cases f) auto
  have raw: "it_raw it' = Some data" and [simp]: "data' = data"
    using step by (auto dest: on_elementD(1))
  have el: "on_element data t it'" using step by simp
  note key = on_element_key [OF el]
  have els: "elements it = it' # elements it'" using step by (intro elements_step) auto
  have ign: "should_ignore (map (\<lambda>x. x @ [0]) names) (drop (it_key it') data)
      = Inr (elem_key data it' \<in> set names)"
    unfolding key(3) using key(4) step.prems(3) by (rule should_ignore_ok)
  show ?case
  proof (cases "elem_key data it' \<in> set names")
    case True
    then have "kept data names (elements it) = kept data names (elements it')"
      by (simp add: els kept_def)
    with True step f raw ign key(2) show ?thesis by simp
  next
    case False
    then have kept: "kept data names (elements it) = it' # kept data names (elements it')"
      by (simp add: els kept_def)
    have c: "copyable t (payload_of data it')"
      using step.prems(6) copyable_at_type [OF el] by (simp add: kept)
    have fits: "b_len b + length (elem_at data it') \<le> BSON_MAX_SIZE"
      using step.prems(4,7) by (simp add: kept holds_def)
    then have can: "can_append h b (length (elem_at data it'))"
      using can_append_growable [OF step.prems(4,5)] by simp
    from append_iter_same_key [OF el c step.prems(4)] can obtain h1 b1 where
      app: "bson_append_iter h b None 0 it' = Inr (True, h1, b1)" "holds h1 b1 (body @ elem_at data it')"
        "growable b1"
      unfolding elem_at_elem_bytes [OF el, symmetric]
      by (auto elim!: appendedE intro: frame_growable [OF _ step.prems(5)])
    have "\<exists>h' b'. copy_excluding_loop f' h1 b1 (map (\<lambda>x. x @ [0]) names) it' = Inr (h', b')
      \<and> holds h' b' ((body @ elem_at data it') @ concat (map (elem_at data) (kept data names (elements it'))))
      \<and> growable b'"
      using step f raw app kept by (intro step.IH) auto
    with f step.hyps app(1) ign False key(2) kept show ?thesis by simp
  qed
qed

lemma bson_copy_excluding_ok:
  assumes "n \<le> length data" and "5 \<le> n" and "n \<le> INT_MAX"
    and "\<forall>x\<in>set names. 0 \<notin> set x" and "holds h b body" and "growable b"
    and "es = kept data names (elements (iter_start data n))" and "\<forall>e\<in>set es. copyable_at data e"
    and "length body + 5 + length (concat (map (elem_at data) es)) \<le> BSON_MAX_SIZE"
  shows "\<exists>h' b'. bson_copy_to_excluding_noinit h data n b (map (\<lambda>x. x @ [0]) names) = Inr (h', b')
    \<and> holds h' b' (body @ concat (map (elem_at data) es)) \<and> growable b'"
proof -
  have raw: "it_raw (iter_start data n) = Some data" by (simp add: iter_start_def)
  have r: "rounds (iter_start data n) < Suc n" by (simp add: rounds_def iter_start_def iter_zero_def)
  from copy_excluding_loop_ok [OF iter_ok_start [OF assms(1,3)] raw r assms(4-6)] assms(2,7-9)
  show ?thesis by (simp add: bson_copy_to_excluding_noinit_def bson_iter_init_def)
qed

section \<open>Comparison\<close>

text \<open>The order of the bytes after the length header: memory order of the common prefix, then length.\<close>

lemma bson_compare_ok:
  assumes "5 \<le> n" and "n \<le> length a" and "n \<le> INT_MAX" and "5 \<le> m" and "m \<le> length b" and "m \<le> INT_MAX"
  shows "bson_compare a n b m = Inr (let l = min n m - 4;
      c = memcmp_sgn (take l (drop 4 a)) (take l (drop 4 b)) in
      if c \<noteq> 0 then c else sgn (int n - int m))"
proof -
  have sub: "sub32 n 4 = n - 4" "sub32 m 4 = m - 4" using assms by (simp_all add: INT_MAX_def)
  have l: "min (n - 4) (m - 4) = min n m - 4" by (simp add: min_def)
  have cmp: "c_memcmp (drop 4 a) (drop 4 b) k = Inr (memcmp_sgn (take k (drop 4 a)) (take k (drop 4 b)))"
    if "k \<le> n - 4" "k \<le> m - 4" for k
    using that assms by (simp add: c_memcmp_def)
  show ?thesis
  proof (cases "n = m")
    case True
    then show ?thesis
      using cmp [of "n - 4"] by (simp add: bson_compare_def Let_def sub)
  next
    case False
    let ?c = "memcmp_sgn (take (min n m - 4) (drop 4 a)) (take (min n m - 4) (drop 4 b))"
    have eq: "bson_compare a n b m = Inr (let ret = (if ?c = 0 then int (n - 4) - int (m - 4) else ?c) in
        if ret < 0 then - 1 else if ret > 0 then 1 else 0)"
    proof -
      have "n - 4 \<noteq> m - 4" using False assms by arith
      then show ?thesis
        unfolding bson_compare_def Let_def sub l
        by (subst cmp) (simp_all del: min_less_iff_conj)
    qed
    consider "?c = 0" | "?c = 1" | "?c = - 1"
      using memcmp_sgn_range [of "take (min n m - 4) (drop 4 a)" "take (min n m - 4) (drop 4 b)"] by auto
    then show ?thesis
      unfolding eq using False assms by cases (simp_all add: Let_def sgn_if)
  qed
qed

lemma bson_equal_ok:
  assumes "5 \<le> n" and "n \<le> length a" and "n \<le> INT_MAX" and "5 \<le> m" and "m \<le> length b" and "m \<le> INT_MAX"
  shows "bson_equal a n b m = Inr (take (n - 4) (drop 4 a) = take (m - 4) (drop 4 b))"
proof (cases "n = m")
  case True
  then have "length (take (n - 4) (drop 4 a)) = length (take (m - 4) (drop 4 b))" using assms by simp
  from memcmp_sgn_eq_0 [OF this] True show ?thesis
    unfolding bson_equal_def bson_compare_ok [OF assms] by (simp add: Let_def)
next
  case False
  then have "length (take (n - 4) (drop 4 a)) \<noteq> length (take (m - 4) (drop 4 b))" using assms by simp
  then have "take (n - 4) (drop 4 a) \<noteq> take (m - 4) (drop 4 b)" by metis
  moreover have "sgn (int n - int m) \<noteq> 0" using False by (simp add: sgn_if)
  ultimately show ?thesis
    unfolding bson_equal_def bson_compare_ok [OF assms] by (simp add: Let_def)
qed

end
