(* ===== verification/IterProps.thy ===== *)
theory IterProps
  imports DocNest BsonCodec
begin

text \<open>
  The properties of the iterator: memory safety and progress of a step, what the constructors
  accept, the values of elements, the searches, the descent, and decoding of encoded documents.
  The witnesses run on two small documents.
\<close>

text \<open>The documents \<open>{"a": 1}\<close> and \<open>{"a": {"b": true}}\<close>.\<close>

definition sample_doc :: "byte list" where
  "sample_doc = [12, 0, 0, 0, 0x10, 0x61, 0, 1, 0, 0, 0, 0]"

definition nested_doc :: "byte list" where
  "nested_doc = [17, 0, 0, 0, 3, 0x61, 0, 9, 0, 0, 0, 8, 0x62, 0, 1, 0, 0]"

lemma length_samples [simp]: "length sample_doc = 12" "length nested_doc = 17"
  by (simp_all add: sample_doc_def nested_doc_def)

lemma sample_ok: "iter_ok (iter_start sample_doc 12)" "iter_ok (iter_start nested_doc 17)"
  by (simp_all add: iter_ok_start INT_MAX_def)

lemma raw_iter_start [simp]: "it_raw (iter_start data n) = Some data" "it_len (iter_start data n) = n"
  by (simp_all add: iter_start_def)

lemma scan_nul_numeral:
  "scan_nul (numeral f) m n i =
     (if i < n then
        bind_res (rd8 m i) (\<lambda>b. if b = 0 then Inr (Some i) else scan_nul (pred_numeral f) m n (Suc i))
      else Inr None)"
  by (simp add: numeral_eq_Suc)

section \<open>Properties\<close>

text \<open>C1: A step of the iterator on any bytes, however corrupt, reads only inside the buffer and
  returns. It either ends the iteration for good, or moves strictly forward to an element whose
  type, key and data lie before the end of the buffer and are well formed.\<close>

theorem iter_next_safe:
  assumes "iter_ok it"
  shows "\<exists>ok it' out'. bson_iter_next_internal it 0 out = Inr (ok, it', out') \<and> iter_ok it'
    \<and> (if ok then \<exists>data t. it_raw it = Some data \<and> on_element data t it' \<and> out_type out' = type_byte t
            \<and> it_off it' = it_next_off it \<and> it_next_off it < it_next_off it' \<and> it_next_off it' < it_len it
       else it_raw it' = None)"
proof -
  from next_internal_cases [OF assms, of out] show ?thesis
  proof (elim exE disjE)
    fix it' out'
    assume "bson_iter_next_internal it 0 out = Inr (False, it', out') \<and> it_raw it' = None"
    then show ?thesis by (intro exI [of _ False] exI [of _ it'] exI [of _ out']) (simp add: iter_ok_def)
  next
    fix it' out'
    assume "bson_iter_next_internal it 0 out = Inr (True, it', out') \<and> (\<exists>data t. it_raw it = Some data
      \<and> on_element data t it' \<and> it_len it' = it_len it \<and> it_off it' = it_next_off it
      \<and> it_next_off it < it_next_off it' \<and> out_type out' = type_byte t
      \<and> out_key out' = Some (drop (it_key it') data))"
    then obtain data t where *: "bson_iter_next_internal it 0 out = Inr (True, it', out')"
      "it_raw it = Some data" "on_element data t it'" "it_len it' = it_len it" "it_off it' = it_next_off it"
      "it_next_off it < it_next_off it'" "out_type out' = type_byte t" by auto
    from on_element_iter_ok [OF *(3)] on_elementD(7) [OF *(3)] * show ?thesis by auto
  qed
qed

theorem iter_next_safe_witness:
  "iter_ok (iter_start sample_doc 12) \<and>
   (\<exists>ok it' out'. bson_iter_next_internal (iter_start sample_doc 12) 0 out_zero = Inr (ok, it', out') \<and> iter_ok it')"
  using iter_next_safe [OF sample_ok(1), of out_zero] sample_ok(1) by blast

text \<open>\<open>bson_iter_init_from_data\<close> accepts exactly the buffers of 5 to \<open>INT_MAX\<close> bytes
  whose header holds their length and whose last byte is NUL; it never reads outside.\<close>

theorem iter_init_from_data_iff:
  assumes "n \<le> length data"
  shows "\<exists>ok it. bson_iter_init_from_data data n = Inr (ok, it)
    \<and> ok = (5 \<le> n \<and> n \<le> INT_MAX \<and> u32_at data 0 = n \<and> data ! (n - 1) = 0)
    \<and> it = (if ok then iter_start data n else iter_zero)"
proof (cases "5 \<le> n \<and> n \<le> INT_MAX")
  case True
  then have "mlib_read_u32le data 0 = Inr (le_word (take 4 data))" using assms by simp
  moreover have "n - 1 < length data" using True assms by arith
  ultimately show ?thesis using True by (simp add: bson_iter_init_from_data_def u32_at_def)
next
  case False
  then show ?thesis by (auto simp: bson_iter_init_from_data_def)
qed

theorem iter_init_from_data_iff_witness:
  "bson_iter_init_from_data sample_doc 12 = Inr (True, iter_start sample_doc 12)"
proof -
  have "u32_at sample_doc 0 = 12" "sample_doc ! 11 = 0"
    by (simp_all add: u32_at_def le_word_def sample_doc_def)
  then show ?thesis using iter_init_from_data_iff [of 12 sample_doc] by (auto simp: INT_MAX_def)
qed

text \<open>C3: After a step that returned true, \<open>bson_iter_value\<close> gives a value, reading only inside
  the buffer; its strings and documents with their lengths lie inside the buffer too.\<close>

theorem iter_value_safe:
  assumes "iter_ok it" and "bson_iter_next it = Inr (True, it')"
  shows "\<exists>v. bson_iter_value it' = Inr (Some v) \<and> value_ok v"
proof -
  from bson_iter_next_cases [OF assms(1)] assms(2) obtain data t where "on_element data t it'"
    by auto
  then show ?thesis by (rule bson_iter_value_ok)
qed

lemma sample_next:
  "bson_iter_next (iter_start sample_doc 12) = Inr (True,
     \<lparr>it_raw = Some sample_doc, it_len = 12, it_off = 4, it_type = 4, it_key = 5, it_d1 = 7, it_d2 = 0,
      it_d3 = 0, it_d4 = 0, it_next_off = 11, it_err_off = 0\<rparr>)"
  by (simp add: bson_iter_next_def bson_iter_next_internal_def iter_start_def iter_zero_def iter_advance_def
      Let_def key_end_def sample_doc_def scan_nul_numeral fill_field_def bson_type_of_def all_types_def
      type_byte.simps fixed_field_def)

theorem iter_value_safe_witness:
  "\<exists>v. bson_iter_value \<lparr>it_raw = Some sample_doc, it_len = 12, it_off = 4, it_type = 4, it_key = 5,
      it_d1 = 7, it_d2 = 0, it_d3 = 0, it_d4 = 0, it_next_off = 11, it_err_off = 0\<rparr> = Inr (Some v)
    \<and> value_ok v"
  by (rule iter_value_safe [OF sample_ok(1) sample_next])

text \<open>C4: Iterating stops after finitely many steps: the elements of a buffer of \<open>len\<close> bytes come
  at strictly increasing offsets, and there are at most \<open>(len - 4) / 2\<close> of them.\<close>

lemma elements_offsets:
  assumes "iter_ok it"
  shows "sorted_wrt (<) (map it_off (elements it)) \<and> (\<forall>e\<in>set (elements it). it_next_off it \<le> it_off e)
    \<and> 2 * length (elements it) \<le> it_len it - it_next_off it"
  using assms
proof (induction rule: iter_induct)
  case (stop it it')
  then show ?case by (simp add: elements_stop)
next
  case (step it it' data t)
  from bson_iter_next_cases [OF step.hyps(1)] step.hyps(2)
  have off: "it_off it' = it_next_off it" by auto
  have fwd: "it_next_off it + 2 \<le> it_next_off it'" "it_next_off it' < it_len it"
    using step.hyps(4,5) off by (auto simp: on_element_def)
  have els: "elements it = it' # elements it'" using step.hyps by (intro elements_step)
  show ?case unfolding els using step fwd off by fastforce
qed

theorem iter_terminates:
  assumes "iter_ok it"
  shows "sorted_wrt (<) (map it_off (elements it))
    \<and> 2 * length (elements it) \<le> it_len it - it_next_off it"
  using elements_offsets [OF assms] by blast

theorem iter_terminates_witness:
  "sorted_wrt (<) (map it_off (elements (iter_start nested_doc 17)))
   \<and> 2 * length (elements (iter_start nested_doc 17)) \<le> 17 - 4"
  using iter_terminates [OF sample_ok(2)] by (simp add: iter_start_def iter_zero_def)

text \<open>\<open>bson_iter_init_find\<close> returns the first element whose key equals the given key, byte for
  byte, and false exactly when there is none.\<close>

theorem init_find_first:
  assumes "5 \<le> n" and "n \<le> length data" and "n \<le> INT_MAX" and "0 \<notin> set k"
  shows "found_first (\<lambda>e. elem_key data e = k) (elements (iter_start data n))
    (bson_iter_init_find data n (k @ 0 # kr))"
  using bson_iter_find_first [OF iter_ok_start [OF assms(2,3)] _ assms(4), of data kr] assms(1)
  by (simp add: bson_iter_init_find_def bson_iter_init_def)

theorem init_find_first_witness:
  "found_first (\<lambda>e. elem_key sample_doc e = [0x61]) (elements (iter_start sample_doc 12))
    (bson_iter_init_find sample_doc 12 [0x61, 0])"
  using init_find_first [of 12 sample_doc "[0x61]" "[]"] by (simp add: INT_MAX_def)

text \<open>\<open>bson_iter_init_find_case\<close> returns the first element whose key equals the given key up
  to ASCII letter case.\<close>

theorem init_find_case_first:
  assumes "5 \<le> n" and "n \<le> length data" and "n \<le> INT_MAX" and "0 \<notin> set k"
  shows "found_first (\<lambda>e. map c_tolower k = map c_tolower (elem_key data e)) (elements (iter_start data n))
    (bson_iter_init_find_case data n (k @ 0 # kr))"
  using bson_iter_find_case_first [OF iter_ok_start [OF assms(2,3)] _ assms(4), of data kr] assms(1)
  by (simp add: bson_iter_init_find_case_def bson_iter_init_def)

theorem init_find_case_first_witness:
  "found_first (\<lambda>e. map c_tolower [0x41] = map c_tolower (elem_key sample_doc e))
    (elements (iter_start sample_doc 12)) (bson_iter_init_find_case sample_doc 12 [0x41, 0])"
  using init_find_case_first [of 12 sample_doc "[0x41]" "[]"] by (simp add: INT_MAX_def)

text \<open>C7: \<open>bson_iter_find_descendant\<close> terminates on every dotted key and every buffer without a
  read outside it; where it succeeds, it stands on an element with the last part of the key.\<close>

theorem find_descendant_safe:
  assumes "iter_ok it" and "it_raw it = Some data" and "0 \<notin> set k"
  shows "\<exists>r. bson_iter_find_descendant it k = Inr r \<and> (case r of None \<Rightarrow> True
     | Some d \<Rightarrow> \<exists>data' t. on_element data' t d \<and> elem_key data' d = last_part k)"
  by (rule find_descendant_ok [OF assms])

theorem find_descendant_safe_witness:
  "\<exists>r. bson_iter_find_descendant (iter_start nested_doc 17) [0x61, 0x2E, 0x62] = Inr r
    \<and> (case r of None \<Rightarrow> True
       | Some d \<Rightarrow> \<exists>data' t. on_element data' t d \<and> elem_key data' d = [0x62])"
proof -
  have last: "last_part [0x61, 0x2E, 0x62] = [0x62]" by (simp add: last_part_def dot_def)
  have "0 \<notin> set [0x61 :: byte, 0x2E, 0x62]" by simp
  from find_descendant_safe [OF sample_ok(2) raw_iter_start(1) this] show ?thesis
    unfolding last .
qed

text \<open>C8: Decoding inverts encoding: for every list of well-formed elements, the document of their
  encodings is accepted by \<open>bson_iter_init_from_data\<close>, and iterating over it yields exactly the
  list, types, keys and payloads, whatever follows the document in memory.\<close>

theorem iter_decodes_doc:
  assumes "\<forall>e\<in>set es. elem_ok e" and "length (doc_of es) \<le> INT_MAX"
  shows "bson_iter_init_from_data (doc_of es @ rest) (length (doc_of es))
      = Inr (True, iter_start (doc_of es @ rest) (length (doc_of es)))
    \<and> map (decode (doc_of es @ rest)) (elements (iter_start (doc_of es @ rest) (length (doc_of es))))
      = map (\<lambda>(t, k, p). (type_byte t, k, p)) es"
  using elements_doc_of [OF assms] init_from_data_doc_of [OF assms(2)] by blast

theorem iter_decodes_doc_witness:
  "map (decode (doc_of [(BSON_TYPE_INT32, [0x61], [1, 0, 0, 0])]))
     (elements (iter_start (doc_of [(BSON_TYPE_INT32, [0x61], [1, 0, 0, 0])]) 12))
   = [(0x10, [0x61], [1, 0, 0, 0])]"
  using iter_decodes_doc [of "[(BSON_TYPE_INT32, [0x61], [1, 0, 0, 0])]" "[]"]
  by (simp add: elem_ok_def doc_of_def enc_def INT_MAX_def type_byte.simps)

end
