(* ===== verification/BuildProps.thy ===== *)
theory BuildProps
  imports DocOps IterProps
begin

text \<open>
  The properties of documents under construction: growth of the storage, the effect of the append
  functions, copies of elements and of documents, comparison, and the round trip from an append
  to a search. The witnesses build on an empty inline document.
\<close>

section \<open>An empty document\<close>

definition h0 :: heap where
  "h0 = \<lparr>h_cell = (\<lambda>_. empty_doc @ replicate 115 0), h_junk = (\<lambda>_. 0)\<rparr>"

definition b0 :: bson_t where
  "b0 = \<lparr>b_flags = {BSON_FLAG_INLINE_DATA, BSON_FLAG_NO_FREE_OBJECT}, b_len = 5, b_depth = 0,
     b_indirect = False, b_cell = 0, b_offset = 0, b_realloc = False\<rparr>"

lemma holds_0: "holds h0 b0 []" "growable b0"
proof -
  note e = empty_doc_bytes
  show "holds h0 b0 []" "growable b0"
    by (simp_all add: h0_def b0_def holds_def storage_ok_def bson_data_def growable_def BSON_MAX_SIZE_def
        BSON_INLINE_DATA_SIZE_def e)
qed

lemma can_append_0: "5 + n \<le> BSON_MAX_SIZE \<Longrightarrow> can_append h0 b0 n"
  using can_append_growable [OF holds_0] by (simp add: b0_def)

lemma key_arg_a: "key_arg [0x61, 0] (- 1) [0x61]"
  by (simp add: key_arg_def UINT32_MAX_def c_str_def)

section \<open>Appending, then searching\<close>

lemma holds_data:
  assumes "holds h b (concat (map enc es))"
  shows "\<exists>rest. bson_data h b = doc_of es @ rest" and "b_len b = length (doc_of es)"
    and "length (doc_of es) \<le> INT_MAX"
proof -
  have *: "take (b_len b) (bson_data h b) = doc_of es" "b_len b = length (doc_of es)" "b_len b \<le> BSON_MAX_SIZE"
    using assms unfolding holds_def doc_of_def length_doc_bytes by blast+
  have "bson_data h b = take (b_len b) (bson_data h b) @ drop (b_len b) (bson_data h b)" by simp
  then show "\<exists>rest. bson_data h b = doc_of es @ rest" by (metis *(1))
  show "b_len b = length (doc_of es)" "length (doc_of es) \<le> INT_MAX"
    using * by (simp_all add: BSON_MAX_SIZE_def INT_MAX_def)
qed

lemma find_last_element:
  assumes "holds h b (concat (map enc (es @ [(t, k, p)])))" and ok: "\<forall>e\<in>set (es @ [(t, k, p)]). elem_ok e"
    and fresh: "k \<notin> (fst \<circ> snd) ` set es"
  shows "\<exists>it. bson_iter_init_find (bson_data h b) (b_len b) (k @ [0]) = Inr (True, it)
    \<and> on_element (bson_data h b) t it \<and> payload_of (bson_data h b) it = p"
proof -
  let ?es = "es @ [(t, k, p)]"
  obtain rest where data: "bson_data h b = doc_of ?es @ rest" using holds_data(1) [OF assms(1)] ..
  note len = holds_data(2,3) [OF assms(1)]
  let ?d = "doc_of ?es @ rest" let ?n = "length (doc_of ?es)"
  let ?it = "iter_start ?d ?n"
  have iok: "iter_ok ?it" using len by (intro iter_ok_start) simp_all
  have dec: "map (decode ?d) (elements ?it) = map (\<lambda>(t, k, p). (type_byte t, k, p)) es @ [(type_byte t, k, p)]"
    using elements_doc_of [OF ok len(2), of rest] by simp
  then obtain L e where L: "elements ?it = L @ [e]" "decode ?d e = (type_byte t, k, p)"
    and Ls: "map (decode ?d) L = map (\<lambda>(t, k, p). (type_byte t, k, p)) es"
    by (auto simp: map_eq_append_conv)
  have "elem_key ?d x \<noteq> k" if "x \<in> set L" for x
  proof -
    have "decode ?d x \<in> set (map (decode ?d) L)" using that by simp
    then have "decode ?d x \<in> (\<lambda>(t, k, p). (type_byte t, k, p)) ` set es" unfolding Ls by simp
    then have "elem_key ?d x \<in> (fst \<circ> snd) ` set es"
      by (force simp: decode_def image_iff)
    then show ?thesis using fresh by metis
  qed
  moreover have "elem_key ?d e = k" using L(2) by (simp add: decode_def)
  ultimately have find: "List.find (\<lambda>e. elem_key ?d e = k) (elements ?it) = Some e"
    unfolding L(1) by (induction L) auto
  have "0 \<notin> set k" using ok by (auto simp: elem_ok_def)
  then have "bson_iter_find ?it (k @ [0]) = Inr (True, e)"
    using bson_iter_find_first [OF iok raw_iter_start(1), of k "[]"] find by (simp add: found_first_def)
  moreover have "5 \<le> ?n" by (simp add: doc_of_def)
  ultimately have "bson_iter_init_find ?d ?n (k @ [0]) = Inr (True, e)"
    by (simp add: bson_iter_init_find_def bson_iter_init_def)
  moreover obtain t' where el: "on_element ?d t' e"
    using elements_on_element [OF iok raw_iter_start(1)] L(1) by auto
  moreover have "t' = t" using el L(2) by (simp add: on_element_def decode_def)
  moreover have "payload_of ?d e = p" using L(2) by (simp add: decode_def payload_of_def)
  ultimately show ?thesis unfolding data len(1) by auto
qed

section \<open>Properties\<close>

text \<open>\<open>bson_next_power_of_two\<close> is the least power of two that is at least its argument, for
  arguments from 1 to \<open>2 ^ 63\<close>; on the 64-bit word the bit smearing does not overflow.\<close>

theorem next_power_of_two_least:
  assumes "0 < unat v" and "unat v \<le> 2 ^ 63"
  shows "\<exists>m\<le>63. unat (bson_next_power_of_two v) = 2 ^ m \<and> unat v \<le> 2 ^ m
    \<and> (\<forall>n. unat v \<le> 2 ^ n \<longrightarrow> m \<le> n)"
  by (rule next_power_of_two_spec [OF assms])

theorem next_power_of_two_least_witness:
  "\<exists>m\<le>63. unat (bson_next_power_of_two 129) = 2 ^ m \<and> (129 :: nat) \<le> 2 ^ m"
  using next_power_of_two_least [of 129] by auto

text \<open>C10: \<open>_bson_grow\<close> on a document that holds its bytes either makes room for \<open>n\<close> more bytes,
  keeping every byte up to the end of the document and every other storage, or reports failure and
  changes nothing; it fails exactly when the size would exceed \<open>BSON_MAX_SIZE\<close> or the
  storage cannot be reallocated.\<close>

theorem grow_makes_room:
  assumes "holds h b body" and "n \<le> BSON_MAX_SIZE"
  shows "\<exists>h' b'. bson_grow h b n = Inr (can_grow h b n, h', b')
    \<and> (if can_grow h b n
        then frame (data_offset b + b_len b) h b h' b' \<and> room h' b' n \<and> b_len b' = b_len b
        else h' = h \<and> b' = b)"
  by (rule bson_grow_spec [OF assms])

theorem grow_makes_room_witness:
  "\<exists>h' b'. bson_grow h0 b0 200 = Inr (True, h', b') \<and> room h' b' 200"
proof -
  have "can_grow h0 b0 200" using can_append_0 [of 200] by (simp add: can_append_def BSON_MAX_SIZE_def)
  then show ?thesis
    using grow_makes_room [OF holds_0(1), of 200] by (auto simp: BSON_MAX_SIZE_def)
qed

text \<open>C11: Appending the argument list of any append function is all or nothing: the body of the
  document is extended by exactly the bytes of the arguments, header and final NUL updated and
  nothing else in memory touched before the document, or the document and the memory are
  unchanged; it fails exactly when the size would exceed \<open>BSON_MAX_SIZE\<close> or the storage cannot
  grow.\<close>

theorem append_all_or_nothing:
  assumes "holds h b body" and "list_all2 (\<lambda>op bs. op_bytes op = Some bs) ops bss"
    and "\<forall>bs\<in>set bss. length bs \<le> UINT32_MAX"
  shows "\<exists>h' b'. append_ops h b ops = Inr (can_append h b (length (concat bss)), h', b')
    \<and> (if can_append h b (length (concat bss))
        then holds h' b' (body @ concat bss) \<and> frame (data_offset b) h b h' b'
        else h' = h \<and> b' = b)"
  using append_ops_spec [OF assms] by (simp add: appended_def)

theorem append_all_or_nothing_witness:
  "\<exists>h' b'. append_ops h0 b0 [Arg (Some [8, 9]) 1, Str [0x61, 0] (- 1)] = Inr (True, h', b') \<and> holds h' b' [8, 0x61]"
  using append_all_or_nothing [OF holds_0(1), of "[Arg (Some [8, 9]) 1, Str [0x61, 0] (- 1)]" "[[8], [0x61]]"]
  by (auto simp: UINT32_MAX_def BSON_MAX_SIZE_def c_str_def can_append_0)

text \<open>\<open>bson_append_utf8\<close> with a key and a string appends the element with that key and the
  length-prefixed, NUL-terminated bytes of the string, or changes nothing.\<close>

theorem append_utf8_element:
  assumes "holds h b body" and "key_arg key klen k" and "str_arg m len s"
  shows "appended h b body (elem_bytes BSON_TYPE_UTF8 k (string_bytes s))
    (bson_append_utf8 h b key klen (Some m) len)"
  by (rule appender.app [OF utf8_appender [OF assms(3)] assms(1,2)])

theorem append_utf8_element_witness:
  "\<exists>h' b'. bson_append_utf8 h0 b0 [0x61, 0] (- 1) (Some [0x78, 0]) (- 1) = Inr (True, h', b')
    \<and> holds h' b' (elem_bytes BSON_TYPE_UTF8 [0x61] (string_bytes [0x78]))"
proof -
  have "str_arg [0x78, 0] (- 1) [0x78]" by (simp add: str_arg_def c_str_def UINT32_MAX_def)
  from append_utf8_element [OF holds_0(1) key_arg_a this] show ?thesis
    using can_append_0 [of "length (elem_bytes BSON_TYPE_UTF8 [0x61] (string_bytes [0x78]))"]
    by (auto elim!: appendedE simp: BSON_MAX_SIZE_def string_bytes_def)
qed

text \<open>\<open>bson_append_iter\<close> copies the element an iterator stands on byte for byte, under its own
  key, for every element the append functions can write.\<close>

theorem append_iter_copies:
  assumes "on_element data t it" and "copyable t (payload_of data it)" and "holds h b body"
  shows "appended h b body (elem_bytes t (elem_key data it) (payload_of data it))
    (bson_append_iter h b None 0 it)"
  by (rule append_iter_same_key [OF assms])

lemma sample_on_element:
  "on_element sample_doc BSON_TYPE_INT32
     \<lparr>it_raw = Some sample_doc, it_len = 12, it_off = 4, it_type = 4, it_key = 5, it_d1 = 7, it_d2 = 0,
      it_d3 = 0, it_d4 = 0, it_next_off = 11, it_err_off = 0\<rparr>"
proof -
  let ?it = "\<lparr>it_raw = Some sample_doc, it_len = 12, it_off = 4, it_type = 4, it_key = 5, it_d1 = 7,
      it_d2 = 0, it_d3 = 0, it_d4 = 0, it_next_off = 11, it_err_off = 0\<rparr>"
  from bson_iter_next_cases [OF sample_ok(1)] sample_next obtain t where el: "on_element sample_doc t ?it"
    by auto
  then have "type_byte t = sample_doc ! 4" by (simp add: on_element_def)
  also have "\<dots> = type_byte BSON_TYPE_INT32" by (simp add: sample_doc_def type_byte.simps)
  finally show ?thesis using el by simp
qed

lemma sample_elements:
  "elements (iter_start sample_doc 12) = [\<lparr>it_raw = Some sample_doc, it_len = 12, it_off = 4, it_type = 4,
      it_key = 5, it_d1 = 7, it_d2 = 0, it_d3 = 0, it_d4 = 0, it_next_off = 11, it_err_off = 0\<rparr>]"
proof -
  let ?it = "\<lparr>it_raw = Some sample_doc, it_len = 12, it_off = 4, it_type = 4, it_key = 5, it_d1 = 7,
      it_d2 = 0, it_d3 = 0, it_d4 = 0, it_next_off = 11, it_err_off = 0\<rparr>"
  obtain it' where "bson_iter_next ?it = Inr (False, it')"
    using next_at_end [of ?it sample_doc] by (auto simp: INT_MAX_def)
  then have "elements ?it = []" by (rule elements_stop)
  moreover have "elements (iter_start sample_doc 12) = ?it # elements ?it"
    by (rule elements_step [OF sample_ok(1) sample_next sample_on_element])
      (simp_all add: rounds_def iter_start_def iter_zero_def)
  ultimately show ?thesis by simp
qed

theorem append_iter_copies_witness:
  "\<exists>h' b'. bson_append_iter h0 b0 None 0
     \<lparr>it_raw = Some sample_doc, it_len = 12, it_off = 4, it_type = 4, it_key = 5, it_d1 = 7, it_d2 = 0,
      it_d3 = 0, it_d4 = 0, it_next_off = 11, it_err_off = 0\<rparr> = Inr (True, h', b')"
proof -
  let ?it = "\<lparr>it_raw = Some sample_doc, it_len = 12, it_off = 4, it_type = 4, it_key = 5, it_d1 = 7,
      it_d2 = 0, it_d3 = 0, it_d4 = 0, it_next_off = 11, it_err_off = 0\<rparr>"
  have "elem_key sample_doc ?it = [0x61]" "payload_of sample_doc ?it = [1, 0, 0, 0]"
    by (simp_all add: elem_key_def payload_of_def sample_doc_def c_str_def)
  then show ?thesis
    using append_iter_copies [OF sample_on_element _ holds_0(1)]
    by (auto elim!: appendedE simp: BSON_MAX_SIZE_def can_append_0)
qed

text \<open>\<open>bson_copy_to_excluding_noinit\<close> appends to a growable document exactly the elements of the
  source whose key is none of the excluded names, byte for byte and in order, and never hits its
  assertion, when the elements can be copied and the result fits.\<close>

theorem copy_excluding_filters:
  assumes "n \<le> length data" and "5 \<le> n" and "n \<le> INT_MAX"
    and "\<forall>x\<in>set names. 0 \<notin> set x" and "holds h b body" and "growable b"
    and "es = filter (\<lambda>e. elem_key data e \<notin> set names) (elements (iter_start data n))"
    and "\<forall>e\<in>set es. copyable_at data e"
    and "length body + 5 + length (concat (map (elem_at data) es)) \<le> BSON_MAX_SIZE"
  shows "\<exists>h' b'. bson_copy_to_excluding_noinit h data n b (map (\<lambda>x. x @ [0]) names) = Inr (h', b')
    \<and> holds h' b' (body @ concat (map (elem_at data) es))"
  using bson_copy_excluding_ok [OF assms(1-6), of es] assms(7-9) by (auto simp: kept_def)

theorem copy_excluding_filters_witness:
  "\<exists>h' b'. bson_copy_to_excluding_noinit h0 sample_doc 12 b0 [[0x61, 0]] = Inr (h', b') \<and> holds h' b' []"
proof -
  have "filter (\<lambda>e. elem_key sample_doc e \<notin> set [[0x61]]) (elements (iter_start sample_doc 12)) = []"
    unfolding sample_elements by (simp add: elem_key_def sample_doc_def c_str_def)
  then show ?thesis
    using copy_excluding_filters [OF _ _ _ _ holds_0, of 12 sample_doc "[[0x61]]" "[]"]
    by (simp add: INT_MAX_def BSON_MAX_SIZE_def)
qed

text \<open>\<open>bson_concat\<close> appends the elements of the source document as they are; it does nothing
  when the source is empty.\<close>

theorem concat_appends:
  assumes "holds h b body" and "doc_bytes src = take n data" and "n = length src + 5" and "n \<le> length data"
    and "n \<le> BSON_MAX_SIZE"
  shows "if src = [] \<or> src ! 0 = 0 then bson_concat h b data n = Inr (True, h, b)
    else appended h b body src (bson_concat h b data n)"
  by (rule bson_concat_spec [OF assms])

theorem concat_appends_witness:
  "bson_concat h0 b0 (doc_bytes []) 5 = Inr (True, h0, b0)"
  using concat_appends [OF holds_0(1), of "[]" 5 "doc_bytes []"] by (simp add: BSON_MAX_SIZE_def)

text \<open>\<open>bson_equal\<close> on valid buffers says exactly whether the bytes after the two length headers
  are the same, without reading past either document.\<close>

theorem equal_iff_same_bytes:
  assumes "5 \<le> n" and "n \<le> length a" and "n \<le> INT_MAX" and "5 \<le> m" and "m \<le> length b" and "m \<le> INT_MAX"
  shows "bson_equal a n b m = Inr (take (n - 4) (drop 4 a) = take (m - 4) (drop 4 b))"
  by (rule bson_equal_ok [OF assms])

theorem equal_iff_same_bytes_witness: "bson_equal sample_doc 12 nested_doc 17 = Inr False"
  using equal_iff_same_bytes [of 12 sample_doc 17 nested_doc]
  by (simp add: INT_MAX_def sample_doc_def nested_doc_def)

text \<open>\<open>bson_count_keys\<close> is the number of elements that iterating over the document meets.\<close>

theorem count_keys_counts:
  assumes "n \<le> length data" and "5 \<le> n" and "n \<le> INT_MAX"
  shows "bson_count_keys data n = Inr (length (elements (iter_start data n)))"
  by (rule bson_count_keys_ok [OF assms])

theorem count_keys_counts_witness:
  "bson_count_keys sample_doc 12 = Inr (length (elements (iter_start sample_doc 12)))"
  using count_keys_counts [of 12 sample_doc] by (simp add: INT_MAX_def)

text \<open>A value appended under a new key is found again: after a successful
  \<open>bson_append_int32\<close> to a document of well-formed elements, \<open>bson_iter_init_find\<close> with the key
  succeeds and \<open>bson_iter_int32\<close> reads the value.\<close>

theorem append_int32_found:
  assumes "holds h b (concat (map enc es))" and "\<forall>e\<in>set es. elem_ok e" and "k \<notin> (fst \<circ> snd) ` set es"
    and "key_arg key klen k" and "bson_append_int32 h b key klen v = Inr (True, h', b')"
  shows "\<exists>it. bson_iter_init_find (bson_data h' b') (b_len b') (k @ [0]) = Inr (True, it)
    \<and> bson_iter_int32 it = Inr v"
proof -
  let ?e = "(BSON_TYPE_INT32, k, mlib_write_u32le v)"
  have "holds h' b' (concat (map enc (es @ [?e])))"
    using i32.success_body [OF assms(1,4,5)] by (simp add: enc_def)
  moreover have "\<forall>e\<in>set (es @ [?e]). elem_ok e"
    using assms(2) key_arg_no_nul [OF assms(4)] by (simp add: elem_ok_def)
  ultimately obtain it where it: "bson_iter_init_find (bson_data h' b') (b_len b') (k @ [0]) = Inr (True, it)"
    and el: "on_element (bson_data h' b') BSON_TYPE_INT32 it"
    and p: "payload_of (bson_data h' b') it = mlib_write_u32le v"
    using find_last_element assms(3) by blast
  have f: "fixed_at 4 it" using on_elementD(6) [OF el] by simp
  have "take 4 (drop (it_d1 it) (bson_data h' b')) = mlib_write_u32le v"
    using p by (simp add: fixed_payload_of [OF f])
  then have "bson_iter_int32 it = Inr v"
    using fixed_bound [OF el f] on_elementI [OF el] by (simp add: bson_iter_int32_def)
  with it show ?thesis by blast
qed

theorem append_int32_found_witness:
  "\<exists>h' b' it. bson_append_int32 h0 b0 [0x61, 0] (- 1) 7 = Inr (True, h', b')
    \<and> bson_iter_init_find (bson_data h' b') (b_len b') [0x61, 0] = Inr (True, it) \<and> bson_iter_int32 it = Inr 7"
proof -
  from i32.app [OF holds_0(1) key_arg_a, of 7] can_append_0 [of 7]
  obtain h' b' where "bson_append_int32 h0 b0 [0x61, 0] (- 1) 7 = Inr (True, h', b')"
    by (auto elim!: appendedE simp: BSON_MAX_SIZE_def)
  moreover from append_int32_found [OF _ _ _ key_arg_a this, of "[]"] holds_0(1)
  have "\<exists>it. bson_iter_init_find (bson_data h' b') (b_len b') [0x61, 0] = Inr (True, it) \<and> bson_iter_int32 it = Inr 7"
    by simp
  ultimately show ?thesis by blast
qed

end
