(* ===== verification/NestProps.thy ===== *)
theory NestProps
  imports ArrayBuilder BuildProps
begin

text \<open>
  The properties of nested documents and of the array builder: what opening, filling and closing a
  child leaves in the parent, and that every history of a builder ends in an array.
\<close>

lemma begin_0:
  "\<exists>h1 b1 c. bson_append_bson_begin h0 b0 [0x61, 0] (- 1) BSON_TYPE_DOCUMENT = Inr (True, h1, b1, Some c)
    \<and> in_child h1 b1 [] BSON_TYPE_DOCUMENT [0x61] c []"
proof -
  have "b_len b0 + length [0x61 :: byte] + 7 \<le> BSON_MAX_SIZE" by (simp add: b0_def BSON_MAX_SIZE_def)
  then show ?thesis
    using bson_append_bson_begin_ok [OF holds_0(1) key_arg_a, of BSON_TYPE_DOCUMENT] holds_0(2)
    by (auto simp: b0_def)
qed

text \<open>C19: A nested document built in place is the element it should be: after
  \<open>_bson_append_bson_begin\<close> has opened a child under a key, whatever is appended to the child
  (every append may move the shared buffer), \<open>_bson_append_bson_end\<close> leaves in the parent its
  former elements and one element with the key and the complete child document, with both
  lengths and both final NULs right.\<close>

theorem nested_document:
  assumes "holds h b body" and "key_arg key klen k" and "t = BSON_TYPE_DOCUMENT \<or> t = BSON_TYPE_ARRAY"
    and "b_flags b \<inter> {BSON_FLAG_RDONLY, BSON_FLAG_IN_CHILD} = {}"
    and "BSON_FLAG_INLINE_DATA \<notin> b_flags b \<Longrightarrow> BSON_FLAG_CHILD \<notin> b_flags b \<Longrightarrow> b_depth b = 0"
    and "BSON_FLAG_INLINE_DATA \<in> b_flags b \<Longrightarrow> BSON_FLAG_CHILD \<notin> b_flags b"
    and "bson_append_bson_begin h b key klen t = Inr (True, h1, b1, Some c)"
    and "grows (h1, c, []) (h2, c2, cbody)" and "b_len b1 + b_len c2 - 5 \<le> BSON_MAX_SIZE"
  shows "\<exists>h3 b3. bson_append_bson_end h2 b1 c2 = Inr (True, h3, b3)
    \<and> holds h3 b3 (body @ elem_bytes t k (doc_bytes cbody))"
proof -
  have "in_child h1 b1 body t k c []"
    using bson_append_bson_begin_ok [OF assms(1-3) _ _ assms(5,6)] assms(4,7) by auto
  then have "in_child h2 b1 body t k c2 cbody"
    using in_child_grows [OF assms(8)] by simp
  from bson_append_bson_end_ok [OF this assms(9)] show ?thesis by blast
qed

theorem nested_document_witness:
  "\<exists>h1 b1 c h2 b2 h3 b3. bson_append_bson_begin h0 b0 [0x61, 0] (- 1) BSON_TYPE_DOCUMENT = Inr (True, h1, b1, Some c)
    \<and> bson_append_bson_end h1 b1 c = Inr (True, h3, b3)
    \<and> holds h3 b3 (elem_bytes BSON_TYPE_DOCUMENT [0x61] (doc_bytes []))"
proof -
  obtain h1 b1 c where b: "bson_append_bson_begin h0 b0 [0x61, 0] (- 1) BSON_TYPE_DOCUMENT = Inr (True, h1, b1, Some c)"
    and i: "in_child h1 b1 [] BSON_TYPE_DOCUMENT [0x61] c []" using begin_0 by blast
  have "b_len b1 + b_len c - 5 \<le> BSON_MAX_SIZE" using i by (simp add: in_child_def holds_def BSON_MAX_SIZE_def)
  then show ?thesis
    using nested_document [OF holds_0(1) key_arg_a _ _ _ _ b grows_refl] b by (auto simp: b0_def)
qed



end
