(* ===== verification/Oid.thy ===== *)
theory Oid
  imports Endian
begin

text \<open>
  Object identifiers (\<open>src/src/bson/bson-oid.c\<close>, \<open>bson-oid.h\<close>, \<open>bson-context.c\<close>,
  \<open>src/src/common/common-oid.c\<close>). A \<open>bson_oid_t\<close> is the list of its 12 bytes, a \<open>char\<close> is its byte.
\<close>

section \<open>The table of hexadecimal pairs\<close>

text \<open>The little-endian table: the low byte of an entry is the first character.\<close>

definition gHexCharPairs :: "nat list" where
  "gHexCharPairs = [
   12336, 12592, 12848, 13104, 13360, 13616, 13872, 14128, 14384, 14640, 24880, 25136, 25392, 25648, 25904, 26160,
   12337, 12593, 12849, 13105, 13361, 13617, 13873, 14129, 14385, 14641, 24881, 25137, 25393, 25649, 25905, 26161,
   12338, 12594, 12850, 13106, 13362, 13618, 13874, 14130, 14386, 14642, 24882, 25138, 25394, 25650, 25906, 26162,
   12339, 12595, 12851, 13107, 13363, 13619, 13875, 14131, 14387, 14643, 24883, 25139, 25395, 25651, 25907, 26163,
   12340, 12596, 12852, 13108, 13364, 13620, 13876, 14132, 14388, 14644, 24884, 25140, 25396, 25652, 25908, 26164,
   12341, 12597, 12853, 13109, 13365, 13621, 13877, 14133, 14389, 14645, 24885, 25141, 25397, 25653, 25909, 26165,
   12342, 12598, 12854, 13110, 13366, 13622, 13878, 14134, 14390, 14646, 24886, 25142, 25398, 25654, 25910, 26166,
   12343, 12599, 12855, 13111, 13367, 13623, 13879, 14135, 14391, 14647, 24887, 25143, 25399, 25655, 25911, 26167,
   12344, 12600, 12856, 13112, 13368, 13624, 13880, 14136, 14392, 14648, 24888, 25144, 25400, 25656, 25912, 26168,
   12345, 12601, 12857, 13113, 13369, 13625, 13881, 14137, 14393, 14649, 24889, 25145, 25401, 25657, 25913, 26169,
   12385, 12641, 12897, 13153, 13409, 13665, 13921, 14177, 14433, 14689, 24929, 25185, 25441, 25697, 25953, 26209,
   12386, 12642, 12898, 13154, 13410, 13666, 13922, 14178, 14434, 14690, 24930, 25186, 25442, 25698, 25954, 26210,
   12387, 12643, 12899, 13155, 13411, 13667, 13923, 14179, 14435, 14691, 24931, 25187, 25443, 25699, 25955, 26211,
   12388, 12644, 12900, 13156, 13412, 13668, 13924, 14180, 14436, 14692, 24932, 25188, 25444, 25700, 25956, 26212,
   12389, 12645, 12901, 13157, 13413, 13669, 13925, 14181, 14437, 14693, 24933, 25189, 25445, 25701, 25957, 26213,
   12390, 12646, 12902, 13158, 13414, 13670, 13926, 14182, 14438, 14694, 24934, 25190, 25446, 25702, 25958, 26214
  ]"

definition bson_oid_to_string :: "byte list \<Rightarrow> byte list" where
  "bson_oid_to_string oid =
     concat (map (\<lambda>i. le_bytes 2 (of_nat (gHexCharPairs ! unat (oid ! i)) :: 16 word)) [0..<12]) @ [0]"

section \<open>Parsing\<close>

definition bson_oid_parse_hex_char :: "byte \<Rightarrow> byte" where
  "bson_oid_parse_hex_char hex =
     (if hex = 0x30 then 0 else if hex = 0x31 then 1 else if hex = 0x32 then 2
      else if hex = 0x33 then 3 else if hex = 0x34 then 4 else if hex = 0x35 then 5
      else if hex = 0x36 then 6 else if hex = 0x37 then 7 else if hex = 0x38 then 8
      else if hex = 0x39 then 9
      else if hex = 0x61 \<or> hex = 0x41 then 0xa else if hex = 0x62 \<or> hex = 0x42 then 0xb
      else if hex = 0x63 \<or> hex = 0x43 then 0xc else if hex = 0x64 \<or> hex = 0x44 then 0xd
      else if hex = 0x65 \<or> hex = 0x45 then 0xe else if hex = 0x66 \<or> hex = 0x46 then 0xf
      else 0)"

fun init_from_string_loop :: "byte list \<Rightarrow> nat \<Rightarrow> nat \<Rightarrow> byte list res" where
  "init_from_string_loop str i 0 = Inr []"
| "init_from_string_loop str i (Suc n) =
     bind_res (rd8 str (2 * i)) (\<lambda>hi. bind_res (rd8 str (2 * i + 1)) (\<lambda>lo.
       map_res ((#) (push_bit 4 (bson_oid_parse_hex_char hi) OR bson_oid_parse_hex_char lo))
         (init_from_string_loop str (Suc i) n)))"

definition bson_oid_init_from_string :: "byte list \<Rightarrow> byte list res" where
  "bson_oid_init_from_string str = init_from_string_loop str 0 12"

definition bson_oid_init_from_data :: "byte list \<Rightarrow> byte list res" where
  "bson_oid_init_from_data data = rd_range data 0 12"

definition is_hex_char :: "byte \<Rightarrow> bool" where
  "is_hex_char c \<longleftrightarrow> 0x30 \<le> c \<and> c \<le> 0x39 \<or> 0x61 \<le> c \<and> c \<le> 0x66 \<or> 0x41 \<le> c \<and> c \<le> 0x46"

fun oid_valid_loop :: "byte list \<Rightarrow> nat \<Rightarrow> nat \<Rightarrow> bool res" where
  "oid_valid_loop str i 0 = Inr True"
| "oid_valid_loop str i (Suc n) =
     bind_res (rd8 str i) (\<lambda>c. if is_hex_char c then oid_valid_loop str (Suc i) n else Inr False)"

definition bson_oid_is_valid :: "byte list \<Rightarrow> nat \<Rightarrow> bool res" where
  "bson_oid_is_valid str len =
     bind_res (if len = 25 then map_res (\<lambda>c. if c = 0 then 24 else len) (rd8 str 24) else Inr len)
       (\<lambda>len. if len = 24 then oid_valid_loop str 0 len else Inr False)"

section \<open>Comparison, hash and time\<close>

text \<open>The sign of \<open>memcmp\<close> on the 12 bytes.\<close>

definition bson_oid_compare :: "byte list \<Rightarrow> byte list \<Rightarrow> int" where
  "bson_oid_compare oid1 oid2 = memcmp_sgn oid1 oid2"

definition bson_oid_equal :: "byte list \<Rightarrow> byte list \<Rightarrow> bool" where
  "bson_oid_equal oid1 oid2 \<longleftrightarrow> memcmp_sgn oid1 oid2 = 0"

definition bson_oid_hash :: "byte list \<Rightarrow> 32 word" where
  "bson_oid_hash oid = fold (\<lambda>b hash. (push_bit 5 hash + hash) + ucast b) oid 5381"

text \<open>\<open>BSON_UINT32_FROM_BE\<close> of the first four bytes.\<close>

definition be32 :: "byte list \<Rightarrow> 32 word" where
  "be32 bs = le_word (rev bs)"

definition bson_oid_get_time_t :: "byte list \<Rightarrow> nat" where
  "bson_oid_get_time_t oid = unat (be32 (take 4 oid))"

definition mcommon_oid_zero :: "byte list" where
  "mcommon_oid_zero = replicate 12 0"

definition mcommon_oid_is_zero :: "byte list \<Rightarrow> bool" where
  "mcommon_oid_is_zero oid = bson_oid_equal oid mcommon_oid_zero"

section \<open>Generation\<close>

text \<open>
  A context: its random bytes, its 32-bit counter, the process it was seeded in and whether it
  checks for a change of the process. \<open>set_oid_seq32\<close> returns the three bytes and the context
  with the counter advanced. The random bytes after a change of process are a hash of the time, the
  process and the host; they are the argument \<open>fresh\<close>.
\<close>

record bson_context =
  cx_randomness :: "byte list"
  cx_seq32 :: "32 word"
  cx_pid :: nat
  cx_check_pid :: bool

definition set_oid_seq32 :: "bson_context \<Rightarrow> byte list \<times> bson_context" where
  "set_oid_seq32 cx = (drop 1 (rev (le_bytes 4 (cx_seq32 cx))), cx\<lparr>cx_seq32 := cx_seq32 cx + 1\<rparr>)"

definition set_oid_rand :: "bson_context \<Rightarrow> nat \<Rightarrow> byte list \<Rightarrow> byte list \<times> bson_context" where
  "set_oid_rand cx now_pid fresh =
     (let cx = (if cx_check_pid cx \<and> now_pid \<noteq> cx_pid cx
                then cx\<lparr>cx_randomness := fresh, cx_pid := now_pid\<rparr> else cx)
      in (cx_randomness cx, cx))"

text \<open>\<open>bson_oid_init\<close>, with \<open>now\<close> the low 32 bits of \<open>time (NULL)\<close>.\<close>

definition bson_oid_init :: "bson_context \<Rightarrow> 64 word \<Rightarrow> nat \<Rightarrow> byte list \<Rightarrow> byte list \<times> bson_context" where
  "bson_oid_init cx now now_pid fresh =
     (case set_oid_rand cx now_pid fresh of (rand, cx) \<Rightarrow>
      case set_oid_seq32 cx of (seq, cx) \<Rightarrow>
        (map (\<lambda>s. ucast (drop_bit s now)) [24, 16, 8, 0] @ rand @ seq, cx))"

section \<open>Hexadecimal strings\<close>

definition hex_char :: "nat \<Rightarrow> nat" where
  "hex_char n = (if n < 10 then 48 + n else 87 + n)"

definition hex_pair :: "byte \<Rightarrow> byte list" where
  "hex_pair b = [of_nat (hex_char (unat b div 16)), of_nat (hex_char (unat b mod 16))]"

lemma gHexCharPairs_eq:
  "gHexCharPairs = map (\<lambda>i. hex_char (i div 16) + 256 * hex_char (i mod 16)) [0..<256]"
  by (simp add: gHexCharPairs_def hex_char_def upt_conv_Cons)

lemma gHexCharPairs_nth: "gHexCharPairs ! unat (b :: byte) = hex_char (unat b div 16) + 256 * hex_char (unat b mod 16)"
proof -
  have "unat b < 256" using unsigned_less [of b, where 'a = nat] by simp
  then show ?thesis by (simp add: gHexCharPairs_eq)
qed

lemma hex_char_less: "n < 16 \<Longrightarrow> hex_char n < 103"
  by (simp add: hex_char_def)

lemma le_bytes_nth:
  assumes "i < n"
  shows "le_bytes n v ! i = of_nat (drop_bit (8 * i) (unat v))"
proof (rule bit_word_eqI)
  fix j assume "j < LENGTH(8)"
  with assms show "bit (le_bytes n v ! i) j = bit (of_nat (drop_bit (8 * i) (unat v)) :: byte) j"
    by (simp add: bit_le_bytes bit_of_nat_iff Bit_Operations.bit_drop_bit_eq Word.bit_unsigned_iff)
qed

lemma le_bytes_pair:
  assumes "x < 256" and "y < 256"
  shows "le_bytes 2 (of_nat (x + 256 * y) :: 16 word) = [of_nat x, of_nat y]"
proof -
  let ?w = "of_nat (x + 256 * y) :: 16 word"
  have u: "unat ?w = x + 256 * y"
    using assms by (simp only: unat_of_nat) simp
  have z: "(256 :: byte) = 0" by simp
  have i: "0 < (2 :: nat)" "1 < (2 :: nat)" by simp_all
  have "le_bytes 2 ?w ! 0 = of_nat (x + 256 * y)"
    unfolding le_bytes_nth [OF i(1)] u by (simp only: mult_0_right drop_bit_0 id_apply)
  also have "\<dots> = of_nat x" unfolding of_nat_add of_nat_mult of_nat_numeral z by simp
  finally have "le_bytes 2 ?w ! 0 = of_nat x" .
  moreover have "le_bytes 2 ?w ! 1 = of_nat y"
    unfolding le_bytes_nth [OF i(2)] u using assms by (simp add: drop_bit_eq_div)
  moreover have "le_bytes 2 ?w = [le_bytes 2 ?w ! 0, le_bytes 2 ?w ! 1]"
    by (intro nth_equalityI) (auto simp: less_Suc_eq numeral_2_eq_2)
  ultimately show ?thesis by simp
qed

lemma le_bytes_hex: "le_bytes 2 (of_nat (gHexCharPairs ! unat (b :: byte)) :: 16 word) = hex_pair b"
proof -
  have b: "unat b < 256" using unsigned_less [of b, where 'a = nat] by simp
  have "hex_char (unat b div 16) < 103" "hex_char (unat b mod 16) < 103"
    using b by (auto intro: hex_char_less)
  then show ?thesis
    unfolding gHexCharPairs_nth hex_pair_def by (intro le_bytes_pair) simp_all
qed

text \<open>The reference: two lower-case digits for each byte, and a NUL.\<close>

lemma bson_oid_to_string_eq:
  assumes "length oid = 12"
  shows "bson_oid_to_string oid = concat (map hex_pair oid) @ [0]"
proof -
  have "map ((!) oid) [0..<12] = oid" using assms map_nth [of oid] by simp
  then have "concat (map hex_pair (map ((!) oid) [0..<12])) = concat (map hex_pair oid)" by simp
  then show ?thesis unfolding bson_oid_to_string_def le_bytes_hex by (simp add: comp_def)
qed

lemma parse_hex_char_hex:
  assumes "n < 16"
  shows "bson_oid_parse_hex_char (of_nat (hex_char n)) = of_nat n" and "is_hex_char (of_nat (hex_char n))"
proof -
  have "\<forall>m \<in> set [0..<16]. bson_oid_parse_hex_char (of_nat (hex_char m)) = of_nat m \<and> is_hex_char (of_nat (hex_char m))"
    by (simp add: hex_char_def bson_oid_parse_hex_char_def is_hex_char_def upt_conv_Cons)
  then show "bson_oid_parse_hex_char (of_nat (hex_char n)) = of_nat n" "is_hex_char (of_nat (hex_char n))"
    using assms by auto
qed

lemma hex_pair_value:
  "push_bit 4 (of_nat (unat b div 16)) OR of_nat (unat b mod 16) = (b :: byte)"
proof (rule bit_word_eqI)
  fix j assume "j < LENGTH(8)"
  then have j: "j < 8" by simp
  have d: "unat b div 16 = drop_bit 4 (unat b)" by (simp add: drop_bit_eq_div)
  have m: "unat b mod 16 = take_bit 4 (unat b)" by (simp add: take_bit_eq_mod)
  show "bit (push_bit 4 (of_nat (unat b div 16)) OR of_nat (unat b mod 16) :: byte) j = bit b j"
    using j unfolding d m
    by (cases "j < 4") (auto simp: bit_or_iff bit_push_bit_iff bit_of_nat_iff Bit_Operations.bit_drop_bit_eq
        Bit_Operations.bit_take_bit_iff Word.bit_unsigned_iff)
qed

lemma init_from_string_loop_hex:
  assumes "pre_len = 2 * i" and "str = pre @ concat (map hex_pair oid) @ r" and "length pre = pre_len"
  shows "init_from_string_loop str i (length oid) = Inr oid"
  using assms
proof (induction oid arbitrary: i pre pre_len)
  case Nil
  then show ?case by simp
next
  case (Cons b oid)
  have b: "unat b < 256" using unsigned_less [of b, where 'a = nat] by simp
  have n: "unat b div 16 < 16" "unat b mod 16 < 16" using b by simp_all
  have c: "rd8 str (2 * i) = Inr (of_nat (hex_char (unat b div 16)))"
    "rd8 str (2 * i + 1) = Inr (of_nat (hex_char (unat b mod 16)))"
    using Cons.prems by (simp_all add: hex_pair_def nth_append)
  have "init_from_string_loop str (Suc i) (length oid) = Inr oid"
    using Cons.prems by (intro Cons.IH [of _ _ "pre @ hex_pair b"]) (auto simp: hex_pair_def)
  with c show ?case
    by (simp add: parse_hex_char_hex(1) [OF n(1)] parse_hex_char_hex(1) [OF n(2)] hex_pair_value)
qed

lemma oid_valid_loop_iff:
  assumes "i + n \<le> length str"
  shows "oid_valid_loop str i n = Inr (\<forall>c \<in> set (take n (drop i str)). is_hex_char c)"
  using assms
proof (induction n arbitrary: i)
  case (Suc n)
  then have "drop i str = str ! i # drop (Suc i) str" by (simp add: Cons_nth_drop_Suc)
  with Suc show ?case by simp
qed simp

lemma hex_pair_valid: "\<forall>c \<in> set (hex_pair b). is_hex_char c"
proof -
  have b: "unat b < 256" using unsigned_less [of b, where 'a = nat] by simp
  have "unat b div 16 < 16" "unat b mod 16 < 16" using b by simp_all
  then show ?thesis by (simp add: hex_pair_def parse_hex_char_hex(2))
qed

section \<open>Order and time\<close>

fun be_nat :: "byte list \<Rightarrow> nat" where
  "be_nat [] = 0"
| "be_nat (b # bs) = unat b * 256 ^ length bs + be_nat bs"

lemma be_nat_less: "be_nat bs < 256 ^ length bs"
proof (induction bs)
  case (Cons b bs)
  have "unat b \<le> 255" using unsigned_less [of b, where 'a = nat] by simp
  then have "unat b * 256 ^ length bs \<le> 255 * 256 ^ length bs" by (rule mult_right_mono) simp
  moreover have "be_nat bs < 256 ^ length bs" by (rule Cons.IH)
  ultimately have "unat b * 256 ^ length bs + be_nat bs < 255 * 256 ^ length bs + 256 ^ length bs"
    by (rule add_le_less_mono)
  then show ?case by simp
qed simp

lemma memcmp_be_nat:
  "length xs = length ys \<Longrightarrow> memcmp_sgn xs ys = sgn (int (be_nat xs) - int (be_nat ys))"
proof (induction xs ys rule: list_induct2)
  case (Cons x xs y ys)
  have less: "be_nat (a # as) < be_nat (c # cs)" if "a < c" "length as = length cs" for a c :: byte and as cs
  proof -
    have "Suc (unat a) \<le> unat c" using that by (simp add: word_less_nat_alt Suc_le_eq)
    then have "Suc (unat a) * 256 ^ length cs \<le> unat c * 256 ^ length cs" by (rule mult_right_mono) simp
    then show ?thesis using be_nat_less [of as] that(2) by simp
  qed
  show ?case
  proof (rule linorder_cases [of x y])
    assume "x < y"
    with less [of x y xs ys] Cons.hyps have "int (be_nat (x # xs)) < int (be_nat (y # ys))"
      by (simp only: of_nat_less_iff)
    with \<open>x < y\<close> show ?thesis by (simp add: sgn_if del: be_nat.simps)
  next
    assume "y < x"
    with less [of y x ys xs] Cons.hyps have "int (be_nat (y # ys)) < int (be_nat (x # xs))"
      by (simp only: of_nat_less_iff)
    moreover have "\<not> x < y" using \<open>y < x\<close> by simp
    ultimately show ?thesis using \<open>y < x\<close> by (simp add: sgn_if del: be_nat.simps)
  qed (use Cons in simp)
qed simp

lemma le_word_eq_be_nat: "le_word (rev bs) = (of_nat (be_nat bs) :: 'a::len word)"
proof -
  have step: "le_word (b # cs) = 256 * le_word cs + (ucast b :: 'a word)" for b cs
  proof -
    have "push_bit 8 (le_word cs :: 'a word) AND ucast b = 0"
      by (rule bit_word_eqI) (auto simp: bit_and_iff bit_push_bit_iff bit_ucast_iff dest: bit_imp_le_length)
    then have "push_bit 8 (le_word cs :: 'a word) OR ucast b = push_bit 8 (le_word cs) + ucast b"
      by (simp add: disjunctive_add_eq_or)
    then show ?thesis by (simp add: le_word_Cons push_bit_eq_mult mult.commute)
  qed
  have app: "le_word (xs @ ys) = (le_word xs + 256 ^ length xs * le_word ys :: 'a word)" for xs ys
    by (induction xs) (simp_all add: step algebra_simps)
  show ?thesis
    by (induction bs) (simp_all add: app step algebra_simps)
qed

lemma unat_be32: "length bs = 4 \<Longrightarrow> unat (be32 bs) = be_nat bs"
  using be_nat_less [of bs] unfolding be32_def le_word_eq_be_nat by (simp add: unat_of_nat)

lemma oid_time_order:
  assumes "length oid1 = 12" and "length oid2 = 12" and "bson_oid_get_time_t oid1 < bson_oid_get_time_t oid2"
  shows "bson_oid_compare oid1 oid2 = - 1"
proof -
  have "length (take 4 oid1) = 4" "length (take 4 oid2) = 4" using assms by simp_all
  then have "memcmp_sgn (take 4 oid1) (take 4 oid2) = - 1"
    using assms(3) by (simp add: memcmp_be_nat bson_oid_get_time_t_def unat_be32 sgn_if del: length_take)
  moreover have "memcmp_sgn (take 4 oid1 @ drop 4 oid1) (take 4 oid2 @ drop 4 oid2)
      = (if memcmp_sgn (take 4 oid1) (take 4 oid2) \<noteq> 0 then memcmp_sgn (take 4 oid1) (take 4 oid2)
         else memcmp_sgn (drop 4 oid1) (drop 4 oid2))"
    using assms by (intro memcmp_sgn_append) simp
  ultimately show ?thesis by (simp add: bson_oid_compare_def)
qed

section \<open>Identifiers of one context are distinct\<close>

text \<open>The identifiers of a sequence of calls, each with its time, process and fresh random bytes.\<close>

fun bson_oid_inits :: "bson_context \<Rightarrow> (64 word \<times> nat \<times> byte list) list \<Rightarrow> byte list list" where
  "bson_oid_inits cx [] = []"
| "bson_oid_inits cx ((now, pid, fresh) # calls) =
     (case bson_oid_init cx now pid fresh of (oid, cx) \<Rightarrow> oid # bson_oid_inits cx calls)"

lemma bson_oid_init_parts:
  assumes "length (cx_randomness cx) = 5" and "length fresh = 5" and "bson_oid_init cx now pid fresh = (oid, cx')"
  shows "length oid = 12" and "drop 9 oid = drop 1 (rev (le_bytes 4 (cx_seq32 cx)))"
    and "cx_seq32 cx' = cx_seq32 cx + 1" and "length (cx_randomness cx') = 5"
  using assms by (auto simp: bson_oid_init_def set_oid_rand_def set_oid_seq32_def Let_def split: if_splits)

lemma length_bson_oid_inits [simp]: "length (bson_oid_inits cx calls) = length calls"
  by (induction cx calls rule: bson_oid_inits.induct) (auto split: prod.splits)

lemma bson_oid_inits_nth:
  assumes "length (cx_randomness cx) = 5" and "\<forall>(_, _, fresh) \<in> set calls. length fresh = 5" and "i < length calls"
  shows "length (bson_oid_inits cx calls ! i) = 12
    \<and> drop 9 (bson_oid_inits cx calls ! i) = drop 1 (rev (le_bytes 4 (cx_seq32 cx + of_nat i)))"
  using assms
proof (induction cx calls arbitrary: i rule: bson_oid_inits.induct)
  case (2 cx now pid fresh calls)
  obtain oid cx' where init: "bson_oid_init cx now pid fresh = (oid, cx')" by force
  note parts = bson_oid_init_parts [OF "2.prems"(1) _ init]
  show ?case
  proof (cases i)
    case 0
    then show ?thesis using parts "2.prems" init by simp
  next
    case (Suc j)
    have "length (bson_oid_inits cx' calls ! j) = 12
      \<and> drop 9 (bson_oid_inits cx' calls ! j) = drop 1 (rev (le_bytes 4 (cx_seq32 cx' + of_nat j)))"
      using "2.IH" [OF init [symmetric], of j] "2.prems" parts(4) Suc by simp
    then show ?thesis using Suc init parts(3) "2.prems" by (simp add: add.assoc)
  qed
qed simp

lemma low_bytes_inject:
  assumes "drop 1 (rev (le_bytes 4 (v + of_nat i :: 32 word))) = drop 1 (rev (le_bytes 4 (v + of_nat j)))"
    and "i < 2 ^ 24" and "j < 2 ^ 24"
  shows "i = j"
proof -
  have "take 3 (le_bytes 4 (v + of_nat i)) = take 3 (le_bytes 4 (v + of_nat j))"
    using assms(1) by (simp add: drop_rev)
  then have b: "le_bytes 4 (v + of_nat i) ! k = le_bytes 4 (v + of_nat j) ! k" if "k < 3" for k
    using that by (metis nth_take)
  have "take_bit 24 (v + of_nat i) = take_bit 24 (v + of_nat j)"
  proof (rule bit_word_eqI)
    fix n assume "n < LENGTH(32)"
    show "bit (take_bit 24 (v + of_nat i)) n = bit (take_bit 24 (v + of_nat j)) n"
    proof (cases "n < 24")
      case True
      then have k: "n div 8 < 3" "n div 8 < 4" by simp_all
      have n: "8 * (n div 8) + n mod 8 = n" by simp
      have bits: "bit (le_bytes 4 w ! (n div 8)) (n mod 8) = bit w n" for w :: "32 word"
        unfolding bit_le_bytes [OF k(2)] n by simp
      show ?thesis
        using b [OF k(1)] bits [of "v + of_nat i"] bits [of "v + of_nat j"] True
        by (simp only: bit_take_bit_iff)
    qed (simp add: bit_take_bit_iff)
  qed
  then have "unat (take_bit 24 (v + of_nat i)) = unat (take_bit 24 (v + of_nat j))" by (rule arg_cong)
  then have "take_bit 24 (unat (v + of_nat i)) = take_bit 24 (unat (v + of_nat j))"
    unfolding unsigned_take_bit_eq .
  then have "unat (v + of_nat i) mod 2 ^ 24 = unat (v + of_nat j) mod 2 ^ 24"
    unfolding take_bit_eq_mod .
  moreover have "unat (v + of_nat m) mod 2 ^ 24 = (unat v + m) mod 2 ^ 24" for m
  proof -
    have "v + of_nat m = of_nat (unat v + m)" by simp
    then have "unat (v + of_nat m) = (unat v + m) mod 2 ^ 32" by (simp only: unat_of_nat len_of_numeral_defs) simp
    moreover have "(2 :: nat) ^ 24 dvd 2 ^ 32" by (rule le_imp_power_dvd) simp
    ultimately show ?thesis by (simp only: mod_mod_cancel)
  qed
  ultimately have "(unat v + i) mod 16777216 = (unat v + j) mod 16777216" by simp
  then obtain p q where "unat v + i + 16777216 * p = unat v + j + 16777216 * q"
    unfolding nat_mod_eq_iff by blast
  moreover have "i < 16777216" "j < 16777216" using assms(2,3) by simp_all
  moreover have "p = q \<or> Suc p \<le> q \<or> Suc q \<le> p" by arith
  ultimately show ?thesis by linarith
qed

lemma bson_oid_inits_distinct:
  assumes "length (cx_randomness cx) = 5" and "\<forall>(_, _, fresh) \<in> set calls. length fresh = 5"
    and "length calls \<le> 2 ^ 24"
  shows "distinct (bson_oid_inits cx calls)"
  unfolding distinct_conv_nth
proof (intro allI impI)
  fix i j
  assume ij: "i < length (bson_oid_inits cx calls)" "j < length (bson_oid_inits cx calls)" "i \<noteq> j"
  then have "i < 2 ^ 24" "j < 2 ^ 24" using assms(3) by simp_all
  with ij(3) low_bytes_inject
  have "drop 1 (rev (le_bytes 4 (cx_seq32 cx + of_nat i))) \<noteq> drop 1 (rev (le_bytes 4 (cx_seq32 cx + of_nat j)))"
    by blast
  then show "bson_oid_inits cx calls ! i \<noteq> bson_oid_inits cx calls ! j"
    using bson_oid_inits_nth [OF assms(1,2)] ij(1,2) by (metis length_bson_oid_inits)
qed

end
