(* ===== verification/OidProps.thy ===== *)
theory OidProps
  imports Oid BsonKeys
begin

text \<open>
  The properties of object identifiers and of printed keys: the round trip through the hexadecimal
  string, the check of such a string, uniqueness of generated identifiers, their order in time,
  and the decimal keys of arrays.
\<close>

text \<open>C21: \<open>bson_oid_init_from_string\<close> inverts \<open>bson_oid_to_string\<close>, and the string is 24
  hexadecimal digits and a NUL, which \<open>bson_oid_is_valid\<close> accepts, with the NUL counted or not.\<close>

theorem oid_string_roundtrip:
  assumes "length oid = 12"
  shows "bson_oid_init_from_string (bson_oid_to_string oid) = Inr oid
    \<and> length (bson_oid_to_string oid) = 25
    \<and> bson_oid_is_valid (bson_oid_to_string oid) 24 = Inr True
    \<and> bson_oid_is_valid (bson_oid_to_string oid) 25 = Inr True"
proof -
  let ?hex = "concat (map hex_pair oid)"
  have str: "bson_oid_to_string oid = ?hex @ [0]" using assms by (rule bson_oid_to_string_eq)
  have "length (concat (map hex_pair bs)) = 2 * length bs" for bs by (induction bs) (auto simp: hex_pair_def)
  then have len: "length ?hex = 24" using assms by simp
  have digits: "\<forall>c \<in> set ?hex. is_hex_char c" using hex_pair_valid by auto
  have "init_from_string_loop (?hex @ [0]) 0 (length oid) = Inr oid"
    by (rule init_from_string_loop_hex [of 0 _ _ "[]" _ "[0]"]) simp_all
  moreover have "oid_valid_loop (?hex @ [0]) 0 24 = Inr True"
    using oid_valid_loop_iff [of 0 24 "?hex @ [0]"] len digits by simp
  ultimately show ?thesis
    using assms len by (simp add: str bson_oid_init_from_string_def bson_oid_is_valid_def nth_append)
qed

theorem oid_string_roundtrip_witness:
  "bson_oid_init_from_string (bson_oid_to_string (replicate 12 0xAB)) = Inr (replicate 12 0xAB)"
  using oid_string_roundtrip [of "replicate 12 0xAB"] by simp

text \<open>\<open>bson_oid_is_valid\<close> accepts exactly the strings of 24 hexadecimal digits, or of 24 digits
  followed by a NUL when it is given the length 25.\<close>

theorem oid_is_valid_iff:
  assumes "len \<le> length str"
  shows "bson_oid_is_valid str len
    = Inr ((len = 24 \<or> len = 25 \<and> str ! 24 = 0) \<and> (\<forall>c \<in> set (take 24 str). is_hex_char c))"
  using assms oid_valid_loop_iff [of 0 24 str]
  by (auto simp: bson_oid_is_valid_def)

theorem oid_is_valid_iff_witness: "bson_oid_is_valid (replicate 24 0x67) 24 = Inr False"
  using oid_is_valid_iff [of 24 "replicate 24 0x67"] by (simp add: is_hex_char_def)

text \<open>C23: The identifiers of one context are unique: whatever the times, and whatever process
  changes reseed the random bytes in between, \<open>bson_oid_init\<close> returns no identifier twice
  in 2^24 consecutive calls, the wrap-around of the 32-bit counter included.\<close>

theorem oids_unique:
  assumes "length (cx_randomness cx) = 5" and "\<forall>(_, _, fresh) \<in> set calls. length fresh = 5"
    and "length calls \<le> 2 ^ 24"
  shows "distinct (bson_oid_inits cx calls)"
  using assms by (rule bson_oid_inits_distinct)

theorem oids_unique_witness:
  "distinct (bson_oid_inits \<lparr>cx_randomness = [1, 2, 3, 4, 5], cx_seq32 = 0xFFFFFFFF, cx_pid = 1, cx_check_pid = True\<rparr>
     [(0, 1, [0, 0, 0, 0, 0]), (0, 1, [0, 0, 0, 0, 0])])"
  by (rule oids_unique) simp_all

text \<open>Identifiers sort by the time of their creation: when the time of one, as
  \<open>bson_oid_get_time_t\<close> reads it back, is before that of another, \<open>bson_oid_compare\<close> says less.\<close>

theorem oid_compare_time:
  assumes "length oid1 = 12" and "length oid2 = 12" and "bson_oid_get_time_t oid1 < bson_oid_get_time_t oid2"
  shows "bson_oid_compare oid1 oid2 = - 1"
  using assms by (rule oid_time_order)

theorem oid_compare_time_witness: "bson_oid_compare (replicate 12 0) (replicate 12 1) = - 1"
proof -
  have "take 4 (replicate 12 x) = [x, x, x, x]" for x :: byte by (simp add: numeral_eq_Suc)
  then have "bson_oid_get_time_t (replicate 12 0) < bson_oid_get_time_t (replicate 12 1)"
    by (simp add: bson_oid_get_time_t_def be32_def le_word_def)
  then show ?thesis by (intro oid_compare_time) simp_all
qed

text \<open>\<open>bson_uint32_to_string\<close> with the 16-byte buffer of its callers prints the decimal
  digits of every 32-bit value, from its table of strings or by \<open>snprintf\<close>, without truncation,
  and different values get different keys.\<close>

theorem uint32_keys:
  "bson_uint32_to_string v 16 = Inr (dec (unat v) @ [0], length (dec (unat v)))
    \<and> length (dec (unat v)) \<le> 10 \<and> dec_value (dec (unat v)) = unat v
    \<and> (bson_uint32_to_string v 16 = bson_uint32_to_string w 16 \<longleftrightarrow> v = w)"
proof -
  have "unat v < 10 ^ 10" by (rule less_trans [OF unat_u32_less']) simp
  then show ?thesis
    using length_dec [of "unat v" 10] by (auto simp: bson_uint32_to_string_dec dec_value_dec word_unat_eq_iff)
qed

end
