(* ===== verification/Decimal128.thy ===== *)
theory Decimal128
  imports BsonKeys Endian
begin

text \<open>
  Printing of 128-bit decimals, \<open>bson_decimal128_to_string\<close> of
  \<open>src/src/bson/bson-decimal128.c\<close>. A value is its two 64-bit halves. The output buffer has
  43 bytes: the model keeps the bytes written so far, and a write past the buffer is a fault.
  The reference \<open>dec128_string\<close> says which string a sign, a coefficient and an exponent have.
\<close>

section \<open>Division of 128-bit integers\<close>

text \<open>The four 32-bit words, high to low.\<close>

type_synonym uint128 = "32 word \<times> 32 word \<times> 32 word \<times> 32 word"

text \<open>One round of the loop: the remainder so far and the next word.\<close>

definition div_step :: "64 word \<Rightarrow> 32 word \<Rightarrow> 32 word \<times> 64 word" where
  "div_step rem part =
     (let rem = push_bit 32 rem + ucast part in (ucast (rem div 1000000000), rem mod 1000000000))"

definition uint128_divide1B :: "uint128 \<Rightarrow> uint128 \<times> 32 word" where
  "uint128_divide1B value = (case value of (p0, p1, p2, p3) \<Rightarrow>
     if p0 = 0 \<and> p1 = 0 \<and> p2 = 0 \<and> p3 = 0 then (value, 0)
     else case div_step 0 p0 of (q0, rem) \<Rightarrow>
          case div_step rem p1 of (q1, rem) \<Rightarrow>
          case div_step rem p2 of (q2, rem) \<Rightarrow>
          case div_step rem p3 of (q3, rem) \<Rightarrow> ((q0, q1, q2, q3), ucast rem))"

section \<open>The digits of the significand\<close>

text \<open>\<open>for (j = 8; j >= 0; j--) significand[base + j] = least_digits % 10, least_digits /= 10\<close>\<close>

fun digit_loop :: "nat \<Rightarrow> nat \<Rightarrow> 32 word \<Rightarrow> 32 word list \<Rightarrow> 32 word list" where
  "digit_loop 0 base least_digits significand = significand"
| "digit_loop (Suc j) base least_digits significand =
     digit_loop j base (least_digits div 10) (significand[base + j := least_digits mod 10])"

text \<open>\<open>for (k = 3; k >= 0; k--)\<close>\<close>

fun significand_loop :: "nat \<Rightarrow> uint128 \<Rightarrow> 32 word list \<Rightarrow> 32 word list" where
  "significand_loop 0 v significand = significand"
| "significand_loop (Suc k) v significand =
     (case uint128_divide1B v of (q, least_digits) \<Rightarrow>
        significand_loop k q
          (if least_digits = 0 then significand else digit_loop 9 (k * 9) least_digits significand))"

text \<open>\<open>while (!*significand_read)\<close>: the read position and the number of digits left.\<close>

function skip_zeros :: "32 word list \<Rightarrow> nat \<Rightarrow> int \<Rightarrow> (nat \<times> int) res" where
  "skip_zeros significand r n =
     (if r < length significand
      then if significand ! r = 0 then skip_zeros significand (Suc r) (n - 1) else Inr (r, n)
      else Inl OutOfBounds)"
  by pat_completeness auto
termination by (relation "measure (\<lambda>(s, r, n). length s - r)") auto

declare skip_zeros.simps [simp del]

section \<open>The output\<close>

definition BSON_DECIMAL128_STRING :: nat where
  "BSON_DECIMAL128_STRING = 43"

definition put :: "byte \<Rightarrow> byte list \<Rightarrow> byte list res" where
  "put c out = (if length out < BSON_DECIMAL128_STRING then Inr (out @ [c]) else Inl OutOfBounds)"

definition put_nul :: "byte list \<Rightarrow> byte list res" where
  "put_nul out = map_res (\<lambda>_. out) (put 0 out)"

text \<open>
  A loop that copies up to \<open>n\<close> digits while \<open>go\<close> holds of the number of bytes written; it
  returns the read position.
\<close>

fun copy_digits :: "(nat \<Rightarrow> bool) \<Rightarrow> nat \<Rightarrow> 32 word list \<Rightarrow> nat \<Rightarrow> byte list \<Rightarrow> (byte list \<times> nat) res" where
  "copy_digits go 0 significand r out = Inr (out, r)"
| "copy_digits go (Suc n) significand r out =
     (if go (length out) then
        if r < length significand
        then bind_res (put (ucast (significand ! r) + 0x30) out) (copy_digits go n significand (Suc r))
        else Inl OutOfBounds
      else Inr (out, r))"

text \<open>\<open>while (radix_position++ < 0 && str_out != str_end) *(str_out++) = '0'\<close>; the second
  component is \<open>radix_position\<close> after the loop.\<close>

function put_zeros :: "int \<Rightarrow> byte list \<Rightarrow> (byte list \<times> int) res" where
  "put_zeros radix_position out =
     (if radix_position < 0 \<and> length out \<noteq> BSON_DECIMAL128_STRING - 1
      then bind_res (put 0x30 out) (put_zeros (radix_position + 1))
      else Inr (out, radix_position + 1))"
  by pat_completeness auto
termination by (relation "measure (\<lambda>(p, out). nat (- p))") auto

declare put_zeros.simps [simp del]

text \<open>The characters of \<open>%+d\<close>.\<close>

definition signed_dec :: "int \<Rightarrow> byte list" where
  "signed_dec i = (if i < 0 then 0x2D else 0x2B) # dec (nat \<bar>i\<bar>)"

text \<open>\<open>bson_snprintf (str_out, size, ...)\<close> writes the last byte of its \<open>size\<close> bytes as well.\<close>

definition put_snprintf :: "nat \<Rightarrow> byte list \<Rightarrow> byte list \<Rightarrow> byte list res" where
  "put_snprintf sz s out =
     (if length out + sz \<le> BSON_DECIMAL128_STRING then Inr (out @ take (sz - 1) s) else Inl OutOfBounds)"

definition dec128_scientific :: "int \<Rightarrow> int \<Rightarrow> 32 word list \<Rightarrow> nat \<Rightarrow> byte list \<Rightarrow> byte list res" where
  "dec128_scientific num scientific_exponent significand r out =
     bind_res (copy_digits (\<lambda>_. True) 1 significand r out) (\<lambda>(out, r).
     bind_res (if num - 1 \<noteq> 0 then put 0x2E out else Inr out) (\<lambda>out.
     bind_res (copy_digits (\<lambda>l. l < 36) (nat (num - 1)) significand r out) (\<lambda>(out, r).
     bind_res (put 0x45 out) (put_snprintf 6 (signed_dec scientific_exponent)))))"

definition dec128_regular :: "int \<Rightarrow> int \<Rightarrow> 32 word list \<Rightarrow> nat \<Rightarrow> byte list \<Rightarrow> byte list res" where
  "dec128_regular num exponent significand r out =
     (if exponent \<ge> 0
      then bind_res (copy_digits (\<lambda>l. l < 36) (nat num) significand r out) (\<lambda>(out, r). put_nul out)
      else let radix_position = num + exponent; str_end = BSON_DECIMAL128_STRING - 1 in
        bind_res (if radix_position > 0
                  then copy_digits (\<lambda>l. l \<noteq> str_end) (nat radix_position) significand r out
                  else map_res (\<lambda>out. (out, r)) (put 0x30 out)) (\<lambda>(out, r).
        bind_res (put 0x2E out) (\<lambda>out.
        bind_res (put_zeros radix_position out) (\<lambda>(out, radix_position).
          let dot_pos = max (radix_position - 1) 0; n_trailing_digits = num - dot_pos;
              n_to_write = min n_trailing_digits (int str_end - int (length out)) in
          bind_res (copy_digits (\<lambda>_. True) (nat n_to_write) significand r out) (\<lambda>(out, r). put_nul out)))))"

text \<open>
  The field decoding: \<open>None\<close> is infinity or not a number (the flag says which), otherwise the
  biased exponent and the high bits of the significand.
\<close>

definition dec128_fields :: "32 word \<Rightarrow> bool + 32 word \<times> 32 word" where
  "dec128_fields high =
     (let combination = drop_bit 26 high AND 0x1F in
      if drop_bit 3 combination = 3 then
        if combination = 30 then Inl False
        else if combination = 31 then Inl True
        else Inr (drop_bit 15 high AND 0x3FFF, 8 + (drop_bit 14 high AND 1))
      else Inr (drop_bit 17 high AND 0x3FFF, drop_bit 14 high AND 7))"

definition dec128_significand :: "32 word \<Rightarrow> 32 word \<Rightarrow> 32 word \<Rightarrow> 32 word \<Rightarrow> 32 word \<Rightarrow> uint128" where
  "dec128_significand high midh midl low msb =
     ((high AND 0x3FFF) + push_bit 14 (msb AND 0xF), midh, midl, low)"

definition bson_decimal128_to_string :: "64 word \<Rightarrow> 64 word \<Rightarrow> byte list res" where
  "bson_decimal128_to_string dec_low dec_high =
     bind_res (if sint dec_high < 0 then put 0x2D [] else Inr []) (\<lambda>out.
     let low = ucast dec_low; midl = ucast (drop_bit 32 dec_low);
         midh = ucast dec_high; high = ucast (drop_bit 32 dec_high) in
     case dec128_fields high of
         Inl nan \<Rightarrow> if nan then Inr [0x4E, 0x61, 0x4E]
           else fold (\<lambda>c r. bind_res r (put c)) [0x49, 0x6E, 0x66, 0x69, 0x6E, 0x69, 0x74, 0x79] (Inr out)
       | Inr (biased_exponent, significand_msb) \<Rightarrow>
           let exponent = uint biased_exponent - 6176;
               v = dec128_significand high midh midl low significand_msb;
               is_zero = (v = (0, 0, 0, 0) \<or> 131072 \<le> fst v);
               significand = (if is_zero then replicate 36 0 else significand_loop 4 v (replicate 36 0)) in
           bind_res (if is_zero then Inr (0, 1) else skip_zeros significand 0 36) (\<lambda>(r, num).
             let scientific_exponent = num - 1 + exponent in
             if scientific_exponent < - 6 \<or> exponent > 0
             then dec128_scientific num scientific_exponent significand r out
             else dec128_regular num exponent significand r out))"

section \<open>The division is a division\<close>

fun val128 :: "uint128 \<Rightarrow> nat" where
  "val128 (p0, p1, p2, p3) = ((unat p0 * 2 ^ 32 + unat p1) * 2 ^ 32 + unat p2) * 2 ^ 32 + unat p3"

lemma div_step_spec:
  assumes "unat rem < 1000000000" and "div_step rem part = (q, rem')"
  shows "unat rem * 2 ^ 32 + unat part = unat q * 1000000000 + unat rem'" and "unat rem' < 1000000000"
proof -
  let ?B = "4294967296 :: 64 word" and ?x = "push_bit 32 rem + ucast part :: 64 word"
  have "unat part < 2 ^ 32" by (rule unat_u32_less)
  then have part: "unat (ucast part :: 64 word) = unat part" "unat part < 4294967296"
    by (simp_all add: unsigned_ucast_eq take_bit_nat_eq_self_iff less_trans [of "unat part" "2 ^ 32"])
  have "push_bit 32 rem = rem * ?B" by (simp add: push_bit_eq_mult)
  moreover have "unat (rem * ?B) = unat rem * 4294967296"
    using assms(1) unat_mult_lem [of rem ?B] by simp
  moreover have "unat rem * 4294967296 + unat part < 18446744073709551616"
    using assms(1) part(2) by linarith
  ultimately have x: "unat ?x = unat rem * 4294967296 + unat part"
    using part(1) unat_add_lem [of "push_bit 32 rem" "ucast part"] by simp
  have q: "q = ucast (?x div 1000000000)" and r: "rem' = ?x mod 1000000000"
    using assms(2) by (simp_all add: div_step_def Let_def)
  have "unat (?x div 1000000000) = unat ?x div 1000000000" by (simp add: unat_div)
  moreover have "unat ?x div 1000000000 < 4294967296"
  proof (rule less_mult_imp_div_less)
    show "unat ?x < 4294967296 * 1000000000" using x assms(1) part(2) by linarith
  qed
  ultimately have uq: "unat q = unat ?x div 1000000000"
    unfolding q by (simp add: unsigned_ucast_eq take_bit_nat_eq_self_iff)
  have ur: "unat rem' = unat ?x mod 1000000000" unfolding r by (simp add: unat_mod)
  show "unat rem' < 1000000000" unfolding ur by simp
  show "unat rem * 2 ^ 32 + unat part = unat q * 1000000000 + unat rem'"
    unfolding uq ur using x by simp
qed

lemma divide1B_spec:
  assumes "uint128_divide1B v = (q, r)"
  shows "val128 q = val128 v div 1000000000" and "unat r = val128 v mod 1000000000"
proof -
  obtain p0 p1 p2 p3 where v: "v = (p0, p1, p2, p3)" by (cases v)
  have "val128 v = val128 q * 1000000000 + unat r \<and> unat r < 1000000000"
  proof (cases "p0 = 0 \<and> p1 = 0 \<and> p2 = 0 \<and> p3 = 0")
    case True
    then show ?thesis using assms v by (auto simp: uint128_divide1B_def)
  next
    case False
    obtain q0 r0 q1 r1 q2 r2 q3 r3 where st: "div_step 0 p0 = (q0, r0)" "div_step r0 p1 = (q1, r1)"
        "div_step r1 p2 = (q2, r2)" "div_step r2 p3 = (q3, r3)"
      by (metis surj_pair)
    have qr: "q = (q0, q1, q2, q3)" "r = ucast r3"
      using assms False st by (simp_all add: uint128_divide1B_def v split: if_splits)
    have s0: "unat p0 = unat q0 * 1000000000 + unat r0" "unat r0 < 1000000000"
      using div_step_spec [OF _ st(1)] by simp_all
    note s1 = div_step_spec [OF s0(2) st(2)]
    note s2 = div_step_spec [OF s1(2) st(3)]
    note s3 = div_step_spec [OF s2(2) st(4)]
    have "unat r = unat r3" using s3(2) unfolding qr by (simp add: unsigned_ucast_eq take_bit_nat_eq_self_iff)
    then show ?thesis using s0 s1 s2 s3 unfolding v qr val128.simps by simp
  qed
  then show "val128 q = val128 v div 1000000000" "unat r = val128 v mod 1000000000" by auto
qed

section \<open>The digits are the decimal digits\<close>

fun digits :: "nat \<Rightarrow> 32 word \<Rightarrow> 32 word list" where
  "digits 0 l = []"
| "digits (Suc j) l = digits j (l div 10) @ [l mod 10]"

definition dval :: "32 word list \<Rightarrow> nat" where
  "dval ds = foldl (\<lambda>a d. a * 10 + unat d) 0 ds"

abbreviation is_digits :: "32 word list \<Rightarrow> bool" where
  "is_digits ds \<equiv> \<forall>d \<in> set ds. unat d < 10"

lemma length_digits [simp]: "length (digits j l) = j"
  by (induction j arbitrary: l) auto

lemma dval_simps [simp]: "dval [] = 0" "dval (ds @ [d]) = dval ds * 10 + unat d"
  by (simp_all add: dval_def)

lemma dval_append: "dval (xs @ ys) = dval xs * 10 ^ length ys + dval ys"
proof (induction ys rule: rev_induct)
  case (snoc y ys)
  then show ?case by (simp add: algebra_simps flip: append_assoc)
qed simp

lemma digits_spec: "is_digits (digits j l) \<and> dval (digits j l) = unat l mod 10 ^ j"
proof (induction j arbitrary: l)
  case (Suc j)
  have "unat (l mod 10) = unat l mod 10" "unat (l div 10) = unat l div 10"
    by (simp_all add: unat_mod unat_div)
  moreover have "unat l mod (10 * 10 ^ j) = 10 * (unat l div 10 mod 10 ^ j) + unat l mod 10"
    by (rule mod_mult2_eq)
  ultimately show ?case using Suc.IH [of "l div 10"] by auto
qed simp

lemma digits_0: "digits j 0 = replicate j 0"
  by (induction j) (simp_all add: replicate_append_same)

lemma digit_loop_eq:
  "base + j \<le> length sig \<Longrightarrow>
    digit_loop j base l sig = take base sig @ digits j l @ drop (base + j) sig"
proof (induction j arbitrary: l sig)
  case (Suc j)
  let ?s = "sig[base + j := l mod 10]"
  have "drop (base + j) ?s = ?s ! (base + j) # drop (Suc (base + j)) ?s"
    using Suc.prems by (subst Cons_nth_drop_Suc) simp_all
  then have "drop (base + j) ?s = (l mod 10) # drop (Suc (base + j)) sig" using Suc.prems by simp
  then show ?case using Suc by simp
qed simp

lemma length_digit_loop [simp]: "length (digit_loop j base l sig) = length sig"
  by (induction j arbitrary: l sig) auto

lemma significand_loop_spec:
  assumes "9 * k \<le> length sig" and "take (9 * k) sig = replicate (9 * k) 0"
  shows "\<exists>ds. significand_loop k v sig = ds @ drop (9 * k) sig \<and> length ds = 9 * k
    \<and> is_digits ds \<and> dval ds = val128 v mod 10 ^ (9 * k)"
  using assms
proof (induction k arbitrary: v sig)
  case (Suc k)
  obtain q l where q: "uint128_divide1B v = (q, l)" by (cases "uint128_divide1B v")
  let ?sig = "if l = 0 then sig else digit_loop 9 (k * 9) l sig"
  have "take (9 * k) sig = take (9 * k) (take (9 * Suc k) sig)"
      "take 9 (drop (9 * k) sig) = drop (9 * k) (take (9 * Suc k) sig)"
    by (simp_all add: take_drop min_def add.commute)
  then have zeros: "take (9 * k) sig = replicate (9 * k) 0" "take 9 (drop (9 * k) sig) = replicate 9 0"
    unfolding Suc.prems(2) by simp_all
  have "sig = take (9 * k) sig @ take 9 (drop (9 * k) sig) @ drop (9 * k + 9) sig"
    by (metis append_take_drop_id drop_drop add.commute)
  then have sig': "?sig = take (9 * k) sig @ digits 9 l @ drop (9 * k + 9) sig"
    using Suc.prems(1) zeros(2) by (simp add: digit_loop_eq digits_0 mult.commute)
  have len: "9 * k \<le> length ?sig" "take (9 * k) ?sig = replicate (9 * k) 0"
      "drop (9 * k) ?sig = digits 9 l @ drop (9 * k + 9) sig"
    unfolding sig' using Suc.prems(1) zeros(1) by simp_all
  from Suc.IH [OF len(1,2), of q] obtain ds where ds: "significand_loop k q ?sig = ds @ drop (9 * k) ?sig"
    "length ds = 9 * k" "is_digits ds" "dval ds = val128 q mod 10 ^ (9 * k)" by blast
  have l: "val128 q = val128 v div 1000000000" "unat l = val128 v mod 1000000000"
    using divide1B_spec [OF q] by auto
  have "dval (ds @ digits 9 l) = (val128 q mod 10 ^ (9 * k)) * 1000000000 + val128 v mod 1000000000"
    using digits_spec [of 9 l] l(2) ds(4) by (simp add: dval_append)
  also have "\<dots> = val128 v mod (1000000000 * 10 ^ (9 * k))"
    unfolding l(1) mod_mult2_eq by (simp add: mult.commute)
  also have "1000000000 * 10 ^ (9 * k) = (10 :: nat) ^ (9 * Suc k)"
    by (simp add: power_add)
  finally have "dval (ds @ digits 9 l) = val128 v mod 10 ^ (9 * Suc k)" .
  moreover have "significand_loop (Suc k) v sig = (ds @ digits 9 l) @ drop (9 * Suc k) sig"
    using q ds(1) len(3) by (simp add: add.commute)
  ultimately show ?case using ds(2,3) digits_spec [of 9 l]
    by (intro exI [of _ "ds @ digits 9 l"]) auto
qed simp

definition digit_char :: "32 word \<Rightarrow> byte" where
  "digit_char d = ucast d + 0x30"

lemma digit_char_eq: "digit_char d = of_nat (48 + unat d)"
  by (simp add: digit_char_def add.commute)

lemma dec_of_digits:
  assumes "is_digits ds"
  shows "map digit_char (dropWhile (\<lambda>d. d = 0) ds) = (if dval ds = 0 then [] else dec (dval ds))"
  using assms
proof (induction ds rule: rev_induct)
  case (snoc d ds)
  have d: "unat d < 10" "unat d = 0 \<longleftrightarrow> d = 0" using snoc.prems by (simp_all add: unat_eq_zero)
  note ch = digit_char_eq [of d]
  have nz: "dval ds = 0 \<longleftrightarrow> (\<forall>x \<in> set ds. x = 0)"
  proof -
    have "map digit_char (dropWhile (\<lambda>d. d = 0) ds) = (if dval ds = 0 then [] else dec (dval ds))"
      using snoc by simp
    then have "dval ds = 0 \<longleftrightarrow> dropWhile (\<lambda>d. d = 0) ds = []"
      by (metis dec_nonempty list.map_disc_iff)
    then show ?thesis by (simp only: dropWhile_eq_Nil_conv)
  qed
  show ?case
  proof (cases "dval ds = 0")
    case True
    then have "dropWhile (\<lambda>d. d = 0) (ds @ [d]) = dropWhile (\<lambda>d. d = 0) [d]"
      using nz by (simp add: dropWhile_append2)
    then show ?thesis using True d ch by (simp add: dec.simps)
  next
    case False
    then have "\<not> (\<forall>x \<in> set ds. x = 0)" unfolding nz .
    then obtain x where "x \<in> set ds" "x \<noteq> 0" by auto
    then have "dropWhile (\<lambda>d. d = 0) (ds @ [d]) = dropWhile (\<lambda>d. d = 0) ds @ [d]"
      by (simp add: dropWhile_append1)
    moreover have "dec (dval ds * 10 + unat d) = dec (dval ds) @ [of_nat (48 + unat d)]"
      using False d(1) by (subst dec.simps) simp
    ultimately show ?thesis using snoc False d ch by simp
  qed
qed simp

lemma skip_zeros_spec:
  "\<exists>i \<ge> r. i < length sig \<and> sig ! i \<noteq> 0 \<Longrightarrow>
    skip_zeros sig r n = Inr (r + length (takeWhile (\<lambda>d. d = 0) (drop r sig)),
      n - int (length (takeWhile (\<lambda>d. d = 0) (drop r sig))))"
proof (induction sig r n rule: skip_zeros.induct)
  case (1 sig r n)
  then have r: "r < length sig" by auto
  then have d: "drop r sig = sig ! r # drop (Suc r) sig" by (simp add: Cons_nth_drop_Suc)
  show ?case
  proof (cases "sig ! r = 0")
    case True
    with 1 have "\<exists>i \<ge> Suc r. i < length sig \<and> sig ! i \<noteq> 0" by (metis le_antisym not_less_eq_eq)
    from "1.IH" [OF r True this] show ?thesis using r True d by (simp add: skip_zeros.simps [of sig r])
  next
    case False
    then show ?thesis using r d by (simp add: skip_zeros.simps [of sig r])
  qed
qed

section \<open>The copies stay inside the buffer\<close>

lemma copy_digits_spec:
  assumes "\<And>l. length out \<le> l \<Longrightarrow> l \<le> m \<Longrightarrow> go l \<longleftrightarrow> l < m" and "length out \<le> m"
    and "m \<le> BSON_DECIMAL128_STRING" and "r + n \<le> length sig"
  shows "copy_digits go n sig r out = Inr (out @ map digit_char (take (min n (m - length out)) (drop r sig)),
    r + min n (m - length out))"
  using assms
proof (induction n arbitrary: r out)
  case (Suc n)
  show ?case
  proof (cases "length out < m")
    case True
    then have "go (length out)" using Suc.prems(1) [of "length out"] by simp
    moreover have "drop r sig = sig ! r # drop (Suc r) sig" using Suc.prems(4) by (simp add: Cons_nth_drop_Suc)
    moreover obtain k where "m - length out = Suc k" "m - Suc (length out) = k"
      using True by (metis Suc_diff_Suc diff_Suc_Suc)
    ultimately show ?thesis
      using Suc.IH [of "out @ [digit_char (sig ! r)]" "Suc r"] Suc.prems True
      by (simp add: put_def digit_char_def)
  next
    case False
    then show ?thesis using Suc.prems by simp
  qed
qed simp

lemma copy_digits_all:
  "r + n \<le> length sig \<Longrightarrow> length out + n \<le> BSON_DECIMAL128_STRING \<Longrightarrow>
    copy_digits (\<lambda>_. True) n sig r out = Inr (out @ map digit_char (take n (drop r sig)), r + n)"
  by (induction n arbitrary: r out) (simp_all add: put_def digit_char_def Cons_nth_drop_Suc [symmetric])

lemma put_zeros_spec:
  "length out \<le> 42 \<Longrightarrow> \<exists>k p'. put_zeros p out = Inr (out @ replicate k 0x30, p') \<and> length out + k \<le> 42
    \<and> k \<le> nat (- p) \<and> p' \<le> max (p + 1) 1 \<and> (length out + nat (- p) \<le> 42 \<longrightarrow> k = nat (- p) \<and> p' = max (p + 1) 1)"
proof (induction p out rule: put_zeros.induct)
  case (1 p out)
  show ?case
  proof (cases "p < 0 \<and> length out \<noteq> 42")
    case False
    then show ?thesis using 1(2)
      by (intro exI [of _ 0] exI [of _ "p + 1"]) (auto simp: put_zeros.simps [of p] BSON_DECIMAL128_STRING_def)
  next
    case True
    then have l: "length (out @ [0x30]) \<le> 42" "put 0x30 out = Inr (out @ [0x30])"
      using 1(2) by (simp_all add: put_def BSON_DECIMAL128_STRING_def)
    from "1.IH" [OF _ l(2) l(1)] True obtain k p' where k: "put_zeros (p + 1) (out @ [0x30]) = Inr ((out @ [0x30]) @ replicate k 0x30, p')"
      "length (out @ [0x30]) + k \<le> 42" "k \<le> nat (- (p + 1))" "p' \<le> max (p + 1 + 1) 1"
      "length (out @ [0x30]) + nat (- (p + 1)) \<le> 42 \<longrightarrow> k = nat (- (p + 1)) \<and> p' = max (p + 1 + 1) 1"
      by (auto simp: BSON_DECIMAL128_STRING_def)
    have "put_zeros p out = Inr (out @ replicate (Suc k) 0x30, p')"
      using True l(2) k(1) by (simp add: put_zeros.simps [of p] BSON_DECIMAL128_STRING_def replicate_app_Cons_same)
    moreover have "length out + Suc k \<le> 42" using k(2) by simp
    moreover have "Suc k \<le> nat (- p)" "p' \<le> max (p + 1) 1"
      "length out + nat (- p) \<le> 42 \<longrightarrow> Suc k = nat (- p) \<and> p' = max (p + 1) 1"
      using True k(3,4,5) by auto
    ultimately show ?thesis by blast
  qed
qed

section \<open>The reference string\<close>

definition dec128_string :: "bool \<Rightarrow> nat \<Rightarrow> int \<Rightarrow> byte list" where
  "dec128_string neg coefficient exponent =
     (let ds = dec coefficient; n = int (length ds); scientific = n - 1 + exponent in
      (if neg then [0x2D] else [])
      @ (if scientific < - 6 \<or> exponent > 0
         then hd ds # (if tl ds = [] then [] else 0x2E # tl ds) @ 0x45 # signed_dec scientific
         else if exponent = 0 then ds
         else if n + exponent > 0 then take (nat (n + exponent)) ds @ 0x2E # drop (nat (n + exponent)) ds
         else 0x30 # 0x2E # replicate (nat (- (n + exponent))) 0x30 @ ds))"

text \<open>What the code prints after the sign, for \<open>n\<close> digits that start at \<open>r\<close>.\<close>

lemma dec128_scientific_spec:
  assumes "r + n \<le> length sig" and "0 < n" and "length out \<le> 1"
  shows "\<exists>s. dec128_scientific (int n) e sig r out = Inr s \<and> length s \<le> 42
    \<and> (n \<le> 34 \<longrightarrow> length (signed_dec e) \<le> 5 \<longrightarrow>
        (let ds = map digit_char (take n (drop r sig)) in
         s = out @ hd ds # (if tl ds = [] then [] else 0x2E # tl ds) @ 0x45 # signed_dec e))"
proof -
  define d where "d = digit_char (sig ! r)"
  define ds where "ds = map digit_char (take (n - 1) (drop (Suc r) sig))"
  have all: "map digit_char (take n (drop r sig)) = d # ds" "length ds = n - 1"
    using assms(1,2) by (cases n; simp add: d_def ds_def Cons_nth_drop_Suc [symmetric])+
  have 1: "copy_digits (\<lambda>_. True) 1 sig r out = Inr (out @ [d], Suc r)"
    using assms by (simp add: put_def BSON_DECIMAL128_STRING_def d_def digit_char_def)
  define out2 where "out2 = (if n = 1 then out @ [d] else out @ [d, 0x2E])"
  have 2: "(if int n - 1 \<noteq> 0 then put 0x2E (out @ [d]) else Inr (out @ [d])) = Inr out2" "length out2 \<le> 3"
    using assms by (auto simp: out2_def put_def BSON_DECIMAL128_STRING_def)
  define k where "k = min (n - 1) (36 - length out2)"
  have 3: "copy_digits (\<lambda>l. l < 36) (n - 1) sig (Suc r) out2 = Inr (out2 @ take k ds, Suc r + k)"
    using assms(1,2) 2(2)
    by (subst copy_digits_spec [where m = 36]) (auto simp: BSON_DECIMAL128_STRING_def ds_def k_def take_map)
  have k: "length (out2 @ take k ds) \<le> 36" using 2(2) by (simp add: k_def)
  have 4: "put 0x45 (out2 @ take k ds) = Inr ((out2 @ take k ds) @ [0x45])"
    using k by (simp add: put_def BSON_DECIMAL128_STRING_def)
  have 5: "put_snprintf 6 (signed_dec e) ((out2 @ take k ds) @ [0x45])
      = Inr (((out2 @ take k ds) @ [0x45]) @ take 5 (signed_dec e))"
    using k by (simp add: put_snprintf_def BSON_DECIMAL128_STRING_def)
  have n1: "nat (int n - 1) = n - 1" by simp
  have eval: "dec128_scientific (int n) e sig r out = Inr (((out2 @ take k ds) @ [0x45]) @ take 5 (signed_dec e))"
    unfolding dec128_scientific_def 1 bind_res_simps prod.case 2(1) n1 3 4 5 ..
  have "take k ds = ds" if "n \<le> 34" using that assms(2,3) all(2) by (simp add: k_def out2_def min_def) arith
  moreover have "ds = [] \<longleftrightarrow> n = 1" using all(2) assms(2) by auto
  ultimately show ?thesis
    using k unfolding eval all(1) by (auto simp: out2_def Let_def)
qed

lemma dec128_regular_spec:
  assumes "r + n \<le> length sig" and "0 < n" and "n \<le> 36" and "length out \<le> 1"
    and "- 6 \<le> int n - 1 + e" and "e \<le> 0"
  shows "\<exists>s. dec128_regular (int n) e sig r out = Inr s \<and> length s \<le> 42
    \<and> (n \<le> 34 \<or> e = 0 \<and> n \<le> 35 \<longrightarrow>
        (let ds = map digit_char (take n (drop r sig)) in
         s = out @ (if e = 0 then ds
           else if int n + e > 0 then take (nat (int n + e)) ds @ 0x2E # drop (nat (int n + e)) ds
           else 0x30 # 0x2E # replicate (nat (- (int n + e))) 0x30 @ ds)))"
proof -
  define ds where "ds = map digit_char (take n (drop r sig))"
  have lds: "length ds = n" using assms(1) by (simp add: ds_def)
  have copy: "copy_digits go (nat i) sig r' out' = Inr (out' @ take (min (nat i) (m - length out')) (drop (r' - r) ds),
      r' + min (nat i) (m - length out'))"
    if "\<And>l. length out' \<le> l \<Longrightarrow> l \<le> m \<Longrightarrow> go l \<longleftrightarrow> l < m" "length out' \<le> m" "m \<le> 43"
      "r \<le> r'" "r' + nat i \<le> r + n" for go i r' out' m
  proof -
    have "drop (r' - r) ds = map digit_char (take (n - (r' - r)) (drop r' sig))"
      using that(4) by (simp add: ds_def drop_map drop_take)
    moreover have "min (nat i) (m - length out') \<le> n - (r' - r)" using that(4,5) by arith
    ultimately show ?thesis
      using that assms(1) by (subst copy_digits_spec [where m = m]) (auto simp: BSON_DECIMAL128_STRING_def take_map min_def)
  qed
  have nul: "put_nul s = Inr s" if "length s \<le> 42" for s
    using that by (simp add: put_nul_def put_def BSON_DECIMAL128_STRING_def)
  show ?thesis
  proof (cases "e = 0")
    case True
    let ?s = "out @ take (min n (36 - length out)) ds"
    have "dec128_regular (int n) e sig r out = Inr ?s"
      using copy [of out 36 "\<lambda>l. l < 36" r "int n"] assms(4) True nul [of ?s] by (simp add: dec128_regular_def)
    then show ?thesis using True assms(4) lds unfolding ds_def [symmetric] by (auto simp: min_def)
  next
    case False
    let ?p = "int n + e"
    define q where "q = nat ?p"
    have q: "q < n" using assms(2,6) False by (simp add: q_def)
    let ?out1 = "if ?p > 0 then out @ take q ds else out @ [0x30]"
    have 1: "(if ?p > 0 then copy_digits (\<lambda>l. l \<noteq> 42) q sig r out else map_res (\<lambda>out. (out, r)) (put 0x30 out))
        = Inr (?out1, if ?p > 0 then r + q else r)"
    proof (cases "?p > 0")
      case True
      have "copy_digits (\<lambda>l. l \<noteq> 42) (nat ?p) sig r out = Inr (out @ take (min (nat ?p) (42 - length out)) (drop (r - r) ds),
          r + min (nat ?p) (42 - length out))"
        using True assms(3,4) q by (intro copy) (auto simp: q_def)
      moreover have "min (nat ?p) (42 - length out) = q" using assms(3,4) q by (simp add: q_def)
      ultimately show ?thesis using True by (simp add: q_def)
    next
      case False
      then show ?thesis using assms(4) by (simp add: put_def BSON_DECIMAL128_STRING_def)
    qed
    let ?out2 = "?out1 @ [0x2E]"
    have l2: "length ?out2 \<le> length out + 1 + max 1 q" using lds q by auto
    have 2: "put 0x2E ?out1 = Inr ?out2"
      using l2 assms(3,4) q by (auto simp: put_def BSON_DECIMAL128_STRING_def)
    have l2': "length ?out2 \<le> 42" using l2 assms(3,4) q by simp
    obtain k p' where 3: "put_zeros ?p ?out2 = Inr (?out2 @ replicate k 0x30, p')" "length ?out2 + k \<le> 42"
      "k \<le> nat (- ?p)" "p' \<le> max (?p + 1) 1"
      "length ?out2 + nat (- ?p) \<le> 42 \<longrightarrow> k = nat (- ?p) \<and> p' = max (?p + 1) 1"
      using put_zeros_spec [OF l2', of ?p] by blast
    have small: "nat (- ?p) \<le> 5" using assms(5) by simp
    have fit: "length ?out2 + nat (- ?p) \<le> 42"
    proof (cases "?p > 0")
      case True
      then show ?thesis using l2' by simp
    next
      case False
      then have "length ?out2 \<le> 3" using assms(4) by simp
      then show ?thesis using small by simp
    qed
    then have k: "k = nat (- ?p)" "p' = max (?p + 1) 1" using 3(5) by auto
    let ?out3 = "?out2 @ replicate k 0x30"
    have dot: "max (p' - 1) 0 = int q" using k(2) by (auto simp: q_def)
    have r1: "(if ?p > 0 then r + q else r) = r + q" by (simp add: q_def)
    define w where "w = nat (min (int n - int q) (int 42 - int (length ?out3)))"
    have w: "w = min (n - q) (42 - length ?out3)" using q 3(2) unfolding w_def by simp
    let ?s = "?out3 @ take w (drop q ds)"
    have 4: "copy_digits (\<lambda>_. True) w sig (r + q) ?out3 = Inr (?s, r + q + w)"
    proof -
      have "take w (drop q ds) = map digit_char (take w (drop (r + q) sig))"
        using w by (simp add: ds_def drop_map drop_take take_map add.commute)
      moreover have "r + q + w \<le> length sig" "length ?out3 + w \<le> 43" using w q assms(1) 3(2) by auto
      ultimately show ?thesis by (subst copy_digits_all) (simp_all add: BSON_DECIMAL128_STRING_def)
    qed
    have ls: "length ?s \<le> 42" using w 3(2) lds by simp
    have len43: "BSON_DECIMAL128_STRING - 1 = 42" by (simp add: BSON_DECIMAL128_STRING_def)
    have eval: "dec128_regular (int n) e sig r out = Inr ?s"
      using False assms(6) unfolding dec128_regular_def Let_def len43 q_def [symmetric]
      unfolding 1 bind_res_simps prod.case 2 3(1) dot w_def [symmetric] r1 4 nul [OF ls] by simp
    have "w = n - q" if "n \<le> 34"
    proof -
      have "length ?out3 + (n - q) \<le> 42"
        using that small assms(4) lds q k(1) by (auto simp: q_def)
      then show ?thesis using w by simp
    qed
    then have "?s = out @ (if ?p > 0 then take q ds @ 0x2E # drop q ds
        else 0x30 # 0x2E # replicate (nat (- ?p)) 0x30 @ ds)" if "n \<le> 34"
      using that lds k(1) by (auto simp: q_def)
    then show ?thesis using eval ls False unfolding ds_def [symmetric] Let_def q_def by auto
  qed
qed

section \<open>The whole function\<close>

text \<open>The digits the code prints from, for a significand that is not zero.\<close>

lemma significand_digits:
  assumes "val128 v < 2 ^ 113" and "0 < val128 v"
  shows "\<exists>r n. skip_zeros (significand_loop 4 v (replicate 36 0)) 0 36 = Inr (r, int n) \<and> 0 < n
    \<and> r + n = length (significand_loop 4 v (replicate 36 0)) \<and> n \<le> 36
    \<and> map digit_char (take n (drop r (significand_loop 4 v (replicate 36 0)))) = dec (val128 v)"
proof -
  let ?s = "significand_loop 4 v (replicate 36 0)"
  have "9 * 4 \<le> length (replicate 36 (0 :: 32 word))"
    "take (9 * 4) (replicate 36 (0 :: 32 word)) = replicate (9 * 4) 0" by simp_all
  from significand_loop_spec [OF this, of v] have s: "length ?s = 36" "is_digits ?s" "dval ?s = val128 v"
    using mod_less [OF less_trans [OF assms(1), of "10 ^ 36"]] by auto
  note ds = dec_of_digits [OF s(2)]
  let ?z = "length (takeWhile (\<lambda>d. d = 0) ?s)"
  have drop: "dropWhile (\<lambda>d. d = 0) ?s = drop ?z ?s" by (rule dropWhile_eq_drop)
  have map: "map digit_char (drop ?z ?s) = dec (val128 v)" using ds assms(2) s(3) drop by simp
  then have z: "?z < 36" using s(1) dec_nonempty [of "val128 v"]
    by (metis drop_all linorder_not_less list.simps(8))
  have "\<exists>i \<ge> 0. i < length ?s \<and> ?s ! i \<noteq> 0"
    using z s(1) nth_length_takeWhile [of "\<lambda>d. d = 0" ?s] by auto
  from skip_zeros_spec [OF this, of 36] have "skip_zeros ?s 0 36 = Inr (?z, int (36 - ?z))"
    using z by (simp add: of_nat_diff)
  moreover have "take (36 - ?z) (drop ?z ?s) = drop ?z ?s" using s(1) by simp
  ultimately show ?thesis using z s(1) map by (intro exI [of _ ?z] exI [of _ "36 - ?z"]) simp
qed

lemma dec128_zero_digits:
  "map digit_char (take 1 (drop 0 (replicate 36 0))) = dec 0" "length (replicate 36 (0 :: 32 word)) = 36"
  by (simp_all add: digit_char_def dec.simps numeral_eq_Suc)

text \<open>Every value is printed into the buffer, and the string is the reference string when the
  coefficient has at most 34 digits.\<close>

lemma two_pow_32: "(2 :: nat) ^ 32 = 4294967296"
  by simp

lemma val128_bound:
  assumes "\<not> 131072 \<le> fst v"
  shows "val128 v < 2 ^ 113"
proof -
  obtain a b c d where v: "v = (a, b, c, d)" by (cases v)
  have "unat a < 131072" using assms v by (simp add: word_le_nat_alt)
  moreover have less: "x < y \<Longrightarrow> x * 4294967296 + unat (w :: 32 word) < y * 4294967296" for x y w
    using unat_u32_less' [of w] by linarith
  ultimately have "val128 v < ((131072 * 4294967296) * 4294967296) * 4294967296"
    unfolding v val128.simps by (simp only: less two_pow_32)
  then show ?thesis by simp
qed

lemma dec128_finite_spec:
  assumes f: "dec128_fields (ucast (drop_bit 32 high)) = Inr (biased, msb)"
    and v: "v = dec128_significand (ucast (drop_bit 32 high)) (ucast high) (ucast (drop_bit 32 low)) (ucast low) msb"
    and c: "c = (if 131072 \<le> fst v then 0 else val128 v)"
  shows "\<exists>s. bson_decimal128_to_string low high = Inr s \<and> length s \<le> 42
    \<and> (c < 10 ^ 34 \<or> uint biased = 6176 \<longrightarrow> uint biased < 12288 \<longrightarrow> s = dec128_string (sint high < 0) c (uint biased - 6176))"
proof -
  let ?e = "uint biased - 6176" and ?out = "if sint high < 0 then [0x2D] else []"
  define zero where "zero \<longleftrightarrow> v = (0, 0, 0, 0) \<or> 131072 \<le> fst v"
  define sig where "sig = (if zero then replicate 36 0 else significand_loop 4 v (replicate 36 0))"
  have z: "c = 0 \<longleftrightarrow> zero"
    unfolding c zero_def by (cases v) (auto simp: unat_eq_zero)
  have "\<exists>r n. (if zero then Inr (0, 1) else skip_zeros sig 0 36) = Inr (r, int n) \<and> 0 < n \<and> r + n \<le> length sig
      \<and> n \<le> 36 \<and> map digit_char (take n (drop r sig)) = dec c"
  proof (cases zero)
    case True
    then show ?thesis using z dec128_zero_digits
      by (intro exI [of _ 0] exI [of _ 1]) (simp add: sig_def)
  next
    case False
    then have "c = val128 v" "0 < c" "val128 v < 2 ^ 113"
      using z val128_bound [of v] by (auto simp: c zero_def)
    with significand_digits [of v] False show ?thesis by (auto simp: sig_def)
  qed
  then obtain r n where rn: "(if zero then Inr (0, 1) else skip_zeros sig 0 36) = Inr (r, int n)" "0 < n"
    "r + n \<le> length sig" "n \<le> 36" "map digit_char (take n (drop r sig)) = dec c" by blast
  have len: "length (dec c) = n" using arg_cong [OF rn(5), of length] rn(3) by simp
  have out: "(if sint high < 0 then put 0x2D [] else Inr []) = Inr ?out" "length ?out \<le> 1"
    by (simp_all add: put_def BSON_DECIMAL128_STRING_def)
  let ?sci = "int n - 1 + ?e"
  have eval: "bson_decimal128_to_string low high =
      (if ?sci < - 6 \<or> ?e > 0 then dec128_scientific (int n) ?sci sig r ?out
       else dec128_regular (int n) ?e sig r ?out)"
    unfolding bson_decimal128_to_string_def out(1) bind_res_simps Let_def f sum.case prod.case
      v [symmetric] zero_def [symmetric] sig_def [symmetric] rn(1) ..
  have short: "n \<le> 34" if "c < 10 ^ 34" using length_dec [OF that] len by simp
  have "c < 10 ^ 35" using val128_bound [of v] by (auto simp: c)
  then have "n \<le> 35" using length_dec [of c 35] len by simp
  show ?thesis
  proof (cases "?sci < - 6 \<or> ?e > 0")
    case True
    have "length (signed_dec ?sci) \<le> 5" if "c < 10 ^ 34" "uint biased < 12288"
    proof -
      have "\<bar>?sci\<bar> < 10000" using short [OF that(1)] that(2) uint_nonnegative [of biased] rn(2) by arith
      then have "nat \<bar>?sci\<bar> < 10 ^ 4" by simp
      then show ?thesis using length_dec [of "nat \<bar>?sci\<bar>" 4] by (simp add: signed_dec_def)
    qed
    with dec128_scientific_spec [OF rn(3,2) out(2), of ?sci] show ?thesis
      using True short \<open>n \<le> 35\<close> unfolding eval dec128_string_def len rn(5) Let_def by auto
  next
    case False
    then have "- 6 \<le> ?sci" "?e \<le> 0" by auto
    from dec128_regular_spec [OF rn(3,2,4) out(2) this] show ?thesis
      using False short \<open>n \<le> 35\<close> unfolding eval dec128_string_def len rn(5) Let_def by auto
  qed
qed

section \<open>The binary encoding\<close>

text \<open>
  The two halves of the value with a coefficient below 2^113 and a biased exponent below
  \<open>3 * 2 ^ 12\<close>: the sign, 14 bits of exponent, 113 bits of coefficient.
\<close>

definition bid_high :: "bool \<Rightarrow> nat \<Rightarrow> nat \<Rightarrow> 64 word" where
  "bid_high neg c e = of_nat ((if neg then 2 ^ 63 else 0) + e * 2 ^ 49 + c div 2 ^ 64)"

definition bid_low :: "nat \<Rightarrow> 64 word" where
  "bid_low c = of_nat (c mod 2 ^ 64)"

lemma unat_and_mask:
  "unat ((w :: 'a::len word) AND mask n) = unat w mod 2 ^ n"
  by (simp only: take_bit_eq_mask [symmetric] unsigned_take_bit_eq take_bit_eq_mod [of n "unat w"])

lemma unat_drop_bit: "unat (drop_bit n (w :: 'a::len word)) = unat w div 2 ^ n"
  by (simp only: unsigned_drop_bit_eq take_bit_nat_eq_self [OF unsigned_less] drop_bit_eq_div [of n "unat w"])

lemma unat_bid:
  assumes "c < 2 ^ 113" and "e < 12288"
  shows "unat (bid_high neg c e) = (if neg then 2 ^ 63 else 0) + e * 2 ^ 49 + c div 2 ^ 64"
    and "unat (bid_low c) = c mod 2 ^ 64"
    and "unat (ucast (drop_bit 32 (bid_high neg c e)) :: 32 word)
      = (if neg then 2 ^ 31 else 0) + e * 2 ^ 17 + c div 2 ^ 96"
proof -
  have c: "c div 2 ^ 64 < 2 ^ 49" using assms(1) by (simp add: less_mult_imp_div_less)
  then show h: "unat (bid_high neg c e) = (if neg then 2 ^ 63 else 0) + e * 2 ^ 49 + c div 2 ^ 64"
    using assms(2) by (intro of_nat_inverse [OF bid_high_def [symmetric]]) simp
  show "unat (bid_low c) = c mod 2 ^ 64"
    by (simp add: bid_low_def unat_of_nat take_bit_nat_eq_self_iff)
  have "unat (drop_bit 32 (bid_high neg c e)) = unat (bid_high neg c e) div 2 ^ 32"
    by (rule unat_drop_bit)
  also have "\<dots> = (((if neg then 2 ^ 31 else 0) + e * 2 ^ 17) * 2 ^ 32 + c div 2 ^ 64) div 2 ^ 32"
    unfolding h by (cases neg) (simp_all add: distrib_right)
  also have "\<dots> = (if neg then 2 ^ 31 else 0) + e * 2 ^ 17 + c div 2 ^ 64 div 2 ^ 32"
    by (rule div_mult_self3) simp
  also have "c div 2 ^ 64 div 2 ^ 32 = c div 2 ^ 96" by (simp add: div_mult2_eq [symmetric])
  finally have d: "unat (drop_bit 32 (bid_high neg c e)) = (if neg then 2 ^ 31 else 0) + e * 2 ^ 17 + c div 2 ^ 96" .
  have "c div 2 ^ 96 < 2 ^ 17" using assms(1) by (simp add: less_mult_imp_div_less)
  then have "unat (drop_bit 32 (bid_high neg c e)) < 2 ^ 32" using d assms(2) by simp
  then show "unat (ucast (drop_bit 32 (bid_high neg c e)) :: 32 word)
      = (if neg then 2 ^ 31 else 0) + e * 2 ^ 17 + c div 2 ^ 96"
    using d by (simp add: unsigned_ucast_eq take_bit_nat_eq_self_iff)
qed

lemma bid_fields:
  assumes "c < 2 ^ 113" and "e < 12288"
  shows "\<exists>biased msb. dec128_fields (ucast (drop_bit 32 (bid_high neg c e))) = Inr (biased, msb)
    \<and> unat biased = e
    \<and> fst (dec128_significand (ucast (drop_bit 32 (bid_high neg c e))) x y z msb) = of_nat (c div 2 ^ 96)"
proof -
  define h :: "32 word" where "h = ucast (drop_bit 32 (bid_high neg c e))"
  define d where "d = c div 2 ^ 96"
  have d: "d < 2 ^ 17" using assms(1) by (simp add: d_def less_mult_imp_div_less)
  have h: "unat h = (if neg then 1 else 0) * 2 ^ 31 + (e * 2 ^ 17 + d)"
    using unat_bid(3) [OF assms, of neg] by (simp add: h_def d_def)
  have masks: "(0x1F :: 32 word) = mask 5" "(0x3FFF :: 32 word) = mask 14" "(7 :: 32 word) = mask 3"
      "(0xF :: 32 word) = mask 4"
    by (simp_all add: mask_eq_exp_minus_1)
  have top: "unat h div 2 ^ 17 = (if neg then 1 else 0) * 2 ^ 14 + e"
    unfolding h using d by (cases neg) simp_all
  have "unat (drop_bit 3 (drop_bit 26 h AND 0x1F)) = unat h div 2 ^ 26 mod 2 ^ 5 div 2 ^ 3"
    unfolding masks by (simp only: unat_drop_bit unat_and_mask)
  also have "\<dots> = unat h div 2 ^ 26 div 2 ^ 3 mod 2 ^ 2"
  proof -
    have "m mod 32 div 8 = m div 8 mod 4" for m :: nat
      using drop_bit_take_bit [of 3 5 m] by (simp add: drop_bit_eq_div take_bit_eq_mod)
    then show ?thesis by simp
  qed
  also have "\<dots> = unat h div 2 ^ 17 div 2 ^ 12 mod 2 ^ 2" by (simp add: div_mult2_eq [symmetric])
  also have "\<dots> = ((if neg then 1 else 0) * 4 * 2 ^ 12 + e) div 2 ^ 12 mod 2 ^ 2"
    unfolding top by (cases neg) simp_all
  also have "\<dots> = ((if neg then 1 else 0) * 4 + e div 2 ^ 12) mod 2 ^ 2"
    by (subst div_mult_self3) simp_all
  also have "\<dots> = e div 2 ^ 12" using assms(2) by (cases neg) (simp_all add: less_mult_imp_div_less)
  finally have "drop_bit 3 (drop_bit 26 h AND 0x1F) \<noteq> 3" using assms(2) by auto
  then have f: "dec128_fields h = Inr (drop_bit 17 h AND 0x3FFF, drop_bit 14 h AND 7)"
    by (simp add: dec128_fields_def Let_def)
  have "unat (drop_bit 17 h AND 0x3FFF) = unat h div 2 ^ 17 mod 2 ^ 14"
    unfolding masks by (simp only: unat_drop_bit unat_and_mask)
  then have e: "unat (drop_bit 17 h AND 0x3FFF) = e"
    unfolding top using assms(2) by (cases neg) simp_all
  have "unat (fst (dec128_significand h x y z (drop_bit 14 h AND 7))) = d"
  proof -
    let ?m = "drop_bit 14 h AND 7"
    have "unat ?m = unat h div 2 ^ 14 mod 2 ^ 3" unfolding masks by (simp only: unat_drop_bit unat_and_mask)
    also have "unat h = ((if neg then 1 else 0) * 2 ^ 14 + e) * 2 ^ 3 * 2 ^ 14 + d"
      unfolding h by (simp add: distrib_right)
    also have "\<dots> div 2 ^ 14 = ((if neg then 1 else 0) * 2 ^ 14 + e) * 2 ^ 3 + d div 2 ^ 14"
      by (rule div_mult_self3) simp
    also have "\<dots> mod 2 ^ 3 = d div 2 ^ 14 mod 2 ^ 3" by (rule mod_mult_self3)
    also have "\<dots> = d div 2 ^ 14" using d by (simp add: less_mult_imp_div_less)
    finally have m: "unat ?m = d div 2 ^ 14" .
    have m8: "d div 2 ^ 14 < 8" using d by (simp add: less_mult_imp_div_less)
    have m4: "unat (?m AND 0xF) = d div 2 ^ 14"
      unfolding masks(4) unat_and_mask m using m8 by simp
    have "push_bit 14 (?m AND 0xF) = (?m AND 0xF) * 16384" by (simp add: push_bit_eq_mult)
    moreover have "unat ((?m AND 0xF) * 16384) = d div 2 ^ 14 * 16384"
      using m4 m8 unat_mult_lem [of "?m AND 0xF" 16384] by simp
    moreover have "unat (h AND 0x3FFF) = d mod 2 ^ 14"
    proof -
      have "unat (h AND 0x3FFF) = unat h mod 2 ^ 14" unfolding masks by (rule unat_and_mask)
      also have "unat h = (((if neg then 1 else 0) * 2 ^ 14 + e) * 2 ^ 3) * 2 ^ 14 + d"
        unfolding h by (simp add: distrib_right)
      also have "\<dots> mod 2 ^ 14 = d mod 2 ^ 14" by (rule mod_mult_self3)
      finally show ?thesis .
    qed
    moreover have "d mod 2 ^ 14 + d div 2 ^ 14 * 16384 = d" using mod_div_mult_eq [of d "2 ^ 14"] by simp
    ultimately show ?thesis
      using d unat_add_lem [of "h AND 0x3FFF" "(?m AND 0xF) * 16384"] by (simp add: dec128_significand_def)
  qed
  then have "fst (dec128_significand h x y z (drop_bit 14 h AND 7)) = of_nat d"
    by (metis of_nat_unat ucast_id)
  then show ?thesis using f e unfolding h_def [symmetric] d_def by blast
qed

lemma unat_ucast_32: "unat (ucast (w :: 64 word) :: 32 word) = unat w mod 2 ^ 32"
  by (simp add: unsigned_ucast_eq take_bit_eq_mod)

lemma val128_bid:
  assumes "c < 2 ^ 113" and "e < 12288"
  shows "val128 (of_nat (c div 2 ^ 96), ucast (bid_high neg c e), ucast (drop_bit 32 (bid_low c)),
    ucast (bid_low c)) = c"
proof -
  have "c div 2 ^ 96 < 2 ^ 17" using assms(1) by (simp add: less_mult_imp_div_less)
  then have p0: "unat (of_nat (c div 2 ^ 96) :: 32 word) = c div 2 ^ 96"
    by (intro of_nat_inverse [OF refl]) simp
  have "unat (bid_high neg c e) = ((if neg then 2 ^ 31 else 0) + e * 2 ^ 17) * 2 ^ 32 + c div 2 ^ 64"
    using unat_bid(1) [OF assms] by (cases neg) (simp_all add: distrib_right)
  then have p1: "unat (ucast (bid_high neg c e) :: 32 word) = c div 2 ^ 64 mod 2 ^ 32"
    by (simp only: unat_ucast_32 mod_mult_self3)
  have "c mod 2 ^ 64 div 2 ^ 32 < 2 ^ 32" by (rule less_mult_imp_div_less) simp
  then have p2: "unat (ucast (drop_bit 32 (bid_low c)) :: 32 word) = c mod 2 ^ 64 div 2 ^ 32"
    unfolding unat_ucast_32 unat_drop_bit unat_bid(2) [OF assms] by (rule mod_less)
  have p3: "unat (ucast (bid_low c) :: 32 word) = c mod 2 ^ 64 mod 2 ^ 32"
    by (simp only: unat_ucast_32 unat_bid(2) [OF assms])
  have "c div 2 ^ 96 = c div 2 ^ 64 div 2 ^ 32" by (simp add: div_mult2_eq [symmetric])
  then have "c div 2 ^ 96 * 2 ^ 32 + c div 2 ^ 64 mod 2 ^ 32 = c div 2 ^ 64"
    by (simp only: div_mult_mod_eq)
  then have "val128 (of_nat (c div 2 ^ 96), ucast (bid_high neg c e), ucast (drop_bit 32 (bid_low c)), ucast (bid_low c))
      = (c div 2 ^ 64 * 2 ^ 32 + c mod 2 ^ 64 div 2 ^ 32) * 2 ^ 32 + c mod 2 ^ 64 mod 2 ^ 32"
    by (simp only: val128.simps p0 p1 p2 p3)
  also have "\<dots> = c div 2 ^ 64 * 2 ^ 64 + (c mod 2 ^ 64 div 2 ^ 32 * 2 ^ 32 + c mod 2 ^ 64 mod 2 ^ 32)"
    by (simp add: distrib_right)
  also have "\<dots> = c" by (simp only: div_mult_mod_eq)
  finally show ?thesis .
qed

lemma sint_bid_high:
  assumes "c < 2 ^ 113" and "e < 12288"
  shows "sint (bid_high neg c e) < 0 \<longleftrightarrow> neg"
proof -
  have "c div 2 ^ 64 < 2 ^ 49" using assms(1) by (simp add: less_mult_imp_div_less)
  then have "e * 2 ^ 49 + c div 2 ^ 64 < 2 ^ 63" using assms(2) by simp
  then have "unat (bid_high neg c e) div 2 ^ 63 = (if neg then 1 else 0)"
    unfolding unat_bid(1) [OF assms] by (cases neg) (simp_all add: div_add_self1)
  then have "bit (unat (bid_high neg c e)) 63 \<longleftrightarrow> neg" by (simp add: bit_iff_odd)
  then have "bit (bid_high neg c e) 63 \<longleftrightarrow> neg" by (simp add: Word.bit_unsigned_iff)
  then show ?thesis by (simp add: sint_uint signed_take_bit_negative_iff Word.bit_unsigned_iff)
qed

lemma decimal128_string_spec:
  assumes "c < 10 ^ 34 \<or> c < 2 ^ 113 \<and> e = 6176" and "e < 12288"
  shows "bson_decimal128_to_string (bid_low c) (bid_high neg c e) = Inr (dec128_string neg c (int e - 6176))"
proof -
  have c: "c < 2 ^ 113" using assms(1) by auto
  obtain biased msb where f: "dec128_fields (ucast (drop_bit 32 (bid_high neg c e))) = Inr (biased, msb)"
      "unat biased = e"
    and p0: "fst (dec128_significand (ucast (drop_bit 32 (bid_high neg c e))) (ucast (bid_high neg c e))
      (ucast (drop_bit 32 (bid_low c))) (ucast (bid_low c)) msb) = of_nat (c div 2 ^ 96)"
    using bid_fields [OF c assms(2)] by blast
  define v where "v = dec128_significand (ucast (drop_bit 32 (bid_high neg c e))) (ucast (bid_high neg c e))
      (ucast (drop_bit 32 (bid_low c))) (ucast (bid_low c)) msb"
  have v: "v = (of_nat (c div 2 ^ 96), ucast (bid_high neg c e), ucast (drop_bit 32 (bid_low c)), ucast (bid_low c))"
    using p0 by (simp add: v_def dec128_significand_def)
  have d: "c div 2 ^ 96 < 2 ^ 17" using c by (simp add: less_mult_imp_div_less)
  then have "unat (of_nat (c div 2 ^ 96) :: 32 word) = c div 2 ^ 96"
    by (intro of_nat_inverse [OF refl]) simp
  then have "\<not> 131072 \<le> fst v" using d by (simp add: v word_le_nat_alt)
  then have "c = (if 131072 \<le> fst v then 0 else val128 v)"
    using val128_bid [OF c assms(2)] by (simp only: v if_False)
  moreover have "(sint (bid_high neg c e) < 0) = neg" by (rule sint_bid_high [OF c assms(2)])
  moreover have "uint biased = int (unat biased)" by simp
  ultimately show ?thesis
    using dec128_finite_spec [OF f(1) v_def] assms f(2) by auto
qed

lemma decimal128_in_buffer:
  "\<exists>s. bson_decimal128_to_string low high = Inr s \<and> length s \<le> 42"
proof (cases "dec128_fields (ucast (drop_bit 32 high))")
  case (Inl nan)
  then show ?thesis
    by (cases nan) (auto simp: bson_decimal128_to_string_def put_def BSON_DECIMAL128_STRING_def)
next
  case (Inr f)
  then obtain biased msb where "dec128_fields (ucast (drop_bit 32 high)) = Inr (biased, msb)" by (cases f) auto
  from dec128_finite_spec [OF this refl refl] show ?thesis by blast
qed

end
