(* ===== verification/RValue.thy ===== *)
theory RValue
  imports DocNest Decimal128 Oid "HOL-Library.Signed_Division"
begin

text \<open>
  The conversion of BSON to values of R, \<open>src/src/bson.c\<close> and \<open>bson2list\<close> of
  \<open>src/src/utils.c\<close> of mongolite: one definition per \<open>Convert\<close> function. A vector of R is a list
  that is allocated with its final length and then assigned to by index, an assignment past the
  end being a fault. Where the code computes a \<open>double\<close>, the model keeps the operation and its
  operand: \<open>rnum\<close> is the number before rounding.
\<close>

section \<open>Values of R\<close>

datatype rnum =
    Dbl "64 word"          \<comment> \<open>the bits of a double\<close>
  | OfInt int              \<comment> \<open>\<open>(double) i\<close>\<close>
  | Thousandth int         \<comment> \<open>\<open>i / 1000.0\<close>\<close>
  | Strtod "byte list"     \<comment> \<open>\<open>strtod\<close> of a string\<close>

datatype sexp =
    R_nil | R_lgl bool | R_int int | R_real rnum | R_str "byte list"
  | R_raw "byte list" byte              \<comment> \<open>raw vector with its \<open>type\<close> attribute\<close>
  | R_posixct rnum
  | R_list "sexp list" | R_named "byte list list" "sexp list"

definition NA_INTEGER :: int where
  "NA_INTEGER = - (2 ^ 31)"

text \<open>The globals \<open>bigint_as_char\<close> and \<open>date_as_char\<close>.\<close>

record conv_opts =
  bigint_as_char :: bool
  date_as_char :: bool

text \<open>\<open>mkStringUTF8\<close>: R copies the string up to its NUL.\<close>

definition mkStringUTF8 :: "byte list option \<Rightarrow> sexp res" where
  "mkStringUTF8 str = bind_res (deref str) (\<lambda>m. map_res (\<lambda>_. R_str (c_str m)) (c_strlen m))"

definition set_elt :: "'a list \<Rightarrow> nat \<Rightarrow> 'a \<Rightarrow> 'a list res" where
  "set_elt xs i v = (if i < length xs then Inr (xs[i := v]) else Inl OutOfBounds)"

section \<open>Dates\<close>

text \<open>
  \<open>gmtime\<close>: the day of the proleptic Gregorian calendar and the time of the day of a number of
  seconds since 1970. Days are counted from 1 March of the year 0, in eras of 400 years.
\<close>

definition civil_of_days :: "int \<Rightarrow> int \<times> int \<times> int" where
  "civil_of_days days =
     (let z = days + 719468; era = z div 146097; doe = z mod 146097;
          yoe = (doe - doe div 1460 + doe div 36524 - doe div 146096) div 365;
          doy = doe - (365 * yoe + yoe div 4 - yoe div 100);
          mp = (5 * doy + 2) div 153; d = doy - (153 * mp + 2) div 5 + 1;
          m = (if mp < 10 then mp + 3 else mp - 9)
      in (yoe + era * 400 + (if m \<le> 2 then 1 else 0), m, d))"

text \<open>Two digits, and the characters of \<open>%d\<close>.\<close>

definition two_digits :: "int \<Rightarrow> byte list" where
  "two_digits i = [of_int (48 + i div 10), of_int (48 + i mod 10)]"

definition show_int :: "int \<Rightarrow> byte list" where
  "show_int i = (if i < 0 then 0x2D # dec (nat (- i)) else dec (nat i))"

text \<open>\<open>strftime\<close> with \<open>%Y-%m-%dT%H:%M:%S\<close> of \<open>gmtime\<close>.\<close>

definition iso_time :: "int \<Rightarrow> byte list" where
  "iso_time secs =
     (let days = secs div 86400; sod = secs mod 86400 in
      case civil_of_days days of (y, m, d) \<Rightarrow>
        show_int y @ 0x2D # two_digits m @ 0x2D # two_digits d @ 0x54 # two_digits (sod div 3600)
        @ 0x3A # two_digits (sod mod 3600 div 60) @ 0x3A # two_digits (sod mod 60))"

text \<open>\<open>%03d\<close>: the width counts the sign.\<close>

definition show_03d :: "int \<Rightarrow> byte list" where
  "show_03d i =
     (if i < 0 then let ds = dec (nat (- i)) in 0x2D # replicate (2 - length ds) 0x30 @ ds
      else let ds = dec (nat i) in replicate (3 - length ds) 0x30 @ ds)"

definition date_string :: "int \<Rightarrow> byte list" where
  "date_string epoch = iso_time (epoch sdiv 1000) @ 0x2E # show_03d (epoch smod 1000) @ [0x5A]"

section \<open>The conversions\<close>

definition ConvertTimestamp :: "bson_iter \<Rightarrow> sexp res" where
  "ConvertTimestamp it = map_res (\<lambda>(timestamp, increment).
     R_named [[0x74], [0x69]] [R_int (sint timestamp), R_int (sint increment)]) (bson_iter_timestamp it)"

definition ConvertDate :: "conv_opts \<Rightarrow> bson_iter \<Rightarrow> sexp res" where
  "ConvertDate opts it = map_res (\<lambda>w.
     if date_as_char opts then R_str (date_string (sint w)) else R_posixct (Thousandth (sint w)))
     (bson_iter_date_time it)"

definition ConvertDec128 :: "bson_iter \<Rightarrow> sexp res" where
  "ConvertDec128 it = bind_res (bson_iter_decimal128 it) (\<lambda>d. bind_res (deref d) (\<lambda>(low, high).
     map_res (\<lambda>s. R_real (Strtod s)) (bson_decimal128_to_string low high)))"

definition ConvertBinary :: "bson_iter \<Rightarrow> sexp res" where
  "ConvertBinary it = bind_res (bson_iter_binary it True) (\<lambda>(subtype, binary_len, binary).
     bind_res (deref binary) (\<lambda>m. map_res (\<lambda>bs. R_raw bs subtype) (rd_range m 0 binary_len)))"

text \<open>\<open>while (bson_iter_next (counter)) count++\<close>\<close>

fun count_loop :: "nat \<Rightarrow> bson_iter \<Rightarrow> nat \<Rightarrow> nat res" where
  "count_loop 0 counter count = Inl NoFuel"
| "count_loop (Suc fuel) counter count =
     bind_res (bson_iter_next counter) (\<lambda>(ok, counter).
       if ok then count_loop fuel counter (count + 1) else Inr count)"

fun fill_array :: "(bson_iter \<Rightarrow> sexp res) \<Rightarrow> nat \<Rightarrow> bson_iter \<Rightarrow> nat \<Rightarrow> sexp list \<Rightarrow> sexp list res" where
  "fill_array conv 0 it i ret = Inl NoFuel"
| "fill_array conv (Suc fuel) it i ret =
     bind_res (bson_iter_next it) (\<lambda>(ok, it).
       if \<not> ok then Inr ret
       else bind_res (conv it) (\<lambda>v. bind_res (set_elt ret i v) (fill_array conv fuel it (i + 1))))"

definition ConvertArray :: "(bson_iter \<Rightarrow> sexp res) \<Rightarrow> bson_iter \<Rightarrow> bson_iter \<Rightarrow> sexp res" where
  "ConvertArray conv it counter =
     bind_res (count_loop (Suc (it_len counter)) counter 0) (\<lambda>count.
       map_res R_list (fill_array conv (Suc (it_len it)) it 0 (replicate count R_nil)))"

fun fill_object ::
    "(bson_iter \<Rightarrow> sexp res) \<Rightarrow> nat \<Rightarrow> bson_iter \<Rightarrow> nat \<Rightarrow> byte list list \<Rightarrow> sexp list
      \<Rightarrow> (byte list list \<times> sexp list) res" where
  "fill_object conv 0 it i names ret = Inl NoFuel"
| "fill_object conv (Suc fuel) it i names ret =
     bind_res (bson_iter_next it) (\<lambda>(ok, it).
       if \<not> ok then Inr (names, ret)
       else bind_res (bson_iter_key it) (\<lambda>key. bind_res (c_strlen key) (\<lambda>_.
            bind_res (set_elt names i (c_str key)) (\<lambda>names.
            bind_res (conv it) (\<lambda>v. bind_res (set_elt ret i v) (\<lambda>ret.
              fill_object conv fuel it (i + 1) names ret))))))"

definition ConvertObject :: "(bson_iter \<Rightarrow> sexp res) \<Rightarrow> bson_iter \<Rightarrow> bson_iter \<Rightarrow> sexp res" where
  "ConvertObject conv it counter =
     bind_res (count_loop (Suc (it_len counter)) counter 0) (\<lambda>count.
       map_res (\<lambda>(names, ret). R_named names ret)
         (fill_object conv (Suc (it_len it)) it 0 (replicate count []) (replicate count R_nil)))"

text \<open>
  \<open>ConvertValue\<close>: a nested value costs one unit of fuel; a document of \<open>n\<close> bytes needs less
  than \<open>n\<close>. An element of another type is a warning and \<open>NULL\<close>.
\<close>

fun ConvertValue :: "conv_opts \<Rightarrow> nat \<Rightarrow> bson_iter \<Rightarrow> sexp res" where
  "ConvertValue opts 0 it = Inl NoFuel"
| "ConvertValue opts (Suc depth) it =
     bind_res (bson_iter_type it) (\<lambda>ty.
       if ty = type_byte BSON_TYPE_INT32 then
         map_res (\<lambda>w. if sint w = NA_INTEGER then R_real (OfInt (sint w)) else R_int (sint w)) (bson_iter_int32 it)
       else if ty = type_byte BSON_TYPE_NULL then Inr R_nil
       else if ty = type_byte BSON_TYPE_BOOL then map_res R_lgl (bson_iter_bool it)
       else if ty = type_byte BSON_TYPE_DOUBLE then map_res (\<lambda>d. R_real (Dbl d)) (bson_iter_double it)
       else if ty = type_byte BSON_TYPE_INT64 then
         map_res (\<lambda>w. if bigint_as_char opts then R_str (show_int (sint w)) else R_real (OfInt (sint w)))
           (bson_iter_int64 it)
       else if ty = type_byte BSON_TYPE_UTF8 then bind_res (bson_iter_utf8 it) (\<lambda>(s, _). mkStringUTF8 s)
       else if ty = type_byte BSON_TYPE_CODE then bind_res (bson_iter_code it) (\<lambda>(s, _). mkStringUTF8 s)
       else if ty = type_byte BSON_TYPE_BINARY then ConvertBinary it
       else if ty = type_byte BSON_TYPE_DATE_TIME then ConvertDate opts it
       else if ty = type_byte BSON_TYPE_DECIMAL128 then ConvertDec128 it
       else if ty = type_byte BSON_TYPE_TIMESTAMP then ConvertTimestamp it
       else if ty = type_byte BSON_TYPE_OID then
         bind_res (bson_iter_oid it) (\<lambda>val. map_res (\<lambda>val. R_str (c_str (bson_oid_to_string val))) (deref val))
       else if ty = type_byte BSON_TYPE_SYMBOL then bind_res (bson_iter_symbol it) (\<lambda>(s, _). mkStringUTF8 s)
       else if ty = type_byte BSON_TYPE_ARRAY then
         bind_res (bson_iter_recurse it) (\<lambda>child1. bind_res (deref child1) (\<lambda>child1.
         bind_res (bson_iter_recurse it) (\<lambda>child2. bind_res (deref child2) (\<lambda>child2.
           ConvertArray (ConvertValue opts depth) child1 child2))))
       else if ty = type_byte BSON_TYPE_DOCUMENT then
         bind_res (bson_iter_recurse it) (\<lambda>child1. bind_res (deref child1) (\<lambda>child1.
         bind_res (bson_iter_recurse it) (\<lambda>child2. bind_res (deref child2) (\<lambda>child2.
           ConvertObject (ConvertValue opts depth) child1 child2))))
       else Inr R_nil)"

definition bson2list :: "conv_opts \<Rightarrow> byte list \<Rightarrow> nat \<Rightarrow> sexp res" where
  "bson2list opts data len =
     (case bson_iter_init data len of (_, iter1) \<Rightarrow> case bson_iter_init data len of (_, iter2) \<Rightarrow>
        ConvertObject (ConvertValue opts len) iter1 iter2)"

section \<open>The loops fill the vectors exactly\<close>

lemma count_loop_ok:
  assumes "iter_ok it" and "rounds it < f"
  shows "count_loop f it c = Inr (c + length (elements it))"
  using assms
proof (induction arbitrary: f c rule: iter_induct)
  case (stop it it')
  then obtain f' where "f = Suc f'" by (cases f) auto
  with stop show ?case by (simp add: elements_stop)
next
  case (step it it' data t)
  then obtain f' where f: "f = Suc f'" by (cases f) auto
  with step show ?case by (simp add: elements_step)
qed

lemma set_elt_prefix:
  "length xs = i \<Longrightarrow> set_elt (xs @ y # ys) i v = Inr ((xs @ [v]) @ ys)"
  by (auto simp: set_elt_def)

lemma fill_array_ok:
  assumes "iter_ok it" and "rounds it < f" and "list_all2 (\<lambda>e v. conv e = Inr v) (elements it) vs"
    and "length xs = i" and "length ys = length vs"
  shows "fill_array conv f it i (xs @ ys) = Inr (xs @ vs)"
  using assms
proof (induction arbitrary: f i vs xs ys rule: iter_induct)
  case (stop it it')
  then obtain f' where "f = Suc f'" by (cases f) auto
  with stop show ?case by (simp add: elements_stop)
next
  case (step it it' data t)
  then obtain f' where f: "f = Suc f'" by (cases f) auto
  from step.prems(2) step obtain v vs' where vs: "vs = v # vs'" "conv it' = Inr v"
    "list_all2 (\<lambda>e v. conv e = Inr v) (elements it') vs'"
    by (auto simp: elements_step list_all2_Cons1)
  obtain y ys' where ys: "ys = y # ys'" "length ys' = length vs'"
    using step.prems(4) vs(1) by (cases ys) auto
  from step.IH [of f' vs' "xs @ [v]" "Suc i" ys'] vs(3) ys(2) f step.prems(1,3) step.hyps
  have "fill_array conv f' it' (Suc i) ((xs @ [v]) @ ys') = Inr ((xs @ [v]) @ vs')" by simp
  then show ?case using vs(1,2) ys(1) step.hyps(2) f step.prems(3)
    by (simp add: set_elt_prefix del: append_assoc)
qed

lemma fill_object_ok:
  assumes "iter_ok it" and "it_raw it = Some data" and "rounds it < f"
    and "list_all2 (\<lambda>e v. conv e = Inr v) (elements it) vs"
    and "length ns = i" and "length ns' = length vs" and "length xs = i" and "length ys = length vs"
  shows "fill_object conv f it i (ns @ ns') (xs @ ys)
     = Inr (ns @ map (elem_key data) (elements it), xs @ vs)"
  using assms
proof (induction arbitrary: f i vs ns ns' xs ys rule: iter_induct)
  case (stop it it')
  then obtain f' where "f = Suc f'" by (cases f) auto
  with stop show ?case by (simp add: elements_stop)
next
  case (step it it' data' t)
  then obtain f' where f: "f = Suc f'" by (cases f) auto
  have el: "on_element data t it'" using step by simp
  from step.prems(3) step obtain v vs' where vs: "vs = v # vs'" "conv it' = Inr v"
    "list_all2 (\<lambda>e v. conv e = Inr v) (elements it') vs'"
    by (auto simp: elements_step list_all2_Cons1)
  obtain y ys' where ys: "ys = y # ys'" "length ys' = length vs'"
    using step.prems(7) vs(1) by (cases ys) auto
  obtain n ns2 where ns: "ns' = n # ns2" "length ns2 = length vs'"
    using step.prems(5) vs(1) by (cases ns') auto
  let ?k = "elem_key data it'"
  have raw: "it_raw it' = Some data" using el by (simp add: on_element_def)
  have r: "rounds it' < f'" using step.prems(2) step.hyps(6) f by linarith
  have "fill_object conv f' it' (Suc i) ((ns @ [?k]) @ ns2) ((xs @ [v]) @ ys')
      = Inr ((ns @ [?k]) @ map (elem_key data) (elements it'), (xs @ [v]) @ vs')"
    using ys(2) ns(2) step.prems(4,6) by (intro step.IH [OF raw r vs(3)]) simp_all
  moreover note on_element_key(2) [OF el]
  moreover have "c_str (drop (it_key it') data) = ?k" by (simp add: elem_key_def)
  moreover have "c_strlen (drop (it_key it') data) = Inr (length ?k)"
    by (subst on_element_key(3) [OF el], rule c_strlen_append, rule on_element_key(4) [OF el])
  ultimately have "fill_object conv f it i (ns @ ns') (xs @ ys)
      = Inr ((ns @ [?k]) @ map (elem_key data) (elements it'), (xs @ [v]) @ vs')"
    using vs(2) step.hyps(2) step.prems(4,6)
    by (simp only: f ys(1) ns(1) fill_object.simps bind_res_simps split_conv if_True not_True_eq_False if_False
        set_elt_prefix Suc_eq_plus1 [symmetric])
  then show ?case using vs(1) step.hyps by (simp add: elements_step)
qed

end
