(* ===== verification/RValueOk.thy ===== *)
theory RValueOk
  imports RValue BsonCodec
begin

text \<open>
  The conversion to R is total: on any bytes it reads only inside the buffer, fills each vector it
  allocates exactly, and returns. The counter and the filling loop see the same elements.
\<close>

lemma ConvertArray_ok:
  assumes "iter_ok it" and "list_all2 (\<lambda>e v. conv e = Inr v) (elements it) vs"
  shows "ConvertArray conv it it = Inr (R_list vs)"
  using count_loop_ok [OF assms(1), of "Suc (it_len it)" 0]
    fill_array_ok [OF assms(1) _ assms(2), of "Suc (it_len it)" "[]" 0 "replicate (length vs) R_nil"]
    list_all2_lengthD [OF assms(2)]
  by (simp add: ConvertArray_def rounds_def)

lemma ConvertObject_ok:
  assumes "iter_ok it" and "it_raw it = Some data" and "list_all2 (\<lambda>e v. conv e = Inr v) (elements it) vs"
  shows "ConvertObject conv it it = Inr (R_named (map (elem_key data) (elements it)) vs)"
  using count_loop_ok [OF assms(1), of "Suc (it_len it)" 0]
    fill_object_ok [OF assms(1,2) _ assms(3), of "Suc (it_len it)" "[]" 0 "replicate (length vs) []" "[]"
      "replicate (length vs) R_nil"]
    list_all2_lengthD [OF assms(3)]
  by (simp add: ConvertObject_def rounds_def)

lemma list_all2_values:
  "(\<And>e. e \<in> set es \<Longrightarrow> \<exists>v. f e = Inr v) \<Longrightarrow> \<exists>vs. list_all2 (\<lambda>e v. f e = Inr v) es vs"
proof (induction es)
  case (Cons e es)
  then obtain v vs where "f e = Inr v" "list_all2 (\<lambda>e v. f e = Inr v) es vs" by fastforce
  then have "list_all2 (\<lambda>e v. f e = Inr v) (e # es) (v # vs)" by simp
  then show ?case ..
qed (auto intro: exI [of _ "[]"])

lemma elements_len: "iter_ok it \<Longrightarrow> e \<in> set (elements it) \<Longrightarrow> it_len e = it_len it"
proof (induction rule: iter_induct)
  case (stop it it')
  then show ?case by (simp add: elements_stop)
next
  case (step it it' data t)
  then show ?case by (auto simp: elements_step)
qed

lemma ConvertValue_container:
  assumes "on_element data t it" and "t = BSON_TYPE_DOCUMENT \<or> t = BSON_TYPE_ARRAY"
  defines "child \<equiv> iter_start (drop (it_d1 it) data) (u32_at data (it_d1 it))"
  shows "ConvertValue opts (Suc depth) it
    = (if t = BSON_TYPE_DOCUMENT then ConvertObject (ConvertValue opts depth) child child
       else ConvertArray (ConvertValue opts depth) child child)"
  using assms(2) bson_iter_recurse_ok(1) [OF assms(1,2)] on_element_type [OF assms(1)] on_elementD [OF assms(1)]
  by (auto simp: child_def bson_iter_type_def)

lemma ConvertValue_string:
  assumes "on_element data t it" and "t \<in> {BSON_TYPE_UTF8, BSON_TYPE_CODE, BSON_TYPE_SYMBOL}"
  shows "ConvertValue opts (Suc depth) it = Inr (R_str (c_str (drop (it_d2 it) data)))"
proof -
  note el = on_elementD [OF assms(1)]
  have at: "string_at data it" using el assms(2) by auto
  then have "0 \<in> set (drop (it_d2 it) data)"
    using el by (auto simp: string_at_def intro: zero_in_dropI [of _ "it_next_off it - 1"])
  then show ?thesis
    using assms(2) iter_string_ok [OF assms(1) at] on_element_type [OF assms(1)] el(1,7)
    by (auto simp: bson_iter_type_def mkStringUTF8_def c_strlen_def bson_iter_utf8_def bson_iter_code_def
        bson_iter_symbol_def)
qed

lemma convert_scalar_ok:
  assumes "on_element data t it"
    and "t \<notin> {BSON_TYPE_UTF8, BSON_TYPE_CODE, BSON_TYPE_SYMBOL, BSON_TYPE_DOCUMENT, BSON_TYPE_ARRAY}"
  shows "\<exists>v. ConvertValue opts (Suc depth) it = Inr v"
proof -
  note el = on_elementD [OF assms(1)]
  have ty: "bson_iter_type it = Inr (type_byte t)"
    using on_element_type [OF assms(1)] el by (simp add: bson_iter_type_def)
  note ity = on_element_type [OF assms(1)]
  show ?thesis
  proof (cases t)
    case BSON_TYPE_DECIMAL128
    then have "fixed_at 16 it" using el by simp
    then obtain low high where "bson_iter_decimal128 it = Inr (Some (low, high))"
      using BSON_TYPE_DECIMAL128 el ity by (simp add: access_defs fixed_at_def)
    then show ?thesis
      using BSON_TYPE_DECIMAL128 ty decimal128_in_buffer [of low high] by (auto simp: ConvertDec128_def)
  next
    case BSON_TYPE_BINARY
    then have "binary_at data it" using el by simp
    with BSON_TYPE_BINARY el ty ity show ?thesis
      by (simp add: ConvertBinary_def access_defs binary_at_def split: if_splits)
  next
    case BSON_TYPE_BOOL
    then have "bool_at data it" using el by simp
    with BSON_TYPE_BOOL el ty ity show ?thesis by (simp add: access_defs bool_at_def)
  qed (use el ty ity assms(2) in \<open>simp_all add: access_defs fixed_at_def ConvertTimestamp_def ConvertDate_def\<close>)
qed

lemma ConvertValue_total:
  "on_element data t it \<Longrightarrow> it_len it \<le> depth \<Longrightarrow> \<exists>v. ConvertValue opts depth it = Inr v"
proof (induction depth arbitrary: data t it)
  case 0
  then show ?case using on_elementD(7) [OF 0(1)] by simp
next
  case (Suc depth)
  consider "t = BSON_TYPE_DOCUMENT \<or> t = BSON_TYPE_ARRAY"
    | "t \<in> {BSON_TYPE_UTF8, BSON_TYPE_CODE, BSON_TYPE_SYMBOL}"
    | "t \<notin> {BSON_TYPE_UTF8, BSON_TYPE_CODE, BSON_TYPE_SYMBOL, BSON_TYPE_DOCUMENT, BSON_TYPE_ARRAY}"
    by blast
  then show ?case
  proof cases
    case 1
    let ?n = "u32_at data (it_d1 it)"
    let ?child = "iter_start (drop (it_d1 it) data) ?n"
    have ok: "iter_ok ?child" and raw: "it_raw ?child = Some (drop (it_d1 it) data)"
      using bson_iter_recurse_ok(3) [OF Suc.prems(1) 1] by (simp_all add: iter_start_def)
    have "document_at data it" using on_elementD(6) [OF Suc.prems(1)] 1 by auto
    then have "?n \<le> depth"
      using Suc.prems on_elementD(7) [OF Suc.prems(1)] by (auto simp: document_at_def on_element_def)
    then have vs: "\<exists>v. ConvertValue opts depth e = Inr v" if mem: "e \<in> set (elements ?child)" for e
    proof -
      obtain t' where "on_element (drop (it_d1 it) data) t' e"
        using bspec [OF elements_on_element [OF ok raw] mem] by (elim exE)
      moreover have "it_len e \<le> depth"
        using elements_len [OF ok mem] \<open>?n \<le> depth\<close> by (simp add: iter_start_def)
      ultimately show ?thesis by (rule Suc.IH)
    qed
    obtain vs where "list_all2 (\<lambda>e v. ConvertValue opts depth e = Inr v) (elements ?child) vs"
      using list_all2_values [of "elements ?child" "ConvertValue opts depth"] vs by auto
    from ConvertArray_ok [OF ok this] ConvertObject_ok [OF ok raw this] show ?thesis
      unfolding ConvertValue_container [OF Suc.prems(1) 1] by simp
  next
    case 2
    then show ?thesis using ConvertValue_string [OF Suc.prems(1)] by blast
  next
    case 3
    then show ?thesis by (rule convert_scalar_ok [OF Suc.prems(1)])
  qed
qed

lemma bson2list_total:
  assumes "5 \<le> n" and "n \<le> length data" and "n \<le> INT_MAX"
  shows "\<exists>vs. bson2list opts data n
      = Inr (R_named (map (elem_key data) (elements (iter_start data n))) vs)
    \<and> length vs = length (elements (iter_start data n))"
proof -
  let ?it = "iter_start data n"
  have ok: "iter_ok ?it" and raw: "it_raw ?it = Some data"
    using iter_ok_start [OF assms(2,3)] by (simp_all add: iter_start_def)
  have vs: "\<exists>v. ConvertValue opts n e = Inr v" if mem: "e \<in> set (elements ?it)" for e
  proof -
    obtain t where "on_element data t e" using bspec [OF elements_on_element [OF ok raw] mem] by (elim exE)
    moreover have "it_len e \<le> n" using elements_len [OF ok mem] by (simp add: iter_start_def)
    ultimately show ?thesis by (rule ConvertValue_total)
  qed
  obtain vs where "list_all2 (\<lambda>e v. ConvertValue opts n e = Inr v) (elements ?it) vs"
    using list_all2_values [of "elements ?it" "ConvertValue opts n"] vs by auto
  from ConvertObject_ok [OF ok raw this] list_all2_lengthD [OF this] assms(1) show ?thesis
    by (simp add: bson2list_def bson_iter_init_def)
qed

end
