(* ===== verification/RRefine.thy ===== *)
theory RRefine
  imports RValueOk ArrayBuilder
begin

text \<open>
  The conversion to R against an abstract specification: a tree of values \<open>bval\<close>, its encoding
  in BSON \<open>bv_payload\<close> and its meaning in R \<open>r_of\<close>. Converting the encoding of a tree gives the
  meaning of the tree.
\<close>

section \<open>Abstract values\<close>

datatype bval =
    B_double "64 word" | B_utf8 "byte list" | B_code "byte list" | B_symbol "byte list"
  | B_binary byte "byte list" | B_oid "byte list" | B_bool bool | B_date "64 word" | B_null
  | B_int32 "32 word" | B_int64 "64 word" | B_timestamp "32 word" "32 word"
  | B_decimal bool nat nat    \<comment> \<open>sign, coefficient and biased exponent\<close>
  | B_array "bval list" | B_doc "(byte list \<times> bval) list"

fun bv_type :: "bval \<Rightarrow> bson_type" where
  "bv_type (B_double _) = BSON_TYPE_DOUBLE"
| "bv_type (B_utf8 _) = BSON_TYPE_UTF8"
| "bv_type (B_code _) = BSON_TYPE_CODE"
| "bv_type (B_symbol _) = BSON_TYPE_SYMBOL"
| "bv_type (B_binary _ _) = BSON_TYPE_BINARY"
| "bv_type (B_oid _) = BSON_TYPE_OID"
| "bv_type (B_bool _) = BSON_TYPE_BOOL"
| "bv_type (B_date _) = BSON_TYPE_DATE_TIME"
| "bv_type B_null = BSON_TYPE_NULL"
| "bv_type (B_int32 _) = BSON_TYPE_INT32"
| "bv_type (B_int64 _) = BSON_TYPE_INT64"
| "bv_type (B_timestamp _ _) = BSON_TYPE_TIMESTAMP"
| "bv_type (B_decimal _ _ _) = BSON_TYPE_DECIMAL128"
| "bv_type (B_array _) = BSON_TYPE_ARRAY"
| "bv_type (B_doc _) = BSON_TYPE_DOCUMENT"

lemma size_bval_fields [termination_simp]:
  "(k, v) \<in> set kvs \<Longrightarrow> size v < Suc (size_list (size_prod (\<lambda>_. 0) size) kvs)"
  by (induction kvs) auto

definition len_bytes :: "nat \<Rightarrow> byte list" where
  "len_bytes n = mlib_write_u32le (of_nat n)"

definition string_enc :: "byte list \<Rightarrow> byte list" where
  "string_enc s = len_bytes (Suc (length s)) @ s @ [0]"

definition binary_enc :: "byte \<Rightarrow> byte list \<Rightarrow> byte list" where
  "binary_enc st bs =
     (let body = (if st = BSON_SUBTYPE_BINARY_DEPRECATED then len_bytes (length bs) @ bs else bs)
      in len_bytes (length body) @ st # body)"

fun bv_payload :: "bval \<Rightarrow> byte list" where
  "bv_payload (B_double d) = mlib_write_u64le d"
| "bv_payload (B_utf8 s) = string_enc s"
| "bv_payload (B_code s) = string_enc s"
| "bv_payload (B_symbol s) = string_enc s"
| "bv_payload (B_binary st bs) = binary_enc st bs"
| "bv_payload (B_oid bs) = bs"
| "bv_payload (B_bool b) = [if b then 1 else 0]"
| "bv_payload (B_date d) = mlib_write_u64le d"
| "bv_payload B_null = []"
| "bv_payload (B_int32 w) = mlib_write_u32le w"
| "bv_payload (B_int64 w) = mlib_write_u64le w"
| "bv_payload (B_timestamp t i) = mlib_write_u32le i @ mlib_write_u32le t"
| "bv_payload (B_decimal neg c e) = mlib_write_u64le (bid_low c) @ mlib_write_u64le (bid_high neg c e)"
| "bv_payload (B_array vs) = doc_of (array_elements (map (\<lambda>v. (bv_type v, bv_payload v)) vs))"
| "bv_payload (B_doc kvs) = doc_of (map (\<lambda>(k, v). (bv_type v, k, bv_payload v)) kvs)"

text \<open>The meaning in R, under the two global switches.\<close>

fun r_of :: "conv_opts \<Rightarrow> bval \<Rightarrow> sexp" where
  "r_of opts (B_double d) = R_real (Dbl d)"
| "r_of opts (B_utf8 s) = R_str s"
| "r_of opts (B_code s) = R_str s"
| "r_of opts (B_symbol s) = R_str s"
| "r_of opts (B_binary st bs) = R_raw bs st"
| "r_of opts (B_oid bs) = R_str (concat (map hex_pair bs))"
| "r_of opts (B_bool b) = R_lgl b"
| "r_of opts (B_date d) =
     (if date_as_char opts then R_str (date_string (sint d)) else R_posixct (Thousandth (sint d)))"
| "r_of opts B_null = R_nil"
| "r_of opts (B_int32 w) = (if sint w = NA_INTEGER then R_real (OfInt NA_INTEGER) else R_int (sint w))"
| "r_of opts (B_int64 w) = (if bigint_as_char opts then R_str (show_int (sint w)) else R_real (OfInt (sint w)))"
| "r_of opts (B_timestamp t i) = R_named [[0x74], [0x69]] [R_int (sint t), R_int (sint i)]"
| "r_of opts (B_decimal neg c e) = R_real (Strtod (dec128_string neg c (int e - 6176)))"
| "r_of opts (B_array vs) = R_list (map (r_of opts) vs)"
| "r_of opts (B_doc kvs) = R_named (map fst kvs) (map (\<lambda>(k, v). r_of opts v) kvs)"

text \<open>Keys and strings without NUL, identifiers of 12 bytes, decimals of at most 34 digits.\<close>

fun bv_ok :: "bval \<Rightarrow> bool" where
  "bv_ok (B_utf8 s) = (0 \<notin> set s)"
| "bv_ok (B_code s) = (0 \<notin> set s)"
| "bv_ok (B_symbol s) = (0 \<notin> set s)"
| "bv_ok (B_oid bs) = (length bs = 12)"
| "bv_ok (B_decimal neg c e) = (c < 10 ^ 34 \<and> e < 12288)"
| "bv_ok (B_array vs) = (\<forall>v \<in> set vs. bv_ok v)"
| "bv_ok (B_doc kvs) = (\<forall>kv \<in> set kvs. 0 \<notin> set (fst kv) \<and> bv_ok (snd kv))"
| "bv_ok _ = True"


section \<open>The payloads are well formed\<close>

lemma length_len_bytes [simp]: "length (len_bytes n) = 4"
  by (simp add: len_bytes_def)

lemma u32_at_len_bytes [simp]: "length pre = i \<Longrightarrow> n < 2 ^ 32 \<Longrightarrow> u32_at (pre @ len_bytes n @ r) i = n"
  by (auto simp: u32_at_def len_bytes_def intro!: of_nat_inverse [OF refl])

lemma le_word_len_bytes [simp]: "n < 2 ^ 32 \<Longrightarrow> unat (le_word (len_bytes n) :: 32 word) = n"
  by (auto simp: len_bytes_def intro!: of_nat_inverse [OF refl])

lemmas u32_at_len_bytes_0 [simp] = u32_at_len_bytes [of "[]" 0, simplified]

lemma doc_of_eq: "doc_of es = len_bytes (length (doc_of es)) @ concat (map enc es) @ [0]"
  by (simp add: doc_of_def doc_bytes_def len_bytes_def add.commute)

lemma u32_at_doc_of: "length (doc_of es) < 2 ^ 32 \<Longrightarrow> u32_at (doc_of es @ r) 0 = length (doc_of es)"
  by (subst doc_of_eq, unfold append_assoc, subst u32_at_len_bytes_0) simp_all

lemma string_enc_ok:
  "length (string_enc s) < 2 ^ 32 \<Longrightarrow> string_payload (string_enc s)"
  by (simp add: string_payload_def string_enc_def)

lemma binary_enc_ok:
  assumes "length (binary_enc st bs) < 2 ^ 32"
  shows "binary_payload (binary_enc st bs)"
proof (cases "st = BSON_SUBTYPE_BINARY_DEPRECATED")
  case True
  have eq: "binary_enc st bs = (len_bytes (4 + length bs) @ [st]) @ len_bytes (length bs) @ bs"
    using True by (simp add: binary_enc_def Let_def)
  have "u32_at (binary_enc st bs) 5 = length bs" "u32_at (binary_enc st bs) 0 = 4 + length bs"
    using assms u32_at_len_bytes [of "len_bytes (4 + length bs) @ [st]" 5 "length bs" bs]
    by (simp_all add: eq)
  then show ?thesis using assms eq by (simp add: binary_payload_def)
next
  case False
  then show ?thesis using assms by (simp add: binary_payload_def binary_enc_def Let_def nth_append)
qed

lemma doc_of_payload: "length (doc_of es) < 2 ^ 32 \<Longrightarrow> document_payload (doc_of es)"
  using u32_at_doc_of [of es "[]"] by (simp add: document_payload_def doc_of_def)

lemma bv_payload_ok:
  assumes "bv_ok v" and "length (bv_payload v) < 2 ^ 32"
  shows "payload_ok (bv_type v) (bv_payload v)"
  using assms string_enc_ok binary_enc_ok doc_of_payload by (cases v) auto

lemma length_payload_le: "(t, k, p) \<in> set es \<Longrightarrow> length p < length (doc_of es)"
  by (induction es) (auto simp: doc_of_def enc_def)

section \<open>Converting a decoded element\<close>

lemma decode_parts:
  assumes "on_element data t it" and "decode data it = (type_byte t', k, p)"
  obtains pre rest where "data = pre @ p @ rest" "length pre = it_d1 it" "it_next_off it = it_d1 it + length p"
    "t = t'" "elem_key data it = k"
proof
  have d: "it_d1 it \<le> it_next_off it" "it_next_off it < length data"
    using on_elementD [OF assms(1)] by auto
  have p: "p = take (it_next_off it - it_d1 it) (drop (it_d1 it) data)" and "elem_key data it = k"
    and ty: "data ! it_off it = type_byte t'"
    using assms(2) by (simp_all add: decode_def)
  show "it_next_off it = it_d1 it + length p" using d by (simp add: p)
  show "data = take (it_d1 it) data @ p @ drop (it_next_off it - it_d1 it) (drop (it_d1 it) data)"
    unfolding p append_take_drop_id ..
  show "length (take (it_d1 it) data) = it_d1 it" using d by simp
  show "t = t'" using ty assms(1) by (simp add: on_element_def)
  show "elem_key data it = k" by fact
qed

lemma convert_string_value:
  assumes "on_element data t it" and "data = pre @ string_enc s @ rest" and "length pre = it_d1 it"
    and "t \<in> {BSON_TYPE_UTF8, BSON_TYPE_CODE, BSON_TYPE_SYMBOL}" and "0 \<notin> set s"
  shows "ConvertValue opts (Suc depth) it = Inr (R_str s)"
proof -
  have "it_d2 it = it_d1 it + 4"
    using on_elementD(6) [OF assms(1)] assms(4) by (auto simp: string_at_def)
  then have "drop (it_d2 it) data = s @ 0 # rest"
    using assms(3) by (simp add: assms(2) string_enc_def)
  with ConvertValue_string [OF assms(1,4)] assms(5) show ?thesis by simp
qed

lemma convert_binary_value:
  assumes "on_element data BSON_TYPE_BINARY it" and "data = pre @ binary_enc st bs @ rest"
    and "length pre = it_d1 it" and "length (binary_enc st bs) \<le> INT_MAX"
  shows "ConvertValue opts (Suc depth) it = Inr (R_raw bs st)"
proof -
  note el = on_elementD [OF assms(1)]
  note ty = on_element_type [OF assms(1)]
  have "binary_at data it" using el(6) by simp
  then have d: "it_d2 it = length pre + 4" "it_d3 it = length pre + 5"
    using assms(3) by (auto simp: binary_at_def)
  show ?thesis
    using el(1,2,7,8) ty d assms(3,4)
    by (auto simp: INT_MAX_def bson_iter_type_def ConvertBinary_def access_defs assms(2) binary_enc_def Let_def nth_append)
qed


lemma convert_scalar_value:
  assumes "on_element data (bv_type v) it" and "data = pre @ bv_payload v @ rest" and "length pre = it_d1 it"
    and "it_next_off it = it_d1 it + length (bv_payload v)" and "bv_ok v" and "length (bv_payload v) \<le> INT_MAX"
    and "bv_type v \<noteq> BSON_TYPE_DOCUMENT" and "bv_type v \<noteq> BSON_TYPE_ARRAY"
  shows "ConvertValue opts (Suc depth) it = Inr (r_of opts v)"
proof (cases v)
  case (B_utf8 s)
  with assms convert_string_value [of data _ it pre s rest] show ?thesis by simp
next
  case (B_code s)
  with assms convert_string_value [of data _ it pre s rest] show ?thesis by simp
next
  case (B_symbol s)
  with assms convert_string_value [of data _ it pre s rest] show ?thesis by simp
next
  case (B_binary st bs)
  with assms convert_binary_value [of data it pre st bs rest] show ?thesis by simp
next
  case (B_oid bs)
  have "0 \<notin> set (concat (map hex_pair bs))"
    using hex_pair_valid by (fastforce simp: is_hex_char_def)
  with B_oid assms on_elementD [OF assms(1)] on_element_type [OF assms(1)] show ?thesis
    by (simp add: bson_iter_type_def access_defs bson_oid_to_string_eq)
next
  case (B_bool b)
  with assms on_elementD [OF assms(1)] on_element_type [OF assms(1)] show ?thesis
    by (simp add: bson_iter_type_def access_defs nth_append)
next
  case (B_decimal neg c e)
  with assms(5) have "bson_decimal128_to_string (bid_low c) (bid_high neg c e)
      = Inr (dec128_string neg c (int e - 6176))"
    by (intro decimal128_string_spec) simp_all
  with B_decimal assms on_elementD [OF assms(1)] on_element_type [OF assms(1)] show ?thesis
    by (simp add: bson_iter_type_def ConvertDec128_def access_defs)
qed (use assms on_elementD [OF assms(1)] on_element_type [OF assms(1)] in
  \<open>simp_all add: bson_iter_type_def access_defs ConvertDate_def ConvertTimestamp_def\<close>)


section \<open>Containers\<close>

text \<open>\<open>converts opts depth\<close>: the conversion is right for elements in buffers of at most \<open>depth\<close> bytes.\<close>

definition converts :: "conv_opts \<Rightarrow> nat \<Rightarrow> bool" where
  "converts opts depth \<longleftrightarrow> (\<forall>data t it v k. on_element data t it \<longrightarrow> it_len it \<le> depth \<longrightarrow> bv_ok v
     \<longrightarrow> decode data it = (type_byte (bv_type v), k, bv_payload v)
     \<longrightarrow> ConvertValue opts depth it = Inr (r_of opts v))"

lemma convert_elements:
  fixes rest :: "byte list"
  assumes conv: "converts opts depth" and len: "length (doc_of (map e_of kvs)) \<le> INT_MAX"
      "length (doc_of (map e_of kvs)) \<le> depth"
    and e: "\<And>k v. e_of (k, v) = (bv_type v, k, bv_payload v)"
    and ok: "\<forall>kv \<in> set kvs. 0 \<notin> set (fst kv) \<and> bv_ok (snd kv)"
  defines "data \<equiv> doc_of (map e_of kvs) @ rest"
  defines "it \<equiv> iter_start data (length (doc_of (map e_of kvs)))"
  shows "iter_ok it" and "it_raw it = Some data"
    and "list_all2 (\<lambda>e x. ConvertValue opts depth e = Inr x) (elements it) (map (\<lambda>(k, v). r_of opts v) kvs)"
    and "map (elem_key data) (elements it) = map fst kvs"
proof -
  show iok: "iter_ok it" using len(1) by (simp add: it_def data_def iter_ok_start)
  show raw: "it_raw it = Some data" by (simp add: it_def iter_start_def)
  have e_eq: "e_of = (\<lambda>kv. (bv_type (snd kv), fst kv, bv_payload (snd kv)))" using e by auto
  have "\<forall>e \<in> set (map e_of kvs). elem_ok e"
  proof
    fix x assume "x \<in> set (map e_of kvs)"
    then obtain k v where x: "x = (bv_type v, k, bv_payload v)" "(k, v) \<in> set kvs" by (auto simp: e)
    then have "(bv_type v, k, bv_payload v) \<in> set (map e_of kvs)" by (force simp: e)
    from length_payload_le [OF this] len(1) have "length (bv_payload v) < 2 ^ 32" by (simp add: INT_MAX_def)
    then show "elem_ok x" using ok x bv_payload_ok by (fastforce simp: elem_ok_def)
  qed
  from elements_doc_of [OF this len(1), of rest]
  have dec: "map (decode data) (elements it) = map (\<lambda>(k, v). (type_byte (bv_type v), k, bv_payload v)) kvs"
    by (simp add: it_def data_def comp_def split_beta e_eq)
  have l: "length (elements it) = length kvs" using arg_cong [OF dec, of length] by simp
  have dec_nth: "decode data (elements it ! i) = (type_byte (bv_type v), k, bv_payload v)"
    if "i < length kvs" "kvs ! i = (k, v)" for i k v
    using arg_cong [OF dec, of "\<lambda>xs. xs ! i"] that l by simp
  show "map (elem_key data) (elements it) = map fst kvs"
    using dec_nth l by (intro nth_equalityI) (auto simp: decode_def prod_eq_iff)
  show "list_all2 (\<lambda>e x. ConvertValue opts depth e = Inr x) (elements it) (map (\<lambda>(k, v). r_of opts v) kvs)"
  proof (rule list_all2_all_nthI)
    fix i assume "i < length (elements it)"
    then have i: "elements it ! i \<in> set (elements it)" "i < length kvs" using l by simp_all
    obtain k v where kv: "kvs ! i = (k, v)" by fastforce
    obtain t where el: "on_element data t (elements it ! i)"
      using bspec [OF elements_on_element [OF iok raw] i(1)] by (elim exE)
    have "it_len (elements it ! i) \<le> depth"
      using elements_len [OF iok i(1)] len(2) by (simp add: it_def iter_start_def)
    moreover have "bv_ok v" using ok kv i(2) nth_mem by fastforce
    ultimately have "ConvertValue opts depth (elements it ! i) = Inr (r_of opts v)"
      using conv el dec_nth [OF i(2) kv] unfolding converts_def by blast
    then show "ConvertValue opts depth (elements it ! i) = Inr (map (\<lambda>(k, v). r_of opts v) kvs ! i)"
      using i(2) kv by simp
  qed (simp add: l)
qed


lemma array_elements_index:
  "array_elements (map (\<lambda>v. (bv_type v, bv_payload v)) vs)
    = map (\<lambda>(k, v). (bv_type v, k, bv_payload v)) (zip (map dec [0..<length vs]) vs)"
  by (rule nth_equalityI) (simp_all add: array_elements_def nth_enumerate_eq)

lemma convert_document:
  fixes rest :: "byte list"
  assumes conv: "converts opts depth" and len: "length (bv_payload (B_doc kvs)) \<le> INT_MAX"
      "length (bv_payload (B_doc kvs)) \<le> depth" and ok: "bv_ok (B_doc kvs)"
  defines "child \<equiv> iter_start (bv_payload (B_doc kvs) @ rest) (length (bv_payload (B_doc kvs)))"
  shows "ConvertObject (ConvertValue opts depth) child child = Inr (r_of opts (B_doc kvs))"
proof -
  have el: "\<And>k v. (\<lambda>(k, v). (bv_type v, k, bv_payload v)) (k, v) = (bv_type v, k, bv_payload v)" by simp
  note ce = convert_elements [OF conv _ _ el, of kvs rest, folded bv_payload.simps]
  have ok': "\<forall>kv \<in> set kvs. 0 \<notin> set (fst kv) \<and> bv_ok (snd kv)" using ok by simp
  show ?thesis
    using ConvertObject_ok [OF ce(1-3) [OF len ok']] ce(4) [OF len ok'] by (simp add: child_def)
qed

lemma convert_array:
  fixes rest :: "byte list"
  assumes conv: "converts opts depth" and len: "length (bv_payload (B_array vs)) \<le> INT_MAX"
      "length (bv_payload (B_array vs)) \<le> depth" and ok: "bv_ok (B_array vs)"
  defines "child \<equiv> iter_start (bv_payload (B_array vs) @ rest) (length (bv_payload (B_array vs)))"
  shows "ConvertArray (ConvertValue opts depth) child child = Inr (r_of opts (B_array vs))"
proof -
  let ?kvs = "zip (map dec [0..<length vs]) vs"
  have el: "\<And>k v. (\<lambda>(k, v). (bv_type v, k, bv_payload v)) (k, v) = (bv_type v, k, bv_payload v)" by simp
  have p: "bv_payload (B_array vs) = doc_of (map (\<lambda>(k, v). (bv_type v, k, bv_payload v)) ?kvs)"
    by (simp add: array_elements_index)
  have ok': "\<forall>kv \<in> set ?kvs. 0 \<notin> set (fst kv) \<and> bv_ok (snd kv)"
    using ok by (auto simp: in_set_zip)
  have "map (\<lambda>(k, v). r_of opts v) ?kvs = map (r_of opts) vs"
    by (rule nth_equalityI) simp_all
  with convert_elements [OF conv _ _ el ok', of rest] len show ?thesis
    unfolding child_def p by (auto dest!: ConvertArray_ok)
qed

lemma converts_all: "converts opts depth"
proof (induction depth)
  case 0
  then show ?case by (auto simp: converts_def dest: on_elementD(7))
next
  case (Suc depth)
  show ?case
    unfolding converts_def
  proof (intro allI impI)
    fix data t it v k
    assume el: "on_element data t it" and len: "it_len it \<le> Suc depth" and ok: "bv_ok v"
      and dec: "decode data it = (type_byte (bv_type v), k, bv_payload v)"
    obtain pre rest where data: "data = pre @ bv_payload v @ rest" "length pre = it_d1 it"
        "it_next_off it = it_d1 it + length (bv_payload v)" "t = bv_type v"
      using decode_parts [OF el dec] by blast
    have lens: "length (bv_payload v) \<le> INT_MAX" "length (bv_payload v) \<le> depth"
      using on_elementD [OF el] data(3) len el by (auto simp: INT_MAX_def on_element_def)
    have drop: "drop (it_d1 it) data = bv_payload v @ rest" using data(2) by (simp add: data(1))
    have u32: "u32_at data (it_d1 it) = length (bv_payload v)" if "bv_payload v = doc_of es" for es
      using u32_at_doc_of [of es rest] lens(1) that drop by (simp add: u32_at_def INT_MAX_def)
    note el' = el [unfolded data(4)]
    show "ConvertValue opts (Suc depth) it = Inr (r_of opts v)"
    proof (cases v)
      case (B_array vs)
      then show ?thesis
        using convert_array [OF Suc.IH, of vs rest] lens ok u32 drop
        by (subst ConvertValue_container [OF el']) simp_all
    next
      case (B_doc kvs)
      then show ?thesis
        using convert_document [OF Suc.IH, of kvs rest] lens ok u32 drop
        by (subst ConvertValue_container [OF el']) simp_all
    qed (use convert_scalar_value [OF el' data(1-3) ok lens(1)] in auto)
  qed
qed

lemma bson2list_spec:
  assumes "bv_ok (B_doc kvs)" and "length (bv_payload (B_doc kvs)) \<le> INT_MAX"
  shows "bson2list opts (bv_payload (B_doc kvs) @ rest) (length (bv_payload (B_doc kvs)))
    = Inr (r_of opts (B_doc kvs))"
  using convert_document [OF converts_all assms(2) order_refl assms(1)]
  by (simp add: bson2list_def bson_iter_init_def doc_of_def del: r_of.simps)

end
