(* ===== verification/RProps.thy ===== *)
theory RProps
  imports RRefine
begin

text \<open>
  The properties of the decimal printer and of the conversion to R.
\<close>

section \<open>Decimals\<close>

text \<open>C26: For every pair of 64-bit halves, valid or not, \<open>bson_decimal128_to_string\<close> prints at most
  42 characters and a NUL: it never writes past the buffer of \<open>BSON_DECIMAL128_STRING\<close> bytes and
  never reads past its array of digits.\<close>

theorem decimal128_fits:
  "\<exists>s. bson_decimal128_to_string low high = Inr s \<and> length s < BSON_DECIMAL128_STRING"
  using decimal128_in_buffer [of low high] by (auto simp: BSON_DECIMAL128_STRING_def)

text \<open>C27: The printer equals the reference \<open>dec128_string\<close>, written from the decimal digits of the
  coefficient as a number: the base-\<open>10 ^ 9\<close> long division, the skipping of zeros and the three
  layouts of the code print sign, digits and exponent of every encoded decimal.\<close>

theorem decimal128_reference:
  assumes "c < 10 ^ 34" and "e < 12288"
  shows "bson_decimal128_to_string (bid_low c) (bid_high neg c e) = Inr (dec128_string neg c (int e - 6176))"
  using assms by (intro decimal128_string_spec) simp_all

theorem decimal128_reference_witness:
  "bson_decimal128_to_string (bid_low 0) (bid_high True 0 6176) = Inr [0x2D, 0x30]"
  using decimal128_reference [of 0 6176 True]
  by (simp add: dec128_string_def dec.simps)

text \<open>A coefficient of 35 digits, above the largest of the format, is printed and not read as zero.\<close>

lemma decimal128_35_digits:
  "bson_decimal128_to_string (bid_low (10 ^ 34)) (bid_high False (10 ^ 34) 6176)
    = Inr (dec128_string False (10 ^ 34) 0)"
  using decimal128_string_spec [of "10 ^ 34" 6176 False] by simp

section \<open>Conversion to R\<close>

text \<open>C28: On any bytes and any length up to \<open>INT_MAX\<close> the conversion of a document to a list of R
  returns, reads only inside the buffer, and fills exactly the vectors it allocates: one value and
  one name for each element of the document, in order, however deep the nesting.\<close>

theorem bson2list_safe:
  assumes "5 \<le> n" and "n \<le> length data" and "n \<le> INT_MAX"
  shows "\<exists>vs. bson2list opts data n = Inr (R_named (map (elem_key data) (elements (iter_start data n))) vs)
    \<and> length vs = length (elements (iter_start data n))"
  by (rule bson2list_total [OF assms])

theorem bson2list_safe_witness:
  "\<exists>vs. bson2list \<lparr>bigint_as_char = False, date_as_char = False\<rparr> [5, 0, 0, 0, 0] 5
     = Inr (R_named (map (elem_key [5, 0, 0, 0, 0]) (elements (iter_start [5, 0, 0, 0, 0] 5))) vs)
    \<and> length vs = length (elements (iter_start [5, 0, 0, 0, 0] 5))"
  by (rule bson2list_safe) (simp_all add: INT_MAX_def)

text \<open>C29: Converting the encoding of a tree of values to R gives the meaning of the tree, under
  both global switches: numbers, strings, dates, decimals, identifiers, binaries, arrays and
  nested documents, with the names and the order of the fields.\<close>

theorem bson2list_refines:
  assumes "bv_ok (B_doc kvs)" and "length (bv_payload (B_doc kvs)) \<le> INT_MAX"
  shows "bson2list opts (bv_payload (B_doc kvs) @ rest) (length (bv_payload (B_doc kvs)))
    = Inr (r_of opts (B_doc kvs))"
  by (rule bson2list_spec [OF assms])

theorem bson2list_refines_witness:
  "bson2list \<lparr>bigint_as_char = False, date_as_char = False\<rparr>
      (bv_payload (B_doc [([0x61], B_int32 1), ([0x62], B_array [B_null, B_utf8 [0x78]])]))
      (length (bv_payload (B_doc [([0x61], B_int32 1), ([0x62], B_array [B_null, B_utf8 [0x78]])])))
    = Inr (R_named [[0x61], [0x62]] [R_int 1, R_list [R_nil, R_str [0x78]]])"
proof -
  let ?d = "B_doc [([0x61], B_int32 1), ([0x62], B_array [B_null, B_utf8 [0x78]])]"
  have "length (bv_payload ?d) \<le> INT_MAX"
    by (simp add: doc_of_def enc_def array_elements_def string_enc_def dec.simps INT_MAX_def)
  moreover have "bv_ok ?d" by simp
  moreover have "sint (1 :: 32 word) \<noteq> NA_INTEGER" by (simp add: NA_INTEGER_def)
  ultimately show ?thesis
    using bson2list_refines [of "[([0x61], B_int32 1), ([0x62], B_array [B_null, B_utf8 [0x78]])]" _ "[]"]
    by simp
qed

text \<open>The string of a date before 1970 has a sign among its milliseconds: one millisecond before the
  epoch prints as \<open>1970-01-01T00:00:00.-01Z\<close>.\<close>

lemma date_before_epoch:
  "date_string (- 1) =
     [0x31, 0x39, 0x37, 0x30, 0x2D, 0x30, 0x31, 0x2D, 0x30, 0x31, 0x54, 0x30, 0x30, 0x3A, 0x30, 0x30, 0x3A,
      0x30, 0x30, 0x2E, 0x2D, 0x30, 0x31, 0x5A]"
  by code_simp

end
