(* ===== verification/HostList.thy ===== *)
theory HostList
  imports IterFind BsonKeys
begin

text \<open>
  Parsing of host addresses (\<open>src/src/mongoc/mongoc-host-list.c\<close>), with the parser of ports
  (\<open>_mongoc_parse_port\<close> of \<open>mongoc-util.c\<close>, \<open>mlib_nat64_parse\<close> of \<open>mlib/intencode.h\<close>). An
  address is the bytes of a C string before its NUL. The texts of the errors are not modelled.
\<close>

definition str :: "string \<Rightarrow> byte list" where
  "str s = map of_char s"

section \<open>Natural numbers\<close>

datatype parse_error = EINVAL | ERANGE

text \<open>The value of a digit after folding of letters to lower case.\<close>

definition digit_value :: "byte \<Rightarrow> nat option" where
  "digit_value c =
     (let digit = c_tolower c in
      if 0x30 \<le> digit \<and> digit \<le> 0x39 then Some (unat digit - 48)
      else if 0x61 \<le> digit \<and> digit \<le> 0x7A then Some (unat digit - 97 + 10)
      else None)"

text \<open>
  The loop of \<open>mlib_nat64_parse\<close>: \<open>mlib_mul\<close> and \<open>mlib_add\<close> store the wrapped result and say
  whether it overflowed.
\<close>

fun nat64_loop :: "nat \<Rightarrow> byte list \<Rightarrow> 64 word \<Rightarrow> bool \<Rightarrow> parse_error + 64 word" where
  "nat64_loop base [] value did_overflow = (if did_overflow then Inl ERANGE else Inr value)"
| "nat64_loop base (c # inp) value did_overflow =
     (let did_overflow = (2 ^ 64 \<le> unat value * base \<or> did_overflow); value = value * of_nat base in
      case digit_value c of
        None \<Rightarrow> Inl EINVAL
      | Some d \<Rightarrow>
          if d \<ge> base then Inl EINVAL
          else nat64_loop base inp (value + of_nat d) (2 ^ 64 \<le> unat value + d \<or> did_overflow))"

definition mlib_nat64_parse :: "byte list \<Rightarrow> nat \<Rightarrow> parse_error + 64 word" where
  "mlib_nat64_parse inp base = (if inp = [] then Inl EINVAL else nat64_loop base inp 0 False)"

definition mongoc_parse_port :: "byte list \<Rightarrow> nat option" where
  "mongoc_parse_port spelling =
     (case mlib_nat64_parse spelling 10 of
        Inl _ \<Rightarrow> None
      | Inr u \<Rightarrow> if u = 0 then None else if unat u < 2 ^ 16 then Some (unat u) else None)"

section \<open>Hosts\<close>

datatype family = AF_UNSPEC | AF_INET6 | AF_UNIX

record host_list =
  hl_host :: "byte list"
  hl_host_and_port :: "byte list"
  hl_port :: nat
  hl_family :: family

definition BSON_HOST_NAME_MAX :: nat where
  "BSON_HOST_NAME_MAX = 255"

definition MONGOC_DEFAULT_PORT :: nat where
  "MONGOC_DEFAULT_PORT = 27017"

text \<open>\<open>mstr_find\<close>: the first position of \<open>needle\<close> in \<open>hay\<close>.\<close>

fun mstr_find :: "byte list \<Rightarrow> byte list \<Rightarrow> nat option" where
  "mstr_find [] needle = (if needle = [] then Some 0 else None)"
| "mstr_find (c # hay) needle =
     (if take (length needle) (c # hay) = needle then Some 0 else map_option Suc (mstr_find hay needle))"

definition mstr_contains :: "byte list \<Rightarrow> byte list \<Rightarrow> bool" where
  "mstr_contains s needle \<longleftrightarrow> mstr_find s needle \<noteq> None"

text \<open>
  \<open>bson_snprintf\<close> into \<open>host_and_port\<close>, whose size is \<open>BSON_HOST_NAME_MAX + 7\<close>, with the
  assertion that the text fits.
\<close>

definition print_host :: "byte list \<Rightarrow> byte list res" where
  "print_host s = bind_res (c_assert (length s < BSON_HOST_NAME_MAX + 7)) (\<lambda>_. Inr s)"

definition mongoc_host_list_from_hostport :: "byte list \<Rightarrow> nat \<Rightarrow> host_list option res" where
  "mongoc_host_list_from_hostport host port =
     (if length host = 0 \<or> length host > BSON_HOST_NAME_MAX then Inr None
      else if mstr_contains host (str '':'') then
        if length host > BSON_HOST_NAME_MAX - 2 then Inr None
        else let h = map c_tolower host in
          map_res (\<lambda>hp. Some \<lparr>hl_host = h, hl_host_and_port = hp, hl_port = port, hl_family = AF_INET6\<rparr>)
            (print_host (str ''['' @ h @ str '']:'' @ dec port))
      else if mstr_contains host (str ''/'') \<and> mstr_contains host (str ''.sock'') then
        Inr (Some \<lparr>hl_host = host, hl_host_and_port = host, hl_port = port, hl_family = AF_UNIX\<rparr>)
      else let h = map c_tolower host in
        map_res (\<lambda>hp. Some \<lparr>hl_host = h, hl_host_and_port = hp, hl_port = port, hl_family = AF_UNSPEC\<rparr>)
          (print_host (h @ str '':'' @ dec port)))"

definition parse_host_ipv6 :: "byte list \<Rightarrow> host_list option res" where
  "parse_host_ipv6 addr =
     (if take 1 addr \<noteq> str ''['' then Inr None
      else case mstr_find addr (str '']'') of
        None \<Rightarrow> Inr None
      | Some close_pos \<Rightarrow>
          if take 1 (drop (close_pos + 1) addr) = str '':'' then
            case mongoc_parse_port (drop (close_pos + 2) addr) of
              None \<Rightarrow> Inr None
            | Some port \<Rightarrow> mongoc_host_list_from_hostport (take (close_pos - 1) (drop 1 addr)) port
          else if close_pos \<noteq> length addr - 1 then Inr None
          else mongoc_host_list_from_hostport (take (close_pos - 1) (drop 1 addr)) MONGOC_DEFAULT_PORT)"

definition parse_host :: "byte list \<Rightarrow> host_list option res" where
  "parse_host spec =
     (if mstr_contains spec (str '']'') then parse_host_ipv6 spec
      else case mstr_find spec (str '':'') of
        None \<Rightarrow> mongoc_host_list_from_hostport spec MONGOC_DEFAULT_PORT
      | Some pos \<Rightarrow>
          case mongoc_parse_port (drop (pos + 1) spec) of
            None \<Rightarrow> Inr None
          | Some port \<Rightarrow> mongoc_host_list_from_hostport (take pos spec) port)"

definition mongoc_host_list_from_string :: "byte list \<Rightarrow> host_list option res" where
  "mongoc_host_list_from_string address = parse_host address"

section \<open>Lists of hosts\<close>

text \<open>\<open>strcasecmp (a, b) == 0\<close> of two strings.\<close>

definition same_address :: "byte list \<Rightarrow> byte list \<Rightarrow> bool" where
  "same_address a b \<longleftrightarrow> map c_tolower a = map c_tolower b"

definition mongoc_host_list_find_host_and_port :: "host_list list \<Rightarrow> byte list \<Rightarrow> host_list option" where
  "mongoc_host_list_find_host_and_port hosts hp = List.find (\<lambda>h. same_address (hl_host_and_port h) hp) hosts"

fun replace_first :: "('a \<Rightarrow> bool) \<Rightarrow> 'a \<Rightarrow> 'a list \<Rightarrow> 'a list" where
  "replace_first P x [] = []"
| "replace_first P x (y # ys) = (if P y then x # ys else y # replace_first P x ys)"

definition mongoc_host_list_upsert :: "host_list list \<Rightarrow> host_list option \<Rightarrow> host_list list" where
  "mongoc_host_list_upsert hosts new_host =
     (case new_host of
        None \<Rightarrow> hosts
      | Some h \<Rightarrow>
          let same = (\<lambda>l. same_address (hl_host_and_port l) (hl_host_and_port h)) in
          if mongoc_host_list_find_host_and_port hosts (hl_host_and_port h) = None then hosts @ [h]
          else replace_first same h hosts)"

definition mongoc_host_list_compare_one :: "host_list \<Rightarrow> host_list \<Rightarrow> bool" where
  "mongoc_host_list_compare_one a b \<longleftrightarrow>
     same_address (hl_host_and_port a) (hl_host_and_port b) \<and> hl_family a = hl_family b"

definition mongoc_host_list_contains_one :: "host_list list \<Rightarrow> host_list \<Rightarrow> bool" where
  "mongoc_host_list_contains_one hosts h \<longleftrightarrow>
     mongoc_host_list_find_host_and_port hosts (hl_host_and_port h) \<noteq> None"

text \<open>\<open>_mongoc_host_list_copy_all\<close> prepends each copy, which reverses the list.\<close>

definition mongoc_host_list_copy_all :: "host_list list \<Rightarrow> host_list list" where
  "mongoc_host_list_copy_all src = foldl (\<lambda>head h. h # head) [] src"

fun mongoc_host_list_remove_host :: "host_list list \<Rightarrow> byte list \<Rightarrow> nat \<Rightarrow> host_list list" where
  "mongoc_host_list_remove_host [] host port = []"
| "mongoc_host_list_remove_host (h # hosts) host port =
     (if hl_port h = port \<and> hl_host h = host then hosts
      else h # mongoc_host_list_remove_host hosts host port)"

section \<open>Facts\<close>

lemma same_address_refl [simp]: "same_address a a"
  by (simp add: same_address_def)

lemma same_address_sym: "same_address a b = same_address b a"
  by (auto simp: same_address_def)

lemma length_dec_port: "n < 2 ^ 16 \<Longrightarrow> length (dec n) \<le> 5"
proof -
  assume "n < 2 ^ 16"
  then have "n < 100000" by simp
  moreover have le: "n < 10 ^ Suc k \<Longrightarrow> length (dec n) \<le> Suc k" for k n
  proof (induction k arbitrary: n)
    case 0
    then show ?case by (simp add: dec.simps)
  next
    case (Suc k)
    then have "n div 10 < 10 ^ Suc k" by (simp add: less_mult_imp_div_less mult.commute)
    from Suc.IH [OF this] show ?case by (subst dec.simps) simp
  qed
  ultimately show ?thesis using le [of n 4] by simp
qed

text \<open>A host and a port always fit in the buffer of the address.\<close>

lemma from_hostport_total:
  assumes "port < 2 ^ 16"
  shows "\<exists>r. mongoc_host_list_from_hostport host port = Inr r \<and>
    (\<forall>h. r = Some h \<longrightarrow> length (hl_host_and_port h) < BSON_HOST_NAME_MAX + 7 \<and> hl_port h = port)"
  using length_dec_port [OF assms]
  by (auto simp: mongoc_host_list_from_hostport_def print_host_def BSON_HOST_NAME_MAX_def str_def Let_def)

lemma parse_port_bound: "mongoc_parse_port s = Some p \<Longrightarrow> 0 < p \<and> p < 2 ^ 16"
  by (auto simp: mongoc_parse_port_def unat_gt_0 split: sum.splits if_splits)

lemma parse_host_total:
  "\<exists>r. parse_host spec = Inr r \<and> (\<forall>h. r = Some h \<longrightarrow> length (hl_host_and_port h) < BSON_HOST_NAME_MAX + 7)"
proof -
  have def: "MONGOC_DEFAULT_PORT < 2 ^ 16" by (simp add: MONGOC_DEFAULT_PORT_def)
  have fh: "\<exists>r. mongoc_host_list_from_hostport host port = Inr r
      \<and> (\<forall>h. r = Some h \<longrightarrow> length (hl_host_and_port h) < BSON_HOST_NAME_MAX + 7)" if "port < 2 ^ 16" for host port
    using from_hostport_total [OF that] by blast
  have "\<exists>r. parse_host_ipv6 spec = Inr r \<and> (\<forall>h. r = Some h \<longrightarrow> length (hl_host_and_port h) < BSON_HOST_NAME_MAX + 7)"
    unfolding parse_host_ipv6_def using fh [OF def] fh [OF conjunct2 [OF parse_port_bound]]
    by (simp split: option.split)
  then show ?thesis
    unfolding parse_host_def using fh [OF def] fh [OF conjunct2 [OF parse_port_bound]]
    by (simp split: option.split)
qed

end
