(* ===== verification/ResLogic.thy ===== *)
theory ResLogic
  imports MPrelude
begin

text \<open>
  A small logic for results: \<open>returns F Q r\<close> says that \<open>r\<close> is a value that satisfies \<open>Q\<close> or one
  of the faults in \<open>F\<close>. With \<open>F = {}\<close> it says that the code returns.
\<close>

definition returns :: "fault set \<Rightarrow> ('a \<Rightarrow> bool) \<Rightarrow> 'a res \<Rightarrow> bool" where
  "returns F Q r \<longleftrightarrow> (case r of Inl e \<Rightarrow> e \<in> F | Inr x \<Rightarrow> Q x)"

named_theorems returns_intro \<open>rules that follow the structure of the code\<close>

lemma returns_simps [simp]: "returns F Q (Inr x) = Q x" "returns F Q (Inl e) = (e \<in> F)"
  by (simp_all add: returns_def)

lemma returns_bind [returns_intro]:
  "returns F P m \<Longrightarrow> (\<And>x. P x \<Longrightarrow> returns F Q (f x)) \<Longrightarrow> returns F Q (bind_res m f)"
  by (cases m) auto

lemma returns_map [returns_intro]:
  "returns F (\<lambda>x. Q (f x)) m \<Longrightarrow> returns F Q (map_res f m)"
  by (cases m) auto

lemma returns_if [returns_intro]:
  "(b \<Longrightarrow> returns F Q r) \<Longrightarrow> (\<not> b \<Longrightarrow> returns F Q r') \<Longrightarrow> returns F Q (if b then r else r')"
  by simp

lemma returns_assert [returns_intro]: "(b \<Longrightarrow> Q ()) \<Longrightarrow> AssertFail \<in> F \<Longrightarrow> returns F Q (c_assert b)"
  by (cases b) auto

lemma returns_deref [returns_intro]:
  "(\<And>x. p = Some x \<Longrightarrow> Q x) \<Longrightarrow> (p = None \<Longrightarrow> NullDeref \<in> F) \<Longrightarrow> returns F Q (deref p)"
  by (cases p) auto

lemma returns_mono: "returns F P r \<Longrightarrow> F \<subseteq> G \<Longrightarrow> (\<And>x. P x \<Longrightarrow> Q x) \<Longrightarrow> returns G Q r"
  by (cases r) auto

lemma returns_total: "returns {} Q r \<longleftrightarrow> (\<exists>x. r = Inr x \<and> Q x)"
  by (cases r) auto

lemma returnsD: "returns F Q r \<Longrightarrow> r = Inr x \<Longrightarrow> Q x"
  by simp

lemma returns_any: "returns {} (\<lambda>_. True) r \<Longrightarrow> (\<And>x. r = Inr x \<Longrightarrow> Q x) \<Longrightarrow> returns F Q r"
  by (cases r) auto

end
