(* ===== verification/ServerDesc.thy ===== *)
theory ServerDesc
  imports HostList Oid BsonCopy DocNest ResLogic "HOL-Library.Signed_Division"
begin

text \<open>
  Server descriptions (\<open>src/src/mongoc/mongoc-server-description.c\<close>): the state a client keeps of
  one server, its reset, and what \<open>mongoc_server_description_handle_hello\<close> reads from a reply.
  A pointer into the last reply (\<open>me\<close>, \<open>set_name\<close>, \<open>primary\<close>) is the string it points to; a
  \<open>bson_t\<close> over the reply is its memory and its length. The smoothing of the round trip time in
  floating point and the monotonic clock are arguments.
\<close>

type_synonym doc = "byte list \<times> nat"

definition doc_empty :: doc where
  "doc_empty = (empty_doc, 5)"

section \<open>Types and state\<close>

datatype server_type =
    MONGOC_SERVER_UNKNOWN | MONGOC_SERVER_STANDALONE | MONGOC_SERVER_MONGOS
  | MONGOC_SERVER_POSSIBLE_PRIMARY | MONGOC_SERVER_RS_PRIMARY | MONGOC_SERVER_RS_SECONDARY
  | MONGOC_SERVER_RS_ARBITER | MONGOC_SERVER_RS_OTHER | MONGOC_SERVER_RS_GHOST
  | MONGOC_SERVER_LOAD_BALANCER

text \<open>The error of a description: none, the one passed in, the default one, an authentication
  failure, or a field of the wrong type.\<close>

datatype sd_error =
  No_error | Given_error nat | Unknown_error | Auth_error | Type_error byte "byte list"

record server_desc =
  sd_id :: nat
  sd_host :: "host_list option"
  sd_address :: "byte list option"
  sd_rtt :: int
  sd_last_update :: int
  sd_last_hello :: doc
  sd_has_hello :: bool
  sd_hello_ok :: bool
  sd_me :: "byte list option"
  sd_set_name :: "byte list option"
  sd_err :: sd_error
  sd_type :: server_type
  sd_min_wire :: int
  sd_max_wire :: int
  sd_max_msg :: int
  sd_max_bson :: int
  sd_max_batch :: int
  sd_session_timeout :: int
  sd_hosts :: doc
  sd_passives :: doc
  sd_arbiters :: doc
  sd_tags :: doc
  sd_current_primary :: "byte list option"
  sd_set_version :: int
  sd_election_id :: "byte list"
  sd_last_write :: int
  sd_compressors :: doc
  sd_topology_version :: doc
  sd_service_id :: "byte list"
  sd_connection_id :: int

text \<open>The clock and the smoothing \<open>(int64_t) (ALPHA * rtt + (1 - ALPHA) * old)\<close>.\<close>

record sd_env =
  env_now :: int
  env_smooth :: "int \<Rightarrow> int \<Rightarrow> int"

definition mongoc_server_description_reset :: "sd_env \<Rightarrow> server_desc \<Rightarrow> server_desc" where
  "mongoc_server_description_reset env sd = sd\<lparr>
     sd_err := No_error, sd_set_name := None, sd_type := MONGOC_SERVER_UNKNOWN,
     sd_min_wire := 0, sd_max_wire := 0, sd_max_msg := 48000000, sd_max_bson := 16 * 1024 * 1024,
     sd_max_batch := 1000, sd_session_timeout := - 1, sd_last_write := - 1, sd_hello_ok := False,
     sd_last_hello := doc_empty, sd_has_hello := False, sd_last_update := env_now env,
     sd_hosts := doc_empty, sd_passives := doc_empty, sd_arbiters := doc_empty, sd_tags := doc_empty,
     sd_compressors := doc_empty, sd_me := None, sd_current_primary := None, sd_set_version := - 1,
     sd_election_id := mcommon_oid_zero, sd_service_id := mcommon_oid_zero, sd_connection_id := - 1\<rparr>"

text \<open>
  \<open>mongoc_server_description_init\<close> on memory of zeros: where the address cannot be parsed the
  function returns early, with no address and before the documents are initialised (\<open>doc_zero\<close>).
\<close>

definition doc_zero :: doc where
  "doc_zero = ([], 0)"

definition sd_zero :: server_desc where
  "sd_zero = \<lparr>sd_id = 0, sd_host = None, sd_address = None, sd_rtt = 0, sd_last_update = 0,
     sd_last_hello = doc_zero, sd_has_hello = False, sd_hello_ok = False, sd_me = None, sd_set_name = None,
     sd_err = No_error, sd_type = MONGOC_SERVER_UNKNOWN, sd_min_wire = 0, sd_max_wire = 0, sd_max_msg = 0,
     sd_max_bson = 0, sd_max_batch = 0, sd_session_timeout = 0, sd_hosts = doc_zero, sd_passives = doc_zero,
     sd_arbiters = doc_zero, sd_tags = doc_zero, sd_current_primary = None, sd_set_version = 0,
     sd_election_id = mcommon_oid_zero, sd_last_write = 0, sd_compressors = doc_zero,
     sd_topology_version = doc_zero, sd_service_id = mcommon_oid_zero, sd_connection_id = 0\<rparr>"

definition mongoc_server_description_init :: "sd_env \<Rightarrow> byte list \<Rightarrow> nat \<Rightarrow> server_desc res" where
  "mongoc_server_description_init env address k =
     (let sd = sd_zero\<lparr>sd_id := k, sd_rtt := - 1\<rparr> in
      map_res (\<lambda>host. case host of
          None \<Rightarrow> sd
        | Some h \<Rightarrow> mongoc_server_description_reset env
            (sd\<lparr>sd_host := Some h, sd_address := Some (hl_host_and_port h), sd_topology_version := doc_empty\<rparr>))
        (mongoc_host_list_from_string address))"

section \<open>Small operations\<close>

definition has_set_version :: "server_desc \<Rightarrow> bool" where
  "has_set_version sd \<longleftrightarrow> sd_set_version sd \<noteq> - 1"

definition has_election_id :: "server_desc \<Rightarrow> bool" where
  "has_election_id sd \<longleftrightarrow> \<not> mcommon_oid_is_zero (sd_election_id sd)"

definition mongoc_server_description_update_rtt :: "sd_env \<Rightarrow> server_desc \<Rightarrow> int \<Rightarrow> server_desc" where
  "mongoc_server_description_update_rtt env sd rtt =
     (if rtt = - 1 then sd
      else if sd_rtt sd = - 1 then sd\<lparr>sd_rtt := rtt\<rparr>
      else sd\<lparr>sd_rtt := env_smooth env rtt (sd_rtt sd)\<rparr>)"

text \<open>The error passed in is its code, \<open>None\<close> for \<open>NULL\<close>.\<close>

definition set_sd_error :: "server_desc \<Rightarrow> nat option \<Rightarrow> server_desc" where
  "set_sd_error sd err =
     (sd\<lparr>sd_err := (case err of Some c \<Rightarrow> if c \<noteq> 0 then Given_error c else Unknown_error | None \<Rightarrow> Unknown_error),
         sd_rtt := - 1\<rparr>)"

section \<open>Numbers of a field\<close>

text \<open>\<open>(int64_t) d\<close>: the value is truncated towards zero; out of range it is undefined.\<close>

definition double_to_int64 :: "64 word \<Rightarrow> int res" where
  "double_to_int64 d =
     (let e = unat (drop_bit 52 d AND 0x7FF); m = unat (d AND 0xFFFFFFFFFFFFF) in
      if e = 2047 then Inl BadCast
      else
        let mant = (if e = 0 then m else 2 ^ 52 + m);
            mag = (if e < 1075 then mant div 2 ^ (1075 - max e 1) else mant * 2 ^ (e - 1075));
            v = (if bit d 63 then - int mag else int mag) in
        if - (2 ^ 63) \<le> v \<and> v < 2 ^ 63 then Inr v else Inl BadCast)"

definition bson_iter_as_int64 :: "bson_iter \<Rightarrow> int res" where
  "bson_iter_as_int64 it = bind_res (ITER_TYPE it) (\<lambda>ty.
     if ty = type_byte BSON_TYPE_BOOL then map_res of_bool (bson_iter_bool it)
     else if ty = type_byte BSON_TYPE_DOUBLE then bind_res (bson_iter_double it) double_to_int64
     else if ty = type_byte BSON_TYPE_INT64 then map_res sint (bson_iter_int64 it)
     else if ty = type_byte BSON_TYPE_INT32 then map_res sint (bson_iter_int32 it)
     else Inr 0)"


section \<open>Handling a reply\<close>

text \<open>
  The loop of \<open>mongoc_server_description_handle_hello\<close> over the fields of the reply, with the local
  variables next to the description. A field of the wrong type leaves at \<open>typefailure\<close>, a reply
  that is not \<open>ok\<close> at \<open>authfailure\<close>.
\<close>

record hello_state =
  hs_sd :: server_desc
  hs_is_primary :: bool
  hs_is_shard :: bool
  hs_is_secondary :: bool
  hs_is_arbiter :: bool
  hs_is_replicaset :: bool
  hs_is_hidden :: bool
  hs_num_keys :: nat

datatype hello_exit = Continue hello_state | Typefailure hello_state | Authfailure hello_state

type_synonym hello_result = "hello_exit res"

definition upd_sd :: "(server_desc \<Rightarrow> server_desc) \<Rightarrow> hello_state \<Rightarrow> hello_state" where
  "upd_sd f st = st\<lparr>hs_sd := f (hs_sd st)\<rparr>"

text \<open>A field that must have a type, and the fields of each type.\<close>

definition expect :: "bson_type list \<Rightarrow> bson_iter \<Rightarrow> hello_state \<Rightarrow> hello_result \<Rightarrow> hello_result" where
  "expect ts it st m = bind_res (bson_iter_type it) (\<lambda>ty.
     if ty \<in> set (map type_byte ts) then m else Inr (Typefailure st))"

definition bool_hello :: "bson_iter \<Rightarrow> hello_state \<Rightarrow> (bool \<Rightarrow> hello_state) \<Rightarrow> hello_result" where
  "bool_hello it st f = expect [BSON_TYPE_BOOL] it st (map_res (\<lambda>b. Continue (f b)) (bson_iter_bool it))"

definition int32_hello :: "bson_iter \<Rightarrow> hello_state \<Rightarrow> (int \<Rightarrow> hello_state) \<Rightarrow> hello_result" where
  "int32_hello it st f = expect [BSON_TYPE_INT32] it st (map_res (\<lambda>w. Continue (f (sint w))) (bson_iter_int32 it))"

definition utf8_ptr :: "bson_iter \<Rightarrow> byte list option res" where
  "utf8_ptr it = bind_res (bson_iter_utf8 it) (\<lambda>(p, _). case p of
     None \<Rightarrow> Inr None | Some m \<Rightarrow> map_res (\<lambda>_. Some (c_str m)) (c_strlen m))"

definition utf8_hello :: "bson_iter \<Rightarrow> hello_state \<Rightarrow> (byte list option \<Rightarrow> hello_state) \<Rightarrow> hello_result" where
  "utf8_hello it st f = expect [BSON_TYPE_UTF8] it st (map_res (\<lambda>s. Continue (f s)) (utf8_ptr it))"

definition oid_hello :: "bson_iter \<Rightarrow> hello_state \<Rightarrow> (byte list \<Rightarrow> hello_state) \<Rightarrow> hello_result" where
  "oid_hello it st f = expect [BSON_TYPE_OID] it st
     (bind_res (bson_iter_oid it) (\<lambda>p. map_res (\<lambda>v. Continue (f v)) (deref p)))"

text \<open>\<open>BSON_ASSERT (bson_init_static (...))\<close>\<close>

definition static_doc :: "nat \<times> byte list option \<Rightarrow> doc res" where
  "static_doc p = bind_res (deref (snd p)) (\<lambda>bytes.
     bind_res (bson_init_static bytes (fst p)) (\<lambda>ok. map_res (\<lambda>_. (bytes, fst p)) (c_assert ok)))"

definition array_hello :: "bson_iter \<Rightarrow> hello_state \<Rightarrow> (doc \<Rightarrow> hello_state) \<Rightarrow> hello_result" where
  "array_hello it st f = expect [BSON_TYPE_ARRAY] it st
     (bind_res (bson_iter_array it) (\<lambda>p. map_res (\<lambda>d. Continue (f d)) (static_doc p)))"

definition document_hello :: "bson_iter \<Rightarrow> hello_state \<Rightarrow> (doc \<Rightarrow> hello_state) \<Rightarrow> hello_result" where
  "document_hello it st f = expect [BSON_TYPE_DOCUMENT] it st
     (bind_res (bson_iter_document it) (\<lambda>p. map_res (\<lambda>d. Continue (f d)) (static_doc p)))"

text \<open>\<open>lastWrite\<close>: a document with a date \<open>lastWriteDate\<close>.\<close>

definition last_write_hello :: "bson_iter \<Rightarrow> hello_state \<Rightarrow> hello_result" where
  "last_write_hello it st = expect [BSON_TYPE_DOCUMENT] it st
     (bind_res (bson_iter_recurse it) (\<lambda>child. case child of
        None \<Rightarrow> Inr (Typefailure st)
      | Some child \<Rightarrow>
          bind_res (bson_iter_find child (str ''lastWriteDate'' @ [0])) (\<lambda>(found, child).
            if \<not> found then Inr (Typefailure st)
            else expect [BSON_TYPE_DATE_TIME] child st
              (map_res (\<lambda>w. Continue (upd_sd (\<lambda>sd. sd\<lparr>sd_last_write := sint w\<rparr>) st)) (bson_iter_date_time child)))))"

definition hello_field :: "byte list \<Rightarrow> bson_iter \<Rightarrow> hello_state \<Rightarrow> hello_result" where
  "hello_field key it st =
     (if key = str ''ok'' then
        map_res (\<lambda>b. if b then Continue st else Authfailure (upd_sd (\<lambda>sd. sd\<lparr>sd_err := Auth_error\<rparr>) st))
          (bson_iter_as_bool it)
      else if key = str ''isWritablePrimary'' \<or> key = str ''ismaster'' then
        bool_hello it st (\<lambda>b. st\<lparr>hs_is_primary := b\<rparr>)
      else if key = str ''helloOk'' then bool_hello it st (\<lambda>b. upd_sd (\<lambda>sd. sd\<lparr>sd_hello_ok := b\<rparr>) st)
      else if key = str ''me'' then utf8_hello it st (\<lambda>s. upd_sd (\<lambda>sd. sd\<lparr>sd_me := s\<rparr>) st)
      else if key = str ''maxMessageSizeBytes'' then int32_hello it st (\<lambda>i. upd_sd (\<lambda>sd. sd\<lparr>sd_max_msg := i\<rparr>) st)
      else if key = str ''maxBsonObjectSize'' then int32_hello it st (\<lambda>i. upd_sd (\<lambda>sd. sd\<lparr>sd_max_bson := i\<rparr>) st)
      else if key = str ''maxWriteBatchSize'' then int32_hello it st (\<lambda>i. upd_sd (\<lambda>sd. sd\<lparr>sd_max_batch := i\<rparr>) st)
      else if key = str ''logicalSessionTimeoutMinutes'' then
        expect [BSON_TYPE_INT32, BSON_TYPE_INT64, BSON_TYPE_DOUBLE, BSON_TYPE_NULL] it st
          (bind_res (bson_iter_type it) (\<lambda>ty.
            if ty = type_byte BSON_TYPE_NULL then Inr (Continue (upd_sd (\<lambda>sd. sd\<lparr>sd_session_timeout := - 1\<rparr>) st))
            else map_res (\<lambda>i. Continue (upd_sd (\<lambda>sd. sd\<lparr>sd_session_timeout := i\<rparr>) st)) (bson_iter_as_int64 it)))
      else if key = str ''minWireVersion'' then int32_hello it st (\<lambda>i. upd_sd (\<lambda>sd. sd\<lparr>sd_min_wire := i\<rparr>) st)
      else if key = str ''maxWireVersion'' then int32_hello it st (\<lambda>i. upd_sd (\<lambda>sd. sd\<lparr>sd_max_wire := i\<rparr>) st)
      else if key = str ''msg'' then
        utf8_hello it st (\<lambda>s. if s = Some (str ''isdbgrid'') then st\<lparr>hs_is_shard := True\<rparr> else st)
      else if key = str ''setName'' then utf8_hello it st (\<lambda>s. upd_sd (\<lambda>sd. sd\<lparr>sd_set_name := s\<rparr>) st)
      else if key = str ''setVersion'' then
        map_res (\<lambda>i. Continue (upd_sd (\<lambda>sd. sd\<lparr>sd_set_version := i\<rparr>) st)) (bson_iter_as_int64 it)
      else if key = str ''electionId'' then oid_hello it st (\<lambda>v. upd_sd (\<lambda>sd. sd\<lparr>sd_election_id := v\<rparr>) st)
      else if key = str ''secondary'' then bool_hello it st (\<lambda>b. st\<lparr>hs_is_secondary := b\<rparr>)
      else if key = str ''hosts'' then array_hello it st (\<lambda>d. upd_sd (\<lambda>sd. sd\<lparr>sd_hosts := d\<rparr>) st)
      else if key = str ''passives'' then array_hello it st (\<lambda>d. upd_sd (\<lambda>sd. sd\<lparr>sd_passives := d\<rparr>) st)
      else if key = str ''arbiters'' then array_hello it st (\<lambda>d. upd_sd (\<lambda>sd. sd\<lparr>sd_arbiters := d\<rparr>) st)
      else if key = str ''primary'' then utf8_hello it st (\<lambda>s. upd_sd (\<lambda>sd. sd\<lparr>sd_current_primary := s\<rparr>) st)
      else if key = str ''arbiterOnly'' then bool_hello it st (\<lambda>b. st\<lparr>hs_is_arbiter := b\<rparr>)
      else if key = str ''isreplicaset'' then bool_hello it st (\<lambda>b. st\<lparr>hs_is_replicaset := b\<rparr>)
      else if key = str ''tags'' then document_hello it st (\<lambda>d. upd_sd (\<lambda>sd. sd\<lparr>sd_tags := d\<rparr>) st)
      else if key = str ''hidden'' then map_res (\<lambda>b. Continue (st\<lparr>hs_is_hidden := b\<rparr>)) (bson_iter_bool it)
      else if key = str ''lastWrite'' then last_write_hello it st
      else if key = str ''compression'' then array_hello it st (\<lambda>d. upd_sd (\<lambda>sd. sd\<lparr>sd_compressors := d\<rparr>) st)
      else if key = str ''topologyVersion'' then
        document_hello it st (\<lambda>d. upd_sd (\<lambda>sd. sd\<lparr>sd_topology_version := (take (snd d) (fst d), snd d)\<rparr>) st)
      else if key = str ''serviceId'' then oid_hello it st (\<lambda>v. upd_sd (\<lambda>sd. sd\<lparr>sd_service_id := v\<rparr>) st)
      else if key = str ''connectionId'' then
        expect [BSON_TYPE_INT32, BSON_TYPE_INT64, BSON_TYPE_DOUBLE] it st
          (map_res (\<lambda>i. Continue (upd_sd (\<lambda>sd. sd\<lparr>sd_connection_id := i\<rparr>) st)) (bson_iter_as_int64 it))
      else Inr (Continue st))"

fun hello_loop :: "nat \<Rightarrow> bson_iter \<Rightarrow> hello_state \<Rightarrow> (bson_iter \<times> hello_exit) res" where
  "hello_loop 0 it st = Inl NoFuel"
| "hello_loop (Suc fuel) it st =
     bind_res (bson_iter_next it) (\<lambda>(ok, it).
       if \<not> ok then Inr (it, Continue st)
       else let st = st\<lparr>hs_num_keys := hs_num_keys st + 1\<rparr> in
         bind_res (bson_iter_key it) (\<lambda>key. bind_res (c_strlen key) (\<lambda>_.
         bind_res (hello_field (c_str key) it st) (\<lambda>r. case r of
             Continue st \<Rightarrow> hello_loop fuel it st
           | _ \<Rightarrow> Inr (it, r)))))"

text \<open>The type the flags say.\<close>

definition hello_type :: "hello_state \<Rightarrow> server_type" where
  "hello_type st =
     (if hs_is_shard st then MONGOC_SERVER_MONGOS
      else if sd_set_name (hs_sd st) \<noteq> None then
        if hs_is_hidden st then MONGOC_SERVER_RS_OTHER
        else if hs_is_primary st then MONGOC_SERVER_RS_PRIMARY
        else if hs_is_secondary st then MONGOC_SERVER_RS_SECONDARY
        else if hs_is_arbiter st then MONGOC_SERVER_RS_ARBITER
        else MONGOC_SERVER_RS_OTHER
      else if hs_is_replicaset st then MONGOC_SERVER_RS_GHOST
      else if hs_num_keys st > 0 then MONGOC_SERVER_STANDALONE
      else MONGOC_SERVER_UNKNOWN)"

definition hello_failure :: "server_desc \<Rightarrow> server_desc" where
  "hello_failure sd = sd\<lparr>sd_type := MONGOC_SERVER_UNKNOWN, sd_rtt := - 1\<rparr>"

text \<open>
  \<open>mongoc_server_description_handle_hello\<close>. The argument \<open>hello\<close> is \<open>sd->last_hello_response\<close>, the
  copy of the reply without its field \<open>speculativeAuthenticate\<close>; \<open>None\<close> where there is no reply.
\<close>

definition hello_finish :: "sd_env \<Rightarrow> int \<Rightarrow> nat option \<Rightarrow> bson_iter \<times> hello_exit \<Rightarrow> server_desc res" where
  "hello_finish env rtt err x =
     (case snd x of
        Continue st \<Rightarrow>
          let sd = (hs_sd st)\<lparr>sd_type := hello_type st\<rparr>;
              sd = (if hs_num_keys st = 0 then set_sd_error sd err else sd) in
          Inr (mongoc_server_description_update_rtt env sd rtt)
      | Typefailure st \<Rightarrow>
          bind_res (bson_iter_type (fst x)) (\<lambda>ty. bind_res (bson_iter_key (fst x)) (\<lambda>key.
          bind_res (c_strlen key) (\<lambda>_.
            Inr (hello_failure ((hs_sd st)\<lparr>sd_err := Type_error ty (c_str key)\<rparr>)))))
      | Authfailure st \<Rightarrow> Inr (hello_failure (hs_sd st)))"

definition hello_init :: "server_desc \<Rightarrow> hello_state" where
  "hello_init sd =
     \<lparr>hs_sd = sd, hs_is_primary = False, hs_is_shard = False, hs_is_secondary = False,
      hs_is_arbiter = False, hs_is_replicaset = False, hs_is_hidden = False, hs_num_keys = 0\<rparr>"

definition mongoc_server_description_handle_hello ::
    "sd_env \<Rightarrow> server_desc \<Rightarrow> doc option \<Rightarrow> int \<Rightarrow> nat option \<Rightarrow> server_desc res" where
  "mongoc_server_description_handle_hello env sd hello rtt err =
     (let sd = mongoc_server_description_reset env sd in
      case hello of
        None \<Rightarrow> Inr (set_sd_error sd err)
      | Some (data, n) \<Rightarrow>
          let sd = sd\<lparr>sd_last_hello := (data, n), sd_has_hello := True, sd_topology_version := doc_empty\<rparr> in
          (case bson_iter_init data n of (ok, it) \<Rightarrow>
             bind_res (c_assert ok) (\<lambda>_.
             bind_res (hello_loop (Suc n) it (hello_init sd)) (hello_finish env rtt err))))"

section \<open>Members and versions\<close>

text \<open>
  A loop over the strings of an array of hosts: \<open>f\<close> gets each pointer \<open>bson_iter_utf8\<close> returns and
  says whether to stop.
\<close>

fun member_loop :: "nat \<Rightarrow> bson_iter \<Rightarrow> (byte list option \<Rightarrow> 's \<Rightarrow> (bool \<times> 's) res) \<Rightarrow> 's \<Rightarrow> (bool \<times> 's) res" where
  "member_loop 0 it f s = Inl NoFuel"
| "member_loop (Suc fuel) it f s =
     bind_res (bson_iter_next it) (\<lambda>(ok, it).
       if \<not> ok then Inr (False, s)
       else bind_res (utf8_ptr it) (\<lambda>p. bind_res (f p s) (\<lambda>(stop, s).
         if stop then Inr (True, s) else member_loop fuel it f s)))"

fun members_loop :: "doc list \<Rightarrow> (byte list option \<Rightarrow> 's \<Rightarrow> (bool \<times> 's) res) \<Rightarrow> 's \<Rightarrow> (bool \<times> 's) res" where
  "members_loop [] f s = Inr (False, s)"
| "members_loop (d # ds) f s =
     (case bson_iter_init (fst d) (snd d) of (ok, it) \<Rightarrow>
        bind_res (c_assert ok) (\<lambda>_.
        bind_res (member_loop (Suc (snd d)) it f s) (\<lambda>(stop, s).
          if stop then Inr (True, s) else members_loop ds f s)))"

definition rs_members :: "server_desc \<Rightarrow> doc list" where
  "rs_members sd = [sd_hosts sd, sd_arbiters sd, sd_passives sd]"

definition has_rs_member :: "server_desc \<Rightarrow> byte list option \<Rightarrow> bool res" where
  "has_rs_member server address =
     (if sd_type server \<noteq> MONGOC_SERVER_UNKNOWN then
        map_res fst (members_loop (rs_members server) (\<lambda>p _.
          bind_res (deref address) (\<lambda>a. map_res (\<lambda>m. (same_address a m, ())) (deref p))) ())
      else Inr False)"

text \<open>The counter of a topology version, \<open>None\<close> where the code returns \<open>-1\<close>.\<close>

definition find_typed :: "doc \<Rightarrow> byte list \<Rightarrow> bson_type list \<Rightarrow> bson_iter option res" where
  "find_typed d key ts =
     bind_res (bson_iter_init_find (fst d) (snd d) (key @ [0])) (\<lambda>(found, it).
       if \<not> found then Inr None
       else map_res (\<lambda>ty. if ty \<in> set (map type_byte ts) then Some it else None) (bson_iter_type it))"

definition topology_version_cmp :: "doc \<Rightarrow> doc \<Rightarrow> int res" where
  "topology_version_cmp tv1 tv2 =
     bind_res (bson_empty (fst tv1) (snd tv1)) (\<lambda>e1. bind_res (if e1 then Inr True else bson_empty (fst tv2) (snd tv2)) (\<lambda>e.
      if e then Inr (- 1)
      else bind_res (find_typed tv1 (str ''processId'') [BSON_TYPE_OID]) (\<lambda>i1. case i1 of None \<Rightarrow> Inr (- 1) | Some i1 \<Rightarrow>
           bind_res (bind_res (bson_iter_oid i1) deref) (\<lambda>pid1.
           bind_res (find_typed tv2 (str ''processId'') [BSON_TYPE_OID]) (\<lambda>i2. case i2 of None \<Rightarrow> Inr (- 1) | Some i2 \<Rightarrow>
           bind_res (bind_res (bson_iter_oid i2) deref) (\<lambda>pid2.
             if bson_oid_compare pid1 pid2 \<noteq> 0 then Inr (- 1)
             else
               bind_res (find_typed tv1 (str ''counter'') [BSON_TYPE_INT32, BSON_TYPE_INT64]) (\<lambda>c1. case c1 of None \<Rightarrow> Inr (- 1) | Some c1 \<Rightarrow>
               bind_res (bson_iter_as_int64 c1) (\<lambda>counter1.
               bind_res (find_typed tv2 (str ''counter'') [BSON_TYPE_INT32, BSON_TYPE_INT64]) (\<lambda>c2. case c2 of None \<Rightarrow> Inr (- 1) | Some c2 \<Rightarrow>
               bind_res (bson_iter_as_int64 c2) (\<lambda>counter2.
                 Inr (if counter1 < counter2 then - 1 else if counter1 > counter2 then 1 else 0)))))))))))"

end
