(* ===== verification/ServerHello.thy ===== *)
theory ServerHello
  imports ServerDesc
begin

text \<open>
  What holds of \<open>mongoc_server_description_handle_hello\<close> on any reply: it reads only inside the
  reply and returns, or stops at an assertion or at a conversion of a \<open>double\<close> out of range; it
  keeps the identity of the server; and a type of a replica set member comes with a set name.
\<close>

section \<open>The accessors return\<close>

lemma accessors_return:
  assumes "on_element data t it"
  shows "\<exists>x. bson_iter_bool it = Inr x" "\<exists>x. bson_iter_int32 it = Inr x" "\<exists>x. bson_iter_int64 it = Inr x"
    "\<exists>x. bson_iter_double it = Inr x" "\<exists>x. bson_iter_date_time it = Inr x" "\<exists>x. bson_iter_as_bool it = Inr x"
    "bson_iter_type it = Inr (type_byte t)"
proof -
  note el = on_elementD [OF assms] and ty = on_element_type [OF assms]
  show "bson_iter_type it = Inr (type_byte t)" using el ty by (simp add: bson_iter_type_def)
  have ex: "\<exists>x. (if c then m else Inr y) = Inr x" if "c \<Longrightarrow> \<exists>x. m = Inr x" for c and m :: "'a res" and y
    using that by simp
  have f: "t \<in> {BSON_TYPE_DOUBLE, BSON_TYPE_INT64, BSON_TYPE_DATE_TIME} \<Longrightarrow> it_d1 it + 8 \<le> length data"
    "t = BSON_TYPE_INT32 \<Longrightarrow> it_d1 it + 4 \<le> length data" "t = BSON_TYPE_BOOL \<Longrightarrow> it_d1 it < length data"
    using el by (auto simp: fixed_at_def bool_at_def)
  show b: "\<exists>x. bson_iter_bool it = Inr x" "\<exists>x. bson_iter_int32 it = Inr x" "\<exists>x. bson_iter_int64 it = Inr x"
    "\<exists>x. bson_iter_double it = Inr x" "\<exists>x. bson_iter_date_time it = Inr x"
    using el(1) ty f by (auto simp: access_defs intro!: ex)
  show "\<exists>x. bson_iter_as_bool it = Inr x"
    using ty b by (auto simp: bson_iter_as_bool_def intro!: ex)
qed

lemma element_returns [returns_intro]:
  assumes "on_element data t it"
  shows "(\<And>x. Q x) \<Longrightarrow> returns F Q (bson_iter_bool it)"
    and "(\<And>x. Q' x) \<Longrightarrow> returns F Q' (bson_iter_int32 it)"
    and "(\<And>x. Q'' x) \<Longrightarrow> returns F Q'' (bson_iter_date_time it)"
    and "(\<And>x. Q x) \<Longrightarrow> returns F Q (bson_iter_as_bool it)"
  using accessors_return [OF assms] by auto

lemma double_to_int64_returns: "BadCast \<in> F \<Longrightarrow> (\<And>x. Q x) \<Longrightarrow> returns F Q (double_to_int64 d)"
  by (auto simp: double_to_int64_def Let_def)

lemma as_int64_returns [returns_intro]:
  assumes "on_element data t it" and "BadCast \<in> F" and "\<And>x. Q x"
  shows "returns F Q (bson_iter_as_int64 it)"
  using accessors_return [OF assms(1)] on_element_type [OF assms(1)] double_to_int64_returns [OF assms(2), of Q] assms(3)
  by (auto simp: bson_iter_as_int64_def)

lemma utf8_ptr_returns [returns_intro]:
  assumes "on_element data t it" and "\<And>x. (t = BSON_TYPE_UTF8 \<longleftrightarrow> x \<noteq> None) \<Longrightarrow> Q x"
  shows "returns F Q (utf8_ptr it)"
proof (cases "t = BSON_TYPE_UTF8")
  case True
  note el = on_elementD [OF assms(1)]
  have at: "string_at data it" using el True by simp
  have "0 \<in> set (drop (it_d2 it) data)"
    using el at by (auto simp: string_at_def intro: zero_in_dropI [of _ "it_next_off it - 1"])
  then show ?thesis
    using iter_string_ok [OF assms(1) at] True assms(2)
    by (simp add: utf8_ptr_def bson_iter_utf8_def c_strlen_def)
next
  case False
  then have "utf8_ptr it = Inr None"
    using on_element_type [OF assms(1)] by (simp add: utf8_ptr_def bson_iter_utf8_def iter_string_def)
  then show ?thesis using False assms(2) by simp
qed

lemma oid_returns [returns_intro]:
  assumes "on_element data t it" and "\<And>x. (t = BSON_TYPE_OID \<longleftrightarrow> x \<noteq> None) \<Longrightarrow> Q x"
  shows "returns F Q (bson_iter_oid it)"
  using on_elementD [OF assms(1)] on_element_type [OF assms(1)] assms(2)
  by (cases "t = BSON_TYPE_OID") (auto simp: access_defs fixed_at_def)

text \<open>A nested document that is read as a static document.\<close>

definition doc_ok :: "doc \<Rightarrow> bool" where
  "doc_ok d \<longleftrightarrow> 5 \<le> snd d \<and> snd d \<le> length (fst d) \<and> snd d \<le> INT_MAX"

lemma doc_ok_empty [simp]: "doc_ok doc_empty"
  by (simp add: doc_ok_def doc_empty_def empty_doc_def INT_MAX_def)

lemma doc_ok_take: "doc_ok d \<Longrightarrow> doc_ok (take (snd d) (fst d), snd d)"
  by (simp add: doc_ok_def)

lemma init_static_returns:
  assumes "n \<le> length bytes" and "\<And>x. (x \<longrightarrow> 5 \<le> n \<and> n \<le> BSON_MAX_SIZE) \<Longrightarrow> Q x"
  shows "returns F Q (bson_init_static bytes n)"
  using assms by (auto simp: bson_init_static_def)

lemma static_doc_returns [returns_intro]:
  assumes "n \<le> length bytes" and "AssertFail \<in> F" and "doc_ok (bytes, n) \<Longrightarrow> Q (bytes, n)"
  shows "returns F Q (static_doc (n, Some bytes))"
proof -
  have "returns F (\<lambda>x. x \<longrightarrow> doc_ok (bytes, n)) (bson_init_static bytes n)"
    using assms(1) by (intro init_static_returns) (auto simp: doc_ok_def BSON_MAX_SIZE_def INT_MAX_def)
  then show ?thesis
    unfolding static_doc_def using assms(2,3)
    by (cases "bson_init_static bytes n") (auto simp: c_assert_def)
qed

lemma container_returns:
  assumes "on_element data t it" and "t = BSON_TYPE_DOCUMENT \<or> t = BSON_TYPE_ARRAY"
  shows "(if t = BSON_TYPE_ARRAY then bson_iter_array it else bson_iter_document it)
    = Inr (u32_at data (it_d1 it), Some (drop (it_d1 it) data))"
    and "u32_at data (it_d1 it) \<le> length (drop (it_d1 it) data)"
  using assms(2) on_elementD [OF assms(1)] on_element_type [OF assms(1)]
  by (auto simp: access_defs document_at_def)

section \<open>One field\<close>

text \<open>What every field keeps: the identity of the server, and its type.\<close>

definition same_server :: "server_desc \<Rightarrow> server_desc \<Rightarrow> bool" where
  "same_server a b \<longleftrightarrow> sd_id b = sd_id a \<and> sd_address b = sd_address a \<and> sd_host b = sd_host a"

lemma same_server_refl [simp]: "same_server a a"
  by (simp add: same_server_def)

lemma same_server_trans: "same_server a b \<Longrightarrow> same_server b c \<Longrightarrow> same_server a c"
  by (simp add: same_server_def)

fun exit_state :: "hello_exit \<Rightarrow> hello_state" where
  "exit_state (Continue st) = st"
| "exit_state (Typefailure st) = st"
| "exit_state (Authfailure st) = st"

definition docs_ok :: "server_desc \<Rightarrow> bool" where
  "docs_ok sd \<longleftrightarrow> doc_ok (sd_hosts sd) \<and> doc_ok (sd_arbiters sd) \<and> doc_ok (sd_passives sd)
     \<and> doc_ok (sd_topology_version sd)"

definition field_ok :: "hello_state \<Rightarrow> hello_exit \<Rightarrow> bool" where
  "field_ok st r \<longleftrightarrow> same_server (hs_sd st) (hs_sd (exit_state r))
     \<and> (docs_ok (hs_sd st) \<longrightarrow> docs_ok (hs_sd (exit_state r)))"

lemma upd_sd_ok [simp]: "hs_sd (upd_sd f st) = f (hs_sd st)"
  by (simp add: upd_sd_def)

lemma expect_returns [returns_intro]:
  assumes "on_element data t it" and "t \<in> set ts \<Longrightarrow> returns F (field_ok st) m"
  shows "returns F (field_ok st) (expect ts it st m)"
  using assms accessors_return(7) [OF assms(1)] by (auto simp: expect_def field_ok_def image_iff)

lemma expect_in: "on_element data t it \<Longrightarrow> t \<in> set ts \<Longrightarrow> expect ts it st m = m"
  using accessors_return(7) by (auto simp: expect_def)

lemma typed_field_returns [returns_intro]:
  assumes "on_element data t it"
  shows "(\<And>b. field_ok st (Continue (f b))) \<Longrightarrow> returns F (field_ok st) (bool_hello it st f)"
    and "(\<And>i. field_ok st (Continue (g i))) \<Longrightarrow> returns F (field_ok st) (int32_hello it st g)"
    and "(\<And>s. field_ok st (Continue (h s))) \<Longrightarrow> returns F (field_ok st) (utf8_hello it st h)"
  unfolding bool_hello_def int32_hello_def utf8_hello_def
  using assms by (auto intro!: returns_intro)

lemma oid_field_returns [returns_intro]:
  assumes "on_element data t it" and "\<And>v. field_ok st (Continue (k v))"
  shows "returns F (field_ok st) (oid_hello it st k)"
  unfolding oid_hello_def
proof (rule expect_returns [OF assms(1)])
  assume "t \<in> set [BSON_TYPE_OID]"
  then have "returns F (\<lambda>x. x \<noteq> None) (bson_iter_oid it)"
    using assms(1) by (intro oid_returns) auto
  then show "returns F (field_ok st) (bind_res (bson_iter_oid it) (\<lambda>p. map_res (\<lambda>v. Continue (k v)) (deref p)))"
    by (rule returns_bind) (auto intro!: returns_map assms(2))
qed

lemma doc_field_returns [returns_intro]:
  assumes "on_element data t it" and "AssertFail \<in> F"
  shows "(\<And>d. doc_ok d \<Longrightarrow> field_ok st (Continue (f d))) \<Longrightarrow> returns F (field_ok st) (array_hello it st f)"
    and "(\<And>d. doc_ok d \<Longrightarrow> field_ok st (Continue (g d))) \<Longrightarrow> returns F (field_ok st) (document_hello it st g)"
proof -
  show "returns F (field_ok st) (array_hello it st f)" if "\<And>d. doc_ok d \<Longrightarrow> field_ok st (Continue (f d))"
    unfolding array_hello_def
  proof (rule expect_returns [OF assms(1)])
    assume "t \<in> set [BSON_TYPE_ARRAY]"
    with container_returns [OF assms(1)] that assms(2)
    show "returns F (field_ok st) (bind_res (bson_iter_array it) (\<lambda>p. map_res (\<lambda>d. Continue (f d)) (static_doc p)))"
      by (auto intro!: returns_map static_doc_returns)
  qed
  show "returns F (field_ok st) (document_hello it st g)" if "\<And>d. doc_ok d \<Longrightarrow> field_ok st (Continue (g d))"
    unfolding document_hello_def
  proof (rule expect_returns [OF assms(1)])
    assume "t \<in> set [BSON_TYPE_DOCUMENT]"
    with container_returns [OF assms(1)] that assms(2)
    show "returns F (field_ok st) (bind_res (bson_iter_document it) (\<lambda>p. map_res (\<lambda>d. Continue (g d)) (static_doc p)))"
      by (auto intro!: returns_map static_doc_returns)
  qed
qed

lemma find_child_returns:
  assumes "iter_ok it" and "it_raw it = Some data" and "0 \<notin> set k"
  shows "returns {} (\<lambda>(found, e). found \<longrightarrow> (\<exists>t. on_element data t e)) (bson_iter_find it (k @ [0]))"
proof -
  from bson_iter_find_first [OF assms, of "[]"]
  have ff: "found_first (\<lambda>e. elem_key data e = k) (elements it) (bson_iter_find it (k @ [0]))" by simp
  show ?thesis
  proof (cases "List.find (\<lambda>e. elem_key data e = k) (elements it)")
    case None
    with ff show ?thesis by (auto simp: found_first_def)
  next
    case (Some e)
    then have "e \<in> set (elements it)" by (auto simp: find_Some_iff)
    with elements_on_element [OF assms(1,2)] ff Some show ?thesis by (auto simp: found_first_def)
  qed
qed

lemma last_write_returns [returns_intro]:
  assumes "on_element data t it"
  shows "returns F (field_ok st) (last_write_hello it st)"
  unfolding last_write_hello_def
proof (rule expect_returns [OF assms])
  assume "t \<in> set [BSON_TYPE_DOCUMENT]"
  then have t: "t = BSON_TYPE_DOCUMENT \<or> t = BSON_TYPE_ARRAY" by simp
  let ?child = "iter_start (drop (it_d1 it) data) (u32_at data (it_d1 it))"
  have "0 \<notin> set (str ''lastWriteDate'')" by (simp add: str_def)
  from find_child_returns [OF bson_iter_recurse_ok(3) [OF assms t] _ this, of "drop (it_d1 it) data"]
  obtain found e where find: "bson_iter_find ?child (str ''lastWriteDate'' @ [0]) = Inr (found, e)"
    "found \<longrightarrow> (\<exists>t. on_element (drop (it_d1 it) data) t e)"
    by (auto simp: returns_total iter_start_def)
  have "returns F (field_ok st) (expect [BSON_TYPE_DATE_TIME] e st
      (map_res (\<lambda>w. Continue (upd_sd (\<lambda>sd. sd\<lparr>sd_last_write := sint w\<rparr>) st)) (bson_iter_date_time e)))" if "found"
    using find(2) that
    by (auto intro!: expect_returns returns_map element_returns(3) simp: field_ok_def same_server_def docs_ok_def)
  then show "returns F (field_ok st) (bind_res (bson_iter_recurse it) (\<lambda>child. case child of
        None \<Rightarrow> Inr (Typefailure st)
      | Some child \<Rightarrow>
          bind_res (bson_iter_find child (str ''lastWriteDate'' @ [0])) (\<lambda>(found, child).
            if \<not> found then Inr (Typefailure st)
            else expect [BSON_TYPE_DATE_TIME] child st
              (map_res (\<lambda>w. Continue (upd_sd (\<lambda>sd. sd\<lparr>sd_last_write := sint w\<rparr>) st)) (bson_iter_date_time child)))))"
    using bson_iter_recurse_ok(1) [OF assms t] find(1) by (simp add: field_ok_def)
qed

lemma hello_field_returns:
  assumes "on_element data t it" and "AssertFail \<in> F" and "BadCast \<in> F"
  shows "returns F (field_ok st) (hello_field key it st)"
  unfolding hello_field_def
  using assms accessors_return(7) [OF assms(1)]
  by (intro returns_if returns_intro) (auto simp: field_ok_def same_server_def docs_ok_def doc_ok_take)


section \<open>The loop and the handler\<close>

definition loop_ok :: "hello_state \<Rightarrow> bson_iter \<times> hello_exit \<Rightarrow> bool" where
  "loop_ok st r \<longleftrightarrow> field_ok st (snd r) \<and>
     (case snd r of Typefailure _ \<Rightarrow> (\<exists>data t. on_element data t (fst r)) | _ \<Rightarrow> True)"

lemma key_returns:
  assumes "on_element data t it"
  shows "bson_iter_key it = Inr (drop (it_key it) data)" "c_str (drop (it_key it) data) = elem_key data it"
    "c_strlen (drop (it_key it) data) = Inr (length (elem_key data it))"
proof -
  show "bson_iter_key it = Inr (drop (it_key it) data)" by (rule on_element_key(2) [OF assms])
  show "c_str (drop (it_key it) data) = elem_key data it" by (simp add: elem_key_def)
  show "c_strlen (drop (it_key it) data) = Inr (length (elem_key data it))"
    by (subst on_element_key(3) [OF assms], rule c_strlen_append, rule on_element_key(4) [OF assms])
qed

lemma field_ok_trans:
  "field_ok st (Continue st') \<Longrightarrow> field_ok st' r \<Longrightarrow> field_ok st r"
  by (auto simp: field_ok_def dest: same_server_trans)

lemma hello_loop_returns:
  assumes "iter_ok it" and "rounds it < f" and "AssertFail \<in> F" and "BadCast \<in> F"
  shows "returns F (loop_ok st) (hello_loop f it st)"
  using assms
proof (induction arbitrary: f st rule: iter_induct)
  case (stop it it')
  then obtain f' where "f = Suc f'" by (cases f) auto
  with stop show ?case by (simp add: loop_ok_def field_ok_def)
next
  case (step it it' data t)
  then obtain f' where f: "f = Suc f'" by (cases f) auto
  let ?st = "st\<lparr>hs_num_keys := hs_num_keys st + 1\<rparr>"
  have st: "field_ok st (Continue ?st)" by (simp add: field_ok_def)
  have r: "rounds it' < f'" using step.prems(1) step.hyps(6) f by linarith
  have fld: "returns F (field_ok ?st) (hello_field (elem_key data it') it' ?st)"
    by (rule hello_field_returns [OF step.hyps(4) step.prems(2,3)])
  have "returns F (loop_ok st) (bind_res (hello_field (elem_key data it') it' ?st)
      (\<lambda>r. case r of Continue st \<Rightarrow> hello_loop f' it' st | _ \<Rightarrow> Inr (it', r)))"
  proof (rule returns_bind [OF fld])
    fix r assume ok: "field_ok ?st r"
    show "returns F (loop_ok st) (case r of Continue st \<Rightarrow> hello_loop f' it' st | _ \<Rightarrow> Inr (it', r))"
    proof (cases r)
      case (Continue st')
      have "field_ok st (Continue st')" using Continue ok st field_ok_trans by blast
      then have "loop_ok st x" if "loop_ok st' x" for x
        using that by (auto simp: loop_ok_def dest: field_ok_trans)
      then show ?thesis
        using returns_mono [OF step.IH [OF r step.prems(2,3), of st'] order_refl, of "loop_ok st"]
        by (simp add: Continue)
    qed (use ok st step.hyps(4) in \<open>auto simp: loop_ok_def dest: field_ok_trans\<close>)
  qed
  then show ?case
    using step.hyps(2) key_returns [OF step.hyps(4)] by (simp add: f Let_def)
qed

text \<open>What the type of a description says.\<close>

definition typed_ok :: "server_desc \<Rightarrow> bool" where
  "typed_ok sd \<longleftrightarrow> sd_type sd \<notin> {MONGOC_SERVER_POSSIBLE_PRIMARY, MONGOC_SERVER_LOAD_BALANCER}
     \<and> (sd_type sd \<in> {MONGOC_SERVER_RS_PRIMARY, MONGOC_SERVER_RS_SECONDARY, MONGOC_SERVER_RS_ARBITER,
           MONGOC_SERVER_RS_OTHER} \<longrightarrow> sd_set_name sd \<noteq> None)"

definition handled :: "server_desc \<Rightarrow> server_desc \<Rightarrow> bool" where
  "handled sd sd' \<longleftrightarrow> same_server sd sd' \<and> typed_ok sd' \<and> docs_ok sd'"

lemma handle_hello_None:
  "mongoc_server_description_handle_hello env sd None rtt err
    = Inr (set_sd_error (mongoc_server_description_reset env sd) err)"
  by (simp add: mongoc_server_description_handle_hello_def)

lemma set_sd_error_simps [simp]:
  "sd_type (set_sd_error sd err) = sd_type sd" "same_server s (set_sd_error sd err) = same_server s sd"
  "docs_ok (set_sd_error sd err) = docs_ok sd" "sd_set_name (set_sd_error sd err) = sd_set_name sd"
  by (simp_all add: set_sd_error_def same_server_def docs_ok_def)

lemma reset_simps [simp]:
  "sd_type (mongoc_server_description_reset env sd) = MONGOC_SERVER_UNKNOWN"
  "same_server sd (mongoc_server_description_reset env sd)"
  "sd_topology_version (mongoc_server_description_reset env sd) = sd_topology_version sd"
  "docs_ok (mongoc_server_description_reset env sd) = doc_ok (sd_topology_version sd)"
  by (simp_all add: mongoc_server_description_reset_def same_server_def docs_ok_def)

lemma update_rtt_simps [simp]:
  "sd_type (mongoc_server_description_update_rtt env sd r) = sd_type sd"
  "same_server s (mongoc_server_description_update_rtt env sd r) = same_server s sd"
  "docs_ok (mongoc_server_description_update_rtt env sd r) = docs_ok sd"
  "sd_set_name (mongoc_server_description_update_rtt env sd r) = sd_set_name sd"
  by (simp_all add: mongoc_server_description_update_rtt_def same_server_def docs_ok_def)

lemma set_type_simps [simp]:
  "same_server s (sd\<lparr>sd_type := t\<rparr>) = same_server s sd" "docs_ok (sd\<lparr>sd_type := t\<rparr>) = docs_ok sd"
  by (simp_all add: same_server_def docs_ok_def)

lemma hello_type_ok: "typed_ok (sd\<lparr>sd_type := hello_type st\<rparr>)" if "sd_set_name sd = sd_set_name (hs_sd st)"
  using that by (simp add: typed_ok_def hello_type_def)

lemma typed_ok_error [simp]: "typed_ok (set_sd_error sd err) = typed_ok sd"
  "typed_ok (mongoc_server_description_update_rtt env sd r) = typed_ok sd"
  by (simp_all add: typed_ok_def)

lemma handle_hello_returns:
  assumes "\<And>data n. hello = Some (data, n) \<Longrightarrow> n \<le> length data \<and> n \<le> INT_MAX"
    and "hello = None \<Longrightarrow> doc_ok (sd_topology_version sd)"
    and "AssertFail \<in> F" and "BadCast \<in> F"
  shows "returns F (handled sd) (mongoc_server_description_handle_hello env sd hello rtt err)"
proof (cases hello)
  case None
  then show ?thesis using assms(2) by (simp add: handle_hello_None handled_def typed_ok_def)
next
  case (Some d)
  obtain data n where d: "hello = Some (data, n)" using Some by (cases d) auto
  show ?thesis
  proof (cases "5 \<le> n")
    case False
    then show ?thesis
      using assms(3) by (simp add: d mongoc_server_description_handle_hello_def bson_iter_init_def Let_def)
  next
    case True
    let ?sd = "(mongoc_server_description_reset env sd)\<lparr>sd_last_hello := (data, n), sd_has_hello := True,
        sd_topology_version := doc_empty\<rparr>"
    let ?st = "hello_init ?sd"
    let ?it = "iter_start data n"
    have base: "same_server sd ?sd" "docs_ok ?sd"
      by (simp_all add: mongoc_server_description_reset_def same_server_def docs_ok_def)
    have ok: "iter_ok ?it" using assms(1) [OF d] by (simp add: iter_ok_start)
    have r: "rounds ?it < Suc n" by (simp add: rounds_def iter_start_def)
    have loop: "returns F (loop_ok ?st) (hello_loop (Suc n) ?it ?st)"
      by (rule hello_loop_returns [OF ok r assms(3,4)])
    have "returns F (handled sd) (hello_finish env rtt err x)" if lk: "loop_ok ?st x" for x
    proof (cases "snd x")
      case (Continue st)
      have keep: "same_server sd (hs_sd st)" "docs_ok (hs_sd st)"
        using lk Continue base by (auto simp: loop_ok_def field_ok_def hello_init_def dest: same_server_trans)
      then show ?thesis
        by (simp add: Continue hello_finish_def handled_def hello_type_ok Let_def)
    next
      case (Typefailure st)
      have keep: "same_server sd (hs_sd st)" "docs_ok (hs_sd st)"
        using lk Typefailure base by (auto simp: loop_ok_def field_ok_def hello_init_def dest: same_server_trans)
      obtain data' t where el: "on_element data' t (fst x)"
        using lk Typefailure by (auto simp: loop_ok_def)
      show ?thesis
        using keep accessors_return(7) [OF el] key_returns [OF el]
        by (simp add: Typefailure hello_finish_def handled_def typed_ok_def same_server_def docs_ok_def
            hello_failure_def)
    next
      case (Authfailure st)
      then show ?thesis
        using lk base by (auto simp: hello_finish_def loop_ok_def field_ok_def hello_init_def handled_def
            typed_ok_def same_server_def docs_ok_def hello_failure_def)
    qed
    from returns_bind [OF loop this] show ?thesis
      using True by (simp add: mongoc_server_description_handle_hello_def d Let_def bson_iter_init_def
          del: hello_loop.simps)
  qed
qed

end
