(* ===== verification/MongocSet.thy ===== *)
theory MongocSet
  imports MPrelude "HOL-Library.Multiset"
begin

text \<open>
  \<open>mongoc_set_t\<close> (\<open>src/src/mongoc/mongoc-set.c\<close>): a growing array of items sorted by id, with binary
  search. \<open>keyed_store\<close> is what its clients rely on: a finite map from ids to items with a lookup,
  an insertion of a new id and a removal.
\<close>

section \<open>The structure and its operations\<close>

record 'a mongoc_set =
  items :: "(nat \<times> 'a) list"
  items_allocated :: nat

definition mongoc_set_new :: "nat \<Rightarrow> 'a mongoc_set" where
  "mongoc_set_new nitems = \<lparr>items = [], items_allocated = max nitems 1\<rparr>"

text \<open>\<open>bsearch\<close> of the C library on the ids: the index of a match in \<open>[l, u)\<close>.\<close>

function bsearch_id :: "(nat \<times> 'a) list \<Rightarrow> nat \<Rightarrow> nat \<Rightarrow> nat \<Rightarrow> nat option" where
  "bsearch_id xs k l u =
     (if l < u then
        let idx = (l + u) div 2; i = fst (xs ! idx) in
        if k = i then Some idx
        else if k < i then bsearch_id xs k l idx
        else bsearch_id xs k (Suc idx) u
      else None)"
  by pat_completeness auto
termination by (relation "measure (\<lambda>(xs, k, l, u). u - l)") auto

declare bsearch_id.simps [simp del]

text \<open>
  \<open>mongoc_set_add\<close>: the array doubles when it is full, and the item is written at \<open>items_len\<close>.
  \<open>qsort\<close> is called when the id of the item before is greater.
\<close>

definition mongoc_set_add :: "'a mongoc_set \<Rightarrow> nat \<Rightarrow> 'a \<Rightarrow> 'a mongoc_set res" where
  "mongoc_set_add st k item =
     (let len = length (items st);
          alloc = (if len \<ge> items_allocated st then items_allocated st * 2 else items_allocated st) in
      if len < alloc then
        let xs = items st @ [(k, item)] in
        Inr \<lparr>items = (if length xs > 1 \<and> fst (xs ! (length xs - 2)) > k then sort_key fst xs else xs),
             items_allocated = alloc\<rparr>
      else Inl OutOfBounds)"

definition mongoc_set_rm :: "'a mongoc_set \<Rightarrow> nat \<Rightarrow> 'a mongoc_set" where
  "mongoc_set_rm st k =
     (case bsearch_id (items st) k 0 (length (items st)) of
        None \<Rightarrow> st
      | Some idx \<Rightarrow> st\<lparr>items := take idx (items st) @ drop (Suc idx) (items st)\<rparr>)"

definition mongoc_set_get :: "'a mongoc_set \<Rightarrow> nat \<Rightarrow> 'a option" where
  "mongoc_set_get st k =
     map_option (\<lambda>idx. snd (items st ! idx)) (bsearch_id (items st) k 0 (length (items st)))"

definition mongoc_set_get_item :: "'a mongoc_set \<Rightarrow> nat \<Rightarrow> 'a res" where
  "mongoc_set_get_item st idx =
     bind_res (c_assert (idx < length (items st))) (\<lambda>_. Inr (snd (items st ! idx)))"

definition mongoc_set_get_item_and_id :: "'a mongoc_set \<Rightarrow> nat \<Rightarrow> ('a \<times> nat) res" where
  "mongoc_set_get_item_and_id st idx =
     bind_res (c_assert (idx < length (items st))) (\<lambda>_. Inr (snd (items st ! idx), fst (items st ! idx)))"

text \<open>
  \<open>mongoc_set_for_each_with_id\<close> walks over a copy of the array, so the callback may change the
  set. The callback gets the index of the item, its item and the state it works on, and says
  whether to go on.
\<close>

fun for_each_loop :: "(nat \<Rightarrow> 'a \<Rightarrow> 's \<Rightarrow> (bool \<times> 's) res) \<Rightarrow> nat \<Rightarrow> 'a list \<Rightarrow> 's \<Rightarrow> 's res" where
  "for_each_loop cb i [] s = Inr s"
| "for_each_loop cb i (x # old_set) s =
     bind_res (cb i x s) (\<lambda>(go, s). if go then for_each_loop cb (Suc i) old_set s else Inr s)"

definition mongoc_set_for_each_with_id ::
    "'a mongoc_set \<Rightarrow> (nat \<Rightarrow> 'a \<Rightarrow> 's \<Rightarrow> (bool \<times> 's) res) \<Rightarrow> 's \<Rightarrow> 's res" where
  "mongoc_set_for_each_with_id st cb s =
     bind_res (c_assert (length (items st) < 2 ^ 32)) (\<lambda>_. for_each_loop cb 0 (map snd (items st)) s)"

definition mongoc_set_for_each :: "'a mongoc_set \<Rightarrow> ('a \<Rightarrow> 's \<Rightarrow> (bool \<times> 's) res) \<Rightarrow> 's \<Rightarrow> 's res" where
  "mongoc_set_for_each st cb = mongoc_set_for_each_with_id st (\<lambda>_. cb)"

definition mongoc_set_find_item :: "'a mongoc_set \<Rightarrow> ('a \<Rightarrow> bool) \<Rightarrow> (nat \<times> 'a) option" where
  "mongoc_set_find_item st cb = List.find (\<lambda>it. cb (snd it)) (items st)"

definition mongoc_set_find_id :: "'a mongoc_set \<Rightarrow> ('a \<Rightarrow> bool) \<Rightarrow> nat" where
  "mongoc_set_find_id st cb = (case mongoc_set_find_item st cb of None \<Rightarrow> 0 | Some it \<Rightarrow> fst it)"

text \<open>A write through the pointer that a search returned.\<close>

definition mongoc_set_update :: "'a mongoc_set \<Rightarrow> nat \<Rightarrow> ('a \<Rightarrow> 'a) \<Rightarrow> 'a mongoc_set" where
  "mongoc_set_update st k f = st\<lparr>items := map (\<lambda>(i, x). (i, if i = k then f x else x)) (items st)\<rparr>"

section \<open>The invariant\<close>

definition set_inv :: "'a mongoc_set \<Rightarrow> bool" where
  "set_inv st \<longleftrightarrow> sorted_wrt (<) (map fst (items st)) \<and> length (items st) \<le> items_allocated st
     \<and> 0 < items_allocated st"

definition set_ids :: "'a mongoc_set \<Rightarrow> nat set" where
  "set_ids st = fst ` set (items st)"

lemma bsearch_id_sound: "bsearch_id xs k l u = Some i \<Longrightarrow> l \<le> i \<and> i < u \<and> fst (xs ! i) = k"
proof (induction xs k l u rule: bsearch_id.induct)
  case (1 xs k l u)
  from "1.prems" have lt: "l < u" by (subst (asm) bsearch_id.simps) (auto split: if_splits)
  let ?m = "(l + u) div 2"
  have m: "l \<le> ?m" "?m < u" using lt by auto
  consider "k = fst (xs ! ?m)" "i = ?m" | "k < fst (xs ! ?m)" "bsearch_id xs k l ?m = Some i"
    | "fst (xs ! ?m) < k" "bsearch_id xs k (Suc ?m) u = Some i"
    using "1.prems" lt by (subst (asm) bsearch_id.simps) (auto simp: Let_def split: if_splits)
  then show ?case
  proof cases
    case 2
    with "1.IH"(1) [OF lt refl refl _ 2(1) 2(2)] m show ?thesis by auto
  next
    case 3
    with "1.IH"(2) [OF lt refl refl _ _ 3(2)] m show ?thesis by auto
  qed (use m in auto)
qed

lemma bsearch_id_complete:
  assumes "sorted_wrt (<) (map fst xs)" and "u \<le> length xs" and "j < u" and "l \<le> j" and "fst (xs ! j) = k"
  shows "bsearch_id xs k l u \<noteq> None"
  using assms
proof (induction xs k l u rule: bsearch_id.induct)
  case (1 xs k l u)
  let ?m = "(l + u) div 2"
  have lt: "l < u" and m: "?m < length xs" using "1.prems" by auto
  have less: "fst (xs ! a) < fst (xs ! b)" if "a < b" "b < length xs" for a b
    using sorted_wrt_nth_less [OF "1.prems"(1), of a b] that by simp
  show ?case
  proof (cases "k = fst (xs ! ?m)")
    case True
    then show ?thesis using lt by (subst bsearch_id.simps) (simp add: Let_def)
  next
    case False
    then have "j \<noteq> ?m" using "1.prems"(5) by auto
    then consider "j < ?m" "k < fst (xs ! ?m)" | "?m < j" "fst (xs ! ?m) < k"
      using less [of j ?m] less [of ?m j] m "1.prems" by fastforce
    then show ?thesis
    proof cases
      case 1
      with "1.IH"(1) [OF lt refl refl False] "1.prems" m show ?thesis
        by (subst bsearch_id.simps) (auto simp: Let_def)
    next
      case 2
      then have "\<not> k < fst (xs ! ?m)" by simp
      with "1.IH"(2) [OF lt refl refl False this] "1.prems" 2 show ?thesis
        by (subst bsearch_id.simps) (auto simp: Let_def)
    qed
  qed
qed


text \<open>The search returns the item with the id, and \<open>None\<close> exactly when there is none.\<close>

lemma set_inv_distinct: "set_inv st \<Longrightarrow> distinct (map fst (items st))"
  by (simp add: set_inv_def strict_sorted_iff)

lemma bsearch_id_items:
  assumes "set_inv st"
  shows "case bsearch_id (items st) k 0 (length (items st)) of
      None \<Rightarrow> k \<notin> set_ids st
    | Some i \<Rightarrow> i < length (items st) \<and> fst (items st ! i) = k"
proof (cases "bsearch_id (items st) k 0 (length (items st))")
  case None
  have "k \<notin> set_ids st"
  proof
    assume "k \<in> set_ids st"
    then obtain j where "j < length (items st)" "fst (items st ! j) = k"
      by (auto simp: set_ids_def in_set_conv_nth)
    with bsearch_id_complete [of "items st" "length (items st)" j 0 k] assms None show False
      by (simp add: set_inv_def)
  qed
  with None show ?thesis by simp
next
  case (Some i)
  with bsearch_id_sound [OF Some] show ?thesis by simp
qed

lemma mongoc_set_get_eq: "set_inv st \<Longrightarrow> mongoc_set_get st k = map_of (items st) k"
proof -
  assume inv: "set_inv st"
  show ?thesis
  proof (cases "bsearch_id (items st) k 0 (length (items st))")
    case None
    with bsearch_id_items [OF inv, of k] have "map_of (items st) k = None"
      by (simp add: set_ids_def map_of_eq_None_iff)
    with None show ?thesis by (simp add: mongoc_set_get_def)
  next
    case (Some i)
    with bsearch_id_items [OF inv, of k] have i: "i < length (items st)" "fst (items st ! i) = k" by simp_all
    then have "(k, snd (items st ! i)) \<in> set (items st)" by (metis nth_mem prod.collapse)
    with set_inv_distinct [OF inv] have "map_of (items st) k = Some (snd (items st ! i))" by simp
    with Some show ?thesis by (simp add: mongoc_set_get_def)
  qed
qed

lemma mongoc_set_get_None: "set_inv st \<Longrightarrow> mongoc_set_get st k = None \<longleftrightarrow> k \<notin> set_ids st"
  by (simp add: mongoc_set_get_eq map_of_eq_None_iff set_ids_def)

lemma filter_remove_nth:
  assumes "distinct (map fst xs)" and "i < length xs"
  shows "filter (\<lambda>it. fst it \<noteq> fst (xs ! i)) xs = take i xs @ drop (Suc i) xs"
proof -
  have d: "distinct (map fst (take i xs) @ fst (xs ! i) # map fst (drop (Suc i) xs))"
    using assms by (metis id_take_nth_drop list.simps(9) map_append)
  have "filter (\<lambda>it. fst it \<noteq> fst (xs ! i)) (take i xs @ xs ! i # drop (Suc i) xs)
      = take i xs @ drop (Suc i) xs"
  proof -
    have "\<forall>it \<in> set (take i xs). fst it \<noteq> fst (xs ! i)" "\<forall>it \<in> set (drop (Suc i) xs). fst it \<noteq> fst (xs ! i)"
      using d by (auto simp: in_set_conv_decomp)
    then show ?thesis by simp
  qed
  then show ?thesis using id_take_nth_drop [OF assms(2)] by simp
qed

lemma mongoc_set_rm_items:
  assumes "set_inv st"
  shows "items (mongoc_set_rm st k) = filter (\<lambda>it. fst it \<noteq> k) (items st)"
    and "items_allocated (mongoc_set_rm st k) = items_allocated st"
proof -
  have "items (mongoc_set_rm st k) = filter (\<lambda>it. fst it \<noteq> k) (items st)
     \<and> items_allocated (mongoc_set_rm st k) = items_allocated st"
  proof (cases "bsearch_id (items st) k 0 (length (items st))")
    case None
    with bsearch_id_items [OF assms, of k] show ?thesis
      by (auto simp: mongoc_set_rm_def set_ids_def intro: filter_True [symmetric])
  next
    case (Some i)
    with bsearch_id_items [OF assms, of k] have "i < length (items st)" "fst (items st ! i) = k" by simp_all
    with filter_remove_nth [OF set_inv_distinct [OF assms], of i] Some show ?thesis
      by (simp add: mongoc_set_rm_def)
  qed
  then show "items (mongoc_set_rm st k) = filter (\<lambda>it. fst it \<noteq> k) (items st)"
    "items_allocated (mongoc_set_rm st k) = items_allocated st" by simp_all
qed

lemma sorted_wrt_filter_fst: "sorted_wrt (<) (map fst xs) \<Longrightarrow> sorted_wrt (<) (map fst (filter P xs))"
  by (induction xs) auto

lemma mongoc_set_rm_inv: "set_inv st \<Longrightarrow> set_inv (mongoc_set_rm st k)"
proof -
  assume inv: "set_inv st"
  have "length (filter (\<lambda>it. fst it \<noteq> k) (items st)) \<le> items_allocated st"
    by (rule order_trans [OF length_filter_le]) (use inv in \<open>simp add: set_inv_def\<close>)
  with inv show ?thesis
    using mongoc_set_rm_items [OF inv, of k] by (simp add: set_inv_def sorted_wrt_filter_fst)
qed

lemma mongoc_set_rm_ids: "set_inv st \<Longrightarrow> set_ids (mongoc_set_rm st k) = set_ids st - {k}"
  by (auto simp: set_ids_def mongoc_set_rm_items)

lemma mongoc_set_add_ok:
  assumes inv: "set_inv st" and new: "k \<notin> set_ids st"
  shows "\<exists>st'. mongoc_set_add st k x = Inr st' \<and> set_inv st' \<and> mset (items st') = add_mset (k, x) (mset (items st))"
proof -
  let ?xs = "items st @ [(k, x)]"
  let ?ys = "if length ?xs > 1 \<and> fst (?xs ! (length ?xs - 2)) > k then sort_key fst ?xs else ?xs"
  let ?alloc = "if length (items st) \<ge> items_allocated st then items_allocated st * 2 else items_allocated st"
  have alloc: "length (items st) < ?alloc" using inv by (auto simp: set_inv_def)
  have le0: "0 \<le> length (items st)" by simp
  have d: "distinct (map fst ?xs)" using set_inv_distinct [OF inv] new by (auto simp: set_ids_def)
  have "sorted_wrt (<) (map fst ?ys)"
  proof (cases "length ?xs > 1 \<and> fst (?xs ! (length ?xs - 2)) > k")
    case True
    have "distinct (map fst (sort_key fst ?xs))"
      using d by (metis distinct_map distinct_sort set_sort)
    moreover have "sorted (map fst (sort_key fst ?xs))" by (rule sorted_sort_key)
    ultimately have "sorted_wrt (<) (map fst (sort_key fst ?xs))" by (simp only: strict_sorted_iff)
    then show ?thesis using True by (simp only: if_True) simp
  next
    case False
    have "\<forall>i \<in> set (map fst (items st)). i < k"
    proof (cases "items st" rule: rev_cases)
      case (snoc ys y)
      have "fst y \<le> k" using False snoc by (auto simp: nth_append)
      moreover have "fst y \<noteq> k" using new snoc by (auto simp: set_ids_def)
      ultimately show ?thesis using inv snoc by (fastforce simp: set_inv_def sorted_wrt_append)
    qed simp
    then show ?thesis using False inv by (auto simp: set_inv_def sorted_wrt_append)
  qed
  moreover have "length ?ys = Suc (length (items st))" by simp
  then have "length ?ys \<le> ?alloc" using alloc by linarith
  moreover have "0 < ?alloc" using alloc by (rule le_less_trans [OF le0])
  ultimately have "set_inv \<lparr>items = ?ys, items_allocated = ?alloc\<rparr>"
    unfolding set_inv_def mongoc_set.select_convs by (intro conjI)
  moreover have "mset ?ys = add_mset (k, x) (mset (items st))" by auto
  moreover have "mongoc_set_add st k x = Inr \<lparr>items = ?ys, items_allocated = ?alloc\<rparr>"
    unfolding mongoc_set_add_def Let_def using alloc by (simp only: if_True)
  ultimately show ?thesis by (intro exI [of _ "\<lparr>items = ?ys, items_allocated = ?alloc\<rparr>"]) simp
qed


lemma mongoc_set_add_ids:
  assumes "set_inv st" and "k \<notin> set_ids st" and "mongoc_set_add st k x = Inr st'"
  shows "set_inv st'" and "set_ids st' = insert k (set_ids st)" and "set (items st') = insert (k, x) (set (items st))"
proof -
  have m: "mset (items st') = add_mset (k, x) (mset (items st))" and inv: "set_inv st'"
    using mongoc_set_add_ok [OF assms(1,2), of x] assms(3) by auto
  show "set_inv st'" by (rule inv)
  show set: "set (items st') = insert (k, x) (set (items st))"
    using arg_cong [OF m, of set_mset] by simp
  show "set_ids st' = insert k (set_ids st)" by (simp add: set_ids_def set)
qed

lemma mongoc_set_update_simps [simp]:
  "set_ids (mongoc_set_update st k f) = set_ids st"
  "items_allocated (mongoc_set_update st k f) = items_allocated st"
  "length (items (mongoc_set_update st k f)) = length (items st)"
  "map fst (items (mongoc_set_update st k f)) = map fst (items st)"
  by (auto simp: mongoc_set_update_def set_ids_def image_image split_beta comp_def)

lemma mongoc_set_update_inv [simp]: "set_inv (mongoc_set_update st k f) = set_inv st"
  by (simp add: set_inv_def)

section \<open>A set is a finite map\<close>

text \<open>A history of insertions and removals, what it does to a map, and the insertions of new ids.\<close>

datatype 'a store_op = Add nat 'a | Rm nat

fun store_run :: "('s \<Rightarrow> nat \<Rightarrow> 'a \<Rightarrow> 's res) \<Rightarrow> ('s \<Rightarrow> nat \<Rightarrow> 's) \<Rightarrow> 'a store_op list \<Rightarrow> 's \<Rightarrow> 's res" where
  "store_run add rm [] s = Inr s"
| "store_run add rm (Add k x # ops) s = bind_res (add s k x) (store_run add rm ops)"
| "store_run add rm (Rm k # ops) s = store_run add rm ops (rm s k)"

fun map_run :: "'a store_op list \<Rightarrow> (nat \<rightharpoonup> 'a) \<Rightarrow> (nat \<rightharpoonup> 'a)" where
  "map_run [] m = m"
| "map_run (Add k x # ops) m = map_run ops (m(k \<mapsto> x))"
| "map_run (Rm k # ops) m = map_run ops (m(k := None))"

fun ops_fresh :: "'a store_op list \<Rightarrow> nat set \<Rightarrow> bool" where
  "ops_fresh [] K = True"
| "ops_fresh (Add k x # ops) K = (k \<notin> K \<and> ops_fresh ops (insert k K))"
| "ops_fresh (Rm k # ops) K = ops_fresh ops (K - {k})"

locale keyed_store =
  fixes inv :: "'s \<Rightarrow> bool" and lookup :: "'s \<Rightarrow> nat \<Rightarrow> 'a option"
    and add :: "'s \<Rightarrow> nat \<Rightarrow> 'a \<Rightarrow> 's res" and rm :: "'s \<Rightarrow> nat \<Rightarrow> 's"
  assumes add_new: "inv s \<Longrightarrow> lookup s k = None \<Longrightarrow>
      \<exists>s'. add s k x = Inr s' \<and> inv s' \<and> lookup s' = (lookup s)(k \<mapsto> x)"
    and rm_any: "inv s \<Longrightarrow> inv (rm s k) \<and> lookup (rm s k) = (lookup s)(k := None)"
begin

lemma add_rm:
  assumes "inv s" and "lookup s k = None" and "add s k x = Inr s'"
  shows "lookup (rm s' k) = lookup s"
proof -
  have "inv s'" "lookup s' = (lookup s)(k \<mapsto> x)" using add_new [OF assms(1,2), of x] assms(3) by auto
  with rm_any [of s' k] show ?thesis using assms(2) by (simp add: fun_upd_idem)
qed

lemma run_refines_map:
  "inv s \<Longrightarrow> ops_fresh ops (dom (lookup s)) \<Longrightarrow>
    \<exists>s'. store_run add rm ops s = Inr s' \<and> inv s' \<and> lookup s' = map_run ops (lookup s)"
proof (induction ops arbitrary: s)
  case (Cons oper ops)
  show ?case
  proof (cases oper)
    case (Add k x)
    with Cons.prems have "lookup s k = None" by auto
    with Cons.prems(1) obtain s1 where s1: "add s k x = Inr s1" "inv s1" "lookup s1 = (lookup s)(k \<mapsto> x)"
      using add_new by blast
    with Cons.prems(2) Add have "ops_fresh ops (dom (lookup s1))" by simp
    from Cons.IH [OF s1(2) this] show ?thesis
      unfolding Add store_run.simps map_run.simps s1(1) bind_res_simps s1(3) .
  next
    case (Rm k)
    have r: "inv (rm s k)" "lookup (rm s k) = (lookup s)(k := None)" using rm_any [OF Cons.prems(1)] by auto
    with Cons.prems(2) Rm have "ops_fresh ops (dom (lookup (rm s k)))" by simp
    from Cons.IH [OF r(1) this] show ?thesis unfolding Rm store_run.simps map_run.simps r(2) .
  qed
qed simp

end

lemma map_of_insert:
  assumes "distinct (map fst xs)" and "distinct (map fst ys)" and "set ys = insert (k, x) (set xs)"
    and "k \<notin> fst ` set xs"
  shows "map_of ys = (map_of xs)(k \<mapsto> x)"
proof
  fix j
  have eq: "map_of ys j = Some y \<longleftrightarrow> ((map_of xs)(k \<mapsto> x)) j = Some y" for y
    using assms(4) by (cases "j = k") (auto simp: assms(3) map_of_eq_Some_iff [OF assms(1)]
        map_of_eq_Some_iff [OF assms(2)] image_iff)
  show "map_of ys j = ((map_of xs)(k \<mapsto> x)) j"
    by (cases "map_of ys j"; cases "((map_of xs)(k \<mapsto> x)) j") (simp_all only: eq, (use eq in fastforce)+)
qed

interpretation ms: keyed_store set_inv mongoc_set_get mongoc_set_add mongoc_set_rm
proof
  fix st :: "'b mongoc_set" and k x
  assume inv: "set_inv st" and "mongoc_set_get st k = None"
  then have new: "k \<notin> set_ids st" by (simp add: mongoc_set_get_None)
  obtain st' where st': "mongoc_set_add st k x = Inr st'"
    using mongoc_set_add_ok [OF inv new] by blast
  note ids = mongoc_set_add_ids [OF inv new st']
  have "map_of (items st') = (map_of (items st))(k \<mapsto> x)"
    using set_inv_distinct [OF inv] set_inv_distinct [OF ids(1)] ids(3) new
    by (intro map_of_insert) (simp_all add: set_ids_def)
  then have "mongoc_set_get st' = (mongoc_set_get st)(k \<mapsto> x)"
    by (simp add: fun_eq_iff mongoc_set_get_eq [OF ids(1)] mongoc_set_get_eq [OF inv])
  with st' ids(1) show "\<exists>st'. mongoc_set_add st k x = Inr st' \<and> set_inv st'
      \<and> mongoc_set_get st' = (mongoc_set_get st)(k \<mapsto> x)" by blast
next
  fix st :: "'b mongoc_set" and k
  assume inv: "set_inv st"
  note inv' = mongoc_set_rm_inv [OF inv, of k]
  have "map_of (filter (\<lambda>it. fst it \<noteq> k) xs) = (map_of xs)(k := None)" for xs :: "(nat \<times> 'b) list"
    by (induction xs) auto
  then have "mongoc_set_get (mongoc_set_rm st k) = (mongoc_set_get st)(k := None)"
    using inv by (auto simp: mongoc_set_get_eq [OF inv'] mongoc_set_get_eq [OF inv] mongoc_set_rm_items)
  with inv' show "set_inv (mongoc_set_rm st k) \<and> mongoc_set_get (mongoc_set_rm st k) = (mongoc_set_get st)(k := None)"
    by simp
qed

lemma set_inv_new [simp]: "set_inv (mongoc_set_new n)" "mongoc_set_get (mongoc_set_new n) = Map.empty"
  by (auto simp: set_inv_def mongoc_set_new_def mongoc_set_get_def bsearch_id.simps)

end
