(* ===== verification/TopoDesc.thy ===== *)
theory TopoDesc
  imports ServerHello MongocSet
begin

text \<open>
  The topology description (\<open>src/src/mongoc/mongoc-topology-description.c\<close>): the client's view of a
  deployment, and the state machine that \<open>mongoc_topology_description_handle_hello\<close> runs on each
  reply of a server. Events for application callbacks and log messages are not modelled.
\<close>

section \<open>State\<close>

datatype topo_type =
    MONGOC_TOPOLOGY_UNKNOWN | MONGOC_TOPOLOGY_SHARDED | MONGOC_TOPOLOGY_RS_NO_PRIMARY
  | MONGOC_TOPOLOGY_RS_WITH_PRIMARY | MONGOC_TOPOLOGY_SINGLE | MONGOC_TOPOLOGY_LOAD_BALANCED

text \<open>The compatibility error: a server that needs a newer client or is too old.\<close>

datatype compat_error = Requires_newer "byte list option" int | Too_old "byte list option" int

record topo_desc =
  td_topology_id :: "byte list"
  td_type :: topo_type
  td_heartbeat :: int
  td_servers :: "server_desc mongoc_set"
  td_set_name :: "byte list option"
  td_max_set_version :: int
  td_max_election_id :: "byte list"
  td_compat :: "compat_error option"
  td_max_server_id :: nat
  td_max_hosts :: int
  td_stale :: bool
  td_opened :: bool
  td_cluster_time :: doc
  td_session_timeout :: int

definition mongoc_topology_description_init :: "byte list \<Rightarrow> int \<Rightarrow> topo_desc" where
  "mongoc_topology_description_init oid heartbeat =
     \<lparr>td_topology_id = oid, td_type = MONGOC_TOPOLOGY_UNKNOWN, td_heartbeat = heartbeat,
      td_servers = mongoc_set_new 8, td_set_name = None, td_max_set_version = - 1,
      td_max_election_id = mcommon_oid_zero, td_compat = None, td_max_server_id = 0, td_max_hosts = 0,
      td_stale = True, td_opened = False, td_cluster_time = doc_empty, td_session_timeout = - 1\<rparr>"

definition set_server :: "topo_desc \<Rightarrow> nat \<Rightarrow> (server_desc \<Rightarrow> server_desc) \<Rightarrow> topo_desc" where
  "set_server td k f = td\<lparr>td_servers := mongoc_set_update (td_servers td) k f\<rparr>"

definition is_data_node :: "server_desc \<Rightarrow> bool" where
  "is_data_node sd \<longleftrightarrow> sd_type sd \<in> {MONGOC_SERVER_MONGOS, MONGOC_SERVER_STANDALONE,
     MONGOC_SERVER_RS_SECONDARY, MONGOC_SERVER_RS_PRIMARY, MONGOC_SERVER_LOAD_BALANCER}"

section \<open>Questions\<close>

definition topology_has_primary :: "topo_desc \<Rightarrow> server_desc option res" where
  "topology_has_primary td = mongoc_set_for_each (td_servers td)
     (\<lambda>server primary. Inr (
        if sd_type server = MONGOC_SERVER_RS_PRIMARY \<or> sd_type server = MONGOC_SERVER_STANDALONE
        then (False, Some server) else (True, primary))) None"

definition primary_is_not_stale :: "topo_desc \<Rightarrow> server_desc \<Rightarrow> bool" where
  "primary_is_not_stale td sd \<longleftrightarrow>
     bson_oid_compare (sd_election_id sd) (td_max_election_id td) > 0
     \<or> bson_oid_compare (sd_election_id sd) (td_max_election_id td) = 0
        \<and> sd_set_version sd \<ge> td_max_set_version td"

definition later_election :: "topo_desc \<Rightarrow> server_desc \<Rightarrow> bool" where
  "later_election td sd \<longleftrightarrow>
     td_max_set_version td > sd_set_version sd
     \<or> td_max_set_version td = sd_set_version sd
        \<and> bson_oid_compare (td_max_election_id td) (sd_election_id sd) > 0"

definition topology_has_set_version :: "topo_desc \<Rightarrow> bool" where
  "topology_has_set_version td \<longleftrightarrow> td_max_set_version td \<noteq> - 1"

text \<open>The id of the server with an address.\<close>

definition topology_has_server :: "topo_desc \<Rightarrow> byte list option \<Rightarrow> nat option res" where
  "topology_has_server td p =
     (case p of
        None \<Rightarrow> Inl AssertFail
      | Some address \<Rightarrow> mongoc_set_for_each (td_servers td)
          (\<lambda>server found. map_res (\<lambda>a. if same_address address a then (False, Some (sd_id server)) else (True, found))
             (deref (sd_address server))) None)"

definition matches_me :: "server_desc \<Rightarrow> bool res" where
  "matches_me server =
     (case sd_address server of
        None \<Rightarrow> Inl AssertFail
      | Some a \<Rightarrow> Inr (case sd_me server of None \<Rightarrow> True | Some me \<Rightarrow> same_address a me))"

section \<open>Changes\<close>

definition remove_server :: "topo_desc \<Rightarrow> server_desc \<Rightarrow> topo_desc" where
  "remove_server td server = td\<lparr>td_servers := mongoc_set_rm (td_servers td) (sd_id server)\<rparr>"

definition label_unknown_member :: "topo_desc \<Rightarrow> byte list \<Rightarrow> server_type \<Rightarrow> topo_desc res" where
  "label_unknown_member td address ty = mongoc_set_for_each (td_servers td)
     (\<lambda>server td. map_res (\<lambda>a.
        if same_address a address \<and> sd_type server = MONGOC_SERVER_UNKNOWN
        then (False, set_server td (sd_id server) (\<lambda>sd. sd\<lparr>sd_type := ty\<rparr>)) else (True, td))
        (deref (sd_address server))) td"

definition update_rs_type :: "topo_desc \<Rightarrow> topo_desc res" where
  "update_rs_type td = map_res (\<lambda>p.
     td\<lparr>td_type := (if p \<noteq> None then MONGOC_TOPOLOGY_RS_WITH_PRIMARY else MONGOC_TOPOLOGY_RS_NO_PRIMARY)\<rparr>)
     (topology_has_primary td)"

definition mongoc_topology_description_add_server :: "sd_env \<Rightarrow> topo_desc \<Rightarrow> byte list option \<Rightarrow> (topo_desc \<times> nat) res" where
  "mongoc_topology_description_add_server env td p =
     bind_res (topology_has_server td p) (\<lambda>found. case found of
         Some k \<Rightarrow> Inr (td, k)
       | None \<Rightarrow>
           let k = add32 (td_max_server_id td) 1; td = td\<lparr>td_max_server_id := k\<rparr> in
           bind_res (deref p) (\<lambda>server. bind_res (mongoc_server_description_init env server k) (\<lambda>description.
           map_res (\<lambda>st. (td\<lparr>td_servers := st\<rparr>, k)) (mongoc_set_add (td_servers td) k description))))"

definition add_new_servers :: "sd_env \<Rightarrow> topo_desc \<Rightarrow> server_desc \<Rightarrow> topo_desc res" where
  "add_new_servers env td server = map_res snd (members_loop (rs_members server)
     (\<lambda>p td. map_res (\<lambda>(td, _). (False, td)) (mongoc_topology_description_add_server env td p)) td)"

definition invalidate_primaries :: "sd_env \<Rightarrow> topo_desc \<Rightarrow> server_desc \<Rightarrow> topo_desc res" where
  "invalidate_primaries env td primary = mongoc_set_for_each (td_servers td)
     (\<lambda>server td. Inr (True,
        if sd_id server \<noteq> sd_id primary \<and> sd_type server = MONGOC_SERVER_RS_PRIMARY
        then set_server td (sd_id server) (\<lambda>sd. mongoc_server_description_reset env
               (sd\<lparr>sd_type := MONGOC_SERVER_UNKNOWN, sd_set_version := - 1, sd_election_id := mcommon_oid_zero\<rparr>))
        else td)) td"

text \<open>The members to remove are collected before the first is removed.\<close>

fun unreported :: "server_desc \<Rightarrow> server_desc list \<Rightarrow> server_desc list res" where
  "unreported primary [] = Inr []"
| "unreported primary (member # members) =
     bind_res (has_rs_member primary (sd_address member)) (\<lambda>has.
     map_res (\<lambda>rest. if has then rest else member # rest) (unreported primary members))"

definition remove_unreported_servers :: "topo_desc \<Rightarrow> server_desc \<Rightarrow> topo_desc res" where
  "remove_unreported_servers td primary =
     map_res (foldl remove_server td) (unreported primary (map snd (items (td_servers td))))"

section \<open>The transitions\<close>

type_synonym transition = "topo_desc \<Rightarrow> server_desc \<Rightarrow> topo_desc res"

definition check_if_has_primary :: transition where
  "check_if_has_primary td server = update_rs_type td"

definition remove_and_check_primary :: transition where
  "remove_and_check_primary td server = update_rs_type (remove_server td server)"

definition set_topology_type_to_sharded :: transition where
  "set_topology_type_to_sharded td server = Inr (td\<lparr>td_type := MONGOC_TOPOLOGY_SHARDED\<rparr>)"

definition update_unknown_with_standalone :: transition where
  "update_unknown_with_standalone td server =
     bind_res (topology_has_server td (sd_address server)) (\<lambda>found.
       if found = None then Inr td
       else if length (items (td_servers td)) > 1 then Inr (remove_server td server)
       else Inr (td\<lparr>td_type := MONGOC_TOPOLOGY_SINGLE\<rparr>))"

text \<open>The name of the set a member reports: adopted when the topology has none, else compared.\<close>

definition check_set_name :: "topo_desc \<Rightarrow> server_desc \<Rightarrow> topo_desc \<times> bool" where
  "check_set_name td server =
     (case sd_set_name server of
        None \<Rightarrow> (td, True)
      | Some name \<Rightarrow> (case td_set_name td of
            None \<Rightarrow> (td\<lparr>td_set_name := Some name\<rparr>, True)
          | Some expected \<Rightarrow> (td, expected = name)))"

text \<open>
  The election of a primary: \<open>(td, True)\<close> with the maxima updated where the primary is trusted,
  \<open>(td, False)\<close> where it is stale.
\<close>

definition check_election :: "topo_desc \<Rightarrow> server_desc \<Rightarrow> topo_desc \<times> bool" where
  "check_election td server =
     (if sd_max_wire server \<ge> 17 then
        if primary_is_not_stale td server
        then (td\<lparr>td_max_election_id := sd_election_id server, td_max_set_version := sd_set_version server\<rparr>, True)
        else (td, False)
      else if has_set_version server \<and> has_election_id server \<and> later_election td server then (td, False)
      else
        let td = (if has_set_version server \<and> has_election_id server
                  then td\<lparr>td_max_election_id := sd_election_id server\<rparr> else td);
            td = (if has_set_version server \<and>
                     (\<not> topology_has_set_version td \<or> sd_set_version server > td_max_set_version td)
                  then td\<lparr>td_max_set_version := sd_set_version server\<rparr> else td) in
        (td, True))"

definition update_rs_from_primary :: "sd_env \<Rightarrow> (topo_desc \<Rightarrow> nat \<Rightarrow> topo_desc res) \<Rightarrow> transition" where
  "update_rs_from_primary env invalidate td server =
     bind_res (topology_has_server td (sd_address server)) (\<lambda>found.
       if found = None then Inr td
       else case check_set_name td server of (td, same_set) \<Rightarrow>
         if \<not> same_set then update_rs_type (remove_server td server)
         else case check_election td server of (td, trusted) \<Rightarrow>
           if \<not> trusted then bind_res (invalidate td (sd_id server)) update_rs_type
           else
             bind_res (invalidate_primaries env td server) (\<lambda>td.
             bind_res (add_new_servers env td server) (\<lambda>td.
             bind_res (remove_unreported_servers td server) update_rs_type)))"

definition update_rs_without_primary :: "sd_env \<Rightarrow> transition" where
  "update_rs_without_primary env td server =
     bind_res (topology_has_server td (sd_address server)) (\<lambda>found.
       if found = None then Inr td
       else case check_set_name td server of (td, same_set) \<Rightarrow>
         if \<not> same_set then Inr (remove_server td server)
         else
           bind_res (add_new_servers env td server) (\<lambda>td.
           bind_res (case sd_current_primary server of
               None \<Rightarrow> Inr td
             | Some p \<Rightarrow> label_unknown_member td p MONGOC_SERVER_POSSIBLE_PRIMARY) (\<lambda>td.
           map_res (\<lambda>me. if me then td else remove_server td server) (matches_me server))))"

definition update_rs_with_primary_from_member :: transition where
  "update_rs_with_primary_from_member td server =
     bind_res (topology_has_server td (sd_address server)) (\<lambda>found.
       if found = None then Inr td
       else
         bind_res (deref (td_set_name td)) (\<lambda>expected. bind_res (deref (sd_set_name server)) (\<lambda>name.
           if expected \<noteq> name then update_rs_type (remove_server td server)
           else bind_res (matches_me server) (\<lambda>me.
             if \<not> me then Inr (remove_server td server)
             else bind_res (topology_has_primary td) (\<lambda>primary.
               case sd_current_primary server of
                 None \<Rightarrow> Inr td
               | Some p \<Rightarrow>
                   if primary = None
                   then label_unknown_member (td\<lparr>td_type := MONGOC_TOPOLOGY_RS_NO_PRIMARY\<rparr>) p
                          MONGOC_SERVER_POSSIBLE_PRIMARY
                   else Inr td)))))"

definition transition_unknown_to_rs_no_primary :: "sd_env \<Rightarrow> transition" where
  "transition_unknown_to_rs_no_primary env td server =
     update_rs_without_primary env (td\<lparr>td_type := MONGOC_TOPOLOGY_RS_NO_PRIMARY\<rparr>) server"

text \<open>\<open>gSDAMTransitionTable\<close>; \<open>None\<close> is \<open>NULL\<close>, the value of every entry not listed.\<close>

definition transition_table ::
    "sd_env \<Rightarrow> (topo_desc \<Rightarrow> nat \<Rightarrow> topo_desc res) \<Rightarrow> server_type \<Rightarrow> topo_type \<Rightarrow> transition option" where
  "transition_table env invalidate sty tty =
     (let remove = (\<lambda>td server. Inr (remove_server td server)) in
      case (sty, tty) of
        (MONGOC_SERVER_UNKNOWN, MONGOC_TOPOLOGY_RS_WITH_PRIMARY) \<Rightarrow> Some check_if_has_primary
      | (MONGOC_SERVER_STANDALONE, MONGOC_TOPOLOGY_UNKNOWN) \<Rightarrow> Some update_unknown_with_standalone
      | (MONGOC_SERVER_STANDALONE, MONGOC_TOPOLOGY_SHARDED) \<Rightarrow> Some remove
      | (MONGOC_SERVER_STANDALONE, MONGOC_TOPOLOGY_RS_NO_PRIMARY) \<Rightarrow> Some remove
      | (MONGOC_SERVER_STANDALONE, MONGOC_TOPOLOGY_RS_WITH_PRIMARY) \<Rightarrow> Some remove_and_check_primary
      | (MONGOC_SERVER_MONGOS, MONGOC_TOPOLOGY_UNKNOWN) \<Rightarrow> Some set_topology_type_to_sharded
      | (MONGOC_SERVER_MONGOS, MONGOC_TOPOLOGY_RS_NO_PRIMARY) \<Rightarrow> Some remove
      | (MONGOC_SERVER_MONGOS, MONGOC_TOPOLOGY_RS_WITH_PRIMARY) \<Rightarrow> Some remove_and_check_primary
      | (MONGOC_SERVER_RS_PRIMARY, MONGOC_TOPOLOGY_UNKNOWN) \<Rightarrow> Some (update_rs_from_primary env invalidate)
      | (MONGOC_SERVER_RS_PRIMARY, MONGOC_TOPOLOGY_SHARDED) \<Rightarrow> Some remove
      | (MONGOC_SERVER_RS_PRIMARY, MONGOC_TOPOLOGY_RS_NO_PRIMARY) \<Rightarrow> Some (update_rs_from_primary env invalidate)
      | (MONGOC_SERVER_RS_PRIMARY, MONGOC_TOPOLOGY_RS_WITH_PRIMARY) \<Rightarrow> Some (update_rs_from_primary env invalidate)
      | (MONGOC_SERVER_RS_GHOST, MONGOC_TOPOLOGY_SHARDED) \<Rightarrow> Some remove
      | (MONGOC_SERVER_RS_GHOST, MONGOC_TOPOLOGY_RS_WITH_PRIMARY) \<Rightarrow> Some check_if_has_primary
      | _ \<Rightarrow>
          if sty \<in> {MONGOC_SERVER_RS_SECONDARY, MONGOC_SERVER_RS_ARBITER, MONGOC_SERVER_RS_OTHER} then
            (case tty of
               MONGOC_TOPOLOGY_UNKNOWN \<Rightarrow> Some (transition_unknown_to_rs_no_primary env)
             | MONGOC_TOPOLOGY_SHARDED \<Rightarrow> Some remove
             | MONGOC_TOPOLOGY_RS_NO_PRIMARY \<Rightarrow> Some (update_rs_without_primary env)
             | MONGOC_TOPOLOGY_RS_WITH_PRIMARY \<Rightarrow> Some update_rs_with_primary_from_member
             | _ \<Rightarrow> None)
          else None)"

section \<open>After a transition\<close>

text \<open>The loop of \<open>_mongoc_topology_description_update_session_timeout\<close> over the servers.\<close>

fun session_timeout_loop :: "server_desc list \<Rightarrow> int \<Rightarrow> int" where
  "session_timeout_loop [] timeout = timeout"
| "session_timeout_loop (sd # sds) timeout =
     (if \<not> is_data_node sd then session_timeout_loop sds timeout
      else if sd_session_timeout sd = - 1 then - 1
      else if timeout = - 1 then session_timeout_loop sds (sd_session_timeout sd)
      else if timeout > sd_session_timeout sd then session_timeout_loop sds (sd_session_timeout sd)
      else session_timeout_loop sds timeout)"

definition update_session_timeout :: "topo_desc \<Rightarrow> topo_desc" where
  "update_session_timeout td =
     td\<lparr>td_session_timeout := session_timeout_loop (map snd (items (td_servers td))) (- 1)\<rparr>"

fun check_compatible_loop :: "server_desc list \<Rightarrow> compat_error option \<Rightarrow> compat_error option" where
  "check_compatible_loop [] e = e"
| "check_compatible_loop (sd # sds) e =
     check_compatible_loop sds
       (if sd_type sd = MONGOC_SERVER_UNKNOWN \<or> sd_type sd = MONGOC_SERVER_POSSIBLE_PRIMARY then e
        else if sd_min_wire sd > 25 then Some (Requires_newer (sd_address sd) (sd_min_wire sd))
        else if sd_max_wire sd < 8 then Some (Too_old (sd_address sd) (sd_max_wire sd))
        else e)"

definition check_compatible :: "topo_desc \<Rightarrow> topo_desc" where
  "check_compatible td = td\<lparr>td_compat := check_compatible_loop (map snd (items (td_servers td))) None\<rparr>"

text \<open>The cluster time of a reply, kept when it is greater.\<close>

definition parse_cluster_time :: "doc \<Rightarrow> (32 word \<times> 32 word) option res" where
  "parse_cluster_time d =
     bind_res (find_typed d (str ''clusterTime'') [BSON_TYPE_TIMESTAMP]) (\<lambda>i. case i of
         None \<Rightarrow> Inr None
       | Some it \<Rightarrow> map_res Some (bson_iter_timestamp it))"

definition cluster_time_greater :: "doc \<Rightarrow> doc \<Rightarrow> bool res" where
  "cluster_time_greater new old =
     bind_res (parse_cluster_time new) (\<lambda>n. case n of None \<Rightarrow> Inr False | Some (new_t, new_i) \<Rightarrow>
     map_res (\<lambda>x. case x of None \<Rightarrow> False
        | Some (old_t, old_i) \<Rightarrow> new_t > old_t \<or> new_t = old_t \<and> new_i > old_i) (parse_cluster_time old))"

definition update_cluster_time :: "topo_desc \<Rightarrow> doc option \<Rightarrow> topo_desc res" where
  "update_cluster_time td reply =
     (case reply of
        None \<Rightarrow> Inr td
      | Some d \<Rightarrow>
          bind_res (find_typed d (str ''$clusterTime'') [BSON_TYPE_DOCUMENT]) (\<lambda>i. case i of
              None \<Rightarrow> Inr td
            | Some it \<Rightarrow>
                bind_res (bind_res (bson_iter_document it) static_doc) (\<lambda>ct.
                bind_res (bson_empty (fst (td_cluster_time td)) (snd (td_cluster_time td))) (\<lambda>empty.
                map_res (\<lambda>greater. if empty \<or> greater
                    then td\<lparr>td_cluster_time := (take (snd ct) (fst ct), snd ct)\<rparr> else td)
                  (if empty then Inr True else cluster_time_greater ct (td_cluster_time td))))))"

section \<open>Handling a reply\<close>

text \<open>
  A reply is the document the server sent and the copy that the server description keeps of it.
  \<open>mongoc_topology_description_handle_hello\<close> calls itself, through
  \<open>mongoc_topology_description_invalidate_server\<close>, with no reply for a stale primary; then the
  server is unknown and it calls itself no more, so a depth of two is enough.
\<close>

definition topology_version_older :: "server_desc \<Rightarrow> doc option \<Rightarrow> bool res" where
  "topology_version_older sd reply =
     (case reply of
        None \<Rightarrow> Inr False
      | Some d \<Rightarrow>
          bind_res (find_typed d (str ''topologyVersion'') [BSON_TYPE_DOCUMENT]) (\<lambda>i. case i of
              None \<Rightarrow> Inr False
            | Some it \<Rightarrow>
                bind_res (bind_res (bson_iter_document it) static_doc) (\<lambda>incoming.
                map_res (\<lambda>c. c = 1) (topology_version_cmp (sd_topology_version sd) incoming))))"

definition check_single_set_name :: "sd_env \<Rightarrow> topo_desc \<Rightarrow> server_desc \<Rightarrow> server_desc res" where
  "check_single_set_name env td sd =
     (if td_set_name td \<noteq> None \<and> td_type td = MONGOC_TOPOLOGY_SINGLE \<and> sd_set_name sd \<noteq> td_set_name td
      then mongoc_server_description_handle_hello env sd None (- 1) (Some 13053)
      else Inr sd)"

fun topology_handle_hello ::
    "nat \<Rightarrow> sd_env \<Rightarrow> topo_desc \<Rightarrow> nat \<Rightarrow> (doc \<times> doc) option \<Rightarrow> int \<Rightarrow> bool \<Rightarrow> nat option \<Rightarrow> topo_desc res" where
  "topology_handle_hello 0 env td k reply rtt update_time err = Inl NoFuel"
| "topology_handle_hello (Suc depth) env td k reply rtt update_time err =
     bind_res (c_assert (k \<noteq> 0)) (\<lambda>_.
     case mongoc_set_get (td_servers td) k of
       None \<Rightarrow> Inr td
     | Some sd \<Rightarrow>
         bind_res (topology_version_older sd (map_option fst reply)) (\<lambda>older.
         if older then Inr td
         else
           bind_res (mongoc_server_description_handle_hello env sd (map_option snd reply) rtt err) (\<lambda>sd.
           bind_res (check_single_set_name env td sd) (\<lambda>sd.
             let td = set_server td k (\<lambda>_. sd) in
             bind_res (if update_time then update_cluster_time td (map_option fst reply) else Inr td) (\<lambda>td.
             let invalidate = (\<lambda>td k. if td_type td = MONGOC_TOPOLOGY_LOAD_BALANCED then Inr td
                   else topology_handle_hello depth env td k None (- 1) False (Some 5)) in
             bind_res (case transition_table env invalidate (sd_type sd) (td_type td) of
                 None \<Rightarrow> Inr td
               | Some transition \<Rightarrow> transition td sd) (\<lambda>td.
             let td = update_session_timeout td in
             Inr (if reply \<noteq> None \<and> (err = None \<or> err = Some 0) then check_compatible td else td)))))))"

definition mongoc_topology_description_handle_hello ::
    "sd_env \<Rightarrow> topo_desc \<Rightarrow> nat \<Rightarrow> (doc \<times> doc) option \<Rightarrow> int \<Rightarrow> bool \<Rightarrow> nat option \<Rightarrow> topo_desc res" where
  "mongoc_topology_description_handle_hello = topology_handle_hello 2"

definition mongoc_topology_description_invalidate_server :: "sd_env \<Rightarrow> topo_desc \<Rightarrow> nat \<Rightarrow> nat \<Rightarrow> topo_desc res" where
  "mongoc_topology_description_invalidate_server env td k err =
     (if td_type td = MONGOC_TOPOLOGY_LOAD_BALANCED then Inr td
      else mongoc_topology_description_handle_hello env td k None (- 1) False (Some err))"

end
