(* ===== verification/TopoInv.thy ===== *)
theory TopoInv
  imports TopoDesc
begin

text \<open>
  The invariant of a topology description and what each transition does to it. The roles of the
  servers are read as sets of ids (\<open>servers_of\<close>); \<open>td_frame\<close> is what every change of the set of
  servers keeps.
\<close>

section \<open>Walks over the servers\<close>

text \<open>\<open>J A s\<close> holds when the items in \<open>A\<close> have been visited.\<close>

lemma for_each_loop_returns:
  assumes "J A s" and "\<And>x s i A. x \<in> set xs \<Longrightarrow> J A s \<Longrightarrow>
      returns F (\<lambda>r. if fst r then J (insert x A) (snd r) else Q (snd r)) (cb i x s)"
    and "\<And>s. J (A \<union> set xs) s \<Longrightarrow> Q s"
  shows "returns F Q (for_each_loop cb i xs s)"
  using assms
proof (induction xs arbitrary: i s A)
  case (Cons x xs)
  from Cons.prems(2) [of x A s i] Cons.prems(1)
  have "returns F (\<lambda>r. if fst r then J (insert x A) (snd r) else Q (snd r)) (cb i x s)" by simp
  then show ?case
    unfolding for_each_loop.simps
  proof (rule returns_bind)
    fix r assume r: "if fst r then J (insert x A) (snd r) else Q (snd r)"
    have "returns F Q (for_each_loop cb (Suc i) xs (snd r))" if "fst r"
      using r that Cons.prems(2,3) by (intro Cons.IH [of "insert x A"]) auto
    then show "returns F Q (case r of (go, s) \<Rightarrow> if go then for_each_loop cb (Suc i) xs s else Inr s)"
      using r by (cases r) auto
  qed
qed simp

lemma for_each_returns:
  assumes "J {} s" and "AssertFail \<in> F"
    and "\<And>k x s A. (k, x) \<in> set (items st) \<Longrightarrow> J A s \<Longrightarrow>
      returns F (\<lambda>r. if fst r then J (insert x A) (snd r) else Q (snd r)) (cb x s)"
    and "\<And>s. J (snd ` set (items st)) s \<Longrightarrow> Q s"
  shows "returns F Q (mongoc_set_for_each st cb s)"
  unfolding mongoc_set_for_each_def mongoc_set_for_each_with_id_def
proof (rule returns_bind)
  show "returns F (\<lambda>_. True) (c_assert (length (items st) < 2 ^ 32))"
    using assms(2) by (intro returns_assert) auto
  show "returns F Q (for_each_loop (\<lambda>_. cb) 0 (map snd (items st)) s)"
  proof (rule for_each_loop_returns [where J = J and A = "{}"])
    fix x s i A assume "x \<in> set (map snd (items st))" and J: "J A s"
    then obtain k where "(k, x) \<in> set (items st)" by auto
    then show "returns F (\<lambda>r. if fst r then J (insert x A) (snd r) else Q (snd r)) (cb x s)" using J by (rule assms(3))
  qed (use assms(1,4) in auto)
qed

section \<open>Roles\<close>

definition servers_of :: "server_type \<Rightarrow> topo_desc \<Rightarrow> nat set" where
  "servers_of ty td = {k. \<exists>s. (k, s) \<in> set (items (td_servers td)) \<and> sd_type s = ty}"

abbreviation primaries :: "topo_desc \<Rightarrow> nat set" where
  "primaries \<equiv> servers_of MONGOC_SERVER_RS_PRIMARY"

abbreviation standalones :: "topo_desc \<Rightarrow> nat set" where
  "standalones \<equiv> servers_of MONGOC_SERVER_STANDALONE"

definition roles_ok :: "topo_type \<Rightarrow> nat set \<Rightarrow> nat set \<Rightarrow> bool" where
  "roles_ok ty P S \<longleftrightarrow> ty = MONGOC_TOPOLOGY_SINGLE \<or> ty = MONGOC_TOPOLOGY_LOAD_BALANCED
     \<or> S = {} \<and> (if ty = MONGOC_TOPOLOGY_RS_WITH_PRIMARY then \<exists>k. P \<subseteq> {k} else P = {})"

text \<open>A server whose address was parsed has documents.\<close>

definition server_ok :: "server_desc \<Rightarrow> bool" where
  "server_ok sd \<longleftrightarrow> (sd_address sd \<noteq> None \<longrightarrow> doc_ok (sd_topology_version sd))"

definition servers_ok :: "topo_desc \<Rightarrow> bool" where
  "servers_ok td \<longleftrightarrow> set_inv (td_servers td) \<and> doc_ok (td_cluster_time td)
     \<and> (\<forall>k s. (k, s) \<in> set (items (td_servers td)) \<longrightarrow> sd_id s = k \<and> 0 < k \<and> k \<le> td_max_server_id td \<and> server_ok s)"

definition name_ok :: "topo_desc \<Rightarrow> bool" where
  "name_ok td \<longleftrightarrow> (td_type td = MONGOC_TOPOLOGY_RS_NO_PRIMARY \<or> td_type td = MONGOC_TOPOLOGY_RS_WITH_PRIMARY
     \<longrightarrow> td_set_name td \<noteq> None)"

definition topo_inv :: "topo_desc \<Rightarrow> bool" where
  "topo_inv td \<longleftrightarrow> servers_ok td \<and> name_ok td \<and> roles_ok (td_type td) (primaries td) (standalones td)"

definition td_frame :: "topo_desc \<Rightarrow> topo_desc \<Rightarrow> bool" where
  "td_frame td td' \<longleftrightarrow> servers_ok td' \<and> td_type td' = td_type td \<and> td_set_name td' = td_set_name td
     \<and> td_max_set_version td' = td_max_set_version td \<and> td_max_election_id td' = td_max_election_id td
     \<and> primaries td' \<subseteq> primaries td \<and> standalones td' \<subseteq> standalones td"

lemma frame_refl: "servers_ok td \<Longrightarrow> td_frame td td"
  by (simp add: td_frame_def)

lemma topo_frame_trans: "td_frame a b \<Longrightarrow> td_frame b c \<Longrightarrow> td_frame a c"
  by (auto simp: td_frame_def)

lemma frame_servers_ok: "td_frame td td' \<Longrightarrow> servers_ok td'"
  by (simp add: td_frame_def)

lemma servers_ok_id: "servers_ok td \<Longrightarrow> (k, s) \<in> set (items (td_servers td)) \<Longrightarrow> sd_id s = k"
  by (auto simp: servers_ok_def)

lemma servers_ok_unique:
  assumes "servers_ok td" and "(k, s) \<in> set (items (td_servers td))" and "(k, s') \<in> set (items (td_servers td))"
  shows "s = s'"
proof -
  have "distinct (map fst (items (td_servers td)))"
    using assms(1) by (intro set_inv_distinct) (simp add: servers_ok_def)
  with assms(2,3) show ?thesis by (metis eq_key_imp_eq_value)
qed

section \<open>Changes of the set\<close>

lemma set_update_items:
  "(j, s') \<in> set (items (mongoc_set_update st k f)) \<longleftrightarrow>
     (\<exists>s. (j, s) \<in> set (items st) \<and> s' = (if j = k then f s else s))"
  by (force simp: mongoc_set_update_def)

lemma set_server_simps [simp]:
  "td_type (set_server td k f) = td_type td" "td_set_name (set_server td k f) = td_set_name td"
  "td_max_set_version (set_server td k f) = td_max_set_version td"
  "td_max_election_id (set_server td k f) = td_max_election_id td"
  "td_max_server_id (set_server td k f) = td_max_server_id td"
  by (simp_all add: set_server_def)

lemma set_server_items:
  "(j, s') \<in> set (items (td_servers (set_server td k f))) \<longleftrightarrow>
     (\<exists>s. (j, s) \<in> set (items (td_servers td)) \<and> s' = (if j = k then f s else s))"
  by (simp add: set_server_def set_update_items)

lemma set_server_ok:
  assumes "servers_ok td" and "\<And>s. (k, s) \<in> set (items (td_servers td)) \<Longrightarrow> sd_id (f s) = sd_id s \<and> server_ok (f s)"
  shows "servers_ok (set_server td k f)"
  using assms unfolding servers_ok_def set_server_items
  by (auto simp: set_server_def)

lemma servers_of_other: "servers_of ty (set_server td k f) - {k} = servers_of ty td - {k}"
  by (auto simp: servers_of_def set_server_items)

lemma servers_of_set:
  assumes "servers_ok td"
  shows "k \<in> servers_of ty (set_server td k (\<lambda>_. sd)) \<Longrightarrow> sd_type sd = ty"
  by (auto simp: servers_of_def set_server_items)

lemma remove_server_simps [simp]:
  "td_type (remove_server td s) = td_type td" "td_set_name (remove_server td s) = td_set_name td"
  "td_max_set_version (remove_server td s) = td_max_set_version td"
  "td_max_election_id (remove_server td s) = td_max_election_id td"
  "td_max_server_id (remove_server td s) = td_max_server_id td"
  "td_cluster_time (remove_server td s) = td_cluster_time td"
  by (simp_all add: remove_server_def)

lemma remove_server_items:
  assumes "servers_ok td"
  shows "set (items (td_servers (remove_server td s))) = {it \<in> set (items (td_servers td)). fst it \<noteq> sd_id s}"
proof -
  have "set_inv (td_servers td)" using assms by (simp add: servers_ok_def)
  from mongoc_set_rm_items(1) [OF this] show ?thesis by (simp add: remove_server_def)
qed

lemma remove_server_of:
  assumes "servers_ok td"
  shows "servers_of ty (remove_server td s) = servers_of ty td - {sd_id s}"
  by (auto simp: servers_of_def remove_server_items [OF assms])

lemma remove_server_ok:
  assumes "servers_ok td"
  shows "servers_ok (remove_server td s)"
proof -
  have "set_inv (td_servers (remove_server td s))"
    using assms by (auto simp: servers_ok_def remove_server_def intro: mongoc_set_rm_inv)
  then show ?thesis using assms by (auto simp: servers_ok_def remove_server_items [OF assms])
qed

lemma remove_server_frame: "servers_ok td \<Longrightarrow> td_frame td (remove_server td s)"
  by (auto simp: td_frame_def remove_server_ok remove_server_of)

section \<open>Questions\<close>

lemma has_primary_returns:
  assumes "AssertFail \<in> F"
  shows "returns F (\<lambda>p. p = None \<longleftrightarrow> primaries td = {} \<and> standalones td = {}) (topology_has_primary td)"
  unfolding topology_has_primary_def
proof (rule for_each_returns [where J = "\<lambda>A p. p = None \<and> (\<forall>s \<in> A.
      sd_type s \<noteq> MONGOC_SERVER_RS_PRIMARY \<and> sd_type s \<noteq> MONGOC_SERVER_STANDALONE)"])
  fix k x and s :: "server_desc option" and A :: "server_desc set"
  assume "(k, x) \<in> set (items (td_servers td))"
  then have "sd_type x = ty \<Longrightarrow> k \<in> servers_of ty td" for ty by (auto simp: servers_of_def)
  moreover assume "s = None \<and> (\<forall>s \<in> A. sd_type s \<noteq> MONGOC_SERVER_RS_PRIMARY \<and> sd_type s \<noteq> MONGOC_SERVER_STANDALONE)"
  ultimately show "returns F (\<lambda>r. if fst r then snd r = None \<and> (\<forall>s \<in> insert x A. sd_type s \<noteq> MONGOC_SERVER_RS_PRIMARY
          \<and> sd_type s \<noteq> MONGOC_SERVER_STANDALONE)
        else (snd r = None) = (primaries td = {} \<and> standalones td = {}))
      (Inr (if sd_type x = MONGOC_SERVER_RS_PRIMARY \<or> sd_type x = MONGOC_SERVER_STANDALONE
            then (False, Some x) else (True, s)))"
    by auto
next
  fix s :: "server_desc option"
  assume "s = None \<and> (\<forall>s \<in> snd ` set (items (td_servers td)).
      sd_type s \<noteq> MONGOC_SERVER_RS_PRIMARY \<and> sd_type s \<noteq> MONGOC_SERVER_STANDALONE)"
  then show "(s = None) = (primaries td = {} \<and> standalones td = {})"
    by (force simp: servers_of_def)
qed (use assms in auto)

text \<open>A server that is not found has an address of no member.\<close>

lemma has_server_returns:
  assumes "AssertFail \<in> F" and "NullDeref \<in> F"
  shows "returns F (\<lambda>r. r = None \<longrightarrow> (\<forall>k s. (k, s) \<in> set (items (td_servers td)) \<longrightarrow> p \<noteq> sd_address s))
    (topology_has_server td p)"
proof (cases p)
  case (Some address)
  show ?thesis
    unfolding topology_has_server_def Some option.case
  proof (rule for_each_returns [where J = "\<lambda>A r. \<forall>s \<in> A. sd_address s \<noteq> Some address"])
    fix k x and s :: "nat option" and A :: "server_desc set"
    assume "\<forall>s \<in> A. sd_address s \<noteq> Some address"
    then show "returns F (\<lambda>r. if fst r then \<forall>s \<in> insert x A. sd_address s \<noteq> Some address
         else snd r = None \<longrightarrow> (\<forall>k s. (k, s) \<in> set (items (td_servers td)) \<longrightarrow> Some address \<noteq> sd_address s))
       (map_res (\<lambda>a. if same_address address a then (False, Some (sd_id x)) else (True, s)) (deref (sd_address x)))"
      by (intro returns_map returns_deref) (auto simp: assms)
  next
    fix s :: "nat option"
    assume "\<forall>s \<in> snd ` set (items (td_servers td)). sd_address s \<noteq> Some address"
    then show "s = None \<longrightarrow> (\<forall>k s. (k, s) \<in> set (items (td_servers td)) \<longrightarrow> Some address \<noteq> sd_address s)"
      by force
  qed (use assms in auto)
qed (use assms in \<open>simp add: topology_has_server_def\<close>)

lemma has_member_returns:
  assumes "AssertFail \<in> F" and "NullDeref \<in> F" and "(k, s) \<in> set (items (td_servers td))"
  shows "returns F (\<lambda>r. r \<noteq> None) (topology_has_server td (sd_address s))"
  using has_server_returns [OF assms(1,2), of td "sd_address s"] assms(3)
  by (elim returns_mono) auto

section \<open>Members of a reply\<close>

text \<open>An element has at least a type and the end of its key.\<close>

lemma next_two:
  assumes "iter_ok it" and "bson_iter_next it = Inr (True, it')"
  shows "rounds it' + 2 \<le> rounds it"
  using bson_iter_next_cases [OF assms(1)] assms(2)
  by (auto simp: on_element_def rounds_def)

text \<open>\<open>J n s\<close>: the state \<open>s\<close> leaves room for \<open>n\<close> more members.\<close>

lemma member_loop_returns:
  fixes J :: "nat \<Rightarrow> 's \<Rightarrow> bool"
  assumes "iter_ok it" and "rounds it < f" and "J (n + rounds it div 2) s"
    and room: "\<And>n s. J (Suc n) s \<Longrightarrow> J n s"
    and step: "\<And>n s p. J (Suc n) s \<Longrightarrow> returns F (\<lambda>r. J n (snd r)) (g p s)"
  shows "returns F (\<lambda>r. J n (snd r)) (member_loop f it g s)"
  using assms(1-3)
proof (induction arbitrary: f s rule: iter_induct)
  case (stop it it')
  then obtain f' where f: "f = Suc f'" by (cases f) auto
  have less: "J (a + b) s \<Longrightarrow> J a s" for a b by (induction b) (auto intro: room)
  with stop show ?case by (auto simp: f)
next
  case (step it it' data t)
  then obtain f' where f: "f = Suc f'" by (cases f) auto
  note two = next_two [OF step.hyps(1,2)]
  have r: "rounds it' < f'" using step.prems(1) two f by linarith
  have div: "rounds it div 2 = Suc (rounds it div 2 - 1)" using two by auto
  have room': "J (a + b) s \<Longrightarrow> J a s" for a b and s by (induction b) (auto intro: room)
  have J1: "J (Suc (n + (rounds it div 2 - 1))) s" using step.prems(2) div by (metis add_Suc_right)
  have ge: "n + (rounds it div 2 - 1) = n + rounds it' div 2 + (rounds it div 2 - 1 - rounds it' div 2)"
    using two by auto
  have "returns F (\<lambda>r. J n (snd r)) (bind_res (utf8_ptr it') (\<lambda>p. bind_res (g p s) (\<lambda>(stop, s).
      if stop then Inr (True, s) else member_loop f' it' g s)))"
  proof (rule returns_bind)
    show "returns F (\<lambda>_. True) (utf8_ptr it')" using step.hyps(4) by (rule utf8_ptr_returns) simp
    fix p
    show "returns F (\<lambda>r. J n (snd r)) (bind_res (g p s) (\<lambda>(stop, s).
      if stop then Inr (True, s) else member_loop f' it' g s))"
    proof (rule returns_bind [OF assms(5) [OF J1]])
      fix q :: "bool \<times> 's" assume q: "J (n + (rounds it div 2 - 1)) (snd q)"
      then have "J (n + rounds it' div 2) (snd q)" using ge room' by metis
      from step.IH [OF r this] room' [OF q]
      show "returns F (\<lambda>r. J n (snd r)) (case q of (stop, s) \<Rightarrow> if stop then Inr (True, s) else member_loop f' it' g s)"
        by (cases q) simp
    qed
  qed
  then show ?case using step.hyps(2) by (simp add: f)
qed

lemma members_loop_returns:
  fixes J :: "nat \<Rightarrow> 's \<Rightarrow> bool"
  assumes "\<And>d. d \<in> set ds \<Longrightarrow> doc_ok d" and "J (sum_list (map (\<lambda>d. snd d div 2) ds)) s" and "AssertFail \<in> F"
    and room: "\<And>n s. J (Suc n) s \<Longrightarrow> J n s"
    and step: "\<And>n s p. J (Suc n) s \<Longrightarrow> returns F (\<lambda>r. J n (snd r)) (g p s)"
  shows "returns F (\<lambda>r. J 0 (snd r)) (members_loop ds g s)"
  using assms(1,2)
proof (induction ds arbitrary: s)
  case (Cons d ds)
  let ?n = "sum_list (map (\<lambda>d. snd d div 2) ds)"
  have d: "5 \<le> snd d" "snd d \<le> length (fst d)" "snd d \<le> INT_MAX" using Cons.prems(1) [of d] by (auto simp: doc_ok_def)
  let ?it = "iter_start (fst d) (snd d)"
  have room': "J (a + b) s \<Longrightarrow> J a s" for a b and s by (induction b) (auto intro: room)
  have r: "rounds ?it div 2 \<le> snd d div 2" "rounds ?it < Suc (snd d)" by (auto simp: rounds_def iter_start_def iter_zero_def)
  have "J (?n + rounds ?it div 2 + (snd d div 2 - rounds ?it div 2)) s"
    using Cons.prems(2) r by (simp add: add.commute)
  then have J: "J (?n + rounds ?it div 2) s" by (rule room')
  have loop: "returns F (\<lambda>r. J ?n (snd r)) (member_loop (Suc (snd d)) ?it g s)"
    by (rule member_loop_returns [where J = J, OF iter_ok_start [OF d(2,3)] r(2) J room step])
  have "returns F (\<lambda>r. J 0 (snd r)) (bind_res (member_loop (Suc (snd d)) ?it g s) (\<lambda>(stop, s).
          if stop then Inr (True, s) else members_loop ds g s))"
  proof (rule returns_bind [OF loop])
    fix q :: "bool \<times> 's" assume q: "J ?n (snd q)"
    have "J 0 (snd q)" using q room' [of 0 ?n] by simp
    moreover have "returns F (\<lambda>r. J 0 (snd r)) (members_loop ds g (snd q))"
      using Cons.prems(1) q by (intro Cons.IH) auto
    ultimately show "returns F (\<lambda>r. J 0 (snd r)) (case q of (stop, s) \<Rightarrow>
        if stop then Inr (True, s) else members_loop ds g s)" by (cases q) simp
  qed
  then show ?case using d(1) by (simp add: bson_iter_init_def del: member_loop.simps)
qed simp

section \<open>What each change keeps\<close>

lemma init_returns:
  "returns F (\<lambda>sd. sd_id sd = k \<and> sd_type sd = MONGOC_SERVER_UNKNOWN \<and> server_ok sd) (mongoc_server_description_init env a k)"
proof -
  obtain r where "mongoc_host_list_from_string a = Inr r"
    using parse_host_total [of a] by (auto simp: mongoc_host_list_from_string_def)
  then show ?thesis
    by (simp add: mongoc_server_description_init_def Let_def mongoc_server_description_reset_def sd_zero_def
        server_ok_def split: option.split)
qed

definition td_room :: "topo_desc \<Rightarrow> nat \<Rightarrow> topo_desc \<Rightarrow> bool" where
  "td_room td n td' \<longleftrightarrow> td_frame td td' \<and> td_max_server_id td \<le> td_max_server_id td' \<and> td_max_server_id td' + n < 2 ^ 32"

lemma add_server_returns:
  assumes "AssertFail \<in> F" and "NullDeref \<in> F" and "td_room td (Suc n) td'"
  shows "returns F (\<lambda>r. td_room td n (fst r)) (mongoc_topology_description_add_server env td' p)"
proof -
  let ?k = "td_max_server_id td' + 1"
  have ok: "servers_ok td'" and k: "?k < 2 ^ 32" and inv: "set_inv (td_servers td')"
    using assms(3) by (auto simp: td_room_def td_frame_def servers_ok_def)
  have add: "add32 (td_max_server_id td') 1 = ?k" using k by simp
  have new: "?k \<notin> set_ids (td_servers td')"
    using ok by (fastforce simp: servers_ok_def set_ids_def)
  have "td_room td n (fst r)" if r: "r = (td'\<lparr>td_max_server_id := ?k, td_servers := st\<rparr>, ?k)"
    and st: "mongoc_set_add (td_servers td') ?k sd = Inr st" "sd_id sd = ?k" "sd_type sd = MONGOC_SERVER_UNKNOWN" "server_ok sd" for r st sd
  proof -
    note ids = mongoc_set_add_ids [OF inv new st(1)]
    have "servers_ok (fst r)"
      using ok ids st(2,4) by (auto simp: r servers_ok_def intro: le_SucI)
    moreover have "primaries (fst r) = primaries td'" "standalones (fst r) = standalones td'"
      using ids st(3) by (auto simp: r servers_of_def)
    ultimately show ?thesis using assms(3) by (auto simp: td_room_def td_frame_def r)
  qed
  note keep = this
  show ?thesis
    unfolding mongoc_topology_description_add_server_def Let_def add
  proof (rule returns_bind [OF has_server_returns [OF assms(1,2)]])
    fix found
    show "returns F (\<lambda>r. td_room td n (fst r)) (case found of None \<Rightarrow>
          bind_res (deref p) (\<lambda>server. bind_res (mongoc_server_description_init env server ?k) (\<lambda>description.
            map_res (\<lambda>st. (td'\<lparr>td_max_server_id := ?k, td_servers := st\<rparr>, ?k))
              (mongoc_set_add (td_servers (td'\<lparr>td_max_server_id := ?k\<rparr>)) ?k description)))
        | Some k \<Rightarrow> Inr (td', k))"
    proof (cases found)
      case None
      have "returns F (\<lambda>r. td_room td n (fst r)) (bind_res (mongoc_server_description_init env a ?k) (\<lambda>description.
            map_res (\<lambda>st. (td'\<lparr>td_max_server_id := ?k, td_servers := st\<rparr>, ?k))
              (mongoc_set_add (td_servers td') ?k description)))" for a
      proof (rule returns_bind [OF init_returns])
        fix sd :: server_desc assume sd: "sd_id sd = ?k \<and> sd_type sd = MONGOC_SERVER_UNKNOWN \<and> server_ok sd"
        obtain st where "mongoc_set_add (td_servers td') ?k sd = Inr st" using mongoc_set_add_ok [OF inv new] by blast
        with sd keep [OF refl this] show "returns F (\<lambda>r. td_room td n (fst r))
            (map_res (\<lambda>st. (td'\<lparr>td_max_server_id := ?k, td_servers := st\<rparr>, ?k)) (mongoc_set_add (td_servers td') ?k sd))"
          by simp
      qed
      then show ?thesis using assms(2) by (cases p) (simp_all add: None)
    qed (use assms(3) in \<open>auto simp: td_room_def\<close>)
  qed
qed

lemma add_new_servers_returns:
  assumes "AssertFail \<in> F" and "NullDeref \<in> F" and "servers_ok td" and "docs_ok server"
    and "td_max_server_id td < 2 ^ 30"
  shows "returns F (td_frame td) (add_new_servers env td server)"
proof -
  let ?n = "sum_list (map (\<lambda>d. snd d div 2) (rs_members server))"
  have "snd d div 2 \<le> 2 ^ 30 - 1" if "doc_ok d" for d using that unfolding INT_MAX_def doc_ok_def by (simp, linarith)
  from this [of "sd_hosts server"] this [of "sd_arbiters server"] this [of "sd_passives server"]
  have n: "?n \<le> 3 * (2 ^ 30 - 1)" using assms(4) by (simp add: rs_members_def docs_ok_def)
  have "returns F (\<lambda>r. td_room td 0 (snd r)) (members_loop (rs_members server)
      (\<lambda>p td. map_res (\<lambda>(td, _). (False, td)) (mongoc_topology_description_add_server env td p)) td)"
  proof (rule members_loop_returns)
    show "d \<in> set (rs_members server) \<Longrightarrow> doc_ok d" for d using assms(4) by (auto simp: rs_members_def docs_ok_def)
    show "td_room td ?n td" using n assms(3,5) frame_refl [OF assms(3)] by (simp add: td_room_def)
    show "td_room td n s" if "td_room td (Suc n) s" for n s using that by (simp add: td_room_def)
    show "returns F (\<lambda>r. td_room td n (snd r))
      (map_res (\<lambda>(td, _). (False, td)) (mongoc_topology_description_add_server env s p))" if "td_room td (Suc n) s" for n s p
      using add_server_returns [OF assms(1,2) that] by (intro returns_map) (simp add: split_beta)
  qed (fact assms(1))
  then show ?thesis
    unfolding add_new_servers_def by (intro returns_map) (elim returns_mono, auto simp: td_room_def)
qed

lemma label_unknown_returns:
  assumes "AssertFail \<in> F" and "NullDeref \<in> F" and ok: "servers_ok td"
  shows "returns F (td_frame td) (label_unknown_member td address MONGOC_SERVER_POSSIBLE_PRIMARY)"
  unfolding label_unknown_member_def
proof (rule for_each_returns [where J = "\<lambda>A td'. td' = td"])
  fix k x s and A :: "server_desc set"
  assume x: "(k, x) \<in> set (items (td_servers td))" and s: "s = td"
  let ?td = "set_server td (sd_id x) (\<lambda>sd. sd\<lparr>sd_type := MONGOC_SERVER_POSSIBLE_PRIMARY\<rparr>)"
  have "server_ok (sd\<lparr>sd_type := MONGOC_SERVER_POSSIBLE_PRIMARY\<rparr>)" if "(sd_id x, sd) \<in> set (items (td_servers td))" for sd
    using ok that by (auto simp: servers_ok_def server_ok_def)
  then have "td_frame td ?td"
    using set_server_ok [OF ok, of "sd_id x" "\<lambda>sd. sd\<lparr>sd_type := MONGOC_SERVER_POSSIBLE_PRIMARY\<rparr>"]
    by (auto simp: td_frame_def servers_of_def set_server_items split: if_splits)
  then show "returns F (\<lambda>r. if fst r then snd r = td else td_frame td (snd r)) (map_res (\<lambda>a.
      if same_address a address \<and> sd_type x = MONGOC_SERVER_UNKNOWN
      then (False, set_server s (sd_id x) (\<lambda>sd. sd\<lparr>sd_type := MONGOC_SERVER_POSSIBLE_PRIMARY\<rparr>)) else (True, s))
      (deref (sd_address x)))"
    using s by (intro returns_map returns_deref) (auto simp: assms)
qed (use assms frame_refl in auto)

lemma invalidate_primaries_returns:
  assumes "AssertFail \<in> F" and ok: "servers_ok td"
  shows "returns F (\<lambda>td'. td_frame td td' \<and> primaries td' \<subseteq> {sd_id primary} \<and> td_max_server_id td' = td_max_server_id td)
    (invalidate_primaries env td primary)"
  unfolding invalidate_primaries_def
proof (rule for_each_returns [where J = "\<lambda>A td'. td_frame td td' \<and> td_max_server_id td' = td_max_server_id td
    \<and> (\<forall>s \<in> A. sd_id s \<in> primaries td' \<longrightarrow> sd_id s = sd_id primary)"])
  fix k x s and A :: "server_desc set"
  assume x: "(k, x) \<in> set (items (td_servers td))" and J: "td_frame td s \<and> td_max_server_id s = td_max_server_id td
    \<and> (\<forall>s' \<in> A. sd_id s' \<in> primaries s \<longrightarrow> sd_id s' = sd_id primary)"
  have k: "sd_id x = k" using ok x by (rule servers_ok_id)
  let ?f = "\<lambda>sd. mongoc_server_description_reset env
               (sd\<lparr>sd_type := MONGOC_SERVER_UNKNOWN, sd_set_version := - 1, sd_election_id := mcommon_oid_zero\<rparr>)"
  let ?s = "set_server s (sd_id x) ?f"
  have oks: "servers_ok s" using J frame_servers_ok by blast
  have "sd_id (?f sd) = sd_id sd \<and> server_ok (?f sd)" if "(sd_id x, sd) \<in> set (items (td_servers s))" for sd
    using oks that by (auto simp: servers_ok_def server_ok_def mongoc_server_description_reset_def)
  then have "servers_ok ?s" by (rule set_server_ok [OF oks])
  moreover have sub: "servers_of ty ?s \<subseteq> servers_of ty s - {k}" if "ty \<noteq> MONGOC_SERVER_UNKNOWN" for ty
  proof
    fix j assume "j \<in> servers_of ty ?s"
    then obtain y where y: "(j, y) \<in> set (items (td_servers s))" "sd_type (if j = k then ?f y else y) = ty"
      unfolding servers_of_def set_server_items k by auto
    have "j \<noteq> k" using y(2) that by auto
    with y show "j \<in> servers_of ty s - {k}" by (auto simp: servers_of_def)
  qed
  ultimately have fr: "td_frame td ?s" "sd_id x \<notin> primaries ?s" "primaries ?s \<subseteq> primaries s"
    using J k sub [of MONGOC_SERVER_RS_PRIMARY] sub [of MONGOC_SERVER_STANDALONE] by (auto simp: td_frame_def)
  have "sd_id x \<notin> primaries s" if "sd_type x \<noteq> MONGOC_SERVER_RS_PRIMARY"
  proof
    assume "sd_id x \<in> primaries s"
    then have "k \<in> primaries td" using J k by (auto simp: td_frame_def)
    then show False using servers_ok_unique [OF ok x] that by (auto simp: servers_of_def)
  qed
  with fr J show "returns F (\<lambda>r. if fst r then td_frame td (snd r) \<and> td_max_server_id (snd r) = td_max_server_id td
         \<and> (\<forall>s \<in> insert x A. sd_id s \<in> primaries (snd r) \<longrightarrow> sd_id s = sd_id primary)
       else td_frame td (snd r) \<and> primaries (snd r) \<subseteq> {sd_id primary} \<and> td_max_server_id (snd r) = td_max_server_id td)
     (Inr (True, if sd_id x \<noteq> sd_id primary \<and> sd_type x = MONGOC_SERVER_RS_PRIMARY then ?s else s))"
    by auto
next
  fix s assume J: "td_frame td s \<and> td_max_server_id s = td_max_server_id td \<and> (\<forall>x \<in> snd ` set (items (td_servers td)).
      sd_id x \<in> primaries s \<longrightarrow> sd_id x = sd_id primary)"
  have "k = sd_id primary" if k: "k \<in> primaries s" for k
  proof -
    have "k \<in> primaries td" using k J by (auto simp: td_frame_def)
    then obtain x where x: "(k, x) \<in> set (items (td_servers td))" by (auto simp: servers_of_def)
    then have "x \<in> snd ` set (items (td_servers td))" by force
    then show ?thesis using J servers_ok_id [OF ok x] k by auto
  qed
  with J show "td_frame td s \<and> primaries s \<subseteq> {sd_id primary} \<and> td_max_server_id s = td_max_server_id td" by auto
qed (use assms frame_refl in auto)

end
