(* ===== verification/TopoStep.thy ===== *)
theory TopoStep
  imports TopoInv
begin

text \<open>
  Every transition of the topology keeps the invariant, and so does the handling of a reply.
\<close>

section \<open>Servers that the primary does not report\<close>

lemma has_rs_member_returns:
  assumes "AssertFail \<in> F" and "NullDeref \<in> F" and "docs_ok server"
  shows "returns F (\<lambda>_. True) (has_rs_member server address)"
proof -
  have "returns F (\<lambda>r. True) (members_loop (rs_members server) (\<lambda>p _.
          bind_res (deref address) (\<lambda>a. map_res (\<lambda>m. (same_address a m, ())) (deref p))) ())"
  proof (rule members_loop_returns [where J = "\<lambda>_ _. True"])
    show "d \<in> set (rs_members server) \<Longrightarrow> doc_ok d" for d using assms(3) by (auto simp: rs_members_def docs_ok_def)
    show "returns F (\<lambda>r. True) (bind_res (deref address) (\<lambda>a. map_res (\<lambda>m. (same_address a m, ())) (deref p)))" for p
      using assms(2) by (cases address; cases p) auto
  qed (use assms in auto)
  then show ?thesis unfolding has_rs_member_def by (intro returns_if returns_map) auto
qed

lemma unreported_returns:
  assumes "AssertFail \<in> F" and "NullDeref \<in> F" and "docs_ok server"
  shows "returns F (\<lambda>_. True) (unreported server ms)"
proof (induction ms)
  case (Cons m ms)
  show ?case
    unfolding unreported.simps
    by (rule returns_bind [OF has_rs_member_returns [OF assms]]) (auto intro!: returns_map Cons.IH)
qed simp

lemma remove_unreported_returns:
  assumes "AssertFail \<in> F" and "NullDeref \<in> F" and "docs_ok server" and "servers_ok td"
  shows "returns F (td_frame td) (remove_unreported_servers td server)"
proof -
  have "td_frame td (foldl remove_server td' ms)" if "td_frame td td'" for td' ms
    using that
  proof (induction ms arbitrary: td')
    case (Cons m ms)
    have "td_frame td (remove_server td' m)"
      by (rule topo_frame_trans [OF Cons.prems remove_server_frame [OF frame_servers_ok [OF Cons.prems]]])
    then show ?case by (simp add: Cons.IH)
  qed simp
  then have "returns F (\<lambda>ms. td_frame td (foldl remove_server td ms)) (unreported server (map snd (items (td_servers td))))"
    by (intro returns_mono [OF unreported_returns [OF assms(1-3)] order_refl]) (use assms(4) frame_refl in auto)
  then show ?thesis unfolding remove_unreported_servers_def by (rule returns_map)
qed

section \<open>The type of a replica set\<close>

definition same_maxima :: "topo_desc \<Rightarrow> topo_desc \<Rightarrow> bool" where
  "same_maxima a b \<longleftrightarrow> td_max_set_version b = td_max_set_version a \<and> td_max_election_id b = td_max_election_id a"

definition settled :: "topo_desc \<Rightarrow> topo_desc \<Rightarrow> bool" where
  "settled td td' \<longleftrightarrow> topo_inv td' \<and> same_maxima td td' \<and> primaries td' \<subseteq> primaries td"

lemma with_type_simps [simp]:
  "servers_of ty (td\<lparr>td_type := t\<rparr>) = servers_of ty td" "servers_ok (td\<lparr>td_type := t\<rparr>) = servers_ok td"
  "servers_of ty (td\<lparr>td_set_name := n\<rparr>) = servers_of ty td" "servers_ok (td\<lparr>td_set_name := n\<rparr>) = servers_ok td"
  "servers_of ty (td\<lparr>td_max_election_id := e\<rparr>) = servers_of ty td"
  "servers_ok (td\<lparr>td_max_election_id := e\<rparr>) = servers_ok td"
  "servers_of ty (td\<lparr>td_max_set_version := v\<rparr>) = servers_of ty td"
  "servers_ok (td\<lparr>td_max_set_version := v\<rparr>) = servers_ok td"
  by (simp_all add: servers_of_def servers_ok_def)

lemma update_rs_type_returns:
  assumes "AssertFail \<in> F" and "servers_ok td" and "standalones td = {}" and "primaries td \<subseteq> {x}"
    and "td_set_name td \<noteq> None"
  shows "returns F (settled td) (update_rs_type td)"
  unfolding update_rs_type_def
proof (rule returns_map, rule returns_mono [OF has_primary_returns [OF assms(1)] order_refl])
  fix p assume p: "p = None \<longleftrightarrow> primaries td = {} \<and> standalones td = {}"
  have "\<exists>k. primaries td \<subseteq> {k}" using assms(4) by blast
  with p assms show "settled td (td\<lparr>td_type := (if p \<noteq> None then MONGOC_TOPOLOGY_RS_WITH_PRIMARY else MONGOC_TOPOLOGY_RS_NO_PRIMARY)\<rparr>)"
    by (simp add: settled_def same_maxima_def topo_inv_def name_ok_def roles_ok_def)
qed

section \<open>Before a transition\<close>

text \<open>What holds when a transition starts: only the roles of the server itself may be new.\<close>

definition pre :: "topo_desc \<Rightarrow> nat \<Rightarrow> server_desc \<Rightarrow> bool" where
  "pre td k sd \<longleftrightarrow> servers_ok td \<and> (k, sd) \<in> set (items (td_servers td)) \<and> typed_ok sd \<and> docs_ok sd
     \<and> td_max_server_id td < 2 ^ 30 \<and> name_ok td
     \<and> roles_ok (td_type td) (primaries td - {k}) (standalones td - {k})"

lemma preD:
  assumes "pre td k sd"
  shows "servers_ok td" "(k, sd) \<in> set (items (td_servers td))" "sd_id sd = k" "docs_ok sd" "td_max_server_id td < 2 ^ 30"
    "name_ok td" "roles_ok (td_type td) (primaries td - {k}) (standalones td - {k})" "typed_ok sd"
    "k \<in> servers_of ty td \<longleftrightarrow> sd_type sd = ty"
proof -
  show ok: "servers_ok td" and mem: "(k, sd) \<in> set (items (td_servers td))" using assms by (auto simp: pre_def)
  show "sd_id sd = k" using ok mem by (rule servers_ok_id)
  show "k \<in> servers_of ty td \<longleftrightarrow> sd_type sd = ty"
  proof
    assume "k \<in> servers_of ty td"
    then obtain s where s: "(k, s) \<in> set (items (td_servers td))" "sd_type s = ty" by (auto simp: servers_of_def)
    show "sd_type sd = ty" using servers_ok_unique [OF ok mem s(1)] s(2) by simp
  next
    assume "sd_type sd = ty"
    with mem show "k \<in> servers_of ty td" by (auto simp: servers_of_def)
  qed
qed (use assms in \<open>simp_all add: pre_def\<close>)

lemma check_set_name_cases:
  assumes "check_set_name td sd = (td', same)" and "sd_set_name sd \<noteq> None"
  shows "td' = td\<lparr>td_set_name := td_set_name td'\<rparr>" and "td_set_name td' \<noteq> None"
  using assms by (auto simp: check_set_name_def split: option.splits)

lemma check_election_cases:
  assumes "check_election td sd = (td', trusted)"
  shows "td' = td\<lparr>td_max_election_id := td_max_election_id td', td_max_set_version := td_max_set_version td'\<rparr>"
    and "\<not> trusted \<Longrightarrow> td' = td"
  using assms by (auto simp: check_election_def Let_def split: if_splits)

text \<open>What the invalidation of a stale primary does.\<close>

definition demoted :: "topo_desc \<Rightarrow> nat \<Rightarrow> topo_desc \<Rightarrow> bool" where
  "demoted td k td' \<longleftrightarrow> servers_ok td' \<and> td_set_name td' = td_set_name td \<and> same_maxima td td'
     \<and> primaries td' \<subseteq> primaries td - {k} \<and> standalones td' \<subseteq> standalones td"

definition demotes :: "fault set \<Rightarrow> (topo_desc \<Rightarrow> nat \<Rightarrow> topo_desc res) \<Rightarrow> bool" where
  "demotes F invalidate \<longleftrightarrow> (\<forall>td k s. servers_ok td \<longrightarrow> (k, s) \<in> set (items (td_servers td)) \<longrightarrow>
     td_type td \<noteq> MONGOC_TOPOLOGY_LOAD_BALANCED \<longrightarrow> returns F (demoted td k) (invalidate td k))"

section \<open>Transitions\<close>

text \<open>
  The outcome of \<open>_mongoc_topology_description_update_rs_from_primary\<close>: a trusted primary becomes
  the only one and sets the maxima; any other server that says it is primary is no primary after.
\<close>

definition primary_outcome :: "topo_desc \<Rightarrow> server_desc \<Rightarrow> topo_desc \<Rightarrow> bool" where
  "primary_outcome td sd td' \<longleftrightarrow>
     (case check_set_name td sd of (named, same_set) \<Rightarrow>
      case check_election named sd of (elected, trusted) \<Rightarrow>
        if same_set \<and> trusted then primaries td' \<subseteq> {sd_id sd} \<and> same_maxima elected td'
        else sd_id sd \<notin> primaries td' \<and> same_maxima td td')"

lemma update_rs_from_primary_returns:
  assumes F: "AssertFail \<in> F" "NullDeref \<in> F" and pre: "pre td k sd" and ty: "sd_type sd = MONGOC_SERVER_RS_PRIMARY"
    and top: "td_type td \<in> {MONGOC_TOPOLOGY_UNKNOWN, MONGOC_TOPOLOGY_RS_NO_PRIMARY, MONGOC_TOPOLOGY_RS_WITH_PRIMARY}"
    and inv: "demotes F invalidate"
  shows "returns F (\<lambda>td'. topo_inv td' \<and> primary_outcome td sd td') (update_rs_from_primary env invalidate td sd)"
proof -
  note pd = preD [OF pre]
  have S: "standalones td = {}" using pd(7) pd(9) [of MONGOC_SERVER_STANDALONE] top ty by (auto simp: roles_ok_def)
  have P: "\<exists>x. primaries td - {k} \<subseteq> {x}" using pd(7) top by (auto simp: roles_ok_def split: if_splits)
  have name: "sd_set_name sd \<noteq> None" using pd(8) ty by (simp add: typed_ok_def)
  obtain named same_set where n: "check_set_name td sd = (named, same_set)" by fastforce
  obtain elected trusted where e: "check_election named sd = (elected, trusted)" by fastforce
  note nc = check_set_name_cases [OF n name] and ec = check_election_cases [OF e]
  have named: "servers_of r named = servers_of r td" "servers_ok named" "td_type named = td_type td"
      "td_servers named = td_servers td" "td_max_server_id named = td_max_server_id td" "same_maxima td named" for r
    by (subst nc(1); simp add: pd(1) same_maxima_def)+
  have elected: "servers_of r elected = servers_of r td" "servers_ok elected" "td_set_name elected = td_set_name named"
      "td_max_server_id elected = td_max_server_id td" for r
    by (subst ec(1); simp add: named)+
  have removed: "returns F (\<lambda>td'. topo_inv td' \<and> primary_outcome td sd td') (update_rs_type (remove_server named sd))"
    if "\<not> same_set"
  proof -
    obtain x where x: "primaries td - {k} \<subseteq> {x}" using P by blast
    have "returns F (settled (remove_server named sd)) (update_rs_type (remove_server named sd))"
      using x S nc(2) named F(1) pd(3)
      by (intro update_rs_type_returns [where x = x]) (simp_all add: remove_server_of remove_server_ok)
    then show ?thesis
      by (rule returns_mono) (use that n e named pd(3) in
        \<open>auto simp: settled_def primary_outcome_def same_maxima_def remove_server_of\<close>)
  qed
  have stale: "returns F (\<lambda>td'. topo_inv td' \<and> primary_outcome td sd td')
      (bind_res (invalidate elected (sd_id sd)) update_rs_type)" if t: "\<not> trusted"
  proof -
    have el: "elected = named" using ec(2) t by simp
    have "returns F (demoted named k) (invalidate elected (sd_id sd))"
    proof -
      have "(k, sd) \<in> set (items (td_servers named))" "td_type named \<noteq> MONGOC_TOPOLOGY_LOAD_BALANCED"
        using pd(2) named(3,4) top by auto
      then show ?thesis using inv named(2) unfolding demotes_def el pd(3) by blast
    qed
    then show ?thesis
    proof (rule returns_bind)
      fix td1 assume d: "demoted named k td1"
      obtain x where x: "primaries td - {k} \<subseteq> {x}" using P by blast
      have "returns F (settled td1) (update_rs_type td1)"
        using x S nc(2) named F(1) d by (intro update_rs_type_returns [where x = x]) (auto simp: demoted_def)
      then show "returns F (\<lambda>td'. topo_inv td' \<and> primary_outcome td sd td') (update_rs_type td1)"
        by (rule returns_mono) (use t d n e named pd(3) in
          \<open>auto simp: settled_def primary_outcome_def demoted_def same_maxima_def\<close>)
    qed
  qed
  have accept: "returns F (\<lambda>td'. topo_inv td' \<and> primary_outcome td sd td')
      (bind_res (invalidate_primaries env elected sd) (\<lambda>td. bind_res (add_new_servers env td sd) (\<lambda>td.
         bind_res (remove_unreported_servers td sd) update_rs_type)))" if t: "same_set" "trusted"
  proof (rule returns_bind [OF invalidate_primaries_returns [OF F(1) elected(2)]])
    fix td1 assume 1: "td_frame elected td1 \<and> primaries td1 \<subseteq> {sd_id sd} \<and> td_max_server_id td1 = td_max_server_id elected"
    have "returns F (td_frame td1) (add_new_servers env td1 sd)"
      using 1 F pd elected(4) by (intro add_new_servers_returns) (auto simp: td_frame_def)
    then show "returns F (\<lambda>td'. topo_inv td' \<and> primary_outcome td sd td') (bind_res (add_new_servers env td1 sd) (\<lambda>td.
         bind_res (remove_unreported_servers td sd) update_rs_type))"
    proof (rule returns_bind)
      fix td2 assume 2: "td_frame td1 td2"
      have "returns F (td_frame td2) (remove_unreported_servers td2 sd)"
        using 2 F pd(4) by (intro remove_unreported_returns) (auto simp: td_frame_def)
      then show "returns F (\<lambda>td'. topo_inv td' \<and> primary_outcome td sd td')
          (bind_res (remove_unreported_servers td2 sd) update_rs_type)"
      proof (rule returns_bind)
        fix td3 assume 3: "td_frame td2 td3"
        have fr: "td_frame elected td3" using 1 2 3 topo_frame_trans by blast
        have p: "primaries td3 \<subseteq> {sd_id sd}" using 1 2 3 by (auto simp: td_frame_def)
        have "returns F (settled td3) (update_rs_type td3)"
          using F(1) fr p S elected nc(2) by (intro update_rs_type_returns) (auto simp: td_frame_def)
        then show "returns F (\<lambda>td'. topo_inv td' \<and> primary_outcome td sd td') (update_rs_type td3)"
          by (rule returns_mono) (use t p fr n e in
            \<open>auto simp: settled_def primary_outcome_def td_frame_def same_maxima_def\<close>)
      qed
    qed
  qed
  show ?thesis
    unfolding update_rs_from_primary_def n prod.case e
    by (rule returns_bind [OF has_member_returns [OF F pd(2)]]) (use removed stale accept in auto)
qed

lemma settled_frame:
  assumes "td_frame td td'" and "name_ok td" and "roles_ok (td_type td) (primaries td') (standalones td')"
  shows "settled td td'"
  using assms by (auto simp: settled_def td_frame_def topo_inv_def name_ok_def same_maxima_def)

lemma roles_ok_mono: "roles_ok ty P S \<Longrightarrow> P' \<subseteq> P \<Longrightarrow> S' \<subseteq> S \<Longrightarrow> roles_ok ty P' S'"
  unfolding roles_ok_def by (auto split: if_splits)

lemma removed_settled:
  assumes "pre td k sd"
  shows "settled td (remove_server td sd)"
  using preD [OF assms] by (intro settled_frame remove_server_frame) (simp_all add: remove_server_of)

lemma remove_and_check_returns:
  assumes F: "AssertFail \<in> F" and pre: "pre td k sd" and top: "td_type td = MONGOC_TOPOLOGY_RS_WITH_PRIMARY"
  shows "returns F (settled td) (remove_and_check_primary td sd)"
proof -
  note pd = preD [OF pre]
  obtain x where x: "primaries td - {k} \<subseteq> {x}" using pd(7) top by (auto simp: roles_ok_def)
  have "returns F (settled (remove_server td sd)) (update_rs_type (remove_server td sd))"
    using x pd top F by (intro update_rs_type_returns [where x = x])
      (auto simp: remove_server_of remove_server_ok roles_ok_def name_ok_def)
  then show ?thesis
    unfolding remove_and_check_primary_def
    by (rule returns_mono) (auto simp: settled_def same_maxima_def remove_server_of [OF pd(1)])
qed

lemma check_if_has_primary_returns:
  assumes F: "AssertFail \<in> F" and pre: "pre td k sd" and top: "td_type td = MONGOC_TOPOLOGY_RS_WITH_PRIMARY"
    and "sd_type sd \<noteq> MONGOC_SERVER_RS_PRIMARY" "sd_type sd \<noteq> MONGOC_SERVER_STANDALONE"
  shows "returns F (settled td) (check_if_has_primary td sd)"
proof -
  note pd = preD [OF pre]
  have k: "primaries td - {k} = primaries td" "standalones td - {k} = standalones td"
    using pd(9) assms(4,5) by auto
  obtain x where x: "primaries td \<subseteq> {x}" "standalones td = {}" using pd(7) top unfolding k by (auto simp: roles_ok_def)
  then show ?thesis
    unfolding check_if_has_primary_def using F pd(1,6) top
    by (intro update_rs_type_returns [where x = x]) (auto simp: name_ok_def)
qed

lemma update_rs_without_primary_returns:
  assumes F: "AssertFail \<in> F" "NullDeref \<in> F" and ok: "servers_ok td" and mem: "(k, sd) \<in> set (items (td_servers td))"
    and sd: "docs_ok sd" "sd_set_name sd \<noteq> None" and max: "td_max_server_id td < 2 ^ 30"
    and top: "td_type td = MONGOC_TOPOLOGY_RS_NO_PRIMARY" "primaries td = {}" "standalones td = {}"
  shows "returns F (settled td) (update_rs_without_primary env td sd)"
proof -
  obtain named same_set where n: "check_set_name td sd = (named, same_set)" by fastforce
  note nc = check_set_name_cases [OF n sd(2)]
  have named: "servers_of r named = servers_of r td" "servers_ok named" "td_type named = td_type td"
      "td_servers named = td_servers td" "td_max_server_id named = td_max_server_id td" "same_maxima td named" for r
    by (subst nc(1); simp add: ok same_maxima_def)+
  have fin: "settled td td'" if "td_frame named td'" for td'
    using that nc(2) named top by (auto simp: settled_def td_frame_def topo_inv_def name_ok_def same_maxima_def roles_ok_def)
  have add: "returns F (td_frame named) (add_new_servers env named sd)"
    using F sd max named by (intro add_new_servers_returns) auto
  have "returns F (settled td) (bind_res (add_new_servers env named sd) (\<lambda>td.
         bind_res (case sd_current_primary sd of None \<Rightarrow> Inr td
             | Some p \<Rightarrow> label_unknown_member td p MONGOC_SERVER_POSSIBLE_PRIMARY) (\<lambda>td.
         map_res (\<lambda>me. if me then td else remove_server td sd) (matches_me sd))))"
  proof (rule returns_bind [OF add])
    fix td1 assume 1: "td_frame named td1"
    have lab: "returns F (td_frame td1) (case sd_current_primary sd of None \<Rightarrow> Inr td1
             | Some p \<Rightarrow> label_unknown_member td1 p MONGOC_SERVER_POSSIBLE_PRIMARY)"
      using label_unknown_returns [OF F, of td1] frame_refl [of td1] 1 by (auto simp: td_frame_def split: option.split)
    show "returns F (settled td) (bind_res (case sd_current_primary sd of None \<Rightarrow> Inr td1
             | Some p \<Rightarrow> label_unknown_member td1 p MONGOC_SERVER_POSSIBLE_PRIMARY) (\<lambda>td.
         map_res (\<lambda>me. if me then td else remove_server td sd) (matches_me sd)))"
    proof (rule returns_bind [OF lab])
      fix td2 assume "td_frame td1 td2"
      then have 2: "td_frame named td2" using 1 topo_frame_trans by blast
      then have "td_frame named (remove_server td2 sd)"
        using remove_server_frame [OF frame_servers_ok [OF 2]] topo_frame_trans by blast
      then show "returns F (settled td) (map_res (\<lambda>me. if me then td2 else remove_server td2 sd) (matches_me sd))"
        using 2 F by (auto intro!: returns_map fin simp: matches_me_def split: option.split)
    qed
  qed
  moreover have "settled td (remove_server named sd)" by (rule fin [OF remove_server_frame [OF named(2)]])
  ultimately show ?thesis
    unfolding update_rs_without_primary_def n prod.case
    by (intro returns_bind [OF has_member_returns [OF F mem]]) auto
qed

lemma update_rs_with_primary_from_member_returns:
  assumes F: "AssertFail \<in> F" "NullDeref \<in> F" and pre: "pre td k sd"
    and top: "td_type td = MONGOC_TOPOLOGY_RS_WITH_PRIMARY"
    and ty: "sd_type sd \<noteq> MONGOC_SERVER_RS_PRIMARY" "sd_type sd \<noteq> MONGOC_SERVER_STANDALONE"
  shows "returns F (settled td) (update_rs_with_primary_from_member td sd)"
proof -
  note pd = preD [OF pre]
  have k: "primaries td - {k} = primaries td" "standalones td - {k} = standalones td" using pd(9) ty by auto
  have stay: "settled td td" using pd(1,6,7) unfolding k by (intro settled_frame frame_refl)
  note rm = removed_settled [OF pre]
  have rmc: "returns F (settled td) (update_rs_type (remove_server td sd))"
    using remove_and_check_returns [OF F(1) pre top] by (simp add: remove_and_check_primary_def)
  have lab: "returns F (settled td) (label_unknown_member (td\<lparr>td_type := MONGOC_TOPOLOGY_RS_NO_PRIMARY\<rparr>) p
      MONGOC_SERVER_POSSIBLE_PRIMARY)" if none: "primaries td = {}" "standalones td = {}" for p
  proof -
    have "returns F (td_frame (td\<lparr>td_type := MONGOC_TOPOLOGY_RS_NO_PRIMARY\<rparr>))
      (label_unknown_member (td\<lparr>td_type := MONGOC_TOPOLOGY_RS_NO_PRIMARY\<rparr>) p MONGOC_SERVER_POSSIBLE_PRIMARY)"
      using F pd(1) by (intro label_unknown_returns) simp_all
    then show ?thesis
      by (rule returns_mono) (use none pd(6) top in
        \<open>auto simp: settled_def td_frame_def topo_inv_def name_ok_def same_maxima_def roles_ok_def\<close>)
  qed
  have me: "returns F (settled td) (bind_res (matches_me sd) (\<lambda>me.
             if \<not> me then Inr (remove_server td sd)
             else bind_res (topology_has_primary td) (\<lambda>primary.
               case sd_current_primary sd of
                 None \<Rightarrow> Inr td
               | Some p \<Rightarrow>
                   if primary = None
                   then label_unknown_member (td\<lparr>td_type := MONGOC_TOPOLOGY_RS_NO_PRIMARY\<rparr>) p
                          MONGOC_SERVER_POSSIBLE_PRIMARY
                   else Inr td)))"
  proof (rule returns_bind)
    show "returns F (\<lambda>_. True) (matches_me sd)" using F by (simp add: matches_me_def split: option.split)
    fix me
    have "returns F (settled td) (bind_res (topology_has_primary td) (\<lambda>primary.
               case sd_current_primary sd of None \<Rightarrow> Inr td
               | Some p \<Rightarrow> if primary = None
                   then label_unknown_member (td\<lparr>td_type := MONGOC_TOPOLOGY_RS_NO_PRIMARY\<rparr>) p
                          MONGOC_SERVER_POSSIBLE_PRIMARY
                   else Inr td))"
      by (rule returns_bind [OF has_primary_returns [OF F(1)]]) (use stay lab in \<open>auto split: option.split\<close>)
    then show "returns F (settled td) (if \<not> me then Inr (remove_server td sd)
             else bind_res (topology_has_primary td) (\<lambda>primary.
               case sd_current_primary sd of None \<Rightarrow> Inr td
               | Some p \<Rightarrow> if primary = None
                   then label_unknown_member (td\<lparr>td_type := MONGOC_TOPOLOGY_RS_NO_PRIMARY\<rparr>) p
                          MONGOC_SERVER_POSSIBLE_PRIMARY
                   else Inr td))"
      using rm by simp
  qed
  have "returns F (settled td) (bind_res (deref (td_set_name td)) (\<lambda>expected. bind_res (deref (sd_set_name sd)) (\<lambda>name.
      if expected \<noteq> name then update_rs_type (remove_server td sd) else R)))" if "returns F (settled td) R" for R
    using that F rmc by (cases "td_set_name td"; cases "sd_set_name sd") auto
  from this [OF me] show ?thesis
    unfolding update_rs_with_primary_from_member_def
    by (intro returns_bind [OF has_member_returns [OF F pd(2)]]) auto
qed

lemma update_unknown_with_standalone_returns:
  assumes F: "AssertFail \<in> F" "NullDeref \<in> F" and pre: "pre td k sd"
    and top: "td_type td = MONGOC_TOPOLOGY_UNKNOWN"
  shows "returns F topo_inv (update_unknown_with_standalone td sd)"
proof -
  note pd = preD [OF pre]
  have "topo_inv (td\<lparr>td_type := MONGOC_TOPOLOGY_SINGLE\<rparr>)"
    using pd(1) by (simp add: topo_inv_def name_ok_def roles_ok_def)
  moreover have "topo_inv (remove_server td sd)" using removed_settled [OF pre] by (simp add: settled_def)
  ultimately show ?thesis
    unfolding update_unknown_with_standalone_def
    by (intro returns_bind [OF has_member_returns [OF F pd(2)]]) auto
qed

lemma settled_inv: "returns F (settled td) r \<Longrightarrow> returns F topo_inv r"
  by (erule returns_mono) (auto simp: settled_def)

lemma unknown_to_rs_returns:
  assumes F: "AssertFail \<in> F" "NullDeref \<in> F" and pre: "pre td k sd"
    and top: "td_type td = MONGOC_TOPOLOGY_UNKNOWN \<or> td_type td = MONGOC_TOPOLOGY_RS_NO_PRIMARY"
    and ty: "sd_type sd \<noteq> MONGOC_SERVER_RS_PRIMARY" "sd_type sd \<noteq> MONGOC_SERVER_STANDALONE" "sd_set_name sd \<noteq> None"
  shows "returns F topo_inv (update_rs_without_primary env (td\<lparr>td_type := MONGOC_TOPOLOGY_RS_NO_PRIMARY\<rparr>) sd)"
proof -
  note pd = preD [OF pre]
  have k: "primaries td - {k} = primaries td" "standalones td - {k} = standalones td" using pd(9) ty by auto
  have "primaries td = {}" "standalones td = {}" using pd(7) top unfolding k by (auto simp: roles_ok_def)
  then show ?thesis
    using F pd ty by (intro settled_inv [OF update_rs_without_primary_returns [where k = k]]) simp_all
qed

text \<open>Where the table has no entry, the roles of the server fit the type of the topology.\<close>

definition after :: "fault set \<Rightarrow> transition option \<Rightarrow> topo_desc \<Rightarrow> server_desc \<Rightarrow> bool" where
  "after F t td sd \<longleftrightarrow> returns F topo_inv (case t of None \<Rightarrow> Inr td | Some transition \<Rightarrow> transition td sd)"

lemma after_simps [simp]:
  "after F None td sd = topo_inv td" "after F (Some t) td sd = returns F topo_inv (t td sd)"
  by (simp_all add: after_def)

lemma transition_returns:
  assumes F: "AssertFail \<in> F" "NullDeref \<in> F" and pre: "pre td k sd" and inv: "demotes F invalidate"
  shows "after F (transition_table env invalidate (sd_type sd) (td_type td)) td sd"
proof -
  note pd = preD [OF pre]
  have rm: "topo_inv (remove_server td sd)" using removed_settled [OF pre] by (simp add: settled_def)
  have rmc: "returns F topo_inv (remove_and_check_primary td sd)" if "td_type td = MONGOC_TOPOLOGY_RS_WITH_PRIMARY"
    by (rule settled_inv [OF remove_and_check_returns [OF F(1) pre that]])
  have single: "topo_inv td" if "td_type td = MONGOC_TOPOLOGY_SINGLE \<or> td_type td = MONGOC_TOPOLOGY_LOAD_BALANCED"
    using that pd(1) by (auto simp: topo_inv_def name_ok_def roles_ok_def)
  have norole: "topo_inv td" if "sd_type sd \<noteq> MONGOC_SERVER_RS_PRIMARY" "sd_type sd \<noteq> MONGOC_SERVER_STANDALONE"
  proof -
    have k: "primaries td - {k} = primaries td" "standalones td - {k} = standalones td" using pd(9) that by auto
    show ?thesis using pd(1,6,7) unfolding k by (simp add: topo_inv_def)
  qed
  have chk: "returns F topo_inv (check_if_has_primary td sd)"
    if "td_type td = MONGOC_TOPOLOGY_RS_WITH_PRIMARY" "sd_type sd \<noteq> MONGOC_SERVER_RS_PRIMARY"
      "sd_type sd \<noteq> MONGOC_SERVER_STANDALONE"
    by (rule settled_inv [OF check_if_has_primary_returns [OF F(1) pre that]])
  have prim: "returns F topo_inv (update_rs_from_primary env invalidate td sd)"
    if "sd_type sd = MONGOC_SERVER_RS_PRIMARY" "td_type td \<in> {MONGOC_TOPOLOGY_UNKNOWN,
        MONGOC_TOPOLOGY_RS_NO_PRIMARY, MONGOC_TOPOLOGY_RS_WITH_PRIMARY}"
    by (rule returns_mono [OF update_rs_from_primary_returns [OF F pre that inv]]) auto
  have name: "sd_set_name sd \<noteq> None" if "sd_type sd \<in> {MONGOC_SERVER_RS_PRIMARY, MONGOC_SERVER_RS_SECONDARY,
      MONGOC_SERVER_RS_ARBITER, MONGOC_SERVER_RS_OTHER}"
    using that pd(8) by (auto simp: typed_ok_def)
  have member: "after F (transition_table env invalidate (sd_type sd) (td_type td)) td sd"
    if m: "sd_type sd \<in> {MONGOC_SERVER_RS_SECONDARY, MONGOC_SERVER_RS_ARBITER, MONGOC_SERVER_RS_OTHER}"
  proof -
    have t: "sd_type sd \<noteq> MONGOC_SERVER_RS_PRIMARY" "sd_type sd \<noteq> MONGOC_SERVER_STANDALONE" "sd_set_name sd \<noteq> None"
      using m name by auto
    have same: "td\<lparr>td_type := MONGOC_TOPOLOGY_RS_NO_PRIMARY\<rparr> = td" if "td_type td = MONGOC_TOPOLOGY_RS_NO_PRIMARY"
      using that by (cases td) simp
    have 1: "returns F topo_inv (transition_unknown_to_rs_no_primary env td sd)" if "td_type td = MONGOC_TOPOLOGY_UNKNOWN"
      using unknown_to_rs_returns [OF F pre _ t] that by (simp add: transition_unknown_to_rs_no_primary_def)
    have 2: "returns F topo_inv (update_rs_without_primary env td sd)" if "td_type td = MONGOC_TOPOLOGY_RS_NO_PRIMARY"
      using unknown_to_rs_returns [OF F pre disjI2 [OF that] t] same [OF that] by simp
    have 3: "returns F topo_inv (update_rs_with_primary_from_member td sd)" if "td_type td = MONGOC_TOPOLOGY_RS_WITH_PRIMARY"
      using settled_inv [OF update_rs_with_primary_from_member_returns [OF F pre that t(1,2)]] .
    have m': "sd_type sd = MONGOC_SERVER_RS_SECONDARY \<or> sd_type sd = MONGOC_SERVER_RS_ARBITER
        \<or> sd_type sd = MONGOC_SERVER_RS_OTHER" using m by simp
    show ?thesis
      using 1 2 3 rm single
      by (cases "td_type td") (rule disjE [OF m']; (erule disjE)?; simp add: transition_table_def Let_def)+
  qed
  have sharded: "topo_inv (td\<lparr>td_type := MONGOC_TOPOLOGY_SHARDED\<rparr>)"
    if "td_type td = MONGOC_TOPOLOGY_UNKNOWN" "sd_type sd = MONGOC_SERVER_MONGOS"
    using norole that by (simp add: topo_inv_def name_ok_def roles_ok_def)
  show ?thesis
  proof (cases "sd_type sd")
    case MONGOC_SERVER_UNKNOWN
    then show ?thesis using norole chk by (cases "td_type td") (simp_all add: transition_table_def Let_def)
  next
    case MONGOC_SERVER_STANDALONE
    then show ?thesis
      using rm rmc single update_unknown_with_standalone_returns [OF F pre]
      by (cases "td_type td") (simp_all add: transition_table_def Let_def)
  next
    case MONGOC_SERVER_MONGOS
    then show ?thesis
      using rm rmc norole sharded
      by (cases "td_type td") (simp_all add: transition_table_def Let_def set_topology_type_to_sharded_def)
  next
    case MONGOC_SERVER_RS_PRIMARY
    then show ?thesis
      using rm prim single by (cases "td_type td") (simp_all add: transition_table_def Let_def)
  next
    case MONGOC_SERVER_RS_GHOST
    then show ?thesis
      using rm chk norole by (cases "td_type td") (simp_all add: transition_table_def Let_def)
  next
    case MONGOC_SERVER_POSSIBLE_PRIMARY
    then show ?thesis using norole by (cases "td_type td") (simp_all add: transition_table_def Let_def)
  next
    case MONGOC_SERVER_LOAD_BALANCER
    then show ?thesis using norole by (cases "td_type td") (simp_all add: transition_table_def Let_def)
  qed (use member in simp_all)
qed

end
