(* ===== verification/TopoHello.thy ===== *)
theory TopoHello
  imports TopoStep
begin

text \<open>
  The handling of a reply: what is read from it, and that it keeps the invariant.
\<close>

section \<open>Fields of a reply\<close>

definition readable :: "doc \<Rightarrow> bool" where
  "readable d \<longleftrightarrow> snd d \<le> length (fst d) \<and> snd d \<le> INT_MAX"

lemma doc_ok_readable: "doc_ok d \<Longrightarrow> readable d"
  by (simp add: doc_ok_def readable_def)

lemma find_typed_returns:
  assumes "readable d" and "0 \<notin> set k"
  shows "returns F (\<lambda>i. \<forall>it. i = Some it \<longrightarrow> (\<exists>data t. on_element data t it \<and> t \<in> set ts)) (find_typed d k ts)"
  unfolding find_typed_def
proof (rule returns_bind)
  show "returns F (\<lambda>r. fst r \<longrightarrow> (\<exists>data t. on_element data t (snd r))) (bson_iter_init_find (fst d) (snd d) (k @ [0]))"
  proof (cases "snd d < 5")
    case False
    have "returns {} (\<lambda>(found, e). found \<longrightarrow> (\<exists>t. on_element (fst d) t e)) (bson_iter_find (iter_start (fst d) (snd d)) (k @ [0]))"
      using assms by (intro find_child_returns iter_ok_start) (auto simp: readable_def iter_start_def)
    then have "returns F (\<lambda>r. fst r \<longrightarrow> (\<exists>data t. on_element data t (snd r)))
        (bson_iter_find (iter_start (fst d) (snd d)) (k @ [0]))"
      by (rule returns_mono) (simp, clarsimp, blast)
    then show ?thesis using False by (simp add: bson_iter_init_find_def bson_iter_init_def)
  qed (simp add: bson_iter_init_find_def bson_iter_init_def)
  fix r :: "bool \<times> bson_iter" assume r: "fst r \<longrightarrow> (\<exists>data t. on_element data t (snd r))"
  show "returns F (\<lambda>i. \<forall>it. i = Some it \<longrightarrow> (\<exists>data t. on_element data t it \<and> t \<in> set ts)) (case r of (found, it) \<Rightarrow>
       if \<not> found then Inr None
       else map_res (\<lambda>ty. if ty \<in> set (map type_byte ts) then Some it else None) (bson_iter_type it))"
  proof (cases "fst r")
    case True
    then obtain data t where el: "on_element data t (snd r)" using r by blast
    then show ?thesis using True accessors_return(7) [OF el] by (cases r) (auto, blast)
  qed (cases r, simp)
qed

lemma found_container_returns:
  assumes "on_element data t it" and "t = BSON_TYPE_DOCUMENT" and "AssertFail \<in> F"
  shows "returns F doc_ok (bind_res (bson_iter_document it) static_doc)"
  using container_returns [OF assms(1)] assms(2,3) by (auto intro!: static_doc_returns)

lemma bson_empty_returns: "doc_ok d \<Longrightarrow> returns F (\<lambda>_. True) (bson_empty (fst d) (snd d))"
  by (auto simp: bson_empty_def doc_ok_def)

lemma returns_option:
  "(i = None \<Longrightarrow> returns F Q a) \<Longrightarrow> (\<And>x. i = Some x \<Longrightarrow> returns F Q (f x)) \<Longrightarrow>
    returns F Q (case i of None \<Rightarrow> a | Some x \<Rightarrow> f x)"
  by (cases i) auto

lemma as_int64_any:
  assumes "\<exists>data t. on_element data t it" and "BadCast \<in> F"
  shows "returns F (\<lambda>_. True) (bson_iter_as_int64 it)"
proof -
  obtain data t where "on_element data t it" using assms(1) by blast
  then show ?thesis using assms(2) by (rule as_int64_returns) simp
qed

lemma found_oid_returns:
  assumes "\<exists>data t. on_element data t it \<and> t \<in> set [BSON_TYPE_OID]"
  shows "returns F (\<lambda>_. True) (bind_res (bson_iter_oid it) deref)"
proof -
  obtain data where el: "on_element data BSON_TYPE_OID it" using assms by auto
  show ?thesis by (rule returns_bind [OF oid_returns [OF el, where Q = "\<lambda>x. x \<noteq> None"]]) auto
qed

lemma topology_version_cmp_returns:
  assumes "doc_ok tv1" and "doc_ok tv2" and "BadCast \<in> F"
  shows "returns F (\<lambda>_. True) (topology_version_cmp tv1 tv2)"
proof -
  have k: "0 \<notin> set (str ''processId'')" "0 \<notin> set (str ''counter'')" by (simp_all add: str_def)
  note f = find_typed_returns [OF doc_ok_readable [OF assms(1)] k(1)] find_typed_returns [OF doc_ok_readable [OF assms(2)] k(1)]
    find_typed_returns [OF doc_ok_readable [OF assms(1)] k(2)] find_typed_returns [OF doc_ok_readable [OF assms(2)] k(2)]
  have pid: "returns F (\<lambda>_. True) (bind_res (find_typed d (str ''processId'') [BSON_TYPE_OID])
      (\<lambda>i. case i of None \<Rightarrow> Inr (- 1) | Some i \<Rightarrow> bind_res (bind_res (bson_iter_oid i) deref) c))"
    if "doc_ok d" "\<And>x. returns F (\<lambda>_. True) (c x)" for d and c :: "byte list \<Rightarrow> int res"
    by (rule returns_bind [OF find_typed_returns [OF doc_ok_readable [OF that(1)] k(1)]])
      (intro returns_option returns_bind [OF found_oid_returns] that(2); simp)
  have counter: "returns F (\<lambda>_. True) (bind_res (find_typed d (str ''counter'') [BSON_TYPE_INT32, BSON_TYPE_INT64])
      (\<lambda>i. case i of None \<Rightarrow> Inr (- 1) | Some i \<Rightarrow> bind_res (bson_iter_as_int64 i) c))"
    if "doc_ok d" "\<And>x. returns F (\<lambda>_. True) (c x)" for d and c :: "int \<Rightarrow> int res"
    by (rule returns_bind [OF find_typed_returns [OF doc_ok_readable [OF that(1)] k(2)]])
      (intro returns_option returns_bind [OF as_int64_any [OF _ assms(3)]] that(2); (blast | simp))
  show ?thesis
    unfolding topology_version_cmp_def
  proof (rule returns_bind [OF bson_empty_returns [OF assms(1)]], rule returns_bind)
    fix e1
    show "returns F (\<lambda>_. True) (if e1 then Inr True else bson_empty (fst tv2) (snd tv2))"
      using bson_empty_returns [OF assms(2)] by simp
  qed (intro returns_if pid counter assms; simp)+
qed

lemma topology_version_older_returns:
  assumes "\<And>d. reply = Some d \<Longrightarrow> readable d \<and> doc_ok (sd_topology_version sd)" and "AssertFail \<in> F" and "BadCast \<in> F"
  shows "returns F (\<lambda>older. older \<longrightarrow> reply \<noteq> None) (topology_version_older sd reply)"
proof (cases reply)
  case (Some d)
  have k: "0 \<notin> set (str ''topologyVersion'')" by (simp add: str_def)
  show ?thesis
    unfolding topology_version_older_def Some option.case
  proof (rule returns_bind [OF find_typed_returns [OF _ k]])
    show "readable d" using assms(1) Some by blast
    fix i assume i: "\<forall>it. i = Some it \<longrightarrow> (\<exists>data t. on_element data t it \<and> t \<in> set [BSON_TYPE_DOCUMENT])"
    have "returns F (\<lambda>older. older \<longrightarrow> Some d \<noteq> None) (bind_res (bind_res (bson_iter_document it) static_doc) (\<lambda>incoming.
                map_res (\<lambda>c. c = 1) (topology_version_cmp (sd_topology_version sd) incoming)))" if it: "i = Some it" for it
    proof -
      obtain data where el: "on_element data BSON_TYPE_DOCUMENT it" using i it by auto
      show ?thesis
      proof (rule returns_bind [OF found_container_returns [OF el refl assms(2)]])
        fix x assume x: "doc_ok x"
        have "returns F (\<lambda>_. True) (topology_version_cmp (sd_topology_version sd) x)"
          using assms(1,3) Some x by (intro topology_version_cmp_returns) auto
        then show "returns F (\<lambda>older. older \<longrightarrow> Some d \<noteq> None) (map_res (\<lambda>c. c = 1) (topology_version_cmp (sd_topology_version sd) x))"
          by (intro returns_map) simp
      qed
    qed
    then show "returns F (\<lambda>older. older \<longrightarrow> Some d \<noteq> None) (case i of None \<Rightarrow> Inr False | Some it \<Rightarrow>
                bind_res (bind_res (bson_iter_document it) static_doc) (\<lambda>incoming.
                map_res (\<lambda>c. c = 1) (topology_version_cmp (sd_topology_version sd) incoming)))"
      by (cases i) auto
  qed
qed (simp add: topology_version_older_def)

section \<open>The cluster time\<close>

lemma timestamp_returns:
  assumes "\<exists>data t. on_element data t it"
  shows "returns F (\<lambda>_. True) (bson_iter_timestamp it)"
proof -
  obtain data t where el: "on_element data t it" using assms by blast
  show ?thesis
    using on_elementD [OF el] on_element_type [OF el]
    by (cases "t = BSON_TYPE_TIMESTAMP") (auto simp: access_defs fixed_at_def)
qed

lemma parse_cluster_time_returns:
  assumes "doc_ok d"
  shows "returns F (\<lambda>_. True) (parse_cluster_time d)"
proof -
  have k: "0 \<notin> set (str ''clusterTime'')" by (simp add: str_def)
  show ?thesis
    unfolding parse_cluster_time_def
    by (rule returns_bind [OF find_typed_returns [OF doc_ok_readable [OF assms] k]])
      (intro returns_option returns_map timestamp_returns; (blast | simp))
qed

lemma cluster_time_greater_returns:
  assumes "doc_ok a" and "doc_ok b"
  shows "returns F (\<lambda>_. True) (cluster_time_greater a b)"
  unfolding cluster_time_greater_def
proof (rule returns_bind [OF parse_cluster_time_returns [OF assms(1)]])
  have "returns F (\<lambda>_. True) (map_res f (parse_cluster_time b))" for f :: "_ \<Rightarrow> bool"
    by (intro returns_map parse_cluster_time_returns [OF assms(2)])
  then show "returns F (\<lambda>_. True) (case n of None \<Rightarrow> Inr False | Some (new_t, new_i) \<Rightarrow>
     map_res (\<lambda>x. case x of None \<Rightarrow> False
        | Some (old_t, old_i) \<Rightarrow> new_t > old_t \<or> new_t = old_t \<and> new_i > old_i) (parse_cluster_time b))" for n
    by (cases n) auto
qed

lemma update_cluster_time_returns:
  assumes "\<And>d. reply = Some d \<Longrightarrow> readable d" and "AssertFail \<in> F" and ct: "doc_ok (td_cluster_time td)"
  shows "returns F (\<lambda>td'. \<exists>ct. td' = td\<lparr>td_cluster_time := ct\<rparr> \<and> doc_ok ct) (update_cluster_time td reply)"
proof (cases reply)
  case None
  have "\<exists>ct. td = td\<lparr>td_cluster_time := ct\<rparr> \<and> doc_ok ct" using ct by (intro exI [of _ "td_cluster_time td"]) simp
  with None show ?thesis by (simp add: update_cluster_time_def)
next
  case (Some d)
  let ?Q = "\<lambda>td'. \<exists>ct. td' = td\<lparr>td_cluster_time := ct\<rparr> \<and> doc_ok ct"
  have same: "?Q td" using ct by (intro exI [of _ "td_cluster_time td"]) simp
  have k: "0 \<notin> set (str ''$clusterTime'')" by (simp add: str_def)
  let ?ct = "td_cluster_time td"
  have new: "returns F ?Q (bind_res (bson_empty (fst ?ct) (snd ?ct)) (\<lambda>empty.
                map_res (\<lambda>greater. if empty \<or> greater
                    then td\<lparr>td_cluster_time := (take (snd x) (fst x), snd x)\<rparr> else td)
                  (if empty then Inr True else cluster_time_greater x ?ct)))" if x: "doc_ok x" for x
  proof (rule returns_bind [OF bson_empty_returns [OF ct]])
    fix empty
    have "returns F (\<lambda>_. True) (if empty then Inr True else cluster_time_greater x ?ct)"
      using cluster_time_greater_returns [OF x ct] by simp
    then show "returns F ?Q (map_res (\<lambda>greater. if empty \<or> greater
                    then td\<lparr>td_cluster_time := (take (snd x) (fst x), snd x)\<rparr> else td)
                  (if empty then Inr True else cluster_time_greater x ?ct))"
    proof (intro returns_map, elim returns_mono)
      fix greater
      show "?Q (if empty \<or> greater then td\<lparr>td_cluster_time := (take (snd x) (fst x), snd x)\<rparr> else td)"
        using same doc_ok_take [OF x] by (cases "empty \<or> greater") (simp_all only: if_True if_False, blast)
    qed simp
  qed
  show ?thesis
    unfolding update_cluster_time_def Some option.case
  proof (rule returns_bind [OF find_typed_returns [OF _ k]])
    show "readable d" using assms(1) Some by blast
    fix i assume i: "\<forall>it. i = Some it \<longrightarrow> (\<exists>data t. on_element data t it \<and> t \<in> set [BSON_TYPE_DOCUMENT])"
    show "returns F ?Q (case i of None \<Rightarrow> Inr td | Some it \<Rightarrow>
                bind_res (bind_res (bson_iter_document it) static_doc) (\<lambda>ct. bind_res (bson_empty (fst ?ct) (snd ?ct)) (\<lambda>empty.
                map_res (\<lambda>greater. if empty \<or> greater
                    then td\<lparr>td_cluster_time := (take (snd ct) (fst ct), snd ct)\<rparr> else td)
                  (if empty then Inr True else cluster_time_greater ct ?ct))))"
    proof (cases i)
      case None
      with same show ?thesis by simp
    next
      case it: (Some it)
      obtain data where el: "on_element data BSON_TYPE_DOCUMENT it" using i it by auto
      show ?thesis
        unfolding it option.case by (rule returns_bind [OF found_container_returns [OF el refl assms(2)]]) (rule new)
    qed
  qed
qed

section \<open>Handling a reply\<close>

lemma update_rs_type_only:
  assumes "AssertFail \<in> F"
  shows "returns F (\<lambda>td'. \<exists>t. td' = td\<lparr>td_type := t\<rparr>) (update_rs_type td)"
  unfolding update_rs_type_def
  by (rule returns_map, rule returns_mono [OF has_primary_returns [OF assms] order_refl]) blast

lemma update_session_timeout_simps [simp]:
  "servers_of ty (update_session_timeout td) = servers_of ty td"
  "servers_ok (update_session_timeout td) = servers_ok td" "td_set_name (update_session_timeout td) = td_set_name td"
  "td_max_set_version (update_session_timeout td) = td_max_set_version td"
  "td_max_election_id (update_session_timeout td) = td_max_election_id td"
  "topo_inv (update_session_timeout td) = topo_inv td"
  by (simp_all add: update_session_timeout_def servers_of_def servers_ok_def topo_inv_def name_ok_def)

lemma check_compatible_simps [simp]: "topo_inv (check_compatible td) = topo_inv td"
  by (simp add: check_compatible_def servers_of_def servers_ok_def topo_inv_def name_ok_def)

lemma get_member:
  assumes "servers_ok td" and "(k, sd) \<in> set (items (td_servers td))"
  shows "mongoc_set_get (td_servers td) k = Some sd"
proof -
  have inv: "set_inv (td_servers td)" using assms(1) by (simp add: servers_ok_def)
  show ?thesis using assms(2) set_inv_distinct [OF inv] by (simp add: mongoc_set_get_eq [OF inv])
qed

text \<open>A server without a reply becomes unknown and keeps its identity.\<close>

definition lost :: "server_desc \<Rightarrow> server_desc \<Rightarrow> bool" where
  "lost sd sd' \<longleftrightarrow> sd_id sd' = sd_id sd \<and> sd_type sd' = MONGOC_SERVER_UNKNOWN
     \<and> sd_address sd' = sd_address sd \<and> sd_topology_version sd' = sd_topology_version sd"

lemma handle_None_lost:
  "mongoc_server_description_handle_hello env sd None rtt err = Inr sd' \<Longrightarrow> lost sd sd'"
  by (auto simp: handle_hello_None lost_def set_sd_error_def mongoc_server_description_reset_def)

lemma handle_None_eq: "\<exists>sd'. mongoc_server_description_handle_hello env sd None rtt err = Inr sd' \<and> lost sd sd'"
  using handle_None_lost handle_hello_None by blast

lemma check_single_lost:
  assumes "lost sd sd1"
  shows "\<exists>sd2. check_single_set_name env td sd1 = Inr sd2 \<and> lost sd sd2"
proof -
  have "lost sd sd2" if "lost sd1 sd2" for sd2 using assms that by (simp add: lost_def)
  then show ?thesis using assms handle_None_eq [of env sd1 "- 1" "Some 13053"] by (auto simp: check_single_set_name_def)
qed

text \<open>The call for a stale primary: depth one is enough, and the server is no primary after it.\<close>

lemma invalidate_demotes:
  assumes "AssertFail \<in> F"
  shows "demotes F (\<lambda>td k. if td_type td = MONGOC_TOPOLOGY_LOAD_BALANCED then Inr td
      else topology_handle_hello (Suc depth) env td k None (- 1) False err)"
  unfolding demotes_def
proof (intro allI impI)
  fix td k s
  assume ok: "servers_ok td" and mem: "(k, s) \<in> set (items (td_servers td))" and lb: "td_type td \<noteq> MONGOC_TOPOLOGY_LOAD_BALANCED"
  have k0: "k \<noteq> 0" using ok mem by (auto simp: servers_ok_def)
  obtain sd1 where sd1: "mongoc_server_description_handle_hello env s None (- 1) err = Inr sd1" "lost s sd1"
    using handle_None_eq by blast
  obtain sd2 where sd2: "check_single_set_name env td sd1 = Inr sd2" "lost s sd2" using check_single_lost [OF sd1(2)] by blast
  let ?td = "set_server td k (\<lambda>_. sd2)"
  have "sd_id sd2 = sd_id s' \<and> server_ok sd2" if "(k, s') \<in> set (items (td_servers td))" for s'
    using sd2(2) servers_ok_unique [OF ok mem that] ok mem by (auto simp: lost_def servers_ok_def server_ok_def)
  then have ok2: "servers_ok ?td" by (rule set_server_ok [OF ok])
  have sub: "servers_of ty ?td \<subseteq> servers_of ty td - {k}" if "ty \<noteq> MONGOC_SERVER_UNKNOWN" for ty
    using that sd2(2) by (auto simp: servers_of_def set_server_items lost_def split: if_splits)
  have dem: "demoted td k (?td\<lparr>td_type := t\<rparr>)" for t
    using ok2 sub [of MONGOC_SERVER_RS_PRIMARY] sub [of MONGOC_SERVER_STANDALONE]
    by (auto simp: demoted_def same_maxima_def)
  have dem1: "demoted td k ?td" using dem by (simp add: demoted_def same_maxima_def)
  have upd: "returns F (\<lambda>td'. demoted td k (update_session_timeout td')) (update_rs_type ?td)"
    by (rule returns_mono [OF update_rs_type_only [OF assms] order_refl]) (use dem in \<open>auto simp: demoted_def same_maxima_def\<close>)
  have "returns F (demoted td k) (map_res update_session_timeout (case transition_table env (inv :: topo_desc \<Rightarrow> nat \<Rightarrow> topo_desc res)
      (sd_type sd2) (td_type ?td) of None \<Rightarrow> Inr ?td | Some transition \<Rightarrow> transition ?td sd2))" for inv
    using sd2(2) upd dem1
    by (cases "td_type td") (auto simp: transition_table_def lost_def check_if_has_primary_def demoted_def same_maxima_def
        intro!: returns_map)
  then show "returns F (demoted td k) (if td_type td = MONGOC_TOPOLOGY_LOAD_BALANCED then Inr td
      else topology_handle_hello (Suc depth) env td k None (- 1) False err)"
    using lb k0 get_member [OF ok mem] sd1(1) sd2(1)
    by (simp add: topology_version_older_def Let_def map_res_def)
qed

text \<open>
  A reply is readable when its two documents are; the server it comes from has an address.
\<close>

definition reply_ok :: "topo_desc \<Rightarrow> nat \<Rightarrow> (doc \<times> doc) option \<Rightarrow> bool" where
  "reply_ok td k reply \<longleftrightarrow> (case reply of None \<Rightarrow> True | Some (d, copy) \<Rightarrow> readable d \<and> readable copy)
     \<and> (case mongoc_set_get (td_servers td) k of None \<Rightarrow> True | Some sd \<Rightarrow> sd_address sd \<noteq> None)"

lemma handled_member_pre:
  assumes inv: "topo_inv td" and max: "td_max_server_id td < 2 ^ 30" and mem: "(k, sd) \<in> set (items (td_servers td))"
    and h: "handled sd sd'"
  shows "pre (set_server td k (\<lambda>_. sd')) k sd'"
proof -
  let ?td = "set_server td k (\<lambda>_. sd')"
  have ok: "servers_ok td" using inv by (simp add: topo_inv_def)
  have "sd_id sd' = sd_id s \<and> server_ok sd'" if "(k, s) \<in> set (items (td_servers td))" for s
    using h servers_ok_unique [OF ok mem that] by (simp add: handled_def same_server_def server_ok_def docs_ok_def)
  then have "servers_ok ?td" by (rule set_server_ok [OF ok])
  moreover have "(k, sd') \<in> set (items (td_servers ?td))" using mem by (auto simp: set_server_items)
  moreover have "roles_ok (td_type td) (servers_of a ?td - {k}) (servers_of b ?td - {k})"
    if "roles_ok (td_type td) (servers_of a td) (servers_of b td)" for a b
    unfolding servers_of_other using that by (rule roles_ok_mono) auto
  ultimately show ?thesis using h inv max by (simp add: pre_def handled_def topo_inv_def name_ok_def)
qed

lemma pre_cluster_time:
  "pre td k sd \<Longrightarrow> doc_ok ct \<Longrightarrow> pre (td\<lparr>td_cluster_time := ct\<rparr>) k sd"
  by (simp add: pre_def servers_ok_def name_ok_def servers_of_def)

lemma check_single_handled:
  assumes "handled sd sd1"
  shows "returns F (handled sd) (check_single_set_name env td sd1)"
proof -
  have "handled sd (set_sd_error (mongoc_server_description_reset env sd1) (Some 13053))"
  proof -
    have "doc_ok (sd_topology_version sd1)" using assms by (simp add: handled_def docs_ok_def)
    then show ?thesis using assms same_server_trans [of sd sd1] by (simp add: handled_def typed_ok_def)
  qed
  then show ?thesis
    using assms by (simp add: check_single_set_name_def handle_hello_None)
qed

lemma handle_hello_inv:
  assumes F: "AssertFail \<in> F" "NullDeref \<in> F" "BadCast \<in> F" and inv: "topo_inv td"
    and max: "td_max_server_id td < 2 ^ 30" and reply: "reply_ok td k reply"
  shows "returns F topo_inv (mongoc_topology_description_handle_hello env td k reply rtt update_time err)"
proof -
  have ok: "servers_ok td" using inv by (simp add: topo_inv_def)
  have sinv: "set_inv (td_servers td)" using ok by (simp add: servers_ok_def)
  let ?inv = "\<lambda>td k. if td_type td = MONGOC_TOPOLOGY_LOAD_BALANCED then Inr td
      else topology_handle_hello (Suc 0) env td k None (- 1) False (Some 5)"
  let ?ct = "\<lambda>td. if update_time then update_cluster_time td (map_option fst reply) else Inr td"
  let ?fin = "\<lambda>td. let td = update_session_timeout td in
      Inr (if reply \<noteq> None \<and> (err = None \<or> err = Some 0) then check_compatible td else td)"
  have fin: "returns F topo_inv (?fin td')" if "topo_inv td'" for td' using that by (simp add: Let_def)
  have last: "returns F topo_inv (bind_res (case transition_table env ?inv (sd_type sd') (td_type td1) of
        None \<Rightarrow> Inr td1 | Some transition \<Rightarrow> transition td1 sd') ?fin)" if "pre td1 k sd'" for td1 sd'
    by (rule returns_bind [OF transition_returns [OF F(1,2) that invalidate_demotes [OF F(1)], unfolded after_def]]) (rule fin)
  have update: "returns F topo_inv (bind_res (?ct td1) (\<lambda>td. bind_res (case transition_table env ?inv (sd_type sd') (td_type td) of
        None \<Rightarrow> Inr td | Some transition \<Rightarrow> transition td sd') ?fin))" if p: "pre td1 k sd'" for td1 sd'
  proof (rule returns_bind)
    have ct: "doc_ok (td_cluster_time td1)" using preD(1) [OF p] by (simp add: servers_ok_def)
    have "readable d" if "map_option fst reply = Some d" for d using that reply by (auto simp: reply_ok_def)
    with ct have "returns F (\<lambda>td'. \<exists>ct. td' = td1\<lparr>td_cluster_time := ct\<rparr> \<and> doc_ok ct) (update_cluster_time td1 (map_option fst reply))"
      by (intro update_cluster_time_returns F)
    moreover have "\<exists>ct. td1 = td1\<lparr>td_cluster_time := ct\<rparr> \<and> doc_ok ct"
      using ct by (intro exI [of _ "td_cluster_time td1"]) simp
    ultimately show "returns F (\<lambda>td'. \<exists>ct. td' = td1\<lparr>td_cluster_time := ct\<rparr> \<and> doc_ok ct) (?ct td1)"
      by (cases update_time) (simp_all only: if_True if_False returns_simps)
    fix td2 assume "\<exists>ct. td2 = td1\<lparr>td_cluster_time := ct\<rparr> \<and> doc_ok ct"
    then have "pre td2 k sd'" using pre_cluster_time [OF p] by blast
    then show "returns F topo_inv (bind_res (case transition_table env ?inv (sd_type sd') (td_type td2) of
        None \<Rightarrow> Inr td2 | Some transition \<Rightarrow> transition td2 sd') ?fin)" by (rule last)
  qed
  have steps: "returns F topo_inv (bind_res (topology_version_older sd (map_option fst reply)) (\<lambda>older.
         if older then Inr td
         else bind_res (mongoc_server_description_handle_hello env sd (map_option snd reply) rtt err) (\<lambda>sd.
           bind_res (check_single_set_name env td sd) (\<lambda>sd. bind_res (?ct (set_server td k (\<lambda>_. sd))) (\<lambda>td.
             bind_res (case transition_table env ?inv (sd_type sd) (td_type td) of
                 None \<Rightarrow> Inr td | Some transition \<Rightarrow> transition td sd) ?fin)))))"
    if g: "mongoc_set_get (td_servers td) k = Some sd" for sd
  proof -
    have mem: "(k, sd) \<in> set (items (td_servers td))"
      using g by (simp add: mongoc_set_get_eq [OF sinv] map_of_SomeD)
    have addr: "sd_address sd \<noteq> None" using reply g by (simp add: reply_ok_def)
    have tv: "doc_ok (sd_topology_version sd)" using ok mem addr by (auto simp: servers_ok_def server_ok_def)
    have d: "map_option fst reply = Some d \<Longrightarrow> readable d" "map_option snd reply = Some d \<Longrightarrow> readable d" for d
      using reply by (auto simp: reply_ok_def)
    have h: "returns F (handled sd) (mongoc_server_description_handle_hello env sd (map_option snd reply) rtt err)"
      using d tv F by (intro handle_hello_returns) (fastforce simp: readable_def)+
    have rest: "returns F topo_inv (bind_res (mongoc_server_description_handle_hello env sd (map_option snd reply) rtt err) (\<lambda>sd.
           bind_res (check_single_set_name env td sd) (\<lambda>sd. bind_res (?ct (set_server td k (\<lambda>_. sd))) (\<lambda>td.
             bind_res (case transition_table env ?inv (sd_type sd) (td_type td) of
                 None \<Rightarrow> Inr td | Some transition \<Rightarrow> transition td sd) ?fin))))"
      by (rule returns_bind [OF h], rule returns_bind [OF check_single_handled], assumption,
          rule update [OF handled_member_pre [OF inv max mem]])
    show ?thesis
      by (rule returns_bind [OF topology_version_older_returns]) (use d tv F inv rest in auto)
  qed
  show ?thesis
    unfolding mongoc_topology_description_handle_hello_def numeral_2_eq_2
    by (subst topology_handle_hello.simps(2), unfold Let_def [of "set_server td k f" for f] Let_def [of "?inv"],
        rule returns_bind [where P = "\<lambda>_. True"], use F in \<open>simp add: c_assert_def\<close>,
        rule returns_option) (use inv steps in simp_all)
qed

end
