(* ===== verification/HostParse.thy ===== *)
theory HostParse
  imports HostList
begin

text \<open>
  What the parsers of numbers and of host addresses compute: \<open>mlib_nat64_parse\<close> against the value
  of a numeral, and addresses that are printed and read again.
\<close>

section \<open>The value of a numeral\<close>

fun num_value :: "nat \<Rightarrow> byte list \<Rightarrow> nat \<Rightarrow> nat option" where
  "num_value base [] v = Some v"
| "num_value base (c # cs) v =
     (case digit_value c of
        None \<Rightarrow> None
      | Some d \<Rightarrow> if d < base then num_value base cs (v * base + d) else None)"

text \<open>An empty or wrong spelling is \<open>EINVAL\<close>, a value that does not fit is \<open>ERANGE\<close>.\<close>

definition nat64_reference :: "byte list \<Rightarrow> nat \<Rightarrow> parse_error + 64 word" where
  "nat64_reference inp base =
     (if inp = [] then Inl EINVAL
      else case num_value base inp 0 of
        None \<Rightarrow> Inl EINVAL
      | Some v \<Rightarrow> if v < 2 ^ 64 then Inr (of_nat v) else Inl ERANGE)"

lemma unat_of_nat64: "v < 2 ^ 64 \<Longrightarrow> unat (of_nat v :: 64 word) = v"
  by (simp add: unat_of_nat take_bit_nat_eq_self)

lemma overflow_step:
  assumes "d < base"
  shows "(2 ^ 64 \<le> unat (of_nat v * of_nat base :: 64 word) + d
      \<or> (2 ^ 64 \<le> unat (of_nat v :: 64 word) * base \<or> 2 ^ 64 \<le> v)) \<longleftrightarrow> 2 ^ 64 \<le> v * base + d"
proof (cases "2 ^ 64 \<le> v")
  case True
  have "v \<le> v * base" using assms by (cases base) auto
  with True have "2 ^ 64 \<le> v * base + d" by linarith
  with True show ?thesis by simp
next
  case False
  then have v: "unat (of_nat v :: 64 word) = v" by (simp add: unat_of_nat64)
  show ?thesis
  proof (cases "2 ^ 64 \<le> v * base")
    case True
    then show ?thesis using v by auto
  next
    case f: False
    then have "unat (of_nat (v * base) :: 64 word) = v * base" by (intro unat_of_nat64) simp
    then have "unat (of_nat v * of_nat base :: 64 word) = v * base" by (simp only: of_nat_mult)
    then show ?thesis using False f v by auto
  qed
qed

lemma nat64_loop_value:
  "nat64_loop base cs (of_nat v) (2 ^ 64 \<le> v) =
     (case num_value base cs v of
        None \<Rightarrow> Inl EINVAL
      | Some v' \<Rightarrow> if v' < 2 ^ 64 then Inr (of_nat v') else Inl ERANGE)"
proof (induction cs arbitrary: v)
  case (Cons c cs)
  show ?case
  proof (cases "digit_value c")
    case (Some d)
    show ?thesis
    proof (cases "d < base")
      case True
      have "(of_nat v * of_nat base + of_nat d :: 64 word) = of_nat (v * base + d)" by simp
      with True Some show ?thesis
        by (simp only: nat64_loop.simps num_value.simps Let_def option.case overflow_step [OF True] Cons.IH
            if_True not_le [symmetric]) simp
    qed (simp add: Some Let_def)
  qed (simp add: Let_def)
qed auto

lemma nat64_parse_reference: "mlib_nat64_parse inp base = nat64_reference inp base"
  using nat64_loop_value [of base inp 0] by (simp add: mlib_nat64_parse_def nat64_reference_def)

section \<open>Ports\<close>

lemma num_value_append:
  "num_value base (xs @ ys) v = (case num_value base xs v of None \<Rightarrow> None | Some u \<Rightarrow> num_value base ys u)"
  by (induction xs arbitrary: v) (auto split: option.split)

lemma digit_value_dec: "d < 10 \<Longrightarrow> digit_value (of_nat (48 + d)) = Some d"
proof -
  assume "d < 10"
  then have "d \<in> {0, 1, 2, 3, 4, 5, 6, 7, 8, 9}" by auto
  then show ?thesis by (auto simp: digit_value_def c_tolower_def)
qed

lemma num_value_dec: "num_value 10 (dec n) 0 = Some n"
proof (induction n rule: dec.induct)
  case (1 n)
  show ?case
  proof (cases "n < 10")
    case True
    then show ?thesis using digit_value_dec [of n] by (subst dec.simps) simp
  next
    case False
    then show ?thesis
      using 1 digit_value_dec [of "n mod 10"] by (subst dec.simps) (simp add: num_value_append)
  qed
qed

lemma parse_port_dec: "0 < p \<Longrightarrow> p < 2 ^ 16 \<Longrightarrow> mongoc_parse_port (dec p) = Some p"
proof -
  assume p: "0 < p" "p < 2 ^ 16"
  then have u: "unat (of_nat p :: 64 word) = p" by (intro unat_of_nat64) simp
  then have "(of_nat p :: 64 word) \<noteq> 0" using p by (metis unat_0 less_not_refl)
  with u p show ?thesis
    by (simp add: mongoc_parse_port_def nat64_parse_reference nat64_reference_def num_value_dec)
qed

section \<open>Addresses are printed and read again\<close>

lemma find_char_None: "mstr_find s [c] = None \<longleftrightarrow> c \<notin> set s"
  by (induction s) auto

lemma find_char_append: "c \<notin> set s \<Longrightarrow> mstr_find (s @ c # r) [c] = Some (length s)"
  by (induction s) auto

lemma find_char_Some: "mstr_find s [c] = Some i \<Longrightarrow> i < length s \<and> s ! i = c \<and> c \<notin> set (take i s)"
proof (induction s arbitrary: i)
  case (Cons a s)
  then show ?case by (cases i) (auto split: if_splits)
qed simp

lemma contains_char: "mstr_contains s [c] \<longleftrightarrow> c \<in> set s"
  by (simp add: mstr_contains_def find_char_None)

lemma str_chars: "str '':'' = [0x3A]" "str '']'' = [0x5D]" "str ''['' = [0x5B]" "str '']:'' = [0x5D, 0x3A]"
  "str ''/'' = [0x2F]"
  by (simp_all add: str_def)

lemma tolower_idem [simp]: "c_tolower (c_tolower c) = c_tolower c"
  unfolding c_tolower_def by (simp add: word_le_nat_alt unat_word_ariths)

lemma tolower_punct: "c_tolower c = p \<longleftrightarrow> c = p" if "p \<in> {0x3A, 0x5B, 0x5D, 0x2F}"
  using that by (auto simp: c_tolower_def)

lemma tolower_mem: "p \<in> {0x3A, 0x5B, 0x5D, 0x2F} \<Longrightarrow> p \<in> set (map c_tolower s) \<longleftrightarrow> p \<in> set s"
  using tolower_punct [of p] by (auto simp: image_iff)

lemma dec_no_punct: "p \<in> {0x3A, 0x5B, 0x5D, 0x2F} \<Longrightarrow> p \<notin> set (dec n)"
  using dec_digits [of p n] by auto

lemma from_hostport_lower:
  assumes "mongoc_host_list_from_hostport host port = Inr (Some h)" and "0x2F \<notin> set (hl_host h)"
  shows "hl_host h = map c_tolower host" and "mongoc_host_list_from_hostport (map c_tolower host) port = Inr (Some h)"
    and "hl_host_and_port h = (if 0x3A \<in> set host then 0x5B # map c_tolower host @ 0x5D # 0x3A # dec port
      else map c_tolower host @ 0x3A # dec port)"
proof -
  have m: "0x3A \<in> c_tolower ` set s \<longleftrightarrow> 0x3A \<in> set s" "0x2F \<in> c_tolower ` set s \<longleftrightarrow> 0x2F \<in> set s" for s
    using tolower_mem [of "0x3A" s] tolower_mem [of "0x2F" s] by simp_all
  have "hl_host h = map c_tolower host \<and> mongoc_host_list_from_hostport (map c_tolower host) port = Inr (Some h)
    \<and> hl_host_and_port h = (if 0x3A \<in> set host then 0x5B # map c_tolower host @ 0x5D # 0x3A # dec port
      else map c_tolower host @ 0x3A # dec port)"
    using assms m
    by (auto simp: mongoc_host_list_from_hostport_def str_chars contains_char Let_def print_host_def
        map_res_eq_Inr bind_res_eq_Inr c_assert_def comp_def split: if_splits)
  then show "hl_host h = map c_tolower host" "mongoc_host_list_from_hostport (map c_tolower host) port = Inr (Some h)"
    "hl_host_and_port h = (if 0x3A \<in> set host then 0x5B # map c_tolower host @ 0x5D # 0x3A # dec port
      else map c_tolower host @ 0x3A # dec port)" by blast+
qed

lemma from_string_hostport:
  assumes "mongoc_host_list_from_string a = Inr (Some h)"
  shows "\<exists>host port. mongoc_host_list_from_hostport host port = Inr (Some h) \<and> 0x5D \<notin> set host \<and> 0 < port \<and> port < 2 ^ 16"
proof -
  have def: "0 < MONGOC_DEFAULT_PORT \<and> MONGOC_DEFAULT_PORT < 2 ^ 16" by (simp add: MONGOC_DEFAULT_PORT_def)
  show ?thesis
  proof (cases "0x5D \<in> set a")
    case False
    then have "0x5D \<notin> set (take n a)" for n by (auto dest: in_set_takeD)
    then show ?thesis
      using assms False def parse_port_bound
      by (auto simp: mongoc_host_list_from_string_def parse_host_def str_chars contains_char split: option.splits) blast
  next
    case True
    obtain i where i: "mstr_find a [0x5D] = Some i" using True find_char_None [of a "0x5D"] by auto
    from find_char_Some [OF this] have "0x5D \<notin> set (take i a)" by simp
    then have n: "0x5D \<notin> set (take (i - Suc 0) (drop (Suc 0) a))"
      by (cases i; cases a) auto
    show ?thesis
      using assms True i n def parse_port_bound
      by (auto simp: mongoc_host_list_from_string_def parse_host_def parse_host_ipv6_def str_chars contains_char
          split: option.splits if_splits)
  qed
qed

lemma host_read_again:
  assumes "mongoc_host_list_from_string a = Inr (Some h)" and "0x2F \<notin> set (hl_host h)"
  shows "mongoc_host_list_from_string (hl_host_and_port h) = Inr (Some h)"
proof -
  obtain host port where fh: "mongoc_host_list_from_hostport host port = Inr (Some h)" and b: "0x5D \<notin> set host"
    and port: "0 < port" "port < 2 ^ 16" using from_string_hostport [OF assms(1)] by blast
  note lower = from_hostport_lower [OF fh assms(2)]
  let ?l = "map c_tolower host"
  have l: "0x5D \<notin> set ?l" using tolower_mem [of "0x5D" host] b by simp
  note pd = parse_port_dec [OF port]
  show ?thesis
  proof (cases "0x3A \<in> set host")
    case True
    have "mstr_find ((0x5B # ?l) @ 0x5D # 0x3A # dec port) [0x5D] = Some (length (0x5B # ?l))"
      using l by (intro find_char_append) simp
    then have f: "mstr_find (0x5B # ?l @ 0x5D # 0x3A # dec port) [0x5D] = Some (Suc (length host))" by simp
    show ?thesis
      using lower(2) pd f True
      by (simp add: lower(3) mongoc_host_list_from_string_def parse_host_def parse_host_ipv6_def str_chars contains_char
          del: mstr_find.simps)
  next
    case False
    have c: "0x3A \<notin> set ?l" using tolower_mem [of "0x3A" host] False by simp
    from find_char_append [OF c, of "dec port"]
    have f: "mstr_find (?l @ 0x3A # dec port) [0x3A] = Some (length host)" by simp
    have nb: "0x5D \<notin> set (?l @ 0x3A # dec port)" using l dec_no_punct [of "0x5D"] by simp
    show ?thesis
      using lower(2) pd f False nb
      by (simp add: lower(3) mongoc_host_list_from_string_def parse_host_def str_chars contains_char del: set_append)
  qed
qed

end
