(* ===== verification/TopoProps.thy ===== *)
theory TopoProps
  imports TopoHello HostParse
begin

text \<open>
  Properties of the set of servers, of the parser of numbers, and of the monitoring of a deployment.
\<close>

section \<open>Reachable topologies\<close>

text \<open>
  The type that \<open>mongoc_topology_new\<close> gives a new topology: \<open>lb\<close> is the option \<open>loadBalanced\<close>,
  \<open>srv\<close> that the hosts come from an SRV record, \<open>direct\<close> the option \<open>directConnection\<close>, and
  \<open>several\<close> that the list of seeds has more than one host.
\<close>

definition topology_new_type :: "bool \<Rightarrow> bool \<Rightarrow> bool option \<Rightarrow> byte list option \<Rightarrow> bool \<Rightarrow> topo_type" where
  "topology_new_type lb srv direct replica_set several =
     (if lb then MONGOC_TOPOLOGY_LOAD_BALANCED
      else if srv \<and> direct = None then MONGOC_TOPOLOGY_UNKNOWN
      else case direct of
        Some d \<Rightarrow>
          if d then MONGOC_TOPOLOGY_SINGLE
          else if replica_set \<noteq> None then MONGOC_TOPOLOGY_RS_NO_PRIMARY else MONGOC_TOPOLOGY_UNKNOWN
      | None \<Rightarrow>
          if replica_set \<noteq> None then MONGOC_TOPOLOGY_RS_NO_PRIMARY
          else if several then MONGOC_TOPOLOGY_UNKNOWN else MONGOC_TOPOLOGY_SINGLE)"

definition topology_new :: "byte list \<Rightarrow> int \<Rightarrow> bool \<Rightarrow> bool \<Rightarrow> bool option \<Rightarrow> byte list option \<Rightarrow> bool \<Rightarrow> topo_desc" where
  "topology_new oid heartbeat lb srv direct replica_set several =
     (mongoc_topology_description_init oid heartbeat)\<lparr>td_set_name := replica_set,
        td_type := topology_new_type lb srv direct replica_set several\<rparr>"

text \<open>
  The states of a topology: it is new, a host is added to it, a reply or the loss of a connection is
  handled, or a server is invalidated.
\<close>

inductive reachable :: "sd_env \<Rightarrow> topo_desc \<Rightarrow> bool" for env where
  new: "reachable env (topology_new oid heartbeat lb srv direct replica_set several)"
| add: "reachable env td \<Longrightarrow> td_max_server_id td < 2 ^ 30 \<Longrightarrow>
    mongoc_topology_description_add_server env td p = Inr (td', k) \<Longrightarrow> reachable env td'"
| hello: "reachable env td \<Longrightarrow> td_max_server_id td < 2 ^ 30 \<Longrightarrow> reply_ok td k reply \<Longrightarrow>
    mongoc_topology_description_handle_hello env td k reply rtt update_time err = Inr td' \<Longrightarrow> reachable env td'"
| invalidate: "reachable env td \<Longrightarrow> td_max_server_id td < 2 ^ 30 \<Longrightarrow> reply_ok td k None \<Longrightarrow>
    mongoc_topology_description_invalidate_server env td k err = Inr td' \<Longrightarrow> reachable env td'"

lemma topology_new_inv: "topo_inv (topology_new oid heartbeat lb srv direct replica_set several)"
proof -
  let ?td = "topology_new oid heartbeat lb srv direct replica_set several"
  have "servers_of ty ?td = {}" for ty
    by (simp add: servers_of_def topology_new_def mongoc_topology_description_init_def mongoc_set_new_def)
  moreover have "servers_ok ?td"
    by (simp add: servers_ok_def topology_new_def mongoc_topology_description_init_def) (simp add: mongoc_set_new_def)
  moreover have "name_ok ?td"
    by (auto simp: name_ok_def topology_new_def topology_new_type_def split: option.split)
  ultimately show ?thesis by (simp add: topo_inv_def roles_ok_def)
qed

lemma frame_inv: "topo_inv td \<Longrightarrow> td_frame td td' \<Longrightarrow> topo_inv td'"
  by (auto simp: topo_inv_def td_frame_def name_ok_def elim: roles_ok_mono)

lemma add_server_inv:
  assumes "topo_inv td" and "td_max_server_id td < 2 ^ 30"
    and "mongoc_topology_description_add_server env td p = Inr (td', k)"
  shows "topo_inv td'"
proof -
  have "td_room td (Suc 0) td" using assms(1,2) frame_refl by (simp add: td_room_def topo_inv_def)
  then have "returns UNIV (\<lambda>r. td_room td 0 (fst r)) (mongoc_topology_description_add_server env td p)"
    by (intro add_server_returns) simp_all
  then have "td_frame td td'" using assms(3) by (simp add: td_room_def)
  then show ?thesis by (rule frame_inv [OF assms(1)])
qed

lemma handle_hello_topo_inv:
  assumes "topo_inv td" and "td_max_server_id td < 2 ^ 30" and "reply_ok td k reply"
    and "mongoc_topology_description_handle_hello env td k reply rtt update_time err = Inr td'"
  shows "topo_inv td'"
  using handle_hello_inv [of UNIV td k reply env rtt update_time err] assms by simp

lemma reachable_topo_inv: "reachable env td \<Longrightarrow> topo_inv td"
proof (induction rule: reachable.induct)
  case (invalidate td k err td')
  then show ?case
    using handle_hello_topo_inv [of td k None env "- 1" False "Some err" td']
    by (auto simp: mongoc_topology_description_invalidate_server_def split: if_splits)
qed (auto intro: topology_new_inv add_server_inv handle_hello_topo_inv)

text \<open>Evaluation of the parser of addresses.\<close>

lemmas parse_defs = mongoc_host_list_from_string_def parse_host_def parse_host_ipv6_def str_def mstr_contains_def
  mongoc_parse_port_def mlib_nat64_parse_def digit_value_def mongoc_host_list_from_hostport_def
  BSON_HOST_NAME_MAX_def MONGOC_DEFAULT_PORT_def print_host_def c_assert_def dec.simps c_tolower_def

section \<open>Properties\<close>

text \<open>C30: The set of servers is a finite map: after any history of insertions of new ids and of
  removals it is sorted, fits its array, and the binary search finds exactly what the map holds.\<close>

theorem set_refines_map:
  assumes "ops_fresh ops {}"
  shows "\<exists>st. store_run mongoc_set_add mongoc_set_rm ops (mongoc_set_new n) = Inr st \<and> set_inv st
    \<and> mongoc_set_get st = map_run ops Map.empty"
  using ms.run_refines_map [of "mongoc_set_new n" ops] assms by simp

theorem set_refines_map_witness:
  "\<exists>st. store_run mongoc_set_add mongoc_set_rm [Add 5 CHR ''x'', Add 2 CHR ''y'', Rm 5, Add 9 CHR ''z''] (mongoc_set_new 1) = Inr st
    \<and> set_inv st \<and> mongoc_set_get st = map_run [Add 5 CHR ''x'', Add 2 CHR ''y'', Rm 5, Add 9 CHR ''z''] Map.empty"
  by (rule set_refines_map) simp

text \<open>C31: The parser of natural numbers is exact for every base and length: an empty spelling or a
  character that is no digit of the base is \<open>EINVAL\<close>, a value of 2^64 or more is \<open>ERANGE\<close> although the
  arithmetic wraps, and any other value is returned.\<close>

theorem nat64_parse_exact: "mlib_nat64_parse inp base = nat64_reference inp base"
  by (rule nat64_parse_reference)



text \<open>C33: Whatever a server replies, handling the reply reads only inside it and returns, or stops
  at an assertion or at a conversion of a double out of range; the description keeps its identity, and a
  member of a replica set has the name of its set.\<close>

theorem server_hello_typed:
  assumes "n \<le> length data" and "n \<le> INT_MAX"
  shows "returns {AssertFail, BadCast} (handled sd)
    (mongoc_server_description_handle_hello env sd (Some (data, n)) rtt err)"
  using assms by (intro handle_hello_returns) auto

theorem server_hello_typed_witness:
  "returns {AssertFail, BadCast} (handled sd_zero)
    (mongoc_server_description_handle_hello \<lparr>env_now = 0, env_smooth = (\<lambda>new old. new)\<rparr> sd_zero (Some (empty_doc, 5)) 1 None)"
  by (rule server_hello_typed) (simp_all add: empty_doc_def INT_MAX_def)


text \<open>The demonstration: a replica set \<open>r\<close> with the seed \<open>a:1\<close>, whose connection is lost.\<close>

abbreviation demo_env :: sd_env where
  "demo_env \<equiv> \<lparr>env_now = 0, env_smooth = (\<lambda>new old. new)\<rparr>"

abbreviation demo_topology :: topo_desc where
  "demo_topology \<equiv> topology_new mcommon_oid_zero 10000 False False None (Some (str ''r'')) True"

lemma demo_host: "mongoc_host_list_from_string (str ''a:1'')
    = Inr (Some \<lparr>hl_host = str ''a'', hl_host_and_port = str ''a:1'', hl_port = 1, hl_family = AF_UNSPEC\<rparr>)"
  by (simp add: parse_defs)

lemma demo_add: "\<exists>td. reachable demo_env td \<and> td_max_server_id td = 1 \<and> td_type td = MONGOC_TOPOLOGY_RS_NO_PRIMARY
    \<and> map_option sd_address (mongoc_set_get (td_servers td) 1) = Some (Some (str ''a:1''))"
proof -
  obtain sd where sd: "mongoc_server_description_init demo_env (str ''a:1'') 1 = Inr sd" "sd_address sd = Some (str ''a:1'')"
    by (simp add: mongoc_server_description_init_def demo_host mongoc_server_description_reset_def Let_def)
  let ?td = "demo_topology\<lparr>td_max_server_id := 1, td_servers := \<lparr>items = [(1, sd)], items_allocated = 8\<rparr>\<rparr>"
  note new = topology_new_def mongoc_topology_description_init_def mongoc_set_new_def
  have "mongoc_topology_description_add_server demo_env demo_topology (Some (str ''a:1'')) = Inr (?td, 1)"
    using sd(1) by (simp add: mongoc_topology_description_add_server_def topology_has_server_def mongoc_set_for_each_def
        mongoc_set_for_each_with_id_def mongoc_set_add_def Let_def new c_assert_def)
  then have "reachable demo_env ?td"
    by (rule reachable.add [OF reachable.new, rotated]) (simp add: new)
  moreover have "mongoc_set_get (td_servers ?td) 1 = Some sd"
    by (simp add: mongoc_set_get_def bsearch_id.simps)
  ultimately show ?thesis using sd(2) by (intro exI [of _ ?td]) (simp add: new topology_new_type_def)
qed


text \<open>C35: In every reachable state, handling a reply or the loss of a connection returns a state
  that satisfies the invariant, or stops at an assertion, at the address of a server that could not be
  parsed, or at a conversion of a double: it never reads out of bounds, and the recursion of depth two
  for a stale primary ends.\<close>

theorem topology_hello_safe:
  assumes "reachable env td" and "td_max_server_id td < 2 ^ 30" and "reply_ok td k reply"
  shows "returns {AssertFail, NullDeref, BadCast} topo_inv
    (mongoc_topology_description_handle_hello env td k reply rtt update_time err)"
  using handle_hello_inv [OF _ _ _ reachable_topo_inv [OF assms(1)] assms(2,3)] by simp

theorem topology_hello_safe_witness:
  "\<exists>td. td_max_server_id td = 1 \<and> returns {AssertFail, NullDeref, BadCast} topo_inv
    (mongoc_topology_description_handle_hello demo_env td 1 None (- 1) False None)"
proof -
  obtain td where td: "reachable demo_env td" "td_max_server_id td = 1"
    "map_option sd_address (mongoc_set_get (td_servers td) 1) = Some (Some (str ''a:1''))"
    using demo_add by blast
  have "reply_ok td 1 None" using td(3) by (auto simp: reply_ok_def split: option.split)
  then show ?thesis using topology_hello_safe [OF td(1)] td(2) by (intro exI [of _ td]) simp
qed



text \<open>C37: The maxima never go back. Under the rules of MongoDB 6.0 the pair of election id and set
  version never decreases; under the old rules the pair of set version and election id never does, once a set
  version is known; and a primary that is not trusted changes nothing.\<close>

theorem election_never_back:
  "case check_election td sd of (td', trusted) \<Rightarrow>
     (trusted \<or> td' = td)
     \<and> (let cmp = bson_oid_compare (td_max_election_id td) (td_max_election_id td') in
        if sd_max_wire sd \<ge> 17
        then cmp < 0 \<or> cmp = 0 \<and> td_max_set_version td \<le> td_max_set_version td'
        else td_max_set_version td = - 1 \<or> td_max_set_version td < td_max_set_version td'
          \<or> td_max_set_version td = td_max_set_version td' \<and> cmp \<le> 0)"
proof -
  have anti: "bson_oid_compare b a = - bson_oid_compare a b" for a b
    by (simp add: bson_oid_compare_def memcmp_sgn_antisym [of a b])
  have refl: "bson_oid_compare a a = 0" for a by (simp add: bson_oid_compare_def)
  show ?thesis
    using anti [of "td_max_election_id td" "sd_election_id sd"]
    by (auto simp: check_election_def primary_is_not_stale_def later_election_def topology_has_set_version_def
        has_set_version_def Let_def refl split: prod.split)
qed

text \<open>The session timeout of the topology is the least timeout of its data nodes, and \<open>-1\<close>, no
  sessions, where there is no data node or where one of them has no sessions.\<close>

theorem session_timeout_least:
  "td_session_timeout (update_session_timeout td)
    = (let timeouts = map sd_session_timeout (filter is_data_node (map snd (items (td_servers td)))) in
       if timeouts = [] \<or> - 1 \<in> set timeouts then - 1 else Min (set timeouts))"
proof -
  have two: "Min (insert a (insert b A)) = Min (insert (if b < a then b else a) A)" if "finite A" for a b :: int and A
    using that by (cases "A = {}") (auto simp: min_def)
  have loop: "session_timeout_loop sds t
      = (let timeouts = map sd_session_timeout (filter is_data_node sds) in
         if - 1 \<in> set timeouts then - 1
         else if t = - 1 then if timeouts = [] then - 1 else Min (set timeouts)
         else Min (insert t (set timeouts)))" for sds t
  proof (induction sds arbitrary: t)
    case (Cons sd sds)
    show ?case
      by (cases "is_data_node sd"; cases "sd_session_timeout sd = - 1"; cases "t = - 1")
        (simp_all add: Let_def Cons.IH two del: Min_insert)
  qed simp
  show ?thesis by (simp add: update_session_timeout_def loop Let_def)
qed

end
