(* ===== verification/Select.thy ===== *)
theory Select
  imports TopoDesc
begin

text \<open>
  Server selection (\<open>src/src/mongoc/mongoc-topology-description.c\<close>, the filters of
  \<open>mongoc-server-description.c\<close> and \<open>mongoc-deprioritized-servers.c\<close>). The array of candidates is the list
  of its first \<open>candidates_len\<close> entries; a filter that rejects a server stores \<open>NULL\<close>, here \<open>None\<close>. The
  random number that picks one of the suitable servers is an argument. Arithmetic on times is that of
  \<open>int64_t\<close>; an overflow is a fault.
\<close>

section \<open>Read preferences\<close>

datatype read_mode =
    MONGOC_READ_PRIMARY | MONGOC_READ_SECONDARY | MONGOC_READ_PRIMARY_PREFERRED
  | MONGOC_READ_SECONDARY_PREFERRED | MONGOC_READ_NEAREST

record read_prefs =
  rp_mode :: read_mode
  rp_tags :: doc
  rp_max_staleness :: int
  rp_hedge :: doc

datatype ss_optype = MONGOC_SS_READ | MONGOC_SS_WRITE | MONGOC_SS_AGGREGATE_WITH_WRITE

definition read_prefs_get_mode :: "read_prefs option \<Rightarrow> read_mode" where
  "read_prefs_get_mode prefs = (case prefs of None \<Rightarrow> MONGOC_READ_PRIMARY | Some p \<Rightarrow> rp_mode p)"

section \<open>Arithmetic of 64 bits\<close>

definition int64_range :: "int \<Rightarrow> bool" where
  "int64_range x \<longleftrightarrow> - (2 ^ 63) \<le> x \<and> x < 2 ^ 63"

definition chk64 :: "int \<Rightarrow> int res" where
  "chk64 x = (if int64_range x then Inr x else Inl Overflow)"

section \<open>Candidates\<close>

type_synonym candidates = "server_desc option list"

definition server_is_candidate :: "server_type \<Rightarrow> read_mode \<Rightarrow> topo_type \<Rightarrow> bool" where
  "server_is_candidate desc_type mode topology_type = (case topology_type of
       MONGOC_TOPOLOGY_SINGLE \<Rightarrow> desc_type = MONGOC_SERVER_STANDALONE
     | MONGOC_TOPOLOGY_SHARDED \<Rightarrow> desc_type = MONGOC_SERVER_MONGOS
     | MONGOC_TOPOLOGY_LOAD_BALANCED \<Rightarrow> desc_type = MONGOC_SERVER_LOAD_BALANCER
     | MONGOC_TOPOLOGY_UNKNOWN \<Rightarrow> False
     | _ \<Rightarrow> (case mode of
           MONGOC_READ_PRIMARY \<Rightarrow> desc_type = MONGOC_SERVER_RS_PRIMARY
         | MONGOC_READ_SECONDARY \<Rightarrow> desc_type = MONGOC_SERVER_RS_SECONDARY
         | _ \<Rightarrow> desc_type = MONGOC_SERVER_RS_PRIMARY \<or> desc_type = MONGOC_SERVER_RS_SECONDARY))"

text \<open>The part of \<open>mongoc_suitable_data_t\<close> that changes; \<open>cap\<close> is the size of the array.\<close>

record suitable_data =
  sda_primary :: "server_desc option"
  sda_candidates :: candidates
  sda_has_secondary :: bool

definition suitable_data_init :: suitable_data where
  "suitable_data_init = \<lparr>sda_primary = None, sda_candidates = [], sda_has_secondary = False\<rparr>"

definition add_candidate :: "nat \<Rightarrow> server_desc \<Rightarrow> suitable_data \<Rightarrow> suitable_data res" where
  "add_candidate cap server data =
     (if length (sda_candidates data) < cap
      then Inr (data\<lparr>sda_candidates := sda_candidates data @ [Some server]\<rparr>) else Inl OutOfBounds)"

definition replica_set_read_suitable ::
    "nat \<Rightarrow> read_mode \<Rightarrow> topo_type \<Rightarrow> server_desc \<Rightarrow> suitable_data \<Rightarrow> (bool \<times> suitable_data) res" where
  "replica_set_read_suitable cap mode ty server data =
     (let data = (if sd_type server = MONGOC_SERVER_RS_PRIMARY then data\<lparr>sda_primary := Some server\<rparr> else data) in
      if server_is_candidate (sd_type server) mode ty then
        map_res (\<lambda>data. (True, data)) (add_candidate cap server
          (if sd_type server = MONGOC_SERVER_RS_SECONDARY then data\<lparr>sda_has_secondary := True\<rparr> else data))
      else Inr (True, data))"

definition servers_to_candidates :: "nat \<Rightarrow> server_desc \<Rightarrow> suitable_data \<Rightarrow> (bool \<times> suitable_data) res" where
  "servers_to_candidates cap server data = map_res (\<lambda>data. (True, data)) (add_candidate cap server data)"

section \<open>The filters\<close>

text \<open>The servers that are not rejected.\<close>

definition live :: "candidates \<Rightarrow> server_desc list" where
  "live cs = List.map_filter id cs"

text \<open>Servers to avoid: the set of their ids.\<close>

type_synonym deprioritized = "unit mongoc_set"

definition deprioritized_new :: deprioritized where
  "deprioritized_new = mongoc_set_new 1"

definition deprioritized_add :: "deprioritized \<Rightarrow> server_desc \<Rightarrow> deprioritized res" where
  "deprioritized_add ds sd = mongoc_set_add ds (sd_id sd) ()"

definition deprioritized_contains :: "deprioritized \<Rightarrow> server_desc \<Rightarrow> bool" where
  "deprioritized_contains ds sd \<longleftrightarrow> mongoc_set_get ds (sd_id sd) = Some ()"

fun filter_deprioritized :: "deprioritized \<Rightarrow> candidates \<Rightarrow> candidates res" where
  "filter_deprioritized ds [] = Inr []"
| "filter_deprioritized ds (c # cs) =
     (case c of
        None \<Rightarrow> Inl AssertFail
      | Some sd \<Rightarrow> map_res (\<lambda>rest. if \<not> deprioritized_contains ds sd then c # rest else rest) (filter_deprioritized ds cs))"

text \<open>The candidate at \<open>idx\<close> is replaced by the last one where it is no mongos.\<close>

function filter_mongos :: "read_mode \<Rightarrow> topo_type \<Rightarrow> candidates \<Rightarrow> nat \<Rightarrow> candidates res" where
  "filter_mongos mode ty cs idx =
     (if idx < length cs then
        case cs ! idx of
          None \<Rightarrow> Inl NullDeref
        | Some sd \<Rightarrow>
            if server_is_candidate (sd_type sd) mode ty then filter_mongos mode ty cs (idx + 1)
            else filter_mongos mode ty (butlast (cs[idx := last cs])) idx
      else Inr cs)"
  by pat_completeness auto
termination by (relation "measure (\<lambda>(mode, ty, cs, idx). length cs - idx)") auto

declare filter_mongos.simps [simp del]

text \<open>\<open>max_staleness\<close> and \<open>heartbeat\<close> are in microseconds.\<close>

fun stale_by_primary :: "server_desc \<Rightarrow> int \<Rightarrow> int \<Rightarrow> candidates \<Rightarrow> candidates res" where
  "stale_by_primary primary heartbeat max_staleness [] = Inr []"
| "stale_by_primary primary heartbeat max_staleness (c # cs) =
     bind_res
       (case c of
          None \<Rightarrow> Inr None
        | Some sd \<Rightarrow>
            if sd_type sd \<noteq> MONGOC_SERVER_RS_SECONDARY then Inr c
            else
              bind_res (chk64 (sd_last_write primary * 1000)) (\<lambda>p.
              bind_res (chk64 (sd_last_update sd - sd_last_update primary)) (\<lambda>d.
              bind_res (chk64 (p + d)) (\<lambda>x.
              bind_res (chk64 (sd_last_write sd * 1000)) (\<lambda>s.
              bind_res (chk64 (x - s)) (\<lambda>x.
              bind_res (chk64 (x + heartbeat)) (\<lambda>staleness.
                Inr (if staleness > max_staleness then None else c))))))))
       (\<lambda>c. map_res (\<lambda>cs. c # cs) (stale_by_primary primary heartbeat max_staleness cs))"

fun max_last_write :: "candidates \<Rightarrow> int \<Rightarrow> int res" where
  "max_last_write [] m = Inr m"
| "max_last_write (c # cs) m =
     (case c of
        None \<Rightarrow> max_last_write cs m
      | Some sd \<Rightarrow>
          if sd_type sd = MONGOC_SERVER_RS_SECONDARY
          then bind_res (chk64 (sd_last_write sd * 1000)) (\<lambda>s. max_last_write cs (max m s))
          else max_last_write cs m)"

fun stale_by_max :: "int \<Rightarrow> int \<Rightarrow> int \<Rightarrow> candidates \<Rightarrow> candidates res" where
  "stale_by_max max_date heartbeat max_staleness [] = Inr []"
| "stale_by_max max_date heartbeat max_staleness (c # cs) =
     bind_res
       (case c of
          None \<Rightarrow> Inr None
        | Some sd \<Rightarrow>
            if sd_type sd \<noteq> MONGOC_SERVER_RS_SECONDARY then Inr c
            else
              bind_res (chk64 (sd_last_write sd * 1000)) (\<lambda>s.
              bind_res (chk64 (max_date - s)) (\<lambda>x.
              bind_res (chk64 (x + heartbeat)) (\<lambda>staleness.
                Inr (if staleness > max_staleness then None else c)))))
       (\<lambda>c. map_res (\<lambda>cs. c # cs) (stale_by_max max_date heartbeat max_staleness cs))"

definition filter_stale :: "candidates \<Rightarrow> server_desc option \<Rightarrow> int \<Rightarrow> read_prefs option \<Rightarrow> candidates res" where
  "filter_stale sds primary heartbeat_ms prefs =
     (case prefs of
        None \<Rightarrow> Inr sds
      | Some p \<Rightarrow>
          if rp_max_staleness p = - 1 then Inr sds
          else
            bind_res (c_assert (rp_max_staleness p > 0)) (\<lambda>_.
            bind_res (chk64 (rp_max_staleness p * 1000 * 1000)) (\<lambda>max_staleness.
            bind_res (chk64 (heartbeat_ms * 1000)) (\<lambda>heartbeat.
              case primary of
                Some primary \<Rightarrow> stale_by_primary primary heartbeat max_staleness sds
              | None \<Rightarrow> bind_res (max_last_write sds 0) (\<lambda>m. stale_by_max m heartbeat max_staleness sds)))))"

text \<open>
  \<open>_match_tag_set\<close>: every pair of the tag set is a tag of the server with the same value. The lengths that
  \<open>bson_iter_utf8\<close> stores are compared first; \<open>memcmp\<close> of no bytes does not read.
\<close>

fun match_tag_set :: "nat \<Rightarrow> server_desc \<Rightarrow> bson_iter \<Rightarrow> bool res" where
  "match_tag_set 0 sd it = Inl NoFuel"
| "match_tag_set (Suc fuel) sd it =
     bind_res (bson_iter_next it) (\<lambda>(ok, it).
       if \<not> ok then Inr True
       else
         bind_res (bson_iter_key it) (\<lambda>tag.
         bind_res (bson_iter_utf8 it) (\<lambda>(val, val_len).
         bind_res (bson_iter_init_find (fst (sd_tags sd)) (snd (sd_tags sd)) tag) (\<lambda>(found, sd_it).
           if \<not> found then Inr False
           else
             bind_res (bson_iter_utf8 sd_it) (\<lambda>(server_val, sd_len).
               if sd_len \<noteq> val_len then Inr False
               else if val_len = 0 then match_tag_set fuel sd it
               else
                 bind_res (deref val) (\<lambda>a. bind_res (deref server_val) (\<lambda>b.
                 bind_res (c_memcmp a b val_len) (\<lambda>c.
                   if c \<noteq> 0 then Inr False else match_tag_set fuel sd it))))))))"

text \<open>One tag set against every candidate: \<open>sd_matched\<close>, where \<open>NULL\<close> keeps its entry.\<close>

fun match_all :: "bson_iter \<Rightarrow> candidates \<Rightarrow> bool list \<Rightarrow> bool list res" where
  "match_all it (c # cs) (m # ms) =
     bind_res
       (case c of
          None \<Rightarrow> Inr m
        | Some sd \<Rightarrow> bind_res (bson_iter_recurse it) (\<lambda>child. case child of
              None \<Rightarrow> Inl AssertFail
            | Some child \<Rightarrow> match_tag_set (Suc (it_len child)) sd child))
       (\<lambda>m. map_res (\<lambda>ms. m # ms) (match_all it cs ms))"
| "match_all it _ _ = Inr []"

definition keep_matched :: "candidates \<Rightarrow> bool list \<Rightarrow> candidates" where
  "keep_matched cs ms = map (\<lambda>(c, m). if m then c else None) (zip cs ms)"

definition any_found :: "candidates \<Rightarrow> bool list \<Rightarrow> bool" where
  "any_found cs ms \<longleftrightarrow> list_ex (\<lambda>(c, m). c \<noteq> None \<and> m) (zip cs ms)"

fun filter_tags_loop :: "nat \<Rightarrow> bson_iter \<Rightarrow> candidates \<Rightarrow> bool list \<Rightarrow> candidates res" where
  "filter_tags_loop 0 it cs ms = Inl NoFuel"
| "filter_tags_loop (Suc fuel) it cs ms =
     bind_res (bson_iter_next it) (\<lambda>(ok, it).
       if \<not> ok then Inr (keep_matched cs ms)
       else
         bind_res (match_all it cs ms) (\<lambda>ms.
           if any_found cs ms then Inr (keep_matched cs ms)
           else filter_tags_loop fuel it cs ms))"

definition filter_tags :: "candidates \<Rightarrow> read_prefs option \<Rightarrow> candidates res" where
  "filter_tags cs prefs =
     (case prefs of
        None \<Rightarrow> Inr cs
      | Some p \<Rightarrow>
          bind_res (bson_count_keys (fst (rp_tags p)) (snd (rp_tags p))) (\<lambda>n.
            if n = 0 then Inr cs
            else
              (case bson_iter_init (fst (rp_tags p)) (snd (rp_tags p)) of (_, it) \<Rightarrow>
                 filter_tags_loop (Suc (snd (rp_tags p))) it cs (replicate (length cs) False))))"

text \<open>\<open>[a, NULL, b, ...]\<close> becomes \<open>[a, b, ..., NULL, ...]\<close>, and the length that of the front.\<close>

function partition_loop :: "candidates \<Rightarrow> nat \<Rightarrow> nat \<Rightarrow> candidates \<times> nat" where
  "partition_loop cs iter ins =
     (if iter < length cs then
        if cs ! iter \<noteq> None then
          partition_loop (if cs ! iter \<noteq> cs ! ins then cs[ins := cs ! iter, iter := None] else cs) (iter + 1) (ins + 1)
        else partition_loop cs (iter + 1) ins
      else (cs, ins))"
  by pat_completeness auto
termination by (relation "measure (\<lambda>(cs, iter, ins). length cs - iter)") auto

declare partition_loop.simps [simp del]

definition partition_sort_candidates :: "candidates \<Rightarrow> candidates" where
  "partition_sort_candidates cs = (case partition_loop cs 0 0 of (cs, n) \<Rightarrow> take n cs)"

text \<open>The nearest round trip time, and whether there is a candidate at all.\<close>

fun nearest_rtt :: "candidates \<Rightarrow> int \<times> bool \<Rightarrow> int \<times> bool" where
  "nearest_rtt [] x = x"
| "nearest_rtt (c # cs) (nearest, found) =
     nearest_rtt cs (case c of None \<Rightarrow> (nearest, found) | Some sd \<Rightarrow> (min nearest (sd_rtt sd), True))"

definition filter_by_rtt :: "candidates \<Rightarrow> int \<Rightarrow> server_desc list \<Rightarrow> server_desc list res" where
  "filter_by_rtt cs threshold out =
     (case nearest_rtt cs (2 ^ 63 - 1, False) of (nearest, found) \<Rightarrow>
        if \<not> found then Inr out
        else map_res (\<lambda>limit. out @ filter (\<lambda>sd. sd_rtt sd \<le> limit) (live cs)) (chk64 (nearest + threshold)))"

section \<open>Questions about a topology\<close>

fun lowest_max_wire_loop :: "server_desc list \<Rightarrow> int \<Rightarrow> int" where
  "lowest_max_wire_loop [] ret = ret"
| "lowest_max_wire_loop (sd # sds) ret =
     lowest_max_wire_loop sds
       (if sd_type sd \<noteq> MONGOC_SERVER_UNKNOWN \<and> sd_type sd \<noteq> MONGOC_SERVER_POSSIBLE_PRIMARY
           \<and> sd_max_wire sd < ret then sd_max_wire sd else ret)"

definition lowest_max_wire_version :: "topo_desc \<Rightarrow> int" where
  "lowest_max_wire_version td = lowest_max_wire_loop (map snd (items (td_servers td))) (2 ^ 31 - 1)"

definition all_sds_have_write_date :: "topo_desc \<Rightarrow> bool" where
  "all_sds_have_write_date td \<longleftrightarrow>
     list_all (\<lambda>sd. \<not> (sd_last_write sd \<le> 0
       \<and> (sd_type sd = MONGOC_SERVER_RS_PRIMARY \<or> sd_type sd = MONGOC_SERVER_RS_SECONDARY)))
       (map snd (items (td_servers td)))"

definition has_data_node :: "topo_desc \<Rightarrow> bool" where
  "has_data_node td \<longleftrightarrow> list_ex is_data_node (map snd (items (td_servers td)))"

text \<open>The two ways in which \<open>maxStalenessSeconds\<close> is refused.\<close>

datatype staleness_error = Below_heartbeat int int | Below_smallest int

definition validate_max_staleness :: "topo_desc \<Rightarrow> int \<Rightarrow> staleness_error option res" where
  "validate_max_staleness td max_staleness_seconds =
     (if td_type td \<noteq> MONGOC_TOPOLOGY_RS_WITH_PRIMARY \<and> td_type td \<noteq> MONGOC_TOPOLOGY_RS_NO_PRIMARY then Inr None
      else
        bind_res (chk64 (max_staleness_seconds * 1000)) (\<lambda>ms.
        bind_res (chk64 (td_heartbeat td + 10 * 1000)) (\<lambda>least.
          if ms < least then Inr (Some (Below_heartbeat max_staleness_seconds (td_heartbeat td)))
          else if max_staleness_seconds < 90 then Inr (Some (Below_smallest max_staleness_seconds))
          else Inr None)))"

definition less_than_wire_version_13 :: "server_desc \<Rightarrow> bool \<Rightarrow> (bool \<times> bool) res" where
  "less_than_wire_version_13 sd any_too_old =
     Inr (if sd_type sd \<noteq> MONGOC_SERVER_UNKNOWN \<and> sd_max_wire sd < 13 then (False, True) else (True, any_too_old))"

definition must_use_primary :: "topo_desc \<Rightarrow> ss_optype \<Rightarrow> read_mode \<Rightarrow> bool res" where
  "must_use_primary td optype requested_read_mode =
     (if requested_read_mode = MONGOC_READ_PRIMARY then Inr True
      else case optype of
        MONGOC_SS_WRITE \<Rightarrow> Inr False
      | MONGOC_SS_READ \<Rightarrow> Inr False
      | MONGOC_SS_AGGREGATE_WITH_WRITE \<Rightarrow> mongoc_set_for_each (td_servers td) less_than_wire_version_13 False)"

section \<open>Suitable servers\<close>

text \<open>
  The filters give \<open>filter_is_done\<close> (\<open>True\<close>) or \<open>retry_without_deprioritization\<close> (\<open>False\<close>), and the array
  of suitable servers.
\<close>

definition filter_for_single ::
    "server_desc list \<Rightarrow> server_desc mongoc_set \<Rightarrow> read_mode \<Rightarrow> (bool \<times> server_desc list) res" where
  "filter_for_single out servers mode =
     bind_res (mongoc_set_get_item servers 0) (\<lambda>server.
       Inr (True, if server_is_candidate (sd_type server) mode MONGOC_TOPOLOGY_SINGLE then out @ [server] else out))"

definition deprioritize :: "deprioritized option \<Rightarrow> candidates \<Rightarrow> candidates res" where
  "deprioritize ds cs = (case ds of None \<Rightarrow> Inr cs | Some ds \<Rightarrow> filter_deprioritized ds cs)"

definition reject_not_secondary :: "candidates \<Rightarrow> candidates" where
  "reject_not_secondary = map (\<lambda>c. case c of
     None \<Rightarrow> None
   | Some sd \<Rightarrow> if sd_type sd \<noteq> MONGOC_SERVER_RS_SECONDARY then None else c)"

text \<open>
  The filters in their order, the same for the modes \<open>PRIMARY_PREFERRED\<close> and \<open>NEAREST\<close>; for \<open>SECONDARY\<close>,
  \<open>reject\<close> is \<open>reject_not_secondary\<close>.
\<close>

definition filter_candidates ::
    "(candidates \<Rightarrow> candidates) \<Rightarrow> server_desc list \<Rightarrow> int \<Rightarrow> deprioritized option \<Rightarrow> int \<Rightarrow> read_prefs option
       \<Rightarrow> server_desc option \<Rightarrow> candidates \<Rightarrow> (bool \<times> server_desc list) res" where
  "filter_candidates reject out heartbeat_ms ds threshold prefs primary cs =
     bind_res (deprioritize ds cs) (\<lambda>cs.
       if ds \<noteq> None \<and> cs = [] then Inr (False, out)
       else
         bind_res (filter_stale (reject cs) primary heartbeat_ms prefs) (\<lambda>cs.
         bind_res (filter_tags cs prefs) (\<lambda>cs.
           let cs = partition_sort_candidates cs in
           if ds \<noteq> None \<and> cs = [] then Inr (False, out)
           else map_res (\<lambda>out. (True, out)) (filter_by_rtt cs threshold out))))"

definition filter_read_mode_secondary ::
    "server_desc list \<Rightarrow> int \<Rightarrow> deprioritized option \<Rightarrow> int \<Rightarrow> read_prefs option \<Rightarrow> suitable_data
       \<Rightarrow> (bool \<times> server_desc list) res" where
  "filter_read_mode_secondary out heartbeat_ms ds threshold prefs data =
     filter_candidates reject_not_secondary out heartbeat_ms ds threshold prefs (sda_primary data) (sda_candidates data)"

definition filter_for_replica_set ::
    "topo_desc \<Rightarrow> ss_optype \<Rightarrow> read_mode \<Rightarrow> read_prefs option \<Rightarrow> deprioritized option \<Rightarrow> int
       \<Rightarrow> server_desc list \<Rightarrow> suitable_data \<Rightarrow> (bool \<times> server_desc list) res" where
  "filter_for_replica_set td optype mode prefs ds threshold out data =
     (let cap = length (items (td_servers td)) in
      if optype = MONGOC_SS_AGGREGATE_WITH_WRITE \<or> optype = MONGOC_SS_READ then
        bind_res (mongoc_set_for_each (td_servers td) (replica_set_read_suitable cap mode (td_type td)) data) (\<lambda>data.
          let primary_is_deprioritized = (case (sda_primary data, ds) of
                (Some primary, Some ds) \<Rightarrow> deprioritized_contains ds primary | _ \<Rightarrow> False) in
          case mode of
            MONGOC_READ_PRIMARY \<Rightarrow>
              Inr (True, case sda_primary data of Some primary \<Rightarrow> out @ [primary] | None \<Rightarrow> out)
          | MONGOC_READ_PRIMARY_PREFERRED \<Rightarrow>
              (case sda_primary data of
                 Some primary \<Rightarrow>
                   if \<not> primary_is_deprioritized then Inr (True, out @ [primary])
                   else filter_candidates id out (td_heartbeat td) ds threshold prefs (sda_primary data) (sda_candidates data)
               | None \<Rightarrow> filter_candidates id out (td_heartbeat td) ds threshold prefs (sda_primary data) (sda_candidates data))
          | MONGOC_READ_SECONDARY_PREFERRED \<Rightarrow>
              bind_res (mongoc_set_for_each (td_servers td)
                  (replica_set_read_suitable cap MONGOC_READ_SECONDARY (td_type td))
                  (data\<lparr>sda_primary := None, sda_has_secondary := False, sda_candidates := []\<rparr>)) (\<lambda>inner.
              bind_res (filter_read_mode_secondary out (td_heartbeat td) ds threshold prefs inner) (\<lambda>(_, out).
                if length out > 0 then Inr (True, out)
                else case sda_primary inner of
                    Some primary \<Rightarrow>
                      if \<not> primary_is_deprioritized then Inr (True, out @ [primary]) else Inr (ds = None, out)
                  | None \<Rightarrow> Inr (ds = None, out)))
          | MONGOC_READ_SECONDARY \<Rightarrow> filter_read_mode_secondary out (td_heartbeat td) ds threshold prefs data
          | MONGOC_READ_NEAREST \<Rightarrow>
              filter_candidates id out (td_heartbeat td) ds threshold prefs (sda_primary data) (sda_candidates data))
      else
        if td_type td \<noteq> MONGOC_TOPOLOGY_RS_WITH_PRIMARY then Inr (True, out)
        else
          bind_res (topology_has_primary td) (\<lambda>primary.
            Inr (True, case primary of Some primary \<Rightarrow> out @ [primary] | None \<Rightarrow> out)))"

definition filter_for_sharded_cluster ::
    "topo_desc \<Rightarrow> read_mode \<Rightarrow> deprioritized option \<Rightarrow> int \<Rightarrow> server_desc list \<Rightarrow> suitable_data
       \<Rightarrow> (bool \<times> server_desc list) res" where
  "filter_for_sharded_cluster td mode ds threshold out data =
     bind_res (mongoc_set_for_each (td_servers td) (servers_to_candidates (length (items (td_servers td)))) data) (\<lambda>data.
     bind_res (filter_mongos mode (td_type td) (sda_candidates data) 0) (\<lambda>cs.
     bind_res (deprioritize ds cs) (\<lambda>cs.
       if ds \<noteq> None \<and> cs = [] then Inr (False, out)
       else map_res (\<lambda>out. (True, out)) (filter_by_rtt cs threshold out))))"

definition filter_by_topology ::
    "topo_desc \<Rightarrow> ss_optype \<Rightarrow> read_mode \<Rightarrow> read_prefs option \<Rightarrow> deprioritized option \<Rightarrow> int
       \<Rightarrow> server_desc list \<Rightarrow> suitable_data \<Rightarrow> (bool \<times> server_desc list) res" where
  "filter_by_topology td optype mode prefs ds threshold out data =
     (case td_type td of
        MONGOC_TOPOLOGY_SINGLE \<Rightarrow> filter_for_single out (td_servers td) mode
      | MONGOC_TOPOLOGY_RS_NO_PRIMARY \<Rightarrow> filter_for_replica_set td optype mode prefs ds threshold out data
      | MONGOC_TOPOLOGY_RS_WITH_PRIMARY \<Rightarrow> filter_for_replica_set td optype mode prefs ds threshold out data
      | MONGOC_TOPOLOGY_SHARDED \<Rightarrow> filter_for_sharded_cluster td mode ds threshold out data
      | MONGOC_TOPOLOGY_LOAD_BALANCED \<Rightarrow>
          bind_res (c_assert (length (items (td_servers td)) = 1)) (\<lambda>_.
          bind_res (mongoc_set_get_item (td_servers td) 0) (\<lambda>server. Inr (True, out @ [server])))
      | MONGOC_TOPOLOGY_UNKNOWN \<Rightarrow>
          map_res (\<lambda>out. (True, out)) (filter_by_rtt (sda_candidates data) threshold out))"

text \<open>The array of suitable servers, and what is stored in \<open>must_use_primary\<close>, if anything is.\<close>

definition suitable_servers ::
    "ss_optype \<Rightarrow> topo_desc \<Rightarrow> read_prefs option \<Rightarrow> deprioritized option \<Rightarrow> int \<Rightarrow> (server_desc list \<times> bool option) res" where
  "suitable_servers optype td prefs ds threshold =
     (if length (items (td_servers td)) = 0 then Inr ([], None)
      else
        (let given = read_prefs_get_mode prefs in
         bind_res (must_use_primary td optype given) (\<lambda>override.
         let mode = (if override then MONGOC_READ_PRIMARY else given) in
         bind_res (filter_by_topology td optype mode prefs ds threshold [] suitable_data_init) (\<lambda>(ready, out).
           if \<not> ready then
             bind_res (c_assert (length out = 0)) (\<lambda>_.
             bind_res (filter_by_topology td optype mode prefs None threshold out suitable_data_init) (\<lambda>(_, out).
               Inr (out, Some override)))
           else Inr (out, Some override)))))"

text \<open>\<open>rand_n\<close> is the result of \<open>_mongoc_rand_simple\<close>, a value of \<open>int\<close> that is converted to \<open>size_t\<close>.\<close>

definition topology_select ::
    "topo_desc \<Rightarrow> ss_optype \<Rightarrow> read_prefs option \<Rightarrow> deprioritized option \<Rightarrow> int \<Rightarrow> int
       \<Rightarrow> (server_desc option \<times> bool option) res" where
  "topology_select td optype prefs ds threshold rand_n =
     (if td_type td = MONGOC_TOPOLOGY_SINGLE then
        bind_res (mongoc_set_get_item (td_servers td) 0) (\<lambda>sd.
          Inr (if sd_has_hello sd then Some sd else None,
               if optype = MONGOC_SS_AGGREGATE_WITH_WRITE \<and> sd_type sd \<noteq> MONGOC_SERVER_UNKNOWN \<and> sd_max_wire sd < 13
               then Some True else None))
      else
        bind_res (suitable_servers optype td prefs ds threshold) (\<lambda>(suitable, must_use).
          Inr (if length suitable \<noteq> 0 then Some (suitable ! (nat (rand_n mod 2 ^ 64) mod length suitable)) else None,
               must_use)))"

end
