(* ===== verification/SelectOk.thy ===== *)
theory SelectOk
  imports Select DocNest
begin

text \<open>
  What the filters of server selection keep. Between two of them the array of candidates holds no \<open>NULL\<close>:
  it is \<open>map Some sds\<close>, and each filter is described by the list \<open>sds\<close> that is left.
\<close>

section \<open>The array\<close>

lemma live_simps [simp]:
  "live [] = []"
  "live (None # cs) = live cs"
  "live (Some x # cs) = x # live cs"
  by (simp_all add: live_def List.map_filter_simps)

lemma live_Some [simp]: "live (map Some xs) = xs"
  by (induction xs) simp_all

text \<open>
  The loop of \<open>_partition_sort_candidates\<close>: before \<open>iter\<close> the array is the candidates found so far and then
  \<open>NULL\<close>s only.
\<close>

lemma partition_loop_keep:
  assumes "iter < length cs" and "cs ! iter = Some x"
  shows "partition_loop cs iter ins
    = partition_loop (if Some x \<noteq> cs ! ins then cs[ins := Some x, iter := None] else cs) (Suc iter) (Suc ins)"
  using assms by (subst partition_loop.simps) simp

lemma partition_loop_eq:
  "partition_loop (map Some xs @ replicate n None @ cs) (length xs + n) (length xs)
     = (map Some (xs @ live cs) @ replicate (n + length cs - length (live cs)) None,
        length xs + length (live cs))"
proof (induction cs arbitrary: xs n)
  case Nil
  then show ?case by (subst partition_loop.simps) simp
next
  case (Cons c cs)
  let ?arr = "map Some xs @ replicate n None @ c # cs"
  have at: "?arr ! (length xs + n) = c" by (simp add: nth_append)
  show ?case
  proof (cases c)
    case None
    have arr: "?arr = map Some xs @ replicate (Suc n) None @ cs"
      by (simp add: None replicate_append_same [symmetric])
    have "partition_loop ?arr (length xs + n) (length xs) = partition_loop ?arr (length xs + Suc n) (length xs)"
      by (subst partition_loop.simps) (simp add: None nth_append)
    then show ?thesis unfolding arr using Cons.IH [of xs "Suc n"] None by simp
  next
    case (Some x)
    have arr: "(if Some x \<noteq> ?arr ! length xs then ?arr[length xs := Some x, length xs + n := None] else ?arr)
        = map Some (xs @ [x]) @ replicate n None @ cs"
    proof (cases n)
      case 0
      then show ?thesis by (simp add: Some nth_append)
    next
      case (Suc m)
      have "?arr[length xs := Some x, length xs + n := None]
          = map Some xs @ (Some x # replicate m None @ c # cs)[Suc m := None]"
        by (simp add: list_update_append Suc Some)
      also have "(Some x # replicate m None @ c # cs)[Suc m := None] = Some x # replicate n None @ cs"
        by (simp add: list_update_append Suc replicate_append_same [symmetric])
      finally show ?thesis using Some Suc by (simp add: nth_append)
    qed
    have "partition_loop ?arr (length xs + n) (length xs)
        = partition_loop (map Some (xs @ [x]) @ replicate n None @ cs) (length (xs @ [x]) + n) (length (xs @ [x]))"
      using at by (subst partition_loop_keep [of _ _ x]) (simp_all only: arr, simp_all add: Some)
    then show ?thesis using Cons.IH [of "xs @ [x]" n] Some by simp
  qed
qed

lemma partition_sort_eq: "partition_sort_candidates cs = map Some (live cs)"
  using partition_loop_eq [of "[]" 0 cs] by (simp add: partition_sort_candidates_def)

lemma filter_deprioritized_eq:
  "filter_deprioritized ds (map Some xs) = Inr (map Some (filter (\<lambda>sd. \<not> deprioritized_contains ds sd) xs))"
  by (induction xs) auto

text \<open>The servers that are left when those to avoid are taken out.\<close>

definition preferred :: "deprioritized option \<Rightarrow> server_desc list \<Rightarrow> server_desc list" where
  "preferred ds xs = filter (\<lambda>sd. \<not> (case ds of None \<Rightarrow> False | Some ds \<Rightarrow> deprioritized_contains ds sd)) xs"

lemma preferred_None [simp]: "preferred None xs = xs"
  by (simp add: preferred_def)

lemma deprioritize_eq: "deprioritize ds (map Some xs) = Inr (map Some (preferred ds xs))"
  by (cases ds) (simp_all add: deprioritize_def preferred_def filter_deprioritized_eq)

text \<open>Swap and pop: the result is a permutation of the mongos among the candidates.\<close>

lemma filter_mongos_eq:
  assumes "list_all (\<lambda>sd. server_is_candidate (sd_type sd) mode ty) (take idx xs)"
  shows "\<exists>ys. filter_mongos mode ty (map Some xs) idx = Inr (map Some ys)
    \<and> mset ys = filter_mset (\<lambda>sd. server_is_candidate (sd_type sd) mode ty) (mset xs)"
  using assms
proof (induction "length xs - idx" arbitrary: xs idx rule: less_induct)
  case less
  let ?P = "\<lambda>sd. server_is_candidate (sd_type sd) mode ty"
  show ?case
  proof (cases "idx < length xs")
    case False
    then have "\<forall>sd\<in>set xs. ?P sd" using less.prems by (simp add: list_all_iff)
    then have "filter ?P xs = xs" by simp
    then show ?thesis using False by (subst filter_mongos.simps) (auto simp flip: mset_filter)
  next
    case True
    show ?thesis
    proof (cases "?P (xs ! idx)")
      case P: True
      have "list_all ?P (take (idx + 1) xs)" using less.prems True P by (simp add: take_Suc_conv_app_nth)
      then show ?thesis using True P less.hyps [of xs "idx + 1"] by (subst filter_mongos.simps) simp
    next
      case P: False
      let ?ys = "butlast (xs[idx := last xs])"
      have ne: "xs \<noteq> []" using True by auto
      have arr: "butlast ((map Some xs)[idx := last (map Some xs)]) = map Some ?ys"
        using ne by (simp add: last_map map_update map_butlast)
      have tk: "take idx ?ys = take idx xs" using True by (simp add: take_butlast)
      have ms: "filter_mset ?P (mset ?ys) = filter_mset ?P (mset xs)"
      proof (cases "idx = length xs - 1")
        case True
        then have "xs = butlast xs @ [xs ! idx]" using ne by (metis One_nat_def append_butlast_last_id last_conv_nth)
        moreover have "?ys = butlast xs" using True ne by (simp add: butlast_list_update)
        ultimately show ?thesis using P by (metis mset_append filter_mset_add_mset filter_union_mset
            mset_single_iff_right add.right_neutral filter_empty_mset mset.simps)
      next
        case False
        then have "idx < length (butlast xs)" using True by simp
        then have "mset ?ys = add_mset (last xs) (mset (butlast xs) - {# butlast xs ! idx #})"
          using False ne by (simp add: butlast_list_update mset_update)
        moreover have "mset xs = add_mset (last xs) (mset (butlast xs))"
          using ne by (metis append_butlast_last_id mset_append mset.simps add_mset_add_single)
        moreover have "butlast xs ! idx = xs ! idx" "xs ! idx \<in># mset (butlast xs)"
          using \<open>idx < length (butlast xs)\<close> nth_mem [of idx "butlast xs"] by (simp_all add: nth_butlast)
        ultimately show ?thesis using P by (auto dest!: multi_member_split)
      qed
      show ?thesis
        using True P less.hyps [of ?ys idx] less.prems tk ms arr by (subst filter_mongos.simps) simp
    qed
  qed
qed

section \<open>Collecting the candidates\<close>

fun primary_in :: "server_desc list \<Rightarrow> server_desc option" where
  "primary_in [] = None"
| "primary_in (sd # sds) = (case primary_in sds of
     None \<Rightarrow> if sd_type sd = MONGOC_SERVER_RS_PRIMARY then Some sd else None
   | Some p \<Rightarrow> Some p)"

lemma primary_in_Some:
  "primary_in sds = Some p \<Longrightarrow> p \<in> set sds \<and> sd_type p = MONGOC_SERVER_RS_PRIMARY"
  by (induction sds) (auto split: option.splits if_splits)

lemma primary_in_None: "primary_in sds = None \<longleftrightarrow> (\<forall>sd\<in>set sds. sd_type sd \<noteq> MONGOC_SERVER_RS_PRIMARY)"
  by (induction sds) (auto split: option.splits)

lemma collect_step:
  assumes "length (sda_candidates data) < cap"
  shows "\<exists>data1. replica_set_read_suitable cap mode ty sd data = Inr (True, data1)
    \<and> sda_candidates data1 = sda_candidates data
        @ (if server_is_candidate (sd_type sd) mode ty then [Some sd] else [])
    \<and> sda_primary data1 = (if sd_type sd = MONGOC_SERVER_RS_PRIMARY then Some sd else sda_primary data)"
  using assms
  by (cases "server_is_candidate (sd_type sd) mode ty"; cases "sd_type sd = MONGOC_SERVER_RS_SECONDARY";
      cases "sd_type sd = MONGOC_SERVER_RS_PRIMARY")
    (simp_all add: replica_set_read_suitable_def add_candidate_def)

lemma collect_loop:
  assumes "length (sda_candidates data) + length sds \<le> cap"
  shows "\<exists>data'. for_each_loop (\<lambda>_. replica_set_read_suitable cap mode ty) i sds data = Inr data'
    \<and> sda_candidates data' = sda_candidates data @ map Some (filter (\<lambda>sd. server_is_candidate (sd_type sd) mode ty) sds)
    \<and> sda_primary data' = (case primary_in sds of None \<Rightarrow> sda_primary data | p \<Rightarrow> p)"
  using assms
proof (induction sds arbitrary: i data)
  case Nil
  then show ?case by simp
next
  case (Cons sd sds)
  have "length (sda_candidates data) < cap" using Cons.prems by simp
  from collect_step [OF this, of mode ty sd] obtain data1
    where step: "replica_set_read_suitable cap mode ty sd data = Inr (True, data1)"
      and cs: "sda_candidates data1 = sda_candidates data
        @ (if server_is_candidate (sd_type sd) mode ty then [Some sd] else [])"
      and pr: "sda_primary data1 = (if sd_type sd = MONGOC_SERVER_RS_PRIMARY then Some sd else sda_primary data)"
    by blast
  have "length (sda_candidates data1) + length sds \<le> cap" using Cons.prems cs by auto
  from Cons.IH [OF this, of "Suc i"] show ?case
    by (auto simp: step cs pr split: option.splits)
qed

lemma collect_read_suitable:
  assumes "length (items servers) < 2 ^ 32" and "sda_candidates data = []"
  shows "\<exists>data'. mongoc_set_for_each servers (replica_set_read_suitable (length (items servers)) mode ty) data = Inr data'
    \<and> sda_candidates data' = map Some (filter (\<lambda>sd. server_is_candidate (sd_type sd) mode ty) (map snd (items servers)))
    \<and> sda_primary data' = (case primary_in (map snd (items servers)) of None \<Rightarrow> sda_primary data | p \<Rightarrow> p)"
  using collect_loop [of data "map snd (items servers)" "length (items servers)" mode ty 0] assms
  by (simp add: mongoc_set_for_each_def mongoc_set_for_each_with_id_def)

lemma collect_all:
  assumes "length (items servers) < 2 ^ 32" and "sda_candidates data = []"
  shows "\<exists>data'. mongoc_set_for_each servers (servers_to_candidates (length (items servers))) data = Inr data'
    \<and> sda_candidates data' = map Some (map snd (items servers))"
proof -
  have "length (sda_candidates data) + length sds \<le> cap \<Longrightarrow>
    \<exists>data'. for_each_loop (\<lambda>_. servers_to_candidates cap) i sds data = Inr data'
      \<and> sda_candidates data' = sda_candidates data @ map Some sds" for cap i sds
  proof (induction sds arbitrary: i data)
    case (Cons sd sds)
    from Cons.IH [of "data\<lparr>sda_candidates := sda_candidates data @ [Some sd]\<rparr>" "Suc i"] Cons.prems
    show ?case by (simp add: servers_to_candidates_def add_candidate_def)
  qed simp
  from this [of "map snd (items servers)" "length (items servers)" 0] show ?thesis
    using assms by (simp add: mongoc_set_for_each_def mongoc_set_for_each_with_id_def)
qed

section \<open>The latency window\<close>

definition latency_window :: "int \<Rightarrow> server_desc list \<Rightarrow> server_desc list" where
  "latency_window threshold xs = filter (\<lambda>sd. \<forall>y\<in>set xs. sd_rtt sd \<le> sd_rtt y + threshold) xs"

lemma nearest_rtt_eq: "nearest_rtt (map Some xs) (m, found) = (fold (\<lambda>sd m. min m (sd_rtt sd)) xs m, found \<or> xs \<noteq> [])"
  by (induction xs arbitrary: m found) auto

lemma fold_min_rtt:
  "fold (\<lambda>sd m. min m (sd_rtt sd)) xs m \<le> m"
  "sd \<in> set xs \<Longrightarrow> fold (\<lambda>sd m. min m (sd_rtt sd)) xs m \<le> sd_rtt sd"
  "fold (\<lambda>sd m. min m (sd_rtt sd)) xs m = m \<or> (\<exists>sd\<in>set xs. fold (\<lambda>sd m. min m (sd_rtt sd)) xs m = sd_rtt sd)"
proof -
  show le: "fold (\<lambda>sd m. min m (sd_rtt sd)) xs m \<le> m" for xs m
    by (induction xs arbitrary: m) (auto intro: order_trans [OF _ min.cobounded1])
  show "sd \<in> set xs \<Longrightarrow> fold (\<lambda>sd m. min m (sd_rtt sd)) xs m \<le> sd_rtt sd"
  proof (induction xs arbitrary: m)
    case (Cons x xs)
    then show ?case using le [of xs "min m (sd_rtt x)"] by auto
  qed simp
  show "fold (\<lambda>sd m. min m (sd_rtt sd)) xs m = m \<or> (\<exists>sd\<in>set xs. fold (\<lambda>sd m. min m (sd_rtt sd)) xs m = sd_rtt sd)"
  proof (induction xs arbitrary: m)
    case (Cons x xs)
    from Cons.IH [of "min m (sd_rtt x)"] show ?case by (auto simp: min_def split: if_splits)
  qed simp
qed

text \<open>Round trip times and the threshold that do not overflow: about 146 million years of milliseconds.\<close>

definition rtt_ok :: "int \<Rightarrow> server_desc list \<Rightarrow> bool" where
  "rtt_ok threshold xs \<longleftrightarrow> 0 \<le> threshold \<and> threshold < 2 ^ 62 \<and> (\<forall>sd\<in>set xs. - 1 \<le> sd_rtt sd \<and> sd_rtt sd < 2 ^ 62)"

lemma rtt_ok_subset: "rtt_ok threshold xs \<Longrightarrow> set ys \<subseteq> set xs \<Longrightarrow> rtt_ok threshold ys"
  by (auto simp: rtt_ok_def)

lemma filter_by_rtt_eq:
  assumes "rtt_ok threshold xs"
  shows "filter_by_rtt (map Some xs) threshold out = Inr (out @ latency_window threshold xs)"
proof (cases "xs = []")
  case True
  then show ?thesis by (simp add: filter_by_rtt_def latency_window_def)
next
  case False
  define n where "n = fold (\<lambda>sd m. min m (sd_rtt sd)) xs 9223372036854775807"
  obtain sd0 where sd0: "sd0 \<in> set xs" using False by (cases xs) auto
  have le: "n \<le> sd_rtt sd" if "sd \<in> set xs" for sd
    using fold_min_rtt(2) [OF that] by (simp add: n_def)
  have "n \<noteq> 9223372036854775807" using le [OF sd0] assms sd0 by (auto simp: rtt_ok_def)
  then obtain sd1 where sd1: "sd1 \<in> set xs" "n = sd_rtt sd1"
    using fold_min_rtt(3) [of xs "9223372036854775807"] by (auto simp: n_def)
  have "chk64 (n + threshold) = Inr (n + threshold)"
    using assms sd1 by (auto simp: rtt_ok_def chk64_def int64_range_def)
  moreover have "filter (\<lambda>sd. sd_rtt sd \<le> n + threshold) xs = latency_window threshold xs"
    unfolding latency_window_def
  proof (rule filter_cong [OF refl])
    fix sd assume "sd \<in> set xs"
    show "sd_rtt sd \<le> n + threshold \<longleftrightarrow> (\<forall>y\<in>set xs. sd_rtt sd \<le> sd_rtt y + threshold)"
      using le sd1 by (meson add_right_mono order_trans)
  qed
  ultimately show ?thesis
    using False by (simp add: filter_by_rtt_def nearest_rtt_eq n_def [symmetric])
qed

lemma latency_window_nonempty:
  assumes "0 \<le> threshold" and "xs \<noteq> []"
  shows "latency_window threshold xs \<noteq> []"
proof -
  have "finite (sd_rtt ` set xs)" "sd_rtt ` set xs \<noteq> {}" using assms by auto
  then obtain sd where "sd \<in> set xs" "sd_rtt sd = Min (sd_rtt ` set xs)" by (metis Min_in imageE)
  moreover have "\<forall>y\<in>set xs. Min (sd_rtt ` set xs) \<le> sd_rtt y" by simp
  ultimately have "sd \<in> set (latency_window threshold xs)"
    using assms(1) by (force simp: latency_window_def intro: order_trans [OF _ add_increasing2])
  then show ?thesis by auto
qed

section \<open>Staleness\<close>

text \<open>The estimate of the specification, in microseconds and unbounded integers.\<close>

definition staleness :: "server_desc option \<Rightarrow> server_desc list \<Rightarrow> int \<Rightarrow> server_desc \<Rightarrow> int" where
  "staleness primary xs heartbeat_ms sd = (case primary of
     Some p \<Rightarrow> (sd_last_update sd - sd_last_write sd * 1000) - (sd_last_update p - sd_last_write p * 1000)
       + heartbeat_ms * 1000
   | None \<Rightarrow> Max (insert 0 ((\<lambda>y. sd_last_write y * 1000) ` {y\<in>set xs. sd_type y = MONGOC_SERVER_RS_SECONDARY}))
       - sd_last_write sd * 1000 + heartbeat_ms * 1000)"

definition fresh :: "read_prefs option \<Rightarrow> server_desc option \<Rightarrow> server_desc list \<Rightarrow> int \<Rightarrow> server_desc \<Rightarrow> bool" where
  "fresh prefs primary xs heartbeat_ms sd \<longleftrightarrow> (case prefs of None \<Rightarrow> True
     | Some p \<Rightarrow> rp_max_staleness p = - 1 \<or> sd_type sd \<noteq> MONGOC_SERVER_RS_SECONDARY
         \<or> staleness primary xs heartbeat_ms sd \<le> rp_max_staleness p * 1000000)"

text \<open>Dates up to the year 36812 and clocks up to the year 73000 keep the sums inside 64 bits.\<close>

definition dates_ok :: "int \<Rightarrow> server_desc list \<Rightarrow> bool" where
  "dates_ok heartbeat_ms xs \<longleftrightarrow> 0 \<le> heartbeat_ms \<and> heartbeat_ms < 2 ^ 50
     \<and> (\<forall>sd\<in>set xs. - 1 \<le> sd_last_write sd \<and> sd_last_write sd < 2 ^ 50
          \<and> - 1 \<le> sd_last_update sd \<and> sd_last_update sd < 2 ^ 61)"

definition prefs_ok :: "read_prefs option \<Rightarrow> bool" where
  "prefs_ok prefs \<longleftrightarrow> (case prefs of None \<Rightarrow> True
     | Some p \<Rightarrow> rp_max_staleness p = - 1 \<or> 0 < rp_max_staleness p \<and> rp_max_staleness p < 2 ^ 43)"

lemma chk64_ok: "- (2 ^ 63) \<le> x \<Longrightarrow> x < 2 ^ 63 \<Longrightarrow> chk64 x = Inr x"
  by (simp add: chk64_def int64_range_def)

definition keep_if :: "(server_desc \<Rightarrow> bool) \<Rightarrow> candidates \<Rightarrow> candidates" where
  "keep_if P = map (\<lambda>c. case c of None \<Rightarrow> None | Some sd \<Rightarrow> if P sd then c else None)"

lemma keep_if_live: "live (keep_if P cs) = filter P (live cs)"
  by (induction cs) (auto simp: keep_if_def split: option.splits)

lemma stale_by_primary_eq:
  assumes "dates_ok hb (p # live cs)"
  shows "stale_by_primary p (hb * 1000) m cs
    = Inr (keep_if (\<lambda>sd. sd_type sd \<noteq> MONGOC_SERVER_RS_SECONDARY \<or> staleness (Some p) xs hb sd \<le> m) cs)"
  using assms
proof (induction cs)
  case Nil
  then show ?case by (simp add: keep_if_def)
next
  case (Cons c cs)
  have IH: "stale_by_primary p (hb * 1000) m cs
    = Inr (keep_if (\<lambda>sd. sd_type sd \<noteq> MONGOC_SERVER_RS_SECONDARY \<or> staleness (Some p) xs hb sd \<le> m) cs)"
    using Cons.prems by (intro Cons.IH) (cases c, auto simp: dates_ok_def)
  show ?case
  proof (cases c)
    case None
    then show ?thesis by (simp add: IH keep_if_def)
  next
    case (Some sd)
    have "dates_ok hb [p, sd]" using Cons.prems by (simp add: Some dates_ok_def)
    then show ?thesis
      by (auto simp: Some IH keep_if_def staleness_def dates_ok_def chk64_ok algebra_simps)
  qed
qed

definition secondary_dates :: "server_desc list \<Rightarrow> int set" where
  "secondary_dates xs = (\<lambda>y. sd_last_write y * 1000) ` {y\<in>set xs. sd_type y = MONGOC_SERVER_RS_SECONDARY}"

lemma max_last_write_eq:
  assumes "dates_ok hb (live cs)"
  shows "max_last_write cs m = Inr (Max (insert m (secondary_dates (live cs))))"
  using assms
proof (induction cs arbitrary: m)
  case Nil
  then show ?case by (simp add: secondary_dates_def)
next
  case (Cons c cs)
  show ?case
  proof (cases c)
    case None
    then show ?thesis using Cons by simp
  next
    case (Some sd)
    let ?D = "secondary_dates (live cs)"
    have fin: "finite ?D" by (simp add: secondary_dates_def)
    have IH: "max_last_write cs m = Inr (Max (insert m ?D))" for m
      using Cons.prems by (intro Cons.IH) (simp add: Some dates_ok_def)
    have rng: "chk64 (sd_last_write sd * 1000) = Inr (sd_last_write sd * 1000)"
      using Cons.prems by (simp add: Some dates_ok_def chk64_ok)
    show ?thesis
    proof (cases "sd_type sd = MONGOC_SERVER_RS_SECONDARY")
      case True
      have "secondary_dates (sd # live cs) = insert (sd_last_write sd * 1000) ?D"
        using True by (auto simp: secondary_dates_def)
      moreover have "Max (insert (max m x) ?D) = Max (insert m (insert x ?D))" for x
        using fin by (cases "?D = {}") (simp_all add: Max_insert ac_simps)
      ultimately show ?thesis using True by (simp add: Some IH rng)
    next
      case False
      then have "secondary_dates (sd # live cs) = ?D"
        by (auto simp: secondary_dates_def)
      then show ?thesis using False by (simp add: Some IH)
    qed
  qed
qed

lemma stale_by_max_eq:
  assumes "dates_ok hb (live cs)" and "0 \<le> M" and "M < 2 ^ 60"
  shows "stale_by_max M (hb * 1000) m cs
    = Inr (keep_if (\<lambda>sd. sd_type sd \<noteq> MONGOC_SERVER_RS_SECONDARY \<or> M - sd_last_write sd * 1000 + hb * 1000 \<le> m) cs)"
  using assms(1)
proof (induction cs)
  case Nil
  then show ?case by (simp add: keep_if_def)
next
  case (Cons c cs)
  have IH: "stale_by_max M (hb * 1000) m cs
    = Inr (keep_if (\<lambda>sd. sd_type sd \<noteq> MONGOC_SERVER_RS_SECONDARY \<or> M - sd_last_write sd * 1000 + hb * 1000 \<le> m) cs)"
    using Cons.prems by (intro Cons.IH) (cases c, auto simp: dates_ok_def)
  show ?case
  proof (cases c)
    case None
    then show ?thesis by (simp add: IH keep_if_def)
  next
    case (Some sd)
    have "dates_ok hb [sd]" using Cons.prems by (simp add: Some dates_ok_def)
    then show ?thesis
      using assms(2,3) by (auto simp: Some IH keep_if_def dates_ok_def chk64_ok algebra_simps)
  qed
qed

lemma filter_stale_live:
  assumes "dates_ok hb (xs @ (case primary of None \<Rightarrow> [] | Some p \<Rightarrow> [p]))" and "prefs_ok prefs"
    and live: "live cs = xs"
  shows "\<exists>cs'. filter_stale cs primary hb prefs = Inr cs'
    \<and> live cs' = filter (fresh prefs primary xs hb) xs"
proof (cases "prefs = None \<or> rp_max_staleness (the prefs) = - 1")
  case True
  then show ?thesis using live by (auto simp: filter_stale_def fresh_def split: option.splits)
next
  case False
  then obtain p where p: "prefs = Some p" and ms: "0 < rp_max_staleness p" "rp_max_staleness p < 2 ^ 43"
    using assms(2) by (auto simp: prefs_ok_def)
  have ne: "rp_max_staleness p \<noteq> - 1" using ms by simp
  have chk: "chk64 (1000000 * rp_max_staleness p) = Inr (rp_max_staleness p * 1000000)"
    "chk64 (hb * 1000) = Inr (hb * 1000)"
    using ms assms(1) by (simp_all add: chk64_ok dates_ok_def)
  show ?thesis
  proof (cases primary)
    case (Some pr)
    have "dates_ok hb (pr # live cs)" using assms(1) by (auto simp: Some live dates_ok_def)
    from stale_by_primary_eq [OF this, of "rp_max_staleness p * 1000000" xs] show ?thesis
      using ms ne by (simp add: filter_stale_def p Some chk keep_if_live live fresh_def [abs_def])
  next
    case None
    have d: "dates_ok hb (live cs)" using assms(1) by (auto simp: None live dates_ok_def)
    let ?M = "Max (insert 0 (secondary_dates xs))"
    have fin: "finite (insert 0 (secondary_dates xs))" by (simp add: secondary_dates_def)
    have "?M < 2 ^ 60"
      using d live by (subst Max_less_iff [OF fin]) (auto simp: secondary_dates_def dates_ok_def)
    moreover have "0 \<le> ?M" using fin by (simp add: Max_ge)
    ultimately have "stale_by_max ?M (hb * 1000) (rp_max_staleness p * 1000000) cs = Inr (keep_if
        (\<lambda>sd. sd_type sd \<noteq> MONGOC_SERVER_RS_SECONDARY
          \<or> ?M - sd_last_write sd * 1000 + hb * 1000 \<le> rp_max_staleness p * 1000000) cs)"
      by (intro stale_by_max_eq d)
    then show ?thesis
      using ms ne by (simp add: filter_stale_def p None chk max_last_write_eq [OF d] keep_if_live live
          fresh_def [abs_def] staleness_def secondary_dates_def)
  qed
qed

end
