(* ===== verification/SelectTags.thy ===== *)
theory SelectTags
  imports SelectOk DocOps
begin

text \<open>
  Tag sets: \<open>_match_tag_set\<close> decides whether a server has every tag of a set, and
  \<open>mongoc_server_description_filter_tags\<close> keeps the servers that match the first set that any server matches.
\<close>

section \<open>One tag set\<close>

text \<open>The text of a value; a value that is no string counts as the empty one, as \<open>bson_iter_utf8\<close> has it.\<close>

definition tag_text :: "bson_iter \<Rightarrow> byte list" where
  "tag_text e = (case bson_iter_utf8 e of Inr (Some s, n) \<Rightarrow> take n s | _ \<Rightarrow> [])"

definition has_tag :: "server_desc \<Rightarrow> byte list \<Rightarrow> byte list \<Rightarrow> bool" where
  "has_tag sd key val \<longleftrightarrow>
     (case List.find (\<lambda>f. elem_key (fst (sd_tags sd)) f = key) (elements (iter_start (fst (sd_tags sd)) (snd (sd_tags sd)))) of
        None \<Rightarrow> False
      | Some f \<Rightarrow> tag_text f = val)"

text \<open>The pairs of a tag set, which an iterator stands before.\<close>

definition tag_pairs :: "bson_iter \<Rightarrow> (byte list \<times> byte list) list" where
  "tag_pairs it = (case it_raw it of None \<Rightarrow> [] | Some data \<Rightarrow> map (\<lambda>e. (elem_key data e, tag_text e)) (elements it))"

definition matches_set :: "bson_iter \<Rightarrow> server_desc \<Rightarrow> bool" where
  "matches_set it sd \<longleftrightarrow> (\<forall>(k, v) \<in> set (tag_pairs it). has_tag sd k v)"

lemma bson_iter_utf8_cases:
  assumes "on_element data t e"
  obtains (is_string) s n where "bson_iter_utf8 e = Inr (Some s, n)" "n \<le> length s" "tag_text e = take n s"
  | (other) "bson_iter_utf8 e = Inr (None, 0)" "tag_text e = []"
proof (cases "t = BSON_TYPE_UTF8")
  case True
  then have "string_at data e" using on_elementD(6) [OF assms] by simp
  from iter_string_ok [OF assms this] True is_string show ?thesis
    by (simp add: bson_iter_utf8_def tag_text_def str_ok_def)
next
  case False
  with other on_element_type [OF assms] show ?thesis
    by (simp add: bson_iter_utf8_def iter_string_def tag_text_def)
qed

lemma text_compare:
  assumes "on_element data t e" and "on_element data' t' f"
  shows "bind_res (bson_iter_utf8 e) (\<lambda>(val, val_len). bind_res (bson_iter_utf8 f) (\<lambda>(server_val, sd_len).
      if sd_len \<noteq> val_len then Inr False
      else if val_len = 0 then A
      else bind_res (deref val) (\<lambda>a. bind_res (deref server_val) (\<lambda>b. bind_res (c_memcmp a b val_len) (\<lambda>c.
        if c \<noteq> 0 then Inr False else A)))))
    = (if tag_text f = tag_text e then A else Inr False)"
  using assms
  by (cases rule: bson_iter_utf8_cases [OF assms(1)]; cases rule: bson_iter_utf8_cases [OF assms(2)])
    (auto simp: c_memcmp_def rd_range_def memcmp_sgn_eq_0 dest: arg_cong [where f = length])

lemma match_tag_set_eq:
  assumes "iter_ok it" and "doc_ok (sd_tags sd)" and "rounds it < fuel"
  shows "match_tag_set fuel sd it = Inr (matches_set it sd)"
  using assms
proof (induction arbitrary: fuel rule: iter_induct)
  case (stop it it')
  then obtain f where "fuel = Suc f" by (cases fuel) auto
  with stop show ?case by (simp add: matches_set_def tag_pairs_def elements_stop split: option.splits)
next
  case (step it it' data t)
  then obtain f where f: "fuel = Suc f" by (cases fuel) auto
  let ?D = "fst (sd_tags sd)" and ?n = "snd (sd_tags sd)" and ?k = "elem_key data it'"
  have raw: "it_raw it' = Some data" using step by (auto dest: on_elementD(1))
  have IH: "match_tag_set f sd it' = Inr (matches_set it' sd)" using step f by simp
  have pairs: "tag_pairs it = (?k, tag_text it') # tag_pairs it'"
    using step raw by (simp add: tag_pairs_def elements_step)
  note key = on_element_key(2-4) [OF step(4)]
  have tags: "iter_ok (iter_start ?D ?n)" "it_raw (iter_start ?D ?n) = Some ?D"
    using step.prems(1) by (simp_all add: doc_ok_def iter_ok_start, simp add: iter_start_def)
  have init: "bson_iter_init ?D ?n = (True, iter_start ?D ?n)"
    using step.prems(1) by (simp add: bson_iter_init_def doc_ok_def)
  from bson_iter_find_first [OF tags key(3), of "drop (it_d1 it') data"]
  have find: "found_first (\<lambda>g. elem_key ?D g = ?k) (elements (iter_start ?D ?n))
      (bson_iter_init_find ?D ?n (drop (it_key it') data))"
    by (simp add: key(2) bson_iter_init_find_def init)
  show ?case
  proof (cases "List.find (\<lambda>g. elem_key ?D g = ?k) (elements (iter_start ?D ?n))")
    case None
    with find obtain g where "bson_iter_init_find ?D ?n (drop (it_key it') data) = Inr (False, g)"
      by (auto simp: found_first_def)
    moreover obtain v where "bson_iter_utf8 it' = Inr v" by (cases rule: bson_iter_utf8_cases [OF step(4)]) auto
    ultimately show ?thesis
      using step f None key(1) by (auto simp: matches_set_def pairs has_tag_def split: prod.splits)
  next
    case (Some g)
    with find have g: "bson_iter_init_find ?D ?n (drop (it_key it') data) = Inr (True, g)"
      by (simp add: found_first_def)
    have "g \<in> set (elements (iter_start ?D ?n))" using Some by (auto simp: find_Some_iff)
    with elements_on_element [OF tags] obtain t' where on: "on_element ?D t' g" by blast
    have "match_tag_set fuel sd it = (if tag_text g = tag_text it' then match_tag_set f sd it' else Inr False)"
      using step key(1) f by (simp add: g flip: text_compare [OF step(4) on])
    then show ?thesis using Some by (simp add: IH matches_set_def pairs has_tag_def)
  qed
qed

section \<open>The first set that a server matches\<close>

definition child_iter :: "byte list \<Rightarrow> bson_iter \<Rightarrow> bson_iter" where
  "child_iter data e = iter_start (drop (it_d1 e) data) (u32_at data (it_d1 e))"

text \<open>The tag sets of a read preference, an array of documents.\<close>

definition tag_sets :: "doc \<Rightarrow> bson_iter list" where
  "tag_sets tags = map (child_iter (fst tags)) (elements (iter_start (fst tags) (snd tags)))"

definition all_containers :: "byte list \<Rightarrow> bson_iter list \<Rightarrow> bool" where
  "all_containers data es \<longleftrightarrow>
     (\<forall>e\<in>set es. data ! it_type e = type_byte BSON_TYPE_DOCUMENT \<or> data ! it_type e = type_byte BSON_TYPE_ARRAY)"

definition tag_sets_ok :: "doc \<Rightarrow> bool" where
  "tag_sets_ok tags \<longleftrightarrow> doc_ok tags \<and> all_containers (fst tags) (elements (iter_start (fst tags) (snd tags)))"

definition first_matching :: "bson_iter list \<Rightarrow> server_desc list \<Rightarrow> server_desc list" where
  "first_matching sets xs = (case List.find (\<lambda>s. list_ex (matches_set s) xs) sets of
     None \<Rightarrow> []
   | Some s \<Rightarrow> filter (matches_set s) xs)"

definition tagged :: "read_prefs option \<Rightarrow> server_desc list \<Rightarrow> server_desc list" where
  "tagged prefs xs = (case prefs of
     None \<Rightarrow> xs
   | Some p \<Rightarrow> if tag_sets (rp_tags p) = [] then xs else first_matching (tag_sets (rp_tags p)) xs)"

lemma tagged_subset: "set (tagged prefs xs) \<subseteq> set xs"
  by (auto simp: tagged_def first_matching_def split: option.splits if_splits)

definition set_matched :: "bson_iter \<Rightarrow> candidates \<Rightarrow> bool list" where
  "set_matched s = map (\<lambda>c. case c of None \<Rightarrow> False | Some sd \<Rightarrow> matches_set s sd)"

lemma match_all_eq:
  assumes "bson_iter_recurse it = Inr (Some s)" and "iter_ok s" and "\<forall>sd\<in>set (live cs). doc_ok (sd_tags sd)"
  shows "match_all it cs (replicate (length cs) False) = Inr (set_matched s cs)"
  using assms(3)
proof (induction cs)
  case Nil
  then show ?case by (simp add: set_matched_def)
next
  case (Cons c cs)
  have r: "rounds s < Suc (it_len s)" by (simp add: rounds_def)
  have IH: "match_all it cs (replicate (length cs) False) = Inr (set_matched s cs)"
    using Cons by (cases c) auto
  show ?case
  proof (cases c)
    case (Some sd)
    then have "doc_ok (sd_tags sd)" using Cons.prems by simp
    from match_tag_set_eq [OF assms(2) this r] show ?thesis
      using IH by (simp add: Some assms(1) set_matched_def del: match_tag_set.simps)
  qed (simp add: IH set_matched_def)
qed

lemma keep_matched_live: "live (keep_matched cs (set_matched s cs)) = filter (matches_set s) (live cs)"
  by (induction cs) (auto simp: keep_matched_def set_matched_def split: option.splits)

lemma any_matched: "any_found cs (set_matched s cs) \<longleftrightarrow> list_ex (matches_set s) (live cs)"
  unfolding any_found_def
proof (induction cs)
  case (Cons c cs)
  then show ?case by (cases c) (auto simp: set_matched_def)
qed (simp add: set_matched_def)

lemma none_matched: "\<not> list_ex (matches_set s) (live cs) \<Longrightarrow> set_matched s cs = replicate (length cs) False"
  by (induction cs) (auto simp: set_matched_def split: option.splits)

lemma keep_none: "live (keep_matched cs (replicate (length cs) False)) = []"
  by (induction cs) (auto simp: keep_matched_def)

lemma filter_tags_loop_live:
  assumes "iter_ok it" and "it_raw it = Some data" and "rounds it < fuel"
    and "all_containers data (elements it)" and "\<forall>sd\<in>set (live cs). doc_ok (sd_tags sd)"
  shows "\<exists>cs'. filter_tags_loop fuel it cs (replicate (length cs) False) = Inr cs'
    \<and> live cs' = first_matching (map (child_iter data) (elements it)) (live cs)"
  using assms(1-4)
proof (induction arbitrary: fuel rule: iter_induct)
  case (stop it it')
  then obtain f where "fuel = Suc f" by (cases fuel) auto
  with stop show ?case by (simp add: elements_stop first_matching_def keep_none)
next
  case (step it it' data' t)
  then obtain f where f: "fuel = Suc f" by (cases fuel) auto
  have D: "data' = data" and raw: "it_raw it' = Some data" using step by (auto dest: on_elementD(1))
  have on: "on_element data t it'" using step D by simp
  have es: "elements it = it' # elements it'" using step by (simp add: elements_step)
  have "t = BSON_TYPE_DOCUMENT \<or> t = BSON_TYPE_ARRAY"
    using step.prems(3) on by (auto simp: es all_containers_def on_element_def)
  note rec = bson_iter_recurse_ok(1,3) [OF on this, folded child_iter_def]
  note all = match_all_eq [OF rec assms(5)]
  show ?case
  proof (cases "list_ex (matches_set (child_iter data it')) (live cs)")
    case True
    then show ?thesis
      using step f all by (simp add: any_matched es first_matching_def keep_matched_live)
  next
    case False
    have "\<exists>cs'. filter_tags_loop f it' cs (replicate (length cs) False) = Inr cs'
        \<and> live cs' = first_matching (map (child_iter data) (elements it')) (live cs)"
      using step f raw by (intro step.IH) (simp_all add: es all_containers_def)
    moreover have "\<not> any_found cs (replicate (length cs) False)"
      using any_matched [of cs "child_iter data it'"] False by (simp add: none_matched)
    ultimately show ?thesis
      using False step f all by (simp add: none_matched es first_matching_def)
  qed
qed

lemma filter_tags_live:
  assumes "\<And>p. prefs = Some p \<Longrightarrow> tag_sets_ok (rp_tags p)" and "\<forall>sd\<in>set (live cs). doc_ok (sd_tags sd)"
  shows "\<exists>cs'. filter_tags cs prefs = Inr cs' \<and> live cs' = tagged prefs (live cs)"
proof (cases prefs)
  case None
  then show ?thesis by (simp add: filter_tags_def tagged_def)
next
  case (Some p)
  let ?D = "fst (rp_tags p)" and ?n = "snd (rp_tags p)"
  have ok: "tag_sets_ok (rp_tags p)" using assms(1) Some .
  then have n: "?n \<le> length ?D" "5 \<le> ?n" "?n \<le> INT_MAX" by (auto simp: tag_sets_ok_def doc_ok_def)
  have it: "iter_ok (iter_start ?D ?n)" "it_raw (iter_start ?D ?n) = Some ?D" "rounds (iter_start ?D ?n) < Suc ?n"
    using n by (simp_all add: iter_ok_start, simp_all add: rounds_def iter_start_def)
  have init: "bson_iter_init ?D ?n = (True, iter_start ?D ?n)" using n by (simp add: bson_iter_init_def)
  show ?thesis
    using filter_tags_loop_live [OF it _ assms(2)] ok
    by (auto simp: filter_tags_def Some bson_count_keys_ok [OF n] init tagged_def tag_sets_def tag_sets_ok_def
        simp del: filter_tags_loop.simps)
qed

end
