(* ===== verification/SelectSpec.thy ===== *)
theory SelectSpec
  imports SelectTags
begin

text \<open>
  The server selection algorithm on lists of servers, and that
  \<open>mongoc_topology_description_suitable_servers\<close> computes it: the filters of the code, its early returns and
  its second run without the servers to avoid give the latency window of the eligible servers.
\<close>

section \<open>The algorithm\<close>

abbreviation is_secondary :: "server_desc \<Rightarrow> bool" where
  "is_secondary sd \<equiv> sd_type sd = MONGOC_SERVER_RS_SECONDARY"

definition acceptable ::
    "(server_desc \<Rightarrow> bool) \<Rightarrow> read_prefs option \<Rightarrow> server_desc option \<Rightarrow> int \<Rightarrow> server_desc list \<Rightarrow> server_desc list" where
  "acceptable P prefs primary heartbeat_ms xs =
     (let ys = filter P xs in tagged prefs (filter (fresh prefs primary ys heartbeat_ms) ys))"

definition eligible_rs ::
    "read_mode \<Rightarrow> read_prefs option \<Rightarrow> int \<Rightarrow> server_desc list \<Rightarrow> deprioritized option \<Rightarrow> server_desc list" where
  "eligible_rs mode prefs heartbeat_ms sds ds =
     (let primary = primary_in sds;
          the_primary = (case primary of None \<Rightarrow> [] | Some p \<Rightarrow> [p]);
          members = filter (\<lambda>sd. sd_type sd = MONGOC_SERVER_RS_PRIMARY \<or> is_secondary sd) sds;
          nearest = acceptable (\<lambda>_. True) prefs primary heartbeat_ms (preferred ds members);
          secondaries = acceptable is_secondary prefs primary heartbeat_ms (preferred ds (filter is_secondary sds)) in
      case mode of
        MONGOC_READ_PRIMARY \<Rightarrow> the_primary
      | MONGOC_READ_PRIMARY_PREFERRED \<Rightarrow> if preferred ds the_primary \<noteq> [] then the_primary else nearest
      | MONGOC_READ_SECONDARY_PREFERRED \<Rightarrow> if secondaries \<noteq> [] then secondaries else preferred ds the_primary
      | MONGOC_READ_SECONDARY \<Rightarrow> secondaries
      | MONGOC_READ_NEAREST \<Rightarrow> nearest)"

definition eligible ::
    "ss_optype \<Rightarrow> read_mode \<Rightarrow> topo_desc \<Rightarrow> read_prefs option \<Rightarrow> deprioritized option \<Rightarrow> server_desc list" where
  "eligible optype mode td prefs ds =
     (let sds = map snd (items (td_servers td)) in
      case td_type td of
        MONGOC_TOPOLOGY_UNKNOWN \<Rightarrow> []
      | MONGOC_TOPOLOGY_SINGLE \<Rightarrow> filter (\<lambda>sd. sd_type sd = MONGOC_SERVER_STANDALONE) (take 1 sds)
      | MONGOC_TOPOLOGY_LOAD_BALANCED \<Rightarrow> sds
      | MONGOC_TOPOLOGY_SHARDED \<Rightarrow> preferred ds (filter (\<lambda>sd. sd_type sd = MONGOC_SERVER_MONGOS) sds)
      | _ \<Rightarrow>
          if optype \<noteq> MONGOC_SS_WRITE then eligible_rs mode prefs (td_heartbeat td) sds ds
          else if td_type td = MONGOC_TOPOLOGY_RS_WITH_PRIMARY
          then (case List.find (\<lambda>sd. sd_type sd = MONGOC_SERVER_RS_PRIMARY \<or> sd_type sd = MONGOC_SERVER_STANDALONE) sds of
                  None \<Rightarrow> [] | Some p \<Rightarrow> [p])
          else [])"

text \<open>Servers to avoid are taken only when nothing else is eligible.\<close>

definition eligible_avoiding ::
    "ss_optype \<Rightarrow> read_mode \<Rightarrow> topo_desc \<Rightarrow> read_prefs option \<Rightarrow> deprioritized option \<Rightarrow> server_desc list" where
  "eligible_avoiding optype mode td prefs ds =
     (let es = eligible optype mode td prefs ds in if es = [] then eligible optype mode td prefs None else es)"

definition some_old_server :: "topo_desc \<Rightarrow> bool" where
  "some_old_server td \<longleftrightarrow>
     list_ex (\<lambda>sd. sd_type sd \<noteq> MONGOC_SERVER_UNKNOWN \<and> sd_max_wire sd < 13) (map snd (items (td_servers td)))"

definition overridden :: "ss_optype \<Rightarrow> topo_desc \<Rightarrow> read_prefs option \<Rightarrow> bool" where
  "overridden optype td prefs \<longleftrightarrow> read_prefs_get_mode prefs = MONGOC_READ_PRIMARY
     \<or> optype = MONGOC_SS_AGGREGATE_WITH_WRITE \<and> some_old_server td"

definition effective_mode :: "ss_optype \<Rightarrow> topo_desc \<Rightarrow> read_prefs option \<Rightarrow> read_mode" where
  "effective_mode optype td prefs =
     (if overridden optype td prefs then MONGOC_READ_PRIMARY else read_prefs_get_mode prefs)"

text \<open>What the code relies on: numbers that do not overflow, tag documents, one server when load balanced.\<close>

definition selection_ok :: "topo_desc \<Rightarrow> read_prefs option \<Rightarrow> int \<Rightarrow> bool" where
  "selection_ok td prefs threshold \<longleftrightarrow>
     (let sds = map snd (items (td_servers td)) in
      length sds < 2 ^ 32 \<and> dates_ok (td_heartbeat td) sds \<and> rtt_ok threshold sds \<and> prefs_ok prefs
      \<and> (\<forall>sd\<in>set sds. doc_ok (sd_tags sd))
      \<and> (case prefs of None \<Rightarrow> True | Some p \<Rightarrow> tag_sets_ok (rp_tags p))
      \<and> (td_type td = MONGOC_TOPOLOGY_LOAD_BALANCED \<longrightarrow> length sds \<le> 1))"

section \<open>The filters in a row\<close>

lemma acceptable_subset: "set (acceptable P prefs primary hb xs) \<subseteq> {x\<in>set xs. P x}"
  using tagged_subset by (fastforce simp: acceptable_def Let_def)

lemma acceptable_Nil [simp]: "acceptable P prefs primary hb [] = []"
  using acceptable_subset [of P prefs primary hb "[]"] by auto

lemma preferred_subset: "set (preferred ds xs) \<subseteq> set xs"
  by (auto simp: preferred_def)

lemma filter_candidates_eq:
  assumes ok: "dates_ok hb (xs @ (case primary of None \<Rightarrow> [] | Some p \<Rightarrow> [p]))" "rtt_ok threshold xs" "prefs_ok prefs"
      "\<forall>sd\<in>set xs. doc_ok (sd_tags sd)" "\<And>p. prefs = Some p \<Longrightarrow> tag_sets_ok (rp_tags p)"
    and reject: "\<And>ys. live (reject (map Some ys)) = filter P ys"
  shows "filter_candidates reject out hb ds threshold prefs primary (map Some xs)
    = (let ys = acceptable P prefs primary hb (preferred ds xs) in
       Inr (if ds \<noteq> None \<and> ys = [] then (False, out) else (True, out @ latency_window threshold ys)))"
proof -
  let ?xs = "preferred ds xs" and ?ys = "acceptable P prefs primary hb (preferred ds xs)"
  let ?zs = "filter P ?xs"
  have sub: "set ?zs \<subseteq> set xs" using preferred_subset by fastforce
  have "dates_ok hb (?zs @ (case primary of None \<Rightarrow> [] | Some p \<Rightarrow> [p]))"
    using ok(1) sub by (auto simp: dates_ok_def)
  from filter_stale_live [OF this ok(3) reject] obtain c1
    where c1: "filter_stale (reject (map Some ?xs)) primary hb prefs = Inr c1"
      "live c1 = filter (fresh prefs primary ?zs hb) ?zs" by blast
  have "\<forall>sd\<in>set (live c1). doc_ok (sd_tags sd)" using ok(4) sub by (auto simp: c1)
  from filter_tags_live [OF ok(5) this] obtain c2
    where c2: "filter_tags c1 prefs = Inr c2" "live c2 = ?ys"
    by (auto simp: c1 acceptable_def Let_def)
  have "set ?ys \<subseteq> set xs" using acceptable_subset [of P prefs primary hb ?xs] preferred_subset by fastforce
  then have rtt: "filter_by_rtt (map Some ?ys) threshold out = Inr (out @ latency_window threshold ?ys)"
    by (intro filter_by_rtt_eq rtt_ok_subset [OF ok(2)])
  show ?thesis
  proof (cases "?xs = []")
    case True
    then show ?thesis using c1 c2 rtt
      by (cases ds) (simp_all add: filter_candidates_def partition_sort_eq deprioritize_def filter_deprioritized_eq preferred_def)
  next
    case False
    then show ?thesis using c1 c2 rtt
      by (simp add: filter_candidates_def deprioritize_eq partition_sort_eq Let_def)
  qed
qed

lemma reject_live: "live (reject_not_secondary (map Some ys)) = filter is_secondary ys"
  by (induction ys) (simp_all add: reject_not_secondary_def)


lemma latency_window_single [simp]: "0 \<le> threshold \<Longrightarrow> latency_window threshold [x] = [x]"
  by (simp add: latency_window_def)

lemma latency_window_Nil [simp]: "latency_window threshold [] = []"
  by (simp add: latency_window_def)

lemma latency_window_eq_Nil: "0 \<le> threshold \<Longrightarrow> latency_window threshold xs = [] \<longleftrightarrow> xs = []"
  using latency_window_nonempty by auto

lemma mset_latency_window:
  assumes "mset xs = mset ys"
  shows "mset (latency_window threshold xs) = mset (latency_window threshold ys)"
proof -
  have "set xs = set ys" by (rule mset_eq_setD [OF assms])
  then show ?thesis unfolding latency_window_def mset_filter assms by simp
qed

lemma candidate_rs [simp]:
  assumes "ty = MONGOC_TOPOLOGY_RS_NO_PRIMARY \<or> ty = MONGOC_TOPOLOGY_RS_WITH_PRIMARY"
  shows "server_is_candidate t MONGOC_READ_SECONDARY ty \<longleftrightarrow> t = MONGOC_SERVER_RS_SECONDARY"
    and "mode \<noteq> MONGOC_READ_PRIMARY \<Longrightarrow> mode \<noteq> MONGOC_READ_SECONDARY \<Longrightarrow>
      server_is_candidate t mode ty \<longleftrightarrow> t = MONGOC_SERVER_RS_PRIMARY \<or> t = MONGOC_SERVER_RS_SECONDARY"
  by (cases mode; use assms in \<open>auto simp: server_is_candidate_def\<close>)+

text \<open>
  One run of the filters, with the servers that are eligible when \<open>ds\<close> is avoided (\<open>es\<close>) and when none is
  (\<open>all\<close>): it asks for another only when \<open>es\<close> is empty, and always when it is and \<open>all\<close> is not.
\<close>

definition one_run ::
    "deprioritized option \<Rightarrow> int \<Rightarrow> server_desc list \<Rightarrow> server_desc list \<Rightarrow> (bool \<times> server_desc list) res \<Rightarrow> bool" where
  "one_run ds threshold all es r \<longleftrightarrow> (\<exists>ready out. r = Inr (ready, out) \<and> mset out = mset (latency_window threshold es)
     \<and> (ds = None \<longrightarrow> ready) \<and> (if ready then es = [] \<longrightarrow> all = [] else es = []))"

lemma dates_ok_subset: "dates_ok hb xs \<Longrightarrow> set ys \<subseteq> set xs \<Longrightarrow> dates_ok hb ys"
  by (auto simp: dates_ok_def)

lemma selection_okD:
  assumes "selection_ok td prefs threshold" and "set xs \<subseteq> set (map snd (items (td_servers td)))"
  shows "dates_ok (td_heartbeat td) (xs @ (case primary_in (map snd (items (td_servers td))) of None \<Rightarrow> [] | Some p \<Rightarrow> [p]))"
    and "rtt_ok threshold xs" and "prefs_ok prefs" and "\<forall>sd\<in>set xs. doc_ok (sd_tags sd)"
    and "\<And>p. prefs = Some p \<Longrightarrow> tag_sets_ok (rp_tags p)" and "0 \<le> threshold"
proof -
  let ?sds = "map snd (items (td_servers td))"
  have ok: "dates_ok (td_heartbeat td) ?sds" "rtt_ok threshold ?sds" "prefs_ok prefs" "\<forall>sd\<in>set ?sds. doc_ok (sd_tags sd)"
    using assms(1) by (simp_all add: selection_ok_def Let_def)
  have "set (case primary_in ?sds of None \<Rightarrow> [] | Some p \<Rightarrow> [p]) \<subseteq> set ?sds"
    using primary_in_Some [of ?sds] by (cases "primary_in ?sds") simp_all
  then show "dates_ok (td_heartbeat td) (xs @ (case primary_in ?sds of None \<Rightarrow> [] | Some p \<Rightarrow> [p]))"
    using assms(2) by (intro dates_ok_subset [OF ok(1)]) simp
  show "rtt_ok threshold xs" using rtt_ok_subset [OF ok(2) assms(2)] .
  show "prefs_ok prefs" by fact
  show "\<forall>sd\<in>set xs. doc_ok (sd_tags sd)" using ok(4) assms(2) by blast
  show "0 \<le> threshold" using ok(2) by (simp add: rtt_ok_def)
  show "\<And>p. prefs = Some p \<Longrightarrow> tag_sets_ok (rp_tags p)" using assms(1) by (simp add: selection_ok_def Let_def)
qed


lemma one_run_Inr:
  "one_run ds threshold all es (Inr (ready, out)) \<longleftrightarrow> mset out = mset (latency_window threshold es)
     \<and> (ds = None \<longrightarrow> ready) \<and> (if ready then es = [] \<longrightarrow> all = [] else es = [])"
  by (simp add: one_run_def)

lemma preferred_Nil [simp]: "preferred ds [] = []"
  by (simp add: preferred_def)

lemma preferred_primary:
  "preferred ds [p] = (if (case ds of None \<Rightarrow> False | Some ds \<Rightarrow> deprioritized_contains ds p) then [] else [p])"
  by (simp add: preferred_def)

lemma has_primary_loop:
  "for_each_loop (\<lambda>_ server primary. Inr (if P server then (False, Some server) else (True, primary))) i sds None
     = Inr (List.find P sds)"
  by (induction sds arbitrary: i) auto

lemma topology_has_primary_eq:
  assumes "length (items (td_servers td)) < 2 ^ 32"
  shows "topology_has_primary td = Inr (List.find (\<lambda>sd. sd_type sd = MONGOC_SERVER_RS_PRIMARY
    \<or> sd_type sd = MONGOC_SERVER_STANDALONE) (map snd (items (td_servers td))))"
  using assms by (simp add: topology_has_primary_def mongoc_set_for_each_def mongoc_set_for_each_with_id_def
      has_primary_loop)

lemma replica_set_run:
  assumes ok: "selection_ok td prefs threshold"
    and rs: "td_type td = MONGOC_TOPOLOGY_RS_NO_PRIMARY \<or> td_type td = MONGOC_TOPOLOGY_RS_WITH_PRIMARY"
  shows "one_run ds threshold (eligible optype mode td prefs None) (eligible optype mode td prefs ds)
    (filter_for_replica_set td optype mode prefs ds threshold [] suitable_data_init)"
proof -
  let ?sds = "map snd (items (td_servers td))" and ?hb = "td_heartbeat td"
  let ?p = "primary_in (map snd (items (td_servers td)))"
  let ?members = "filter (\<lambda>sd. sd_type sd = MONGOC_SERVER_RS_PRIMARY \<or> is_secondary sd) ?sds"
  let ?secs = "filter is_secondary ?sds"
  have len: "length (items (td_servers td)) < 2 ^ 32" and thr: "0 \<le> threshold"
    using ok by (simp_all add: selection_ok_def Let_def rtt_ok_def)
  have el: "eligible optype mode td prefs ds = eligible_rs mode prefs ?hb ?sds ds" if "optype \<noteq> MONGOC_SS_WRITE" for ds
    using rs that by (auto simp: eligible_def)
  have fc: "filter_candidates reject [] ?hb ds threshold prefs ?p (map Some xs)
    = (let ys = acceptable P prefs ?p ?hb (preferred ds xs) in
       Inr (if ds \<noteq> None \<and> ys = [] then (False, []) else (True, latency_window threshold ys)))"
    if "set xs \<subseteq> set ?sds" "\<And>ys. live (reject (map Some ys)) = filter P ys" for reject P xs
    using filter_candidates_eq [OF selection_okD(1-5) [OF ok that(1)] that(2), where out = "[]" and ds = ds]
    unfolding append_Nil .
  have near: "filter_candidates id [] ?hb ds threshold prefs ?p (map Some ?members)
    = (let ys = acceptable (\<lambda>_. True) prefs ?p ?hb (preferred ds ?members) in
       Inr (if ds \<noteq> None \<and> ys = [] then (False, []) else (True, latency_window threshold ys)))"
    by (rule fc) auto
  have sec: "filter_candidates reject_not_secondary [] ?hb ds threshold prefs ?p (map Some ?secs)
    = (let ys = acceptable is_secondary prefs ?p ?hb (preferred ds ?secs) in
       Inr (if ds \<noteq> None \<and> ys = [] then (False, []) else (True, latency_window threshold ys)))"
    by (rule fc) (auto simp: reject_live)
  have init: "sda_candidates suitable_data_init = []" "sda_primary suitable_data_init = None"
    by (simp_all add: suitable_data_init_def)
  obtain data where data: "mongoc_set_for_each (td_servers td)
        (replica_set_read_suitable (length (items (td_servers td))) mode (td_type td)) suitable_data_init = Inr data"
      "sda_candidates data = map Some (filter (\<lambda>sd. server_is_candidate (sd_type sd) mode (td_type td)) ?sds)"
      "sda_primary data = ?p"
    using collect_read_suitable [OF len init(1), of mode "td_type td"] by (auto simp: init split: option.splits)
  obtain inner where inner: "mongoc_set_for_each (td_servers td)
        (replica_set_read_suitable (length (items (td_servers td))) MONGOC_READ_SECONDARY (td_type td))
        (data\<lparr>sda_primary := None, sda_has_secondary := False, sda_candidates := []\<rparr>) = Inr inner"
      "sda_candidates inner = map Some ?secs" "sda_primary inner = ?p"
    using collect_read_suitable [OF len, of "data\<lparr>sda_primary := None, sda_has_secondary := False, sda_candidates := []\<rparr>"
        MONGOC_READ_SECONDARY "td_type td"] rs
    by (auto split: option.splits)
  show ?thesis
  proof (cases "optype = MONGOC_SS_WRITE")
    case True
    then show ?thesis using rs thr
      by (auto simp: filter_for_replica_set_def Let_def topology_has_primary_eq [OF len] eligible_def one_run_Inr
          split: option.split)
  next
    case False
    then have op: "optype = MONGOC_SS_AGGREGATE_WITH_WRITE \<or> optype = MONGOC_SS_READ" by (cases optype) auto
    note run = filter_for_replica_set_def Let_def eligible_rs_def one_run_Inr
    note facts = op data(1,3) el [OF False] thr
    show ?thesis
    proof (cases mode)
      case MONGOC_READ_PRIMARY
      with facts show ?thesis by (cases ?p) (simp_all add: run)
    next
      case MONGOC_READ_SECONDARY
      then have "sda_candidates data = map Some ?secs" using rs by (simp add: data(2))
      with facts sec MONGOC_READ_SECONDARY show ?thesis by (simp add: run filter_read_mode_secondary_def)
    next
      case MONGOC_READ_PRIMARY_PREFERRED
      then have "sda_candidates data = map Some ?members" using rs by (simp add: data(2))
      with facts near MONGOC_READ_PRIMARY_PREFERRED show ?thesis
        by (cases ?p; cases ds) (simp_all add: run preferred_primary)
    next
      case MONGOC_READ_SECONDARY_PREFERRED
      with facts sec show ?thesis
        by (cases ?p; cases ds)
          (simp_all add: run inner filter_read_mode_secondary_def preferred_primary latency_window_eq_Nil)
    next
      case MONGOC_READ_NEAREST
      then have "sda_candidates data = map Some ?members" using rs by (simp add: data(2))
      with facts near MONGOC_READ_NEAREST show ?thesis by (simp add: run)
    qed
  qed
qed

lemma sharded_run:
  assumes ok: "selection_ok td prefs threshold" and ty: "td_type td = MONGOC_TOPOLOGY_SHARDED"
  shows "one_run ds threshold (eligible optype mode td prefs None) (eligible optype mode td prefs ds)
    (filter_for_sharded_cluster td mode ds threshold [] suitable_data_init)"
proof -
  let ?sds = "map snd (items (td_servers td))"
  let ?P = "\<lambda>sd. sd_type sd = MONGOC_SERVER_MONGOS"
  have len: "length (items (td_servers td)) < 2 ^ 32"
    using ok by (simp add: selection_ok_def Let_def)
  have el: "eligible optype mode td prefs ds = preferred ds (filter ?P ?sds)" for ds using ty by (simp add: eligible_def)
  have init: "sda_candidates suitable_data_init = []" by (simp add: suitable_data_init_def)
  obtain data where data: "mongoc_set_for_each (td_servers td)
      (servers_to_candidates (length (items (td_servers td)))) suitable_data_init = Inr data"
      "sda_candidates data = map Some ?sds"
    using collect_all [OF len init] by blast
  obtain ys where ys: "filter_mongos mode MONGOC_TOPOLOGY_SHARDED (map Some ?sds) 0 = Inr (map Some ys)"
      "mset ys = filter_mset ?P (mset ?sds)"
    using filter_mongos_eq [of mode MONGOC_TOPOLOGY_SHARDED 0 ?sds] by (auto simp: server_is_candidate_def)
  have pm: "mset (preferred ds ys) = mset (preferred ds (filter ?P ?sds))"
    by (simp only: preferred_def mset_filter ys(2))
  have sub: "set (preferred ds ys) \<subseteq> set ?sds"
    using mset_eq_setD [OF pm] preferred_subset [of ds "filter ?P ?sds"] by auto
  note rtt = filter_by_rtt_eq [OF selection_okD(2) [OF ok sub]]
  have Nil: "preferred ds ys = [] \<longleftrightarrow> preferred ds (filter ?P ?sds) = []"
    using pm by (metis mset_zero_iff)
  show ?thesis
    using rtt Nil mset_latency_window [OF pm, of threshold] ys(1)
    by (cases ds) (simp_all add: filter_for_sharded_cluster_def data ty deprioritize_eq el one_run_Inr)
qed

lemma single_run:
  assumes "td_type td = MONGOC_TOPOLOGY_SINGLE" and "items (td_servers td) \<noteq> []" and "0 \<le> threshold"
  shows "one_run ds threshold (eligible optype mode td prefs None) (eligible optype mode td prefs ds) (filter_for_single [] (td_servers td) mode)"
  using assms by (cases "items (td_servers td)")
    (auto simp: filter_for_single_def mongoc_set_get_item_def eligible_def server_is_candidate_def one_run_Inr)

lemma topology_run:
  assumes "selection_ok td prefs threshold" and "items (td_servers td) \<noteq> []"
  shows "one_run ds threshold (eligible optype mode td prefs None) (eligible optype mode td prefs ds)
    (filter_by_topology td optype mode prefs ds threshold [] suitable_data_init)"
proof -
  have thr: "0 \<le> threshold" using assms(1) by (simp add: selection_ok_def Let_def rtt_ok_def)
  show ?thesis
  proof (cases "td_type td")
    case MONGOC_TOPOLOGY_UNKNOWN
    then show ?thesis
      by (simp add: filter_by_topology_def suitable_data_init_def filter_by_rtt_def eligible_def one_run_Inr)
  next
    case MONGOC_TOPOLOGY_LOAD_BALANCED
    then have "length (items (td_servers td)) = 1"
      using assms by (cases "items (td_servers td)") (auto simp: selection_ok_def Let_def)
    then obtain k sd where "items (td_servers td) = [(k, sd)]" by (cases "items (td_servers td)") auto
    then show ?thesis using MONGOC_TOPOLOGY_LOAD_BALANCED thr
      by (simp add: filter_by_topology_def mongoc_set_get_item_def eligible_def one_run_Inr)
  next
    case MONGOC_TOPOLOGY_SINGLE
    then show ?thesis using single_run [OF _ assms(2) thr] by (simp add: filter_by_topology_def)
  next
    case MONGOC_TOPOLOGY_SHARDED
    then show ?thesis using sharded_run [OF assms(1)] by (simp add: filter_by_topology_def)
  qed (use replica_set_run [OF assms(1)] in \<open>simp_all add: filter_by_topology_def\<close>)
qed

section \<open>The whole selection\<close>

lemma old_server_loop:
  "for_each_loop (\<lambda>_. less_than_wire_version_13) i sds found
     = Inr (found \<or> list_ex (\<lambda>sd. sd_type sd \<noteq> MONGOC_SERVER_UNKNOWN \<and> sd_max_wire sd < 13) sds)"
  by (induction sds arbitrary: i) (auto simp: less_than_wire_version_13_def)

lemma must_use_primary_eq:
  assumes "selection_ok td prefs threshold"
  shows "must_use_primary td optype (read_prefs_get_mode prefs) = Inr (overridden optype td prefs)"
  using assms by (cases optype) (simp_all add: must_use_primary_def overridden_def some_old_server_def
      mongoc_set_for_each_def mongoc_set_for_each_with_id_def old_server_loop selection_ok_def Let_def)

lemma suitable_servers_eq:
  assumes ok: "selection_ok td prefs threshold"
  shows "\<exists>out must_use. suitable_servers optype td prefs ds threshold = Inr (out, must_use)
    \<and> mset out = mset (latency_window threshold (eligible_avoiding optype (effective_mode optype td prefs) td prefs ds))
    \<and> must_use = (if items (td_servers td) = [] then None else Some (overridden optype td prefs))"
proof (cases "items (td_servers td) = []")
  case True
  then show ?thesis
    by (cases "td_type td"; cases "effective_mode optype td prefs")
      (simp_all add: suitable_servers_def eligible_avoiding_def eligible_def eligible_rs_def)
next
  case False
  let ?mode = "effective_mode optype td prefs"
  have mode: "(if overridden optype td prefs then MONGOC_READ_PRIMARY else read_prefs_get_mode prefs) = ?mode"
    by (simp add: effective_mode_def)
  from topology_run [OF ok False, of ds optype ?mode] obtain ready out
    where run1: "filter_by_topology td optype ?mode prefs ds threshold [] suitable_data_init = Inr (ready, out)"
      "mset out = mset (latency_window threshold (eligible optype ?mode td prefs ds))"
      "if ready then eligible optype ?mode td prefs ds = [] \<longrightarrow> eligible optype ?mode td prefs None = []
       else eligible optype ?mode td prefs ds = []"
    by (auto simp: one_run_def)
  from topology_run [OF ok False, of None optype ?mode] obtain ready' out'
    where run2: "filter_by_topology td optype ?mode prefs None threshold [] suitable_data_init = Inr (ready', out')"
      "mset out' = mset (latency_window threshold (eligible optype ?mode td prefs None))"
    by (auto simp: one_run_def)
  show ?thesis
  proof (cases ready)
    case True
    then show ?thesis
      using False run1 by (simp add: suitable_servers_def must_use_primary_eq [OF ok] mode eligible_avoiding_def Let_def)
  next
    case retry: False
    then have "out = []" using run1 by simp
    then show ?thesis
      using False retry run1 run2
      by (simp add: suitable_servers_def must_use_primary_eq [OF ok] mode eligible_avoiding_def)
  qed
qed

end
