(* ===== verification/SelectProps.thy ===== *)
theory SelectProps
  imports SelectSpec TopoProps
begin

text \<open>
  The properties of server selection: it computes the algorithm of the specification, finds a server whenever
  one is eligible, and takes one that is to be avoided only when nothing else is eligible. A demonstration with
  a replica set of a primary and two secondaries, one of them stale.
\<close>

section \<open>A demonstration\<close>

definition demo_member :: "nat \<Rightarrow> server_type \<Rightarrow> int \<Rightarrow> int \<Rightarrow> server_desc" where
  "demo_member k ty rtt last_write = sd_zero\<lparr>sd_id := k, sd_type := ty, sd_rtt := rtt, sd_last_write := last_write,
     sd_last_update := 0, sd_max_wire := 21, sd_tags := doc_empty\<rparr>"

definition demo_set :: topo_desc where
  "demo_set = (mongoc_topology_description_init mcommon_oid_zero 10000)\<lparr>td_type := MONGOC_TOPOLOGY_RS_WITH_PRIMARY,
     td_servers := \<lparr>items = [(1, demo_member 1 MONGOC_SERVER_RS_PRIMARY 30 1000000),
       (2, demo_member 2 MONGOC_SERVER_RS_SECONDARY 20 999000),
       (3, demo_member 3 MONGOC_SERVER_RS_SECONDARY 10 500000)], items_allocated = 8\<rparr>\<rparr>"

definition demo_prefs :: read_prefs where
  "demo_prefs = \<lparr>rp_mode = MONGOC_READ_NEAREST, rp_tags = doc_empty, rp_max_staleness = 120, rp_hedge = doc_empty\<rparr>"

text \<open>The nearest server is too stale; of the others, both are inside the window of 15 ms.\<close>

definition demo_avoid :: deprioritized where
  "demo_avoid = \<lparr>items = [(2, ())], items_allocated = 1\<rparr>"

lemma no_tags: "elements (iter_start (fst doc_empty) (snd doc_empty)) = []"
proof -
  have doc: "doc_of [] = [5, 0, 0, 0, 0]"
    by (simp add: doc_of_def doc_bytes_def mlib_write_u32le_def le_bytes_def upt_conv_Cons)
  have "length (doc_of []) \<le> INT_MAX" by (simp add: doc INT_MAX_def)
  with elements_doc_of [of "[]" "[]"] have "elements (iter_start (doc_of []) (length (doc_of []))) = []"
    by simp
  then show ?thesis by (simp add: doc doc_empty_def empty_doc_def eval_nat_numeral)
qed

lemma demo_ok: "selection_ok demo_set (Some demo_prefs) 15"
proof -
  have "doc_ok doc_empty" by simp
  moreover have "tag_sets_ok doc_empty" by (simp add: tag_sets_ok_def no_tags all_containers_def)
  ultimately show ?thesis
    by (simp add: selection_ok_def demo_set_def demo_prefs_def demo_member_def dates_ok_def rtt_ok_def prefs_ok_def Let_def
        mongoc_topology_description_init_def)
qed

lemma demo_member_sel [simp]:
  "sd_id (demo_member k ty rtt w) = k" "sd_type (demo_member k ty rtt w) = ty" "sd_rtt (demo_member k ty rtt w) = rtt"
  "sd_last_write (demo_member k ty rtt w) = w" "sd_last_update (demo_member k ty rtt w) = 0"
  by (simp_all add: demo_member_def)

abbreviation "demo_primary \<equiv> demo_member 1 MONGOC_SERVER_RS_PRIMARY 30 1000000"
abbreviation "demo_fresh \<equiv> demo_member 2 MONGOC_SERVER_RS_SECONDARY 20 999000"

lemma demo_eligible:
  "eligible MONGOC_SS_READ MONGOC_READ_NEAREST demo_set (Some demo_prefs) None = [demo_primary, demo_fresh]"
  "eligible MONGOC_SS_READ MONGOC_READ_NEAREST demo_set (Some demo_prefs) (Some demo_avoid) = [demo_primary]"
  by (simp_all add: eligible_def eligible_rs_def acceptable_def demo_set_def demo_prefs_def tagged_def
      tag_sets_def no_tags fresh_def staleness_def preferred_def deprioritized_contains_def demo_avoid_def mongoc_set_get_def
      bsearch_id.simps mongoc_topology_description_init_def)

lemma demo_mode [simp]:
  "effective_mode MONGOC_SS_READ demo_set (Some demo_prefs) = MONGOC_READ_NEAREST"
  "overridden MONGOC_SS_READ demo_set (Some demo_prefs) = False"
  "items (td_servers demo_set) \<noteq> []" "td_type demo_set = MONGOC_TOPOLOGY_RS_WITH_PRIMARY"
  by (simp_all add: effective_mode_def overridden_def read_prefs_get_mode_def demo_prefs_def demo_set_def)

lemma demo_avoiding:
  "eligible_avoiding MONGOC_SS_READ MONGOC_READ_NEAREST demo_set (Some demo_prefs) None = [demo_primary, demo_fresh]"
  "eligible_avoiding MONGOC_SS_READ MONGOC_READ_NEAREST demo_set (Some demo_prefs) (Some demo_avoid) = [demo_primary]"
  by (simp_all add: eligible_avoiding_def demo_eligible)







lemma select_eq:
  assumes ok: "selection_ok td prefs threshold" and ty: "td_type td \<noteq> MONGOC_TOPOLOGY_SINGLE"
  shows "\<exists>out must_use.
    mset out = mset (latency_window threshold (eligible_avoiding optype (effective_mode optype td prefs) td prefs ds))
    \<and> (\<forall>rand_n. topology_select td optype prefs ds threshold rand_n
         = Inr (if out = [] then None else Some (out ! (nat (rand_n mod 2 ^ 64) mod length out)), must_use))"
proof -
  obtain out must_use where "suitable_servers optype td prefs ds threshold = Inr (out, must_use)"
    "mset out = mset (latency_window threshold (eligible_avoiding optype (effective_mode optype td prefs) td prefs ds))"
    using suitable_servers_eq [OF ok] by blast
  with ty show ?thesis by (intro exI [of _ out] exI [of _ must_use]) (simp add: topology_select_def)
qed

section \<open>The properties\<close>

text \<open>C16: With numbers that do not overflow and tag sets that are documents, the suitable servers are,
  in some order, the latency window of the eligible servers of the specification, and the caller is told
  whether its read mode was replaced by primary.\<close>

theorem suitable_servers_spec:
  assumes "selection_ok td prefs threshold"
  shows "\<exists>out must_use. suitable_servers optype td prefs ds threshold = Inr (out, must_use)
    \<and> mset out = mset (latency_window threshold (eligible_avoiding optype (effective_mode optype td prefs) td prefs ds))
    \<and> must_use = (if items (td_servers td) = [] then None else Some (overridden optype td prefs))"
  by (rule suitable_servers_eq [OF assms])

theorem suitable_servers_spec_witness:
  "\<exists>out. suitable_servers MONGOC_SS_READ demo_set (Some demo_prefs) None 15 = Inr (out, Some False)
    \<and> mset out = {# demo_primary, demo_fresh #}"
  using suitable_servers_spec [OF demo_ok, of MONGOC_SS_READ None]
  by (simp add: demo_avoiding latency_window_def)



text \<open>C15: A server to avoid is selected for a read that may go to a secondary, or in a sharded cluster, only when
  every eligible server is one to avoid.\<close>

theorem selection_avoids:
  assumes "selection_ok td prefs threshold"
    and "td_type td = MONGOC_TOPOLOGY_SHARDED \<or> td_type td \<in> {MONGOC_TOPOLOGY_RS_NO_PRIMARY, MONGOC_TOPOLOGY_RS_WITH_PRIMARY}
      \<and> optype \<noteq> MONGOC_SS_WRITE \<and> effective_mode optype td prefs \<noteq> MONGOC_READ_PRIMARY"
    and "topology_select td optype prefs (Some ds) threshold rand_n = Inr (Some sd, must_use)"
    and "deprioritized_contains ds sd"
  shows "eligible optype (effective_mode optype td prefs) td prefs (Some ds) = []"
proof (rule ccontr)
  let ?mode = "effective_mode optype td prefs"
  let ?es = "eligible optype ?mode td prefs (Some ds)"
  assume "?es \<noteq> []"
  then have es: "eligible_avoiding optype ?mode td prefs (Some ds) = ?es" by (simp add: eligible_avoiding_def)
  have "td_type td \<noteq> MONGOC_TOPOLOGY_SINGLE" using assms(2) by auto
  from select_eq [OF assms(1) this, of optype "Some ds"] obtain out must_use' where
    out: "mset out = mset (latency_window threshold ?es)"
    and "topology_select td optype prefs (Some ds) threshold rand_n
      = Inr (if out = [] then None else Some (out ! (nat (rand_n mod 2 ^ 64) mod length out)), must_use')"
    by (auto simp: es)
  then have "sd \<in> set out" using assms(3) by (auto split: if_splits)
  then have "sd \<in> set (latency_window threshold ?es)" using mset_eq_setD [OF out] by simp
  then have sd: "sd \<in> set ?es" by (simp add: latency_window_def)
  have pref: "\<not> deprioritized_contains ds x" if "x \<in> set (preferred (Some ds) xs)" for x xs
    using that by (simp add: preferred_def)
  have acc: "\<not> deprioritized_contains ds x" if "x \<in> set (acceptable P prefs p hb (preferred (Some ds) xs))" for x P p hb xs
    using that acceptable_subset [of P prefs p hb] pref by fastforce
  have "\<not> deprioritized_contains ds sd"
    using sd assms(2) by (auto simp: eligible_def eligible_rs_def Let_def preferred_primary
        split: read_mode.splits option.splits if_splits dest: pref acc)
  with assms(4) show False by simp
qed

theorem selection_avoids_witness:
  "\<exists>sd must_use. topology_select demo_set MONGOC_SS_READ (Some demo_prefs) (Some demo_avoid) 15 7 = Inr (Some sd, must_use)
    \<and> \<not> deprioritized_contains demo_avoid sd"
proof -
  obtain sd must_use where sel:
    "topology_select demo_set MONGOC_SS_READ (Some demo_prefs) (Some demo_avoid) 15 7 = Inr (Some sd, must_use)"
    using select_eq [OF demo_ok, of MONGOC_SS_READ "Some demo_avoid"] by (auto simp: demo_avoiding latency_window_def)
  show ?thesis
    using selection_avoids [OF demo_ok _ sel] sel by (auto simp: demo_eligible)
qed

lemma write_run:
  assumes "length (items (td_servers td)) < 2 ^ 32" and "items (td_servers td) \<noteq> []"
    and "td_type td \<in> {MONGOC_TOPOLOGY_RS_NO_PRIMARY, MONGOC_TOPOLOGY_RS_WITH_PRIMARY}"
  shows "\<exists>must_use. suitable_servers MONGOC_SS_WRITE td prefs ds threshold
    = Inr (eligible MONGOC_SS_WRITE mode td prefs ds', must_use)"
proof -
  have "must_use_primary td MONGOC_SS_WRITE (read_prefs_get_mode prefs) = Inr (read_prefs_get_mode prefs = MONGOC_READ_PRIMARY)"
    by (simp add: must_use_primary_def)
  then show ?thesis
    using assms by (auto simp: suitable_servers_def filter_by_topology_def filter_for_replica_set_def Let_def
        topology_has_primary_eq eligible_def split: option.split)
qed

text \<open>C38: In every reachable view of a replica set, a write is sent to the primary: the only suitable server is
  the one server that says it is primary, and none is suitable where none says so.\<close>

theorem write_selects_primary:
  assumes "reachable env td" and "td_max_server_id td < 2 ^ 30"
    and "td_type td \<in> {MONGOC_TOPOLOGY_RS_NO_PRIMARY, MONGOC_TOPOLOGY_RS_WITH_PRIMARY}"
  shows "\<exists>out must_use. suitable_servers MONGOC_SS_WRITE td prefs ds threshold = Inr (out, must_use) \<and> length out \<le> 1
    \<and> (\<forall>sd. sd \<in> set out \<longleftrightarrow> (\<exists>k\<in>primaries td. mongoc_set_get (td_servers td) k = Some sd))"
proof (cases "items (td_servers td) = []")
  case True
  then show ?thesis by (simp add: suitable_servers_def servers_of_def)
next
  case False
  have inv: "servers_ok td" and roles: "roles_ok (td_type td) (primaries td) (standalones td)"
    using reachable_topo_inv [OF assms(1)] by (simp_all add: topo_inv_def)
  have set: "set_inv (td_servers td)" using inv by (simp add: servers_ok_def)
  have dist: "distinct (map fst (items (td_servers td)))" using set by (simp add: set_inv_def strict_sorted_iff)
  have "set (map fst (items (td_servers td))) \<subseteq> {0..td_max_server_id td}"
    using inv by (auto simp: servers_ok_def)
  from card_mono [OF _ this] have "length (items (td_servers td)) \<le> Suc (td_max_server_id td)"
    using distinct_card [OF dist] by simp
  then have len: "length (items (td_servers td)) < 2 ^ 32" using assms(2) by simp
  let ?es = "eligible MONGOC_SS_WRITE MONGOC_READ_PRIMARY td prefs ds"
  have unique: "(k, a) \<in> set (items (td_servers td)) \<Longrightarrow> (k, b) \<in> set (items (td_servers td)) \<Longrightarrow> a = b" for k a b
    using eq_key_imp_eq_value [OF dist] .
  have get: "mongoc_set_get (td_servers td) k = Some sd \<longleftrightarrow> (k, sd) \<in> set (items (td_servers td))" for k sd
    using dist by (simp add: mongoc_set_get_eq [OF set])
  have prim: "(\<exists>k\<in>primaries td. mongoc_set_get (td_servers td) k = Some sd)
      \<longleftrightarrow> (\<exists>k. (k, sd) \<in> set (items (td_servers td))) \<and> sd_type sd = MONGOC_SERVER_RS_PRIMARY" for sd
    using unique by (auto simp: get servers_of_def)
  have "length ?es \<le> 1
    \<and> (\<forall>sd. sd \<in> set ?es \<longleftrightarrow> (\<exists>k. (k, sd) \<in> set (items (td_servers td))) \<and> sd_type sd = MONGOC_SERVER_RS_PRIMARY)"
  proof (cases "td_type td = MONGOC_TOPOLOGY_RS_WITH_PRIMARY")
    case False
    then show ?thesis using assms(3) roles by (auto simp: eligible_def roles_ok_def servers_of_def)
  next
    case True
    let ?P = "\<lambda>sd. sd_type sd = MONGOC_SERVER_RS_PRIMARY \<or> sd_type sd = MONGOC_SERVER_STANDALONE"
    obtain n where n: "primaries td \<subseteq> {n}" "standalones td = {}" using roles True by (auto simp: roles_ok_def)
    then have one: "a = b" if "(k, a) \<in> set (items (td_servers td))" "sd_type a = MONGOC_SERVER_RS_PRIMARY"
        "(l, b) \<in> set (items (td_servers td))" "sd_type b = MONGOC_SERVER_RS_PRIMARY" for a b k l
    proof -
      have "k = n" "l = n" using n(1) that by (auto simp: servers_of_def)
      then show ?thesis using that unique by blast
    qed
    have P: "?P sd \<longleftrightarrow> sd_type sd = MONGOC_SERVER_RS_PRIMARY" if "(k, sd) \<in> set (items (td_servers td))" for k sd
      using that n(2) by (auto simp: servers_of_def)
    have es: "?es = (case List.find ?P (map snd (items (td_servers td))) of None \<Rightarrow> [] | Some p \<Rightarrow> [p])"
      using True by (simp add: eligible_def)
    show ?thesis
    proof (cases "List.find ?P (map snd (items (td_servers td)))")
      case None
      then have "?es = []" by (simp add: es)
      moreover have "\<not> ?P sd" if "(k, sd) \<in> set (items (td_servers td))" for k sd
        using None that by (fastforce simp: find_None_iff)
      ultimately show ?thesis by fastforce
    next
      case (Some p)
      then have "p \<in> set (map snd (items (td_servers td)))" "?P p" by (auto simp: find_Some_iff)
      then obtain k where k: "(k, p) \<in> set (items (td_servers td))" by auto
      moreover have "sd_type p = MONGOC_SERVER_RS_PRIMARY" using P [OF k] \<open>?P p\<close> by simp
      moreover have "?es = [p]" using Some by (simp add: es)
      ultimately show ?thesis using one by auto
    qed
  qed
  with write_run [OF len False assms(3), of prefs ds threshold MONGOC_READ_PRIMARY ds] show ?thesis
    by (auto simp: prim)
qed

theorem write_selects_primary_witness:
  "\<exists>td out must_use. td_type td = MONGOC_TOPOLOGY_RS_NO_PRIMARY
    \<and> suitable_servers MONGOC_SS_WRITE td None None 15 = Inr (out, must_use) \<and> length out \<le> 1"
proof -
  obtain td where td: "reachable demo_env td" "td_max_server_id td = 1" "td_type td = MONGOC_TOPOLOGY_RS_NO_PRIMARY"
    using demo_add by blast
  with write_selects_primary [OF td(1), of None None 15] show ?thesis by auto
qed

end
