(* ===== verification/Base64.thy ===== *)
theory Base64
  imports HostList
begin

text \<open>
  Base 64 (\<open>src/src/common/common-b64.c\<close>). The encoder writes \<open>target\<close> from its start, so its result is
  the list of the bytes written; \<open>None\<close> is the return value \<open>-1\<close>. The decoder updates bytes in place,
  so its target is an explicit memory.
\<close>

section \<open>The alphabet\<close>

definition base64_alphabet :: "byte list" where
  "base64_alphabet = str ''ABCDEFGHIJKLMNOPQRSTUVWXYZabcdefghijklmnopqrstuvwxyz0123456789+/''"

definition pad64 :: byte where
  "pad64 = 0x3D"

definition base64_at :: "byte \<Rightarrow> byte" where
  "base64_at v = base64_alphabet ! unat v"

definition bson_isspace :: "byte \<Rightarrow> bool" where
  "bson_isspace c \<longleftrightarrow> c = 0x20 \<or> 0x09 \<le> c \<and> c \<le> 0x0D"

fun index_of :: "'a \<Rightarrow> 'a list \<Rightarrow> nat option" where
  "index_of c [] = None"
| "index_of c (x # xs) = (if x = c then Some 0 else map_option Suc (index_of c xs))"

definition rmap_special :: byte where "rmap_special = 0xF0"
definition rmap_end :: byte where "rmap_end = 0xFD"
definition rmap_space :: byte where "rmap_space = 0xFE"
definition rmap_invalid :: byte where "rmap_invalid = 0xFF"

text \<open>The entry of \<open>mongoc_b64rmap\<close> that \<open>bson_b64_initialize_rmap\<close> leaves for a character.\<close>

definition b64_rmap :: "byte \<Rightarrow> byte" where
  "b64_rmap ch =
     (case index_of ch base64_alphabet of
        Some i \<Rightarrow> of_nat i
      | None \<Rightarrow>
          if ch = 0 then rmap_end
          else if bson_isspace ch then rmap_space
          else if ch = pad64 then rmap_end
          else rmap_invalid)"

section \<open>Encoding\<close>

definition sextet0 :: "byte \<Rightarrow> byte" where "sextet0 a = drop_bit 2 a"
definition sextet1 :: "byte \<Rightarrow> byte \<Rightarrow> byte" where "sextet1 a b = push_bit 4 (a AND 0x03) + drop_bit 4 b"
definition sextet2 :: "byte \<Rightarrow> byte \<Rightarrow> byte" where "sextet2 b c = push_bit 2 (b AND 0x0F) + drop_bit 6 c"
definition sextet3 :: "byte \<Rightarrow> byte" where "sextet3 c = c AND 0x3F"

fun ntop_loop :: "byte list \<Rightarrow> nat \<Rightarrow> byte list \<Rightarrow> byte list option res" where
  "ntop_loop (a # b # c # src) targsize target =
     bind_res (c_assert (sextet0 a < 64 \<and> sextet1 a b < 64 \<and> sextet2 b c < 64 \<and> sextet3 c < 64)) (\<lambda>_.
       if length target + 4 > targsize then Inr None
       else ntop_loop src targsize (target @ map base64_at [sextet0 a, sextet1 a b, sextet2 b c, sextet3 c]))"
| "ntop_loop src targsize target =
     (let a = (if src = [] then 0 else src ! 0); b = (if length src < 2 then 0 else src ! 1) in
      if src \<noteq> [] then
        bind_res (c_assert (sextet0 a < 64 \<and> sextet1 a b < 64 \<and> sextet2 b 0 < 64)) (\<lambda>_.
          if length target + 4 > targsize then Inr None
          else
            let target = target @ [base64_at (sextet0 a), base64_at (sextet1 a b),
                  if length src = 1 then pad64 else base64_at (sextet2 b 0), pad64] in
            Inr (if length target \<ge> targsize then None else Some (target @ [0])))
      else Inr (if length target \<ge> targsize then None else Some (target @ [0])))"

definition mcommon_b64_ntop :: "byte list \<Rightarrow> nat \<Rightarrow> byte list option res" where
  "mcommon_b64_ntop src targsize = ntop_loop src targsize []"

definition ntop_target_size :: "nat \<Rightarrow> nat" where
  "ntop_target_size raw_size = 4 * (((raw_size * 8 + 5) div 6 + 3) div 4) + 1"

section \<open>Decoding\<close>

definition wr_byte :: "byte list \<Rightarrow> nat \<Rightarrow> byte \<Rightarrow> byte list res" where
  "wr_byte m i v = (if i < length m then Inr (m[i := v]) else Inl OutOfBounds)"

text \<open>
  The loop over the characters. It stops at a character of the class \<open>rmap_end\<close>; the result is that
  character, what follows it, and the state.
\<close>

type_synonym pton_state = "byte list \<times> nat \<times> nat"

definition pton_put :: "byte \<Rightarrow> nat \<Rightarrow> pton_state \<Rightarrow> pton_state option res" where
  "pton_put ofs targsize x =
     (case x of (target, tarindex, state) \<Rightarrow>
        if state = 0 then
          if tarindex \<ge> targsize then Inr None
          else map_res (\<lambda>t. Some (t, tarindex, 1)) (wr_byte target tarindex (push_bit 2 ofs))
        else if state = 1 then
          if tarindex + 1 \<ge> targsize then Inr None
          else bind_res (rd8 target tarindex) (\<lambda>v. bind_res (wr_byte target tarindex (v OR drop_bit 4 ofs)) (\<lambda>t.
            map_res (\<lambda>t. Some (t, tarindex + 1, 2)) (wr_byte t (tarindex + 1) (push_bit 4 (ofs AND 0x0F)))))
        else if state = 2 then
          if tarindex + 1 \<ge> targsize then Inr None
          else bind_res (rd8 target tarindex) (\<lambda>v. bind_res (wr_byte target tarindex (v OR drop_bit 2 ofs)) (\<lambda>t.
            map_res (\<lambda>t. Some (t, tarindex + 1, 3)) (wr_byte t (tarindex + 1) (push_bit 6 (ofs AND 0x03)))))
        else
          if tarindex \<ge> targsize then Inr None
          else bind_res (rd8 target tarindex) (\<lambda>v.
            map_res (\<lambda>t. Some (t, tarindex + 1, 0)) (wr_byte target tarindex (v OR ofs))))"

fun pton_loop :: "byte list \<Rightarrow> nat \<Rightarrow> pton_state \<Rightarrow> (byte \<times> byte list \<times> pton_state) option res" where
  "pton_loop [] targsize x = Inl OutOfBounds"
| "pton_loop (ch # src) targsize x =
     (let ofs = b64_rmap ch in
      if ofs \<ge> rmap_special then
        if ofs = rmap_space then pton_loop src targsize x
        else if ofs = rmap_end then Inr (Some (ch, src, x))
        else Inr None
      else bind_res (pton_put ofs targsize x) (\<lambda>r. case r of
          None \<Rightarrow> Inr None
        | Some x \<Rightarrow> pton_loop src targsize x))"

text \<open>\<open>for (; ch != '\0'; ch = *src++) if (rmap[ch] != space) break;\<close>\<close>

fun skip_spaces :: "byte \<Rightarrow> byte list \<Rightarrow> (byte \<times> byte list) res" where
  "skip_spaces ch src =
     (if ch = 0 \<or> b64_rmap ch \<noteq> rmap_space then Inr (ch, src)
      else case src of [] \<Rightarrow> Inl OutOfBounds | c # src \<Rightarrow> skip_spaces c src)"

definition next_char :: "byte list \<Rightarrow> (byte \<times> byte list) res" where
  "next_char src = (case src of [] \<Rightarrow> Inl OutOfBounds | c # src \<Rightarrow> Inr (c, src))"

text \<open>
  The end of both decoders: \<open>True\<close> where the characters after the data are accepted. The second
  result says whether the bits that slopped past the last byte have to be zero.
\<close>

definition pton_tail :: "byte \<Rightarrow> byte list \<Rightarrow> nat \<Rightarrow> (bool \<times> bool) res" where
  "pton_tail ch src state =
     (if ch = pad64 then
        bind_res (next_char src) (\<lambda>(ch, src).
          if state = 0 \<or> state = 1 then Inr (False, False)
          else
            bind_res (if state = 2 then
                bind_res (skip_spaces ch src) (\<lambda>(ch, src).
                  if ch \<noteq> pad64 then Inr None else map_res Some (next_char src))
              else Inr (Some (ch, src))) (\<lambda>r. case r of
                None \<Rightarrow> Inr (False, False)
              | Some (ch, src) \<Rightarrow> map_res (\<lambda>(ch, _). (ch = 0, True)) (skip_spaces ch src)))
      else Inr (state = 0, False))"

text \<open>\<open>mongoc_b64_pton_do\<close>: the bytes of the target and the number of them that hold data.\<close>

definition mongoc_b64_pton_do :: "byte list \<Rightarrow> byte list \<Rightarrow> nat \<Rightarrow> (byte list \<times> nat) option res" where
  "mongoc_b64_pton_do src target targsize =
     bind_res (pton_loop src targsize (target, 0, 0)) (\<lambda>r. case r of
       None \<Rightarrow> Inr None
     | Some (ch, src, target, tarindex, state) \<Rightarrow>
         bind_res (pton_tail ch src state) (\<lambda>(ok, zero).
           if \<not> ok then Inr None
           else if zero then map_res (\<lambda>v. if v \<noteq> 0 then None else Some (target, tarindex)) (rd8 target tarindex)
           else Inr (Some (target, tarindex))))"

fun pton_len_loop :: "byte list \<Rightarrow> nat \<Rightarrow> nat \<Rightarrow> (byte \<times> byte list \<times> nat \<times> nat) option res" where
  "pton_len_loop [] tarindex state = Inl OutOfBounds"
| "pton_len_loop (ch # src) tarindex state =
     (let ofs = b64_rmap ch in
      if ofs \<ge> rmap_special then
        if ofs = rmap_space then pton_len_loop src tarindex state
        else if ofs = rmap_end then Inr (Some (ch, src, tarindex, state))
        else Inr None
      else if state = 0 then pton_len_loop src tarindex 1
      else if state = 1 then pton_len_loop src (tarindex + 1) 2
      else if state = 2 then pton_len_loop src (tarindex + 1) 3
      else pton_len_loop src (tarindex + 1) 0)"

definition mongoc_b64_pton_len :: "byte list \<Rightarrow> nat option res" where
  "mongoc_b64_pton_len src =
     bind_res (pton_len_loop src 0 0) (\<lambda>r. case r of
       None \<Rightarrow> Inr None
     | Some (ch, src, tarindex, state) \<Rightarrow>
         map_res (\<lambda>(ok, _). if ok then Some tarindex else None) (pton_tail ch src state))"

definition pton_target_size :: "nat \<Rightarrow> nat" where
  "pton_target_size encoded_size = encoded_size * 6 div 8"

end
