(* ===== verification/Base64Ok.thy ===== *)
theory Base64Ok
  imports Base64 ResLogic
begin

text \<open>
  The encoder writes the text of RFC 4648, in exactly the space that the size function says; the
  decoder gives the data back; and on any string the decoder stays inside the target and agrees with
  the one that only counts.
\<close>

section \<open>Groups of six bits\<close>

lemma masks: "(0x03 :: byte) = mask 2" "(0x0F :: byte) = mask 4" "(0x3F :: byte) = mask 6"
  by (simp_all add: mask_eq_exp_minus_1)

lemma plus_or: "sextet1 a b = push_bit 4 (a AND mask 2) OR drop_bit 4 b"
  "sextet2 b c = push_bit 2 (b AND mask 4) OR drop_bit 6 c"
proof -
  have "push_bit 4 (a AND mask 2) AND drop_bit 4 b = 0" "push_bit 2 (b AND mask 4) AND drop_bit 6 c = 0"
    by (rule bit_eqI; auto simp: bit_simps dest: bit_imp_le_length)+
  then show "sextet1 a b = push_bit 4 (a AND mask 2) OR drop_bit 4 b" "sextet2 b c = push_bit 2 (b AND mask 4) OR drop_bit 6 c"
    unfolding sextet1_def sextet2_def masks by (simp_all add: disjunctive_add_eq_or)
qed

lemma minus_plus: "Suc (Suc (n - 2)) = (if n < 2 then 2 else n)" "4 + (n - 4) = (if n < 4 then 4 else n)"
  "6 + (n - 6) = (if n < 6 then 6 else n)" for n :: nat
  by auto

lemma decode_sextets:
  "push_bit 2 (sextet0 a) OR drop_bit 4 (sextet1 a b) = a"
  "push_bit 4 (sextet1 a b AND 0x0F) OR drop_bit 2 (sextet2 b c) = b"
  "push_bit 6 (sextet2 b c AND 0x03) OR sextet3 c = c"
  "push_bit 4 (sextet1 a 0 AND 0x0F) = 0" "push_bit 6 (sextet2 b 0 AND 0x03) = 0"
  unfolding plus_or sextet0_def sextet3_def masks
  by (rule bit_eqI; auto simp: bit_simps minus_plus dest: bit_imp_le_length split: if_splits)+

lemma sextets_less: "sextet0 a < 64" "sextet1 a b < 64" "sextet2 b c < 64" "sextet3 c < 64"
proof -
  have b: "x < 64" if "x = x AND mask 6" for x :: byte
  proof -
    have "x AND mask 6 \<le> mask 6" by (rule word_and_le1)
    then show ?thesis using that by (simp add: word_le_nat_alt word_less_nat_alt mask_eq_exp_minus_1)
  qed
  show "sextet0 a < 64" "sextet1 a b < 64" "sextet2 b c < 64" "sextet3 c < 64"
    unfolding plus_or sextet0_def sextet3_def masks
    by (rule b, rule bit_eqI; auto simp: bit_simps dest: bit_imp_le_length)+
qed
section \<open>The alphabet and its inverse\<close>

lemma index_of_nth: "distinct xs \<Longrightarrow> i < length xs \<Longrightarrow> index_of (xs ! i) xs = Some i"
proof (induction xs arbitrary: i)
  case (Cons x xs)
  then show ?case by (cases i) auto
qed simp

lemma index_of_bound: "index_of c xs = Some i \<Longrightarrow> i < length xs"
  by (induction xs arbitrary: i) (auto split: if_splits)

lemma alphabet: "length base64_alphabet = 64" "distinct base64_alphabet" "0 \<notin> set base64_alphabet"
  "pad64 \<notin> set base64_alphabet"
  by (simp_all add: base64_alphabet_def str_def pad64_def)

lemma index_of_None: "index_of c xs = None \<longleftrightarrow> c \<notin> set xs"
  by (induction xs) auto

lemma rmap_base64_at:
  assumes "v < 64"
  shows "b64_rmap (base64_at v) = v" "\<not> b64_rmap (base64_at v) \<ge> rmap_special"
proof -
  have "unat v < 64" using assms by (simp add: word_less_nat_alt)
  then show "b64_rmap (base64_at v) = v"
    using index_of_nth [OF alphabet(2), of "unat v"] by (simp add: b64_rmap_def base64_at_def alphabet(1))
  then show "\<not> b64_rmap (base64_at v) \<ge> rmap_special"
    using assms by (simp add: rmap_special_def word_le_nat_alt word_less_nat_alt)
qed

lemma rmap_ends: "b64_rmap 0 = rmap_end" "b64_rmap pad64 = rmap_end"
  using alphabet(3,4) index_of_None [of 0 base64_alphabet] index_of_None [of pad64 base64_alphabet]
  by (simp_all add: b64_rmap_def bson_isspace_def pad64_def)

lemmas rmap_classes = rmap_special_def rmap_end_def rmap_space_def rmap_invalid_def

lemmas decode_simps = decode_sextets decode_sextets [simplified]

section \<open>What the encoder writes\<close>

fun b64_text :: "byte list \<Rightarrow> byte list" where
  "b64_text (a # b # c # src) = map base64_at [sextet0 a, sextet1 a b, sextet2 b c, sextet3 c] @ b64_text src"
| "b64_text [a, b] = map base64_at [sextet0 a, sextet1 a b, sextet2 b 0] @ [pad64]"
| "b64_text [a] = map base64_at [sextet0 a, sextet1 a 0] @ [pad64, pad64]"
| "b64_text [] = []"

lemma three_more: "(5 + n) div 3 = Suc ((2 + n) div 3)" "Suc (Suc (Suc (Suc (Suc n)))) div 3 = Suc (Suc (Suc n) div 3)" for n :: nat
  by presburger+

lemma length_b64_text: "length (b64_text src) = 4 * ((length src + 2) div 3)"
  by (induction src rule: b64_text.induct) (auto simp: three_more)

lemma text_size: "ntop_target_size n = 4 * ((n + 2) div 3) + 1"
proof -
  define q r where "q = n div 3" and "r = n mod 3"
  then have n: "n = 3 * q + r" and "r < 3" by simp_all
  then consider "r = 0" | "r = 1" | "r = 2" by linarith
  moreover have "(13 + 24 * q) div 6 = 4 * q + 2" "(21 + 24 * q) div 6 = 4 * q + 3" by linarith+
  ultimately show ?thesis by cases (simp_all add: ntop_target_size_def n)
qed

lemma ntop_loop_text:
  "ntop_loop src targsize target =
     Inr (if length target + length (b64_text src) < targsize then Some (target @ b64_text src @ [0]) else None)"
proof (induction src targsize target rule: ntop_loop.induct)
  case (1 a b c src targsize target)
  then show ?case using sextets_less by (auto simp: not_le)
qed (use sextets_less in \<open>auto simp: Let_def\<close>)

lemma ntop_text:
  "mcommon_b64_ntop src targsize =
     Inr (if ntop_target_size (length src) \<le> targsize then Some (b64_text src @ [0]) else None)"
  using ntop_loop_text [of src targsize "[]"] by (auto simp: mcommon_b64_ntop_def text_size length_b64_text)

section \<open>Decoding what was encoded\<close>

lemma pton_step:
  assumes "v < 64"
  shows "pton_loop (base64_at v # src) targsize x =
     bind_res (pton_put v targsize x) (\<lambda>r. case r of None \<Rightarrow> Inr None | Some x \<Rightarrow> pton_loop src targsize x)"
  using rmap_base64_at [OF assms] by (simp add: Let_def)

lemma pton_end: "pton_loop (0 # src) targsize x = Inr (Some (0, src, x))"
  "pton_loop (pad64 # src) targsize x = Inr (Some (pad64, src, x))"
  by (simp_all add: rmap_ends rmap_classes)

lemma pton_put_states:
  assumes "length t \<ge> n"
  shows "k < n \<Longrightarrow> pton_put v n (t, k, 0) = Inr (Some (t[k := push_bit 2 v], k, 1))"
    and "k + 1 < n \<Longrightarrow> pton_put v n (t, k, 1) =
      Inr (Some (t[k := t ! k OR drop_bit 4 v, k + 1 := push_bit 4 (v AND 0x0F)], k + 1, 2))"
    and "k + 1 < n \<Longrightarrow> pton_put v n (t, k, 2) =
      Inr (Some (t[k := t ! k OR drop_bit 2 v, k + 1 := push_bit 6 (v AND 0x03)], k + 1, 3))"
    and "k < n \<Longrightarrow> pton_put v n (t, k, 3) = Inr (Some (t[k := t ! k OR v], k + 1, 0))"
  using assms by (simp_all add: pton_put_def wr_byte_def)

lemma pton_two:
  assumes "length t \<ge> n" and "k + 1 < n"
  shows "pton_loop (base64_at (sextet0 a) # base64_at (sextet1 a b) # src) n (t, k, 0)
    = pton_loop src n (t[k := a, k + 1 := push_bit 4 (sextet1 a b AND 0x0F)], k + 1, 2)"
  using assms by (simp add: pton_step [OF sextets_less(1)] pton_step [OF sextets_less(2)] pton_put_states decode_simps
      del: pton_loop.simps One_nat_def)

lemma pton_three:
  assumes "length t \<ge> n" and "k + 2 < n"
  shows "pton_loop (base64_at (sextet0 a) # base64_at (sextet1 a b) # base64_at (sextet2 b c) # src) n (t, k, 0)
    = pton_loop src n (t[k := a, k + 1 := b, k + 2 := push_bit 6 (sextet2 b c AND 0x03)], k + 2, 3)"
  using assms by (simp add: pton_two pton_step [OF sextets_less(3)] pton_put_states decode_simps
      del: pton_loop.simps)

lemma plus_3: "k + 3 = Suc (Suc (Suc k))" for k :: nat
  by simp

lemma pton_four:
  assumes "length t \<ge> n" and "k + 2 < n"
  shows "pton_loop (map base64_at [sextet0 a, sextet1 a b, sextet2 b c, sextet3 c] @ src) n (t, k, 0)
    = pton_loop src n (t[k := a, k + 1 := b, k + 2 := c], k + 3, 0)"
  using assms by (simp add: pton_three pton_step [OF sextets_less(4)] pton_put_states decode_simps plus_3
      del: pton_loop.simps)

text \<open>\<open>decoded k src t t'\<close>: the memory holds \<open>src\<close> at \<open>k\<close> and keeps what is before.\<close>

definition decoded :: "nat \<Rightarrow> byte list \<Rightarrow> byte list \<Rightarrow> byte list \<Rightarrow> bool" where
  "decoded k src t t' \<longleftrightarrow> length t' = length t \<and> take k t' = take k t \<and> take (length src) (drop k t') = src"

definition pton_finish :: "nat \<Rightarrow> (byte \<times> byte list \<times> pton_state) option \<Rightarrow> (byte list \<times> nat) option res" where
  "pton_finish targsize r = (case r of
       None \<Rightarrow> Inr None
     | Some (ch, src, target, tarindex, state) \<Rightarrow>
         bind_res (pton_tail ch src state) (\<lambda>(ok, zero).
           if \<not> ok then Inr None
           else if zero then map_res (\<lambda>v. if v \<noteq> 0 then None else Some (target, tarindex)) (rd8 target tarindex)
           else Inr (Some (target, tarindex))))"

lemma pton_do_finish: "mongoc_b64_pton_do src target n = bind_res (pton_loop src n (target, 0, 0)) (pton_finish n)"
  by (simp add: mongoc_b64_pton_do_def pton_finish_def [abs_def])

lemma skip_end: "skip_spaces 0 src = Inr (0, src)" "skip_spaces pad64 src = Inr (pad64, src)"
  by (simp_all add: rmap_ends rmap_classes)

lemma take_three: "k + 2 < length t \<Longrightarrow> take (k + 3) (t[k := a, k + 1 := b, k + 2 := c]) = take k t @ [a, b, c]"
proof (induction k arbitrary: t)
  case 0
  then obtain x y z u where "t = x # y # z # u" by (metis Suc_le_length_iff add_0 add_2_eq_Suc' less_eq_Suc_le)
  then show ?case by (simp add: numeral_2_eq_2 numeral_3_eq_3)
next
  case (Suc k)
  then show ?case by (cases t) (simp_all add: numeral_3_eq_3)
qed

lemma decode_text:
  assumes "length t \<ge> n" and "k + 3 * ((length src + 2) div 3) \<le> n"
  shows "\<exists>t'. bind_res (pton_loop (b64_text src @ 0 # r) n (t, k, 0)) (pton_finish n) = Inr (Some (t', k + length src))
    \<and> decoded k src t t'"
  using assms
proof (induction src arbitrary: t k rule: b64_text.induct)
  case (1 a b c src)
  let ?t = "t[k := a, k + 1 := b, k + 2 := c]"
  have k: "k + 2 < n" "k + 3 + 3 * ((length src + 2) div 3) \<le> n" "length ?t \<ge> n" using "1.prems" by (auto simp: three_more)
  from "1.IH" [OF k(3,2)] obtain t' where t': "bind_res (pton_loop (b64_text src @ 0 # r) n (?t, k + 3, 0)) (pton_finish n)
      = Inr (Some (t', k + 3 + length src))" "decoded (k + 3) src ?t t'" by blast
  have take: "take (k + 3) t' = take k t @ [a, b, c]"
  proof -
    have "take (k + 3) t' = take (k + 3) ?t" using t'(2) by (simp add: decoded_def)
    also have "\<dots> = take k t @ [a, b, c]" using k(1) "1.prems"(1) by (intro take_three) simp
    finally show ?thesis .
  qed
  have "take k t' = take k t" using arg_cong [OF take, of "take k"] k "1.prems"(1) by (simp add: min_def)
  moreover have "take 3 (drop k t') = [a, b, c]" using arg_cong [OF take, of "drop k"] k "1.prems"(1) by (simp add: drop_take)
  then have "take (length (a # b # c # src)) (drop k t') = a # b # c # src"
    using t'(2) take_add [of 3 "length src" "drop k t'"] by (simp add: decoded_def add.commute numeral_3_eq_3)
  ultimately have "decoded k (a # b # c # src) t t'" using t'(2) by (simp add: decoded_def)
  moreover have "bind_res (pton_loop (b64_text (a # b # c # src) @ 0 # r) n (t, k, 0)) (pton_finish n)
      = Inr (Some (t', k + length (a # b # c # src)))"
    using t'(1) pton_four [OF "1.prems"(1) k(1), of a b c "b64_text src @ 0 # r"] by (simp del: pton_loop.simps)
  ultimately show ?case by blast
next
  case (2 a b)
  then have k: "k + 2 < n" by auto
  let ?t = "t[k := a, k + 1 := b, k + 2 := 0]"
  have "decoded k [a, b] t ?t"
    using k 2(1) by (auto simp: decoded_def take_Suc_conv_app_nth nth_list_update intro!: nth_equalityI)
  then show ?case
    using pton_three [OF 2(1) k, of a b 0 "pad64 # 0 # r"] k 2(1)
    by (simp add: pton_end pton_finish_def pton_tail_def next_char_def skip_end decode_simps del: pton_loop.simps skip_spaces.simps)
next
  case (3 a)
  then have k: "k + 1 < n" by auto
  let ?t = "t[k := a, k + 1 := 0]"
  have "decoded k [a] t ?t"
    using k 3(1) by (auto simp: decoded_def nth_list_update intro!: nth_equalityI)
  then show ?case
    using pton_two [OF 3(1) k, of a 0 "pad64 # pad64 # 0 # r"] k 3(1)
    by (simp add: pton_end pton_finish_def pton_tail_def next_char_def skip_end decode_simps del: pton_loop.simps skip_spaces.simps)
next
  case 4
  then show ?case by (simp add: pton_end pton_finish_def pton_tail_def pad64_def decoded_def del: pton_loop.simps)
qed

section \<open>Decoding any string\<close>

lemma rmap_end_iff: "b64_rmap ch = rmap_end \<longleftrightarrow> ch = 0 \<or> ch = pad64"
proof (cases "index_of ch base64_alphabet")
  case None
  then show ?thesis by (auto simp: b64_rmap_def rmap_classes bson_isspace_def pad64_def)
next
  case (Some i)
  then have "ch \<in> set base64_alphabet" using index_of_None [of ch base64_alphabet] by auto
  then have "ch \<noteq> 0" "ch \<noteq> pad64" using alphabet by auto
  moreover have "i < 64" using index_of_bound [OF Some] alphabet by simp
  then have "of_nat i \<noteq> rmap_end"
    by (auto simp: rmap_end_def word_of_nat_eq_iff dest!: arg_cong [where f = unat] simp: unat_of_nat)
  ultimately show ?thesis using Some by (simp add: b64_rmap_def)
qed

definition pton_ok :: "nat \<Rightarrow> nat \<Rightarrow> pton_state \<Rightarrow> bool" where
  "pton_ok n l x \<longleftrightarrow> (case x of (t, k, st) \<Rightarrow> length t = l \<and> n \<le> l \<and> k \<le> n \<and> st \<le> 3 \<and> (st = 0 \<or> k < n))"

lemma pton_put_ok:
  assumes "pton_ok n l (t, k, st)"
  shows "returns F (\<lambda>r. \<forall>x. r = Some x \<longrightarrow> pton_ok n l x
      \<and> snd x = (if st = 0 then (k, 1) else if st = 1 then (k + 1, 2) else if st = 2 then (k + 1, 3) else (k + 1, 0)))
    (pton_put v n (t, k, st))"
  using assms by (auto simp: pton_ok_def pton_put_def wr_byte_def)

lemma pton_loop_ok:
  assumes "0 \<in> set src" and "pton_ok n l (t, k, st)"
  shows "returns F (\<lambda>r. \<forall>ch rest x. r = Some (ch, rest, x) \<longrightarrow> pton_ok n l x \<and> (ch = 0 \<or> 0 \<in> set rest)
      \<and> pton_len_loop src k st = Inr (Some (ch, rest, snd x)))
    (pton_loop src n (t, k, st))"
  using assms
proof (induction src arbitrary: t k st)
  case (Cons ch src)
  let ?Q = "\<lambda>r. \<forall>ch' rest x. r = Some (ch', rest, x) \<longrightarrow> pton_ok n l x \<and> (ch' = 0 \<or> 0 \<in> set rest)
      \<and> pton_len_loop (ch # src) k st = Inr (Some (ch', rest, snd x))"
  have more: "0 \<in> set src" if "b64_rmap ch \<noteq> rmap_end" using Cons.prems(1) that rmap_end_iff [of ch] by auto
  show ?case
  proof (cases "b64_rmap ch \<ge> rmap_special")
    case True
    then show ?thesis
      using Cons.IH [OF _ Cons.prems(2)] more Cons.prems rmap_end_iff [of ch]
      by (auto simp: Let_def rmap_space_def rmap_end_def)
  next
    case False
    have ne: "b64_rmap ch \<noteq> rmap_end" using False by (auto simp: rmap_classes)
    have "returns F ?Q (bind_res (pton_put (b64_rmap ch) n (t, k, st))
        (\<lambda>r. case r of None \<Rightarrow> Inr None | Some x \<Rightarrow> pton_loop src n x))"
    proof (rule returns_bind [OF pton_put_ok [OF Cons.prems(2)]])
      fix r assume r: "\<forall>x. r = Some x \<longrightarrow> pton_ok n l x
        \<and> snd x = (if st = 0 then (k, 1) else if st = 1 then (k + 1, 2) else if st = 2 then (k + 1, 3) else (k + 1, 0))"
      show "returns F ?Q (case r of None \<Rightarrow> Inr None | Some x \<Rightarrow> pton_loop src n x)"
      proof (cases r)
        case (Some x)
        obtain t' k' st' where x: "x = (t', k', st')" by (cases x) auto
        have ok: "pton_ok n l (t', k', st')"
          and nx: "(k', st') = (if st = 0 then (k, 1) else if st = 1 then (k + 1, 2) else if st = 2 then (k + 1, 3) else (k + 1, 0))"
          using r Some x by auto
        have len: "pton_len_loop (ch # src) k st = pton_len_loop src k' st'"
          using False nx by (auto simp: Let_def split: if_splits)
        show ?thesis using Cons.IH [OF more [OF ne] ok] unfolding len by (simp add: Some x)
      qed simp
    qed
    with False show ?thesis by (simp add: Let_def)
  qed
qed simp

lemma skip_spaces_ok:
  "ch = 0 \<or> 0 \<in> set src \<Longrightarrow> returns F (\<lambda>r. fst r = 0 \<or> 0 \<in> set (snd r)) (skip_spaces ch src)"
proof (induction ch src rule: skip_spaces.induct)
  case (1 ch src)
  show ?case
  proof (cases "ch = 0 \<or> b64_rmap ch \<noteq> rmap_space")
    case False
    then obtain c src' where src: "src = c # src'" using "1.prems" by (cases src) auto
    have "returns F (\<lambda>r. fst r = 0 \<or> 0 \<in> set (snd r)) (skip_spaces c src')"
      by (rule "1.IH" [OF False src]) (use "1.prems" False src in auto)
    with False src show ?thesis by (subst skip_spaces.simps) simp
  qed (use "1.prems" in \<open>subst skip_spaces.simps, auto\<close>)
qed

declare skip_spaces.simps [simp del]

lemma next_char_ok: "0 \<in> set src \<Longrightarrow> returns F (\<lambda>r. fst r = 0 \<or> 0 \<in> set (snd r)) (next_char src)"
  by (cases src) (auto simp: next_char_def)

lemma pton_tail_ok:
  assumes "ch = 0 \<or> 0 \<in> set src"
  shows "returns F (\<lambda>r. snd r \<longrightarrow> st \<noteq> 0) (pton_tail ch src st)"
proof (cases "ch = pad64")
  case True
  then have "0 \<in> set src" using assms by (auto simp: pad64_def)
  then have "returns F (\<lambda>r. fst r = 0 \<or> 0 \<in> set (snd r)) (next_char src)" by (rule next_char_ok)
  then obtain c rest where nc: "next_char src = Inr (c, rest)" "c = 0 \<or> 0 \<in> set rest" using \<open>0 \<in> set src\<close>
    by (cases src) (auto simp: next_char_def)
  let ?m = "if st = 2 then bind_res (skip_spaces c rest) (\<lambda>(ch, src).
      if ch \<noteq> pad64 then Inr None else map_res Some (next_char src)) else Inr (Some (c, rest))"
  have m: "returns F (\<lambda>r. \<forall>a b. r = Some (a, b) \<longrightarrow> a = 0 \<or> 0 \<in> set b) ?m"
  proof (cases "st = 2")
    case True
    have "returns F (\<lambda>r. \<forall>a b. r = Some (a, b) \<longrightarrow> a = 0 \<or> 0 \<in> set b) (bind_res (skip_spaces c rest) (\<lambda>(ch, src).
      if ch \<noteq> pad64 then Inr None else map_res Some (next_char src)))"
    proof (rule returns_bind [OF skip_spaces_ok [OF nc(2)]])
      fix r :: "byte \<times> byte list" assume r: "fst r = 0 \<or> 0 \<in> set (snd r)"
      have "returns F (\<lambda>x. \<forall>a b. Some x = Some (a, b) \<longrightarrow> a = 0 \<or> 0 \<in> set b) (next_char (snd r))" if "fst r = pad64"
        by (rule returns_mono [OF next_char_ok order_refl]) (use r that in \<open>auto simp: pad64_def\<close>)
      then show "returns F (\<lambda>r. \<forall>a b. r = Some (a, b) \<longrightarrow> a = 0 \<or> 0 \<in> set b) (case r of (ch, src) \<Rightarrow>
        if ch \<noteq> pad64 then Inr None else map_res Some (next_char src))"
        by (cases r) (auto intro!: returns_map)
    qed
    then show ?thesis using True by simp
  qed (use nc(2) in simp)
  have "returns F (\<lambda>r. snd r \<longrightarrow> st \<noteq> 0) (bind_res ?m (\<lambda>r. case r of
                None \<Rightarrow> Inr (False, False)
              | Some (ch, src) \<Rightarrow> map_res (\<lambda>(ch, _). (ch = 0, True)) (skip_spaces ch src)))" if "st \<noteq> 0"
  proof (rule returns_bind [OF m])
    have any: "returns F (\<lambda>_. True) (skip_spaces a b)" if "a = 0 \<or> 0 \<in> set b" for a b
      by (rule returns_mono [OF skip_spaces_ok [OF that] order_refl]) simp
    fix r :: "(byte \<times> byte list) option" assume "\<forall>a b. r = Some (a, b) \<longrightarrow> a = 0 \<or> 0 \<in> set b"
    then show "returns F (\<lambda>r. snd r \<longrightarrow> st \<noteq> 0) (case r of None \<Rightarrow> Inr (False, False)
        | Some (ch, src) \<Rightarrow> map_res (\<lambda>(ch, _). (ch = 0, True)) (skip_spaces ch src))"
      using that any by (cases r) (auto intro!: returns_map)
  qed
  then show ?thesis using True nc(1) by (simp add: pton_tail_def)
qed (simp add: pton_tail_def)

lemma pton_do_safe:
  assumes "0 \<in> set src" and "n \<le> length target"
  shows "returns F (\<lambda>r. \<forall>t k. r = Some (t, k) \<longrightarrow> k \<le> n \<and> length t = length target \<and> mongoc_b64_pton_len src = Inr (Some k))
    (mongoc_b64_pton_do src target n)"
  unfolding pton_do_finish
proof (rule returns_bind [OF pton_loop_ok [OF assms(1)]])
  show "pton_ok n (length target) (target, 0, 0)" using assms(2) by (simp add: pton_ok_def)
  fix r assume r: "\<forall>ch rest x. r = Some (ch, rest, x) \<longrightarrow> pton_ok n (length target) x \<and> (ch = 0 \<or> 0 \<in> set rest)
      \<and> pton_len_loop src 0 0 = Inr (Some (ch, rest, snd x))"
  let ?Q = "\<lambda>r. \<forall>t k. r = Some (t, k) \<longrightarrow> k \<le> n \<and> length t = length target \<and> mongoc_b64_pton_len src = Inr (Some k)"
  show "returns F ?Q (pton_finish n r)"
  proof (cases r)
    case (Some y)
    obtain ch rest t k st where y: "y = (ch, rest, t, k, st)" by (cases y) auto
    have ok: "pton_ok n (length target) (t, k, st)" "ch = 0 \<or> 0 \<in> set rest"
      and len: "pton_len_loop src 0 0 = Inr (Some (ch, rest, k, st))" using r Some y by auto
    from pton_tail_ok [OF ok(2), of "{}" st] obtain good zero where tail: "pton_tail ch rest st = Inr (good, zero)"
      "zero \<longrightarrow> st \<noteq> 0" by (auto simp: returns_total)
    have "mongoc_b64_pton_len src = Inr (if good then Some k else None)"
      using len tail(1) by (simp add: mongoc_b64_pton_len_def)
    then show ?thesis
      using tail ok(1) by (auto simp: Some y pton_finish_def pton_ok_def)
  qed (simp add: pton_finish_def)
qed

end
