(* ===== verification/Utf8.thy ===== *)
theory Utf8
  imports MPrelude
begin

text \<open>
  UTF-8 (\<open>src/src/bson/bson-utf8.c\<close>, \<open>src/src/common/common-utf8-private.h\<close>): the validator that documents
  and keys pass, the decoder and the encoder of one character, and the truncation of a string at a
  character.
\<close>

type_synonym unichar = "32 word"

text \<open>The length of a sequence and the mask of its first byte.\<close>

definition utf8_get_sequence :: "byte \<Rightarrow> nat \<times> byte" where
  "utf8_get_sequence c =
     (if c AND 0x80 = 0 then (1, 0x7F)
      else if c AND 0xE0 = 0xC0 then (2, 0x1F)
      else if c AND 0xF0 = 0xE0 then (3, 0x0F)
      else if c AND 0xF8 = 0xF0 then (4, 0x07)
      else (0, 0))"

definition utf8_from_unichar :: "unichar \<Rightarrow> byte list" where
  "utf8_from_unichar c =
     (if c \<le> 0x7F then [ucast c]
      else if c \<le> 0x7FF then
        [0xC0 OR ucast (drop_bit 6 c AND 0x3F), 0x80 OR ucast (c AND 0x3F)]
      else if c \<le> 0xFFFF then
        [0xE0 OR ucast (drop_bit 12 c AND 0xF), 0x80 OR ucast (drop_bit 6 c AND 0x3F), 0x80 OR ucast (c AND 0x3F)]
      else if c \<le> 0x1FFFFF then
        [0xF0 OR ucast (drop_bit 18 c AND 0x7), 0x80 OR ucast (drop_bit 12 c AND 0x3F),
         0x80 OR ucast (drop_bit 6 c AND 0x3F), 0x80 OR ucast (c AND 0x3F)]
      else [])"

text \<open>The continuation bytes \<open>utf8[j], ..., utf8[n - 1]\<close>; \<open>None\<close> at one that is none.\<close>

fun continuation :: "byte list \<Rightarrow> nat \<Rightarrow> nat \<Rightarrow> unichar \<Rightarrow> unichar option res" where
  "continuation utf8 j 0 c = Inr (Some c)"
| "continuation utf8 j (Suc n) c =
     bind_res (rd8 utf8 j) (\<lambda>b.
       if b AND 0xC0 \<noteq> 0x80 then Inr None
       else continuation utf8 (Suc j) n (push_bit 6 c OR (ucast b AND 0x3F)))"

text \<open>No NUL in \<open>utf8[i], ..., utf8[i + n - 1]\<close>.\<close>

fun no_nul :: "byte list \<Rightarrow> nat \<Rightarrow> nat \<Rightarrow> nat \<Rightarrow> bool res" where
  "no_nul utf8 utf8_len i 0 = Inr True"
| "no_nul utf8 utf8_len i (Suc n) =
     (if i > utf8_len then Inr False
      else bind_res (rd8 utf8 i) (\<lambda>b. if b = 0 then Inr False else no_nul utf8 utf8_len (Suc i) n))"

text \<open>The test for the shortest form.\<close>

definition shortest_form :: "nat \<Rightarrow> unichar \<Rightarrow> bool \<Rightarrow> bool" where
  "shortest_form seq_length c allow_null =
     (if seq_length = 1 then c \<le> 0x7F
      else if seq_length = 2 then c \<ge> 0x80 \<and> c \<le> 0x7FF \<or> c = 0 \<and> allow_null
      else if seq_length = 3 then c \<ge> 0x800 \<and> c \<le> 0xFFF \<or> c \<ge> 0x1000 \<and> c \<le> 0xFFFF
      else if seq_length = 4 then
        c \<ge> 0x10000 \<and> c \<le> 0x3FFFF \<or> c \<ge> 0x40000 \<and> c \<le> 0xFFFFF \<or> c \<ge> 0x100000 \<and> c \<le> 0x10FFFF
      else False)"

text \<open>One round of the loop of \<open>bson_utf8_validate\<close> at \<open>i\<close>: the length of a valid sequence.\<close>

definition validate_one :: "byte list \<Rightarrow> nat \<Rightarrow> bool \<Rightarrow> nat \<Rightarrow> nat option res" where
  "validate_one utf8 utf8_len allow_null i =
     bind_res (rd8 utf8 i) (\<lambda>b. case utf8_get_sequence b of (seq_length, first_mask) \<Rightarrow>
       if seq_length = 0 then Inr None
       else if utf8_len - i < seq_length then Inr None
       else
         bind_res (continuation utf8 (i + 1) (seq_length - 1) (ucast (b AND first_mask))) (\<lambda>r. case r of
           None \<Rightarrow> Inr None
         | Some c \<Rightarrow>
             map_res (\<lambda>ok.
                 if \<not> ok then None
                 else if c > 0x10FFFF then None
                 else if c AND 0xFFFFF800 = 0xD800 then None
                 else if shortest_form seq_length c allow_null then Some seq_length else None)
               (if allow_null then Inr True else no_nul utf8 utf8_len i seq_length)))"

lemma validate_one_pos: "validate_one utf8 n a i = Inr (Some k) \<Longrightarrow> 0 < k"
proof -
  assume *: "validate_one utf8 n a i = Inr (Some k)"
  then obtain b where b: "rd8 utf8 i = Inr b" by (auto simp: validate_one_def bind_res_eq_Inr)
  obtain l f where l: "utf8_get_sequence b = (l, f)" by fastforce
  show "0 < k"
  proof (cases "l = 0")
    case True then show ?thesis using * b l by (simp add: validate_one_def)
  next
    case False
    then have "k = l"
      using * b l by (simp add: validate_one_def bind_res_eq_Inr map_res_eq_Inr split: if_splits option.splits)
        (auto simp: bind_res_eq_Inr map_res_eq_Inr split: if_splits option.splits)
    then show ?thesis using False by simp
  qed
qed

function utf8_validate_loop :: "byte list \<Rightarrow> nat \<Rightarrow> bool \<Rightarrow> nat \<Rightarrow> bool res" where
  "utf8_validate_loop utf8 utf8_len allow_null i =
     (if i < utf8_len then
        (case validate_one utf8 utf8_len allow_null i of
           Inl e \<Rightarrow> Inl e
         | Inr None \<Rightarrow> Inr False
         | Inr (Some seq_length) \<Rightarrow> utf8_validate_loop utf8 utf8_len allow_null (i + seq_length))
      else Inr True)"
  by pat_completeness auto
termination
  by (relation "measure (\<lambda>(utf8, n, a, i). n - i)") (auto dest: validate_one_pos)

declare utf8_validate_loop.simps [simp del]

definition bson_utf8_validate :: "byte list \<Rightarrow> nat \<Rightarrow> bool \<Rightarrow> bool res" where
  "bson_utf8_validate utf8 utf8_len allow_null = utf8_validate_loop utf8 utf8_len allow_null 0"

text \<open>\<open>bson_utf8_get_char\<close> and the number of bytes \<open>bson_utf8_next_char\<close> advances.\<close>

fun get_char_loop :: "byte list \<Rightarrow> nat \<Rightarrow> nat \<Rightarrow> unichar \<Rightarrow> unichar res" where
  "get_char_loop utf8 j 0 c = Inr c"
| "get_char_loop utf8 j (Suc n) c =
     bind_res (rd8 utf8 j) (\<lambda>b. get_char_loop utf8 (Suc j) n (push_bit 6 c OR (ucast b AND 0x3F)))"

definition bson_utf8_get_char :: "byte list \<Rightarrow> unichar res" where
  "bson_utf8_get_char utf8 =
     bind_res (rd8 utf8 0) (\<lambda>b. case utf8_get_sequence b of (num, first_mask) \<Rightarrow>
       get_char_loop utf8 1 (num - 1) (ucast (b AND first_mask)))"

definition bson_utf8_next_char :: "byte list \<Rightarrow> nat res" where
  "bson_utf8_next_char utf8 = map_res (\<lambda>b. fst (utf8_get_sequence b)) (rd8 utf8 0)"

text \<open>\<open>mcommon_utf8_truncate_len\<close>: the search for the first byte of the last sequence, and the loop.\<close>

fun seq_begin :: "byte list \<Rightarrow> nat \<Rightarrow> nat option res" where
  "seq_begin s 0 = map_res (\<lambda>b. if b AND 0xC0 = 0x80 then None else Some 0) (rd8 s 0)"
| "seq_begin s (Suc k) =
     bind_res (rd8 s (Suc k)) (\<lambda>b. if b AND 0xC0 = 0x80 then seq_begin s k else Inr (Some (Suc k)))"

lemma seq_begin_le: "seq_begin s k = Inr (Some j) \<Longrightarrow> j \<le> k"
  by (induction s k rule: seq_begin.induct) (auto simp: bind_res_eq_Inr map_res_eq_Inr split: if_splits)

function utf8_truncate_len :: "byte list \<Rightarrow> nat \<Rightarrow> nat res" where
  "utf8_truncate_len s 0 = Inr 0"
| "utf8_truncate_len s (Suc k) =
     bind_res (rd8 s k) (\<lambda>b.
       if b \<le> 0x7F then Inr (Suc k)
       else
         (case seq_begin s k of
            Inl e \<Rightarrow> Inl e
          | Inr None \<Rightarrow> Inr 0
          | Inr (Some j) \<Rightarrow>
              bind_res (rd8 s j) (\<lambda>c.
                if j + fst (utf8_get_sequence c) = Suc k then Inr (Suc k) else utf8_truncate_len s j)))"
  by pat_completeness auto
termination
  by (relation "measure snd") (auto dest: seq_begin_le)

end
