(* ===== verification/Utf8Bits.thy ===== *)
theory Utf8Bits
  imports Utf8
begin

text \<open>
  The bits of UTF-8: for each length of a sequence, the bytes the decoder accepts are the bytes the encoder
  writes for the decoded number (\<open>enc1\<close> to \<open>enc4\<close>), and the decoder reads back what the encoder wrote
  (\<open>dec1\<close> to \<open>dec4\<close>).
\<close>

lemma byte_masks: "(0x3F :: 'a :: len word) = mask 6" "(0x1F :: 'a word) = mask 5" "(0x0F :: 'a word) = mask 4"
  "(0x07 :: 'a word) = mask 3" "(0x7F :: 'a word) = mask 7"
  by (simp_all add: mask_eq_exp_minus_1)

lemma high_masks: "(0x80 :: byte) = push_bit 7 (mask 1)" "(0xC0 :: byte) = push_bit 6 (mask 2)" "(0xE0 :: byte) = push_bit 5 (mask 3)"
  "(0xF0 :: byte) = push_bit 4 (mask 4)" "(0xF8 :: byte) = push_bit 3 (mask 5)"
  by (simp_all add: mask_eq_exp_minus_1)

lemma byte_eqI: "bit x 0 = bit y 0 \<Longrightarrow> bit x 1 = bit y 1 \<Longrightarrow> bit x 2 = bit y 2 \<Longrightarrow> bit x 3 = bit y 3 \<Longrightarrow>
   bit x 4 = bit y 4 \<Longrightarrow> bit x 5 = bit y 5 \<Longrightarrow> bit x 6 = bit y 6 \<Longrightarrow> bit x 7 = bit y 7 \<Longrightarrow> x = y" for x y :: byte
proof (rule bit_eqI)
  fix n assume *: "bit x 0 = bit y 0" "bit x 1 = bit y 1" "bit x 2 = bit y 2" "bit x 3 = bit y 3"
    "bit x 4 = bit y 4" "bit x 5 = bit y 5" "bit x 6 = bit y 6" "bit x 7 = bit y 7"
  assume "possible_bit TYPE(byte) n"
  then have "n = 0 \<or> n = 1 \<or> n = 2 \<or> n = 3 \<or> n = 4 \<or> n = 5 \<or> n = 6 \<or> n = 7" by auto
  with * show "bit x n = bit y n" by auto
qed

lemma byte_eq_iff: "x = y \<longleftrightarrow> bit x 0 = bit y 0 \<and> bit x 1 = bit y 1 \<and> bit x 2 = bit y 2 \<and> bit x 3 = bit y 3 \<and>
   bit x 4 = bit y 4 \<and> bit x 5 = bit y 5 \<and> bit x 6 = bit y 6 \<and> bit x 7 = bit y 7" for x y :: byte
  by (blast intro: byte_eqI)

lemma pattern:
  "b AND 0xC0 = 0x80 \<longleftrightarrow> bit b 7 \<and> \<not> bit b 6"
  "b AND 0xE0 = 0xC0 \<longleftrightarrow> bit b 7 \<and> bit b 6 \<and> \<not> bit b 5"
  "b AND 0xF0 = 0xE0 \<longleftrightarrow> bit b 7 \<and> bit b 6 \<and> bit b 5 \<and> \<not> bit b 4"
  "b AND 0xF8 = 0xF0 \<longleftrightarrow> bit b 7 \<and> bit b 6 \<and> bit b 5 \<and> bit b 4 \<and> \<not> bit b 3"
  "b AND 0x80 = 0 \<longleftrightarrow> \<not> bit b 7" for b :: byte
  unfolding high_masks byte_eq_iff by (auto simp: bit_simps)

lemma word_le_mask: "c \<le> w \<longleftrightarrow> take_bit n c = c" if "Suc (unat w) = 2 ^ n" for c w :: "32 word"
proof -
  have "c \<le> w \<longleftrightarrow> unat c < 2 ^ n" using that by (simp add: word_le_nat_alt flip: less_Suc_eq_le)
  also have "\<dots> \<longleftrightarrow> take_bit n (unat c) = unat c" by (simp add: take_bit_nat_eq_self_iff)
  also have "\<dots> \<longleftrightarrow> take_bit n c = c"
    by (metis unsigned_take_bit_eq unsigned_word_eqI)
  finally show ?thesis .
qed

lemma char_bounds:
  "c \<le> 0x7F \<longleftrightarrow> take_bit 7 c = c" "c \<le> 0x7FF \<longleftrightarrow> take_bit 11 c = c" "c \<le> 0xFFFF \<longleftrightarrow> take_bit 16 c = c"
  "c \<le> 0x1FFFFF \<longleftrightarrow> take_bit 21 c = c" for c :: unichar
  by (rule word_le_mask, simp)+

lemma take_bit_self_iff: "take_bit n c = c \<longleftrightarrow> (\<forall>k. n \<le> k \<longrightarrow> k < 32 \<longrightarrow> \<not> bit c k)" for c :: "32 word"
  by (auto simp: bit_eq_iff bit_simps not_le dest: bit_imp_le_length)

lemma unichar_eqI:
  "bit c 0 = bit d 0 \<Longrightarrow> bit c 1 = bit d 1 \<Longrightarrow> list_all (\<lambda>k. bit c k = bit d k) [2..<32] \<Longrightarrow> c = d" for c d :: unichar
proof (rule bit_eqI)
  fix k assume *: "bit c 0 = bit d 0" "bit c 1 = bit d 1" "list_all (\<lambda>k. bit c k = bit d k) [2..<32]"
  assume "possible_bit TYPE(32 word) k"
  then have "k < 32" by simp
  moreover have "\<forall>k \<in> {2..<32}. bit c k = bit d k" using *(3) by (simp only: list_all_iff set_upt)
  moreover have "k = 0 \<or> k = 1 \<or> 2 \<le> k" by linarith
  ultimately show "bit c k = bit d k" using *(1,2) by (metis atLeastLessThan_iff)
qed

lemma take_bit_zeros: "take_bit n c = c \<longleftrightarrow> list_all (\<lambda>k. \<not> bit c k) [n..<32]" for c :: "32 word"
  unfolding take_bit_self_iff by (auto simp only: list_all_iff set_upt atLeastLessThan_iff)

lemma enc1:
  fixes b :: byte
  assumes "b AND 0x80 = 0"
  shows "ucast (ucast (b AND 0x7F) :: unichar) = b \<and> (ucast (b AND 0x7F) :: unichar) \<le> 0x7F"
  using assms unfolding pattern char_bounds take_bit_self_iff unfolding byte_masks byte_eq_iff
  by (auto simp: bit_simps)

lemma dec1:
  fixes c :: unichar
  assumes "c \<le> 0x7F" and b: "b = (ucast c :: byte)"
  shows "b AND 0x80 = 0 \<and> ucast (b AND 0x7F) = c"
proof (intro conjI)
  show "b AND 0x80 = 0"
    using assms(1) unfolding pattern char_bounds take_bit_zeros unfolding b byte_masks by (simp add: bit_simps)
  show "ucast (b AND 0x7F) = c"
    using assms(1) unfolding char_bounds take_bit_zeros unfolding b byte_masks
    by (intro unichar_eqI) (simp_all add: bit_simps)
qed

lemma enc2:
  fixes c :: unichar and b0 b1 :: byte
  assumes "b0 AND 0xE0 = 0xC0" "b1 AND 0xC0 = 0x80" and c: "c = push_bit 6 (ucast (b0 AND 0x1F)) OR (ucast b1 AND 0x3F)"
  shows "0xC0 OR ucast (drop_bit 6 c AND 0x3F) = b0 \<and> 0x80 OR ucast (c AND 0x3F) = b1 \<and> c \<le> 0x7FF"
  using assms(1,2) unfolding pattern char_bounds take_bit_self_iff unfolding c byte_masks high_masks byte_eq_iff
  by (simp add: bit_simps) (auto simp: bit_simps)

lemma dec2:
  fixes c :: unichar
  assumes "c \<le> 0x7FF" and b: "b0 = (0xC0 OR ucast (drop_bit 6 c AND 0x3F) :: byte)" "b1 = (0x80 OR ucast (c AND 0x3F) :: byte)"
  shows "b0 AND 0xE0 = 0xC0 \<and> b1 AND 0xC0 = 0x80 \<and> push_bit 6 (ucast (b0 AND 0x1F)) OR (ucast b1 AND 0x3F) = c"
proof (intro conjI)
  show "b0 AND 0xE0 = 0xC0" "b1 AND 0xC0 = 0x80"
    using assms(1) unfolding pattern char_bounds take_bit_self_iff unfolding b byte_masks high_masks
    by (simp_all add: bit_simps)
  show "push_bit 6 (ucast (b0 AND 0x1F)) OR (ucast b1 AND 0x3F) = c"
    using assms(1) unfolding char_bounds take_bit_zeros unfolding b byte_masks high_masks
    by (intro unichar_eqI) (simp_all add: bit_simps)
qed

lemma enc3:
  fixes c :: unichar and b0 b1 b2 :: byte
  assumes "b0 AND 0xF0 = 0xE0" "b1 AND 0xC0 = 0x80" "b2 AND 0xC0 = 0x80" and c: "c = push_bit 6 (push_bit 6 (ucast (b0 AND 0x0F)) OR (ucast b1 AND 0x3F)) OR (ucast b2 AND 0x3F)"
  shows "0xE0 OR ucast (drop_bit 12 c AND 0xF) = b0 \<and> 0x80 OR ucast (drop_bit 6 c AND 0x3F) = b1 \<and> 0x80 OR ucast (c AND 0x3F) = b2 \<and> c \<le> 0xFFFF"
  using assms(1,2,3) unfolding pattern char_bounds take_bit_self_iff unfolding c byte_masks high_masks byte_eq_iff
  by (simp add: bit_simps) (auto simp: bit_simps)

lemma dec3:
  fixes c :: unichar
  assumes "c \<le> 0xFFFF" and b: "b0 = (0xE0 OR ucast (drop_bit 12 c AND 0xF) :: byte)" "b1 = (0x80 OR ucast (drop_bit 6 c AND 0x3F) :: byte)" "b2 = (0x80 OR ucast (c AND 0x3F) :: byte)"
  shows "b0 AND 0xF0 = 0xE0 \<and> b1 AND 0xC0 = 0x80 \<and> b2 AND 0xC0 = 0x80 \<and> push_bit 6 (push_bit 6 (ucast (b0 AND 0x0F)) OR (ucast b1 AND 0x3F)) OR (ucast b2 AND 0x3F) = c"
proof (intro conjI)
  show "b0 AND 0xF0 = 0xE0" "b1 AND 0xC0 = 0x80" "b2 AND 0xC0 = 0x80"
    using assms(1) unfolding pattern char_bounds take_bit_self_iff unfolding b byte_masks high_masks
    by (simp_all add: bit_simps)
  show "push_bit 6 (push_bit 6 (ucast (b0 AND 0x0F)) OR (ucast b1 AND 0x3F)) OR (ucast b2 AND 0x3F) = c"
    using assms(1) unfolding char_bounds take_bit_zeros unfolding b byte_masks high_masks
    by (intro unichar_eqI) (simp_all add: bit_simps)
qed

lemma enc4:
  fixes c :: unichar and b0 b1 b2 b3 :: byte
  assumes "b0 AND 0xF8 = 0xF0" "b1 AND 0xC0 = 0x80" "b2 AND 0xC0 = 0x80" "b3 AND 0xC0 = 0x80" and c: "c = push_bit 6 (push_bit 6 (push_bit 6 (ucast (b0 AND 0x07)) OR (ucast b1 AND 0x3F)) OR (ucast b2 AND 0x3F)) OR (ucast b3 AND 0x3F)"
  shows "0xF0 OR ucast (drop_bit 18 c AND 0x7) = b0 \<and> 0x80 OR ucast (drop_bit 12 c AND 0x3F) = b1 \<and> 0x80 OR ucast (drop_bit 6 c AND 0x3F) = b2 \<and> 0x80 OR ucast (c AND 0x3F) = b3 \<and> c \<le> 0x1FFFFF"
  using assms(1,2,3,4) unfolding pattern char_bounds take_bit_self_iff unfolding c byte_masks high_masks byte_eq_iff
  by (simp add: bit_simps) (auto simp: bit_simps)

lemma dec4:
  fixes c :: unichar
  assumes "c \<le> 0x1FFFFF" and b: "b0 = (0xF0 OR ucast (drop_bit 18 c AND 0x7) :: byte)" "b1 = (0x80 OR ucast (drop_bit 12 c AND 0x3F) :: byte)" "b2 = (0x80 OR ucast (drop_bit 6 c AND 0x3F) :: byte)" "b3 = (0x80 OR ucast (c AND 0x3F) :: byte)"
  shows "b0 AND 0xF8 = 0xF0 \<and> b1 AND 0xC0 = 0x80 \<and> b2 AND 0xC0 = 0x80 \<and> b3 AND 0xC0 = 0x80 \<and> push_bit 6 (push_bit 6 (push_bit 6 (ucast (b0 AND 0x07)) OR (ucast b1 AND 0x3F)) OR (ucast b2 AND 0x3F)) OR (ucast b3 AND 0x3F) = c"
proof (intro conjI)
  show "b0 AND 0xF8 = 0xF0" "b1 AND 0xC0 = 0x80" "b2 AND 0xC0 = 0x80" "b3 AND 0xC0 = 0x80"
    using assms(1) unfolding pattern char_bounds take_bit_self_iff unfolding b byte_masks high_masks
    by (simp_all add: bit_simps)
  show "push_bit 6 (push_bit 6 (push_bit 6 (ucast (b0 AND 0x07)) OR (ucast b1 AND 0x3F)) OR (ucast b2 AND 0x3F)) OR (ucast b3 AND 0x3F) = c"
    using assms(1) unfolding char_bounds take_bit_zeros unfolding b byte_masks high_masks
    by (intro unichar_eqI) (simp_all add: bit_simps)
qed

end
