(* ===== verification/Utf8Ok.thy ===== *)
theory Utf8Ok
  imports Utf8Bits
begin

text \<open>
  What \<open>bson_utf8_validate\<close> accepts: the concatenations of the encodings of Unicode scalar values. With
  \<open>allow_null\<close> the encoding of 0 and its overlong form \<open>C0 80\<close> are characters too.
\<close>

definition scalar :: "unichar \<Rightarrow> bool" where
  "scalar c \<longleftrightarrow> c \<le> 0x10FFFF \<and> \<not> (0xD800 \<le> c \<and> c \<le> 0xDFFF)"

definition utf8_char :: "bool \<Rightarrow> byte list \<Rightarrow> bool" where
  "utf8_char allow_null e \<longleftrightarrow>
     (\<exists>c. scalar c \<and> (allow_null \<or> c \<noteq> 0) \<and> e = utf8_from_unichar c) \<or> (allow_null \<and> e = [0xC0, 0x80])"

lemma surrogate: "c AND 0xFFFFF800 = 0xD800 \<longleftrightarrow> 0xD800 \<le> c \<and> c \<le> 0xDFFF" for c :: unichar
proof -
  have m: "0xFFFFF800 = (push_bit 11 (mask 21) :: unichar)" by (simp add: mask_eq_exp_minus_1)
  have p: "c AND 0xFFFFF800 = push_bit 11 (drop_bit 11 c)"
    unfolding m by (rule bit_eqI) (auto simp: bit_simps dest: bit_imp_le_length)
  have d: "drop_bit 11 (c AND 0xFFFFF800) = drop_bit 11 c"
    unfolding p by (rule bit_eqI) (auto simp: bit_simps dest: bit_imp_le_length)
  have "c AND 0xFFFFF800 = 0xD800 \<longleftrightarrow> drop_bit 11 c = 0x1B" using d by (auto simp: p)
  also have "\<dots> \<longleftrightarrow> unat c div 2048 = 27"
    by (simp only: word_unat_eq_iff unat_drop_bit_eq) (simp add: drop_bit_eq_div)
  also have "\<dots> \<longleftrightarrow> 0xD800 \<le> c \<and> c \<le> 0xDFFF" by (simp add: word_le_nat_alt) linarith
  finally show ?thesis .
qed

lemma sequence_simps:
  "b AND 0x80 = 0 \<Longrightarrow> utf8_get_sequence b = (1, 0x7F)"
  "b AND 0xE0 = 0xC0 \<Longrightarrow> utf8_get_sequence b = (2, 0x1F)"
  "b AND 0xF0 = 0xE0 \<Longrightarrow> utf8_get_sequence b = (3, 0x0F)"
  "b AND 0xF8 = 0xF0 \<Longrightarrow> utf8_get_sequence b = (4, 0x07)"
  unfolding utf8_get_sequence_def pattern by auto

lemma nonzero_cont: "b AND 0xC0 = 0x80 \<Longrightarrow> b \<noteq> 0" "b AND 0xE0 = 0xC0 \<Longrightarrow> b \<noteq> 0"
  "b AND 0xF0 = 0xE0 \<Longrightarrow> b \<noteq> 0" "b AND 0xF8 = 0xF0 \<Longrightarrow> b \<noteq> 0" for b :: byte
  by auto

lemma sequence_cases:
  assumes "utf8_get_sequence b = (l, f)"
  obtains "l = 0" | "b AND 0x80 = 0" "l = 1" "f = 0x7F" | "b AND 0xE0 = 0xC0" "l = 2" "f = 0x1F"
  | "b AND 0xF0 = 0xE0" "l = 3" "f = 0x0F" | "b AND 0xF8 = 0xF0" "l = 4" "f = 0x07"
  using assms unfolding utf8_get_sequence_def by (auto split: if_splits)

lemma take_unfold:
  "i < length m \<Longrightarrow> take (Suc k) (drop i m) = m ! i # take k (drop (Suc i) m)"
  by (simp add: Cons_nth_drop_Suc[symmetric])

lemma from_unichar_simps:
  "c \<le> 0x7F \<Longrightarrow> utf8_from_unichar c = [ucast c]"
  "0x80 \<le> c \<Longrightarrow> c \<le> 0x7FF \<Longrightarrow> utf8_from_unichar c =
     [0xC0 OR ucast (drop_bit 6 c AND 0x3F), 0x80 OR ucast (c AND 0x3F)]"
  "0x800 \<le> c \<Longrightarrow> c \<le> 0xFFFF \<Longrightarrow> utf8_from_unichar c =
     [0xE0 OR ucast (drop_bit 12 c AND 0xF), 0x80 OR ucast (drop_bit 6 c AND 0x3F), 0x80 OR ucast (c AND 0x3F)]"
  "0x10000 \<le> c \<Longrightarrow> c \<le> 0x10FFFF \<Longrightarrow> utf8_from_unichar c =
     [0xF0 OR ucast (drop_bit 18 c AND 0x7), 0x80 OR ucast (drop_bit 12 c AND 0x3F),
      0x80 OR ucast (drop_bit 6 c AND 0x3F), 0x80 OR ucast (c AND 0x3F)]"
  unfolding utf8_from_unichar_def by (simp_all add: word_le_nat_alt)

definition acceptable :: "nat \<Rightarrow> bool \<Rightarrow> unichar \<Rightarrow> bool" where
  "acceptable l a c \<longleftrightarrow> \<not> c > 0x10FFFF \<and> c AND 0xFFFFF800 \<noteq> 0xD800 \<and> shortest_form l c a"

lemma acceptable_1: "acceptable (Suc 0) a c \<longleftrightarrow> c \<le> 0x7F"
  unfolding acceptable_def surrogate shortest_form_def by (auto simp: word_le_nat_alt word_less_nat_alt)

lemma acceptable_2: "acceptable 2 a c \<longleftrightarrow> 0x80 \<le> c \<and> c \<le> 0x7FF \<or> c = 0 \<and> a"
  unfolding acceptable_def surrogate shortest_form_def by (auto simp: word_le_nat_alt word_less_nat_alt)

lemma acceptable_3: "acceptable 3 a c \<longleftrightarrow> 0x800 \<le> c \<and> c \<le> 0xFFFF \<and> scalar c"
  unfolding acceptable_def scalar_def surrogate shortest_form_def by (auto simp: word_le_nat_alt word_less_nat_alt)

lemma acceptable_4: "acceptable 4 a c \<longleftrightarrow> 0x10000 \<le> c \<and> c \<le> 0x10FFFF"
  unfolding acceptable_def surrogate shortest_form_def by (auto simp: word_le_nat_alt word_less_nat_alt)

lemma unichar_wide: "c \<le> 0x10FFFF \<Longrightarrow> c \<le> 0x1FFFFF" for c :: unichar
  by (simp add: word_le_nat_alt)

lemma scalar_small: "c \<le> 0x7FF \<Longrightarrow> scalar c" "0x10000 \<le> c \<Longrightarrow> c \<le> 0x10FFFF \<Longrightarrow> scalar c"
  unfolding scalar_def by (simp_all add: word_le_nat_alt)

lemma scalar_cases:
  assumes "scalar c"
  obtains "c \<le> 0x7F" | "0x80 \<le> c" "c \<le> 0x7FF" | "0x800 \<le> c" "c \<le> 0xFFFF" | "0x10000 \<le> c" "c \<le> 0x10FFFF"
  using assms unfolding scalar_def by (simp add: word_le_nat_alt) linarith

lemma validate_one_unfold:
  assumes "i < n" "n \<le> length m" "utf8_get_sequence (m ! i) = (l, f)" "l \<noteq> 0" "i + l \<le> n"
    and "continuation m (Suc i) (l - 1) (ucast (m ! i AND f)) = Inr (Some c)"
    and "no_nul m n i l = Inr z"
  shows "validate_one m n a i = Inr (if (a \<or> z) \<and> acceptable l a c then Some l else None)"
  using assms by (auto simp: validate_one_def acceptable_def)

lemma no_nul_result: "i + l \<le> n \<Longrightarrow> n \<le> length m \<Longrightarrow> no_nul m n i l = Inr (\<forall>j < l. m ! (i + j) \<noteq> 0)"
proof (induction l arbitrary: i)
  case (Suc l)
  have "(\<forall>j < Suc l. m ! (i + j) \<noteq> 0) \<longleftrightarrow> m ! i \<noteq> 0 \<and> (\<forall>j < l. m ! (Suc i + j) \<noteq> 0)"
    by (auto simp: less_Suc_eq_0_disj)
  with Suc show ?case by simp
qed simp

lemma continuation_returns: "j + k \<le> length m \<Longrightarrow> \<exists>r. continuation m j k c = Inr r"
  by (induction m j k c rule: continuation.induct) auto

lemma validate_one_returns:
  assumes "i < n" "n \<le> length m" shows "\<exists>r. validate_one m n a i = Inr r"
proof -
  obtain l f where l: "utf8_get_sequence (m ! i) = (l, f)" by fastforce
  show ?thesis
  proof (cases "l = 0 \<or> n - i < l")
    case True then show ?thesis using assms l by (auto simp: validate_one_def)
  next
    case False
    then obtain r where r: "continuation m (Suc i) (l - 1) (ucast (m ! i AND f)) = Inr r"
      using continuation_returns[of "Suc i" "l - 1" m] assms by fastforce
    show ?thesis using False assms l r no_nul_result[of i l n m]
      by (cases r) (auto simp: validate_one_def)
  qed
qed

lemma validate_seq1:
  assumes "i < n" "n \<le> length m" "m ! i AND 0x80 = 0"
  shows "validate_one m n a i = Inr (if a \<or> m ! i \<noteq> 0 then Some 1 else None)"
  using validate_one_unfold[of i n m 1 "0x7F" "ucast (m ! i AND 0x7F)" "m ! i \<noteq> 0" a]
    no_nul_result[of i 1 n m] enc1[OF assms(3)] assms
  by (simp add: sequence_simps acceptable_1)

lemma continuation_step:
  "j < length m \<Longrightarrow> m ! j AND 0xC0 = 0x80 \<Longrightarrow>
   continuation m j (Suc k) c = continuation m (Suc j) k (push_bit 6 c OR (ucast (m ! j) AND 0x3F))"
  by simp

lemma validate_multi:
  assumes "i + l \<le> n" "n \<le> length m" "utf8_get_sequence (m ! i) = (l, f)" "0 < l" "m ! i \<noteq> 0"
    and tail: "\<forall>x < l - 1. m ! (Suc i + x) AND 0xC0 = 0x80"
    and c: "continuation m (Suc i) (l - 1) (ucast (m ! i AND f)) = Inr (Some c)"
  shows "validate_one m n a i = Inr (if acceptable l a c then Some l else None)"
proof -
  have "\<forall>j < l. m ! (i + j) \<noteq> 0"
  proof (intro allI impI)
    fix j assume "j < l"
    then show "m ! (i + j) \<noteq> 0" using tail assms(4,5) nonzero_cont(1) by (cases j) auto
  qed
  then have "no_nul m n i l = Inr True" using no_nul_result[of i l n m] assms by simp
  then show ?thesis using validate_one_unfold[of i n m l f c True a] assms by simp
qed

lemma validate_seq2:
  assumes "i + 2 \<le> n" "n \<le> length m" "m ! i AND 0xE0 = 0xC0" "m ! (i + 1) AND 0xC0 = 0x80"
    and c: "c = push_bit 6 (ucast (m ! i AND 0x1F)) OR (ucast (m ! (i + 1)) AND 0x3F)"
  shows "validate_one m n a i = Inr (if acceptable 2 a c then Some 2 else None)"
proof (rule validate_multi[where f = "0x1F"])
  show "continuation m (Suc i) (2 - 1) (ucast (m ! i AND 0x1F)) = Inr (Some c)"
    using continuation_step[of "Suc i" m 0] assms by simp
qed (use assms nonzero_cont in \<open>auto simp: sequence_simps\<close>)

lemma validate_seq3:
  assumes "i + 3 \<le> n" "n \<le> length m" "m ! i AND 0xF0 = 0xE0" "m ! (i + 1) AND 0xC0 = 0x80" "m ! (i + 2) AND 0xC0 = 0x80"
    and c: "c = push_bit 6 (push_bit 6 (ucast (m ! i AND 0x0F)) OR (ucast (m ! (i + 1)) AND 0x3F)) OR (ucast (m ! (i + 2)) AND 0x3F)"
  shows "validate_one m n a i = Inr (if acceptable 3 a c then Some 3 else None)"
proof (rule validate_multi[where f = "0x0F"])
  show "continuation m (Suc i) (3 - 1) (ucast (m ! i AND 0x0F)) = Inr (Some c)"
    using continuation_step[of "Suc i" m 1] continuation_step[of "Suc (Suc i)" m 0] assms(1,2,4,5) unfolding c
    by (simp add: numeral_2_eq_2)
  show "\<forall>x < 3 - 1. m ! (Suc i + x) AND 0xC0 = 0x80" using assms by (simp add: numeral_2_eq_2 less_Suc_eq_0_disj)
qed (use assms nonzero_cont in \<open>auto simp: sequence_simps\<close>)

lemma validate_seq4:
  assumes "i + 4 \<le> n" "n \<le> length m" "m ! i AND 0xF8 = 0xF0" "m ! (i + 1) AND 0xC0 = 0x80" "m ! (i + 2) AND 0xC0 = 0x80"
    "m ! (i + 3) AND 0xC0 = 0x80"
    and c: "c = push_bit 6 (push_bit 6 (push_bit 6 (ucast (m ! i AND 0x07)) OR (ucast (m ! (i + 1)) AND 0x3F)) OR
      (ucast (m ! (i + 2)) AND 0x3F)) OR (ucast (m ! (i + 3)) AND 0x3F)"
  shows "validate_one m n a i = Inr (if acceptable 4 a c then Some 4 else None)"
proof (rule validate_multi[where f = "0x07"])
  show "continuation m (Suc i) (4 - 1) (ucast (m ! i AND 0x07)) = Inr (Some c)"
    using continuation_step[of "Suc i" m 2] continuation_step[of "Suc (Suc i)" m 1] continuation_step[of "Suc (Suc (Suc i))" m 0]
      assms(1,2,4-6) unfolding c by (simp add: numeral_2_eq_2 numeral_3_eq_3)
  show "\<forall>x < 4 - 1. m ! (Suc i + x) AND 0xC0 = 0x80" using assms by (auto simp: numeral_2_eq_2 numeral_3_eq_3 less_Suc_eq_0_disj)
qed (use assms nonzero_cont in \<open>auto simp: sequence_simps\<close>)

lemma continuation_bytes:
  "continuation m j k c = Inr (Some d) \<Longrightarrow> \<forall>x < k. m ! (j + x) AND 0xC0 = 0x80"
proof (induction m j k c rule: continuation.induct)
  case (2 m j k c)
  then show ?case by (auto simp: bind_res_eq_Inr rd8_eq_Inr less_Suc_eq_0_disj split: if_splits)
qed simp

lemma validate_one_shape:
  assumes "validate_one m n a i = Inr (Some l)" "i < n" "n \<le> length m"
  shows "\<exists>f. utf8_get_sequence (m ! i) = (l, f) \<and> l \<noteq> 0 \<and> i + l \<le> n \<and> (\<forall>x < l - 1. m ! (Suc i + x) AND 0xC0 = 0x80)"
proof -
  obtain k f where k: "utf8_get_sequence (m ! i) = (k, f)" by fastforce
  have "k \<noteq> 0" "\<not> n - i < k" using assms k by (auto simp: validate_one_def split: if_splits)
  then have "k = l \<and> (\<exists>d. continuation m (Suc i) (k - 1) (ucast (m ! i AND f)) = Inr (Some d))"
    using assms k by (simp add: validate_one_def bind_res_eq_Inr map_res_eq_Inr split: if_splits option.splits)
      (auto simp: bind_res_eq_Inr map_res_eq_Inr split: if_splits option.splits)
  then show ?thesis using k \<open>k \<noteq> 0\<close> \<open>\<not> n - i < k\<close> assms(2) continuation_bytes by fastforce
qed

lemma utf8_char_of: "scalar c \<Longrightarrow> a \<or> c \<noteq> 0 \<Longrightarrow> e = utf8_from_unichar c \<Longrightarrow> utf8_char a e"
  unfolding utf8_char_def by blast

lemma ascii_scalar: "c \<le> 0x7F \<Longrightarrow> scalar c"
  unfolding scalar_def by (simp add: word_le_nat_alt)

lemma nonzero_bounds: "0x80 \<le> c \<Longrightarrow> c \<noteq> 0" "0x800 \<le> c \<Longrightarrow> c \<noteq> 0" "0x10000 \<le> c \<Longrightarrow> c \<noteq> 0" for c :: unichar
  by auto

text \<open>What one round accepts is a character \<dots>\<close>

abbreviation window :: "byte list \<Rightarrow> nat \<Rightarrow> nat \<Rightarrow> byte list" where
  "window m i l \<equiv> map (\<lambda>j. m ! (i + j)) [0..<l]"

lemma sound2:
  assumes v: "validate_one m n a i = Inr (Some 2)" and i: "i + 2 \<le> n" "n \<le> length m"
    and b: "m ! i AND 0xE0 = 0xC0" "m ! (i + 1) AND 0xC0 = 0x80"
  shows "utf8_char a (window m i 2)"
proof -
  define c where "c = push_bit 6 (ucast (m ! i AND 0x1F)) OR (ucast (m ! (i + 1)) AND 0x3F :: unichar)"
  have e: "window m i 2 = [0xC0 OR ucast (drop_bit 6 c AND 0x3F), 0x80 OR ucast (c AND 0x3F)]"
    using enc2[OF b c_def] by (simp add: upt_rec)
  have "acceptable 2 a c" using validate_seq2[OF i b c_def, of a] v by (simp split: if_splits)
  then have "0x80 \<le> c \<and> c \<le> 0x7FF \<or> c = 0 \<and> a" by (simp add: acceptable_2)
  then show ?thesis
  proof
    assume "c = 0 \<and> a" then show ?thesis unfolding e by (simp add: utf8_char_def)
  next
    assume *: "0x80 \<le> c \<and> c \<le> 0x7FF"
    then show ?thesis unfolding e using from_unichar_simps(2)[of c] scalar_small(1)[of c] nonzero_bounds(1)[of c]
      by (intro utf8_char_of[of c]) auto
  qed
qed

lemma sound3:
  assumes v: "validate_one m n a i = Inr (Some 3)" and i: "i + 3 \<le> n" "n \<le> length m"
    and b: "m ! i AND 0xF0 = 0xE0" "m ! (i + 1) AND 0xC0 = 0x80" "m ! (i + 2) AND 0xC0 = 0x80"
  shows "utf8_char a (window m i 3)"
proof -
  define c where "c = push_bit 6 (push_bit 6 (ucast (m ! i AND 0x0F)) OR (ucast (m ! (i + 1)) AND 0x3F)) OR (ucast (m ! (i + 2)) AND 0x3F :: unichar)"
  have "acceptable 3 a c" using validate_seq3[OF i b c_def, of a] v by (simp split: if_splits)
  then have "0x800 \<le> c" "c \<le> 0xFFFF" "scalar c" by (simp_all add: acceptable_3)
  then show ?thesis
    using enc3[OF b c_def] from_unichar_simps(3)[of c] nonzero_bounds(2)[of c]
    by (intro utf8_char_of[of c]) (simp_all add: upt_rec)
qed

lemma sound4:
  assumes v: "validate_one m n a i = Inr (Some 4)" and i: "i + 4 \<le> n" "n \<le> length m"
    and b: "m ! i AND 0xF8 = 0xF0" "m ! (i + 1) AND 0xC0 = 0x80" "m ! (i + 2) AND 0xC0 = 0x80" "m ! (i + 3) AND 0xC0 = 0x80"
  shows "utf8_char a (window m i 4)"
proof -
  define c where "c = push_bit 6 (push_bit 6 (push_bit 6 (ucast (m ! i AND 0x07)) OR (ucast (m ! (i + 1)) AND 0x3F)) OR
    (ucast (m ! (i + 2)) AND 0x3F)) OR (ucast (m ! (i + 3)) AND 0x3F :: unichar)"
  have "acceptable 4 a c" using validate_seq4[OF i b c_def, of a] v by (simp split: if_splits)
  then have "0x10000 \<le> c" "c \<le> 0x10FFFF" by (simp_all add: acceptable_4)
  then show ?thesis
    using enc4[OF b c_def] from_unichar_simps(4)[of c] nonzero_bounds(3)[of c] scalar_small(2)[of c]
    by (intro utf8_char_of[of c]) (simp_all add: upt_rec numeral_3_eq_3)
qed

lemma validate_one_sound:
  assumes v: "validate_one m n a i = Inr (Some l)" and i: "i < n" "n \<le> length m"
  shows "i + l \<le> n \<and> l \<noteq> 0 \<and> utf8_char a (take l (drop i m))"
proof -
  obtain f where f: "utf8_get_sequence (m ! i) = (l, f)" "l \<noteq> 0" "i + l \<le> n"
    and tail: "\<forall>x < l - 1. m ! (Suc i + x) AND 0xC0 = 0x80" using validate_one_shape[OF assms] by blast
  have t: "take l (drop i m) = window m i l" using f i by (intro nth_equalityI) auto
  from f(1) have "utf8_char a (window m i l)"
  proof (cases rule: sequence_cases)
    case 2
    then show ?thesis using v i f enc1[OF 2(1)] validate_seq1[OF i 2(1), of a]
      by (intro utf8_char_of[of "ucast (m ! i AND 0x7F)"])
        (auto simp: from_unichar_simps intro: ascii_scalar split: if_splits)
  next
    case 3 then show ?thesis using sound2[of m n a i] v i f tail by auto
  next
    case 4 then show ?thesis using sound3[of m n a i] v i f tail[rule_format, of 0] tail[rule_format, of 1] by auto
  next
    case 5 then show ?thesis
      using sound4[of m n a i] v i f tail[rule_format, of 0] tail[rule_format, of 1] tail[rule_format, of 2]
      by (auto simp: numeral_3_eq_3)
  qed (use f in simp)
  then show ?thesis using f t by simp
qed

text \<open>\<dots> and every character is accepted.\<close>

lemma prefix_nth: "take (length e) (drop i m) = e \<Longrightarrow> i + length e \<le> length m \<Longrightarrow> j < length e \<Longrightarrow> m ! (i + j) = e ! j"
  by (metis add_leD1 nth_drop nth_take)

lemma nth_Cons_numerals: "(x # y # ys) ! 1 = y" "(x # y # z # ys) ! 2 = z" "(x # y # z # w # ys) ! 3 = w"
  by (simp_all add: numeral_2_eq_2 numeral_3_eq_3)

lemma complete_char:
  assumes c: "scalar c" "a \<or> c \<noteq> 0" and e: "e = utf8_from_unichar c" "take (length e) (drop i m) = e"
    and i: "i + length e \<le> n" "n \<le> length m"
  shows "validate_one m n a i = Inr (Some (length e))"
proof -
  have m: "\<And>j. j < length e \<Longrightarrow> m ! (i + j) = e ! j" using prefix_nth[OF e(2)] i by simp
  from c(1) show ?thesis
  proof (cases rule: scalar_cases)
    case 1
    then have e': "e = [ucast c]" using e(1) by (simp add: from_unichar_simps)
    note d = dec1[OF 1 refl]
    have "(ucast c :: byte) = 0 \<Longrightarrow> c = 0" using d by auto
    then show ?thesis using validate_seq1[of i n m a] d m[of 0] e' c(2) i by auto
  next
    case 2
    then have e': "e = [0xC0 OR ucast (drop_bit 6 c AND 0x3F), 0x80 OR ucast (c AND 0x3F)]"
      using e(1) by (simp add: from_unichar_simps)
    have l: "length e = 2" by (simp add: e')
    have b: "m ! i = e ! 0" "m ! (i + 1) = e ! 1" using m[of 0] m[of 1] l by simp_all
    note d = dec2[OF 2(2) b[unfolded e' nth_Cons_0 nth_Cons_numerals]]
    show ?thesis using validate_seq2[of i n m c a] d i unfolding l by (simp only: acceptable_2 2 if_True simp_thms)
  next
    case 3
    then have e': "e = [0xE0 OR ucast (drop_bit 12 c AND 0xF), 0x80 OR ucast (drop_bit 6 c AND 0x3F), 0x80 OR ucast (c AND 0x3F)]"
      using e(1) by (simp add: from_unichar_simps)
    have l: "length e = 3" by (simp add: e')
    have b: "m ! i = e ! 0" "m ! (i + 1) = e ! 1" "m ! (i + 2) = e ! 2" using m[of 0] m[of 1] m[of 2] l by simp_all
    note d = dec3[OF 3(2) b[unfolded e' nth_Cons_0 nth_Cons_numerals]]
    show ?thesis using validate_seq3[of i n m c a] d i unfolding l by (simp only: acceptable_3 3 c(1) if_True simp_thms)
  next
    case 4
    then have e': "e = [0xF0 OR ucast (drop_bit 18 c AND 0x7), 0x80 OR ucast (drop_bit 12 c AND 0x3F),
      0x80 OR ucast (drop_bit 6 c AND 0x3F), 0x80 OR ucast (c AND 0x3F)]"
      using e(1) by (simp add: from_unichar_simps)
    have l: "length e = 4" by (simp add: e')
    have b: "m ! i = e ! 0" "m ! (i + 1) = e ! 1" "m ! (i + 2) = e ! 2" "m ! (i + 3) = e ! 3"
      using m[of 0] m[of 1] m[of 2] m[of 3] l by simp_all
    note d = dec4[OF unichar_wide[OF 4(2)] b[unfolded e' nth_Cons_0 nth_Cons_numerals]]
    show ?thesis using validate_seq4[of i n m c a] d i unfolding l by (simp only: acceptable_4 4 if_True simp_thms)
  qed
qed

lemma validate_one_complete:
  assumes e: "utf8_char a e" "take (length e) (drop i m) = e" and i: "i + length e \<le> n" "n \<le> length m"
  shows "validate_one m n a i = Inr (Some (length e))"
  using e(1) unfolding utf8_char_def
proof (elim disjE exE conjE)
  assume *: "a" "e = [0xC0, 0x80]"
  then have "m ! i = 0xC0" "m ! (i + 1) = 0x80" using prefix_nth[OF e(2), of 0] prefix_nth[OF e(2), of 1] i by auto
  then show ?thesis using validate_seq2[of i n m 0 a] * i by (simp add: acceptable_2)
qed (use complete_char[OF _ _ _ e(2) i] in blast)+

text \<open>The loop.\<close>

definition utf8_text :: "bool \<Rightarrow> byte list \<Rightarrow> bool" where
  "utf8_text allow_null t \<longleftrightarrow> (\<exists>es. (\<forall>e \<in> set es. utf8_char allow_null e) \<and> t = concat es)"

lemma utf8_text_Nil: "utf8_text a []"
  unfolding utf8_text_def by (rule exI[of _ "[]"]) simp

lemma utf8_text_append: "utf8_char a e \<Longrightarrow> utf8_text a t \<Longrightarrow> utf8_text a (e @ t)"
  unfolding utf8_text_def by (metis concat.simps(2) set_ConsD)

lemma window_split: "i + l \<le> n \<Longrightarrow> take (n - i) (drop i m) = take l (drop i m) @ take (n - (i + l)) (drop (i + l) m)"
  by (metis add.commute diff_add_inverse2 drop_drop le_add_diff_inverse take_add diff_diff_left add_le_imp_le_diff)

lemma validate_loop_sound:
  "utf8_validate_loop m n a i = Inr True \<Longrightarrow> n \<le> length m \<Longrightarrow> i \<le> n \<Longrightarrow> utf8_text a (take (n - i) (drop i m))"
proof (induction m n a i rule: utf8_validate_loop.induct)
  case (1 m n a i)
  show ?case
  proof (cases "i < n")
    case True
    then obtain l where l: "validate_one m n a i = Inr (Some l)" "utf8_validate_loop m n a (i + l) = Inr True"
      using "1.prems"(1) by (subst (asm) utf8_validate_loop.simps) (auto split: sum.splits option.splits)
    then show ?thesis
      using "1.IH"[OF True l(1)] validate_one_sound[OF l(1) True "1.prems"(2)] "1.prems"(2)
      by (simp add: window_split[of i l n m] utf8_text_append)
  qed (use "1.prems" in \<open>simp add: utf8_text_Nil\<close>)
qed

lemma validate_loop_complete:
  "\<forall>e \<in> set es. utf8_char a e \<Longrightarrow> take (n - i) (drop i m) = concat es \<Longrightarrow> n \<le> length m \<Longrightarrow> i \<le> n \<Longrightarrow>
   utf8_validate_loop m n a i = Inr True"
proof (induction es arbitrary: i)
  case Nil
  then have "\<not> i < n" by auto
  then show ?case by (simp add: utf8_validate_loop.simps[of m n a i])
next
  case (Cons e es)
  have len: "length e + length (concat es) = n - i" using Cons.prems(2-4) by (metis concat.simps(2) length_append length_take length_drop min.absorb2 diff_le_mono)
  have p: "take (length e) (drop i m) = e" 
    using arg_cong[OF Cons.prems(2), of "take (length e)"] len by simp
  have v: "validate_one m n a i = Inr (Some (length e))"
    using validate_one_complete[of a e i m n] Cons.prems p len by simp
  then have pos: "0 < length e" using validate_one_pos by blast
  have "take (n - (i + length e)) (drop (i + length e) m) = concat es"
    using Cons.prems(2) window_split[of i "length e" n m] p len pos by simp
  then show ?case using Cons.IH[of "i + length e"] Cons.prems v len pos
    by (subst utf8_validate_loop.simps) simp
qed

lemma validate_loop_returns: "n \<le> length m \<Longrightarrow> \<exists>z. utf8_validate_loop m n a i = Inr z"
proof (induction m n a i rule: utf8_validate_loop.induct)
  case (1 m n a i)
  show ?case
  proof (cases "i < n")
    case True
    then obtain r where "validate_one m n a i = Inr r" using validate_one_returns "1.prems" by blast
    then show ?thesis using "1.IH" True "1.prems" by (cases r) (fastforce simp: utf8_validate_loop.simps[of m n a i])+
  qed (fastforce simp: utf8_validate_loop.simps[of m n a i])
qed

lemma validate_text: "n \<le> length m \<Longrightarrow> bson_utf8_validate m n a = Inr (utf8_text a (take n m))"
proof -
  assume n: "n \<le> length m"
  obtain z where z: "utf8_validate_loop m n a 0 = Inr z" using validate_loop_returns[OF n] by blast
  have "z \<longleftrightarrow> utf8_text a (take n m)"
    using validate_loop_sound[of m n a 0] validate_loop_complete[of _ a n 0 m] z n by (auto simp: utf8_text_def)
  then show ?thesis using z by (simp add: bson_utf8_validate_def)
qed

end
