(* ===== verification/CodecProps.thy ===== *)
theory CodecProps
  imports Base64Ok Utf8Ok
begin

text \<open>Properties of the base 64 and UTF-8 routines.\<close>

text \<open>C39: What the base 64 encoder writes into a buffer of the size it asks for, the decoder reads
  back: it returns the number of the bytes, the bytes are at the front of its target, and the function
  that only counts agrees. The target needs the room of whole groups of three bytes.\<close>

theorem base64_roundtrip:
  assumes "3 * ((length src + 2) div 3) \<le> length target"
  shows "\<exists>text t'. mcommon_b64_ntop src (ntop_target_size (length src)) = Inr (Some text)
     \<and> length text = ntop_target_size (length src)
     \<and> mongoc_b64_pton_do text target (length target) = Inr (Some (t', length src))
     \<and> take (length src) t' = src \<and> length t' = length target
     \<and> mongoc_b64_pton_len text = Inr (Some (length src))"
proof -
  let ?text = "b64_text src @ [0]"
  obtain t' where t': "mongoc_b64_pton_do ?text target (length target) = Inr (Some (t', length src))" "decoded 0 src target t'"
    using decode_text[of "length target" target 0 src "[]"] assms by (auto simp: pton_do_finish)
  have "mongoc_b64_pton_len ?text = Inr (Some (length src))"
    using pton_do_safe[of ?text "length target" target] t'(1) by (auto simp: returns_def)
  then show ?thesis using t' ntop_text text_size length_b64_text[of src] by (intro exI[of _ ?text] exI[of _ t']) (auto simp: decoded_def)
qed

theorem base64_roundtrip_witness:
  "\<exists>text t'. mcommon_b64_ntop [0x52, 0, 0xFF, 7] (ntop_target_size 4) = Inr (Some text)
     \<and> length text = ntop_target_size 4
     \<and> mongoc_b64_pton_do text [0, 0, 0, 0, 0, 0] 6 = Inr (Some (t', 4))
     \<and> take 4 t' = [0x52, 0, 0xFF, 7] \<and> length t' = 6
     \<and> mongoc_b64_pton_len text = Inr (Some 4)"
proof -
  have len: "length [0x52, 0, 0xFF, 7 :: byte] = 4" "length [0, 0, 0, 0, 0, 0 :: byte] = 6" by simp_all
  show ?thesis using base64_roundtrip[of "[0x52, 0, 0xFF, 7]" "[0, 0, 0, 0, 0, 0]"] unfolding len by simp
qed

text \<open>C40: The validator reads inside its buffer and accepts exactly the texts that are concatenations of
  the UTF-8 encodings of Unicode scalar values; where NUL is allowed, of 0 and of its overlong form too.\<close>

theorem utf8_validate_exact:
  assumes "utf8_len \<le> length utf8"
  shows "bson_utf8_validate utf8 utf8_len allow_null = Inr (utf8_text allow_null (take utf8_len utf8))"
  by (rule validate_text[OF assms])

theorem utf8_validate_exact_witness:
  "bson_utf8_validate [0xE2, 0x82, 0xAC, 0x41] 4 False = Inr True"
proof -
  have "utf8_char False [0xE2, 0x82, 0xAC]" "utf8_char False [0x41]"
    by (rule utf8_char_of[of "0x20AC"] utf8_char_of[of "0x41"]; simp add: scalar_def utf8_from_unichar_def)+
  then have "utf8_text False ([0xE2, 0x82, 0xAC] @ [0x41] @ [])"
    by (intro utf8_text_append utf8_text_Nil)
  then show ?thesis using utf8_validate_exact[of 4 "[0xE2, 0x82, 0xAC, 0x41]" False] by simp
qed

end
