(* ===== verification/Rpc.thy ===== *)
theory Rpc
  imports Endian
begin

text \<open>
  Messages of the wire protocol (\<open>src/src/mongoc/mcd-rpc.c\<close>): the parser that reads what a server sent, and
  the conversion of a message to the vectors that are written to a socket. The union of the structs of the
  operations is the datatype \<open>rpc_op\<close>, whose constructor stands for the operation code of the header; a pointer into the buffer is the memory from there on, with its
  length beside it as in the structs, and an \<open>int32_t\<close> is a word that is compared as signed.
\<close>

section \<open>Messages\<close>

datatype rpc_section =
    Body (section_len: "32 word") (section_bson: "byte list")
  | Sequence (section_len: "32 word") (seq_identifier: "byte list") (seq_identifier_len: nat)
      (bson_objects: "byte list") (bson_objects_len: nat)

record op_compressed =
  cp_original_opcode :: "32 word"
  cp_uncompressed_size :: "32 word"
  cp_compressor_id :: byte
  cp_message :: "byte list"
  cp_message_len :: nat

record op_msg =
  om_flag_bits :: "32 word"
  om_sections :: "rpc_section list"
  om_checksum :: "32 word option"

record op_reply =
  or_response_flags :: "32 word"
  or_cursor_id :: "64 word"
  or_starting_from :: "32 word"
  or_number_returned :: "32 word"
  or_documents :: "byte list option"
  or_documents_len :: nat

record op_update =
  ou_name :: "byte list"
  ou_name_len :: nat
  ou_flags :: "32 word"
  ou_selector :: "byte list"
  ou_update :: "byte list"

record op_insert =
  oi_flags :: "32 word"
  oi_name :: "byte list"
  oi_name_len :: nat
  oi_documents :: "byte list"
  oi_documents_len :: nat

record op_query =
  oq_flags :: "32 word"
  oq_name :: "byte list"
  oq_name_len :: nat
  oq_number_to_skip :: "32 word"
  oq_number_to_return :: "32 word"
  oq_query :: "byte list"
  oq_fields :: "byte list option"

record op_get_more =
  og_name :: "byte list"
  og_name_len :: nat
  og_number_to_return :: "32 word"
  og_cursor_id :: "64 word"

record op_delete =
  od_name :: "byte list"
  od_name_len :: nat
  od_flags :: "32 word"
  od_selector :: "byte list"

record op_kill_cursors =
  ok_number_of_cursor_ids :: "32 word"
  ok_cursor_ids :: "64 word list"

datatype rpc_op =
    Compressed op_compressed
  | Msg op_msg
  | Reply op_reply
  | Update op_update
  | Insert op_insert
  | Query op_query
  | Get_more op_get_more
  | Delete op_delete
  | Kill_cursors op_kill_cursors
  | No_op "32 word"

record rpc_message =
  rm_message_length :: "32 word"
  rm_request_id :: "32 word"
  rm_response_to :: "32 word"
  rm_in_iovecs :: bool
  rm_op :: rpc_op

definition rm_op_code :: "rpc_op \<Rightarrow> 32 word" where
  "rm_op_code op = (case op of Compressed _ \<Rightarrow> 2012 | Msg _ \<Rightarrow> 2013 | Reply _ \<Rightarrow> 1 | Update _ \<Rightarrow> 2001 | Insert _ \<Rightarrow> 2002
     | Query _ \<Rightarrow> 2004 | Get_more _ \<Rightarrow> 2005 | Delete _ \<Rightarrow> 2006 | Kill_cursors _ \<Rightarrow> 2007 | No_op code \<Rightarrow> code)"

section \<open>The cursor of the parser\<close>

text \<open>
  The cursor is the offset of \<open>*ptr\<close> in the data and \<open>*remaining_bytes\<close>. A parser returns the cursor
  also where it fails, because \<open>data_end\<close> and the section of a document sequence use it then.
\<close>

type_synonym cursor = "nat \<times> nat"
type_synonym 'a parser = "cursor \<Rightarrow> (cursor \<times> 'a option) res"

definition bind_p :: "'a parser \<Rightarrow> ('a \<Rightarrow> 'b parser) \<Rightarrow> 'b parser" where
  "bind_p m f c = bind_res (m c) (\<lambda>(c, r). case r of None \<Rightarrow> Inr (c, None) | Some x \<Rightarrow> f x c)"

definition ret_p :: "'a \<Rightarrow> 'a parser" where
  "ret_p x c = Inr (c, Some x)"

text \<open>\<open>*ptr -= n; return false;\<close>\<close>

definition fail_back :: "nat \<Rightarrow> 'a parser" where
  "fail_back n c = Inr ((fst c - n, snd c), None)"

definition guard_p :: "bool \<Rightarrow> nat \<Rightarrow> unit parser" where
  "guard_p b n = (if b then ret_p () else fail_back n)"

definition position :: "cursor parser" where
  "position c = Inr (c, Some c)"

definition consume_uint8 :: "byte list \<Rightarrow> byte parser" where
  "consume_uint8 data c = (case c of (p, rem) \<Rightarrow>
     if rem < 1 then Inr (c, None) else map_res (\<lambda>v. ((p + 1, rem - 1), Some v)) (rd8 data p))"

definition consume_int32 :: "byte list \<Rightarrow> 32 word parser" where
  "consume_int32 data c = (case c of (p, rem) \<Rightarrow>
     if rem < 4 then Inr (c, None) else map_res (\<lambda>v. ((p + 4, rem - 4), Some v)) (mlib_read_u32le data p))"

definition consume_int64 :: "byte list \<Rightarrow> 64 word parser" where
  "consume_int64 data c = (case c of (p, rem) \<Rightarrow>
     if rem < 8 then Inr (c, None) else map_res (\<lambda>v. ((p + 8, rem - 8), Some v)) (mlib_read_u64le data p))"

fun utf8_scan :: "byte list \<Rightarrow> nat \<Rightarrow> nat \<Rightarrow> cursor res" where
  "utf8_scan data iter 0 = Inr (iter, 0)"
| "utf8_scan data iter (Suc rem) =
     bind_res (rd8 data iter) (\<lambda>b. if b \<noteq> 0 then utf8_scan data (Suc iter) rem else Inr (iter, Suc rem))"

text \<open>The string and its length with the NUL.\<close>

definition consume_utf8 :: "byte list \<Rightarrow> (byte list \<times> nat) parser" where
  "consume_utf8 data c = (case c of (p, rem) \<Rightarrow>
     map_res (\<lambda>(iter, r).
         if r = 0 then (c, None) else ((iter + 1, r - 1), Some (drop p data, rem - (r - 1))))
       (utf8_scan data p rem))"

definition consume_reserved_zero :: "byte list \<Rightarrow> unit parser" where
  "consume_reserved_zero data = bind_p (consume_int32 data) (\<lambda>zero. guard_p (zero = 0) 4)"

function bson_objects_loop :: "byte list \<Rightarrow> int \<Rightarrow> int \<Rightarrow> int parser" where
  "bson_objects_loop data limit count (p, rem) =
     (if count < limit \<and> rem > 0 then
        if rem < 4 then Inr ((p, rem), None)
        else bind_res (mlib_read_i32le data p) (\<lambda>doc_len.
          if doc_len < 5 \<or> doc_len > int (rem - 4) + 4 then Inr ((p + 4 - 4, rem - 4), None)
          else bson_objects_loop data limit (count + 1) (p + 4 + (nat doc_len - 4), rem - 4 - (nat doc_len - 4)))
      else Inr ((p, rem), Some count))"
  by pat_completeness auto
termination
  by (relation "measure (\<lambda>(data, limit, count, p, rem). rem)") auto

declare bson_objects_loop.simps [simp del]

definition INT32_MAX :: int where
  "INT32_MAX = 2 ^ 31 - 1"

definition consume_bson_objects :: "byte list \<Rightarrow> int \<Rightarrow> int parser" where
  "consume_bson_objects data limit = bson_objects_loop data limit 0"

text \<open>A document: \<open>_consume_bson_objects(ptr, remaining_bytes, &num_parsed, 1) && num_parsed == 1\<close>.\<close>

definition consume_document :: "byte list \<Rightarrow> byte list parser" where
  "consume_document data = bind_p position (\<lambda>(p, rem).
     bind_p (consume_bson_objects data 1) (\<lambda>num_parsed.
       bind_p (guard_p (num_parsed = 1) 0) (\<lambda>_. ret_p (drop p data))))"

section \<open>The operations\<close>

definition consume_op_compressed :: "byte list \<Rightarrow> rpc_op parser" where
  "consume_op_compressed data =
     bind_p (consume_int32 data) (\<lambda>opcode.
     bind_p (consume_int32 data) (\<lambda>size.
     bind_p (consume_uint8 data) (\<lambda>cid (p, rem).
       Inr ((p + rem, 0), Some (Compressed \<lparr>cp_original_opcode = opcode, cp_uncompressed_size = size,
         cp_compressor_id = cid, cp_message = drop p data, cp_message_len = rem\<rparr>)))))"

text \<open>The array of sections and its capacity; a store behind the capacity would be out of bounds.\<close>

type_synonym sections_state = "rpc_section list \<times> nat \<times> bool"

definition put_section :: "rpc_section \<Rightarrow> sections_state \<Rightarrow> sections_state parser" where
  "put_section sec x c = (case x of (sections, capacity, found_kind_0) \<Rightarrow>
     let capacity = (if length sections \<ge> capacity then capacity * 2 else capacity) in
     if length sections < capacity then Inr (c, Some (sections @ [sec], capacity, found_kind_0)) else Inl OutOfBounds)"

definition body_section :: "byte list \<Rightarrow> rpc_section parser" where
  "body_section data =
     bind_p position (\<lambda>(p, rem) c. bind_res (mlib_read_u32le data p) (\<lambda>len.
       bind_p (consume_document data) (\<lambda>bson. ret_p (Body len bson)) c))"

text \<open>
  The result of \<open>_consume_bson_objects\<close> is not used here: only the number of bytes that are left in the
  section decides.
\<close>

definition sequence_rest :: "byte list \<Rightarrow> 32 word \<Rightarrow> nat \<Rightarrow> rpc_section parser" where
  "sequence_rest data len rem_section c = (case c of (p, rem) \<Rightarrow>
     bind_res (consume_utf8 data (p, rem_section)) (\<lambda>((p1, rem_section), r). case r of
         None \<Rightarrow> Inr ((p1, rem), None)
       | Some (ident, ident_len) \<Rightarrow>
           let rem = rem - (p1 - p); objects_len = rem_section in
           bind_res (consume_bson_objects data INT32_MAX (p1, rem_section)) (\<lambda>((p2, rem_section), _).
             if rem_section \<noteq> 0 then Inr ((p2, rem), None)
             else Inr ((p2, rem - (p2 - p1)),
               Some (Sequence len ident ident_len (drop p1 data) objects_len)))))"

definition sequence_section :: "byte list \<Rightarrow> rpc_section parser" where
  "sequence_section data =
     bind_p (consume_int32 data) (\<lambda>len.
     bind_p (guard_p (\<not> sint len < 4) 4) (\<lambda>_.
     bind_p position (\<lambda>(p, rem).
     bind_p (guard_p (\<not> nat (sint len) - 4 > rem) 4) (\<lambda>_.
       sequence_rest data len (nat (sint len) - 4)))))"

definition consume_op_msg_section :: "byte list \<Rightarrow> sections_state \<Rightarrow> sections_state parser" where
  "consume_op_msg_section data x = (case x of (sections, capacity, found_kind_0) \<Rightarrow>
     bind_p (consume_uint8 data) (\<lambda>kind.
       bind_p (guard_p (\<not> (kind = 0 \<and> found_kind_0)) 1) (\<lambda>_.
       if kind = 0 then
         bind_p (body_section data) (\<lambda>sec. put_section sec (sections, capacity, True))
       else if kind = 1 then
         bind_p (sequence_section data) (\<lambda>sec. put_section sec (sections, capacity, found_kind_0))
       else fail_back 1)))"

fun sections_loop :: "byte list \<Rightarrow> nat \<Rightarrow> sections_state \<Rightarrow> sections_state parser" where
  "sections_loop data 0 x c = Inl NoFuel"
| "sections_loop data (Suc fuel) x c =
     (if snd c > 4 then bind_p (consume_op_msg_section data x) (sections_loop data fuel) c else Inr (c, Some x))"

definition consume_op_msg :: "byte list \<Rightarrow> rpc_op parser" where
  "consume_op_msg data =
     bind_p (consume_int32 data) (\<lambda>flag_bits.
     bind_p (guard_p ((flag_bits AND 0x0000FFFF) AND NOT 0x00010003 = 0) 4) (\<lambda>_.
     bind_p position (\<lambda>(p, rem).
     bind_p (sections_loop data (rem + 1) ([], 2, False)) (\<lambda>(sections, capacity, found_kind_0).
     bind_p (guard_p found_kind_0 0) (\<lambda>_.
       if flag_bits AND 1 \<noteq> 0 then
         bind_p (consume_int32 data) (\<lambda>checksum.
           ret_p (Msg \<lparr>om_flag_bits = flag_bits, om_sections = sections, om_checksum = Some checksum\<rparr>))
       else ret_p (Msg \<lparr>om_flag_bits = flag_bits, om_sections = sections, om_checksum = None\<rparr>))))))"

definition consume_op_reply :: "byte list \<Rightarrow> rpc_op parser" where
  "consume_op_reply data =
     bind_p (consume_int32 data) (\<lambda>flags.
     bind_p (consume_int64 data) (\<lambda>cursor_id.
     bind_p (consume_int32 data) (\<lambda>starting_from.
     bind_p (consume_int32 data) (\<lambda>number_returned.
     bind_p (guard_p (\<not> sint number_returned < 0) 4) (\<lambda>_.
     bind_p position (\<lambda>(p, rem).
     bind_p (consume_bson_objects data (sint number_returned)) (\<lambda>num_parsed.
     bind_p (guard_p (num_parsed = sint number_returned) 0) (\<lambda>_.
       ret_p (Reply \<lparr>or_response_flags = flags, or_cursor_id = cursor_id, or_starting_from = starting_from,
         or_number_returned = number_returned,
         or_documents = (if sint number_returned > 0 then Some (drop p data) else None),
         or_documents_len = (if sint number_returned > 0 then rem else 0)\<rparr>)))))))))"

definition consume_op_update :: "byte list \<Rightarrow> rpc_op parser" where
  "consume_op_update data =
     bind_p (consume_reserved_zero data) (\<lambda>_.
     bind_p (consume_utf8 data) (\<lambda>(name, name_len).
     bind_p (consume_int32 data) (\<lambda>flags.
     bind_p (guard_p (flags AND NOT 0x00000003 = 0) 4) (\<lambda>_.
     bind_p (consume_document data) (\<lambda>selector.
     bind_p (consume_document data) (\<lambda>update.
       ret_p (Update \<lparr>ou_name = name, ou_name_len = name_len, ou_flags = flags, ou_selector = selector,
         ou_update = update\<rparr>)))))))"

definition consume_op_insert :: "byte list \<Rightarrow> rpc_op parser" where
  "consume_op_insert data =
     bind_p (consume_int32 data) (\<lambda>flags.
     bind_p (guard_p (flags AND NOT 0x00000001 = 0) 4) (\<lambda>_.
     bind_p (consume_utf8 data) (\<lambda>(name, name_len).
     bind_p position (\<lambda>(p, rem).
     bind_p (consume_bson_objects data INT32_MAX) (\<lambda>num_parsed.
     bind_p (guard_p (num_parsed \<noteq> 0) 0) (\<lambda>_.
       ret_p (Insert \<lparr>oi_flags = flags, oi_name = name, oi_name_len = name_len, oi_documents = drop p data,
         oi_documents_len = rem\<rparr>)))))))"

definition consume_op_query :: "byte list \<Rightarrow> rpc_op parser" where
  "consume_op_query data =
     bind_p (consume_int32 data) (\<lambda>flags.
     bind_p (guard_p (flags AND 0x01 = 0) 4) (\<lambda>_.
     bind_p (guard_p (flags AND NOT 0x0000007F = 0) 4) (\<lambda>_.
     bind_p (consume_utf8 data) (\<lambda>(name, name_len).
     bind_p (consume_int32 data) (\<lambda>skip.
     bind_p (consume_int32 data) (\<lambda>return.
     bind_p (consume_document data) (\<lambda>query.
     bind_p position (\<lambda>(p, rem).
     bind_p (consume_bson_objects data 1) (\<lambda>num_parsed.
       ret_p (Query \<lparr>oq_flags = flags, oq_name = name, oq_name_len = name_len, oq_number_to_skip = skip,
         oq_number_to_return = return, oq_query = query,
         oq_fields = (if num_parsed = 0 then None else Some (drop p data))\<rparr>))))))))))"

definition consume_op_get_more :: "byte list \<Rightarrow> rpc_op parser" where
  "consume_op_get_more data =
     bind_p (consume_reserved_zero data) (\<lambda>_.
     bind_p (consume_utf8 data) (\<lambda>(name, name_len).
     bind_p (consume_int32 data) (\<lambda>return.
     bind_p (consume_int64 data) (\<lambda>cursor_id.
       ret_p (Get_more \<lparr>og_name = name, og_name_len = name_len, og_number_to_return = return,
         og_cursor_id = cursor_id\<rparr>)))))"

definition consume_op_delete :: "byte list \<Rightarrow> rpc_op parser" where
  "consume_op_delete data =
     bind_p (consume_reserved_zero data) (\<lambda>_.
     bind_p (consume_utf8 data) (\<lambda>(name, name_len).
     bind_p (consume_int32 data) (\<lambda>flags.
     bind_p (guard_p (flags AND NOT 0x00000001 = 0) 4) (\<lambda>_.
     bind_p (consume_document data) (\<lambda>selector.
       ret_p (Delete \<lparr>od_name = name, od_name_len = name_len, od_flags = flags, od_selector = selector\<rparr>))))))"

fun cursor_ids_loop :: "byte list \<Rightarrow> nat \<Rightarrow> 64 word list parser" where
  "cursor_ids_loop data 0 = ret_p []"
| "cursor_ids_loop data (Suc n) =
     bind_p (consume_int64 data) (\<lambda>x. bind_p (cursor_ids_loop data n) (\<lambda>xs. ret_p (x # xs)))"

definition consume_op_kill_cursors :: "byte list \<Rightarrow> rpc_op parser" where
  "consume_op_kill_cursors data =
     bind_p (consume_reserved_zero data) (\<lambda>_.
     bind_p (consume_int32 data) (\<lambda>number.
     bind_p position (\<lambda>(p, rem).
     bind_p (guard_p (\<not> (sint number < 0 \<or> sint number > int (rem div 8))) 4) (\<lambda>_.
     bind_p (cursor_ids_loop data (nat (sint number))) (\<lambda>ids.
       ret_p (Kill_cursors \<lparr>ok_number_of_cursor_ids = number, ok_cursor_ids = ids\<rparr>))))))"

section \<open>The message\<close>

definition consume_op :: "byte list \<Rightarrow> 32 word \<Rightarrow> rpc_op parser" where
  "consume_op data op_code =
     (if op_code = 2012 then consume_op_compressed data
      else if op_code = 2013 then consume_op_msg data
      else if op_code = 1 then consume_op_reply data
      else if op_code = 2001 then consume_op_update data
      else if op_code = 2002 then consume_op_insert data
      else if op_code = 2004 then consume_op_query data
      else if op_code = 2005 then consume_op_get_more data
      else if op_code = 2006 then consume_op_delete data
      else if op_code = 2007 then consume_op_kill_cursors data
      else fail_back 4)"

definition set_remaining :: "nat \<Rightarrow> unit parser" where
  "set_remaining n c = Inr ((fst c, n), Some ())"

definition parse_body :: "byte list \<Rightarrow> 32 word \<Rightarrow> rpc_message parser" where
  "parse_body data message_length =
     bind_p (consume_int32 data) (\<lambda>request_id.
     bind_p (consume_int32 data) (\<lambda>response_to.
     bind_p (consume_int32 data) (\<lambda>op_code.
     bind_p (consume_op data op_code) (\<lambda>op.
     bind_p position (\<lambda>(_, rem).
     bind_p (guard_p (\<not> rem > 0) 0) (\<lambda>_.
       ret_p \<lparr>rm_message_length = message_length, rm_request_id = request_id, rm_response_to = response_to,
         rm_in_iovecs = False, rm_op = op\<rparr>))))))"

definition parse_message :: "byte list \<Rightarrow> rpc_message parser" where
  "parse_message data =
     bind_p (consume_int32 data) (\<lambda>message_length.
     bind_p position (\<lambda>(_, rem).
     bind_p (guard_p (\<not> (sint message_length < 16 \<or> sint message_length > int rem + 4)) 4) (\<lambda>_.
     bind_p (set_remaining (nat (sint message_length) - 4)) (\<lambda>_. parse_body data message_length))))"

text \<open>\<open>data_end\<close> as an offset, and the message where the function returns true.\<close>

definition mcd_rpc_message_from_data :: "byte list \<Rightarrow> nat \<Rightarrow> (nat \<times> rpc_message option) res" where
  "mcd_rpc_message_from_data data len = map_res (\<lambda>(c, r). (fst c, r)) (parse_message data (0, len))"

end
