(* ===== verification/RpcIov.thy ===== *)
theory RpcIov
  imports Rpc
begin

text \<open>
  The conversion of a message to the vectors that \<open>writev\<close> gets (\<open>src/src/mongoc/mcd-rpc.c\<close>). A vector is
  its base pointer, \<open>None\<close> for \<open>NULL\<close>, and its length. The conversion of the integers to little-endian
  happens in place; here the vector of an integer holds its little-endian bytes.
\<close>

type_synonym iovec = "byte list option \<times> nat"
type_synonym iov_state = "(byte list \<times> nat) list \<times> nat"

definition append_iovec :: "iovec \<Rightarrow> iov_state \<Rightarrow> iov_state option res" where
  "append_iovec iov st = (case st of (iovecs, capacity) \<Rightarrow>
     case iov of
       (None, _) \<Rightarrow> Inr None
     | (Some base, len) \<Rightarrow>
         if len = 0 then Inr None
         else bind_res (c_assert (length iovecs < capacity)) (\<lambda>_. Inr (Some (iovecs @ [(base, len)], capacity))))"

text \<open>A sequence of \<open>if (!_append_iovec...(...)) return false\<close>; what is appended is evaluated in turn.\<close>

fun append_all :: "iovec res list \<Rightarrow> iov_state \<Rightarrow> iov_state option res" where
  "append_all [] st = Inr (Some st)"
| "append_all (iov # iovs) st =
     bind_res iov (\<lambda>iov. bind_res (append_iovec iov st) (\<lambda>r. case r of
       None \<Rightarrow> Inr None
     | Some st \<Rightarrow> append_all iovs st))"

definition iov_uint8 :: "byte \<Rightarrow> iovec res" where "iov_uint8 v = Inr (Some [v], 1)"
definition iov_int32 :: "32 word \<Rightarrow> iovec res" where "iov_int32 v = Inr (Some (mlib_write_u32le v), 4)"
definition iov_int64 :: "64 word \<Rightarrow> iovec res" where "iov_int64 v = Inr (Some (mlib_write_u64le v), 8)"
definition iov_data :: "byte list \<Rightarrow> nat \<Rightarrow> iovec res" where "iov_data m n = Inr (Some m, n)"
definition iov_reserved_zero :: "iovec res" where "iov_reserved_zero = iov_int32 0"

text \<open>A document, whose length is its first four bytes.\<close>

definition iov_document :: "byte list \<Rightarrow> iovec res" where
  "iov_document m = map_res (\<lambda>len. (Some m, unat len)) (mlib_read_u32le m 0)"

definition reserve_space_for :: "nat \<Rightarrow> iov_state \<Rightarrow> iov_state res" where
  "reserve_space_for n st = map_res (\<lambda>_. (fst st, snd st + n)) (c_assert (snd st = 4))"

definition iovs_op_compressed :: "op_compressed \<Rightarrow> iov_state \<Rightarrow> iov_state option res" where
  "iovs_op_compressed op st = bind_res (reserve_space_for 4 st)
     (append_all [iov_int32 (cp_original_opcode op), iov_int32 (cp_uncompressed_size op),
        iov_uint8 (cp_compressor_id op), iov_data (cp_message op) (cp_message_len op)])"

definition count_section_iovecs :: "op_msg \<Rightarrow> nat" where
  "count_section_iovecs op = (\<Sum>s\<leftarrow>om_sections op. case s of Body _ _ \<Rightarrow> 2 | Sequence _ _ _ _ _ \<Rightarrow> 4)"

text \<open>\<open>(size_t)section_len\<close>\<close>

definition size_of_int32 :: "32 word \<Rightarrow> nat" where
  "size_of_int32 v = unat (scast v :: 64 word)"

definition section_iovecs :: "rpc_section \<Rightarrow> iovec res list" where
  "section_iovecs s = (case s of
       Body len bson \<Rightarrow> [iov_uint8 0, iov_data bson (size_of_int32 len)]
     | Sequence len ident ident_len objs objs_len \<Rightarrow>
         [iov_uint8 1, iov_int32 len, iov_data ident ident_len, iov_data objs objs_len])"

definition iovs_op_msg :: "op_msg \<Rightarrow> iov_state \<Rightarrow> iov_state option res" where
  "iovs_op_msg op st = bind_res (reserve_space_for (2 + count_section_iovecs op) st)
     (append_all (iov_int32 (om_flag_bits op) # concat (map section_iovecs (om_sections op))
        @ (case om_checksum op of None \<Rightarrow> [] | Some checksum \<Rightarrow> [iov_int32 checksum])))"

definition iovs_op_reply :: "op_reply \<Rightarrow> iov_state \<Rightarrow> iov_state option res" where
  "iovs_op_reply op st = bind_res (reserve_space_for 5 st)
     (append_all ([iov_int32 (or_response_flags op), iov_int64 (or_cursor_id op), iov_int32 (or_starting_from op),
        iov_int32 (or_number_returned op)]
        @ (if sint (or_number_returned op) > 0 then [Inr (or_documents op, or_documents_len op)] else [])))"

definition iovs_op_update :: "op_update \<Rightarrow> iov_state \<Rightarrow> iov_state option res" where
  "iovs_op_update op st = bind_res (reserve_space_for 5 st)
     (append_all [iov_reserved_zero, iov_data (ou_name op) (ou_name_len op), iov_int32 (ou_flags op),
        iov_document (ou_selector op), iov_document (ou_update op)])"

definition iovs_op_insert :: "op_insert \<Rightarrow> iov_state \<Rightarrow> iov_state option res" where
  "iovs_op_insert op st = bind_res (reserve_space_for 3 st)
     (append_all [iov_int32 (oi_flags op), iov_data (oi_name op) (oi_name_len op),
        iov_data (oi_documents op) (oi_documents_len op)])"

definition iovs_op_query :: "op_query \<Rightarrow> iov_state \<Rightarrow> iov_state option res" where
  "iovs_op_query op st = bind_res (reserve_space_for (5 + (if oq_fields op = None then 0 else 1)) st)
     (append_all ([iov_int32 (oq_flags op), iov_data (oq_name op) (oq_name_len op), iov_int32 (oq_number_to_skip op),
        iov_int32 (oq_number_to_return op), iov_document (oq_query op)]
        @ (case oq_fields op of None \<Rightarrow> [] | Some selector \<Rightarrow> [iov_document selector])))"

definition iovs_op_get_more :: "op_get_more \<Rightarrow> iov_state \<Rightarrow> iov_state option res" where
  "iovs_op_get_more op st = bind_res (reserve_space_for 4 st)
     (append_all [iov_reserved_zero, iov_data (og_name op) (og_name_len op), iov_int32 (og_number_to_return op),
        iov_int64 (og_cursor_id op)])"

definition iovs_op_delete :: "op_delete \<Rightarrow> iov_state \<Rightarrow> iov_state option res" where
  "iovs_op_delete op st = bind_res (reserve_space_for 4 st)
     (append_all [iov_reserved_zero, iov_data (od_name op) (od_name_len op), iov_int32 (od_flags op),
        iov_document (od_selector op)])"

definition iovs_op_kill_cursors :: "op_kill_cursors \<Rightarrow> iov_state \<Rightarrow> iov_state option res" where
  "iovs_op_kill_cursors op st = bind_res (reserve_space_for 3 st)
     (append_all ([iov_reserved_zero, iov_int32 (ok_number_of_cursor_ids op)]
        @ (if sint (ok_number_of_cursor_ids op) > 0
           then [iov_data (concat (map mlib_write_u64le (ok_cursor_ids op))) (nat (sint (ok_number_of_cursor_ids op)) * 8)]
           else [])))"

definition iovs_op :: "rpc_op \<Rightarrow> iov_state \<Rightarrow> iov_state option res" where
  "iovs_op op = (case op of
       Compressed x \<Rightarrow> iovs_op_compressed x
     | Msg x \<Rightarrow> iovs_op_msg x
     | Reply x \<Rightarrow> iovs_op_reply x
     | Update x \<Rightarrow> iovs_op_update x
     | Insert x \<Rightarrow> iovs_op_insert x
     | Query x \<Rightarrow> iovs_op_query x
     | Get_more x \<Rightarrow> iovs_op_get_more x
     | Delete x \<Rightarrow> iovs_op_delete x
     | Kill_cursors x \<Rightarrow> iovs_op_kill_cursors x
     | No_op _ \<Rightarrow> (\<lambda>_. Inr None))"

definition mcd_rpc_message_to_iovecs :: "rpc_message \<Rightarrow> (rpc_message \<times> (byte list \<times> nat) list option) res" where
  "mcd_rpc_message_to_iovecs rpc =
     bind_res (c_assert (\<not> rm_in_iovecs rpc)) (\<lambda>_.
     bind_res (append_all [iov_int32 (rm_message_length rpc), iov_int32 (rm_request_id rpc),
         iov_int32 (rm_response_to rpc), iov_int32 (rm_op_code (rm_op rpc))] ([], 4)) (\<lambda>header.
     case header of
       None \<Rightarrow> Inr (rpc\<lparr>rm_in_iovecs := True\<rparr>, None)
     | Some header \<Rightarrow>
         map_res (\<lambda>r. (rpc\<lparr>rm_in_iovecs := True\<rparr>, map_option fst r)) (iovs_op (rm_op rpc) header)))"

text \<open>The bytes that \<open>writev\<close> sends, where every vector is inside its object.\<close>

definition iovec_bytes :: "(byte list \<times> nat) list \<Rightarrow> byte list" where
  "iovec_bytes iovs = concat (map (\<lambda>(m, n). take n m) iovs)"

end
