(* ===== verification/RpcOk.thy ===== *)
theory RpcOk
  imports RpcIov IterAccess
begin

text \<open>
  The parser of messages: it stays inside the data, and what it reads is the encoding of the message that
  it returns. \<open>parsed data c E r\<close> says that a parser that started at \<open>c\<close> returns with its pointer inside the
  range that was left, and that where it succeeds it moved forward and the result satisfies \<open>E\<close>.
\<close>

section \<open>A logic of parsers\<close>

definition within :: "byte list \<Rightarrow> cursor \<Rightarrow> bool" where
  "within data c \<longleftrightarrow> fst c + snd c \<le> length data"

definition moved :: "cursor \<Rightarrow> cursor \<Rightarrow> bool" where
  "moved c c' \<longleftrightarrow> fst c \<le> fst c' \<and> fst c' + snd c' = fst c + snd c"

definition parsed :: "cursor \<Rightarrow> (cursor \<Rightarrow> 'a \<Rightarrow> bool) \<Rightarrow> (cursor \<times> 'a option) res \<Rightarrow> bool" where
  "parsed c E r \<longleftrightarrow> (\<exists>c' x. r = Inr (c', x) \<and> fst c' \<le> fst c + snd c \<and> (\<forall>v. x = Some v \<longrightarrow> moved c c' \<and> E c' v))"

lemma moved_refl: "moved c c"
  by (simp add: moved_def)

lemma moved_trans: "moved a b \<Longrightarrow> moved b c \<Longrightarrow> moved a c"
  by (simp add: moved_def)

lemma within_moved: "within data c \<Longrightarrow> moved c c' \<Longrightarrow> within data c'"
  by (simp add: within_def moved_def)

lemma parsed_bind:
  assumes w: "within data c" and m: "parsed c E (m c)"
    and f: "\<And>c' v. within data c' \<Longrightarrow> moved c c' \<Longrightarrow> E c' v \<Longrightarrow> parsed c' F (f v c')"
  shows "parsed c F (bind_p m f c)"
proof -
  obtain c' x where r: "m c = Inr (c', x)" "fst c' \<le> fst c + snd c" "\<forall>v. x = Some v \<longrightarrow> moved c c' \<and> E c' v"
    using m by (auto simp: parsed_def)
  show ?thesis
  proof (cases x)
    case None then show ?thesis using r by (simp add: bind_p_def parsed_def)
  next
    case (Some v)
    then have mv: "moved c c'" and "parsed c' F (f v c')" using r f within_moved[OF w] by auto
    then show ?thesis using r Some by (auto simp: bind_p_def parsed_def moved_def)
  qed
qed

lemma parsed_mono: "parsed c E r \<Longrightarrow> (\<And>c' v. moved c c' \<Longrightarrow> E c' v \<Longrightarrow> F c' v) \<Longrightarrow> parsed c F r"
  unfolding parsed_def by blast

lemma parsed_ret: "E c x \<Longrightarrow> parsed c E (ret_p x c)"
  by (simp add: parsed_def ret_p_def moved_refl)

lemma parsed_fail: "parsed c E (fail_back n c)"
  by (simp add: parsed_def fail_back_def)

lemma parsed_guard: "parsed c (\<lambda>c' _. c' = c \<and> b) (guard_p b n c)"
  by (simp add: guard_p_def parsed_fail parsed_ret)

lemma parsed_position: "parsed c (\<lambda>c' v. c' = c \<and> v = c) (position c)"
  by (simp add: parsed_def position_def moved_refl)

lemma parsed_if: "(b \<Longrightarrow> parsed c E (f c)) \<Longrightarrow> (\<not> b \<Longrightarrow> parsed c E (g c)) \<Longrightarrow> parsed c E ((if b then f else g) c)"
  by simp

section \<open>The primitives\<close>

definition eats :: "byte list \<Rightarrow> cursor \<Rightarrow> cursor \<Rightarrow> byte list \<Rightarrow> bool" where
  "eats data c c' bs \<longleftrightarrow> drop (fst c) data = bs @ drop (fst c') data"

lemma eats_trans: "eats data a b xs \<Longrightarrow> eats data b c ys \<Longrightarrow> eats data a c (xs @ ys)"
  by (simp add: eats_def)

lemma eats_refl: "eats data c c []"
  by (simp add: eats_def)

lemma eats_take: "fst c \<le> fst c' \<Longrightarrow> eats data c c' (take (fst c' - fst c) (drop (fst c) data))"
  unfolding eats_def by (metis append_take_drop_id drop_drop le_add_diff_inverse2)

lemma drop_split: "drop a data = take n (drop a data) @ drop (a + n) data"
  by (metis add.commute append_take_drop_id drop_drop)

lemma write_read32: "p + 4 \<le> length data \<Longrightarrow> mlib_write_u32le (le_word (take 4 (drop p data))) = take 4 (drop p data)"
  using take4_write[of "drop p data"] by simp

lemma write_read64: "p + 8 \<le> length data \<Longrightarrow> mlib_write_u64le (le_word (take 8 (drop p data))) = take 8 (drop p data)"
proof -
  assume "p + 8 \<le> length data"
  then have "length (take 8 (drop p data)) = 8" by simp
  then show ?thesis
    using le_bytes_le_word[where bs = "take 8 (drop p data)" and 'a = 64] by (simp add: mlib_write_u64le_def)
qed

lemma parsed_int32:
  "within data c \<Longrightarrow> parsed c (\<lambda>c' v. fst c' = fst c + 4 \<and> eats data c c' (mlib_write_u32le v)) (consume_int32 data c)"
  by (cases c) (auto simp: consume_int32_def within_def parsed_def moved_def eats_def write_read32 drop_split[symmetric])

lemma parsed_int64:
  "within data c \<Longrightarrow> parsed c (\<lambda>c' v. fst c' = fst c + 8 \<and> eats data c c' (mlib_write_u64le v)) (consume_int64 data c)"
  by (cases c) (auto simp: consume_int64_def within_def parsed_def moved_def eats_def write_read64 drop_split[symmetric])

lemma parsed_uint8:
  "within data c \<Longrightarrow> parsed c (\<lambda>c' v. fst c' = fst c + 1 \<and> eats data c c' [v]) (consume_uint8 data c)"
  by (cases c) (auto simp: consume_uint8_def within_def parsed_def moved_def eats_def Cons_nth_drop_Suc)

lemma utf8_scan_spec:
  "iter + rem \<le> length data \<Longrightarrow> \<exists>i r. utf8_scan data iter rem = Inr (i, r) \<and> iter \<le> i \<and> i + r = iter + rem"
  by (induction data iter rem rule: utf8_scan.induct) fastforce+

lemma parsed_utf8:
  assumes "within data c"
  shows "parsed c (\<lambda>c' (s, n). s = drop (fst c) data \<and> n > 0 \<and> n = fst c' - fst c \<and> n \<le> length s \<and> eats data c c' (take n s)) (consume_utf8 data c)"
proof -
  obtain p rem where c: "c = (p, rem)" by fastforce
  obtain i r where s: "utf8_scan data p rem = Inr (i, r)" "p \<le> i" "i + r = p + rem"
    using utf8_scan_spec[of p rem data] assms c by (auto simp: within_def)
  show ?thesis
  proof (cases "r = 0")
    case True then show ?thesis using s c by (simp add: consume_utf8_def parsed_def)
  next
    case False
    then have n: "rem - (r - 1) = Suc i - p" "Suc rem - r = Suc i - p" using s by simp_all
    show ?thesis using False s c assms eats_take[of "(p, rem)" "(Suc i, r - 1)" data]
      by (auto simp: consume_utf8_def parsed_def moved_def n within_def)
  qed
qed

lemma parsed_reserved_zero:
  assumes w: "within data c"
  shows "parsed c (\<lambda>c' _. fst c' = fst c + 4 \<and> eats data c c' (mlib_write_u32le 0)) (consume_reserved_zero data c)"
  unfolding consume_reserved_zero_def
  by (rule parsed_bind, rule w, rule parsed_int32, rule w, rule parsed_mono, rule parsed_guard) auto

section \<open>Documents\<close>

lemma read32_in: "within data c \<Longrightarrow> 4 \<le> snd c \<Longrightarrow> mlib_read_u32le data (fst c) = Inr (le_word (take 4 (drop (fst c) data)))"
  by (simp add: within_def)

lemma objects_loop_forward:
  "within data (p, rem) \<Longrightarrow> \<exists>c' x. bson_objects_loop data limit count (p, rem) = Inr (c', x) \<and> p \<le> fst c'
     \<and> fst c' + snd c' \<le> p + rem \<and> (\<forall>k. x = Some k \<longrightarrow> fst c' + snd c' = p + rem \<and> count \<le> k \<and> (k = count \<longrightarrow> fst c' = p) \<and> (k \<noteq> count \<longrightarrow> p < fst c'))"
proof (induction data limit count "(p, rem)" arbitrary: p rem rule: bson_objects_loop.induct)
  case (1 data limit count p rem)
  define len :: int where "len = sint (le_word (take 4 (drop p data)) :: 32 word)"
  consider (stop) "\<not> (count < limit \<and> rem > 0)" | (short) "count < limit" "rem > 0" "rem < 4"
    | (bad) "count < limit" "4 \<le> rem" "len < 5 \<or> len > int (rem - 4) + 4"
    | (good) "count < limit" "4 \<le> rem" "\<not> (len < 5 \<or> len > int (rem - 4) + 4)" by linarith
  then show ?case
  proof cases
    case stop then show ?thesis by (auto simp: bson_objects_loop.simps[of data limit count p rem])
  next
    case short then show ?thesis by (auto simp: bson_objects_loop.simps[of data limit count p rem])
  next
    case bad
    then show ?thesis using "1.prems"
      by (auto simp: bson_objects_loop.simps[of data limit count p rem] within_def len_def)
  next
    case good
    have r: "mlib_read_i32le data p = Inr len" using good "1.prems" by (simp add: len_def within_def)
    have w: "within data (p + 4 + (nat len - 4), rem - 4 - (nat len - 4))" using good "1.prems" by (auto simp: within_def)
    have pre: "count < limit \<and> 0 < rem" "\<not> rem < 4" using good by simp_all
    from "1.hyps"[OF pre r good(3) w] obtain c' x where "bson_objects_loop data limit (count + 1) (p + 4 + (nat len - 4), rem - 4 - (nat len - 4)) = Inr (c', x)"
      "p + 4 + (nat len - 4) \<le> fst c'" "fst c' + snd c' \<le> p + 4 + (nat len - 4) + (rem - 4 - (nat len - 4))"
      "\<forall>k. x = Some k \<longrightarrow> fst c' + snd c' = p + 4 + (nat len - 4) + (rem - 4 - (nat len - 4)) \<and> count + 1 \<le> k"
      by blast
    then show ?thesis using good r by (fastforce simp: bson_objects_loop.simps[of data limit count p rem])
  qed
qed

lemma parsed_objects:
  assumes "within data c"
  shows "parsed c (\<lambda>c' k. 0 \<le> k \<and> (k = 0 \<longrightarrow> c' = c) \<and> (k \<noteq> 0 \<longrightarrow> fst c < fst c')) (consume_bson_objects data limit c)"
  using objects_loop_forward[of data "fst c" "snd c" limit 0] assms
  by (cases c) (auto simp: consume_bson_objects_def parsed_def moved_def)

definition doc_len :: "byte list \<Rightarrow> nat" where
  "doc_len m = unat (le_word (take 4 m) :: 32 word)"

lemma unat_sint: "0 \<le> sint w \<Longrightarrow> unat w = nat (sint w)" for w :: "32 word"
  using sint_eq_unat[of w "nat (sint w) + 4"] sint_lt[of w] by simp

lemma parsed_one_object:
  assumes "within data c"
  shows "parsed c (\<lambda>c' k. (k = 0 \<and> c' = c) \<or> (k = 1 \<and> 5 \<le> doc_len (drop (fst c) data) \<and> doc_len (drop (fst c) data) < 2147483648 \<and> fst c' = fst c + doc_len (drop (fst c) data)))
    (consume_bson_objects data 1 c)"
proof -
  obtain p rem where c: "c = (p, rem)" by fastforce
  define w :: "32 word" where "w = le_word (take 4 (drop p data))"
  have loop1: "bson_objects_loop data 1 1 (q, r) = Inr ((q, r), Some 1)" for q r
    by (simp add: bson_objects_loop.simps[of data 1 1])
  show ?thesis
  proof (cases "rem < 4 \<or> sint w < 5 \<or> sint w > int (rem - 4) + 4")
    case True
    then show ?thesis using assms c
      by (auto simp: consume_bson_objects_def bson_objects_loop.simps[of data 1 0] parsed_def moved_def within_def w_def)
  next
    case False
    then have "nat (sint w) = doc_len (drop p data)" "5 \<le> doc_len (drop p data)" "int (doc_len (drop p data)) = sint w"
      "doc_len (drop p data) < 2147483648"
      using unat_sint[of w] sint_lt[of w] by (auto simp: doc_len_def w_def)
    then show ?thesis using False assms c
      by (auto simp: consume_bson_objects_def bson_objects_loop.simps[of data 1 0] loop1 parsed_def moved_def within_def w_def[symmetric])
  qed
qed

definition whole_doc :: "byte list \<Rightarrow> bool" where
  "whole_doc m \<longleftrightarrow> 5 \<le> doc_len m \<and> doc_len m \<le> length m \<and> doc_len m < 2147483648"

abbreviation whole_bytes :: "byte list \<Rightarrow> byte list" where
  "whole_bytes m \<equiv> take (doc_len m) m"

lemma object_ok:
  assumes "within data c" "moved c c'" "5 \<le> doc_len (drop (fst c) data)"
    "doc_len (drop (fst c) data) < 2147483648" "fst c' = fst c + doc_len (drop (fst c) data)"
  shows "whole_doc (drop (fst c) data) \<and> eats data c c' (whole_bytes (drop (fst c) data))"
  using assms eats_take[of c c' data] by (auto simp: whole_doc_def within_def moved_def)

lemma parsed_object:
  assumes w: "within data c"
  shows "parsed c (\<lambda>c' k. (k = 0 \<and> c' = c) \<or> (k = 1 \<and> whole_doc (drop (fst c) data) \<and> eats data c c' (whole_bytes (drop (fst c) data))))
    (consume_bson_objects data 1 c)"
  by (rule parsed_mono, rule parsed_one_object[OF w]) (use object_ok[OF w] in auto)

lemma parsed_document:
  assumes w: "within data c"
  shows "parsed c (\<lambda>c' m. m = drop (fst c) data \<and> whole_doc m \<and> eats data c c' (whole_bytes m)) (consume_document data c)"
proof -
  have "parsed c (\<lambda>c' v. v = 1 \<longrightarrow> whole_doc (drop (fst c) data) \<and> eats data c c' (whole_bytes (drop (fst c) data))) (consume_bson_objects data 1 c)"
    by (rule parsed_mono, rule parsed_object[OF w]) auto
  then show ?thesis
    by (cases c) (simp add: consume_document_def, auto simp: parsed_def bind_p_def position_def guard_p_def ret_p_def fail_back_def split: option.split)
qed

section \<open>The encoding of a message\<close>

abbreviation i32 :: "32 word \<Rightarrow> byte list" where "i32 \<equiv> mlib_write_u32le"
abbreviation i64 :: "64 word \<Rightarrow> byte list" where "i64 \<equiv> mlib_write_u64le"

definition section_bytes :: "rpc_section \<Rightarrow> byte list" where
  "section_bytes s = (case s of
       Body len bson \<Rightarrow> 0 # whole_bytes bson
     | Sequence len ident n objs k \<Rightarrow> 1 # i32 len @ take n ident @ take k objs)"

definition rpc_op_bytes :: "rpc_op \<Rightarrow> byte list" where
  "rpc_op_bytes op = (case op of
       Compressed x \<Rightarrow> i32 (cp_original_opcode x) @ i32 (cp_uncompressed_size x) @ [cp_compressor_id x] @ take (cp_message_len x) (cp_message x)
     | Msg x \<Rightarrow> i32 (om_flag_bits x) @ concat (map section_bytes (om_sections x)) @ (case om_checksum x of None \<Rightarrow> [] | Some v \<Rightarrow> i32 v)
     | Reply x \<Rightarrow> i32 (or_response_flags x) @ i64 (or_cursor_id x) @ i32 (or_starting_from x) @ i32 (or_number_returned x)
         @ (case or_documents x of None \<Rightarrow> [] | Some d \<Rightarrow> take (or_documents_len x) d)
     | Update x \<Rightarrow> i32 0 @ take (ou_name_len x) (ou_name x) @ i32 (ou_flags x) @ whole_bytes (ou_selector x) @ whole_bytes (ou_update x)
     | Insert x \<Rightarrow> i32 (oi_flags x) @ take (oi_name_len x) (oi_name x) @ take (oi_documents_len x) (oi_documents x)
     | Query x \<Rightarrow> i32 (oq_flags x) @ take (oq_name_len x) (oq_name x) @ i32 (oq_number_to_skip x) @ i32 (oq_number_to_return x)
         @ whole_bytes (oq_query x) @ (case oq_fields x of None \<Rightarrow> [] | Some d \<Rightarrow> whole_bytes d)
     | Get_more x \<Rightarrow> i32 0 @ take (og_name_len x) (og_name x) @ i32 (og_number_to_return x) @ i64 (og_cursor_id x)
     | Delete x \<Rightarrow> i32 0 @ take (od_name_len x) (od_name x) @ i32 (od_flags x) @ whole_bytes (od_selector x)
     | Kill_cursors x \<Rightarrow> i32 0 @ i32 (ok_number_of_cursor_ids x) @ concat (map i64 (ok_cursor_ids x))
     | No_op _ \<Rightarrow> [])"

definition message_bytes :: "rpc_message \<Rightarrow> byte list" where
  "message_bytes m = i32 (rm_message_length m) @ i32 (rm_request_id m) @ i32 (rm_response_to m)
     @ i32 (rm_op_code (rm_op m)) @ rpc_op_bytes (rm_op m)"

text \<open>What every vector needs: the strings, documents and sequences of a message are not empty.\<close>

definition string_ok :: "byte list \<Rightarrow> nat \<Rightarrow> bool" where
  "string_ok m n \<longleftrightarrow> 0 < n \<and> n \<le> length m"

definition section_ok :: "rpc_section \<Rightarrow> bool" where
  "section_ok s = (case s of
       Body len bson \<Rightarrow> whole_doc bson \<and> size_of_int32 len = doc_len bson
     | Sequence len ident n objs k \<Rightarrow> string_ok ident n \<and> k \<le> length objs)"

definition op_ok :: "rpc_op \<Rightarrow> bool" where
  "op_ok op = (case op of
       Compressed x \<Rightarrow> cp_message_len x \<le> length (cp_message x)
     | Msg x \<Rightarrow> list_all section_ok (om_sections x)
     | Reply x \<Rightarrow> if sint (or_number_returned x) > 0 then (\<exists>d. or_documents x = Some d \<and> string_ok d (or_documents_len x))
                 else or_documents x = None
     | Update x \<Rightarrow> string_ok (ou_name x) (ou_name_len x) \<and> whole_doc (ou_selector x) \<and> whole_doc (ou_update x)
     | Insert x \<Rightarrow> string_ok (oi_name x) (oi_name_len x) \<and> string_ok (oi_documents x) (oi_documents_len x)
     | Query x \<Rightarrow> string_ok (oq_name x) (oq_name_len x) \<and> whole_doc (oq_query x) \<and> pred_option whole_doc (oq_fields x)
     | Get_more x \<Rightarrow> string_ok (og_name x) (og_name_len x)
     | Delete x \<Rightarrow> string_ok (od_name x) (od_name_len x) \<and> whole_doc (od_selector x)
     | Kill_cursors x \<Rightarrow> sint (ok_number_of_cursor_ids x) = int (length (ok_cursor_ids x))
     | No_op _ \<Rightarrow> False)"

text \<open>
  The messages that the parser takes apart without loss: the payload of a compressed message and the
  documents of a sequence are not empty, and the documents fill their section.
\<close>

definition section_regular :: "rpc_section \<Rightarrow> bool" where
  "section_regular s = (case s of
       Body len bson \<Rightarrow> True
     | Sequence len ident n objs k \<Rightarrow> 0 < k \<and> (\<exists>c j. consume_bson_objects objs INT32_MAX (0, k) = Inr (c, Some j)))"

definition op_regular :: "rpc_op \<Rightarrow> bool" where
  "op_regular op = (case op of
       Compressed x \<Rightarrow> 0 < cp_message_len x
     | Msg x \<Rightarrow> list_all section_regular (om_sections x)
     | _ \<Rightarrow> True)"

definition op_parsed :: "byte list \<Rightarrow> 32 word \<Rightarrow> cursor \<Rightarrow> cursor \<Rightarrow> rpc_op \<Rightarrow> bool" where
  "op_parsed data code c c' op \<longleftrightarrow> rm_op_code op = code \<and> op_ok op \<and>
     (snd c' = 0 \<longrightarrow> op_regular op \<longrightarrow> eats data c c' (rpc_op_bytes op))"

lemmas op_simps = op_parsed_def rm_op_code_def op_ok_def op_regular_def rpc_op_bytes_def string_ok_def

lemma parsed_prodI: "parsed c E (f (fst x) (snd x) c) \<Longrightarrow> parsed c E ((case x of (a, b) \<Rightarrow> f a b) c)"
  by (simp add: case_prod_beta)

lemma eats_Cons: "eats data a b [x] \<Longrightarrow> eats data b c ys \<Longrightarrow> eats data a c (x # ys)"
  by (simp add: eats_def)

text \<open>Each operation follows its parser one step at a time.\<close>

lemma eats_rest: "within data (p, r) \<Longrightarrow> moved (p, r) (q, 0) \<Longrightarrow> eats data (p, r) (q, 0) (take r (drop p data))"
  using eats_take[of "(p, r)" "(q, 0)" data] by (simp add: moved_def)

lemmas parsed_step =
  parsed_bind[where m = "consume_int32 data" for data, OF _ parsed_int32]
  parsed_bind[where m = "consume_int64 data" for data, OF _ parsed_int64]
  parsed_bind[where m = "consume_uint8 data" for data, OF _ parsed_uint8]
  parsed_bind[where m = "consume_utf8 data" for data, OF _ parsed_utf8]
  parsed_bind[where m = "consume_reserved_zero data" for data, OF _ parsed_reserved_zero]
  parsed_bind[where m = "consume_document data" for data, OF _ parsed_document]
  parsed_bind[where m = "guard_p b n" for b n, OF _ parsed_guard]
  parsed_bind[where m = position, OF _ parsed_position]

lemmas parsed_step_objects = parsed_bind[where m = "consume_bson_objects data limit" for data limit, OF _ parsed_objects]
lemmas parsed_step_object = parsed_bind[where m = "consume_bson_objects data 1" for data, OF _ parsed_object]

lemma parsed_compressed:
  assumes "within data c"
  shows "parsed c (op_parsed data 2012 c) (consume_op_compressed data c)"
  using assms unfolding consume_op_compressed_def
  apply -
  apply ((rule parsed_step, assumption+)+)
  apply (auto simp: parsed_def moved_def op_simps within_def)
   apply linarith
  apply (rule eats_trans eats_Cons, assumption)+
  apply (simp add: eats_def drop_split[symmetric])
  done

lemma parsed_update:
  assumes "within data c"
  shows "parsed c (op_parsed data 2001 c) (consume_op_update data c)"
  using assms unfolding consume_op_update_def
  by - ((rule parsed_prodI | (rule parsed_step, assumption+))+, rule parsed_ret, auto simp: op_simps,
    ((rule eats_trans, assumption)+, assumption))

lemma parsed_get_more:
  assumes "within data c"
  shows "parsed c (op_parsed data 2005 c) (consume_op_get_more data c)"
  using assms unfolding consume_op_get_more_def
  by - ((rule parsed_prodI | (rule parsed_step, assumption+))+, rule parsed_ret, auto simp: op_simps,
    ((rule eats_trans, assumption)+, assumption))

lemma parsed_delete:
  assumes "within data c"
  shows "parsed c (op_parsed data 2006 c) (consume_op_delete data c)"
  using assms unfolding consume_op_delete_def
  by - ((rule parsed_prodI | (rule parsed_step, assumption+))+, rule parsed_ret, auto simp: op_simps,
    ((rule eats_trans, assumption)+, assumption))

lemma parsed_insert:
  assumes "within data c"
  shows "parsed c (op_parsed data 2002 c) (consume_op_insert data c)"
  using assms unfolding consume_op_insert_def
  apply -
  apply ((rule parsed_prodI | (rule parsed_step parsed_step_objects, assumption+))+, rule parsed_ret)
  apply (auto simp: op_simps)
  apply ((simp add: within_def moved_def; fail) | ((rule eats_trans, assumption)+, (assumption | rule eats_rest, assumption+)))+
  done

lemma parsed_reply:
  assumes "within data c"
  shows "parsed c (op_parsed data 1 c) (consume_op_reply data c)"
  using assms unfolding consume_op_reply_def
  apply -
  apply ((rule parsed_prodI | (rule parsed_step parsed_step_objects, assumption+))+, rule parsed_ret)
  apply (auto simp: op_simps)
  apply ((simp add: within_def moved_def; fail) | ((rule eats_trans, assumption)+, (assumption | rule eats_rest, assumption+)))+
  done

lemma parsed_query:
  assumes "within data c"
  shows "parsed c (op_parsed data 2004 c) (consume_op_query data c)"
  using assms unfolding consume_op_query_def
  apply -
  apply ((rule parsed_prodI | (rule parsed_step, assumption+) | (rule parsed_step_object, assumption+))+, rule parsed_ret)
  apply (auto simp: op_simps)
  apply ((rule eats_trans, assumption)+, assumption)+
  done

lemma parsed_cursor_ids:
  "within data c \<Longrightarrow> parsed c (\<lambda>c' ids. length ids = n \<and> eats data c c' (concat (map i64 ids))) (cursor_ids_loop data n c)"
proof (induction n arbitrary: c)
  case 0 then show ?case by (simp add: parsed_ret eats_refl)
next
  case (Suc n)
  show ?case unfolding cursor_ids_loop.simps
    by (rule parsed_step, rule Suc.prems, rule Suc.prems, rule parsed_bind, assumption, rule Suc.IH, assumption, rule parsed_ret)
      (auto intro: eats_trans)
qed

lemma parsed_kill_cursors:
  assumes "within data c"
  shows "parsed c (op_parsed data 2007 c) (consume_op_kill_cursors data c)"
  using assms unfolding consume_op_kill_cursors_def
  by - (((rule parsed_prodI | (rule parsed_step, assumption+))+, rule parsed_bind, assumption, rule parsed_cursor_ids, assumption),
    rule parsed_ret, auto simp: op_simps, ((rule eats_trans, assumption)+, assumption))

section \<open>Sections\<close>

lemma size_of_int32_small: "unat v < 2147483648 \<Longrightarrow> size_of_int32 v = unat v"
proof -
  assume "unat v < 2147483648"
  then have "sint v = int (unat v)" by (rule sint_u32_small)
  then have "(scast v :: 64 word) = of_nat (unat v)" by (simp add: scast_eq)
  then show ?thesis using less_trans[OF \<open>unat v < 2147483648\<close>, of "2 ^ 64"]
    by (simp add: size_of_int32_def unsigned_of_nat unsigned_ucast_eq take_bit_nat_eq_self)
qed

lemma parsed_body:
  assumes w: "within data c" and "4 \<le> snd c"
  shows "parsed c (\<lambda>c' s. section_ok s \<and> eats data c c' (tl (section_bytes s)) \<and> hd (section_bytes s) = 0) (body_section data c)"
proof -
  let ?len = "le_word (take 4 (drop (fst c) data)) :: 32 word"
  have r: "mlib_read_u32le data (fst c) = Inr ?len" using assms by (simp add: read32_in)
  have "parsed c (\<lambda>c' s. section_ok s \<and> eats data c c' (tl (section_bytes s)) \<and> hd (section_bytes s) = 0)
    (bind_p (consume_document data) (\<lambda>bson. ret_p (Body ?len bson)) c)"
    by (rule parsed_step, rule w, rule w, rule parsed_ret)
      (auto simp: section_ok_def section_bytes_def whole_doc_def doc_len_def size_of_int32_small)
  then show ?thesis by (cases c) (use r in \<open>simp add: body_section_def bind_p_def position_def\<close>)
qed

lemma read_shift: "p \<le> length data \<Longrightarrow> mlib_read_i32le data (p + i) = mlib_read_i32le (drop p data) i"
  by (auto simp: mlib_read_i32le_def mlib_read_u32le_def rd_range_def add.commute)

lemma objects_shift:
  "p \<le> length data \<Longrightarrow> bson_objects_loop data limit count (p + i, r) =
     map_res (\<lambda>((q, s), x). ((p + q, s), x)) (bson_objects_loop (drop p data) limit count (i, r))"
proof (induction "drop p data" limit count "(i, r)" arbitrary: i r rule: bson_objects_loop.induct)
  case (1 limit count i r)
  show ?case
  proof (cases "mlib_read_i32le (drop p data) i")
    case (Inl e)
    then show ?thesis using "1.prems"
      by (simp add: bson_objects_loop.simps[of data limit count] bson_objects_loop.simps[of "drop p data" limit count] read_shift)
  next
    case (Inr len)
    then show ?thesis using "1.hyps"[OF _ _ Inr _ "1.prems"] "1.prems"
      by (simp add: bson_objects_loop.simps[of data limit count] bson_objects_loop.simps[of "drop p data" limit count] read_shift add.assoc)
  qed
qed

lemma sequence_tail:
  assumes w: "within data (p, rem)" and rs: "rs \<le> rem"
  shows "parsed (p, rem) (\<lambda>c' s. section_ok s \<and> (section_regular s \<longrightarrow> eats data (p, rem) c' (drop 5 (section_bytes s)))
      \<and> take 5 (section_bytes s) = 1 # i32 len)
    (sequence_rest data len rs (p, rem))"
proof -
  have w': "within data (p, rs)" using w rs by (simp add: within_def)
  obtain p1 r1 x where u: "consume_utf8 data (p, rs) = Inr ((p1, r1), x)" "p1 \<le> p + rs"
    and x: "\<And>s n. x = Some (s, n) \<Longrightarrow> p \<le> p1 \<and> p1 + r1 = p + rs \<and> s = drop p data \<and> 0 < n \<and> n = p1 - p
      \<and> n \<le> length s \<and> eats data (p, rs) (p1, r1) (take n s)"
    using parsed_utf8[OF w'] by (auto simp: parsed_def moved_def)
  show ?thesis
  proof (cases x)
    case None then show ?thesis using u rs by (simp add: sequence_rest_def parsed_def)
  next
    case (Some y)
    obtain n where y: "y = (drop p data, n)" "0 < n" "n = p1 - p" "n \<le> length (drop p data)"
      and p1: "p \<le> p1" "p1 + r1 = p + rs" and e1: "eats data (p, rs) (p1, r1) (take n (drop p data))"
      using x[of "fst y" "snd y"] Some by (cases y) auto
    have w1: "within data (p1, r1)" using w rs p1 by (simp add: within_def)
    obtain p2 r2 k where l: "consume_bson_objects data INT32_MAX (p1, r1) = Inr ((p2, r2), k)" "p1 \<le> p2" "p2 + r2 \<le> p1 + r1"
      and k: "\<forall>j. k = Some j \<longrightarrow> p2 + r2 = p1 + r1"
      using objects_loop_forward[OF w1, of INT32_MAX 0] by (auto simp: consume_bson_objects_def)
    let ?sec = "Sequence len (drop p data) n (drop p1 data) r1"
    have reg: "section_regular ?sec \<Longrightarrow> \<exists>j. k = Some j"
      using objects_shift[of p1 data INT32_MAX 0 0 r1] l(1) w1
      by (auto simp: section_regular_def consume_bson_objects_def within_def)
    have e2: "eats data (p1, r1) (p1 + r1, s) (take r1 (drop p1 data))" for s
      using eats_take[of "(p1, r1)" "(p1 + r1, s)" data] by simp
    have e: "eats data (p, rem) (p1 + r1, s) (take n (drop p data) @ take r1 (drop p1 data))" for s
      using e1 e2[of s] by (simp add: eats_def)
    show ?thesis
    proof (cases "r2 = 0")
      case False then show ?thesis using u l Some y rs p1 by (simp add: sequence_rest_def parsed_def)
    next
      case True
      have "section_regular ?sec \<Longrightarrow> p2 = p1 + r1" using reg k True by auto
      then show ?thesis using True u l Some y rs p1 e w1
        by (auto simp: sequence_rest_def parsed_def moved_def section_ok_def section_bytes_def string_ok_def within_def)
    qed
  qed
qed

lemma parsed_sequence:
  assumes w: "within data c"
  shows "parsed c (\<lambda>c' s. section_ok s \<and> (section_regular s \<longrightarrow> eats data c c' (tl (section_bytes s))) \<and> hd (section_bytes s) = 1)
    (sequence_section data c)"
  unfolding sequence_section_def
proof (rule parsed_step, rule w, rule w, rule parsed_step, assumption, rule parsed_step, assumption, rule parsed_prodI,
    rule parsed_step, assumption)
  fix c1 len c2 u c3 pos c4 v
  assume "fst c1 = fst c + 4 \<and> eats data c c1 (i32 len)" "c2 = c1 \<and> \<not> sint len < 4" "c3 = c2 \<and> pos = c2"
    and "c4 = c3 \<and> \<not> nat (sint len) - 4 > snd pos" and w4: "within data c4"
  then have rs: "nat (sint len) - 4 \<le> snd c4" and e: "eats data c c4 (i32 len)" by (metis not_less)+
  have bytes: "eats data c c' (tl (section_bytes s)) \<and> hd (section_bytes s) = 1"
    if "take 5 (section_bytes s) = 1 # i32 len" "eats data c4 c' (drop 5 (section_bytes s))" for c' s
  proof -
    have "section_bytes s = (1 # i32 len) @ drop 5 (section_bytes s)" using that(1) by (metis append_take_drop_id)
    then show ?thesis using eats_trans[OF e that(2)] by (metis append_Cons list.sel(1,3))
  qed
  have first: "hd (section_bytes s) = 1" if "take 5 (section_bytes s) = 1 # i32 len" for s
    using that by (cases "section_bytes s") auto
  have "parsed c4 (\<lambda>c' s. section_ok s \<and> (section_regular s \<longrightarrow> eats data c4 c' (drop 5 (section_bytes s)))
      \<and> take 5 (section_bytes s) = 1 # i32 len) (sequence_rest data len (nat (sint len) - 4) c4)"
    using sequence_tail[of data "fst c4" "snd c4" "nat (sint len) - 4" len] w4 rs by simp
  then show "parsed c4 (\<lambda>c' s. section_ok s \<and> (section_regular s \<longrightarrow> eats data c c' (tl (section_bytes s))) \<and> hd (section_bytes s) = 1)
    (sequence_rest data len (nat (sint len) - 4) c4)"
    by (rule parsed_mono) (blast intro: first bytes[THEN conjunct1])
qed

lemma parsed_put:
  assumes "length secs \<le> cap" "2 \<le> cap"
  shows "parsed c (\<lambda>c' y. c' = c \<and> (\<exists>cap'. y = (secs @ [s], cap', found) \<and> Suc (length secs) \<le> cap' \<and> 2 \<le> cap'))
    (put_section s (secs, cap, found) c)"
  using assms by (cases c) (auto simp: put_section_def parsed_def moved_refl Let_def)

lemma parsed_section:
  assumes w: "within data c" and four: "4 < snd c" and cap: "length secs \<le> cap" "2 \<le> cap"
  shows "parsed c (\<lambda>c' y. fst c < fst c' \<and> (\<exists>s cap' f. y = (secs @ [s], cap', f) \<and> Suc (length secs) \<le> cap' \<and> 2 \<le> cap' \<and>
      section_ok s \<and> (section_regular s \<longrightarrow> eats data c c' (section_bytes s))))
    (consume_op_msg_section data (secs, cap, found) c)"
  unfolding consume_op_msg_section_def prod.case
proof (rule parsed_step, rule w, rule w, rule parsed_step, assumption)
  fix c1 kind c2 u
  assume w2: "within data c2" and m1: "moved c c1" and 1: "fst c1 = fst c + 1 \<and> eats data c c1 [kind]"
    and 2: "c2 = c1 \<and> \<not> (kind = 0 \<and> found)"
  let ?E = "\<lambda>c' y. fst c < fst c' \<and> (\<exists>s cap' f. y = (secs @ [s], cap', f) \<and> Suc (length secs) \<le> cap' \<and> 2 \<le> cap' \<and>
      section_ok s \<and> (section_regular s \<longrightarrow> eats data c c' (section_bytes s)))"
  have step: "parsed c2 ?E (bind_p m (\<lambda>sec. put_section sec (secs, cap, f)) c2)"
    if m: "parsed c2 (\<lambda>c' s. section_ok s \<and> (section_regular s \<longrightarrow> eats data c2 c' (tl (section_bytes s))) \<and> hd (section_bytes s) = kind) (m c2)" for m f
  proof (rule parsed_bind, rule w2, rule m, rule parsed_mono, rule parsed_put[OF cap])
    fix c3 s c4 y
    assume s: "section_ok s \<and> (section_regular s \<longrightarrow> eats data c2 c3 (tl (section_bytes s))) \<and> hd (section_bytes s) = kind"
      and y: "c4 = c3 \<and> (\<exists>cap'. y = (secs @ [s], cap', f) \<and> Suc (length secs) \<le> cap' \<and> 2 \<le> cap')" and m: "moved c2 c3"
    have "section_bytes s = hd (section_bytes s) # tl (section_bytes s)"
      by (cases s) (simp_all add: section_bytes_def)
    then have "section_regular s \<Longrightarrow> eats data c c3 (section_bytes s)" using s 1 2 by (metis eats_Cons)
    then show "?E c4 y" using s y 1 2 m by (auto simp: moved_def)
  qed
  have body: "kind = 0 \<Longrightarrow> parsed c2 (\<lambda>c' s. section_ok s \<and> (section_regular s \<longrightarrow> eats data c2 c' (tl (section_bytes s))) \<and> hd (section_bytes s) = kind) (body_section data c2)"
    using m1 1 2 four by (intro parsed_mono[OF parsed_body[OF w2]]) (auto simp: moved_def)
  have seqn: "kind = 1 \<Longrightarrow> parsed c2 (\<lambda>c' s. section_ok s \<and> (section_regular s \<longrightarrow> eats data c2 c' (tl (section_bytes s))) \<and> hd (section_bytes s) = kind) (sequence_section data c2)"
    by (rule parsed_mono[OF parsed_sequence[OF w2]]) simp
  show "parsed c2 ?E ((if kind = 0 then bind_p (body_section data) (\<lambda>sec. put_section sec (secs, cap, True))
       else if kind = 1 then bind_p (sequence_section data) (\<lambda>sec. put_section sec (secs, cap, found))
       else fail_back 1) c2)"
    using step body seqn by (simp add: parsed_fail)
qed

definition eats_sections :: "byte list \<Rightarrow> cursor \<Rightarrow> cursor \<Rightarrow> rpc_section list \<Rightarrow> bool" where
  "eats_sections data c c' new \<longleftrightarrow> list_all section_ok new \<and>
     (list_all section_regular new \<longrightarrow> eats data c c' (concat (map section_bytes new)))"

lemma parsed_sections:
  "within data c \<Longrightarrow> snd c < fuel \<Longrightarrow> length secs \<le> cap \<Longrightarrow> 2 \<le> cap \<Longrightarrow>
   parsed c (\<lambda>c' (secs', _). \<exists>new. secs' = secs @ new \<and> eats_sections data c c' new) (sections_loop data fuel (secs, cap, found) c)"
proof (induction fuel arbitrary: c secs cap found)
  case 0 then show ?case by simp
next
  case (Suc fuel)
  show ?case
  proof (cases "4 < snd c")
    case False
    then show ?thesis by (auto simp: parsed_def moved_refl eats_sections_def eats_refl)
  next
    case True
    have "parsed c (\<lambda>c' (secs', _). \<exists>new. secs' = secs @ new \<and> eats_sections data c c' new)
      (bind_p (consume_op_msg_section data (secs, cap, found)) (sections_loop data fuel) c)"
    proof (rule parsed_bind, rule Suc.prems, rule parsed_section[OF Suc.prems(1) True Suc.prems(3,4)])
      fix c1 and y :: sections_state assume w1: "within data c1" and m: "moved c c1"
        and "fst c < fst c1 \<and> (\<exists>s cap' f. y = (secs @ [s], cap', f) \<and> Suc (length secs) \<le> cap' \<and> 2 \<le> cap' \<and>
          section_ok s \<and> (section_regular s \<longrightarrow> eats data c c1 (section_bytes s)))"
      then obtain s cap' f where y: "y = (secs @ [s], cap', f)" "Suc (length secs) \<le> cap'" "2 \<le> cap'" "fst c < fst c1"
        and s: "section_ok s" "section_regular s \<longrightarrow> eats data c c1 (section_bytes s)" by blast
      have "snd c1 < fuel" using m y(4) Suc.prems(2) by (simp add: moved_def)
      then have "parsed c1 (\<lambda>c' (secs', _). \<exists>new. secs' = (secs @ [s]) @ new \<and> eats_sections data c1 c' new) (sections_loop data fuel y c1)"
        using Suc.IH[of c1 "secs @ [s]" cap' f] w1 y by simp
      then show "parsed c1 (\<lambda>c' (secs', _). \<exists>new. secs' = secs @ new \<and> eats_sections data c c' new) (sections_loop data fuel y c1)"
        by (rule parsed_mono) (use s in \<open>fastforce simp: eats_sections_def intro: eats_trans\<close>)
    qed
    then show ?thesis using True by simp
  qed
qed

lemma parsed_msg:
  assumes w: "within data c"
  shows "parsed c (op_parsed data 2013 c) (consume_op_msg data c)"
  unfolding consume_op_msg_def
proof (rule parsed_step, rule w, rule w, rule parsed_step, assumption, rule parsed_step, assumption, rule parsed_prodI,
    rule parsed_bind, assumption, rule parsed_sections, assumption)
  fix c1 flag_bits c2 u c3 pos c4 and x :: sections_state
  assume c1: "fst c1 = fst c + 4 \<and> eats data c c1 (i32 flag_bits)" and c3: "c3 = c2 \<and> pos = c2"
    and c2: "c2 = c1 \<and> (flag_bits AND 0x0000FFFF) AND NOT 0x00010003 = 0" and w4: "within data c4"
    and x: "case x of (secs', _) \<Rightarrow> \<exists>new. secs' = [] @ new \<and> eats_sections data c3 c4 new"
  obtain secs cap found where x': "x = (secs, cap, found)" by (cases x) auto
  have e: "list_all section_ok secs" "list_all section_regular secs \<Longrightarrow> eats data c c4 (i32 flag_bits @ concat (map section_bytes secs))"
    using x c1 c2 c3 by (auto simp: x' eats_sections_def intro: eats_trans)
  show "parsed c4 (op_parsed data 2013 c) ((case x of (sections, capacity, found_kind_0) \<Rightarrow>
     bind_p (guard_p found_kind_0 0) (\<lambda>_.
       if flag_bits AND 1 \<noteq> 0 then
         bind_p (consume_int32 data) (\<lambda>checksum.
           ret_p (Msg \<lparr>om_flag_bits = flag_bits, om_sections = sections, om_checksum = Some checksum\<rparr>))
       else ret_p (Msg \<lparr>om_flag_bits = flag_bits, om_sections = sections, om_checksum = None\<rparr>))) c4)"
    unfolding x' prod.case
  proof (rule parsed_step, rule w4)
    fix c5 v assume w5: "within data c5" and c5: "c5 = c4 \<and> found"
    show "parsed c5 (op_parsed data 2013 c) ((if flag_bits AND 1 \<noteq> 0 then bind_p (consume_int32 data) (\<lambda>checksum.
           ret_p (Msg \<lparr>om_flag_bits = flag_bits, om_sections = secs, om_checksum = Some checksum\<rparr>))
       else ret_p (Msg \<lparr>om_flag_bits = flag_bits, om_sections = secs, om_checksum = None\<rparr>)) c5)"
      using e c5 by (intro parsed_if parsed_ret)
       (simp_all add: op_simps, rule parsed_step, use w5 in simp, use w5 in simp, rule parsed_ret,
          use e c5 in \<open>auto simp: op_simps intro: eats_trans simp flip: append_assoc\<close>)
  qed
qed (auto)

end
