(* ===== verification/RpcWire.thy ===== *)
theory RpcWire
  imports RpcOk
begin

text \<open>
  The whole parser, and what the vectors of a message hold: its encoding. Together: a regular message that
  was parsed is written back byte by byte.
\<close>

section \<open>The parser\<close>

lemma parsed_op:
  assumes "within data c"
  shows "parsed c (op_parsed data code c) (consume_op data code c)"
  using assms by (simp add: consume_op_def parsed_compressed parsed_msg parsed_reply parsed_update parsed_insert
    parsed_query parsed_get_more parsed_delete parsed_kill_cursors parsed_fail)

lemma eats_eq_take: "eats data c c' bs \<Longrightarrow> fst c \<le> fst c' \<Longrightarrow> fst c' \<le> length data \<Longrightarrow> bs = take (fst c' - fst c) (drop (fst c) data)"
proof -
  assume e: "eats data c c' bs" and l: "fst c \<le> fst c'" "fst c' \<le> length data"
  have "length (drop (fst c) data) = length bs + length (drop (fst c') data)"
    using e by (metis eats_def length_append)
  then have "length bs = fst c' - fst c" using l by simp
  then show ?thesis using e by (simp add: eats_def)
qed

lemmas parsed_step_op = parsed_bind[where m = "consume_op data code" for data code, OF _ parsed_op]

lemma parsed_parse_body:
  assumes "within data c"
  shows "parsed c (\<lambda>c' m. snd c' = 0 \<and> rm_message_length m = len \<and> \<not> rm_in_iovecs m \<and> op_ok (rm_op m) \<and>
      (op_regular (rm_op m) \<longrightarrow> eats data c c' (drop 4 (message_bytes m)))) (parse_body data len c)"
  using assms unfolding parse_body_def
  by - (((rule parsed_prodI | (rule parsed_step parsed_step_op, assumption+))+, rule parsed_ret),
    auto simp: op_parsed_def message_bytes_def,
    ((rule eats_trans, assumption)+, assumption))

lemma parse_message_spec:
  assumes len: "len \<le> length data"
  shows "\<exists>c' r. parse_message data (0, len) = Inr (c', r) \<and> fst c' \<le> len \<and> (\<forall>m. r = Some m \<longrightarrow>
    fst c' = nat (sint (rm_message_length m)) \<and> 16 \<le> fst c' \<and> op_ok (rm_op m) \<and> \<not> rm_in_iovecs m \<and>
    (op_regular (rm_op m) \<longrightarrow> message_bytes m = take (fst c') data))"
proof (cases "len < 4")
  case True
  then show ?thesis by (simp add: parse_message_def bind_p_def consume_int32_def)
next
  case False
  define v :: "32 word" where "v = le_word (take 4 data)"
  have int: "consume_int32 data (0, len) = Inr ((4, len - 4), Some v)"
    using False len by (simp add: consume_int32_def v_def)
  show ?thesis
  proof (cases "sint v < 16 \<or> sint v > int (len - 4) + 4")
    case True
    then show ?thesis using int
      by (auto simp: parse_message_def bind_p_def position_def guard_p_def fail_back_def)
  next
    case ok: False
    define n where "n = nat (sint v) - 4"
    have n: "4 + n \<le> len" "12 \<le> n" "4 + n = nat (sint v)" using ok False by (auto simp: n_def)
    have pm: "parse_message data (0, len) = parse_body data v (4, n)"
      using int ok by (simp add: parse_message_def bind_p_def position_def guard_p_def ret_p_def set_remaining_def n_def)
    have w: "within data (4, n)" using n len by (simp add: within_def)
    obtain c' r where r: "parse_body data v (4, n) = Inr (c', r)" "fst c' \<le> 4 + n"
      and m: "\<forall>m. r = Some m \<longrightarrow> moved (4, n) c' \<and> snd c' = 0 \<and> rm_message_length m = v \<and> \<not> rm_in_iovecs m \<and> op_ok (rm_op m) \<and>
        (op_regular (rm_op m) \<longrightarrow> eats data (4, n) c' (drop 4 (message_bytes m)))"
      using parsed_parse_body[OF w, of v] unfolding parsed_def fst_conv snd_conv by blast
    have bytes: "message_bytes m = take (fst c') data" if "r = Some m" "op_regular (rm_op m)" for m
    proof -
      have c': "fst c' = 4 + n" using m[rule_format, OF that(1)] by (simp add: moved_def)
      have "drop 4 (message_bytes m) = take n (drop 4 data)"
        using eats_eq_take[of data "(4, n)" c'] m[rule_format, OF that(1)] that(2) c' n(1) len by simp
      moreover have "take 4 (message_bytes m) = take 4 data"
        using m[rule_format, OF that(1)] write_read32[of 0 data] len False by (simp add: message_bytes_def v_def)
      ultimately have "message_bytes m = take 4 data @ take n (drop 4 data)" by (metis append_take_drop_id)
      then show ?thesis by (simp add: c' take_add)
    qed
    show ?thesis using r m n bytes pm by (auto simp: moved_def)
  qed
qed

section \<open>The vectors\<close>

lemma append_all_step:
  "0 < n \<Longrightarrow> length iovs < cap \<Longrightarrow> append_all (Inr (Some m, n) # rest) (iovs, cap) = append_all rest (iovs @ [(m, n)], cap)"
  by (simp add: append_iovec_def)

lemma append_all_append:
  "append_all xs st = Inr (Some st') \<Longrightarrow> append_all (xs @ ys) st = append_all ys st'"
  by (induction xs arbitrary: st) (auto simp: bind_res_eq_Inr split: option.splits)

lemma iovec_bytes_simps: "iovec_bytes [] = []" "iovec_bytes ((m, n) # vs) = take n m @ iovec_bytes vs"
  "iovec_bytes (vs @ ws) = iovec_bytes vs @ iovec_bytes ws"
  by (simp_all add: iovec_bytes_def)

lemma iov_document_ok: "whole_doc m \<Longrightarrow> iov_document m = Inr (Some m, doc_len m)"
  by (simp add: whole_doc_def iov_document_def doc_len_def)

definition yields :: "iovec res list \<Rightarrow> byte list \<Rightarrow> bool" where
  "yields items bs \<longleftrightarrow> (\<forall>iovs cap. length iovs + length items \<le> cap \<longrightarrow>
     (\<exists>vs. append_all items (iovs, cap) = Inr (Some (iovs @ vs, cap)) \<and> length vs = length items \<and>
       iovec_bytes vs = bs \<and> list_all (\<lambda>(m, n). 0 < n \<and> n \<le> length m) vs))"

lemma yields_Nil: "yields [] []"
  by (simp add: yields_def iovec_bytes_simps)

lemma yields_append: "yields xs as \<Longrightarrow> yields ys bs \<Longrightarrow> yields (xs @ ys) (as @ bs)"
  unfolding yields_def
proof (intro allI impI)
  fix iovs :: "(byte list \<times> nat) list" and cap
  assume xs: "\<forall>iovs cap. length iovs + length xs \<le> cap \<longrightarrow> (\<exists>vs. append_all xs (iovs, cap) = Inr (Some (iovs @ vs, cap)) \<and>
      length vs = length xs \<and> iovec_bytes vs = as \<and> list_all (\<lambda>(m, n). 0 < n \<and> n \<le> length m) vs)"
    and ys: "\<forall>iovs cap. length iovs + length ys \<le> cap \<longrightarrow> (\<exists>vs. append_all ys (iovs, cap) = Inr (Some (iovs @ vs, cap)) \<and>
      length vs = length ys \<and> iovec_bytes vs = bs \<and> list_all (\<lambda>(m, n). 0 < n \<and> n \<le> length m) vs)"
    and l: "length iovs + length (xs @ ys) \<le> cap"
  obtain vs where vs: "append_all xs (iovs, cap) = Inr (Some (iovs @ vs, cap))" "length vs = length xs" "iovec_bytes vs = as"
    "list_all (\<lambda>(m, n). 0 < n \<and> n \<le> length m) vs" using xs[rule_format, of iovs cap] l by auto
  obtain ws where ws: "append_all ys (iovs @ vs, cap) = Inr (Some ((iovs @ vs) @ ws, cap))" "length ws = length ys" "iovec_bytes ws = bs"
    "list_all (\<lambda>(m, n). 0 < n \<and> n \<le> length m) ws" using ys[rule_format, of "iovs @ vs" cap] l vs(2) by auto
  show "\<exists>vs. append_all (xs @ ys) (iovs, cap) = Inr (Some (iovs @ vs, cap)) \<and> length vs = length (xs @ ys) \<and>
      iovec_bytes vs = as @ bs \<and> list_all (\<lambda>(m, n). 0 < n \<and> n \<le> length m) vs"
    by (rule exI[of _ "vs @ ws"]) (use vs ws in \<open>simp add: append_all_append[OF vs(1)] iovec_bytes_simps\<close>)
qed

lemma yields_one: "0 < n \<Longrightarrow> n \<le> length m \<Longrightarrow> yields [Inr (Some m, n)] (take n m)"
  by (simp add: yields_def append_iovec_def iovec_bytes_simps)

lemma yields_Cons: "yields [x] as \<Longrightarrow> yields ys bs \<Longrightarrow> yields (x # ys) (as @ bs)"
  using yields_append[of "[x]" as ys bs] by simp

lemma yields_items:
  "yields [iov_uint8 b] [b]" "yields [iov_int32 v] (i32 v)" "yields [iov_int64 w] (i64 w)" "yields [iov_reserved_zero] (i32 0)"
  "string_ok m n \<Longrightarrow> yields [iov_data m n] (take n m)"
  "whole_doc m \<Longrightarrow> yields [iov_document m] (whole_bytes m)"
  using yields_one[of 1 "[b]"] yields_one[of 4 "i32 v"] yields_one[of 8 "i64 w"] yields_one[of 4 "i32 0"] yields_one[of n m] yields_one[of "doc_len m" m]
  by (simp_all add: iov_uint8_def iov_int32_def iov_int64_def iov_reserved_zero_def iov_data_def iov_document_ok string_ok_def whole_doc_def)

text \<open>Every operation reserves room for its vectors and appends them.\<close>

definition vectors :: "(byte list \<times> nat) list \<Rightarrow> iov_state option res \<Rightarrow> byte list \<Rightarrow> bool" where
  "vectors hdr r bs \<longleftrightarrow> (\<exists>vs cap. r = Inr (Some (hdr @ vs, cap)) \<and> iovec_bytes vs = bs \<and>
     list_all (\<lambda>(m, n). 0 < n \<and> n \<le> length m) vs)"

lemma reserve_then:
  assumes "length hdr = 4" "yields items bs" "length items \<le> k"
  shows "vectors hdr (bind_res (reserve_space_for k (hdr, 4)) (append_all items)) bs"
  using assms(2)[unfolded yields_def, rule_format, of hdr "4 + k"] assms(1,3)
  by (auto simp: reserve_space_for_def vectors_def)

lemma yields_uint8: "yields ys bs \<Longrightarrow> yields (iov_uint8 b # ys) (b # bs)"
  using yields_Cons[OF yields_items(1)] by simp

lemma yields_section:
  "section_ok s \<Longrightarrow> section_regular s \<Longrightarrow> yields (section_iovecs s) (section_bytes s)"
  by (cases s) (auto simp: section_ok_def section_regular_def section_iovecs_def section_bytes_def string_ok_def whole_doc_def
    intro!: yields_Cons[of "iov_uint8 _" "[_]", simplified] yields_Cons yields_items)

lemma yields_sections:
  "list_all section_ok secs \<Longrightarrow> list_all section_regular secs \<Longrightarrow>
   yields (concat (map section_iovecs secs)) (concat (map section_bytes secs))"
  by (induction secs) (auto simp: yields_Nil intro: yields_append yields_section)

lemma length_section_iovecs: "length (concat (map section_iovecs (om_sections x))) = count_section_iovecs x"
  by (auto simp: count_section_iovecs_def section_iovecs_def length_concat comp_def split: rpc_section.split
    intro!: arg_cong[of _ _ sum_list] map_cong)

lemma string_okI: "0 < n \<Longrightarrow> n \<le> length m \<Longrightarrow> string_ok m n"
  by (simp add: string_ok_def)

lemma string_okD: "string_ok m n \<Longrightarrow> 0 < n \<and> n \<le> length m"
  by (simp add: string_ok_def)

lemma cursor_ids_bytes: "length (concat (map i64 ids)) = 8 * length ids"
  by (induction ids) auto

lemma iovs_op_ok:
  assumes "op_ok op" "op_regular op" "length hdr = 4"
  shows "vectors hdr (iovs_op op (hdr, 4)) (rpc_op_bytes op)"
proof (cases op)
  case (Msg x)
  have h: "yields (iov_int32 (om_flag_bits x) # concat (map section_iovecs (om_sections x))
      @ (case om_checksum x of None \<Rightarrow> [] | Some checksum \<Rightarrow> [iov_int32 checksum])) (rpc_op_bytes op)"
    using assms(1,2) yields_items(2) by (auto simp: Msg rpc_op_bytes_def op_ok_def op_regular_def split: option.split
      intro!: yields_Cons yields_append yields_sections yields_Nil)
  show ?thesis unfolding Msg iovs_op_def rpc_op.case iovs_op_msg_def
    by (rule reserve_then[OF assms(3) h[unfolded Msg]])
      (simp add: length_section_iovecs[symmetric] length_concat split: option.split)
next
  case (Kill_cursors x)
  then show ?thesis
    using assms yields_items(5)[of "concat (map i64 (ok_cursor_ids x))" "8 * length (ok_cursor_ids x)"]
    by (auto simp: iovs_op_def rpc_op_bytes_def op_ok_def iovs_op_kill_cursors_def string_ok_def cursor_ids_bytes mult.commute
      intro!: reserve_then yields_Cons yields_items)
qed (use assms in \<open>auto simp: iovs_op_def rpc_op_bytes_def op_ok_def op_regular_def iovs_op_compressed_def iovs_op_reply_def
  iovs_op_update_def iovs_op_insert_def iovs_op_query_def iovs_op_get_more_def iovs_op_delete_def
  iov_data_def[symmetric] split: option.splits
  intro!: string_okI reserve_then yields_uint8 yields_Cons yields_items dest: string_okD\<close>)

lemma to_iovecs_ok:
  assumes "op_ok (rm_op rpc)" "op_regular (rm_op rpc)" "\<not> rm_in_iovecs rpc"
  shows "\<exists>iovs. mcd_rpc_message_to_iovecs rpc = Inr (rpc\<lparr>rm_in_iovecs := True\<rparr>, Some iovs) \<and> iovec_bytes iovs = message_bytes rpc
    \<and> list_all (\<lambda>(m, n). 0 < n \<and> n \<le> length m) iovs"
proof -
  let ?items = "[iov_int32 (rm_message_length rpc), iov_int32 (rm_request_id rpc), iov_int32 (rm_response_to rpc), iov_int32 (rm_op_code (rm_op rpc))]"
  have h: "yields ?items (i32 (rm_message_length rpc) @ i32 (rm_request_id rpc) @ i32 (rm_response_to rpc) @ i32 (rm_op_code (rm_op rpc)))"
    by (intro yields_Cons yields_items)
  then obtain hdr where hdr: "append_all ?items ([], 4) = Inr (Some (hdr, 4))" "length hdr = 4"
    "iovec_bytes hdr = i32 (rm_message_length rpc) @ i32 (rm_request_id rpc) @ i32 (rm_response_to rpc) @ i32 (rm_op_code (rm_op rpc))"
    "list_all (\<lambda>(m, n). 0 < n \<and> n \<le> length m) hdr"
    using h[unfolded yields_def, rule_format, of "[]" 4] by (simp only: list.size append_Nil) auto
  obtain vs cap where vs: "iovs_op (rm_op rpc) (hdr, 4) = Inr (Some (hdr @ vs, cap))" "iovec_bytes vs = rpc_op_bytes (rm_op rpc)"
    "list_all (\<lambda>(m, n). 0 < n \<and> n \<le> length m) vs"
    using iovs_op_ok[OF assms(1,2) hdr(2)] by (auto simp: vectors_def)
  have "mcd_rpc_message_to_iovecs rpc = Inr (rpc\<lparr>rm_in_iovecs := True\<rparr>, Some (hdr @ vs))"
    using vs(1) assms(3) unfolding mcd_rpc_message_to_iovecs_def hdr(1) by simp
  then show ?thesis using hdr vs by (intro exI[of _ "hdr @ vs"]) (simp add: iovec_bytes_simps message_bytes_def)
qed

end
