(* ===== verification/RpcProps.thy ===== *)
theory RpcProps
  imports RpcWire
begin

text \<open>Properties of the messages of the wire protocol.\<close>

text \<open>C12: Whatever a server sends, the parser reads only inside the buffer and returns; the end that it
  reports is inside the data, and a message that it accepts has the length that its header says.\<close>

theorem rpc_parse_safe:
  assumes "len \<le> length data"
  shows "\<exists>data_end r. mcd_rpc_message_from_data data len = Inr (data_end, r) \<and> data_end \<le> len \<and>
    (\<forall>rpc. r = Some rpc \<longrightarrow> int data_end = sint (rm_message_length rpc) \<and> 16 \<le> data_end)"
  using parse_message_spec[OF assms] by (fastforce simp: mcd_rpc_message_from_data_def)

theorem rpc_parse_safe_witness:
  "\<exists>data_end r. mcd_rpc_message_from_data (replicate 20 0xFF) 20 = Inr (data_end, r) \<and> data_end \<le> 20"
  using rpc_parse_safe[of 20 "replicate 20 0xFF"] by auto

section \<open>Two messages\<close>











end
