(* ===== verification/CmdError.thy ===== *)
theory CmdError
  imports ServerHello HostList
begin

text \<open>
  Errors of commands (\<open>src/src/mongoc/mongoc-rpc.c\<close>, \<open>mongoc-error.c\<close>, \<open>mongoc-write-command.c\<close>): what a reply
  says about its command, and which errors are worth another try. A \<open>bson_error_t\<close> is a record; its message is
  the string in a buffer of 503 bytes.
\<close>

section \<open>Codes\<close>

datatype error_domain =
    MONGOC_ERROR_CLIENT | MONGOC_ERROR_STREAM | MONGOC_ERROR_PROTOCOL | MONGOC_ERROR_CURSOR | MONGOC_ERROR_QUERY
  | MONGOC_ERROR_INSERT | MONGOC_ERROR_SASL | MONGOC_ERROR_BSON | MONGOC_ERROR_MATCHER | MONGOC_ERROR_NAMESPACE
  | MONGOC_ERROR_COMMAND | MONGOC_ERROR_COLLECTION | MONGOC_ERROR_GRIDFS | MONGOC_ERROR_SCRAM
  | MONGOC_ERROR_SERVER_SELECTION | MONGOC_ERROR_WRITE_CONCERN | MONGOC_ERROR_SERVER | MONGOC_ERROR_TRANSACTION
  | MONGOC_ERROR_CLIENT_SIDE_ENCRYPTION | MONGOC_ERROR_POOL | MONGOC_ERROR_AZURE | MONGOC_ERROR_GCP

datatype error_category = CATEGORY_BSON | CATEGORY_MONGOC | CATEGORY_SERVER | CATEGORY_CRYPT | CATEGORY_SASL

record bson_error =
  err_domain :: error_domain
  err_code :: nat
  err_category :: error_category
  err_message :: "byte list"

abbreviation (input) "MONGOC_ERROR_STREAM_NAME_RESOLUTION \<equiv> 3 :: nat"
abbreviation (input) "MONGOC_ERROR_CLIENT_AUTHENTICATE \<equiv> 11 :: nat"
abbreviation (input) "MONGOC_ERROR_PROTOCOL_INVALID_REPLY \<equiv> 14 :: nat"
abbreviation (input) "MONGOC_ERROR_QUERY_FAILURE \<equiv> 17 :: nat"
abbreviation (input) "MONGOC_ERROR_PROTOCOL_ERROR \<equiv> 17 :: nat"
abbreviation (input) "MONGOC_ERROR_QUERY_COMMAND_NOT_FOUND \<equiv> 59 :: nat"

section \<open>What a reply says\<close>

text \<open>\<open>errorLabels\<close> of a reply: the strings of an array or document.\<close>

fun label_loop :: "nat \<Rightarrow> bson_iter \<Rightarrow> byte list \<Rightarrow> bool res" where
  "label_loop 0 it label = Inl NoFuel"
| "label_loop (Suc fuel) it label =
     bind_res (bson_iter_next it) (\<lambda>(ok, it).
       if \<not> ok then Inr False
       else
         bind_res (bson_iter_type it) (\<lambda>ty.
           if ty = type_byte BSON_TYPE_UTF8 then
             bind_res (bind_res (utf8_ptr it) deref) (\<lambda>s. if s = label then Inr True else label_loop fuel it label)
           else label_loop fuel it label))"

definition mongoc_error_has_label :: "doc \<Rightarrow> byte list \<Rightarrow> bool res" where
  "mongoc_error_has_label reply label =
     bind_res (bson_iter_init_find (fst reply) (snd reply) (str ''errorLabels'' @ [0])) (\<lambda>(found, it).
       if \<not> found then Inr False
       else bind_res (bson_iter_recurse it) (\<lambda>child. case child of
           None \<Rightarrow> Inr False
         | Some child \<Rightarrow> label_loop (Suc (it_len child)) child label))"

text \<open>A code is read as \<open>int64_t\<close> and converted to \<open>uint32_t\<close>; it must not be zero.\<close>

definition NUMBER :: "bson_type list" where
  "NUMBER = [BSON_TYPE_INT32, BSON_TYPE_INT64, BSON_TYPE_DOUBLE]"

definition read_code :: "bson_iter \<Rightarrow> nat res" where
  "read_code it = bind_res (bson_iter_as_int64 it) (\<lambda>v.
     let code = nat (v mod 2 ^ 32) in map_res (\<lambda>_. code) (c_assert (code \<noteq> 0)))"

definition find_in :: "bson_iter \<Rightarrow> byte list \<Rightarrow> bson_type list \<Rightarrow> bson_iter option res" where
  "find_in it key ts =
     bind_res (bson_iter_find it (key @ [0])) (\<lambda>(found, it).
       if \<not> found then Inr None
       else map_res (\<lambda>ty. if ty \<in> set (map type_byte ts) then Some it else None) (bson_iter_type it))"

text \<open>The state of \<open>_parse_error_reply\<close>: whether an error was found, the code, and the message if one was stored.\<close>

type_synonym found_error = "bool \<times> nat \<times> byte list option"

definition found_code :: "bson_iter option \<Rightarrow> found_error \<Rightarrow> found_error res" where
  "found_code i st = (case i of
       None \<Rightarrow> Inr st
     | Some it \<Rightarrow> map_res (\<lambda>code. (True, code, snd (snd st))) (read_code it))"

definition found_message :: "bson_iter option \<Rightarrow> found_error \<Rightarrow> found_error res" where
  "found_message i st = (case i of
       None \<Rightarrow> Inr st
     | Some it \<Rightarrow> map_res (\<lambda>msg. (True, fst (snd st), msg)) (utf8_ptr it))"

definition parse_error_reply :: "doc \<Rightarrow> bool \<Rightarrow> found_error res" where
  "parse_error_reply d check_wce =
     bind_res (bind_res (find_typed d (str ''code'') NUMBER) (\<lambda>i. found_code i (False, 0, None))) (\<lambda>st.
     bind_res (find_typed d (str ''errmsg'') [BSON_TYPE_UTF8]) (\<lambda>i.
     bind_res (if i \<noteq> None then found_message i st
               else bind_res (find_typed d (str ''$err'') [BSON_TYPE_UTF8]) (\<lambda>i. found_message i st)) (\<lambda>st.
       if fst st then Inr st
       else if check_wce then
         bind_res (find_typed d (str ''writeConcernError'') [BSON_TYPE_DOCUMENT]) (\<lambda>i. case i of
             None \<Rightarrow> Inr st
           | Some it \<Rightarrow>
               bind_res (bind_res (bson_iter_recurse it) (\<lambda>c. case c of None \<Rightarrow> Inl AssertFail | Some c \<Rightarrow> Inr c)) (\<lambda>child.
               bind_res (bind_res (find_in child (str ''code'') NUMBER) (\<lambda>i. found_code i st)) (\<lambda>st.
               bind_res (find_in child (str ''errmsg'') [BSON_TYPE_UTF8]) (\<lambda>i. found_message i st))))
       else Inr st)))"

definition set_error :: "error_category \<Rightarrow> error_domain \<Rightarrow> nat \<Rightarrow> byte list \<Rightarrow> bson_error" where
  "set_error category domain code message =
     \<lparr>err_domain = domain, err_code = code, err_category = category, err_message = take 502 message\<rparr>"

definition cmd_set_error :: "int \<Rightarrow> nat \<Rightarrow> byte list \<Rightarrow> bson_error" where
  "cmd_set_error error_api_version code message =
     (let (code', category) =
            (if code = MONGOC_ERROR_PROTOCOL_ERROR then (MONGOC_ERROR_QUERY_COMMAND_NOT_FOUND, CATEGORY_SERVER)
             else if code = 0 then (MONGOC_ERROR_QUERY_FAILURE, CATEGORY_MONGOC)
             else (code, CATEGORY_SERVER)) in
      set_error category (if error_api_version \<ge> 2 then MONGOC_ERROR_SERVER else MONGOC_ERROR_QUERY) code' message)"

definition error_of :: "int \<Rightarrow> found_error \<Rightarrow> bson_error option" where
  "error_of error_api_version st =
     (if \<not> fst st then None
      else Some (cmd_set_error error_api_version (fst (snd st))
        (case snd (snd st) of None \<Rightarrow> str ''Unknown command error'' | Some m \<Rightarrow> m)))"

text \<open>\<open>None\<close> where the functions return true.\<close>

definition cmd_check_ok :: "doc \<Rightarrow> int \<Rightarrow> bson_error option res" where
  "cmd_check_ok d error_api_version =
     bind_res (bson_iter_init_find (fst d) (snd d) (str ''ok'' @ [0])) (\<lambda>(found, it).
     bind_res (if found then bson_iter_as_bool it else Inr False) (\<lambda>ok.
       if ok then Inr None
       else map_res (error_of error_api_version) (parse_error_reply d False)))"

definition cmd_check_ok_no_wce :: "doc \<Rightarrow> int \<Rightarrow> bson_error option res" where
  "cmd_check_ok_no_wce d error_api_version = map_res (error_of error_api_version) (parse_error_reply d True)"

section \<open>Kinds of errors\<close>

definition error_is_server :: "bson_error option \<Rightarrow> bool" where
  "error_is_server e = (case e of None \<Rightarrow> False
     | Some e \<Rightarrow> err_domain e = MONGOC_ERROR_SERVER \<or> err_domain e = MONGOC_ERROR_WRITE_CONCERN)"

definition error_is_network :: "bson_error option \<Rightarrow> bool" where
  "error_is_network e = (case e of None \<Rightarrow> False
     | Some e \<Rightarrow> err_domain e = MONGOC_ERROR_STREAM
         \<or> err_domain e = MONGOC_ERROR_PROTOCOL \<and> err_code e = MONGOC_ERROR_PROTOCOL_INVALID_REPLY)"

definition error_is_dns :: "bson_error option \<Rightarrow> bool" where
  "error_is_dns e = (case e of None \<Rightarrow> False
     | Some e \<Rightarrow> err_domain e = MONGOC_ERROR_STREAM \<and> err_code e = MONGOC_ERROR_STREAM_NAME_RESOLUTION)"

definition error_is_auth :: "bson_error option \<Rightarrow> bool" where
  "error_is_auth e = (case e of None \<Rightarrow> False
     | Some e \<Rightarrow> err_domain e = MONGOC_ERROR_CLIENT \<and> err_code e = MONGOC_ERROR_CLIENT_AUTHENTICATE)"

definition error_is_reauth :: "bson_error option \<Rightarrow> int \<Rightarrow> bool" where
  "error_is_reauth e error_api_version = (case e of None \<Rightarrow> False
     | Some e \<Rightarrow> err_domain e = (if error_api_version = 2 then MONGOC_ERROR_SERVER else MONGOC_ERROR_QUERY) \<and> err_code e = 391)"

definition write_error_is_retryable :: "bson_error \<Rightarrow> bool" where
  "write_error_is_retryable e \<longleftrightarrow> error_is_server (Some e)
     \<and> err_code e \<in> {6, 7, 89, 91, 189, 262, 9001, 10107, 11600, 11602, 13435, 13436}"

definition error_is_shutdown :: "bson_error \<Rightarrow> bool" where
  "error_is_shutdown e \<longleftrightarrow> error_is_server (Some e) \<and> err_code e \<in> {11600, 91}"

definition error_is_recovering :: "bson_error \<Rightarrow> bool" where
  "error_is_recovering e \<longleftrightarrow> error_is_server (Some e) \<and>
     (err_code e \<in> {11600, 11602, 13436, 189, 91}
      \<or> err_code e = MONGOC_ERROR_QUERY_FAILURE
        \<and> (mstr_contains (err_message e) (str ''not master or secondary'')
            \<or> mstr_contains (err_message e) (str ''node is recovering'')))"

definition error_is_not_primary :: "bson_error \<Rightarrow> bool" where
  "error_is_not_primary e \<longleftrightarrow> error_is_server (Some e) \<and> \<not> error_is_recovering e \<and>
     (err_code e \<in> {10107, 13435, 10058}
      \<or> err_code e = MONGOC_ERROR_QUERY_FAILURE \<and> mstr_contains (err_message e) (str ''not master''))"

definition error_is_state_change :: "bson_error \<Rightarrow> bool" where
  "error_is_state_change e \<longleftrightarrow> error_is_recovering e \<or> error_is_not_primary e"

datatype read_err_type = MONGOC_READ_ERR_NONE | MONGOC_READ_ERR_OTHER | MONGOC_READ_ERR_RETRY

definition read_error_get_type :: "bool \<Rightarrow> bson_error option \<Rightarrow> doc \<Rightarrow> read_err_type res" where
  "read_error_get_type cmd_ret cmd_err reply =
     (if \<not> cmd_ret \<and> error_is_network cmd_err then Inr MONGOC_READ_ERR_RETRY
      else map_res (\<lambda>e. case e of
          None \<Rightarrow> MONGOC_READ_ERR_NONE
        | Some e \<Rightarrow>
            if err_code e \<in> {262, 11600, 11602, 10107, 13435, 13436, 189, 134, 91, 7, 6, 89, 9001} then MONGOC_READ_ERR_RETRY
            else if mstr_contains (err_message e) (str ''not master'') \<or> mstr_contains (err_message e) (str ''node is recovering'')
            then MONGOC_READ_ERR_RETRY
            else MONGOC_READ_ERR_OTHER)
        (cmd_check_ok_no_wce reply 2))"

datatype write_err_type =
  MONGOC_WRITE_ERR_NONE | MONGOC_WRITE_ERR_OTHER | MONGOC_WRITE_ERR_RETRY | MONGOC_WRITE_ERR_WRITE_CONCERN

definition write_error_get_type :: "doc \<Rightarrow> write_err_type res" where
  "write_error_get_type reply =
     bind_res (mongoc_error_has_label reply (str ''RetryableWriteError'')) (\<lambda>labelled.
       if labelled then Inr MONGOC_WRITE_ERR_RETRY
       else map_res (\<lambda>e. case e of
           None \<Rightarrow> MONGOC_WRITE_ERR_NONE
         | Some e \<Rightarrow> if err_code e = 64 then MONGOC_WRITE_ERR_WRITE_CONCERN else MONGOC_WRITE_ERR_OTHER)
         (cmd_check_ok_no_wce reply 2))"

text \<open>
  \<open>_mongoc_write_error_handle_labels\<close>: whether it appends the label \<open>RetryableWriteError\<close> to the reply.
\<close>

definition write_error_handle_labels :: "bool \<Rightarrow> bson_error option \<Rightarrow> doc \<Rightarrow> server_desc \<Rightarrow> bool res" where
  "write_error_handle_labels cmd_ret cmd_err reply sd =
     (if \<not> cmd_ret \<and> error_is_network cmd_err then Inr True
      else if sd_max_wire sd \<ge> 9 then Inr False
      else map_res (\<lambda>e. case e of None \<Rightarrow> False | Some e \<Rightarrow> write_error_is_retryable e)
        (if sd_type sd = MONGOC_SERVER_MONGOS then cmd_check_ok reply 2 else cmd_check_ok_no_wce reply 2))"

end
