(* ===== verification/CmdDoc.thy ===== *)
theory CmdDoc
  imports RRefine CmdError DocOps
begin

text \<open>
  The documents that the client builds and reads. A \<open>bson_t\<close> under construction is its body, the bytes between
  the length and the final NUL; an append adds the bytes of an element when the document stays within
  \<open>BSON_MAX_SIZE\<close>. That the append functions of \<open>BsonAppend\<close> do this to the memory of a document with its own
  storage is the lemma \<open>appends\<close>, for every function that keeps the contract \<open>appender\<close>. An iterator over an encoded
  document meets its elements one by one, and the accessors read their values.
\<close>

type_synonym body = "byte list"

definition append_to :: "body \<Rightarrow> byte list \<Rightarrow> bool \<times> body" where
  "append_to b bs = (if length b + 5 + length bs \<le> BSON_MAX_SIZE then (True, b @ bs) else (False, b))"

definition append_e :: "body \<Rightarrow> element \<Rightarrow> bool \<times> body" where
  "append_e b e = append_to b (enc e)"

definition body_doc :: "body \<Rightarrow> doc" where
  "body_doc b = (doc_bytes b, length b + 5)"

text \<open>\<open>bson_concat\<close> and the elements of the append functions.\<close>

definition concat_doc :: "body \<Rightarrow> doc \<Rightarrow> (bool \<times> body) res" where
  "concat_doc b d =
     map_res (\<lambda>e. if e then (True, b) else append_to b (take (snd d - 5) (drop 4 (fst d)))) (bson_empty (fst d) (snd d))"

definition e_utf8 :: "byte list \<Rightarrow> byte list \<Rightarrow> element" where
  "e_utf8 k s = (BSON_TYPE_UTF8, k, string_bytes s)"

definition e_int32 :: "byte list \<Rightarrow> 32 word \<Rightarrow> element" where
  "e_int32 k v = (BSON_TYPE_INT32, k, mlib_write_u32le v)"

definition e_int64 :: "byte list \<Rightarrow> 64 word \<Rightarrow> element" where
  "e_int64 k v = (BSON_TYPE_INT64, k, mlib_write_u64le v)"

definition e_bool :: "byte list \<Rightarrow> bool \<Rightarrow> element" where
  "e_bool k v = (BSON_TYPE_BOOL, k, [if v then 1 else 0])"

definition e_timestamp :: "byte list \<Rightarrow> 32 word \<Rightarrow> 32 word \<Rightarrow> element" where
  "e_timestamp k t i = (BSON_TYPE_TIMESTAMP, k, mlib_write_u32le i @ mlib_write_u32le t)"

definition e_doc :: "byte list \<Rightarrow> doc \<Rightarrow> element" where
  "e_doc k d = (BSON_TYPE_DOCUMENT, k, take (snd d) (fst d))"

definition e_array :: "byte list \<Rightarrow> doc \<Rightarrow> element" where
  "e_array k d = (BSON_TYPE_ARRAY, k, take (snd d) (fst d))"

definition e_binary :: "byte list \<Rightarrow> byte \<Rightarrow> byte list \<Rightarrow> element" where
  "e_binary k subtype bs = (BSON_TYPE_BINARY, k, binary_bytes subtype bs)"

lemmas e_defs = e_utf8_def e_int32_def e_int64_def e_bool_def e_timestamp_def e_doc_def e_array_def e_binary_def

section \<open>Appending\<close>

lemma append_e_fits: "length b + 5 + length (enc e) \<le> BSON_MAX_SIZE \<Longrightarrow> append_e b e = (True, b @ enc e)"
  by (simp add: append_e_def append_to_def)

lemma append_e_cases:
  obtains "append_e b e = (True, b @ enc e)" | "append_e b e = (False, b)"
  by (cases "length b + 5 + length (enc e) \<le> BSON_MAX_SIZE") (simp_all add: append_e_def append_to_def)

lemma appends:
  assumes app: "appender f t p" and "holds h b body" and "growable b" and "key_arg key klen k"
  shows "\<exists>h' b'. f h b key klen = Inr (fst (append_e body (t, k, p)), h', b')
    \<and> holds h' b' (snd (append_e body (t, k, p))) \<and> growable b'"
proof -
  have len: "b_len b = length body + 5" using assms(2) by (simp add: holds_def)
  have can: "can_append h b n \<longleftrightarrow> length body + 5 + n \<le> BSON_MAX_SIZE" for n
    using can_append_growable [OF assms(2,3)] len by simp
  from appender.app [OF app assms(2,4)] show ?thesis
    using assms(2,3) by (auto simp: append_e_def append_to_def enc_def can elim!: appendedE intro: frame_growable)
qed

lemma command_appenders:
  "appender (\<lambda>h b key klen. bson_append_int32 h b key klen i) (fst (e_int32 k i)) (snd (snd (e_int32 k i)))"
  "appender (\<lambda>h b key klen. bson_append_int64 h b key klen l) (fst (e_int64 k l)) (snd (snd (e_int64 k l)))"
  "appender (\<lambda>h b key klen. bson_append_bool h b key klen x) (fst (e_bool k x)) (snd (snd (e_bool k x)))"
  "appender (\<lambda>h b key klen. bson_append_timestamp h b key klen u v) (fst (e_timestamp k u v)) (snd (snd (e_timestamp k u v)))"
  "str_arg m len s \<Longrightarrow>
     appender (\<lambda>h b key klen. bson_append_utf8 h b key klen (Some m) len) (fst (e_utf8 k s)) (snd (snd (e_utf8 k s)))"
  "snd d \<le> length (fst d) \<Longrightarrow> snd d \<le> UINT32_MAX \<Longrightarrow>
     appender (\<lambda>h b key klen. bson_append_document h b key klen d) (fst (e_doc k d)) (snd (snd (e_doc k d)))"
  using i32.appender_axioms [of i] i64.appender_axioms [of l] bool.appender_axioms [of x] ts.appender_axioms [of u v]
    utf8_appender [of m len s] document_appender [of "snd d" "fst d"]
  by (simp_all add: e_defs write_u64_halves)

text \<open>The document of a list of elements.\<close>

definition elems_body :: "element list \<Rightarrow> body" where
  "elems_body es = concat (map enc es)"

lemma elems_body_simps [simp]:
  "elems_body [] = []" "elems_body (e # es) = enc e @ elems_body es" "elems_body (es @ fs) = elems_body es @ elems_body fs"
  by (simp_all add: elems_body_def)

lemma body_doc_elems: "body_doc (elems_body es) = (doc_of es, length (doc_of es))"
  by (simp add: body_doc_def elems_body_def doc_of_def)

section \<open>Reading\<close>

text \<open>The iterator stands on an element; the elements that it has still to meet.\<close>

definition stands_on :: "bson_iter \<Rightarrow> element \<Rightarrow> bool" where
  "stands_on it e \<longleftrightarrow> (case e of (t, k, p) \<Rightarrow> \<exists>data. on_element data t it \<and> 0 \<notin> set k
     \<and> decode data it = (type_byte t, k, p))"

definition meets :: "bson_iter \<Rightarrow> element list \<Rightarrow> bool" where
  "meets it es \<longleftrightarrow> iter_ok it \<and> list_all2 stands_on (elements it) es"

lemma stands_onE:
  assumes "stands_on it (t, k, p)"
  obtains data pre rest where "on_element data t it" "data = pre @ p @ rest" "length pre = it_d1 it"
    "it_next_off it = it_d1 it + length p" "elem_key data it = k"
proof -
  from assms obtain data where on: "on_element data t it" and dec: "decode data it = (type_byte t, k, p)"
    by (auto simp: stands_on_def)
  obtain pre rest where "data = pre @ p @ rest" "length pre = it_d1 it"
    "it_next_off it = it_d1 it + length p" "elem_key data it = k" by (rule decode_parts [OF on dec])
  then show ?thesis by (rule that [OF on])
qed

lemma meets_Nil:
  assumes "meets it []"
  shows "\<exists>it'. bson_iter_next it = Inr (False, it')"
proof -
  have ok: "iter_ok it" and el: "elements it = []" using assms by (simp_all add: meets_def)
  from bson_iter_next_cases [OF ok] show ?thesis
  proof (elim disjE exE conjE)
    fix it' data t
    assume *: "bson_iter_next it = Inr (True, it')" "on_element data t it'" "it_next_off it < it_next_off it'"
      "it_len it' = it_len it"
    then have "rounds it' < rounds it" using on_elementD(7) [OF *(2)] by (simp add: rounds_def)
    from elements_step [OF ok *(1,2,4) this] el show ?thesis by simp
  qed auto
qed

lemma meets_Cons:
  assumes "meets it (e # es)"
  obtains it' where "bson_iter_next it = Inr (True, it')" "stands_on it' e" "meets it' es" "rounds it' < rounds it"
    "it_len it' = it_len it"
proof -
  have ok: "iter_ok it" and el: "list_all2 stands_on (elements it) (e # es)"
    using assms by (simp_all add: meets_def)
  from bson_iter_next_cases [OF ok] show ?thesis
  proof (elim disjE exE conjE)
    fix it' assume "bson_iter_next it = Inr (False, it')"
    with elements_stop el show ?thesis by simp
  next
    fix it' data t
    assume *: "bson_iter_next it = Inr (True, it')" "on_element data t it'" "it_next_off it < it_next_off it'"
      "it_len it' = it_len it"
    then have lt: "rounds it' < rounds it" using on_elementD(7) [OF *(2)] by (simp add: rounds_def)
    have "elements it = it' # elements it'" by (rule elements_step [OF ok *(1,2,4) lt])
    with el * lt show ?thesis using on_element_iter_ok [OF *(2)] by (intro that [of it']) (auto simp: meets_def)
  qed
qed

lemma meets_doc:
  assumes ok: "\<forall>e\<in>set es. elem_ok e" and len: "length (doc_of es) \<le> INT_MAX"
  shows "meets (iter_start (doc_of es @ rest) (length (doc_of es))) es"
proof -
  let ?it = "iter_start (doc_of es @ rest) (length (doc_of es))" and ?d = "doc_of es @ rest"
  have ok': "iter_ok ?it" using len by (intro iter_ok_start) simp_all
  have raw: "it_raw ?it = Some ?d" by (simp add: iter_start_def)
  have "map (decode ?d) (elements ?it) = map (\<lambda>(t, k, p). (type_byte t, k, p)) es"
    by (rule elements_doc_of [OF ok len])
  then have "list_all2 (=) (map (decode ?d) (elements ?it)) (map (\<lambda>(t, k, p). (type_byte t, k, p)) es)"
    by (simp add: list.rel_eq)
  then have "list_all2 (\<lambda>e (t, k, p). decode ?d e = (type_byte t, k, p)) (elements ?it) es"
    by (simp add: list.rel_map case_prod_unfold)
  then have "list_all2 stands_on (elements ?it) es"
  proof (rule list.rel_mono_strong)
    fix e f
    assume "e \<in> set (elements ?it)" "f \<in> set es" and dec: "case f of (t, k, p) \<Rightarrow> decode ?d e = (type_byte t, k, p)"
    then obtain t k p where f: "f = (t, k, p)" "decode ?d e = (type_byte t, k, p)" by (cases f) auto
    obtain t' where t': "on_element ?d t' e" using elements_on_element [OF ok' raw] \<open>e \<in> _\<close> by blast
    have "t' = t" by (rule decode_parts [OF t' f(2)])
    with t' f ok \<open>f \<in> set es\<close> show "stands_on e f" by (auto simp: stands_on_def elem_ok_def)
  qed
  with ok' show ?thesis by (simp add: meets_def)
qed

text \<open>What the accessors return on an element.\<close>

lemma stands_on_type:
  assumes "stands_on it (t, k, p)"
  shows "ITER_TYPE it = Inr (type_byte t)" and "bson_iter_type it = Inr (type_byte t)"
proof -
  from assms obtain data where on: "on_element data t it" by (rule stands_onE)
  show ty: "ITER_TYPE it = Inr (type_byte t)" by (rule on_element_type [OF on])
  show "bson_iter_type it = Inr (type_byte t)"
    using on_elementD(1,7) [OF on] ty by (simp add: bson_iter_type_def)
qed

lemma stands_on_key:
  assumes "stands_on it (t, k, p)"
  shows "\<exists>q. bson_iter_key it = Inr q \<and> c_str q = k \<and> c_strlen q = Inr (length k)"
proof -
  from assms obtain data where on: "on_element data t it" and k: "elem_key data it = k" by (rule stands_onE)
  note key = on_element_key(2-4) [OF on]
  have "c_str (drop (it_key it) data) = k" using k by (simp add: elem_key_def)
  then show ?thesis using key k by (simp add: c_strlen_def)
qed

lemma stands_on_int32:
  assumes "stands_on it (e_int32 k w)" shows "bson_iter_int32 it = Inr w"
proof -
  from assms obtain data pre rest where "on_element data BSON_TYPE_INT32 it"
    and "data = pre @ mlib_write_u32le w @ rest" "length pre = it_d1 it" by (auto simp: e_defs elim!: stands_onE)
  with on_elementD(1) on_element_type show ?thesis by (fastforce simp: access_defs)
qed

lemma stands_on_int64:
  assumes "stands_on it (e_int64 k w)" shows "bson_iter_int64 it = Inr w"
proof -
  from assms obtain data pre rest where "on_element data BSON_TYPE_INT64 it"
    and "data = pre @ mlib_write_u64le w @ rest" "length pre = it_d1 it" by (auto simp: e_defs elim!: stands_onE)
  with on_elementD(1) on_element_type show ?thesis by (fastforce simp: access_defs)
qed

lemma stands_on_bool:
  assumes "stands_on it (e_bool k x)" shows "bson_iter_bool it = Inr x"
proof -
  from assms obtain data pre rest where "on_element data BSON_TYPE_BOOL it"
    and "data = pre @ [if x then 1 else 0] @ rest" "length pre = it_d1 it" by (auto simp: e_defs elim!: stands_onE)
  with on_elementD(1) on_element_type show ?thesis by (fastforce simp: access_defs nth_append)
qed

lemma stands_on_timestamp:
  assumes "stands_on it (e_timestamp k t i)" shows "bson_iter_timestamp it = Inr (t, i)"
proof -
  from assms obtain data pre rest where "on_element data BSON_TYPE_TIMESTAMP it"
    and "data = pre @ (mlib_write_u32le i @ mlib_write_u32le t) @ rest" "length pre = it_d1 it"
    by (auto simp: e_defs elim!: stands_onE)
  with on_elementD(1) on_element_type show ?thesis by (fastforce simp: access_defs)
qed

lemma stands_on_utf8:
  assumes "stands_on it (e_utf8 k s)" and "0 \<notin> set s"
  shows "utf8_ptr it = Inr (Some s)"
proof -
  from assms(1) obtain data pre rest where on: "on_element data BSON_TYPE_UTF8 it"
    and d: "data = pre @ string_bytes s @ rest" "length pre = it_d1 it" by (auto simp: e_defs elim!: stands_onE)
  have str: "string_at data it" using on_elementD(6) [OF on] by simp
  then have "drop (it_d2 it) data = s @ 0 # rest" using d(2) by (simp add: string_at_def d(1) string_bytes_def)
  with iter_string_ok(1) [OF on str] assms(2) show ?thesis
    by (simp add: utf8_ptr_def bson_iter_utf8_def c_strlen_def)
qed

lemma stands_on_nested:
  assumes "stands_on it (t, k, doc_of es)" and "t = BSON_TYPE_DOCUMENT \<or> t = BSON_TYPE_ARRAY"
    and ok: "\<forall>e\<in>set es. elem_ok e" and "length (doc_of es) \<le> INT_MAX"
  obtains child where "bson_iter_recurse it = Inr (Some child)" "meets child es" "it_len child = length (doc_of es)"
proof -
  from assms(1) obtain data pre rest where on: "on_element data t it"
    and d: "data = pre @ doc_of es @ rest" "length pre = it_d1 it" by (rule stands_onE)
  have len: "u32_at data (it_d1 it) = length (doc_of es)"
    using assms(4) u32_at_doc_of [of es rest] d(2) by (simp add: d(1) u32_at_def INT_MAX_def)
  have drop: "drop (it_d1 it) data = doc_of es @ rest" using d by simp
  from bson_iter_recurse_ok(1) [OF on assms(2)] show ?thesis
    unfolding len drop by (rule that [OF _ meets_doc [OF ok assms(4)]]) (simp add: iter_start_def)
qed

end
