(* ===== verification/WriteConcern.thy ===== *)
theory WriteConcern
  imports CmdDoc Select
begin

text \<open>
  Write and read concerns (\<open>src/src/mongoc/mongoc-write-concern.c\<close>, \<open>mongoc-read-concern.c\<close>): the options, the
  document they are encoded to, which is kept until an option changes, and the options read back from a document.
\<close>

section \<open>Strings of an iterator\<close>

definition key_of :: "bson_iter \<Rightarrow> byte list res" where
  "key_of it = bind_res (bson_iter_key it) (\<lambda>p. map_res (\<lambda>_. c_str p) (c_strlen p))"

definition holds_type :: "bson_iter \<Rightarrow> bson_type list \<Rightarrow> bool res" where
  "holds_type it ts = map_res (\<lambda>ty. ty \<in> set (map type_byte ts)) (bson_iter_type it)"

definition str_of :: "bson_iter \<Rightarrow> byte list res" where
  "str_of it = bind_res (utf8_ptr it) deref"

definition recursed :: "bson_iter \<Rightarrow> bson_iter res" where
  "recursed it = bind_res (bson_iter_recurse it) (\<lambda>c. case c of None \<Rightarrow> Inl AssertFail | Some c \<Rightarrow> Inr c)"

section \<open>Write concerns\<close>

abbreviation (input) "MONGOC_WRITE_CONCERN_W_UNACKNOWLEDGED \<equiv> 0 :: int"
abbreviation (input) "MONGOC_WRITE_CONCERN_W_DEFAULT \<equiv> - 2 :: int"
abbreviation (input) "MONGOC_WRITE_CONCERN_W_MAJORITY \<equiv> - 3 :: int"
abbreviation (input) "MONGOC_WRITE_CONCERN_W_TAG \<equiv> - 4 :: int"
abbreviation (input) "MONGOC_WRITE_CONCERN_JOURNAL_DEFAULT \<equiv> - 1 :: int"

record write_concern =
  wc_journal :: int
  wc_w :: int
  wc_wtimeout :: int
  wc_wtag :: "byte list option"
  wc_frozen :: bool
  wc_compiled :: body
  wc_default :: bool

definition write_concern_new :: write_concern where
  "write_concern_new =
     \<lparr>wc_journal = MONGOC_WRITE_CONCERN_JOURNAL_DEFAULT, wc_w = MONGOC_WRITE_CONCERN_W_DEFAULT, wc_wtimeout = 0,
      wc_wtag = None, wc_frozen = False, wc_compiled = [], wc_default = True\<rparr>"

definition write_concern_copy :: "write_concern option \<Rightarrow> write_concern option" where
  "write_concern_copy wc = map_option (\<lambda>wc. write_concern_new
     \<lparr>wc_journal := wc_journal wc, wc_w := wc_w wc, wc_wtimeout := wc_wtimeout wc, wc_frozen := False,
      wc_wtag := wc_wtag wc, wc_default := wc_default wc\<rparr>) wc"

definition wc_get_journal :: "write_concern \<Rightarrow> bool" where
  "wc_get_journal wc \<longleftrightarrow> wc_journal wc = 1"

definition wc_set_journal :: "write_concern \<Rightarrow> bool \<Rightarrow> write_concern" where
  "wc_set_journal wc journal =
     wc\<lparr>wc_journal := (if journal then 1 else 0), wc_default := False, wc_frozen := False\<rparr>"

definition wc_set_w :: "write_concern \<Rightarrow> int \<Rightarrow> write_concern res" where
  "wc_set_w wc w = map_res (\<lambda>_.
     wc\<lparr>wc_w := w, wc_default := (if w \<noteq> MONGOC_WRITE_CONCERN_W_DEFAULT then False else wc_default wc),
        wc_frozen := False\<rparr>) (c_assert (w \<ge> - 3))"

definition wc_set_wtimeout :: "write_concern \<Rightarrow> int \<Rightarrow> write_concern" where
  "wc_set_wtimeout wc wtimeout_msec =
     (if wtimeout_msec < 0 then wc
      else wc\<lparr>wc_wtimeout := wtimeout_msec, wc_default := False, wc_frozen := False\<rparr>)"

definition wc_set_wmajority :: "write_concern \<Rightarrow> int \<Rightarrow> write_concern" where
  "wc_set_wmajority wc wtimeout_msec =
     (let wc = wc\<lparr>wc_w := MONGOC_WRITE_CONCERN_W_MAJORITY, wc_default := False, wc_frozen := False\<rparr> in
      if wtimeout_msec \<ge> 0 then wc\<lparr>wc_wtimeout := wtimeout_msec\<rparr> else wc)"

definition wc_get_wtag :: "write_concern \<Rightarrow> byte list option" where
  "wc_get_wtag wc = (if wc_w wc = MONGOC_WRITE_CONCERN_W_TAG then wc_wtag wc else None)"

definition wc_set_wtag :: "write_concern \<Rightarrow> byte list option \<Rightarrow> write_concern" where
  "wc_set_wtag wc wtag =
     wc\<lparr>wc_wtag := wtag, wc_w := MONGOC_WRITE_CONCERN_W_TAG, wc_default := False, wc_frozen := False\<rparr>"

definition wc_is_default :: "write_concern option \<Rightarrow> bool" where
  "wc_is_default wc = (case wc of None \<Rightarrow> True | Some wc \<Rightarrow> wc_default wc)"

text \<open>\<open>_mongoc_write_concern_freeze\<close>. The results of the appends are ignored.\<close>

definition wc_freeze :: "write_concern \<Rightarrow> write_concern res" where
  "wc_freeze wc =
     bind_res (if wc_w wc = MONGOC_WRITE_CONCERN_W_TAG
               then (case wc_wtag wc of None \<Rightarrow> Inl AssertFail | Some tag \<Rightarrow> Inr (snd (append_e [] (e_utf8 (str ''w'') tag))))
               else if wc_w wc = MONGOC_WRITE_CONCERN_W_MAJORITY then Inr (snd (append_e [] (e_utf8 (str ''w'') (str ''majority''))))
               else if wc_w wc = MONGOC_WRITE_CONCERN_W_DEFAULT then Inr []
               else Inr (snd (append_e [] (e_int32 (str ''w'') (word_of_int (wc_w wc)))))) (\<lambda>c.
     let c = (if wc_journal wc \<noteq> MONGOC_WRITE_CONCERN_JOURNAL_DEFAULT
              then snd (append_e c (e_bool (str ''j'') (wc_journal wc \<noteq> 0))) else c);
         c = (if wc_wtimeout wc \<noteq> 0 then snd (append_e c (e_int64 (str ''wtimeout'') (word_of_int (wc_wtimeout wc)))) else c)
     in Inr (wc\<lparr>wc_frozen := True, wc_compiled := c\<rparr>))"

definition wc_get_bson :: "write_concern \<Rightarrow> (body \<times> write_concern) res" where
  "wc_get_bson wc = map_res (\<lambda>wc. (wc_compiled wc, wc)) (if wc_frozen wc then Inr wc else wc_freeze wc)"

definition wc_is_acknowledged :: "write_concern option \<Rightarrow> bool" where
  "wc_is_acknowledged wc = (case wc of None \<Rightarrow> True
     | Some wc \<Rightarrow> wc_w wc \<noteq> MONGOC_WRITE_CONCERN_W_UNACKNOWLEDGED \<or> wc_get_journal wc)"

definition wc_is_valid :: "write_concern option \<Rightarrow> bool" where
  "wc_is_valid wc = (case wc of None \<Rightarrow> False
     | Some wc \<Rightarrow> \<not> (wc_get_journal wc \<and> wc_w wc = MONGOC_WRITE_CONCERN_W_UNACKNOWLEDGED) \<and> \<not> wc_wtimeout wc < 0)"

text \<open>\<open>mongoc_write_concern_append\<close>: whether it worked, the command and the concern.\<close>

definition wc_append :: "write_concern \<Rightarrow> body \<Rightarrow> (bool \<times> body \<times> write_concern) res" where
  "wc_append wc command =
     (if \<not> wc_is_valid (Some wc) then Inr (False, command, wc)
      else map_res (\<lambda>(compiled, wc).
        case append_e command (e_doc (str ''writeConcern'') (body_doc compiled)) of (ok, command) \<Rightarrow> (ok, command, wc))
        (wc_get_bson wc))"

text \<open>A field of a \<open>writeConcern\<close> document; \<open>None\<close> where the code jumps to \<open>fail\<close>.\<close>

definition wc_field :: "byte list \<Rightarrow> bson_iter \<Rightarrow> write_concern \<Rightarrow> write_concern option res" where
  "wc_field key it wc =
     (if key = str ''w'' then
        bind_res (holds_type it [BSON_TYPE_INT32]) (\<lambda>i. if i then
            bind_res (bson_iter_int32 it) (\<lambda>w.
              if sint w < MONGOC_WRITE_CONCERN_W_UNACKNOWLEDGED then Inr None else map_res Some (wc_set_w wc (sint w)))
          else bind_res (holds_type it [BSON_TYPE_UTF8]) (\<lambda>u. if u then
            bind_res (str_of it) (\<lambda>s.
              if s = str ''majority'' then map_res Some (wc_set_w wc MONGOC_WRITE_CONCERN_W_MAJORITY)
              else Inr (Some (wc_set_wtag wc (Some s))))
          else Inr None))
      else if key = str ''fsync'' then Inr None
      else if key = str ''j'' then
        bind_res (holds_type it [BSON_TYPE_BOOL]) (\<lambda>b. if \<not> b then Inr None
          else map_res (\<lambda>j. Some (wc_set_journal wc j)) (bson_iter_bool it))
      else if key = str ''wtimeout'' then
        bind_res (holds_type it [BSON_TYPE_INT32, BSON_TYPE_INT64]) (\<lambda>i. if \<not> i then Inr None
          else map_res (\<lambda>t. if t < 0 then None else Some (wc_set_wtimeout wc t)) (bson_iter_as_int64 it))
      else Inr (Some wc))"

fun wc_loop :: "nat \<Rightarrow> bson_iter \<Rightarrow> write_concern \<Rightarrow> write_concern option res" where
  "wc_loop 0 it wc = Inl NoFuel"
| "wc_loop (Suc fuel) it wc =
     bind_res (bson_iter_next it) (\<lambda>(ok, it).
       if \<not> ok then Inr (Some wc)
       else bind_res (key_of it) (\<lambda>key. bind_res (wc_field key it wc) (\<lambda>r. case r of
           None \<Rightarrow> Inr None
         | Some wc \<Rightarrow> wc_loop fuel it wc)))"

text \<open>\<open>_mongoc_write_concern_new_from_iter\<close>: \<open>None\<close> with the error "Invalid writeConcern".\<close>

definition wc_from_iter :: "bson_iter \<Rightarrow> write_concern option res" where
  "wc_from_iter it =
     bind_res (holds_type it [BSON_TYPE_DOCUMENT]) (\<lambda>d. if \<not> d then Inr None
       else bind_res (recursed it) (\<lambda>inner.
         map_res (\<lambda>r. case r of None \<Rightarrow> None | Some wc \<Rightarrow> if wc_is_valid (Some wc) then Some wc else None)
           (wc_loop (Suc (it_len inner)) inner write_concern_new)))"

text \<open>
  \<open>_mongoc_parse_wc_err\<close>. A \<open>writeConcernError\<close> without an \<open>errmsg\<close> passes \<open>NULL\<close> for a \<open>%s\<close>, which is undefined.
\<close>

fun wc_err_loop :: "nat \<Rightarrow> bson_iter \<Rightarrow> nat \<times> byte list option \<Rightarrow> (nat \<times> byte list option) res" where
  "wc_err_loop 0 it st = Inl NoFuel"
| "wc_err_loop (Suc fuel) it st =
     bind_res (bson_iter_next it) (\<lambda>(ok, it).
       if \<not> ok then Inr st
       else bind_res (key_of it) (\<lambda>key.
         bind_res (if key = str ''code'' then map_res (\<lambda>v. (nat (v mod 2 ^ 32), snd st)) (bson_iter_as_int64 it)
                   else if key = str ''errmsg'' then map_res (\<lambda>m. (fst st, m)) (utf8_ptr it)
                   else Inr st) (wc_err_loop fuel it)))"

definition parse_wc_err :: "doc \<Rightarrow> bson_error option res" where
  "parse_wc_err d =
     bind_res (find_typed d (str ''writeConcernError'') [BSON_TYPE_DOCUMENT]) (\<lambda>i. case i of
         None \<Rightarrow> Inr None
       | Some it \<Rightarrow>
           bind_res (recursed it) (\<lambda>inner.
           bind_res (wc_err_loop (Suc (it_len inner)) inner (0, None)) (\<lambda>(code, errmsg).
           map_res (\<lambda>m. Some (set_error CATEGORY_MONGOC MONGOC_ERROR_WRITE_CONCERN code (str ''Write Concern error: '' @ m)))
             (deref errmsg))))"

section \<open>Read concerns\<close>

record read_concern =
  rc_level :: "byte list option"
  rc_frozen :: bool
  rc_compiled :: body

definition read_concern_new :: read_concern where
  "read_concern_new = \<lparr>rc_level = None, rc_frozen = False, rc_compiled = []\<rparr>"

definition read_concern_copy :: "read_concern option \<Rightarrow> read_concern option" where
  "read_concern_copy rc = map_option (\<lambda>rc. read_concern_new\<lparr>rc_level := rc_level rc\<rparr>) rc"

definition rc_set_level :: "read_concern \<Rightarrow> byte list option \<Rightarrow> read_concern" where
  "rc_set_level rc level = rc\<lparr>rc_level := level, rc_frozen := False\<rparr>"

definition rc_is_default :: "read_concern option \<Rightarrow> bool" where
  "rc_is_default rc = (case rc of None \<Rightarrow> True | Some rc \<Rightarrow> rc_level rc = None)"

definition rc_freeze :: "read_concern \<Rightarrow> read_concern" where
  "rc_freeze rc = rc\<lparr>rc_frozen := True, rc_compiled := (case rc_level rc of
     None \<Rightarrow> [] | Some level \<Rightarrow> snd (append_e [] (e_utf8 (str ''level'') level)))\<rparr>"

definition rc_get_bson :: "read_concern \<Rightarrow> body \<times> read_concern" where
  "rc_get_bson rc = (let rc = (if rc_frozen rc then rc else rc_freeze rc) in (rc_compiled rc, rc))"

definition rc_append :: "read_concern \<Rightarrow> body \<Rightarrow> bool \<times> body \<times> read_concern" where
  "rc_append rc command =
     (if rc_level rc = None then (True, command, rc)
      else (case rc_get_bson rc of (compiled, rc) \<Rightarrow>
        (case append_e command (e_doc (str ''readConcern'') (body_doc compiled)) of (ok, command) \<Rightarrow> (ok, command, rc))))"

definition rc_from_iter :: "bson_iter \<Rightarrow> read_concern option res" where
  "rc_from_iter it =
     bind_res (holds_type it [BSON_TYPE_DOCUMENT]) (\<lambda>d. if \<not> d then Inr None
       else bind_res (recursed it) (\<lambda>inner.
         bind_res (bson_iter_find inner (str ''level'' @ [0])) (\<lambda>(found, inner).
           if \<not> found then Inr None
           else bind_res (holds_type inner [BSON_TYPE_UTF8]) (\<lambda>u. if \<not> u then Inr None
             else map_res (\<lambda>s. Some (rc_set_level read_concern_new (Some s))) (str_of inner)))))"

end
