(* ===== verification/Session.thy ===== *)
theory Session
  imports WriteConcern
begin

text \<open>
  Client sessions (\<open>src/src/mongoc/mongoc-client-session.c\<close>, \<open>mongoc-optional.c\<close>): the options, the logical times a
  session has seen, and what a session adds to a command and takes from a reply. The transactions are in \<open>Txn\<close>.
\<close>

section \<open>Options\<close>

record optional =
  opt_is_set :: bool
  opt_value :: bool

definition optional_init :: optional where
  "optional_init = \<lparr>opt_is_set = False, opt_value = False\<rparr>"

definition optional_set_value :: "optional \<Rightarrow> bool \<Rightarrow> optional" where
  "optional_set_value opt val = opt\<lparr>opt_value := val, opt_is_set := True\<rparr>"

record txn_opts =
  to_read_concern :: "read_concern option"
  to_write_concern :: "write_concern option"
  to_read_prefs :: "read_prefs option"
  to_max_commit_time :: int

abbreviation (input) "DEFAULT_MAX_COMMIT_TIME_MS \<equiv> 0 :: int"

definition txn_opts_new :: txn_opts where
  "txn_opts_new = \<lparr>to_read_concern = None, to_write_concern = None, to_read_prefs = None,
     to_max_commit_time = DEFAULT_MAX_COMMIT_TIME_MS\<rparr>"

definition txn_opts_set ::
    "txn_opts \<Rightarrow> read_concern option \<Rightarrow> write_concern option \<Rightarrow> read_prefs option \<Rightarrow> int \<Rightarrow> txn_opts" where
  "txn_opts_set opts rc wc rp max_commit_time_ms =
     (let opts = (if rc \<noteq> None then opts\<lparr>to_read_concern := read_concern_copy rc\<rparr> else opts);
          opts = (if wc \<noteq> None then opts\<lparr>to_write_concern := write_concern_copy wc\<rparr> else opts);
          opts = (if rp \<noteq> None then opts\<lparr>to_read_prefs := rp\<rparr> else opts)
      in if max_commit_time_ms \<noteq> DEFAULT_MAX_COMMIT_TIME_MS then opts\<lparr>to_max_commit_time := max_commit_time_ms\<rparr> else opts)"

definition txn_opts_cleanup :: "txn_opts \<Rightarrow> txn_opts" where
  "txn_opts_cleanup opts = opts\<lparr>to_read_concern := None, to_write_concern := None, to_read_prefs := None,
     to_max_commit_time := DEFAULT_MAX_COMMIT_TIME_MS\<rparr>"

definition txn_opts_copy :: "txn_opts \<Rightarrow> txn_opts \<Rightarrow> txn_opts" where
  "txn_opts_copy src dst = (txn_opts_cleanup dst)\<lparr>to_read_concern := read_concern_copy (to_read_concern src),
     to_write_concern := write_concern_copy (to_write_concern src), to_read_prefs := to_read_prefs src,
     to_max_commit_time := to_max_commit_time src\<rparr>"

definition transaction_opts_clone :: "txn_opts \<Rightarrow> txn_opts" where
  "transaction_opts_clone opts = txn_opts_copy opts txn_opts_new"

record session_opts =
  so_causal :: optional
  so_snapshot :: optional
  so_default_txn :: txn_opts

definition session_opts_new :: session_opts where
  "session_opts_new = \<lparr>so_causal = optional_init, so_snapshot = optional_init, so_default_txn = txn_opts_new\<rparr>"

definition session_opts_get_causal :: "session_opts \<Rightarrow> bool" where
  "session_opts_get_causal opts =
     (if \<not> opt_is_set (so_causal opts) \<and> \<not> opt_value (so_snapshot opts) then True else opt_value (so_causal opts))"

definition session_opts_get_snapshot :: "session_opts \<Rightarrow> bool" where
  "session_opts_get_snapshot opts = opt_value (so_snapshot opts)"

definition session_opts_set_causal :: "session_opts \<Rightarrow> bool \<Rightarrow> session_opts" where
  "session_opts_set_causal opts x = opts\<lparr>so_causal := optional_set_value (so_causal opts) x\<rparr>"

definition session_opts_set_snapshot :: "session_opts \<Rightarrow> bool \<Rightarrow> session_opts" where
  "session_opts_set_snapshot opts x = opts\<lparr>so_snapshot := optional_set_value (so_snapshot opts) x\<rparr>"

definition session_opts_set_default_txn :: "session_opts \<Rightarrow> txn_opts \<Rightarrow> session_opts" where
  "session_opts_set_default_txn opts t = opts\<lparr>so_default_txn := txn_opts_set (so_default_txn opts)
     (to_read_concern t) (to_write_concern t) (to_read_prefs t) (to_max_commit_time t)\<rparr>"

definition session_opts_clone :: "session_opts \<Rightarrow> session_opts" where
  "session_opts_clone opts = \<lparr>so_causal = so_causal opts, so_snapshot = so_snapshot opts,
     so_default_txn = txn_opts_copy (so_default_txn opts) txn_opts_new\<rparr>"

section \<open>Server sessions\<close>

abbreviation (input) "SESSION_NEVER_USED \<equiv> - 1 :: int"
abbreviation (input) "MONGOC_NO_SESSIONS \<equiv> - 1 :: int"

record server_session =
  ss_last_used :: int
  ss_lsid :: body
  ss_txn_number :: int
  ss_dirty :: bool

text \<open>\<open>rand\<close> are the 16 bytes of \<open>_mongoc_rand_bytes\<close>, if it worked.\<close>

definition server_session_uuid :: "byte list option \<Rightarrow> byte list option" where
  "server_session_uuid rand = map_option (\<lambda>data.
     data[6 := 0x40 OR (data ! 6 AND 0xf), 8 := 0x80 OR (data ! 8 AND 0x3f)]) rand"

definition server_session_init :: "byte list option \<Rightarrow> server_session option" where
  "server_session_init rand = map_option (\<lambda>uuid.
     \<lparr>ss_last_used = SESSION_NEVER_USED, ss_lsid = snd (append_e [] (e_binary (str ''id'') 4 uuid)), ss_txn_number = 0,
      ss_dirty = False\<rparr>) (server_session_uuid rand)"

definition server_session_timed_out :: "server_session \<Rightarrow> int \<Rightarrow> int \<Rightarrow> bool res" where
  "server_session_timed_out ss session_timeout_minutes now =
     (if session_timeout_minutes = MONGOC_NO_SESSIONS then Inr False
      else if ss_last_used ss = SESSION_NEVER_USED then Inr False
      else
        bind_res (chk64 (session_timeout_minutes * 60000000)) (\<lambda>t.
        bind_res (chk64 (ss_last_used ss + t)) (\<lambda>timeout_usec.
        map_res (\<lambda>left. left < 60000000) (chk64 (timeout_usec - now)))))"

section \<open>Client sessions\<close>

datatype txn_state =
    MONGOC_INTERNAL_TRANSACTION_NONE | MONGOC_INTERNAL_TRANSACTION_STARTING | MONGOC_INTERNAL_TRANSACTION_IN_PROGRESS
  | MONGOC_INTERNAL_TRANSACTION_ENDING | MONGOC_INTERNAL_TRANSACTION_COMMITTED
  | MONGOC_INTERNAL_TRANSACTION_COMMITTED_EMPTY | MONGOC_INTERNAL_TRANSACTION_ABORTED

record session =
  cs_opts :: session_opts
  cs_server_session :: server_session
  cs_txn_state :: txn_state
  cs_txn_opts :: txn_opts
  cs_session_id :: nat
  cs_cluster_time :: doc
  cs_op_t :: "32 word"
  cs_op_i :: "32 word"
  cs_generation :: nat
  cs_server_id :: nat
  cs_token :: "doc option"
  cs_snap_t :: "32 word"
  cs_snap_i :: "32 word"
  cs_snap_set :: bool
  cs_timeout :: int
  cs_fail_label :: "byte list option"

text \<open>The part of the client that sessions and commands use.\<close>

datatype api_version = MONGOC_SERVER_API_V1

record server_api =
  api_ver :: api_version
  api_strict :: optional
  api_deprecation :: optional

record client =
  cl_generation :: nat
  cl_read_concern :: "read_concern option"
  cl_write_concern :: "write_concern option"
  cl_read_prefs :: "read_prefs option"
  cl_uses_api :: bool
  cl_api :: "server_api option"
  cl_uses_lb :: bool
  cl_retry_reads :: bool
  cl_retry_writes :: bool
  cl_max_adaptive :: int
  cl_retargeting :: bool
  cl_error_api :: int

definition client_session_new ::
    "client \<Rightarrow> server_session \<Rightarrow> session_opts option \<Rightarrow> nat \<Rightarrow> session" where
  "client_session_new cl ss opts session_id =
     (let dflt = txn_opts_set txn_opts_new (cl_read_concern cl) (cl_write_concern cl) (cl_read_prefs cl) DEFAULT_MAX_COMMIT_TIME_MS;
          so = \<lparr>so_causal = optional_init, so_snapshot = optional_init, so_default_txn = dflt\<rparr>;
          so = (case opts of None \<Rightarrow> so
            | Some o' \<Rightarrow> so\<lparr>so_causal := so_causal o', so_snapshot := so_snapshot o',
                so_default_txn := txn_opts_set (so_default_txn so) (to_read_concern (so_default_txn o'))
                  (to_write_concern (so_default_txn o')) (to_read_prefs (so_default_txn o'))
                  (to_max_commit_time (so_default_txn o'))\<rparr>)
      in \<lparr>cs_opts = so, cs_server_session = ss, cs_txn_state = MONGOC_INTERNAL_TRANSACTION_NONE, cs_txn_opts = txn_opts_new,
          cs_session_id = session_id, cs_cluster_time = doc_empty, cs_op_t = 0, cs_op_i = 0, cs_generation = cl_generation cl,
          cs_server_id = 0, cs_token = None, cs_snap_t = 0, cs_snap_i = 0, cs_snap_set = False, cs_timeout = 0,
          cs_fail_label = None\<rparr>)"

definition session_get_cluster_time :: "session \<Rightarrow> doc option res" where
  "session_get_cluster_time cs =
     map_res (\<lambda>e. if e then None else Some (cs_cluster_time cs)) (bson_empty (fst (cs_cluster_time cs)) (snd (cs_cluster_time cs)))"

definition session_advance_cluster_time :: "session \<Rightarrow> doc \<Rightarrow> session res" where
  "session_advance_cluster_time cs cluster_time =
     (let copied = cs\<lparr>cs_cluster_time := (take (snd cluster_time) (fst cluster_time), snd cluster_time)\<rparr> in
      bind_res (bson_empty (fst (cs_cluster_time cs)) (snd (cs_cluster_time cs))) (\<lambda>e.
      bind_res (if e then map_res (\<lambda>t. t \<noteq> None) (parse_cluster_time cluster_time) else Inr False) (\<lambda>first.
        if first then Inr copied
        else map_res (\<lambda>greater. if greater then copied else cs) (cluster_time_greater cluster_time (cs_cluster_time cs)))))"

definition session_advance_operation_time :: "session \<Rightarrow> 32 word \<Rightarrow> 32 word \<Rightarrow> session" where
  "session_advance_operation_time cs t i =
     (if t > cs_op_t cs \<or> t = cs_op_t cs \<and> i > cs_op_i cs then cs\<lparr>cs_op_t := t, cs_op_i := i\<rparr> else cs)"

definition session_unpin :: "session \<Rightarrow> session" where
  "session_unpin cs = cs\<lparr>cs_server_id := 0\<rparr>"

definition session_pin :: "session \<Rightarrow> nat \<Rightarrow> session" where
  "session_pin cs server_id = cs\<lparr>cs_server_id := server_id\<rparr>"

definition session_set_snapshot_time :: "session \<Rightarrow> 32 word \<Rightarrow> 32 word \<Rightarrow> session res" where
  "session_set_snapshot_time cs t i =
     map_res (\<lambda>_. cs\<lparr>cs_snap_set := True, cs_snap_t := t, cs_snap_i := i\<rparr>) (c_assert (\<not> cs_snap_set cs))"

definition session_clear_snapshot_time :: "session \<Rightarrow> session" where
  "session_clear_snapshot_time cs = cs\<lparr>cs_snap_set := False\<rparr>"

definition in_txn :: "session option \<Rightarrow> bool" where
  "in_txn cs = (case cs of None \<Rightarrow> False | Some cs \<Rightarrow> (case cs_txn_state cs of
       MONGOC_INTERNAL_TRANSACTION_STARTING \<Rightarrow> True
     | MONGOC_INTERNAL_TRANSACTION_IN_PROGRESS \<Rightarrow> True
     | _ \<Rightarrow> False))"

definition in_txn_or_ending :: "session option \<Rightarrow> bool" where
  "in_txn_or_ending cs = (case cs of None \<Rightarrow> False | Some cs \<Rightarrow> (case cs_txn_state cs of
       MONGOC_INTERNAL_TRANSACTION_STARTING \<Rightarrow> True
     | MONGOC_INTERNAL_TRANSACTION_IN_PROGRESS \<Rightarrow> True
     | MONGOC_INTERNAL_TRANSACTION_ENDING \<Rightarrow> True
     | _ \<Rightarrow> False))"

definition txn_in_progress :: "session option \<Rightarrow> bool" where
  "txn_in_progress cs = (case cs of None \<Rightarrow> False | Some cs \<Rightarrow> cs_txn_state cs = MONGOC_INTERNAL_TRANSACTION_IN_PROGRESS)"

definition session_get_transaction_opts :: "session \<Rightarrow> txn_opts option" where
  "session_get_transaction_opts cs = (if in_txn (Some cs) then Some (transaction_opts_clone (cs_txn_opts cs)) else None)"

datatype public_txn_state =
    MONGOC_TRANSACTION_NONE | MONGOC_TRANSACTION_STARTING | MONGOC_TRANSACTION_IN_PROGRESS | MONGOC_TRANSACTION_COMMITTED
  | MONGOC_TRANSACTION_ABORTED

definition get_transaction_state :: "session \<Rightarrow> public_txn_state res" where
  "get_transaction_state cs = (case cs_txn_state cs of
       MONGOC_INTERNAL_TRANSACTION_NONE \<Rightarrow> Inr MONGOC_TRANSACTION_NONE
     | MONGOC_INTERNAL_TRANSACTION_STARTING \<Rightarrow> Inr MONGOC_TRANSACTION_STARTING
     | MONGOC_INTERNAL_TRANSACTION_IN_PROGRESS \<Rightarrow> Inr MONGOC_TRANSACTION_IN_PROGRESS
     | MONGOC_INTERNAL_TRANSACTION_COMMITTED_EMPTY \<Rightarrow> Inr MONGOC_TRANSACTION_COMMITTED
     | MONGOC_INTERNAL_TRANSACTION_COMMITTED \<Rightarrow> Inr MONGOC_TRANSACTION_COMMITTED
     | MONGOC_INTERNAL_TRANSACTION_ABORTED \<Rightarrow> Inr MONGOC_TRANSACTION_ABORTED
     | MONGOC_INTERNAL_TRANSACTION_ENDING \<Rightarrow> Inl AssertFail)"

text \<open>
  \<open>_mongoc_client_session_from_iter\<close>: the session of an id; \<open>lookup\<close> is \<open>_mongoc_client_lookup_session\<close>.
\<close>

definition session_from_iter :: "(nat \<Rightarrow> 'c option) \<Rightarrow> bson_iter \<Rightarrow> 'c option res" where
  "session_from_iter lookup it =
     bind_res (holds_type it [BSON_TYPE_INT64]) (\<lambda>i. if \<not> i then Inr None
       else map_res (\<lambda>w. if sint w > 0xffffffff then None else lookup (nat (sint w mod 2 ^ 32))) (bson_iter_int64 it))"

definition session_append :: "session \<Rightarrow> body \<Rightarrow> bool \<times> body" where
  "session_append cs opts = append_e opts (e_int64 (str ''sessionId'') (of_nat (cs_session_id cs)))"

section \<open>What a session adds to a command\<close>

text \<open>\<open>_mongoc_get_command_name\<close>\<close>

definition get_command_name :: "doc \<Rightarrow> byte list option res" where
  "get_command_name d =
     (case bson_iter_init (fst d) (snd d) of (ok, it) \<Rightarrow>
        if \<not> ok then Inr None
        else bind_res (bson_iter_next it) (\<lambda>(ok, it).
          if \<not> ok then Inr None
          else bind_res (key_of it) (\<lambda>name.
            let wrapper = (if name \<noteq> [] \<and> hd name = 0x24 then Some (str ''$query'')
                           else if name = str ''query'' then Some (str ''query'') else None) in
            case wrapper of
              None \<Rightarrow> Inr (Some name)
            | Some w \<Rightarrow> bind_res (find_typed d w [BSON_TYPE_DOCUMENT]) (\<lambda>i. case i of
                  None \<Rightarrow> Inr (Some name)
                | Some it \<Rightarrow> bind_res (bson_iter_recurse it) (\<lambda>c. case c of
                      None \<Rightarrow> Inr (Some name)
                    | Some child \<Rightarrow> bind_res (bson_iter_next child) (\<lambda>(ok, child).
                        if ok then map_res Some (key_of child) else Inr (Some name)))))))"

definition append_txn_fields :: "session \<Rightarrow> body \<Rightarrow> body" where
  "append_txn_fields cs cmd =
     snd (append_e (snd (append_e cmd (e_int64 (str ''txnNumber'') (word_of_int (ss_txn_number (cs_server_session cs))))))
       (e_bool (str ''autocommit'') False))"

definition reset_txn :: "session \<Rightarrow> session" where
  "reset_txn cs = cs\<lparr>cs_txn_opts := txn_opts_cleanup (cs_txn_opts cs), cs_txn_state := MONGOC_INTERNAL_TRANSACTION_NONE,
     cs_token := None\<rparr>"

text \<open>\<open>_mongoc_client_session_append_txn\<close> on a session: false with the error "Empty command in transaction".\<close>

definition append_txn :: "session \<Rightarrow> body \<Rightarrow> (bool \<times> session \<times> body) res" where
  "append_txn cs cmd =
     bind_res (bson_empty (fst (body_doc cmd)) (snd (body_doc cmd))) (\<lambda>e.
       if e then Inr (False, cs, cmd)
       else (case cs_txn_state cs of
           MONGOC_INTERNAL_TRANSACTION_STARTING \<Rightarrow>
             let cs = cs\<lparr>cs_txn_state := MONGOC_INTERNAL_TRANSACTION_IN_PROGRESS\<rparr> in
             Inr (True, cs, append_txn_fields cs (snd (append_e cmd (e_bool (str ''startTransaction'') True))))
         | MONGOC_INTERNAL_TRANSACTION_IN_PROGRESS \<Rightarrow> Inr (True, cs, append_txn_fields cs cmd)
         | MONGOC_INTERNAL_TRANSACTION_ENDING \<Rightarrow> Inr (True, cs, append_txn_fields cs cmd)
         | MONGOC_INTERNAL_TRANSACTION_COMMITTED \<Rightarrow>
             bind_res (bind_res (get_command_name (body_doc cmd)) deref) (\<lambda>name.
               if name = str ''commitTransaction'' then Inr (True, cs, append_txn_fields cs cmd)
               else Inr (True, reset_txn cs, cmd))
         | MONGOC_INTERNAL_TRANSACTION_COMMITTED_EMPTY \<Rightarrow> Inr (True, reset_txn cs, cmd)
         | MONGOC_INTERNAL_TRANSACTION_ABORTED \<Rightarrow> Inr (True, reset_txn cs, cmd)
         | MONGOC_INTERNAL_TRANSACTION_NONE \<Rightarrow> Inr (True, cs, cmd)))"

text \<open>
  \<open>_mongoc_client_session_append_read_concern\<close>; the document that is built in place in the code is built
  apart here and appended as a whole.
\<close>

definition append_read_concern :: "session \<Rightarrow> doc option \<Rightarrow> bool \<Rightarrow> body \<Rightarrow> body res" where
  "append_read_concern cs rc is_read_command cmd =
     (let starting = (cs_txn_state cs = MONGOC_INTERNAL_TRANSACTION_STARTING); txn_rc = to_read_concern (cs_txn_opts cs) in
      if cs_txn_state cs = MONGOC_INTERNAL_TRANSACTION_IN_PROGRESS then Inr cmd
      else
        let has_timestamp = ((starting \<or> is_read_command) \<and> session_opts_get_causal (cs_opts cs) \<and> cs_op_t cs \<noteq> 0);
            is_snapshot = session_opts_get_snapshot (cs_opts cs);
            txn_has_level = (starting \<and> \<not> rc_is_default txn_rc)
        in bind_res (case rc of None \<Rightarrow> Inr False | Some d \<Rightarrow> bson_has_field (fst d) (snd d) (str ''level'')) (\<lambda>user_rc_has_level.
          if \<not> has_timestamp \<and> \<not> is_snapshot \<and> \<not> (user_rc_has_level \<or> txn_has_level) then Inr cmd
          else
            bind_res (case rc of None \<Rightarrow> Inr [] | Some d \<Rightarrow> map_res snd (concat_doc [] d)) (\<lambda>child.
            let child = (if txn_has_level \<and> \<not> user_rc_has_level \<and> \<not> is_snapshot
                         then snd (append_e child (e_utf8 (str ''level'') (the (rc_level (the txn_rc))))) else child);
                child = (if is_snapshot then snd (append_e child (e_utf8 (str ''level'') (str ''snapshot''))) else child);
                child = (if has_timestamp then snd (append_e child (e_timestamp (str ''afterClusterTime'') (cs_op_t cs) (cs_op_i cs)))
                         else if is_snapshot \<and> cs_snap_set cs
                         then snd (append_e child (e_timestamp (str ''atClusterTime'') (cs_snap_t cs) (cs_snap_i cs)))
                         else child)
            in Inr (snd (append_e cmd (e_doc (str ''readConcern'') (body_doc child)))))))"

section \<open>What a session takes from a reply\<close>

text \<open>The loop over a \<open>cursor\<close>; \<open>_mongoc_client_session_set_snapshot_time\<close> asserts that no time was set.\<close>

fun snapshot_loop :: "nat \<Rightarrow> bson_iter \<Rightarrow> session \<Rightarrow> session res" where
  "snapshot_loop 0 it cs = Inl NoFuel"
| "snapshot_loop (Suc fuel) it cs =
     bind_res (bson_iter_next it) (\<lambda>(ok, it).
       if \<not> ok then Inr cs
       else bind_res (key_of it) (\<lambda>key.
         bind_res (if key = str ''atClusterTime'' then holds_type it [BSON_TYPE_TIMESTAMP] else Inr False) (\<lambda>is_time.
           if is_time then
             bind_res (bson_iter_timestamp it) (\<lambda>(t, i). bind_res (session_set_snapshot_time cs t i) (snapshot_loop fuel it))
           else snapshot_loop fuel it cs)))"

definition reply_field :: "bool \<Rightarrow> bool \<Rightarrow> byte list \<Rightarrow> bson_iter \<Rightarrow> session \<Rightarrow> session res" where
  "reply_field is_acknowledged is_find key it cs =
     (let wants_snapshot = (is_find \<and> session_opts_get_snapshot (cs_opts cs) \<and> \<not> cs_snap_set cs) in
      bind_res (holds_type it [BSON_TYPE_DOCUMENT]) (\<lambda>is_doc.
      bind_res (holds_type it [BSON_TYPE_TIMESTAMP]) (\<lambda>is_time.
        if key = str ''$clusterTime'' \<and> is_doc then
          bind_res (bind_res (bson_iter_document it) static_doc) (session_advance_cluster_time cs)
        else if key = str ''operationTime'' \<and> is_time \<and> is_acknowledged then
          map_res (\<lambda>(t, i). session_advance_operation_time cs t i) (bson_iter_timestamp it)
        else if key = str ''atClusterTime'' \<and> wants_snapshot then
          bind_res (bson_iter_timestamp it) (\<lambda>(t, i). session_set_snapshot_time cs t i)
        else if key = str ''cursor'' \<and> wants_snapshot then
          bind_res (bson_iter_recurse it) (\<lambda>c. case c of
              None \<Rightarrow> Inl Uninit
            | Some child \<Rightarrow> snapshot_loop (Suc (it_len child)) child cs)
        else Inr cs)))"

fun reply_loop :: "nat \<Rightarrow> bool \<Rightarrow> bool \<Rightarrow> bson_iter \<Rightarrow> session \<Rightarrow> session res" where
  "reply_loop 0 ack is_find it cs = Inl NoFuel"
| "reply_loop (Suc fuel) ack is_find it cs =
     bind_res (bson_iter_next it) (\<lambda>(ok, it).
       if \<not> ok then Inr cs
       else bind_res (key_of it) (\<lambda>key. bind_res (reply_field ack is_find key it cs) (reply_loop fuel ack is_find it)))"

definition session_handle_reply :: "session \<Rightarrow> bool \<Rightarrow> byte list \<Rightarrow> doc option \<Rightarrow> session res" where
  "session_handle_reply cs is_acknowledged cmd_name reply = (case reply of
       None \<Rightarrow> Inr cs
     | Some d \<Rightarrow> (case bson_iter_init (fst d) (snd d) of (ok, it) \<Rightarrow>
         if \<not> ok then Inr cs
         else
           let is_find = (cmd_name = str ''find'' \<or> cmd_name = str ''aggregate'' \<or> cmd_name = str ''distinct'') in
           bind_res (mongoc_error_has_label d (str ''TransientTransactionError'')) (\<lambda>transient.
             reply_loop (Suc (snd d)) is_acknowledged is_find it (if transient then session_unpin cs else cs))))"

end
