(* ===== verification/CmdParts.thy ===== *)
theory CmdParts
  imports Session
begin

text \<open>
  The parts of a command and their assembly for a server (\<open>src/src/mongoc/mongoc-cmd.c\<close>, with the contents of a read
  preference from \<open>mongoc-read-prefs.c\<close>). The command that is sent is the caller's document as long as nothing is added
  to it (\<open>Is_body\<close>), and a copy with the additions afterwards (\<open>Is_assembled\<close>).
\<close>

section \<open>State\<close>

datatype txn_number_choice =
    MONGOC_CMD_PARTS_ALLOW_TXN_NUMBER_UNKNOWN | MONGOC_CMD_PARTS_ALLOW_TXN_NUMBER_YES | MONGOC_CMD_PARTS_ALLOW_TXN_NUMBER_NO

datatype command_ptr = No_command | Is_body | Is_assembled

record server_stream =
  st_topology :: topo_type
  st_sd :: server_desc
  st_cluster_time :: doc
  st_must_use_primary :: bool
  st_retry_attempted :: bool
  st_needs_hello :: bool

abbreviation (input) "MONGOC_QUERY_SECONDARY_OK \<equiv> 4 :: 32 word"
abbreviation (input) "WIRE_VERSION_MIN \<equiv> 8 :: int"
abbreviation (input) "WIRE_VERSION_SNAPSHOT_READS \<equiv> 13 :: int"

record cmd_parts =
  pt_body :: doc
  pt_user_flags :: "32 word"
  pt_read_concern :: doc
  pt_write_concern :: doc
  pt_extra :: body
  pt_read_prefs :: "read_prefs option"
  pt_assembled :: body
  pt_is_read :: bool
  pt_is_write :: bool
  pt_is_raw :: bool
  pt_prohibit_lsid :: bool
  pt_allow_txn :: txn_number_choice
  pt_retryable_read :: bool
  pt_retryable_write :: bool
  pt_temp_session :: bool
  pt_db_name :: "byte list"
  pt_command :: command_ptr
  pt_flags :: "32 word"
  pt_name :: "byte list"
  pt_session :: "session option"
  pt_acknowledged :: bool
  pt_txn_finish :: bool

definition cmd_parts_init :: "byte list \<Rightarrow> 32 word \<Rightarrow> doc \<Rightarrow> cmd_parts" where
  "cmd_parts_init db_name user_query_flags command_body =
     \<lparr>pt_body = command_body, pt_user_flags = user_query_flags, pt_read_concern = doc_empty, pt_write_concern = doc_empty,
      pt_extra = [], pt_read_prefs = None, pt_assembled = [], pt_is_read = False, pt_is_write = False, pt_is_raw = False,
      pt_prohibit_lsid = False, pt_allow_txn = MONGOC_CMD_PARTS_ALLOW_TXN_NUMBER_UNKNOWN, pt_retryable_read = False,
      pt_retryable_write = False, pt_temp_session = False, pt_db_name = db_name, pt_command = No_command, pt_flags = 0,
      pt_name = [], pt_session = None, pt_acknowledged = True, pt_txn_finish = False\<rparr>"

type_synonym 'a checked = "(bson_error option \<times> 'a) res"

definition ok_parts :: "'a \<Rightarrow> 'a checked" where
  "ok_parts x = Inr (None, x)"

definition fail_parts :: "error_domain \<Rightarrow> nat \<Rightarrow> string \<Rightarrow> 'a \<Rightarrow> 'a checked" where
  "fail_parts d code msg x = Inr (Some (set_error CATEGORY_MONGOC d code (str msg)), x)"

definition bind_checked :: "'a checked \<Rightarrow> ('a \<Rightarrow> 'a checked) \<Rightarrow> 'a checked" where
  "bind_checked m f = bind_res m (\<lambda>(err, x). if err \<noteq> None then Inr (err, x) else f x)"

definition doc_is_empty :: "doc \<Rightarrow> bool res" where
  "doc_is_empty d = bson_empty (fst d) (snd d)"

definition copy_doc :: "doc \<Rightarrow> doc" where
  "copy_doc d = (take (snd d) (fst d), snd d)"

section \<open>Collecting the options\<close>

definition parts_set_session :: "cmd_parts \<Rightarrow> session option \<Rightarrow> cmd_parts res" where
  "parts_set_session parts cs =
     bind_res (c_assert (pt_command parts = No_command)) (\<lambda>_. map_res (\<lambda>_. parts\<lparr>pt_session := cs\<rparr>) (c_assert (pt_session parts = None)))"

definition parts_set_read_concern :: "cmd_parts \<Rightarrow> read_concern option \<Rightarrow> cmd_parts checked" where
  "parts_set_read_concern parts rc =
     (if in_txn (pt_session parts) then ok_parts parts
      else bind_res (get_command_name (pt_body parts)) (\<lambda>name.
        if name = None then fail_parts MONGOC_ERROR_COMMAND 22 ''Empty command document'' parts
        else if rc_is_default rc then ok_parts parts
        else ok_parts (parts\<lparr>pt_read_concern := body_doc (fst (rc_get_bson (the rc)))\<rparr>)))"

definition parts_set_write_concern :: "cmd_parts \<Rightarrow> write_concern option \<Rightarrow> cmd_parts checked" where
  "parts_set_write_concern parts wc = (case wc of None \<Rightarrow> ok_parts parts
     | Some w \<Rightarrow> bind_res (get_command_name (pt_body parts)) (\<lambda>name.
         if name = None then fail_parts MONGOC_ERROR_COMMAND 22 ''Empty command document'' parts
         else bind_res (wc_get_bson w) (\<lambda>(compiled, _). ok_parts (parts\<lparr>pt_acknowledged := wc_is_acknowledged wc,
           pt_write_concern := body_doc compiled\<rparr>))))"

text \<open>
  \<open>bson_append_iter\<close> of the element that the iterator stands on, with its own key, for the types whose payload it
  copies unchanged (lemma \<open>append_iter_same_key\<close>).
\<close>

definition append_iter_to :: "body \<Rightarrow> bson_iter \<Rightarrow> (bool \<times> body) res" where
  "append_iter_to b it = bind_res (deref (it_raw it)) (\<lambda>data. Inr (append_to b (elem_at data it)))"

text \<open>\<open>mongoc_cmd_parts_append_opts\<close>; \<open>lookup\<close> finds the session of an id.\<close>

definition opts_field :: "(nat \<Rightarrow> session option) \<Rightarrow> byte list \<Rightarrow> bson_iter \<Rightarrow> cmd_parts \<Rightarrow> cmd_parts checked" where
  "opts_field lookup key it parts =
     (if key = str ''writeConcern'' then
        bind_res (wc_from_iter it) (\<lambda>wc. case wc of
            None \<Rightarrow> fail_parts MONGOC_ERROR_COMMAND 22 ''Invalid writeConcern'' parts
          | Some _ \<Rightarrow> parts_set_write_concern parts wc)
      else if key = str ''readConcern'' then
        bind_res (holds_type it [BSON_TYPE_DOCUMENT]) (\<lambda>d.
          if \<not> d then fail_parts MONGOC_ERROR_COMMAND 15 ''Invalid readConcern'' parts
          else bind_res (bind_res (bson_iter_document it) static_doc) (\<lambda>rc. ok_parts (parts\<lparr>pt_read_concern := copy_doc rc\<rparr>)))
      else if key = str ''sessionId'' then
        bind_res (c_assert (pt_session parts = None)) (\<lambda>_.
        bind_res (session_from_iter lookup it) (\<lambda>cs. case cs of
            None \<Rightarrow> fail_parts MONGOC_ERROR_COMMAND 22 ''Invalid sessionId'' parts
          | Some _ \<Rightarrow> ok_parts (parts\<lparr>pt_session := cs\<rparr>)))
      else if key = str ''serverId'' \<or> key = str ''maxAwaitTimeMS'' \<or> key = str ''exhaust'' then ok_parts parts
      else
        bind_res (append_iter_to (pt_extra parts) it) (\<lambda>(ok, extra).
          if ok then ok_parts (parts\<lparr>pt_extra := extra\<rparr>)
          else Inr (Some (set_error CATEGORY_MONGOC MONGOC_ERROR_COMMAND 22
            (str ''Failed to append '' @ [0x22] @ key @ [0x22] @ str '' to create command.'')), parts)))"

fun opts_loop :: "nat \<Rightarrow> (nat \<Rightarrow> session option) \<Rightarrow> bson_iter \<Rightarrow> cmd_parts \<Rightarrow> cmd_parts checked" where
  "opts_loop 0 lookup it parts = Inl NoFuel"
| "opts_loop (Suc fuel) lookup it parts =
     bind_res (bson_iter_next it) (\<lambda>(ok, it).
       if \<not> ok then ok_parts parts
       else bind_res (key_of it) (\<lambda>key.
         bind_checked (opts_field lookup key it parts) (\<lambda>parts. opts_loop fuel lookup it parts)))"

definition parts_append_opts :: "(nat \<Rightarrow> session option) \<Rightarrow> cmd_parts \<Rightarrow> bson_iter \<Rightarrow> cmd_parts checked" where
  "parts_append_opts lookup parts it =
     bind_res (c_assert (pt_command parts = No_command)) (\<lambda>_. opts_loop (Suc (it_len it)) lookup it parts)"

text \<open>The options of \<open>mongoc_read_write_opts_t\<close>.\<close>

record rw_opts =
  rw_read_concern :: doc
  rw_write_concern :: "write_concern option"
  rw_session :: "session option"
  rw_collation :: doc
  rw_server_id :: nat
  rw_extra :: body

definition parts_append_read_write :: "cmd_parts \<Rightarrow> rw_opts \<Rightarrow> cmd_parts checked" where
  "parts_append_read_write parts rw =
     bind_res (c_assert (pt_command parts = No_command)) (\<lambda>_.
     bind_res (doc_is_empty (rw_collation rw)) (\<lambda>no_collation.
       (case (if no_collation then (True, pt_extra parts) else append_e (pt_extra parts) (e_doc (str ''collation'') (rw_collation rw)))
        of (ok, extra) \<Rightarrow>
          if \<not> ok then fail_parts MONGOC_ERROR_COMMAND 22 '''opts' with 'collation' is too large'' parts
          else bind_checked (parts_set_write_concern (parts\<lparr>pt_extra := extra\<rparr>) (rw_write_concern rw)) (\<lambda>parts.
            bind_res (doc_is_empty (rw_read_concern rw)) (\<lambda>no_rc.
              let parts = (if no_rc then parts else parts\<lparr>pt_read_concern := copy_doc (rw_read_concern rw)\<rparr>) in
              bind_res (if rw_session rw = None then Inr parts
                        else map_res (\<lambda>_. parts\<lparr>pt_session := rw_session rw\<rparr>) (c_assert (pt_session parts = None))) (\<lambda>parts.
              bind_res (concat_doc (pt_extra parts) (body_doc (rw_extra rw))) (\<lambda>(ok, extra).
                if ok then ok_parts (parts\<lparr>pt_extra := extra\<rparr>)
                else fail_parts MONGOC_ERROR_COMMAND 22 '''opts' with extra fields is too large'' parts)))))))"

section \<open>Pieces of the assembly\<close>

definition ensure_copied :: "cmd_parts \<Rightarrow> cmd_parts res" where
  "ensure_copied parts =
     (if pt_command parts = Is_body then
        bind_res (concat_doc (pt_assembled parts) (pt_body parts)) (\<lambda>(_, b).
        map_res (\<lambda>(_, b). parts\<lparr>pt_assembled := b, pt_command := Is_assembled\<rparr>) (concat_doc b (body_doc (pt_extra parts))))
      else Inr parts)"

definition add_e :: "cmd_parts \<Rightarrow> element \<Rightarrow> cmd_parts" where
  "add_e parts e = parts\<lparr>pt_assembled := snd (append_e (pt_assembled parts) e)\<rparr>"

definition add_write_concern :: "cmd_parts \<Rightarrow> cmd_parts res" where
  "add_write_concern parts =
     bind_res (doc_is_empty (pt_write_concern parts)) (\<lambda>e.
       if e then Inr parts
       else map_res (\<lambda>parts. add_e parts (e_doc (str ''writeConcern'') (pt_write_concern parts))) (ensure_copied parts))"

definition read_mode_as_str :: "read_mode \<Rightarrow> byte list" where
  "read_mode_as_str mode = (case mode of
       MONGOC_READ_PRIMARY \<Rightarrow> str ''primary''
     | MONGOC_READ_PRIMARY_PREFERRED \<Rightarrow> str ''primaryPreferred''
     | MONGOC_READ_SECONDARY \<Rightarrow> str ''secondary''
     | MONGOC_READ_SECONDARY_PREFERRED \<Rightarrow> str ''secondaryPreferred''
     | MONGOC_READ_NEAREST \<Rightarrow> str ''nearest'')"

text \<open>\<open>mongoc_read_prefs_append_contents_to_bson\<close> with all flags: whether it worked, and the document.\<close>

definition read_prefs_contents :: "read_prefs option \<Rightarrow> body \<Rightarrow> (bool \<times> body) res" where
  "read_prefs_contents prefs b =
     (case append_e b (e_utf8 (str ''mode'') (read_mode_as_str (read_prefs_get_mode prefs))) of (ok, b) \<Rightarrow>
        if \<not> ok then Inr (False, b)
        else (case prefs of None \<Rightarrow> Inr (True, b)
          | Some p \<Rightarrow>
              bind_res (doc_is_empty (rp_tags p)) (\<lambda>no_tags.
              (case (if no_tags then (True, b) else append_e b (e_array (str ''tags'') (rp_tags p))) of (ok, b) \<Rightarrow>
                if \<not> ok then Inr (False, b)
                else (case (if rp_max_staleness p = - 1 then (True, b)
                            else append_e b (e_int64 (str ''maxStalenessSeconds'') (word_of_int (rp_max_staleness p)))) of (ok, b) \<Rightarrow>
                  if \<not> ok then Inr (False, b)
                  else map_res (\<lambda>no_hedge. if no_hedge then (True, b) else append_e b (e_doc (str ''hedge'') (rp_hedge p)))
                    (doc_is_empty (rp_hedge p)))))))"

definition add_read_prefs :: "read_prefs option \<Rightarrow> body \<Rightarrow> body res" where
  "add_read_prefs prefs query =
     map_res (\<lambda>(_, child). snd (append_e query (e_doc (str ''$readPreference'') (body_doc child)))) (read_prefs_contents prefs [])"

definition largest_cluster_time :: "doc option \<Rightarrow> doc option \<Rightarrow> doc option res" where
  "largest_cluster_time a b = (case a of None \<Rightarrow> Inr b
     | Some a' \<Rightarrow> (case b of None \<Rightarrow> Inr a
         | Some b' \<Rightarrow> map_res (\<lambda>g. if g then a else b) (cluster_time_greater a' b')))"

definition allow_txn_number :: "cmd_parts \<Rightarrow> server_stream \<Rightarrow> bool res" where
  "allow_txn_number parts stream =
     map_res (\<lambda>_.
       if \<not> pt_is_write parts then False
       else if st_retry_attempted stream then False
       else if \<not> pt_acknowledged parts then False
       else map c_tolower (pt_name parts) = str ''findandmodify'')
     (c_assert (pt_allow_txn parts = MONGOC_CMD_PARTS_ALLOW_TXN_NUMBER_UNKNOWN))"

definition is_retryable_write :: "client \<Rightarrow> cmd_parts \<Rightarrow> server_stream \<Rightarrow> bool" where
  "is_retryable_write cl parts stream =
     (if pt_session parts = None then False
      else if \<not> pt_is_write parts then False
      else if pt_allow_txn parts \<noteq> MONGOC_CMD_PARTS_ALLOW_TXN_NUMBER_YES then False
      else if st_retry_attempted stream then False
      else if sd_type (st_sd stream) = MONGOC_SERVER_STANDALONE then False
      else if in_txn (pt_session parts) then False
      else cl_retry_writes cl)"

definition is_retryable_read :: "client \<Rightarrow> cmd_parts \<Rightarrow> server_stream \<Rightarrow> bool" where
  "is_retryable_read cl parts stream =
     (if \<not> pt_is_read parts then False
      else if pt_is_write parts then False
      else if st_retry_attempted stream then False
      else if in_txn (pt_session parts) then False
      else cl_retry_reads cl)"

definition append_server_api :: "body \<Rightarrow> server_api \<Rightarrow> body" where
  "append_server_api command api =
     (let command = snd (append_e command (e_utf8 (str ''apiVersion'') (case api_ver api of MONGOC_SERVER_API_V1 \<Rightarrow> str ''1'')));
          command = (if opt_is_set (api_strict api)
                     then snd (append_e command (e_bool (str ''apiStrict'') (opt_value (api_strict api)))) else command)
      in if opt_is_set (api_deprecation api)
         then snd (append_e command (e_bool (str ''apiDeprecationErrors'') (opt_value (api_deprecation api)))) else command)"

definition cmd_is_compressible :: "byte list \<Rightarrow> bool" where
  "cmd_is_compressible name \<longleftrightarrow> map c_tolower name \<notin> set (map str
     [''hello'', ''ismaster'', ''authenticate'', ''getnonce'', ''saslstart'', ''saslcontinue'', ''createuser'', ''updateuser''])"


section \<open>Old servers\<close>

definition iter_concat :: "body \<Rightarrow> bson_iter \<Rightarrow> body res" where
  "iter_concat dst it =
     bind_res (bind_res (bson_iter_document it) static_doc) (\<lambda>src.
     bind_res (concat_doc dst src) (\<lambda>(ok, dst). map_res (\<lambda>_. dst) (c_assert ok)))"

text \<open>\<open>bson_copy_to_excluding_noinit\<close>\<close>

fun copy_excluding :: "nat \<Rightarrow> byte list list \<Rightarrow> bson_iter \<Rightarrow> body \<Rightarrow> body res" where
  "copy_excluding 0 names it dst = Inl NoFuel"
| "copy_excluding (Suc fuel) names it dst =
     bind_res (bson_iter_next it) (\<lambda>(ok, it).
       if \<not> ok then Inr dst
       else bind_res (key_of it) (\<lambda>key.
         if key \<in> set names then copy_excluding fuel names it dst
         else bind_res (append_iter_to dst it) (\<lambda>(ok, dst). bind_res (c_assert ok) (\<lambda>_. copy_excluding fuel names it dst))))"

definition copy_doc_excluding :: "byte list list \<Rightarrow> doc \<Rightarrow> body \<Rightarrow> body res" where
  "copy_doc_excluding names d dst = (case bson_iter_init (fst d) (snd d) of (ok, it) \<Rightarrow>
     if ok then copy_excluding (Suc (snd d)) names it dst else Inr dst)"

definition append_nonempty :: "bool \<Rightarrow> byte list \<Rightarrow> doc \<Rightarrow> body \<Rightarrow> body" where
  "append_nonempty needed key d b = (if needed then snd (append_e b (e_doc key d)) else b)"

definition wrap_query ::
    "cmd_parts \<Rightarrow> bool \<Rightarrow> bool \<Rightarrow> body \<Rightarrow> body res" where
  "wrap_query parts requires_read_concern requires_write_concern query =
     map_res (\<lambda>(_, query). append_nonempty requires_write_concern (str ''writeConcern'') (pt_write_concern parts)
       (append_nonempty requires_read_concern (str ''readConcern'') (pt_read_concern parts) query))
     (concat_doc query (body_doc (pt_extra parts)))"

definition assemble_mongos :: "cmd_parts \<Rightarrow> server_stream \<Rightarrow> cmd_parts res" where
  "assemble_mongos parts stream =
     (let mode = (if st_must_use_primary stream then MONGOC_READ_PRIMARY else read_prefs_get_mode (pt_read_prefs parts)) in
      bind_res (case pt_read_prefs parts of None \<Rightarrow> Inr False
        | Some p \<Rightarrow> bind_res (doc_is_empty (rp_tags p)) (\<lambda>t. map_res (\<lambda>h. \<not> t \<or> rp_max_staleness p > 0 \<or> \<not> h) (doc_is_empty (rp_hedge p)))) (\<lambda>content.
      let parts = (if mode = MONGOC_READ_PRIMARY then parts
                   else parts\<lparr>pt_flags := pt_flags parts OR MONGOC_QUERY_SECONDARY_OK\<rparr>);
          prefs = (mode \<noteq> MONGOC_READ_PRIMARY \<and> (mode = MONGOC_READ_SECONDARY_PREFERRED \<longrightarrow> content)) in
      bind_res (doc_is_empty (pt_read_concern parts)) (\<lambda>no_rc.
      bind_res (doc_is_empty (pt_write_concern parts)) (\<lambda>no_wc.
      let rc = (\<not> no_rc \<and> pt_name parts \<noteq> str ''getMore'') in
      bind_res (bson_iter_init_find (fst (pt_body parts)) (snd (pt_body parts)) (str ''$query'' @ [0])) (\<lambda>(found, it).
      bind_res (if prefs \<or> found then
            bind_res (if found then iter_concat [] it else map_res snd (concat_doc [] (pt_body parts))) (\<lambda>query.
            bind_res (wrap_query parts rc (\<not> no_wc) query) (\<lambda>query.
            let b = snd (append_e (pt_assembled parts) (e_doc (str ''$query'') (body_doc query))) in
            bind_res (if prefs then add_read_prefs (pt_read_prefs parts) b else Inr b) (\<lambda>b.
            map_res (\<lambda>b. parts\<lparr>pt_assembled := b, pt_command := Is_assembled\<rparr>)
              (if found then copy_doc_excluding [str ''$query''] (pt_body parts) b else Inr b))))
          else
            bind_res (if rc then map_res (\<lambda>parts. add_e parts (e_doc (str ''readConcern'') (pt_read_concern parts))) (ensure_copied parts)
                      else Inr parts) add_write_concern) (\<lambda>parts.
        if pt_extra parts = [] then Inr parts else ensure_copied parts))))))"

definition assemble_mongod :: "cmd_parts \<Rightarrow> server_stream \<Rightarrow> cmd_parts res" where
  "assemble_mongod parts stream =
     bind_res (if pt_is_write parts then Inr parts
               else (case st_topology stream of
                   MONGOC_TOPOLOGY_SINGLE \<Rightarrow> Inr (parts\<lparr>pt_flags := pt_flags parts OR MONGOC_QUERY_SECONDARY_OK\<rparr>)
                 | MONGOC_TOPOLOGY_RS_NO_PRIMARY \<Rightarrow> Inr (if read_prefs_get_mode (pt_read_prefs parts) = MONGOC_READ_PRIMARY then parts
                     else parts\<lparr>pt_flags := pt_flags parts OR MONGOC_QUERY_SECONDARY_OK\<rparr>)
                 | MONGOC_TOPOLOGY_RS_WITH_PRIMARY \<Rightarrow> Inr (if read_prefs_get_mode (pt_read_prefs parts) = MONGOC_READ_PRIMARY then parts
                     else parts\<lparr>pt_flags := pt_flags parts OR MONGOC_QUERY_SECONDARY_OK\<rparr>)
                 | _ \<Rightarrow> Inl AssertFail)) (\<lambda>parts.
     bind_res (if pt_extra parts = [] then Inr parts else ensure_copied parts) (\<lambda>parts.
     bind_res (doc_is_empty (pt_read_concern parts)) (\<lambda>no_rc.
     bind_res (if no_rc \<or> pt_name parts = str ''getMore'' then Inr parts
               else map_res (\<lambda>parts. add_e parts (e_doc (str ''readConcern'') (pt_read_concern parts))) (ensure_copied parts))
       add_write_concern)))"

section \<open>Assembly\<close>

text \<open>
  The steps of \<open>mongoc_cmd_parts_assemble\<close> for a server that takes \<open>OP_MSG\<close>. \<open>implicit\<close> is the session that
  \<open>mongoc_client_start_session\<close> makes where the caller gave none, if it makes one; \<open>now\<close> is the monotonic time.
\<close>

definition asm_extra :: "read_prefs option \<Rightarrow> server_stream \<Rightarrow> cmd_parts \<Rightarrow> cmd_parts checked" where
  "asm_extra prefs_ptr stream parts =
     (let cs = (if pt_prohibit_lsid parts then None else pt_session parts);
          mode = (if st_must_use_primary stream then MONGOC_READ_PRIMARY else read_prefs_get_mode prefs_ptr) in
      bind_res (bson_has_field (fst (pt_body parts)) (snd (pt_body parts)) (str ''$db'')) (\<lambda>has_db.
      let parts = (if has_db then parts
                   else parts\<lparr>pt_extra := snd (append_e (pt_extra parts) (e_utf8 (str ''$db'') (pt_db_name parts)))\<rparr>) in
      bind_checked
        (case cs of
           Some s \<Rightarrow>
             if in_txn cs then
               if read_prefs_get_mode (to_read_prefs (cs_txn_opts s)) \<noteq> MONGOC_READ_PRIMARY \<and> \<not> pt_is_write parts
               then fail_parts MONGOC_ERROR_TRANSACTION 53 ''Read preference in a transaction must be primary'' parts
               else ok_parts parts
             else if mode \<noteq> MONGOC_READ_PRIMARY \<and> sd_type (st_sd stream) \<noteq> MONGOC_SERVER_STANDALONE
             then bind_res (add_read_prefs prefs_ptr (pt_extra parts)) (\<lambda>x. ok_parts (parts\<lparr>pt_extra := x\<rparr>))
             else ok_parts parts
         | None \<Rightarrow>
             if mode \<noteq> MONGOC_READ_PRIMARY \<and> sd_type (st_sd stream) \<noteq> MONGOC_SERVER_STANDALONE
             then bind_res (add_read_prefs prefs_ptr (pt_extra parts)) (\<lambda>x. ok_parts (parts\<lparr>pt_extra := x\<rparr>))
             else ok_parts parts) (\<lambda>parts.
        if pt_extra parts = [] then ok_parts parts else bind_res (ensure_copied parts) ok_parts)))"

text \<open>The session \<open>cs\<close> of the function, which is \<open>NULL\<close> where the lsid is prohibited.\<close>

definition asm_cs :: "cmd_parts \<Rightarrow> session option" where
  "asm_cs parts = (if pt_prohibit_lsid parts then None else pt_session parts)"

definition asm_lsid :: "session option \<Rightarrow> int \<Rightarrow> cmd_parts \<Rightarrow> cmd_parts checked" where
  "asm_lsid implicit now parts =
     (let parts = (if asm_cs parts = None \<and> \<not> pt_prohibit_lsid parts \<and> pt_acknowledged parts \<and> implicit \<noteq> None
                   then parts\<lparr>pt_session := implicit, pt_temp_session := True\<rparr> else parts) in
      case asm_cs parts of None \<Rightarrow> ok_parts parts
      | Some s \<Rightarrow>
          if \<not> pt_acknowledged parts
          then fail_parts MONGOC_ERROR_COMMAND 22 ''Cannot use client session with unacknowledged command'' parts
          else bind_res (ensure_copied parts) (\<lambda>parts. ok_parts ((add_e parts (e_doc (str ''lsid'') (body_doc (ss_lsid (cs_server_session s)))))
            \<lparr>pt_session := Some (s\<lparr>cs_server_session := (cs_server_session s)\<lparr>ss_last_used := now\<rparr>\<rparr>)\<rparr>)))"

definition asm_retry :: "client \<Rightarrow> server_stream \<Rightarrow> bool \<Rightarrow> cmd_parts \<Rightarrow> cmd_parts checked" where
  "asm_retry cl stream is_get_more parts =
     bind_res (if \<not> txn_in_progress (asm_cs parts) \<and> pt_is_write parts \<and> pt_allow_txn parts = MONGOC_CMD_PARTS_ALLOW_TXN_NUMBER_UNKNOWN
               then map_res (\<lambda>a. parts\<lparr>pt_allow_txn := (if a then MONGOC_CMD_PARTS_ALLOW_TXN_NUMBER_YES
                                                       else MONGOC_CMD_PARTS_ALLOW_TXN_NUMBER_NO)\<rparr>) (allow_txn_number parts stream)
               else Inr parts) (\<lambda>parts.
     bind_res (if is_retryable_write cl parts stream
               then map_res (\<lambda>parts. (add_e parts (e_int64 (str ''txnNumber'') 0))\<lparr>pt_retryable_write := True\<rparr>) (ensure_copied parts)
               else Inr parts) (\<lambda>parts.
       ok_parts (if is_retryable_read cl parts stream \<and> \<not> is_get_more then parts\<lparr>pt_retryable_read := True\<rparr> else parts)))"

definition asm_cluster_time :: "server_stream \<Rightarrow> cmd_parts \<Rightarrow> cmd_parts checked" where
  "asm_cluster_time stream parts =
     bind_res (case asm_cs parts of None \<Rightarrow> Inr None | Some s \<Rightarrow> session_get_cluster_time s) (\<lambda>ct.
     bind_res (doc_is_empty (st_cluster_time stream)) (\<lambda>e.
     bind_res (if e then Inr ct else largest_cluster_time (Some (st_cluster_time stream)) ct) (\<lambda>ct.
       if ct \<noteq> None \<and> sd_type (st_sd stream) \<noteq> MONGOC_SERVER_STANDALONE
       then bind_res (ensure_copied parts) (\<lambda>parts. ok_parts (add_e parts (e_doc (str ''$clusterTime'') (the ct))))
       else ok_parts parts)))"

definition asm_api :: "client \<Rightarrow> cmd_parts \<Rightarrow> cmd_parts checked" where
  "asm_api cl parts =
     (if cl_uses_api cl then (case cl_api cl of None \<Rightarrow> Inl AssertFail
        | Some api \<Rightarrow> ok_parts (parts\<lparr>pt_assembled := append_server_api (pt_assembled parts) api\<rparr>))
      else ok_parts parts)"

definition asm_read_concern :: "server_stream \<Rightarrow> bool \<Rightarrow> cmd_parts \<Rightarrow> cmd_parts checked" where
  "asm_read_concern stream is_get_more parts =
     (if is_get_more then ok_parts parts
      else (case asm_cs parts of
          Some s \<Rightarrow>
            if session_opts_get_snapshot (cs_opts s) \<and> sd_max_wire (st_sd stream) < WIRE_VERSION_SNAPSHOT_READS
            then fail_parts MONGOC_ERROR_CLIENT 52 ''Snapshot reads require MongoDB 5.0 or later'' parts
            else bind_res (ensure_copied parts) (\<lambda>parts.
              bind_res (append_read_concern s (Some (pt_read_concern parts)) (pt_is_read parts) (pt_assembled parts)) (\<lambda>b.
                ok_parts (parts\<lparr>pt_assembled := b\<rparr>)))
        | None \<Rightarrow>
            bind_res (doc_is_empty (pt_read_concern parts)) (\<lambda>e. if e then ok_parts parts
              else bind_res (ensure_copied parts) (\<lambda>parts. ok_parts (add_e parts (e_doc (str ''readConcern'') (pt_read_concern parts)))))))"

definition asm_txn :: "cmd_parts \<Rightarrow> cmd_parts checked" where
  "asm_txn parts =
     bind_res (if pt_txn_finish parts \<or> \<not> in_txn (asm_cs parts) then add_write_concern parts else Inr parts) (\<lambda>parts.
     bind_res (ensure_copied parts) (\<lambda>parts. case asm_cs parts of
         None \<Rightarrow> ok_parts parts
       | Some s \<Rightarrow> bind_res (append_txn s (pt_assembled parts)) (\<lambda>(ok, s, b).
           let parts = parts\<lparr>pt_session := Some s, pt_assembled := b\<rparr> in
           if ok then ok_parts parts
           else fail_parts MONGOC_ERROR_COMMAND 22 ''Empty command in transaction'' parts)))"

definition asm_opmsg ::
    "client \<Rightarrow> session option \<Rightarrow> int \<Rightarrow> read_prefs option \<Rightarrow> server_stream \<Rightarrow> cmd_parts \<Rightarrow> cmd_parts checked" where
  "asm_opmsg cl implicit now prefs_ptr stream parts =
     (let is_get_more = (pt_name parts = str ''getMore'') in
      bind_checked (asm_extra prefs_ptr stream parts) (\<lambda>parts.
      bind_checked (asm_lsid implicit now parts) (\<lambda>parts.
      bind_checked (asm_retry cl stream is_get_more parts) (\<lambda>parts.
      bind_checked (asm_cluster_time stream parts) (\<lambda>parts.
      bind_checked (asm_api cl parts) (\<lambda>parts.
      bind_checked (asm_read_concern stream is_get_more parts) asm_txn))))))"

definition parts_assemble ::
    "client \<Rightarrow> session option \<Rightarrow> int \<Rightarrow> cmd_parts \<Rightarrow> server_stream \<Rightarrow> cmd_parts checked" where
  "parts_assemble cl implicit now parts stream =
     (let server_type = sd_type (st_sd stream) in
      if server_type = MONGOC_SERVER_UNKNOWN
      then fail_parts MONGOC_ERROR_COMMAND 22 ''Cannot assemble command for invalidated server'' parts
      else
        bind_res (c_assert (pt_command parts = No_command \<and> pt_assembled parts = [])) (\<lambda>_.
        bind_res (get_command_name (pt_body parts)) (\<lambda>name.
          let parts = parts\<lparr>pt_command := Is_body, pt_flags := pt_user_flags parts\<rparr> in
          case name of
            None \<Rightarrow> fail_parts MONGOC_ERROR_COMMAND 22 ''Empty command document'' parts
          | Some name \<Rightarrow>
              let parts = parts\<lparr>pt_name := name,
                    pt_txn_finish := (name = str ''commitTransaction'' \<or> name = str ''abortTransaction'')\<rparr>;
                  prefs_ptr = (if \<not> pt_is_write parts \<and> read_prefs_get_mode (pt_read_prefs parts) = MONGOC_READ_PRIMARY
                                 \<and> st_topology stream = MONGOC_TOPOLOGY_SINGLE \<and> server_type \<noteq> MONGOC_SERVER_MONGOS
                               then Some \<lparr>rp_mode = MONGOC_READ_PRIMARY_PREFERRED, rp_tags = doc_empty, rp_max_staleness = - 1,
                                          rp_hedge = doc_empty\<rparr>
                               else pt_read_prefs parts)
              in if cl_uses_api cl \<or> cl_uses_lb cl \<or> sd_max_wire (st_sd stream) \<ge> WIRE_VERSION_MIN
                 then asm_opmsg cl implicit now prefs_ptr stream parts
                 else if server_type = MONGOC_SERVER_MONGOS \<or> st_topology stream = MONGOC_TOPOLOGY_LOAD_BALANCED
                 then bind_res (assemble_mongos parts stream) ok_parts
                 else bind_res (assemble_mongod parts stream) ok_parts)))"

text \<open>The command that is sent.\<close>

definition sent_command :: "cmd_parts \<Rightarrow> doc" where
  "sent_command parts = (if pt_command parts = Is_assembled then body_doc (pt_assembled parts) else pt_body parts)"

end
