(* ===== verification/Retry.thy ===== *)
theory Retry
  imports CmdParts
begin

text \<open>
  Error labels and retries (\<open>src/src/mongoc/mongoc-error.c\<close>, \<open>mongoc-util.c\<close>, \<open>mongoc-write-command.c\<close>,
  \<open>mongoc-retryable-cmd.c\<close>): the labels that the client adds to a reply, and the loop that executes a command again.
\<close>

section \<open>Labels\<close>

text \<open>An array of strings under construction: the next index and the body (\<open>bson_array_builder_t\<close>).\<close>

definition label_append :: "nat \<times> body \<Rightarrow> byte list \<Rightarrow> nat \<times> body" where
  "label_append a s = (case append_e (snd a) (e_utf8 (dec (fst a)) s) of (ok, b) \<Rightarrow> (if ok then Suc (fst a) else fst a, b))"

fun upsert_loop :: "nat \<Rightarrow> bson_iter \<Rightarrow> byte list \<Rightarrow> nat \<times> body \<Rightarrow> (nat \<times> body) res" where
  "upsert_loop 0 it label a = Inl NoFuel"
| "upsert_loop (Suc fuel) it label a =
     bind_res (bson_iter_next it) (\<lambda>(ok, it).
       if \<not> ok then Inr a
       else bind_res (holds_type it [BSON_TYPE_UTF8]) (\<lambda>u.
         if \<not> u then Inr a
         else bind_res (str_of it) (\<lambda>s. upsert_loop fuel it label (if s = label then a else label_append a s))))"

text \<open>\<open>_mongoc_error_copy_labels_and_upsert\<close>: the elements that it appends to \<open>dst\<close>.\<close>

definition copy_labels_and_upsert :: "doc \<Rightarrow> body \<Rightarrow> byte list \<Rightarrow> body res" where
  "copy_labels_and_upsert src dst label =
     (let a = label_append (0, []) label in
      bind_res (bson_iter_init_find (fst src) (snd src) (str ''errorLabels'' @ [0])) (\<lambda>(found, it).
      bind_res (if found then bson_iter_recurse it else Inr None) (\<lambda>c.
      map_res (\<lambda>a. snd (append_e dst (e_array (str ''errorLabels'') (body_doc (snd a)))))
        (case c of None \<Rightarrow> Inr a | Some child \<Rightarrow> upsert_loop (Suc (it_len child)) child label a))))"

definition append_retryable_label :: "doc \<Rightarrow> doc res" where
  "append_retryable_label reply =
     bind_res (copy_doc_excluding [str ''errorLabels''] reply []) (\<lambda>b.
     map_res body_doc (copy_labels_and_upsert reply b (str ''RetryableWriteError'')))"

text \<open>\<open>_mongoc_bson_array_add_label\<close> on the labels collected so far, and \<open>_mongoc_bson_array_copy_labels_to\<close>.\<close>

definition array_add_label :: "byte list list \<Rightarrow> byte list \<Rightarrow> byte list list" where
  "array_add_label ls s = (if s \<in> set ls then ls else ls @ [s])"

fun copy_labels_loop :: "nat \<Rightarrow> bson_iter \<Rightarrow> byte list list \<Rightarrow> byte list list res" where
  "copy_labels_loop 0 it ls = Inl NoFuel"
| "copy_labels_loop (Suc fuel) it ls =
     bind_res (bson_iter_next it) (\<lambda>(ok, it).
       if \<not> ok then Inr ls
       else bind_res (holds_type it [BSON_TYPE_UTF8]) (\<lambda>u.
         if u then bind_res (str_of it) (\<lambda>s. copy_labels_loop fuel it (array_add_label ls s)) else copy_labels_loop fuel it ls))"

definition add_error_label :: "doc \<Rightarrow> byte list \<Rightarrow> doc res" where
  "add_error_label reply label =
     bind_res (bson_iter_init_find (fst reply) (snd reply) (str ''errorLabels'' @ [0])) (\<lambda>(found, it).
     bind_res (if found then bind_res (recursed it) (\<lambda>child. copy_labels_loop (Suc (it_len child)) child []) else Inr []) (\<lambda>ls.
     let labels = snd (foldl label_append (0, []) (array_add_label ls label)) in
     map_res (\<lambda>b. body_doc (snd (append_e b (e_array (str ''errorLabels'') (body_doc labels)))))
       (copy_doc_excluding [str ''errorLabels''] reply [])))"

definition add_transient_txn_error :: "session option \<Rightarrow> doc \<Rightarrow> doc res" where
  "add_transient_txn_error cs reply =
     (if in_txn cs then add_error_label reply (str ''TransientTransactionError'') else Inr reply)"

definition apply_retryable_label :: "bool \<Rightarrow> bson_error option \<Rightarrow> doc \<Rightarrow> server_desc \<Rightarrow> doc res" where
  "apply_retryable_label cmd_ret cmd_err reply sd =
     bind_res (write_error_handle_labels cmd_ret cmd_err reply sd) (\<lambda>add. if add then append_retryable_label reply else Inr reply)"

text \<open>\<open>_mongoc_write_error_update_if_unsupported_storage_engine\<close>: the error and the reply afterwards.\<close>

definition unsupported_engine_message :: "byte list" where
  "unsupported_engine_message = str ''This MongoDB deployment does not support retryable writes. Please add retryWrites=false to your connection string.''"

definition update_if_unsupported_engine :: "bool \<Rightarrow> bson_error option \<Rightarrow> doc \<Rightarrow> (bson_error option \<times> doc) res" where
  "update_if_unsupported_engine cmd_ret cmd_err reply =
     (if cmd_ret then Inr (cmd_err, reply)
      else bind_res (cmd_check_ok_no_wce reply 2) (\<lambda>e. case e of
          None \<Rightarrow> Inr (cmd_err, reply)
        | Some e \<Rightarrow>
            if err_code e = 20 \<and> take 19 (err_message e) = str ''Transaction numbers'' then
              bind_res (deref cmd_err) (\<lambda>err.
              map_res (\<lambda>b. (Some (err\<lparr>err_message := unsupported_engine_message\<rparr>),
                            body_doc (snd (append_e b (e_utf8 (str ''errmsg'') unsupported_engine_message)))))
                (copy_doc_excluding [str ''errmsg''] reply []))
            else Inr (cmd_err, reply)))"

section \<open>Retries\<close>

datatype retry_eligibility =
    MONGOC_RETRY_ELIGIBILITY_NONE | MONGOC_RETRY_ELIGIBILITY_OVERLOAD_ONLY | MONGOC_RETRY_ELIGIBILITY_RETRYABLE_READ
  | MONGOC_RETRY_ELIGIBILITY_RETRYABLE_WRITE

text \<open>What an execution returns: success, the error and the reply.\<close>

type_synonym cmd_result = "bool \<times> bson_error option \<times> doc"

record retryable_cmd =
  rt_eligibility :: retry_eligibility
  rt_initial :: server_desc
  rt_max_adaptive :: int
  rt_retargeting :: bool

text \<open>Whether a result is an overload, and whether it is worth another try.\<close>

definition retry_class :: "retry_eligibility \<Rightarrow> cmd_result \<Rightarrow> (bool \<times> bool) res" where
  "retry_class el r = (case r of (ret, err, reply) \<Rightarrow>
     bind_res (if el = MONGOC_RETRY_ELIGIBILITY_RETRYABLE_READ
               then map_res (\<lambda>t. t = MONGOC_READ_ERR_RETRY) (read_error_get_type ret err reply) else Inr False) (\<lambda>is_read.
     bind_res (if el = MONGOC_RETRY_ELIGIBILITY_RETRYABLE_WRITE
               then map_res (\<lambda>t. t = MONGOC_WRITE_ERR_RETRY) (write_error_get_type reply) else Inr False) (\<lambda>is_write.
     bind_res (mongoc_error_has_label reply (str ''SystemOverloadedError'')) (\<lambda>is_overload.
     map_res (\<lambda>labelled. (is_overload, is_read \<or> is_write
           \<or> is_overload \<and> labelled \<and> el \<noteq> MONGOC_RETRY_ELIGIBILITY_NONE))
       (if is_overload then mongoc_error_has_label reply (str ''RetryableError'') else Inr False)))))"

text \<open>
  \<open>_mongoc_retryable_cmd_run\<close>. The callbacks \<open>execute\<close> and \<open>select\<close> change a state \<open>'s\<close>; the waits between the attempts
  change nothing that is modelled.
\<close>

fun retryable_loop ::
    "nat \<Rightarrow> retryable_cmd \<Rightarrow> ('s \<Rightarrow> (cmd_result \<times> 's) res) \<Rightarrow> (deprioritized \<Rightarrow> 's \<Rightarrow> (server_desc option \<times> 's) res)
      \<Rightarrow> int \<Rightarrow> int \<Rightarrow> server_desc \<Rightarrow> deprioritized \<Rightarrow> 's \<Rightarrow> (cmd_result \<times> 's) res" where
  "retryable_loop 0 cmd execute select attempt allowed_retries sd ds s = Inl NoFuel"
| "retryable_loop (Suc fuel) cmd execute select attempt allowed_retries sd ds s =
     bind_res (execute s) (\<lambda>(r, s).
     bind_res (retry_class (rt_eligibility cmd) r) (\<lambda>(is_overload, is_retryable).
       if \<not> is_retryable then Inr (r, s)
       else
         let attempt = attempt + 1;
             allowed_retries = (if is_overload then rt_max_adaptive cmd else allowed_retries)
         in if attempt > allowed_retries then Inr (r, s)
            else
              bind_res (if sd_type sd = MONGOC_SERVER_MONGOS \<or> is_overload \<and> rt_retargeting cmd
                        then deprioritized_add ds sd else Inr ds) (\<lambda>ds.
              bind_res (select ds s) (\<lambda>(sd', s). case sd' of
                  None \<Rightarrow> Inr (r, s)
                | Some sd \<Rightarrow> retryable_loop fuel cmd execute select attempt allowed_retries sd ds s))))"

definition retryable_cmd_run ::
    "retryable_cmd \<Rightarrow> ('s \<Rightarrow> (cmd_result \<times> 's) res) \<Rightarrow> (deprioritized \<Rightarrow> 's \<Rightarrow> (server_desc option \<times> 's) res) \<Rightarrow> 's
      \<Rightarrow> (cmd_result \<times> 's) res" where
  "retryable_cmd_run cmd execute select s =
     retryable_loop (nat (max 1 (rt_max_adaptive cmd)) + 1) cmd execute select 0
       (if rt_eligibility cmd = MONGOC_RETRY_ELIGIBILITY_OVERLOAD_ONLY then 0 else 1) (rt_initial cmd) deprioritized_new s"

end
