(* ===== verification/CmdSafe.thy ===== *)
theory CmdSafe
  imports TopoHello Retry
begin

text \<open>
  Safety of the code of commands: rules for \<open>safe Q r\<close>, which says that \<open>r\<close> is a value with \<open>Q\<close> or one of the faults
  that the code can reach on a bad reply or a bad option: an assertion, a conversion of a \<open>double\<close> out of range, an overflow
  of signed arithmetic, a read through \<open>NULL\<close> or a variable that was not set. A read outside the buffers and a loop
  that does not end are not among them. The rules follow the code backwards, from what must hold at the end.
\<close>

definition cmd_faults :: "fault set" where
  "cmd_faults = {AssertFail, BadCast, Overflow, NullDeref, Uninit}"

abbreviation "safe \<equiv> returns cmd_faults"

lemma cmd_faults_simps [simp]:
  "AssertFail \<in> cmd_faults" "BadCast \<in> cmd_faults" "Overflow \<in> cmd_faults" "NullDeref \<in> cmd_faults" "Uninit \<in> cmd_faults"
  "OutOfBounds \<notin> cmd_faults" "NoFuel \<notin> cmd_faults"
  by (simp_all add: cmd_faults_def)

named_theorems safe_intro \<open>rules for safe, backwards along the code\<close>

section \<open>Combinators\<close>

lemma safe_bind [safe_intro]: "safe (\<lambda>x. safe Q (f x)) m \<Longrightarrow> safe Q (bind_res m f)"
  by (cases m) auto

lemma safe_map [safe_intro]: "safe (\<lambda>x. Q (f x)) m \<Longrightarrow> safe Q (map_res f m)"
  by (cases m) auto

lemma safe_if [safe_intro]: "(b \<Longrightarrow> safe Q r) \<Longrightarrow> (\<not> b \<Longrightarrow> safe Q r') \<Longrightarrow> safe Q (if b then r else r')"
  by simp

lemma safe_case_prod [safe_intro]: "(\<And>a b. p = (a, b) \<Longrightarrow> safe Q (f a b)) \<Longrightarrow> safe Q (case p of (a, b) \<Rightarrow> f a b)"
  by (cases p) auto

lemma safe_case_option [safe_intro]:
  "(i = None \<Longrightarrow> safe Q r) \<Longrightarrow> (\<And>x. i = Some x \<Longrightarrow> safe Q (f x)) \<Longrightarrow> safe Q (case i of None \<Rightarrow> r | Some x \<Rightarrow> f x)"
  by (cases i) auto

lemma safe_Let [safe_intro]: "(\<And>y. y = x \<Longrightarrow> safe Q (f y)) \<Longrightarrow> safe Q (let y = x in f y)"
  by simp

lemma safe_assert [safe_intro]: "(b \<Longrightarrow> Q ()) \<Longrightarrow> safe Q (c_assert b)"
  by (cases b) auto

lemma safe_deref [safe_intro]: "(\<And>x. p = Some x \<Longrightarrow> Q x) \<Longrightarrow> safe Q (deref p)"
  by (cases p) auto

lemma safe_Inr [safe_intro]: "Q x \<Longrightarrow> safe Q (Inr x)"
  by simp

lemma safe_Inl [safe_intro]: "e \<in> cmd_faults \<Longrightarrow> safe Q (Inl e)"
  by simp

lemma safe_chk64 [safe_intro]: "(int64_range x \<Longrightarrow> Q x) \<Longrightarrow> safe Q (chk64 x)"
  by (simp add: chk64_def)

lemma safe_mono: "safe P r \<Longrightarrow> (\<And>x. P x \<Longrightarrow> Q x) \<Longrightarrow> safe Q r"
  by (erule returns_mono) auto

lemma returns_safe: "returns {} P r \<Longrightarrow> (\<And>x. P x \<Longrightarrow> Q x) \<Longrightarrow> safe Q r"
  by (erule returns_mono) auto

lemma safeD: "safe Q r \<Longrightarrow> r = Inr x \<Longrightarrow> Q x"
  by simp

section \<open>Iterators\<close>

text \<open>The iterator stands on an element, of one of the types \<open>ts\<close>.\<close>

definition standing :: "bson_iter \<Rightarrow> bool" where
  "standing it \<longleftrightarrow> (\<exists>data t. on_element data t it)"

definition standing_at :: "bson_type list \<Rightarrow> bson_iter \<Rightarrow> bool" where
  "standing_at ts it \<longleftrightarrow> (\<exists>data t. on_element data t it \<and> t \<in> set ts)"

lemma standing_at_standing: "standing_at ts it \<Longrightarrow> standing it"
  by (auto simp: standing_def standing_at_def)

lemma standingI: "on_element data t it \<Longrightarrow> standing it"
  by (auto simp: standing_def)

lemma safe_key_of [safe_intro]:
  assumes "standing it" and "\<And>k. 0 \<notin> set k \<Longrightarrow> Q k"
  shows "safe Q (key_of it)"
proof -
  obtain data t where el: "on_element data t it" using assms(1) by (auto simp: standing_def)
  show ?thesis using key_returns [OF el] on_element_key(4) [OF el] assms(2) by (simp add: key_of_def)
qed

lemma safe_iter_type [safe_intro]:
  assumes "standing it" and "\<And>t. standing_at [t] it \<Longrightarrow> Q (type_byte t)"
  shows "safe Q (bson_iter_type it)" and "safe Q (ITER_TYPE it)"
proof -
  obtain data t where el: "on_element data t it" using assms(1) by (auto simp: standing_def)
  then have "standing_at [t] it" by (auto simp: standing_at_def)
  then show "safe Q (bson_iter_type it)" "safe Q (ITER_TYPE it)"
    using accessors_return(7) [OF el] on_element_type [OF el] assms(2) by simp_all
qed

lemma safe_holds_type [safe_intro]:
  assumes "standing it" and "\<And>b. (b \<Longrightarrow> standing_at ts it) \<Longrightarrow> Q b"
  shows "safe Q (holds_type it ts)"
  unfolding holds_type_def
proof (rule safe_map, rule safe_iter_type(1) [OF assms(1)], rule assms(2))
  fix t
  assume "standing_at [t] it" and "type_byte t \<in> set (map type_byte ts)"
  then show "standing_at ts it" by (simp add: standing_at_def image_iff) blast
qed

lemma safe_accessors [safe_intro]:
  assumes "standing it"
  shows "(\<And>x. Q x) \<Longrightarrow> safe Q (bson_iter_bool it)" "(\<And>x. R x) \<Longrightarrow> safe R (bson_iter_int32 it)"
    "(\<And>x. S x) \<Longrightarrow> safe S (bson_iter_int64 it)" "(\<And>x. Q x) \<Longrightarrow> safe Q (bson_iter_as_bool it)"
    "(\<And>x. T x) \<Longrightarrow> safe T (bson_iter_as_int64 it)" "(\<And>x. U x) \<Longrightarrow> safe U (bson_iter_timestamp it)"
    "(\<And>x. V x) \<Longrightarrow> safe V (utf8_ptr it)" "(\<And>x. W x) \<Longrightarrow> safe W (str_of it)"
proof -
  obtain data t where el: "on_element data t it" using assms by (auto simp: standing_def)
  show "(\<And>x. Q x) \<Longrightarrow> safe Q (bson_iter_bool it)" "(\<And>x. R x) \<Longrightarrow> safe R (bson_iter_int32 it)"
    "(\<And>x. Q x) \<Longrightarrow> safe Q (bson_iter_as_bool it)"
    by (rule element_returns [OF el], simp)+
  show "(\<And>x. S x) \<Longrightarrow> safe S (bson_iter_int64 it)" using accessors_return(3) [OF el] by auto
  show "(\<And>x. T x) \<Longrightarrow> safe T (bson_iter_as_int64 it)" by (rule as_int64_returns [OF el]) simp_all
  show "(\<And>x. U x) \<Longrightarrow> safe U (bson_iter_timestamp it)"
    using timestamp_returns [of it cmd_faults] el by (blast intro: safe_mono)
  show v: "(\<And>x. V x) \<Longrightarrow> safe V (utf8_ptr it)" for V by (rule utf8_ptr_returns [OF el])
  show "(\<And>x. W x) \<Longrightarrow> safe W (str_of it)" unfolding str_of_def by (intro safe_bind v safe_deref)
qed

definition nested_ok :: "nat \<times> byte list option \<Rightarrow> bool" where
  "nested_ok p \<longleftrightarrow> (case snd p of None \<Rightarrow> True | Some bytes \<Rightarrow> fst p \<le> length bytes)"

lemma safe_document [safe_intro]:
  assumes "standing it" and "\<And>p. nested_ok p \<Longrightarrow> Q p"
  shows "safe Q (bson_iter_document it)"
proof -
  obtain data t where el: "on_element data t it" using assms(1) by (auto simp: standing_def)
  show ?thesis
  proof (cases "t = BSON_TYPE_DOCUMENT")
    case True
    with container_returns [OF el] show ?thesis using assms(2) by (auto simp: nested_ok_def)
  next
    case False
    then show ?thesis using on_element_type [OF el] assms(2) by (simp add: bson_iter_document_def nested_ok_def)
  qed
qed

lemma safe_static_doc [safe_intro]: "nested_ok p \<Longrightarrow> (\<And>d. doc_ok d \<Longrightarrow> Q d) \<Longrightarrow> safe Q (static_doc p)"
  by (cases p; cases "snd p") (auto simp: nested_ok_def static_doc_def [of "(_, None)"] intro: static_doc_returns)

lemma safe_recurse [safe_intro]:
  assumes "standing it" and "\<And>c. (\<And>child. c = Some child \<Longrightarrow> iter_ok child) \<Longrightarrow> Q c"
  shows "safe Q (bson_iter_recurse it)"
proof -
  obtain data t where el: "on_element data t it" using assms(1) by (auto simp: standing_def)
  show ?thesis
  proof (cases "t = BSON_TYPE_DOCUMENT \<or> t = BSON_TYPE_ARRAY")
    case True
    show ?thesis
      unfolding bson_iter_recurse_ok(1) [OF el True] using bson_iter_recurse_ok(3) [OF el True]
      by (intro safe_Inr assms(2)) simp
  next
    case False
    then have none: "bson_iter_recurse it = Inr None" using on_element_type [OF el] by (simp add: bson_iter_recurse_def Let_def)
    show ?thesis unfolding none by (intro safe_Inr assms(2)) simp
  qed
qed

lemma safe_recursed [safe_intro]: "standing it \<Longrightarrow> (\<And>c. iter_ok c \<Longrightarrow> Q c) \<Longrightarrow> safe Q (recursed it)"
  unfolding recursed_def by (intro safe_intro) auto

text \<open>An iterator that may have to stand on an element.\<close>

definition found_ok :: "bool \<times> bson_iter \<Rightarrow> bool" where
  "found_ok r \<longleftrightarrow> (fst r \<longrightarrow> standing (snd r))"

lemma found_okD: "found_ok (found, it) \<Longrightarrow> found \<Longrightarrow> standing it"
  by (simp add: found_ok_def)

lemma safe_next:
  assumes "iter_ok it" and "\<And>r. found_ok r \<Longrightarrow> Q r"
  shows "safe Q (bson_iter_next it)"
proof -
  have "\<exists>r. bson_iter_next it = Inr r \<and> found_ok r"
    using bson_iter_next_cases [OF assms(1)]
    by (elim disjE exE conjE) (auto simp: found_ok_def intro: standingI)
  with assms(2) show ?thesis by auto
qed

lemma safe_find [safe_intro]:
  assumes "iter_ok it" and "0 \<notin> set k" and "\<And>r. found_ok r \<Longrightarrow> Q r"
  shows "safe Q (bson_iter_find it (k @ [0]))"
proof (cases "it_raw it")
  case None
  then have "bson_iter_find it (k @ [0]) = Inr (False, it)"
    using assms(2) by (simp add: bson_iter_find_def bson_iter_find_w_len_def bson_iter_next_def bson_iter_next_internal_def)
  then show ?thesis using assms(3) by (simp add: found_ok_def)
next
  case (Some data)
  show ?thesis
    by (rule returns_safe [OF find_child_returns [OF assms(1) Some assms(2)]], rule assms(3))
      (auto simp: found_ok_def standing_def split: prod.splits)
qed

lemma safe_init_find [safe_intro]:
  assumes "doc_ok d" and "0 \<notin> set k" and "\<And>r. found_ok r \<Longrightarrow> Q r"
  shows "safe Q (bson_iter_init_find (fst d) (snd d) (k @ [0]))"
  using assms by (auto simp: bson_iter_init_find_def bson_iter_init_def found_ok_def doc_ok_def intro!: safe_find iter_ok_start)

definition typed_opt :: "bson_type list \<Rightarrow> bson_iter option \<Rightarrow> bool" where
  "typed_opt ts i \<longleftrightarrow> (case i of None \<Rightarrow> True | Some it \<Rightarrow> standing_at ts it)"

lemma safe_find_typed [safe_intro]:
  assumes "doc_ok d" and "0 \<notin> set k" and "\<And>i. typed_opt ts i \<Longrightarrow> Q i"
  shows "safe Q (find_typed d k ts)"
  by (rule safe_mono [OF find_typed_returns [OF doc_ok_readable [OF assms(1)] assms(2)]], rule assms(3))
    (auto simp: typed_opt_def standing_at_def split: option.splits)

lemma typed_optD: "typed_opt ts (Some it) \<Longrightarrow> standing it"
  by (auto simp: typed_opt_def standing_at_def standing_def)

lemma safe_bson_empty [safe_intro]:
  assumes "doc_ok d" and "\<And>x. Q x"
  shows "safe Q (bson_empty (fst d) (snd d))" and "safe Q (doc_is_empty d)"
proof -
  show e: "safe Q (bson_empty (fst d) (snd d))" by (rule safe_mono [OF bson_empty_returns [OF assms(1)]]) (rule assms(2))
  then show "safe Q (doc_is_empty d)" by (simp add: doc_is_empty_def)
qed

lemma str_nonzero [simp]: "0 \<notin> set (str s) \<longleftrightarrow> (\<forall>c\<in>set s. of_char c \<noteq> (0 :: byte))"
  by (auto simp: str_def)

section \<open>Loops\<close>

text \<open>
  A loop over an iterator: \<open>body\<close> is what it does on an element, where \<open>again\<close> is the rest of the loop. It has enough fuel
  when the fuel is more than what is left of the buffer.
\<close>

lemma safe_loop:
  assumes "iter_ok it" and "rounds it < fuel" and "I s"
    and loop: "\<And>fuel it s. loop (Suc fuel) it s = bind_res (bson_iter_next it) (\<lambda>(ok, it).
      if \<not> ok then stop s else body it s (loop fuel it))"
    and stop: "\<And>s. I s \<Longrightarrow> safe Q (stop s)"
    and body: "\<And>it s again. standing it \<Longrightarrow> I s \<Longrightarrow> (\<And>s. I s \<Longrightarrow> safe Q (again s)) \<Longrightarrow> safe Q (body it s again)"
  shows "safe Q (loop fuel it s)"
  using assms(1-3)
proof (induction arbitrary: fuel s rule: iter_induct)
  case (stop it it')
  then obtain f where "fuel = Suc f" by (cases fuel) auto
  with stop assms(5) show ?case by (simp add: loop)
next
  case (step it it' data t)
  then obtain f where f: "fuel = Suc f" by (cases fuel) auto
  then have "rounds it' < f" using step.prems(1) step.hyps(6) by linarith
  then have "safe Q (body it' s (loop f it'))"
    using step.prems(2) by (intro body standingI [OF step.hyps(4)] step.IH)
  with step.hyps(2) show ?case by (simp add: f loop)
qed

text \<open>The servers to avoid: the array has a place for another one, or grows.\<close>

definition has_room :: "deprioritized \<Rightarrow> bool" where
  "has_room ds \<longleftrightarrow> 0 < items_allocated ds \<and> length (items ds) \<le> items_allocated ds"

lemma has_room_new [simp]: "has_room deprioritized_new"
  by (simp add: has_room_def deprioritized_new_def mongoc_set_new_def)

lemma rounds_fuel: "rounds it < Suc (it_len it)"
  by (simp add: rounds_def)

lemma safe_deprioritized_add [safe_intro]:
  assumes "has_room ds" and "\<And>ds. has_room ds \<Longrightarrow> Q ds"
  shows "safe Q (deprioritized_add ds sd)"
  using assms by (auto simp: deprioritized_add_def mongoc_set_add_def has_room_def Let_def)

lemma doc_ok_start:
  assumes "doc_ok d"
  shows "iter_ok (iter_start (fst d) (snd d))" and "rounds (iter_start (fst d) (snd d)) < Suc (snd d)"
    and "bson_iter_init (fst d) (snd d) = (True, iter_start (fst d) (snd d))"
proof -
  show "iter_ok (iter_start (fst d) (snd d))" using assms by (intro iter_ok_start) (simp_all add: doc_ok_def)
  show "rounds (iter_start (fst d) (snd d)) < Suc (snd d)" by (simp add: rounds_def iter_start_def)
  show "bson_iter_init (fst d) (snd d) = (True, iter_start (fst d) (snd d))"
    using assms by (simp add: doc_ok_def bson_iter_init_def)
qed

end
