(* ===== verification/ReplySafe.thy ===== *)
theory ReplySafe
  imports CmdSafe
begin

text \<open>
  Safety of what reads a reply: its error, its labels, and the copies that the client makes of it with other labels. A
  document that the client builds has a body of at most \<open>BSON_MAX_SIZE - 5\<close> bytes, since every append checks the size.
\<close>

section \<open>Bodies\<close>

definition body_ok :: "body \<Rightarrow> bool" where
  "body_ok b \<longleftrightarrow> length b + 5 \<le> BSON_MAX_SIZE"

lemma body_ok_Nil [simp]: "body_ok []"
  by (simp add: body_ok_def BSON_MAX_SIZE_def)

lemma body_ok_append_to [simp]: "body_ok b \<Longrightarrow> body_ok (snd (append_to b bs))"
  by (simp add: body_ok_def append_to_def)

lemma body_ok_append_e [simp]: "body_ok b \<Longrightarrow> body_ok (snd (append_e b e))"
  by (simp add: append_e_def)

lemma body_ok_append_eD: "append_e b e = (ok, b') \<Longrightarrow> body_ok b \<Longrightarrow> body_ok b'"
  using body_ok_append_e [of b e] by simp

lemma doc_ok_body [simp]: "body_ok b \<Longrightarrow> doc_ok (body_doc b)"
  by (simp add: body_ok_def doc_ok_def body_doc_def doc_bytes_def BSON_MAX_SIZE_def INT_MAX_def)

lemma body_ok_label_append [simp]: "body_ok (snd a) \<Longrightarrow> body_ok (snd (label_append a s))"
  by (auto simp: label_append_def dest: body_ok_append_eD split: prod.splits)

lemma body_ok_labels [simp]: "body_ok (snd a) \<Longrightarrow> body_ok (snd (foldl label_append a ls))"
  by (induction ls arbitrary: a) simp_all

lemma safe_concat_doc [safe_intro]:
  assumes "doc_ok d" and "body_ok b" and "\<And>r. body_ok (snd r) \<Longrightarrow> Q r"
  shows "safe Q (concat_doc b d)"
  unfolding concat_doc_def using assms by (intro safe_intro) auto

lemma safe_append_iter_to [safe_intro]:
  assumes "body_ok b" and "\<And>r. body_ok (snd r) \<Longrightarrow> Q r"
  shows "safe Q (append_iter_to b it)"
  unfolding append_iter_to_def using assms by (intro safe_intro) auto

lemma safe_copy_doc_excluding [safe_intro]:
  assumes d: "doc_ok d" and b: "body_ok b" and Q: "\<And>b. body_ok b \<Longrightarrow> Q b"
  shows "safe Q (copy_doc_excluding names d b)"
proof -
  have "safe Q (copy_excluding (Suc (snd d)) names (iter_start (fst d) (snd d)) b)"
  proof (rule safe_loop [OF doc_ok_start(1,2) [OF d], where loop = "\<lambda>f it b. copy_excluding f names it b" and I = body_ok])
    show "copy_excluding (Suc fuel) names it s = bind_res (bson_iter_next it) (\<lambda>(ok, it).
       if \<not> ok then Inr s else bind_res (key_of it) (\<lambda>key.
         if key \<in> set names then copy_excluding fuel names it s
         else bind_res (append_iter_to s it) (\<lambda>(ok, dst). bind_res (c_assert ok) (\<lambda>_. copy_excluding fuel names it dst))))"
      for fuel it s by simp
  qed (use b Q in \<open>auto intro!: safe_intro\<close>)
  then show ?thesis by (simp add: copy_doc_excluding_def doc_ok_start(3) [OF d])
qed

section \<open>Labels\<close>

lemma safe_label_loop:
  assumes "iter_ok it" and "\<And>x. Q x"
  shows "safe Q (label_loop (Suc (it_len it)) it label)"
  by (rule safe_loop [OF assms(1) rounds_fuel, where loop = "\<lambda>f it (_ :: unit). label_loop f it label" and I = "\<lambda>_. True" and s = "()"
      and body = "\<lambda>it s again. bind_res (bson_iter_type it) (\<lambda>ty.
           if ty = type_byte BSON_TYPE_UTF8 then
             bind_res (bind_res (utf8_ptr it) deref) (\<lambda>s. if s = label then Inr True else again ())
           else again ())"])
    (auto intro!: safe_intro assms(2))

lemma safe_has_label [safe_intro]:
  assumes "doc_ok d" and "\<And>x. Q x"
  shows "safe Q (mongoc_error_has_label d label)"
  unfolding mongoc_error_has_label_def
  using assms by (intro safe_intro safe_label_loop) (auto dest: found_okD)

lemma safe_upsert_loop:
  assumes "iter_ok it" and "body_ok (snd a)" and "\<And>a. body_ok (snd a) \<Longrightarrow> Q a"
  shows "safe Q (upsert_loop (Suc (it_len it)) it label a)"
  by (rule safe_loop [OF assms(1) rounds_fuel, where loop = "\<lambda>f it a. upsert_loop f it label a" and I = "\<lambda>a. body_ok (snd a)"])
    (use assms(2,3) in \<open>(simp | intro safe_intro)+\<close>)

lemma safe_copy_labels_and_upsert [safe_intro]:
  assumes "doc_ok src" and "body_ok dst" and "\<And>b. body_ok b \<Longrightarrow> Q b"
  shows "safe Q (copy_labels_and_upsert src dst label)"
  unfolding copy_labels_and_upsert_def
  using assms by (intro safe_intro safe_upsert_loop) (auto dest: found_okD)

lemma safe_append_retryable_label [safe_intro]:
  "doc_ok d \<Longrightarrow> (\<And>d. doc_ok d \<Longrightarrow> Q d) \<Longrightarrow> safe Q (append_retryable_label d)"
  unfolding append_retryable_label_def by (intro safe_intro) auto

lemma safe_copy_labels_loop:
  assumes "iter_ok it" and "\<And>ls. Q ls"
  shows "safe Q (copy_labels_loop (Suc (it_len it)) it ls)"
  by (rule safe_loop [OF assms(1) rounds_fuel, where loop = copy_labels_loop and I = "\<lambda>_. True"])
    (auto intro!: safe_intro assms(2))

lemma safe_add_error_label [safe_intro]:
  assumes "doc_ok d" and "\<And>d. doc_ok d \<Longrightarrow> Q d"
  shows "safe Q (add_error_label d label)"
  unfolding add_error_label_def
  using assms by (intro safe_intro safe_copy_labels_loop) (auto dest: found_okD)

lemma safe_add_transient_txn_error [safe_intro]:
  "doc_ok d \<Longrightarrow> (\<And>d. doc_ok d \<Longrightarrow> Q d) \<Longrightarrow> safe Q (add_transient_txn_error cs d)"
  unfolding add_transient_txn_error_def by (intro safe_intro) auto

section \<open>Errors\<close>

lemma safe_find_in [safe_intro]:
  assumes "iter_ok it" and "0 \<notin> set k" and "\<And>i. typed_opt ts i \<Longrightarrow> Q i"
  shows "safe Q (find_in it k ts)"
  unfolding find_in_def
proof (intro safe_intro)
  fix found it' t
  assume "standing_at [t] it'"
  then have "t \<in> set ts \<Longrightarrow> standing_at ts it'" by (simp add: standing_at_def) blast
  then show "Q (if type_byte t \<in> set (map type_byte ts) then Some it' else None)"
    by (intro assms(3)) (auto simp: typed_opt_def)
qed (use assms in \<open>auto simp: typed_opt_def dest: found_okD\<close>)

lemma safe_found [safe_intro]:
  assumes "typed_opt ts i"
  shows "(\<And>st. Q st) \<Longrightarrow> safe Q (found_code i st)" and "(\<And>st. R st) \<Longrightarrow> safe R (found_message i st)"
  unfolding found_code_def found_message_def read_code_def
  using assms by (intro safe_intro; auto dest: typed_optD)+

lemma safe_parse_error_reply [safe_intro]:
  assumes "doc_ok d" and "\<And>st. Q st"
  shows "safe Q (parse_error_reply d check_wce)"
  unfolding parse_error_reply_def
  using assms by (intro safe_intro) (auto dest: typed_optD)

lemma safe_cmd_check_ok [safe_intro]:
  assumes "doc_ok d" and "\<And>e. Q e"
  shows "safe Q (cmd_check_ok d v)" and "safe Q (cmd_check_ok_no_wce d v)"
  unfolding cmd_check_ok_def cmd_check_ok_no_wce_def
  using assms by (intro safe_intro; auto dest: found_okD)+

lemma safe_error_types [safe_intro]:
  assumes "doc_ok d"
  shows "(\<And>t. Q t) \<Longrightarrow> safe Q (read_error_get_type ret err d)" and "(\<And>t. R t) \<Longrightarrow> safe R (write_error_get_type d)"
    and "(\<And>t. S t) \<Longrightarrow> safe S (write_error_handle_labels ret err d sd)"
  unfolding read_error_get_type_def write_error_get_type_def write_error_handle_labels_def
  using assms by (intro safe_intro; auto)+

lemma safe_apply_retryable_label [safe_intro]:
  "doc_ok d \<Longrightarrow> (\<And>d. doc_ok d \<Longrightarrow> Q d) \<Longrightarrow> safe Q (apply_retryable_label ret err d sd)"
  unfolding apply_retryable_label_def by (intro safe_intro) auto

lemma safe_update_if_unsupported_engine [safe_intro]:
  "doc_ok d \<Longrightarrow> (\<And>r. doc_ok (snd r) \<Longrightarrow> Q r) \<Longrightarrow> safe Q (update_if_unsupported_engine ret err d)"
  unfolding update_if_unsupported_engine_def by (intro safe_intro) auto

lemma safe_retry_class [safe_intro]:
  assumes "doc_ok (snd (snd r))" and "\<And>x. Q x"
  shows "safe Q (retry_class el r)"
  unfolding retry_class_def
  using assms by (intro safe_intro) auto

end
