(* ===== verification/SessionSafe.thy ===== *)
theory SessionSafe
  imports ReplySafe
begin

text \<open>
  Safety of sessions: the documents and concerns that a session holds stay well formed, and what a command may change
  in a session: its transaction moves only forward, the times it has seen do not go back, and its identity and options stay.
\<close>

section \<open>Well formed data\<close>

definition wc_ok :: "write_concern \<Rightarrow> bool" where
  "wc_ok wc \<longleftrightarrow> body_ok (wc_compiled wc)"

definition rc_ok :: "read_concern \<Rightarrow> bool" where
  "rc_ok rc \<longleftrightarrow> body_ok (rc_compiled rc)"

definition prefs_docs_ok :: "read_prefs \<Rightarrow> bool" where
  "prefs_docs_ok p \<longleftrightarrow> doc_ok (rp_tags p) \<and> doc_ok (rp_hedge p)"

definition opt_ok :: "('a \<Rightarrow> bool) \<Rightarrow> 'a option \<Rightarrow> bool" where
  "opt_ok P x \<longleftrightarrow> (case x of None \<Rightarrow> True | Some x \<Rightarrow> P x)"

lemma opt_ok_simps [simp]: "opt_ok P None" "opt_ok P (Some x) = P x"
  by (simp_all add: opt_ok_def)

lemma opt_okD: "opt_ok P x \<Longrightarrow> x = Some y \<Longrightarrow> P y"
  by simp

definition txn_opts_ok :: "txn_opts \<Rightarrow> bool" where
  "txn_opts_ok t \<longleftrightarrow> opt_ok rc_ok (to_read_concern t) \<and> opt_ok wc_ok (to_write_concern t) \<and> opt_ok prefs_docs_ok (to_read_prefs t)"

definition session_ok :: "session \<Rightarrow> bool" where
  "session_ok s \<longleftrightarrow> doc_ok (cs_cluster_time s) \<and> opt_ok doc_ok (cs_token s) \<and> txn_opts_ok (cs_txn_opts s)
     \<and> txn_opts_ok (so_default_txn (cs_opts s)) \<and> body_ok (ss_lsid (cs_server_session s))"

section \<open>Concerns\<close>

lemma wc_ok_new [simp]: "wc_ok write_concern_new"
  by (simp add: wc_ok_def write_concern_new_def)

lemma wc_ok_setters [simp]:
  "wc_ok (wc_set_journal wc j) = wc_ok wc" "wc_ok (wc_set_wtimeout wc t) = wc_ok wc" "wc_ok (wc_set_wtag wc tag) = wc_ok wc"
  by (simp_all add: wc_ok_def wc_set_journal_def wc_set_wtimeout_def wc_set_wtag_def)

lemma wc_ok_copy [simp]: "opt_ok wc_ok (write_concern_copy wc)"
  by (cases wc) (simp_all add: write_concern_copy_def wc_ok_def write_concern_new_def)

lemma rc_ok_copy [simp]: "opt_ok rc_ok (read_concern_copy rc)"
  by (cases rc) (simp_all add: read_concern_copy_def rc_ok_def read_concern_new_def)

lemma safe_wc_set_w [safe_intro]: "wc_ok wc \<Longrightarrow> (\<And>wc. wc_ok wc \<Longrightarrow> Q wc) \<Longrightarrow> safe Q (wc_set_w wc w)"
  unfolding wc_set_w_def by (intro safe_intro) (simp add: wc_ok_def)

lemma safe_wc_freeze [safe_intro]: "(\<And>wc. wc_ok wc \<Longrightarrow> Q wc) \<Longrightarrow> safe Q (wc_freeze wc)"
  unfolding wc_freeze_def by (intro safe_intro) (auto simp: wc_ok_def)

lemma safe_wc_get_bson [safe_intro]:
  "wc_ok wc \<Longrightarrow> (\<And>r. body_ok (fst r) \<Longrightarrow> wc_ok (snd r) \<Longrightarrow> Q r) \<Longrightarrow> safe Q (wc_get_bson wc)"
  unfolding wc_get_bson_def by (intro safe_intro) (auto simp: wc_ok_def)

lemma safe_wc_append [safe_intro]:
  assumes "wc_ok wc" and "body_ok b" and "\<And>r. body_ok (fst (snd r)) \<Longrightarrow> wc_ok (snd (snd r)) \<Longrightarrow> Q r"
  shows "safe Q (wc_append wc b)"
  unfolding wc_append_def
  using assms by (intro safe_intro) (auto split: prod.splits dest: body_ok_append_eD)

lemma safe_wc_field [safe_intro]:
  assumes "standing it" and "wc_ok wc" and "\<And>r. opt_ok wc_ok r \<Longrightarrow> Q r"
  shows "safe Q (wc_field key it wc)"
  unfolding wc_field_def
  using assms by (intro safe_intro) auto

lemma safe_wc_from_iter [safe_intro]:
  assumes "standing it" and Q: "\<And>r. opt_ok wc_ok r \<Longrightarrow> Q r"
  shows "safe Q (wc_from_iter it)"
proof -
  have loop: "safe Q' (wc_loop (Suc (it_len c)) c write_concern_new)" if "iter_ok c" "\<And>r. opt_ok wc_ok r \<Longrightarrow> Q' r" for c Q'
    by (rule safe_loop [OF that(1) rounds_fuel, where loop = wc_loop and I = wc_ok])
      (use that(2) in \<open>auto intro!: safe_intro\<close>)
  show ?thesis
    unfolding wc_from_iter_def
    using assms(1) by (intro safe_intro loop) (auto intro!: Q split: option.splits)
qed

lemma safe_parse_wc_err [safe_intro]:
  assumes "doc_ok d" and "\<And>r. Q r"
  shows "safe Q (parse_wc_err d)"
proof -
  have loop: "safe Q' (wc_err_loop (Suc (it_len c)) c st)" if "iter_ok c" "\<And>r. Q' r" for c Q' st
    by (rule safe_loop [OF that(1) rounds_fuel, where loop = wc_err_loop and I = "\<lambda>_. True"])
      (use that(2) in \<open>auto intro!: safe_intro\<close>)
  show ?thesis
    unfolding parse_wc_err_def
    using assms by (intro safe_intro loop) (auto dest: typed_optD)
qed

lemma rc_get_bson_ok [simp]: "rc_ok rc \<Longrightarrow> body_ok (fst (rc_get_bson rc))"
  by (simp add: rc_get_bson_def rc_freeze_def rc_ok_def Let_def split: option.splits)

section \<open>What a command may change in a session\<close>

text \<open>A command moves a transaction from its start to its progress, and a finished one out of the way.\<close>

definition txn_next :: "txn_state \<Rightarrow> txn_state \<Rightarrow> bool" where
  "txn_next st st' \<longleftrightarrow> st' = st
     \<or> st = MONGOC_INTERNAL_TRANSACTION_STARTING \<and> st' = MONGOC_INTERNAL_TRANSACTION_IN_PROGRESS
     \<or> st \<in> {MONGOC_INTERNAL_TRANSACTION_COMMITTED, MONGOC_INTERNAL_TRANSACTION_COMMITTED_EMPTY, MONGOC_INTERNAL_TRANSACTION_ABORTED}
       \<and> st' = MONGOC_INTERNAL_TRANSACTION_NONE"

lemma txn_next_trans: "txn_next a b \<Longrightarrow> txn_next b c \<Longrightarrow> txn_next a c"
  by (auto simp: txn_next_def)

definition time_le :: "32 word \<times> 32 word \<Rightarrow> 32 word \<times> 32 word \<Rightarrow> bool" where
  "time_le a b \<longleftrightarrow> fst a < fst b \<or> fst a = fst b \<and> snd a \<le> snd b"

lemma time_le_trans: "time_le a b \<Longrightarrow> time_le b c \<Longrightarrow> time_le a c"
  by (auto simp: time_le_def)

definition operation_time :: "session \<Rightarrow> 32 word \<times> 32 word" where
  "operation_time s = (cs_op_t s, cs_op_i s)"

definition snapshot_time :: "session \<Rightarrow> (32 word \<times> 32 word) option" where
  "snapshot_time s = (if cs_snap_set s then Some (cs_snap_t s, cs_snap_i s) else None)"

definition same_session :: "session \<Rightarrow> session \<Rightarrow> bool" where
  "same_session s s' \<longleftrightarrow> cs_opts s' = cs_opts s \<and> cs_session_id s' = cs_session_id s \<and> cs_fail_label s' = cs_fail_label s
     \<and> ss_lsid (cs_server_session s') = ss_lsid (cs_server_session s)
     \<and> ss_txn_number (cs_server_session s) \<le> ss_txn_number (cs_server_session s')
     \<and> time_le (operation_time s) (operation_time s')
     \<and> (snapshot_time s = None \<or> snapshot_time s' = snapshot_time s)"

definition session_le :: "session \<Rightarrow> session \<Rightarrow> bool" where
  "session_le s s' \<longleftrightarrow> same_session s s' \<and> txn_next (cs_txn_state s) (cs_txn_state s')"

lemma same_session_refl [simp]: "same_session s s"
  by (simp add: same_session_def time_le_def)

lemma same_session_trans: "same_session a b \<Longrightarrow> same_session b c \<Longrightarrow> same_session a c"
  using time_le_trans unfolding same_session_def by (metis (no_types, lifting) order_trans)

lemma session_le_refl [simp]: "session_le s s"
  by (simp add: session_le_def txn_next_def)

lemma session_le_trans: "session_le a b \<Longrightarrow> session_le b c \<Longrightarrow> session_le a c"
  unfolding session_le_def using txn_next_trans same_session_trans by blast

lemmas session_le_defs = session_le_def same_session_def txn_next_def time_le_def operation_time_def snapshot_time_def

definition later :: "session \<Rightarrow> session \<Rightarrow> bool" where
  "later s0 s \<longleftrightarrow> session_ok s \<and> session_le s0 s"

lemma laterD: "later s0 s \<Longrightarrow> session_ok s" "later s0 s \<Longrightarrow> session_le s0 s"
  by (simp_all add: later_def)

lemma later_trans: "later s0 s \<Longrightarrow> (session_ok s \<Longrightarrow> later s s') \<Longrightarrow> later s0 s'"
  by (auto simp: later_def intro: session_le_trans)

lemma later_refl: "session_ok s \<Longrightarrow> later s s"
  by (simp add: later_def)

text \<open>The small steps.\<close>

lemma later_steps:
  assumes "later s0 s"
  shows "later s0 (session_unpin s)" and "later s0 (session_pin s n)" and "later s0 (session_advance_operation_time s t i)"
    and "opt_ok doc_ok d \<Longrightarrow> later s0 (s\<lparr>cs_token := d\<rparr>)"
    and "later s0 (s\<lparr>cs_server_session := (cs_server_session s)\<lparr>ss_dirty := b\<rparr>\<rparr>)"
    and "later s0 (s\<lparr>cs_server_session := (cs_server_session s)\<lparr>ss_last_used := now\<rparr>\<rparr>)"
    and "ss_txn_number (cs_server_session s) \<le> m \<Longrightarrow> later s0 (s\<lparr>cs_server_session := (cs_server_session s)\<lparr>ss_txn_number := m\<rparr>\<rparr>)"
    and "doc_ok ct \<Longrightarrow> later s0 (s\<lparr>cs_cluster_time := ct\<rparr>)"
proof -
  have *: "later s s' \<Longrightarrow> later s0 s'" for s' using later_trans [OF assms] .
  note ok = laterD(1) [OF assms]
  note defs = later_def session_le_defs session_ok_def
  show "later s0 (session_unpin s)" "later s0 (session_pin s n)" "opt_ok doc_ok d \<Longrightarrow> later s0 (s\<lparr>cs_token := d\<rparr>)"
    "later s0 (s\<lparr>cs_server_session := (cs_server_session s)\<lparr>ss_dirty := b\<rparr>\<rparr>)"
    "later s0 (s\<lparr>cs_server_session := (cs_server_session s)\<lparr>ss_last_used := now\<rparr>\<rparr>)"
    "ss_txn_number (cs_server_session s) \<le> m \<Longrightarrow> later s0 (s\<lparr>cs_server_session := (cs_server_session s)\<lparr>ss_txn_number := m\<rparr>\<rparr>)"
    "doc_ok ct \<Longrightarrow> later s0 (s\<lparr>cs_cluster_time := ct\<rparr>)"
    using ok by (intro *; simp add: defs session_unpin_def session_pin_def)+
  show "later s0 (session_advance_operation_time s t i)"
    using ok by (intro *) (auto simp: defs session_advance_operation_time_def)
qed

lemma safe_set_snapshot_time [safe_intro]:
  assumes "later s0 s" and "\<And>s. later s0 s \<Longrightarrow> Q s"
  shows "safe Q (session_set_snapshot_time s t i)"
proof -
  have "later s (s\<lparr>cs_snap_set := True, cs_snap_t := t, cs_snap_i := i\<rparr>)" if "\<not> cs_snap_set s"
    using laterD(1) [OF assms(1)] that
    by (simp add: later_def session_le_defs session_ok_def)
  then show ?thesis
    unfolding session_set_snapshot_time_def by (intro safe_intro assms(2) later_trans [OF assms(1)]) simp
qed

lemma safe_cluster_time_greater [safe_intro]:
  "doc_ok a \<Longrightarrow> doc_ok b \<Longrightarrow> (\<And>x. Q x) \<Longrightarrow> safe Q (cluster_time_greater a b)"
  by (rule safe_mono [OF cluster_time_greater_returns]) auto

lemma safe_parse_cluster_time [safe_intro]: "doc_ok d \<Longrightarrow> (\<And>x. Q x) \<Longrightarrow> safe Q (parse_cluster_time d)"
  by (rule safe_mono [OF parse_cluster_time_returns]) auto

lemma safe_advance_cluster_time [safe_intro]:
  assumes "later s0 s" and "doc_ok d" and "\<And>s. later s0 s \<Longrightarrow> Q s"
  shows "safe Q (session_advance_cluster_time s d)"
proof -
  have "doc_ok (cs_cluster_time s)" using laterD(1) [OF assms(1)] by (simp add: session_ok_def)
  then show ?thesis
    unfolding session_advance_cluster_time_def
    using assms(1,2) by (intro safe_intro assms(3)) (auto intro!: assms(3) later_steps(8) doc_ok_take)
qed

section \<open>Replies\<close>

lemma safe_snapshot_loop:
  assumes "iter_ok it" and "later s0 s" and "\<And>s. later s0 s \<Longrightarrow> Q s"
  shows "safe Q (snapshot_loop (Suc (it_len it)) it s)"
  by (rule safe_loop [OF assms(1) rounds_fuel, where loop = snapshot_loop and I = "later s0"])
    (use assms(2,3) in \<open>auto intro!: safe_intro\<close>)

lemma safe_reply_field [safe_intro]:
  assumes "standing it" and "later s0 s" and "\<And>s. later s0 s \<Longrightarrow> Q s"
  shows "safe Q (reply_field ack is_find key it s)"
  unfolding reply_field_def
  using assms by (intro safe_intro safe_snapshot_loop) (auto intro: later_steps(3))

lemma safe_handle_reply [safe_intro]:
  assumes "later s0 s" and "opt_ok doc_ok reply" and "\<And>s. later s0 s \<Longrightarrow> Q s"
  shows "safe Q (session_handle_reply s ack name reply)"
proof -
  have loop: "safe Q (reply_loop (Suc (snd d)) ack is_find (iter_start (fst d) (snd d)) s)"
    if "doc_ok d" "later s0 s" for d is_find s
    by (rule safe_loop [OF doc_ok_start(1,2) [OF that(1)], where loop = "\<lambda>f it s. reply_loop f ack is_find it s" and I = "later s0"
          and body = "\<lambda>it s again. bind_res (key_of it) (\<lambda>key. bind_res (reply_field ack is_find key it s) again)"])
      (use that(2) assms(3) in \<open>auto intro!: safe_intro\<close>)
  show ?thesis
  proof (cases reply)
    case (Some d)
    then have d: "doc_ok d" using assms(2) by simp
    show ?thesis
      unfolding session_handle_reply_def Some option.case doc_ok_start(3) [OF d] prod.case Let_def simp_thms if_False
      using d assms(1) by (intro safe_intro loop) (auto intro: later_steps(1))
  qed (use assms in \<open>simp add: session_handle_reply_def\<close>)
qed

section \<open>Commands\<close>

lemma safe_get_command_name [safe_intro]:
  assumes "doc_ok d" and "\<And>x. Q x"
  shows "safe Q (get_command_name d)"
  unfolding get_command_name_def doc_ok_start(3) [OF assms(1)] prod.case simp_thms if_False
  using assms by (intro safe_intro safe_next doc_ok_start(1)) (auto simp: Let_def dest: found_okD typed_optD split: if_splits)

lemma body_ok_append_txn_fields [simp]: "body_ok b \<Longrightarrow> body_ok (append_txn_fields s b)"
  by (simp add: append_txn_fields_def)

lemma later_in_progress:
  "later s0 s \<Longrightarrow> cs_txn_state s = MONGOC_INTERNAL_TRANSACTION_STARTING \<Longrightarrow>
     later s0 (s\<lparr>cs_txn_state := MONGOC_INTERNAL_TRANSACTION_IN_PROGRESS\<rparr>)"
  by (erule later_trans) (simp add: later_def session_le_defs session_ok_def)

lemma later_reset:
  "later s0 s \<Longrightarrow> cs_txn_state s \<in> {MONGOC_INTERNAL_TRANSACTION_COMMITTED, MONGOC_INTERNAL_TRANSACTION_COMMITTED_EMPTY, MONGOC_INTERNAL_TRANSACTION_ABORTED}
     \<Longrightarrow> later s0 (reset_txn s)"
  by (erule later_trans) (auto simp: later_def session_le_defs session_ok_def
      reset_txn_def txn_opts_cleanup_def txn_opts_ok_def)

lemma safe_append_txn [safe_intro]:
  assumes "later s0 s" and "body_ok b" and "\<And>r. later s0 (fst (snd r)) \<Longrightarrow> body_ok (snd (snd r)) \<Longrightarrow> Q r"
  shows "safe Q (append_txn s b)"
proof -
  have name: "safe Q (bind_res (bind_res (get_command_name (body_doc b)) deref) f)" if "\<And>x. safe Q (f x)" for f
    using that doc_ok_body [OF assms(2)] by (intro safe_intro) auto
  show ?thesis
    unfolding append_txn_def
    using assms(1,2)
    by (intro safe_bind safe_bson_empty doc_ok_body safe_if)
      (auto intro!: assms(3) name later_in_progress later_reset simp: Let_def split: txn_state.splits)
qed

lemma safe_append_read_concern [safe_intro]:
  assumes "opt_ok doc_ok rc" and "body_ok b" and "\<And>b. body_ok b \<Longrightarrow> Q b"
  shows "safe Q (append_read_concern s rc is_read b)"
proof -
  have hf: "safe R (bson_has_field (fst d) (snd d) (str ''level''))" if "doc_ok d" "\<And>x. R x" for d R
    using safe_init_find [OF that(1), of "str ''level''"] that(2)
    by (auto simp: bson_has_field_def str_def dot_def intro!: safe_intro)
  show ?thesis
    unfolding append_read_concern_def
    using assms by (intro safe_intro hf) auto
qed

lemma safe_session_from_iter [safe_intro]:
  assumes "standing it" and "\<And>r. (\<And>c. r = Some c \<Longrightarrow> \<exists>i. lookup i = Some c) \<Longrightarrow> Q r"
  shows "safe Q (session_from_iter lookup it)"
  unfolding session_from_iter_def
  using assms by (intro safe_intro) auto

lemma body_ok_session_append: "session_append s b = (ok, b') \<Longrightarrow> body_ok b \<Longrightarrow> body_ok b'"
  unfolding session_append_def by (rule body_ok_append_eD)

lemma safe_session_get_cluster_time [safe_intro]:
  assumes "session_ok s" and "\<And>r. opt_ok doc_ok r \<Longrightarrow> Q r"
  shows "safe Q (session_get_cluster_time s)"
proof -
  have "doc_ok (cs_cluster_time s)" using assms(1) by (simp add: session_ok_def)
  then show ?thesis unfolding session_get_cluster_time_def using assms(2) by (intro safe_intro) auto
qed

end
