(* ===== verification/PartsSafe.thy ===== *)
theory PartsSafe
  imports SessionSafe
begin

text \<open>
  Safety of the assembly of a command: every document that it reads or sends is well formed, and its session is later than the
  session \<open>s0\<close> of the caller, if it is that session.
\<close>

section \<open>Invariants\<close>

definition session_in :: "session \<Rightarrow> session option \<Rightarrow> bool" where
  "session_in s0 cs \<longleftrightarrow> (case cs of None \<Rightarrow> True
     | Some s \<Rightarrow> session_ok s \<and> (cs_session_id s = cs_session_id s0 \<longrightarrow> session_le s0 s))"

lemma session_in_None [simp]: "session_in s0 None"
  by (simp add: session_in_def)

lemma session_in_ok: "session_in s0 (Some s) \<Longrightarrow> session_ok s"
  by (simp add: session_in_def)

lemma session_in_later:
  assumes "session_in s0 (Some s)" and "later s s'"
  shows "session_in s0 (Some s')"
proof -
  have "cs_session_id s' = cs_session_id s" using assms(2) by (simp add: later_def session_le_def same_session_def)
  with assms show ?thesis by (auto simp: session_in_def later_def intro: session_le_trans)
qed

lemma session_in_self: "session_ok s \<Longrightarrow> session_in s (Some s)"
  by (simp add: session_in_def)

lemma later_session_in: "later s0 s \<Longrightarrow> session_in s0 (Some s)"
  by (simp add: session_in_def later_def)

definition parts_ok :: "session \<Rightarrow> cmd_parts \<Rightarrow> bool" where
  "parts_ok s0 parts \<longleftrightarrow> doc_ok (pt_body parts) \<and> doc_ok (pt_read_concern parts) \<and> doc_ok (pt_write_concern parts)
     \<and> body_ok (pt_extra parts) \<and> body_ok (pt_assembled parts) \<and> opt_ok prefs_docs_ok (pt_read_prefs parts)
     \<and> session_in s0 (pt_session parts)"

definition rw_ok :: "session \<Rightarrow> rw_opts \<Rightarrow> bool" where
  "rw_ok s0 rw \<longleftrightarrow> doc_ok (rw_read_concern rw) \<and> opt_ok wc_ok (rw_write_concern rw) \<and> session_in s0 (rw_session rw)
     \<and> doc_ok (rw_collation rw) \<and> body_ok (rw_extra rw)"

definition stream_ok :: "server_stream \<Rightarrow> bool" where
  "stream_ok st \<longleftrightarrow> doc_ok (st_cluster_time st)"

lemma copy_doc_ok [simp]: "doc_ok d \<Longrightarrow> doc_ok (copy_doc d)"
  by (simp add: copy_doc_def doc_ok_take)

lemma doc_ok_sent_command: "parts_ok s0 parts \<Longrightarrow> doc_ok (sent_command parts)"
  by (simp add: sent_command_def parts_ok_def)

lemma parts_ok_init: "doc_ok d \<Longrightarrow> parts_ok s0 (cmd_parts_init db flags d)"
  by (simp add: parts_ok_def cmd_parts_init_def)

lemma parts_ok_updates [simp]:
  "parts_ok s0 (parts\<lparr>pt_command := a\<rparr>) = parts_ok s0 parts" "parts_ok s0 (parts\<lparr>pt_flags := f\<rparr>) = parts_ok s0 parts"
  "parts_ok s0 (parts\<lparr>pt_user_flags := f\<rparr>) = parts_ok s0 parts" "parts_ok s0 (parts\<lparr>pt_name := n\<rparr>) = parts_ok s0 parts"
  "parts_ok s0 (parts\<lparr>pt_txn_finish := b\<rparr>) = parts_ok s0 parts" "parts_ok s0 (parts\<lparr>pt_allow_txn := t\<rparr>) = parts_ok s0 parts"
  "parts_ok s0 (parts\<lparr>pt_retryable_read := b\<rparr>) = parts_ok s0 parts" "parts_ok s0 (parts\<lparr>pt_retryable_write := b\<rparr>) = parts_ok s0 parts"
  "parts_ok s0 (parts\<lparr>pt_is_raw := b\<rparr>) = parts_ok s0 parts" "parts_ok s0 (parts\<lparr>pt_is_read := b\<rparr>) = parts_ok s0 parts"
  "parts_ok s0 (parts\<lparr>pt_is_write := b\<rparr>) = parts_ok s0 parts" "parts_ok s0 (parts\<lparr>pt_temp_session := b\<rparr>) = parts_ok s0 parts"
  "parts_ok s0 (parts\<lparr>pt_acknowledged := b\<rparr>) = parts_ok s0 parts"
  by (simp_all add: parts_ok_def)

lemma parts_ok_content:
  assumes "parts_ok s0 parts"
  shows "body_ok b \<Longrightarrow> parts_ok s0 (parts\<lparr>pt_extra := b\<rparr>)" and "body_ok b \<Longrightarrow> parts_ok s0 (parts\<lparr>pt_assembled := b\<rparr>)"
    and "doc_ok d \<Longrightarrow> parts_ok s0 (parts\<lparr>pt_read_concern := d\<rparr>)" and "doc_ok d \<Longrightarrow> parts_ok s0 (parts\<lparr>pt_write_concern := d\<rparr>)"
    and "session_in s0 cs \<Longrightarrow> parts_ok s0 (parts\<lparr>pt_session := cs\<rparr>)" and "parts_ok s0 (add_e parts e)"
    and "opt_ok prefs_docs_ok p \<Longrightarrow> parts_ok s0 (parts\<lparr>pt_read_prefs := p\<rparr>)"
  using assms by (simp_all add: parts_ok_def add_e_def)

lemma parts_okD:
  assumes "parts_ok s0 parts"
  shows "doc_ok (pt_body parts)" and "doc_ok (pt_read_concern parts)" and "doc_ok (pt_write_concern parts)"
    and "body_ok (pt_extra parts)" and "body_ok (pt_assembled parts)" and "opt_ok prefs_docs_ok (pt_read_prefs parts)"
    and "session_in s0 (pt_session parts)"
  using assms by (simp_all add: parts_ok_def)

text \<open>Steps that may stop with an error.\<close>

lemma safe_bind_checked [safe_intro]:
  "safe (\<lambda>r. if fst r \<noteq> None then Q r else safe Q (f (snd r))) m \<Longrightarrow> safe Q (bind_checked m f)"
  by (cases m) (auto simp: bind_checked_def split: prod.splits if_splits)

lemma safe_ok_parts [safe_intro]: "Q (None, x) \<Longrightarrow> safe Q (ok_parts x)"
  by (simp add: ok_parts_def)

lemma safe_fail_parts [safe_intro]: "(\<And>e. Q (Some e, x)) \<Longrightarrow> safe Q (fail_parts d c m x)"
  by (simp add: fail_parts_def)

lemma checked_if [safe_intro]:
  "(fst r \<noteq> None \<Longrightarrow> Q r) \<Longrightarrow> (fst r = None \<Longrightarrow> safe Q (f (snd r))) \<Longrightarrow> if fst r \<noteq> None then Q r else safe Q (f (snd r))"
  by simp

section \<open>The pieces\<close>

lemma safe_ensure_copied [safe_intro]:
  assumes "parts_ok s0 parts" and "\<And>p. parts_ok s0 p \<Longrightarrow> Q p"
  shows "safe Q (ensure_copied parts)"
  unfolding ensure_copied_def
  using parts_okD [OF assms(1)] assms by (intro safe_intro) (auto intro!: assms(2) parts_ok_content)

lemma safe_add_write_concern [safe_intro]:
  assumes "parts_ok s0 parts" and "\<And>p. parts_ok s0 p \<Longrightarrow> Q p"
  shows "safe Q (add_write_concern parts)"
  unfolding add_write_concern_def
  using parts_okD [OF assms(1)] assms by (intro safe_intro) (auto intro!: assms(2) parts_ok_content)

lemma safe_read_prefs_contents [safe_intro]:
  assumes "opt_ok prefs_docs_ok p" and "body_ok b" and "\<And>r. body_ok (snd r) \<Longrightarrow> Q r"
  shows "safe Q (read_prefs_contents p b)"
proof -
  have step: "safe R (case (if x then (True, c) else append_e c e) of (ok, c) \<Rightarrow> f ok c)"
    if "body_ok c" "\<And>ok c. body_ok c \<Longrightarrow> safe R (f ok c)" for R x c e f
    using that body_ok_append_e [of c e] by (cases "append_e c e") auto
  have first: "safe R (case append_e c e of (ok, c) \<Rightarrow> f ok c)"
    if "body_ok c" "\<And>ok c. body_ok c \<Longrightarrow> safe R (f ok c)" for R c e f
    using that body_ok_append_e [of c e] by (cases "append_e c e") auto
  show ?thesis
    unfolding read_prefs_contents_def
    by (rule first [OF assms(2)], rule safe_if)
      (use assms(1) in \<open>auto intro!: safe_bind safe_map safe_bson_empty step first assms(3) simp: prefs_docs_ok_def split: option.splits\<close>)
qed

lemma safe_add_read_prefs [safe_intro]:
  "opt_ok prefs_docs_ok p \<Longrightarrow> body_ok b \<Longrightarrow> (\<And>b. body_ok b \<Longrightarrow> Q b) \<Longrightarrow> safe Q (add_read_prefs p b)"
  unfolding add_read_prefs_def by (intro safe_intro) auto

lemma safe_largest_cluster_time [safe_intro]:
  "opt_ok doc_ok a \<Longrightarrow> opt_ok doc_ok b \<Longrightarrow> (\<And>r. opt_ok doc_ok r \<Longrightarrow> Q r) \<Longrightarrow> safe Q (largest_cluster_time a b)"
  unfolding largest_cluster_time_def by (intro safe_intro) auto

lemma body_ok_append_server_api [simp]: "body_ok b \<Longrightarrow> body_ok (append_server_api b api)"
  by (simp add: append_server_api_def Let_def)

lemma safe_has_field [safe_intro]:
  assumes "doc_ok d" and "0 \<notin> set k" and "dot \<notin> set k" and "\<And>x. Q x"
  shows "safe Q (bson_has_field (fst d) (snd d) k)"
  using assms by (auto simp: bson_has_field_def intro!: safe_map safe_init_find)

section \<open>Old servers\<close>

lemma safe_iter_concat [safe_intro]:
  "standing it \<Longrightarrow> body_ok b \<Longrightarrow> (\<And>b. body_ok b \<Longrightarrow> Q b) \<Longrightarrow> safe Q (iter_concat b it)"
  unfolding iter_concat_def by (intro safe_intro) auto

lemma body_ok_append_nonempty [simp]: "body_ok b \<Longrightarrow> body_ok (append_nonempty n k d b)"
  by (simp add: append_nonempty_def)

lemma safe_wrap_query [safe_intro]:
  assumes "parts_ok s0 parts" and "body_ok b" and "\<And>b. body_ok b \<Longrightarrow> Q b"
  shows "safe Q (wrap_query parts rc wc b)"
  unfolding wrap_query_def
  using parts_okD [OF assms(1)] assms by (intro safe_intro) auto

lemma safe_assemble_mongos [safe_intro]:
  assumes "parts_ok s0 parts" and Q: "\<And>p. parts_ok s0 p \<Longrightarrow> Q p"
  shows "safe Q (assemble_mongos parts stream)"
proof -
  have prefs: "safe R (case pt_read_prefs parts of None \<Rightarrow> Inr False
        | Some p \<Rightarrow> bind_res (doc_is_empty (rp_tags p)) (\<lambda>t. map_res (\<lambda>h. \<not> t \<or> rp_max_staleness p > 0 \<or> \<not> h) (doc_is_empty (rp_hedge p))))"
    if "\<And>x. R x" for R
    using parts_okD(6) [OF assms(1)] that by (intro safe_intro) (auto simp: prefs_docs_ok_def)
  show ?thesis
    unfolding assemble_mongos_def
    apply (rule safe_Let, rule safe_bind, rule prefs, rule safe_Let, rule safe_Let)
    subgoal for mode content parts'
      using parts_okD [OF assms(1)] assms(1)
      by (intro safe_intro) (auto intro!: Q parts_ok_content dest: found_okD split: if_splits)
    done
qed

lemma safe_assemble_mongod [safe_intro]:
  assumes "parts_ok s0 parts" and Q: "\<And>p. parts_ok s0 p \<Longrightarrow> Q p"
  shows "safe Q (assemble_mongod parts stream)"
proof -
  have flags: "safe R (if pt_is_write parts then Inr parts
               else (case st_topology stream of
                   MONGOC_TOPOLOGY_SINGLE \<Rightarrow> Inr (parts\<lparr>pt_flags := pt_flags parts OR MONGOC_QUERY_SECONDARY_OK\<rparr>)
                 | MONGOC_TOPOLOGY_RS_NO_PRIMARY \<Rightarrow> Inr (if read_prefs_get_mode (pt_read_prefs parts) = MONGOC_READ_PRIMARY then parts
                     else parts\<lparr>pt_flags := pt_flags parts OR MONGOC_QUERY_SECONDARY_OK\<rparr>)
                 | MONGOC_TOPOLOGY_RS_WITH_PRIMARY \<Rightarrow> Inr (if read_prefs_get_mode (pt_read_prefs parts) = MONGOC_READ_PRIMARY then parts
                     else parts\<lparr>pt_flags := pt_flags parts OR MONGOC_QUERY_SECONDARY_OK\<rparr>)
                 | _ \<Rightarrow> Inl AssertFail))" if "\<And>p. parts_ok s0 p \<Longrightarrow> R p" for R
    using assms(1) that by (auto split: topo_type.splits)
  show ?thesis
    unfolding assemble_mongod_def
    by (rule safe_bind, rule flags, intro safe_intro) (auto intro!: Q parts_ok_content dest: parts_okD)
qed

end
