(* ===== verification/ClientCmd.thy ===== *)
theory ClientCmd
  imports Retry
begin

text \<open>
  The execution of a command on behalf of a session (\<open>src/src/mongoc/mongoc-client.c\<close>, \<open>mongoc-cluster.c\<close>,
  \<open>mongoc-opts.c\<close>): options, selection of a server with the pinning of sharded transactions, assembly, retries, and what the
  reply does to the session. What lies below is the environment: the selection of a server (\<open>Select\<close> has its logic), the
  connections, and the exchange of a message for a reply, each a function on a world \<open>'w\<close>. Not modelled here are
  monitoring events, client-side encryption and the reauthentication of OIDC.
\<close>

section \<open>Environment and state\<close>

datatype exchange_outcome = Net_error bson_error | Reply doc

record 'w env =
  ev_client :: client
  ev_topology :: "'w \<Rightarrow> topo_type"
  ev_select :: "deprioritized option \<Rightarrow> read_prefs option \<Rightarrow> bool \<Rightarrow> 'w \<Rightarrow> (nat \<times> bool \<times> bson_error) \<times> 'w"
  ev_check_interval :: "nat \<Rightarrow> 'w \<Rightarrow> bool \<times> 'w"
  ev_stream :: "nat \<Rightarrow> 'w \<Rightarrow> (server_stream option \<times> bson_error \<times> doc) \<times> 'w"
  ev_exchange :: "server_stream \<Rightarrow> doc \<Rightarrow> 'w \<Rightarrow> exchange_outcome \<times> 'w"
  ev_implicit :: "'w \<Rightarrow> session option \<times> 'w"
  ev_now :: "'w \<Rightarrow> int"

text \<open>
  The session of the command, the world, and the commands that were sent so far, the last one first.
\<close>

record 'w run =
  rn_session :: "session option"
  rn_world :: 'w
  rn_sent :: "doc list"

definition upd_session :: "(session \<Rightarrow> session) \<Rightarrow> 'w run \<Rightarrow> 'w run" where
  "upd_session f r = r\<lparr>rn_session := map_option f (rn_session r)\<rparr>"

definition in_world :: "('w \<Rightarrow> 'a \<times> 'w) \<Rightarrow> 'w run \<Rightarrow> 'a \<times> 'w run" where
  "in_world f r = (case f (rn_world r) of (x, w) \<Rightarrow> (x, r\<lparr>rn_world := w\<rparr>))"

section \<open>Server selection\<close>

definition in_sharded_txn :: "'w env \<Rightarrow> 'w run \<Rightarrow> bool" where
  "in_sharded_txn env r \<longleftrightarrow> in_txn_or_ending (rn_session r) \<and> ev_topology env (rn_world r) = MONGOC_TOPOLOGY_SHARDED"

definition in_sharded_or_lb_txn :: "'w env \<Rightarrow> 'w run \<Rightarrow> bool" where
  "in_sharded_or_lb_txn env r \<longleftrightarrow> in_txn_or_ending (rn_session r)
     \<and> (ev_topology env (rn_world r) = MONGOC_TOPOLOGY_SHARDED \<or> ev_topology env (rn_world r) = MONGOC_TOPOLOGY_LOAD_BALANCED)"

definition select_server_id ::
    "'w env \<Rightarrow> read_prefs option \<Rightarrow> bool \<Rightarrow> deprioritized option \<Rightarrow> 'w run \<Rightarrow> (nat \<times> bool \<times> bson_error) \<times> 'w run" where
  "select_server_id env prefs is_write ds r =
     (if in_sharded_txn env r then
        let pinned = (case rn_session r of None \<Rightarrow> 0 | Some s \<Rightarrow> cs_server_id s) in
        if pinned \<noteq> 0 then ((pinned, False, set_error CATEGORY_MONGOC MONGOC_ERROR_SERVER_SELECTION 0 []), r)
        else (case in_world (ev_select env ds prefs is_write) r of ((server_id, must, err), r) \<Rightarrow>
          ((server_id, must, err), if server_id \<noteq> 0 then upd_session (\<lambda>s. session_pin s server_id) r else r))
      else (case in_world (ev_select env ds prefs is_write) r of (x, r) \<Rightarrow>
        (x, if in_txn_or_ending (rn_session r) then r else upd_session session_unpin r)))"

text \<open>\<open>_mongoc_cluster_stream_for_optype\<close>: the stream, or the error and the reply.\<close>

definition no_server :: "'w run \<Rightarrow> bson_error \<Rightarrow> ((server_stream option \<times> bson_error \<times> doc) \<times> 'w run) res" where
  "no_server r err = map_res (\<lambda>reply. ((None, err, reply), r)) (add_transient_txn_error (rn_session r) doc_empty)"

definition connect_stream ::
    "'w env \<Rightarrow> bool \<Rightarrow> bool \<Rightarrow> nat \<Rightarrow> bool \<Rightarrow> 'w run \<Rightarrow> ((server_stream option \<times> bson_error \<times> doc) \<times> 'w run) res" where
  "connect_stream env is_retryable is_write server_id must r =
     (case in_world (ev_stream env server_id) r of ((stream, err, reply), r) \<Rightarrow> (case stream of
         Some st \<Rightarrow> Inr ((Some (st\<lparr>st_must_use_primary := must\<rparr>), err, reply), r)
       | None \<Rightarrow>
           if is_retryable \<and> (error_is_network (Some err) \<or> error_is_auth (Some err)) then
             (case in_world (ev_stream env server_id) r of ((stream, _, _), r) \<Rightarrow> (case stream of
                 Some st \<Rightarrow> Inr ((Some (st\<lparr>st_must_use_primary := must, st_retry_attempted := True\<rparr>), err, reply), r)
               | None \<Rightarrow> map_res (\<lambda>reply. ((None, err, reply), r)) (if is_write then append_retryable_label reply else Inr reply)))
           else Inr ((None, err, reply), r)))"

definition stream_for_optype ::
    "'w env \<Rightarrow> read_prefs option \<Rightarrow> bool \<Rightarrow> bool \<Rightarrow> deprioritized option \<Rightarrow> 'w run
      \<Rightarrow> ((server_stream option \<times> bson_error \<times> doc) \<times> 'w run) res" where
  "stream_for_optype env prefs is_write is_retryable ds r =
     (case select_server_id env prefs is_write ds r of ((server_id, must, err), r) \<Rightarrow>
        if server_id = 0 then no_server r err
        else (case in_world (ev_check_interval env server_id) r of (ok, r) \<Rightarrow>
          if ok then connect_stream env is_retryable is_write server_id must r
          else (case select_server_id env prefs is_write ds r of ((server_id, must, err), r) \<Rightarrow>
            if server_id = 0 then no_server r err else connect_stream env is_retryable is_write server_id must r)))"

definition stream_for_reads ::
    "'w env \<Rightarrow> read_prefs option \<Rightarrow> deprioritized option \<Rightarrow> 'w run
      \<Rightarrow> ((server_stream option \<times> bson_error \<times> doc) \<times> 'w run) res" where
  "stream_for_reads env prefs ds r =
     stream_for_optype env
       (if in_txn (rn_session r) then (case rn_session r of None \<Rightarrow> None | Some s \<Rightarrow> to_read_prefs (cs_txn_opts s)) else prefs)
       False (cl_retry_reads (ev_client env)) ds r"

definition stream_for_writes ::
    "'w env \<Rightarrow> deprioritized option \<Rightarrow> 'w run \<Rightarrow> ((server_stream option \<times> bson_error \<times> doc) \<times> 'w run) res" where
  "stream_for_writes env ds r = stream_for_optype env None True (cl_retry_writes (ev_client env)) ds r"

definition stream_for_server ::
    "'w env \<Rightarrow> nat \<Rightarrow> 'w run \<Rightarrow> (server_stream option \<times> bson_error \<times> doc) \<times> 'w run" where
  "stream_for_server env server_id r =
     (case rn_session r of
        Some s \<Rightarrow> if cs_server_id s \<noteq> 0 \<and> cs_server_id s \<noteq> server_id
          then ((None, set_error CATEGORY_MONGOC MONGOC_ERROR_COMMAND 13054 (str ''Requested server id does not matched pinned server id''),
                 doc_empty), r)
          else (case in_world (ev_stream env server_id) r of (x, r) \<Rightarrow>
            (x, if in_sharded_txn env r then upd_session (\<lambda>s. session_pin s server_id) r
                else if in_txn_or_ending (rn_session r) then r else upd_session session_unpin r))
      | None \<Rightarrow> in_world (ev_stream env server_id) r)"

section \<open>One exchange\<close>

definition handle_network_error :: "server_stream \<Rightarrow> bson_error \<Rightarrow> 'w run \<Rightarrow> (doc \<times> 'w run) res" where
  "handle_network_error stream why r =
     bind_res (if st_needs_hello stream \<and> \<not> error_is_dns (Some why)
               then bind_res (add_error_label doc_empty (str ''SystemOverloadedError'')) (\<lambda>d. add_error_label d (str ''RetryableError''))
               else Inr doc_empty) (\<lambda>reply.
     let dirtied = upd_session (\<lambda>s. s\<lparr>cs_server_session := (cs_server_session s)\<lparr>ss_dirty := True\<rparr>\<rparr>) r in
     if in_txn (rn_session r)
     then map_res (\<lambda>reply. (reply, upd_session session_unpin dirtied)) (add_transient_txn_error (rn_session r) reply)
     else Inr (reply, dirtied))"

definition run_opmsg :: "'w env \<Rightarrow> cmd_parts \<Rightarrow> server_stream \<Rightarrow> doc \<Rightarrow> 'w run \<Rightarrow> (cmd_result \<times> 'w run) res" where
  "run_opmsg env parts stream command r =
     (case in_world (ev_exchange env stream command) (r\<lparr>rn_sent := command # rn_sent r\<rparr>) of (out, r) \<Rightarrow> (case out of
         Net_error why \<Rightarrow> map_res (\<lambda>(reply, r). ((False, Some why, reply), r)) (handle_network_error stream why r)
       | Reply body \<Rightarrow>
           if \<not> pt_acknowledged parts then Inr ((True, None, doc_empty), r)
           else
             bind_res (cmd_check_ok body (cl_error_api (ev_client env))) (\<lambda>err.
             bind_res (case rn_session r of None \<Rightarrow> Inr None
                       | Some s \<Rightarrow> map_res Some (session_handle_reply s (pt_acknowledged parts) (pt_name parts) (Some body))) (\<lambda>s.
               Inr ((err = None, err, copy_doc body), r\<lparr>rn_session := s\<rparr>)))))"

text \<open>\<open>bson_new_from_data\<close> on the document that the iterator stands on.\<close>

definition recovery_token_of :: "bson_iter \<Rightarrow> doc option res" where
  "recovery_token_of it =
     bind_res (holds_type it [BSON_TYPE_DOCUMENT]) (\<lambda>d. if \<not> d then Inr None
       else bind_res (bson_iter_document it) (\<lambda>(len, p). bind_res (deref p) (\<lambda>bytes.
         bind_res (rd_range bytes 0 len) (\<lambda>bs.
           Inr (if len < 5 \<or> len > BSON_MAX_SIZE \<or> last bs \<noteq> 0 \<or> u32_at bs 0 \<noteq> len then None else Some (bs, len))))))"

definition run_command_monitored :: "'w env \<Rightarrow> cmd_parts \<Rightarrow> server_stream \<Rightarrow> doc \<Rightarrow> 'w run \<Rightarrow> (cmd_result \<times> 'w run) res" where
  "run_command_monitored env parts stream command r =
     bind_res (run_opmsg env parts stream command r) (\<lambda>((ret, err, reply), r).
     bind_res (if pt_txn_finish parts then apply_retryable_label ret err reply (st_sd stream) else Inr reply) (\<lambda>reply.
     bind_res (if ret \<and> in_sharded_or_lb_txn env r
               then bson_iter_init_find (fst reply) (snd reply) (str ''recoveryToken'' @ [0]) else Inr (False, iter_zero)) (\<lambda>(found, it).
       if found then map_res (\<lambda>t. ((ret, err, reply), upd_session (\<lambda>s. s\<lparr>cs_token := t\<rparr>) r)) (recovery_token_of it)
       else Inr ((ret, err, reply), r))))"

section \<open>Retries\<close>

text \<open>The state of the loop: the stream of the next attempt, the result kept so far, and the run.\<close>

type_synonym 'w attempt = "server_stream \<times> cmd_result option \<times> 'w run"

definition overwrite_txn_number :: "doc \<Rightarrow> int \<Rightarrow> doc res" where
  "overwrite_txn_number d n =
     bind_res (bson_iter_init_find (fst d) (snd d) (str ''txnNumber'' @ [0])) (\<lambda>(found, it).
     bind_res (c_assert found) (\<lambda>_.
     map_res (\<lambda>ty. if ty = type_byte BSON_TYPE_INT64
         then (take (it_d1 it) (fst d) @ mlib_write_u64le (word_of_int n) @ drop (it_d1 it + 8) (fst d), snd d) else d)
       (ITER_TYPE it)))"

definition write_execute :: "'w env \<Rightarrow> cmd_parts \<Rightarrow> retry_eligibility \<Rightarrow> doc \<Rightarrow> 'w attempt \<Rightarrow> (cmd_result \<times> 'w attempt) res" where
  "write_execute env parts el command st = (case st of (stream, saved, r) \<Rightarrow>
     bind_res (run_command_monitored env parts stream command r) (\<lambda>((ret, err, reply), r).
     bind_res (if el = MONGOC_RETRY_ELIGIBILITY_RETRYABLE_WRITE
               then bind_res (apply_retryable_label ret err reply (st_sd stream)) (\<lambda>reply. update_if_unsupported_engine ret err reply)
               else Inr (err, reply)) (\<lambda>(err, reply).
     map_res (\<lambda>none_performed.
         ((ret, err, reply), (stream, if saved \<noteq> None \<and> none_performed then saved else Some (ret, err, reply), r)))
       (if saved \<noteq> None then mongoc_error_has_label reply (str ''NoWritesPerformed'') else Inr False))))"

definition write_select :: "'w env \<Rightarrow> deprioritized \<Rightarrow> 'w attempt \<Rightarrow> (server_desc option \<times> 'w attempt) res" where
  "write_select env ds st = (case st of (stream, saved, r) \<Rightarrow>
     map_res (\<lambda>((st', _, _), r). (map_option st_sd st', (case st' of None \<Rightarrow> stream | Some s \<Rightarrow> s), saved, r))
       (stream_for_writes env (Some ds) r))"

definition write_eligibility :: "client \<Rightarrow> bool \<Rightarrow> retry_eligibility" where
  "write_eligibility cl retryable =
     (if retryable then MONGOC_RETRY_ELIGIBILITY_RETRYABLE_WRITE
      else if cl_retry_writes cl then MONGOC_RETRY_ELIGIBILITY_OVERLOAD_ONLY
      else MONGOC_RETRY_ELIGIBILITY_NONE)"

definition make_retryable :: "client \<Rightarrow> retry_eligibility \<Rightarrow> server_stream \<Rightarrow> retryable_cmd" where
  "make_retryable cl el stream = \<lparr>rt_eligibility = el, rt_initial = st_sd stream, rt_max_adaptive = cl_max_adaptive cl,
     rt_retargeting = cl_retargeting cl\<rparr>"

text \<open>The transaction number of the first attempt of a retryable write.\<close>

definition next_txn_number :: "cmd_parts \<Rightarrow> 'w run \<Rightarrow> (doc \<times> 'w run) res" where
  "next_txn_number parts r =
     (if pt_retryable_write parts then
        bind_res (deref (rn_session r)) (\<lambda>s.
        bind_res (chk64 (ss_txn_number (cs_server_session s) + 1)) (\<lambda>n.
        map_res (\<lambda>d. (d, upd_session (\<lambda>s. s\<lparr>cs_server_session := (cs_server_session s)\<lparr>ss_txn_number := n\<rparr>\<rparr>) r))
          (overwrite_txn_number (sent_command parts) n)))
      else Inr (sent_command parts, r))"

definition run_retryable_write :: "'w env \<Rightarrow> cmd_parts \<Rightarrow> server_stream \<Rightarrow> 'w run \<Rightarrow> (cmd_result \<times> 'w run) res" where
  "run_retryable_write env parts stream r =
     bind_res (next_txn_number parts r) (\<lambda>(command, r).
     let el = write_eligibility (ev_client env) (pt_retryable_write parts) in
     bind_res (retryable_cmd_run (make_retryable (ev_client env) el stream) (write_execute env parts el command) (write_select env)
       (stream, None, r)) (\<lambda>((ret, _, _), _, saved, r). case saved of
         None \<Rightarrow> Inl AssertFail
       | Some (_, err, reply) \<Rightarrow> Inr ((ret, err, reply), r)))"

definition read_eligibility :: "client \<Rightarrow> cmd_parts \<Rightarrow> retry_eligibility" where
  "read_eligibility cl parts =
     (if pt_retryable_read parts then MONGOC_RETRY_ELIGIBILITY_RETRYABLE_READ
      else if pt_is_raw parts \<and> (\<not> cl_retry_reads cl \<or> \<not> cl_retry_writes cl) \<or> pt_is_read parts \<and> \<not> cl_retry_reads cl
      then MONGOC_RETRY_ELIGIBILITY_NONE
      else MONGOC_RETRY_ELIGIBILITY_OVERLOAD_ONLY)"

definition read_execute :: "'w env \<Rightarrow> cmd_parts \<Rightarrow> 'w attempt \<Rightarrow> (cmd_result \<times> 'w attempt) res" where
  "read_execute env parts st = (case st of (stream, saved, r) \<Rightarrow>
     map_res (\<lambda>(x, r). (x, (stream, saved, r))) (run_command_monitored env parts stream (sent_command parts) r))"

definition read_select :: "'w env \<Rightarrow> read_prefs option \<Rightarrow> deprioritized \<Rightarrow> 'w attempt \<Rightarrow> (server_desc option \<times> 'w attempt) res" where
  "read_select env prefs ds st = (case st of (stream, saved, r) \<Rightarrow>
     map_res (\<lambda>((st', _, _), r). (map_option st_sd st', (case st' of None \<Rightarrow> stream | Some s \<Rightarrow> s), saved, r))
       (stream_for_reads env prefs (Some ds) r))"

definition run_retryable_read :: "'w env \<Rightarrow> cmd_parts \<Rightarrow> server_stream \<Rightarrow> 'w run \<Rightarrow> (cmd_result \<times> 'w run) res" where
  "run_retryable_read env parts stream r =
     map_res (\<lambda>(x, _, _, r). (x, r))
       (retryable_cmd_run (make_retryable (ev_client env) (read_eligibility (ev_client env) parts) stream) (read_execute env parts)
         (read_select env (pt_read_prefs parts)) (stream, None, r))"

definition command_with_stream :: "'w env \<Rightarrow> cmd_parts \<Rightarrow> server_stream \<Rightarrow> 'w run \<Rightarrow> (cmd_result \<times> 'w run) res" where
  "command_with_stream env parts stream r =
     (case in_world (if pt_session parts = None then ev_implicit env else (\<lambda>w. (None, w))) r of (implicit, r) \<Rightarrow>
     bind_res (parts_assemble (ev_client env) implicit (ev_now env (rn_world r)) parts stream) (\<lambda>(err, parts).
       let r = r\<lparr>rn_session := pt_session parts\<rparr> in
       if err \<noteq> None then Inr ((False, err, doc_empty), r)
       else if pt_is_write parts then run_retryable_write env parts stream r
       else run_retryable_read env parts stream r))"


section \<open>Options\<close>

definition rw_opts_init :: rw_opts where
  "rw_opts_init = \<lparr>rw_read_concern = doc_empty, rw_write_concern = None, rw_session = None, rw_collation = doc_empty,
     rw_server_id = 0, rw_extra = []\<rparr>"

text \<open>\<open>_mongoc_convert_document\<close>: \<open>None\<close> with an error.\<close>

definition opts_convert_document :: "bson_iter \<Rightarrow> doc option res" where
  "opts_convert_document it =
     bind_res (holds_type it [BSON_TYPE_DOCUMENT]) (\<lambda>d. if \<not> d then Inr None
       else bind_res (bson_iter_document it) (\<lambda>(len, p). bind_res (deref p) (\<lambda>bytes.
         map_res (\<lambda>ok. if ok then Some (copy_doc (bytes, len)) else None) (bson_init_static bytes len))))"

definition convert_server_id :: "bson_iter \<Rightarrow> nat option res" where
  "convert_server_id it =
     bind_res (holds_type it [BSON_TYPE_INT32, BSON_TYPE_INT64]) (\<lambda>i. if \<not> i then Inr None
       else map_res (\<lambda>tmp. if tmp \<le> 0 then None else Some (nat (tmp mod 2 ^ 32))) (bson_iter_as_int64 it))"

text \<open>A field of the options of \<open>_mongoc_read_write_opts_parse\<close>; \<open>None\<close> where it returns false.\<close>

definition rw_field :: "(nat \<Rightarrow> session option) \<Rightarrow> byte list \<Rightarrow> bson_iter \<Rightarrow> rw_opts \<Rightarrow> rw_opts option res" where
  "rw_field lookup key it rw =
     (if key = str ''readConcern'' then map_res (map_option (\<lambda>d. rw\<lparr>rw_read_concern := d\<rparr>)) (opts_convert_document it)
      else if key = str ''writeConcern'' then map_res (map_option (\<lambda>wc. rw\<lparr>rw_write_concern := Some wc\<rparr>)) (wc_from_iter it)
      else if key = str ''sessionId'' then map_res (map_option (\<lambda>cs. rw\<lparr>rw_session := Some cs\<rparr>)) (session_from_iter lookup it)
      else if key = str ''collation'' then map_res (map_option (\<lambda>d. rw\<lparr>rw_collation := d\<rparr>)) (opts_convert_document it)
      else if key = str ''serverId'' then map_res (map_option (\<lambda>i. rw\<lparr>rw_server_id := i\<rparr>)) (convert_server_id it)
      else map_res (\<lambda>(ok, x). if ok then Some (rw\<lparr>rw_extra := x\<rparr>) else None) (append_iter_to (rw_extra rw) it))"

fun rw_loop :: "nat \<Rightarrow> (nat \<Rightarrow> session option) \<Rightarrow> bson_iter \<Rightarrow> rw_opts \<Rightarrow> rw_opts option res" where
  "rw_loop 0 lookup it rw = Inl NoFuel"
| "rw_loop (Suc fuel) lookup it rw =
     bind_res (bson_iter_next it) (\<lambda>(ok, it).
       if \<not> ok then Inr (Some rw)
       else bind_res (key_of it) (\<lambda>key. bind_res (rw_field lookup key it rw) (\<lambda>r. case r of
           None \<Rightarrow> Inr None
         | Some rw \<Rightarrow> rw_loop fuel lookup it rw)))"

definition rw_opts_parse :: "(nat \<Rightarrow> session option) \<Rightarrow> doc option \<Rightarrow> rw_opts option res" where
  "rw_opts_parse lookup opts = (case opts of None \<Rightarrow> Inr (Some rw_opts_init)
     | Some d \<Rightarrow> (case bson_iter_init (fst d) (snd d) of (ok, it) \<Rightarrow>
         if ok then rw_loop (Suc (snd d)) lookup it rw_opts_init else Inr None))"

section \<open>Commands with options\<close>

datatype command_mode = MONGOC_CMD_RAW | MONGOC_CMD_READ | MONGOC_CMD_WRITE | MONGOC_CMD_RW

definition mode_reads :: "command_mode \<Rightarrow> bool" where
  "mode_reads mode \<longleftrightarrow> mode = MONGOC_CMD_READ \<or> mode = MONGOC_CMD_RW"

definition mode_writes :: "command_mode \<Rightarrow> bool" where
  "mode_writes mode \<longleftrightarrow> mode = MONGOC_CMD_WRITE \<or> mode = MONGOC_CMD_RW"

definition read_prefs_is_valid :: "read_prefs \<Rightarrow> bool res" where
  "read_prefs_is_valid p =
     bind_res (doc_is_empty (rp_tags p)) (\<lambda>t. bind_res (doc_is_empty (rp_hedge p)) (\<lambda>h.
       Inr (\<not> (rp_mode p = MONGOC_READ_PRIMARY \<and> (\<not> t \<or> rp_max_staleness p \<noteq> - 1 \<or> \<not> h))
         \<and> \<not> (rp_max_staleness p \<noteq> - 1 \<and> rp_max_staleness p \<le> 0))))"

definition read_prefs_validate :: "read_prefs option \<Rightarrow> bool res" where
  "read_prefs_validate prefs = (case prefs of None \<Rightarrow> Inr True | Some p \<Rightarrow> read_prefs_is_valid p)"

definition cmd_error :: "string \<Rightarrow> bson_error" where
  "cmd_error msg = set_error CATEGORY_MONGOC MONGOC_ERROR_COMMAND 22 (str msg)"

text \<open>The checks on a command in a transaction: the error, if any.\<close>

definition txn_check :: "command_mode \<Rightarrow> byte list \<Rightarrow> read_prefs option \<Rightarrow> rw_opts \<Rightarrow> bson_error option res" where
  "txn_check mode name user_prefs rw =
     (if \<not> in_txn (rw_session rw) then Inr None
      else if (mode = MONGOC_CMD_READ \<or> mode = MONGOC_CMD_RAW) \<and> read_prefs_get_mode user_prefs \<noteq> MONGOC_READ_PRIMARY
      then Inr (Some (cmd_error ''Read preference in a transaction must be primary''))
      else map_res (\<lambda>e.
          if \<not> e then Some (cmd_error ''Cannot set read concern after starting transaction'')
          else if rw_write_concern rw \<noteq> None \<and> name \<noteq> str ''commitTransaction'' \<and> name \<noteq> str ''abortTransaction''
          then Some (cmd_error ''Cannot set write concern after starting transaction'')
          else None) (doc_is_empty (rw_read_concern rw)))"

text \<open>The parts of the command with the options and the defaults.\<close>

definition command_parts ::
    "command_mode \<Rightarrow> read_concern option \<Rightarrow> write_concern option \<Rightarrow> rw_opts \<Rightarrow> cmd_parts \<Rightarrow> cmd_parts checked" where
  "command_parts mode default_rc default_wc rw parts =
     bind_checked (parts_append_read_write parts rw) (\<lambda>parts.
     bind_checked (if mode_writes mode \<and> \<not> wc_is_default default_wc \<and> rw_write_concern rw = None
                   then parts_set_write_concern parts default_wc else ok_parts parts) (\<lambda>parts.
     bind_res (doc_is_empty (rw_read_concern rw)) (\<lambda>e.
     bind_checked (if mode_reads mode \<and> e then parts_set_read_concern parts default_rc else ok_parts parts) (\<lambda>parts.
       ok_parts (parts\<lparr>pt_is_raw := (mode = MONGOC_CMD_RAW)\<rparr>)))))"

text \<open>
  \<open>_mongoc_client_command_with_opts\<close> with the explicit session \<open>rw_session\<close>, which is the session of the run; a command
  without one runs with an implicit session or none.
\<close>

definition command_with_opts ::
    "'w env \<Rightarrow> (nat \<Rightarrow> session option) \<Rightarrow> byte list \<Rightarrow> doc \<Rightarrow> command_mode \<Rightarrow> doc option \<Rightarrow> 32 word
      \<Rightarrow> read_prefs option \<Rightarrow> read_prefs option \<Rightarrow> read_concern option \<Rightarrow> write_concern option \<Rightarrow> 'w run
      \<Rightarrow> (cmd_result \<times> 'w run) res" where
  "command_with_opts env lookup db_name command mode opts flags user_prefs default_prefs default_rc default_wc r =
     (let failed = (\<lambda>err r. Inr ((False, Some err, doc_empty), r));
          prefs = (if user_prefs \<noteq> None then user_prefs else default_prefs) in
      bind_res (get_command_name command) (\<lambda>name.
      bind_res (rw_opts_parse lookup opts) (\<lambda>rw. case rw of
          None \<Rightarrow> failed (cmd_error ''Invalid opts'') r
        | Some rw \<Rightarrow> let r = r\<lparr>rn_session := rw_session rw\<rparr> in (case name of
            None \<Rightarrow> failed (cmd_error ''Empty command document'') r
          | Some name \<Rightarrow>
              bind_res (txn_check mode name user_prefs rw) (\<lambda>e. case e of Some err \<Rightarrow> failed err r | None \<Rightarrow>
              let reads_only = (mode = MONGOC_CMD_READ \<or> mode = MONGOC_CMD_RAW) in
              bind_res (if reads_only then read_prefs_validate prefs else Inr True) (\<lambda>valid.
              if \<not> valid then failed (cmd_error ''Invalid mongoc_read_prefs_t'') r
              else
                let prefs = (if reads_only then prefs else None);
                    parts = (cmd_parts_init db_name flags command)
                      \<lparr>pt_is_read := mode_reads mode, pt_is_write := mode_writes mode, pt_read_prefs := prefs\<rparr> in
                bind_res (if rw_server_id rw \<noteq> 0 then Inr (stream_for_server env (rw_server_id rw) r)
                          else if mode_writes mode then stream_for_writes env None r
                          else stream_for_reads env prefs None r) (\<lambda>((stream, err, reply), r). case stream of
                    None \<Rightarrow> Inr ((False, Some err, reply), r)
                  | Some stream \<Rightarrow>
                      let parts = (if rw_server_id rw \<noteq> 0 \<and> sd_type (st_sd stream) \<noteq> MONGOC_SERVER_MONGOS
                                   then parts\<lparr>pt_user_flags := pt_user_flags parts OR MONGOC_QUERY_SECONDARY_OK\<rparr> else parts) in
                      bind_res (command_parts mode default_rc default_wc (rw\<lparr>rw_session := rn_session r\<rparr>) parts) (\<lambda>(err, parts).
                      if err \<noteq> None then Inr ((False, err, doc_empty), r)
                      else
                        bind_res (command_with_stream env parts stream r) (\<lambda>((ret, err, reply), r).
                        if ret \<and> mode_writes mode
                        then map_res (\<lambda>wce. ((wce = None, wce, reply), r)) (parse_wc_err reply)
                        else Inr ((ret, err, reply), r))))))))))"

text \<open>
  The commands of a session: \<open>lookup\<close> knows its id. An implicit session has another id, since
  \<open>mongoc_client_start_session\<close> takes a free one.
\<close>

definition lookup_session :: "session \<Rightarrow> nat \<Rightarrow> session option" where
  "lookup_session s i = (if i = cs_session_id s then Some s else None)"

definition session_command ::
    "'w env \<Rightarrow> command_mode \<Rightarrow> byte list \<Rightarrow> body \<Rightarrow> body \<Rightarrow> session \<Rightarrow> 'w \<Rightarrow> doc list
      \<Rightarrow> (cmd_result \<times> session \<times> 'w \<times> doc list) res" where
  "session_command env mode db_name cmd opts s w sent =
     map_res (\<lambda>(x, r). (x, (case rn_session r of None \<Rightarrow> s | Some s' \<Rightarrow> if cs_session_id s' = cs_session_id s then s' else s), rn_world r, rn_sent r))
       (command_with_opts env (lookup_session s) db_name (body_doc cmd) mode (Some (body_doc opts)) 0 None
         (if mode = MONGOC_CMD_RAW then None else cl_read_prefs (ev_client env)) (cl_read_concern (ev_client env)) (cl_write_concern (ev_client env))
         \<lparr>rn_session = None, rn_world = w, rn_sent = sent\<rparr>)"

end
