(* ===== verification/AssembleSafe.thy ===== *)
theory AssembleSafe
  imports PartsSafe ClientCmd
begin

text \<open>Safety of the options of a command and of its assembly for servers that take \<open>OP_MSG\<close>.\<close>

section \<open>Options\<close>

lemma safe_opts_convert_document [safe_intro]:
  assumes "standing it" and "\<And>r. opt_ok doc_ok r \<Longrightarrow> Q r"
  shows "safe Q (opts_convert_document it)"
proof -
  have init: "safe R (bson_init_static bytes n)" if "n \<le> length bytes" "\<And>x. (x \<Longrightarrow> doc_ok (bytes, n)) \<Longrightarrow> R x" for R bytes n
    using that by (intro init_static_returns) (auto simp: doc_ok_def BSON_MAX_SIZE_def INT_MAX_def)
  show ?thesis
    unfolding opts_convert_document_def
    using assms(1) by (intro safe_intro init) (auto simp: nested_ok_def intro!: assms(2))
qed

lemma safe_convert_server_id [safe_intro]:
  "standing it \<Longrightarrow> (\<And>r. Q r) \<Longrightarrow> safe Q (convert_server_id it)"
  unfolding convert_server_id_def by (intro safe_intro) auto

definition lookup_ok :: "session \<Rightarrow> (nat \<Rightarrow> session option) \<Rightarrow> bool" where
  "lookup_ok s0 lookup \<longleftrightarrow> (\<forall>i. session_in s0 (lookup i))"

lemma lookup_okD: "lookup_ok s0 lookup \<Longrightarrow> lookup i = Some s \<Longrightarrow> session_in s0 (Some s)"
  unfolding lookup_ok_def by metis

lemma safe_rw_field [safe_intro]:
  assumes "standing it" and "rw_ok s0 rw" and "lookup_ok s0 lookup" and Q: "\<And>r. opt_ok (rw_ok s0) r \<Longrightarrow> Q r"
  shows "safe Q (rw_field lookup key it rw)"
proof -
  have sess: "opt_ok (rw_ok s0) (map_option (\<lambda>cs. rw\<lparr>rw_session := Some cs\<rparr>) r)"
    if "\<And>c. r = Some c \<Longrightarrow> \<exists>i. lookup i = Some c" for r
    using that assms(2) lookup_okD [OF assms(3)] by (cases r) (auto simp: rw_ok_def)
  have docs: "opt_ok (rw_ok s0) (map_option (\<lambda>d. rw\<lparr>rw_read_concern := d\<rparr>) r)"
    "opt_ok (rw_ok s0) (map_option (\<lambda>d. rw\<lparr>rw_collation := d\<rparr>) r)" if "opt_ok doc_ok r" for r
    using that assms(2) by (cases r; simp add: rw_ok_def)+
  have wc: "opt_ok (rw_ok s0) (map_option (\<lambda>wc. rw\<lparr>rw_write_concern := Some wc\<rparr>) r)" if "opt_ok wc_ok r" for r
    using that assms(2) by (cases r) (simp_all add: rw_ok_def)
  have id: "opt_ok (rw_ok s0) (map_option (\<lambda>i. rw\<lparr>rw_server_id := i\<rparr>) r)" for r
    using assms(2) by (cases r) (simp_all add: rw_ok_def)
  have "body_ok (rw_extra rw)" using assms(2) by (simp add: rw_ok_def)
  then show ?thesis
    unfolding rw_field_def
    using assms(1) by (intro safe_intro Q sess docs wc id) (use assms(2) in \<open>auto simp: rw_ok_def\<close>)
qed

lemma safe_rw_opts_parse [safe_intro]:
  assumes "opt_ok doc_ok opts" and "lookup_ok s0 lookup" and Q: "\<And>r. opt_ok (rw_ok s0) r \<Longrightarrow> Q r"
  shows "safe Q (rw_opts_parse lookup opts)"
proof -
  have init: "rw_ok s0 rw_opts_init" by (simp add: rw_ok_def rw_opts_init_def)
  have "safe Q (rw_loop (Suc (snd d)) lookup (iter_start (fst d) (snd d)) rw_opts_init)" if d: "doc_ok d" for d
  proof (rule safe_loop [OF doc_ok_start(1,2) [OF d], where loop = "\<lambda>f it rw. rw_loop f lookup it rw" and I = "rw_ok s0"])
    show "rw_loop (Suc fuel) lookup it rw = bind_res (bson_iter_next it) (\<lambda>(ok, it).
        if \<not> ok then Inr (Some rw)
        else bind_res (key_of it) (\<lambda>key. bind_res (rw_field lookup key it rw) (\<lambda>r. case r of
           None \<Rightarrow> Inr None
         | Some rw \<Rightarrow> rw_loop fuel lookup it rw)))" for fuel it rw by simp
    fix it rw again
    assume "standing it" "rw_ok s0 rw" and again: "\<And>rw. rw_ok s0 rw \<Longrightarrow> safe Q (again rw)"
    then show "safe Q (bind_res (key_of it) (\<lambda>key. bind_res (rw_field lookup key it rw) (\<lambda>r. case r of
           None \<Rightarrow> Inr None | Some rw \<Rightarrow> again rw)))"
      using assms(2) by (intro safe_intro Q again) auto
  qed (use init Q in auto)
  then show ?thesis
    using init Q assms(1) by (cases opts) (simp_all add: rw_opts_parse_def doc_ok_start(3))
qed

lemma safe_parts_set_write_concern [safe_intro]:
  assumes "parts_ok s0 parts" and "opt_ok wc_ok wc" and "\<And>r. parts_ok s0 (snd r) \<Longrightarrow> Q r"
  shows "safe Q (parts_set_write_concern parts wc)"
  unfolding parts_set_write_concern_def
  using assms(1,2) parts_okD(1) [OF assms(1)]
  by (intro safe_intro) (auto intro!: assms(3) parts_ok_content)

lemma safe_parts_set_read_concern [safe_intro]:
  assumes "parts_ok s0 parts" and "opt_ok rc_ok rc" and "\<And>r. parts_ok s0 (snd r) \<Longrightarrow> Q r"
  shows "safe Q (parts_set_read_concern parts rc)"
  unfolding parts_set_read_concern_def
  using assms(1,2) parts_okD(1) [OF assms(1)]
  by (intro safe_intro) (auto intro!: assms(3) parts_ok_content simp: rc_is_default_def split: option.splits)

lemma safe_parts_append_read_write [safe_intro]:
  assumes p: "parts_ok s0 parts" and rw: "rw_ok s0 rw" and Q: "\<And>r. parts_ok s0 (snd r) \<Longrightarrow> Q r"
  shows "safe Q (parts_append_read_write parts rw)"
proof -
  have r: "doc_ok (rw_read_concern rw)" "opt_ok wc_ok (rw_write_concern rw)" "session_in s0 (rw_session rw)"
    "doc_ok (rw_collation rw)" "body_ok (rw_extra rw)" using rw by (simp_all add: rw_ok_def)
  have step: "safe R (case (if x then (True, pt_extra parts) else append_e (pt_extra parts) e) of (ok, c) \<Rightarrow> f ok c)"
    if "\<And>ok c. body_ok c \<Longrightarrow> safe R (f ok c)" for R x e f
    using that parts_okD(4) [OF p] body_ok_append_e [of "pt_extra parts" e] by (cases "append_e (pt_extra parts) e") auto
  have rest: "safe Q (bind_res (if rw_session rw = None then Inr p
                        else map_res (\<lambda>_. p\<lparr>pt_session := rw_session rw\<rparr>) (c_assert (pt_session p = None))) (\<lambda>parts.
              bind_res (concat_doc (pt_extra parts) (body_doc (rw_extra rw))) (\<lambda>(ok, extra).
                if ok then ok_parts (parts\<lparr>pt_extra := extra\<rparr>)
                else fail_parts MONGOC_ERROR_COMMAND 22 '''opts' with extra fields is too large'' parts)))"
    if "parts_ok s0 p" for p
    using that r by (intro safe_intro) (auto intro!: Q parts_ok_content intro: parts_okD(4) dest: parts_okD(4))
  show ?thesis
    unfolding parts_append_read_write_def
    apply (rule safe_bind, rule safe_assert, rule safe_bind, rule safe_bson_empty(2) [OF r(4)], rule step, rule safe_if)
    subgoal by (rule safe_fail_parts) (use p Q in simp)
    apply (rule safe_bind_checked, rule safe_parts_set_write_concern [where ?s0.0 = s0, OF _ r(2)])
    subgoal using p by (intro parts_ok_content)
    apply (rule checked_if)
    subgoal using Q by simp
    apply (rule safe_bind, rule safe_bson_empty(2) [OF r(1)], rule safe_Let, rule rest)
    subgoal using r(1) by (auto intro: parts_ok_content)
    done
qed

lemma safe_command_parts [safe_intro]:
  assumes "parts_ok s0 parts" and "rw_ok s0 rw" and "opt_ok rc_ok rc" and "opt_ok wc_ok wc" and Q: "\<And>r. parts_ok s0 (snd r) \<Longrightarrow> Q r"
  shows "safe Q (command_parts mode rc wc rw parts)"
proof -
  have r: "doc_ok (rw_read_concern rw)" using assms(2) by (simp add: rw_ok_def)
  have opt: "safe R (if c then m else ok_parts p)" if "\<And>R. (\<And>r. parts_ok s0 (snd r) \<Longrightarrow> R r) \<Longrightarrow> safe R m" "parts_ok s0 p"
    "\<And>r. parts_ok s0 (snd r) \<Longrightarrow> R r" for R c m p using that by (auto intro: safe_ok_parts)
  show ?thesis
    unfolding command_parts_def
    by (rule safe_bind_checked, rule safe_parts_append_read_write [OF assms(1,2)], rule checked_if, rule Q, assumption,
        rule safe_bind_checked, rule opt, erule safe_parts_set_write_concern [OF _ assms(4)], assumption, assumption,
        rule checked_if, rule Q, assumption, rule safe_bind, rule safe_bson_empty(2) [OF r], rule safe_bind_checked, rule opt,
        erule safe_parts_set_read_concern [OF _ assms(3)], assumption, assumption, rule checked_if, rule Q, assumption,
        rule safe_ok_parts, rule Q) simp
qed

section \<open>Assembly\<close>

lemma asm_cs_cases: "asm_cs parts = Some s \<Longrightarrow> pt_session parts = Some s"
  by (simp add: asm_cs_def split: if_splits)

lemma safe_asm_extra [safe_intro]:
  assumes p: "parts_ok s0 parts" and prefs: "opt_ok prefs_docs_ok prefs" and Q: "\<And>r. parts_ok s0 (snd r) \<Longrightarrow> Q r"
  shows "safe Q (asm_extra prefs stream parts)"
proof -
  have read: "safe R (bind_res (add_read_prefs prefs (pt_extra p)) (\<lambda>x. ok_parts (p\<lparr>pt_extra := x\<rparr>)))"
    if "parts_ok s0 p" "\<And>r. parts_ok s0 (snd r) \<Longrightarrow> R r" for R p
    using that prefs parts_okD(4) [OF that(1)] by (intro safe_intro) (auto intro!: that(2) parts_ok_content)
  have last: "safe Q (if pt_extra p = [] then ok_parts p else bind_res (ensure_copied p) ok_parts)" if "parts_ok s0 p" for p
    using that Q by (intro safe_intro) auto
  have k: "0 \<notin> set (str ''$db'')" "dot \<notin> set (str ''$db'')" by (simp_all add: str_def dot_def)
  show ?thesis
    unfolding asm_extra_def
    apply (rule safe_Let, rule safe_Let, rule safe_bind, rule safe_has_field [OF parts_okD(1) [OF p] k], rule safe_Let)
    subgoal for cs mode has_db parts'
    proof -
      assume "parts' = (if has_db then parts
                   else parts\<lparr>pt_extra := snd (append_e (pt_extra parts) (e_utf8 (str ''$db'') (pt_db_name parts)))\<rparr>)"
      then have p': "parts_ok s0 parts'" using p parts_okD(4) [OF p] by (auto intro: parts_ok_content)
      show ?thesis
      proof (rule safe_bind_checked, rule safe_mono [where P = "\<lambda>r. parts_ok s0 (snd r)"])
        have read': "safe (\<lambda>r. parts_ok s0 (snd r)) (if c then bind_res (add_read_prefs prefs (pt_extra parts')) (\<lambda>x. ok_parts (parts'\<lparr>pt_extra := x\<rparr>))
             else ok_parts parts')" for c
          by (rule safe_if, rule read [OF p'], assumption, rule safe_ok_parts) (use p' in simp)
        show "safe (\<lambda>r. parts_ok s0 (snd r)) (case cs of
           Some s \<Rightarrow>
             if in_txn cs then
               if read_prefs_get_mode (to_read_prefs (cs_txn_opts s)) \<noteq> MONGOC_READ_PRIMARY \<and> \<not> pt_is_write parts'
               then fail_parts MONGOC_ERROR_TRANSACTION 53 ''Read preference in a transaction must be primary'' parts'
               else ok_parts parts'
             else if mode \<noteq> MONGOC_READ_PRIMARY \<and> sd_type (st_sd stream) \<noteq> MONGOC_SERVER_STANDALONE
             then bind_res (add_read_prefs prefs (pt_extra parts')) (\<lambda>x. ok_parts (parts'\<lparr>pt_extra := x\<rparr>))
             else ok_parts parts'
         | None \<Rightarrow>
             if mode \<noteq> MONGOC_READ_PRIMARY \<and> sd_type (st_sd stream) \<noteq> MONGOC_SERVER_STANDALONE
             then bind_res (add_read_prefs prefs (pt_extra parts')) (\<lambda>x. ok_parts (parts'\<lparr>pt_extra := x\<rparr>))
             else ok_parts parts')"
          using read' p' by (cases cs) (auto intro: safe_ok_parts safe_fail_parts)
        fix r :: "bson_error option \<times> cmd_parts" assume "parts_ok s0 (snd r)"
        then show "if fst r \<noteq> None then Q r
            else safe Q (if pt_extra (snd r) = [] then ok_parts (snd r) else bind_res (ensure_copied (snd r)) ok_parts)"
          by (intro checked_if Q last)
      qed
    qed
    done
qed

lemma safe_asm_lsid [safe_intro]:
  assumes p: "parts_ok s0 parts" and imp: "session_in s0 implicit" and Q: "\<And>r. parts_ok s0 (snd r) \<Longrightarrow> Q r"
  shows "safe Q (asm_lsid implicit now parts)"
  unfolding asm_lsid_def
proof (rule safe_Let)
  fix p' assume "p' = (if asm_cs parts = None \<and> \<not> pt_prohibit_lsid parts \<and> pt_acknowledged parts \<and> implicit \<noteq> None
                   then parts\<lparr>pt_session := implicit, pt_temp_session := True\<rparr> else parts)"
  then have p': "parts_ok s0 p'" using p imp by (auto intro: parts_ok_content)
  have used: "session_in s0 (Some (s\<lparr>cs_server_session := (cs_server_session s)\<lparr>ss_last_used := now\<rparr>\<rparr>))"
    if "asm_cs p' = Some s" for s
  proof -
    have s: "session_in s0 (Some s)" using parts_okD(7) [OF p'] asm_cs_cases [OF that] by simp
    show ?thesis by (rule session_in_later [OF s later_steps(6) [OF later_refl [OF session_in_ok [OF s]]]])
  qed
  show "safe Q (case asm_cs p' of None \<Rightarrow> ok_parts p'
      | Some s \<Rightarrow>
          if \<not> pt_acknowledged p'
          then fail_parts MONGOC_ERROR_COMMAND 22 ''Cannot use client session with unacknowledged command'' p'
          else bind_res (ensure_copied p') (\<lambda>parts. ok_parts ((add_e parts (e_doc (str ''lsid'') (body_doc (ss_lsid (cs_server_session s)))))
            \<lparr>pt_session := Some (s\<lparr>cs_server_session := (cs_server_session s)\<lparr>ss_last_used := now\<rparr>\<rparr>)\<rparr>)))"
    by (intro safe_case_option safe_if safe_ok_parts safe_fail_parts safe_bind safe_ensure_copied [OF p'] Q)
      (use p' in \<open>auto intro!: parts_ok_content used\<close>)
qed

lemma safe_allow_txn_number [safe_intro]: "(\<And>x. Q x) \<Longrightarrow> safe Q (allow_txn_number parts stream)"
  unfolding allow_txn_number_def by (intro safe_intro) auto

lemma safe_asm_retry [safe_intro]:
  assumes p: "parts_ok s0 parts" and Q: "\<And>r. parts_ok s0 (snd r) \<Longrightarrow> Q r"
  shows "safe Q (asm_retry cl stream gm parts)"
  unfolding asm_retry_def
  by (rule safe_bind, rule safe_mono [where P = "parts_ok s0"])
    (use p in \<open>auto intro!: safe_intro Q parts_ok_content(6)\<close>)

lemma safe_asm_cluster_time [safe_intro]:
  assumes p: "parts_ok s0 parts" and st: "stream_ok stream" and Q: "\<And>r. parts_ok s0 (snd r) \<Longrightarrow> Q r"
  shows "safe Q (asm_cluster_time stream parts)"
proof -
  have s: "session_ok s" if "asm_cs parts = Some s" for s
    using parts_okD(7) [OF p] asm_cs_cases [OF that] by (simp add: session_in_ok)
  have ct: "safe R (case asm_cs parts of None \<Rightarrow> Inr None | Some s \<Rightarrow> session_get_cluster_time s)"
    if "\<And>r. opt_ok doc_ok r \<Longrightarrow> R r" for R
    using that by (intro safe_case_option safe_Inr safe_session_get_cluster_time s) auto
  show ?thesis
    unfolding asm_cluster_time_def
    by (rule safe_bind, rule ct, intro safe_intro)
      (use p st in \<open>auto simp: stream_ok_def intro!: Q parts_ok_content\<close>)
qed

lemma safe_asm_api [safe_intro]:
  assumes p: "parts_ok s0 parts" and Q: "\<And>r. parts_ok s0 (snd r) \<Longrightarrow> Q r"
  shows "safe Q (asm_api cl parts)"
  unfolding asm_api_def
  using p parts_okD(5) [OF p] by (intro safe_intro) (auto intro!: Q parts_ok_content)

lemma safe_asm_read_concern [safe_intro]:
  assumes p: "parts_ok s0 parts" and Q: "\<And>r. parts_ok s0 (snd r) \<Longrightarrow> Q r"
  shows "safe Q (asm_read_concern stream gm parts)"
proof -
  have body: "safe R (append_read_concern s (Some (pt_read_concern q)) b (pt_assembled q))"
    if "parts_ok s0 q" "\<And>b. body_ok b \<Longrightarrow> R b" for R q s b
    using that parts_okD(2,5) [OF that(1)] by (intro safe_append_read_concern) auto
  show ?thesis
    unfolding asm_read_concern_def
    using parts_okD(2) [OF p]
    by (intro safe_if safe_case_option safe_ok_parts safe_fail_parts safe_bind safe_ensure_copied [OF p] safe_bson_empty body Q)
      (use p in \<open>auto intro!: parts_ok_content\<close>)
qed

lemma safe_asm_txn [safe_intro]:
  assumes p: "parts_ok s0 parts" and Q: "\<And>r. parts_ok s0 (snd r) \<Longrightarrow> Q r"
  shows "safe Q (asm_txn parts)"
proof -
  have txn: "safe Q (case asm_cs q of
         None \<Rightarrow> ok_parts q
       | Some s \<Rightarrow> bind_res (append_txn s (pt_assembled q)) (\<lambda>(ok, s, b).
           let parts = q\<lparr>pt_session := Some s, pt_assembled := b\<rparr> in
           if ok then ok_parts parts
           else fail_parts MONGOC_ERROR_COMMAND 22 ''Empty command in transaction'' parts))" if q: "parts_ok s0 q" for q
  proof (rule safe_case_option)
    fix s assume "asm_cs q = Some s"
    then have s: "session_in s0 (Some s)" using parts_okD(7) [OF q] asm_cs_cases by simp
    show "safe Q (bind_res (append_txn s (pt_assembled q)) (\<lambda>(ok, s, b).
           let parts = q\<lparr>pt_session := Some s, pt_assembled := b\<rparr> in
           if ok then ok_parts parts
           else fail_parts MONGOC_ERROR_COMMAND 22 ''Empty command in transaction'' parts))"
      by (rule safe_bind, rule safe_append_txn [OF later_refl [OF session_in_ok [OF s]] parts_okD(5) [OF q]])
        (use q in \<open>auto simp: Let_def intro!: safe_ok_parts safe_fail_parts Q parts_ok_content session_in_later [OF s]\<close>)
  qed (use q Q in \<open>auto intro: safe_ok_parts\<close>)
  show ?thesis
    unfolding asm_txn_def
    by (rule safe_bind, rule safe_mono [where P = "parts_ok s0"]) (use p in \<open>auto intro!: safe_intro txn\<close>)
qed

lemma safe_asm_opmsg [safe_intro]:
  assumes "parts_ok s0 parts" and "session_in s0 implicit" and "opt_ok prefs_docs_ok prefs" and "stream_ok stream"
    and Q: "\<And>r. parts_ok s0 (snd r) \<Longrightarrow> Q r"
  shows "safe Q (asm_opmsg cl implicit now prefs stream parts)"
  unfolding asm_opmsg_def
  by (rule safe_Let, rule safe_bind_checked, rule safe_asm_extra [OF assms(1,3)], rule checked_if, rule Q, assumption,
      rule safe_bind_checked, erule safe_asm_lsid [OF _ assms(2)], rule checked_if, rule Q, assumption,
      rule safe_bind_checked, erule safe_asm_retry, rule checked_if, rule Q, assumption,
      rule safe_bind_checked, erule safe_asm_cluster_time [OF _ assms(4)], rule checked_if, rule Q, assumption,
      rule safe_bind_checked, erule safe_asm_api, rule checked_if, rule Q, assumption,
      rule safe_bind_checked, erule safe_asm_read_concern, rule checked_if, rule Q, assumption,
      erule safe_asm_txn, rule Q, assumption)

lemma safe_parts_assemble [safe_intro]:
  assumes p: "parts_ok s0 parts" and imp: "session_in s0 implicit" and st: "stream_ok stream" and Q: "\<And>r. parts_ok s0 (snd r) \<Longrightarrow> Q r"
  shows "safe Q (parts_assemble cl implicit now parts stream)"
proof -
  have prefs: "opt_ok prefs_docs_ok (if c then Some \<lparr>rp_mode = MONGOC_READ_PRIMARY_PREFERRED, rp_tags = doc_empty, rp_max_staleness = - 1,
                                          rp_hedge = doc_empty\<rparr> else pt_read_prefs q)" if "parts_ok s0 q" for c q
    using parts_okD(6) [OF that] by (simp add: prefs_docs_ok_def)
  show ?thesis
    unfolding parts_assemble_def
    by (intro safe_Let safe_if safe_fail_parts safe_bind safe_assert safe_get_command_name safe_case_option safe_asm_opmsg [OF _ imp _ st]
        safe_assemble_mongos safe_assemble_mongod safe_ok_parts Q)
      (use p parts_okD(1) [OF p] in \<open>simp_all add: prefs\<close>)
qed

end
