(* ===== verification/Txn.thy ===== *)
theory Txn
  imports ClientCmd
begin

text \<open>
  Transactions of a client session (\<open>src/src/mongoc/mongoc-client-session.c\<close>): start, commit with its retry, abort, and
  \<open>mongoc_client_session_with_transaction\<close>.
\<close>

text \<open>The session, the world, and the commands sent so far, the last one first.\<close>

type_synonym 'w conn = "session \<times> 'w \<times> doc list"

definition txn_error :: "string \<Rightarrow> bson_error" where
  "txn_error msg = set_error CATEGORY_MONGOC MONGOC_ERROR_TRANSACTION 53 (str msg)"

definition finish_command :: "byte list \<Rightarrow> session \<Rightarrow> body" where
  "finish_command name s =
     (let cmd = snd (append_e [] (e_int32 name 1)) in
      case cs_token s of None \<Rightarrow> cmd | Some t \<Rightarrow> snd (append_e cmd (e_doc (str ''recoveryToken'') t)))"

definition set_txn_wc :: "session \<Rightarrow> write_concern \<Rightarrow> session" where
  "set_txn_wc s wc = s\<lparr>cs_txn_opts := (cs_txn_opts s)\<lparr>to_write_concern := Some wc\<rparr>\<rparr>"

section \<open>Abort\<close>

text \<open>The options of the command: the session, and the write concern of the transaction. \<open>None\<close> where the code gives up.\<close>

definition abort_opts :: "session \<Rightarrow> (body option \<times> session) res" where
  "abort_opts s = (case session_append s [] of (ok, opts) \<Rightarrow>
     if \<not> ok then Inr (None, s)
     else (case to_write_concern (cs_txn_opts s) of
         None \<Rightarrow> Inr (Some opts, s)
       | Some wc \<Rightarrow> map_res (\<lambda>(ok, opts, wc). (if ok then Some opts else None, set_txn_wc s wc)) (wc_append wc opts)))"

definition txn_abort :: "'w env \<Rightarrow> 'w conn \<Rightarrow> (bool \<times> 'w conn) res" where
  "txn_abort env c = (case c of (s, w, sent) \<Rightarrow>
     bind_res (abort_opts s) (\<lambda>(opts, s). case opts of
         None \<Rightarrow> Inr (False, s, w, sent)
       | Some opts \<Rightarrow>
           let cmd = finish_command (str ''abortTransaction'') s in
           bind_res (session_command env MONGOC_CMD_WRITE (str ''admin'') cmd opts s w sent) (\<lambda>((ret, err, reply), s, w, sent).
           bind_res (mongoc_error_has_label reply (str ''RetryableWriteError'')) (\<lambda>again.
           map_res (\<lambda>((ret, _, _), s, w, sent). (ret, if ret then s else session_unpin s, w, sent))
             (if again then session_command env MONGOC_CMD_WRITE (str ''admin'') cmd opts (session_unpin s) w sent
              else Inr ((ret, err, reply), s, w, sent))))))"

section \<open>Commit\<close>

abbreviation (input) "MONGOC_DEFAULT_WTIMEOUT_FOR_COMMIT_RETRY \<equiv> 10000 :: int"

definition create_commit_retry_wc :: "write_concern option \<Rightarrow> write_concern res" where
  "create_commit_retry_wc existing_wc =
     (let wc = (case write_concern_copy existing_wc of None \<Rightarrow> write_concern_new | Some wc \<Rightarrow> wc);
          wc = (if wc_wtimeout wc \<le> 0 then wc_set_wtimeout wc MONGOC_DEFAULT_WTIMEOUT_FOR_COMMIT_RETRY else wc)
      in wc_set_w wc MONGOC_WRITE_CONCERN_W_MAJORITY)"

text \<open>The options of an attempt: they are \<open>None\<close> with the error of an append that failed.\<close>

definition commit_opts ::
    "client \<Rightarrow> bool \<Rightarrow> write_concern option \<Rightarrow> session \<Rightarrow> ((body + bson_error) \<times> write_concern option \<times> session) res" where
  "commit_opts cl retrying retry_wc s = (case session_append s [] of (ok, opts) \<Rightarrow>
     if \<not> ok then Inr (Inr (set_error CATEGORY_MONGOC MONGOC_ERROR_BSON 18 (str ''invalid opts'')), retry_wc, s)
     else
       (case (if to_max_commit_time (cs_txn_opts s) \<noteq> DEFAULT_MAX_COMMIT_TIME_MS
              then append_e opts (e_int64 (str ''maxTimeMS'') (word_of_int (to_max_commit_time (cs_txn_opts s)))) else (True, opts))
        of (ok, opts) \<Rightarrow>
         if \<not> ok then Inr (Inr (set_error CATEGORY_MONGOC MONGOC_ERROR_BSON 18 (str ''error appending maxCommitTimeMS'')), retry_wc, s)
         else
           bind_res (if retry_wc = None \<and> retrying
                     then map_res Some (create_commit_retry_wc (if to_write_concern (cs_txn_opts s) \<noteq> None
                                                               then to_write_concern (cs_txn_opts s) else cl_write_concern cl))
                     else Inr retry_wc) (\<lambda>retry_wc. case retry_wc of
               Some wc \<Rightarrow> map_res (\<lambda>(ok, opts, wc).
                 (if ok then Inl opts else Inr (txn_error ''Invalid transaction write concern''), Some wc, s)) (wc_append wc opts)
             | None \<Rightarrow> (case to_write_concern (cs_txn_opts s) of
                   None \<Rightarrow> Inr (Inl opts, None, s)
                 | Some wc \<Rightarrow> map_res (\<lambda>(ok, opts, wc).
                     (if ok then Inl opts else Inr (txn_error ''Invalid transaction write concern''), None, set_txn_wc s wc)) (wc_append wc opts)))))"

text \<open>
  An attempt to commit: whether the command was sent, the result, and the write concern of a retry. Where it was not
  sent the result is the one before, with the error of the append.
\<close>

definition commit_attempt ::
    "'w env \<Rightarrow> bool \<Rightarrow> body \<Rightarrow> write_concern option \<Rightarrow> cmd_result \<Rightarrow> 'w conn
      \<Rightarrow> ((bool \<times> cmd_result \<times> write_concern option) \<times> 'w conn) res" where
  "commit_attempt env retrying cmd retry_wc before c = (case c of (s, w, sent) \<Rightarrow>
     bind_res (commit_opts (ev_client env) retrying retry_wc s) (\<lambda>(opts, retry_wc, s). case opts of
         Inr err \<Rightarrow> Inr ((False, (fst before, Some err, doc_empty), retry_wc), s, w, sent)
       | Inl opts \<Rightarrow> map_res (\<lambda>(x, c). ((True, x, retry_wc), c))
           (session_command env MONGOC_CMD_WRITE (str ''admin'') cmd opts s w sent)))"

text \<open>What \<open>txn_commit\<close> returns after the last attempt.\<close>

definition commit_finish :: "write_err_type \<Rightarrow> cmd_result \<Rightarrow> 'w conn \<Rightarrow> (cmd_result \<times> 'w conn) res" where
  "commit_finish error_type x c = (case x of (ret, err, reply) \<Rightarrow> (case c of (s, w, sent) \<Rightarrow>
     if \<not> ret \<and> ((case err of None \<Rightarrow> False
                  | Some e \<Rightarrow> err_domain e = MONGOC_ERROR_SERVER_SELECTION \<or> err_code e = 50)
                 \<or> error_type = MONGOC_WRITE_ERR_RETRY \<or> error_type = MONGOC_WRITE_ERR_WRITE_CONCERN)
     then
       bind_res (copy_doc_excluding [str ''errorLabels''] reply []) (\<lambda>b.
       map_res (\<lambda>b. ((ret, err, body_doc b), session_unpin s, w, sent))
         (copy_labels_and_upsert reply b (str ''UnknownTransactionCommitResult'')))
     else Inr ((ret, err, reply), s, w, sent)))"

definition txn_commit :: "'w env \<Rightarrow> bool \<Rightarrow> 'w conn \<Rightarrow> (cmd_result \<times> 'w conn) res" where
  "txn_commit env explicitly_retrying c =
     (let cmd = finish_command (str ''commitTransaction'') (fst c) in
      bind_res (commit_attempt env explicitly_retrying cmd None (False, None, doc_empty) c) (\<lambda>((was_sent, x, retry_wc), c).
        if \<not> was_sent then Inr (x, c)
        else bind_res (write_error_get_type (snd (snd x))) (\<lambda>error_type.
          if error_type \<noteq> MONGOC_WRITE_ERR_RETRY then commit_finish error_type x c
          else
            bind_res (commit_attempt env True cmd retry_wc x (session_unpin (fst c), snd c)) (\<lambda>((was_sent, x, _), c).
              if \<not> was_sent then Inr (x, c)
              else bind_res (write_error_get_type (snd (snd x))) (\<lambda>error_type. commit_finish error_type x c)))))"

section \<open>The operations of a session\<close>

definition set_state :: "txn_state \<Rightarrow> 'w conn \<Rightarrow> 'w conn" where
  "set_state st c = ((fst c)\<lparr>cs_txn_state := st\<rparr>, snd c)"

text \<open>\<open>mongoc_client_session_start_transaction\<close>: \<open>None\<close> where it returns true.\<close>

definition start_checked :: "txn_opts option \<Rightarrow> session \<Rightarrow> (bson_error option \<times> session) res" where
  "start_checked opts s =
     (if session_opts_get_snapshot (cs_opts s)
      then Inr (Some (txn_error ''Transactions are not supported in snapshot sessions''), s)
      else if cs_txn_state s = MONGOC_INTERNAL_TRANSACTION_STARTING \<or> cs_txn_state s = MONGOC_INTERNAL_TRANSACTION_IN_PROGRESS
      then Inr (Some (txn_error ''Transaction already in progress''), s)
      else if cs_txn_state s = MONGOC_INTERNAL_TRANSACTION_ENDING then Inl AssertFail
      else bind_res (chk64 (ss_txn_number (cs_server_session s) + 1)) (\<lambda>n.
        let dflt = so_default_txn (cs_opts s);
            t = txn_opts_set (cs_txn_opts s) (to_read_concern dflt) (to_write_concern dflt) (to_read_prefs dflt) (to_max_commit_time dflt);
            t = (case opts of None \<Rightarrow> t
              | Some o' \<Rightarrow> txn_opts_set t (to_read_concern o') (to_write_concern o') (to_read_prefs o') (to_max_commit_time o'));
            s = s\<lparr>cs_server_session := (cs_server_session s)\<lparr>ss_txn_number := n\<rparr>, cs_txn_opts := t\<rparr>
        in if \<not> wc_is_acknowledged (to_write_concern t)
           then Inr (Some (txn_error ''Transactions do not support unacknowledged write concern''), s)
           else Inr (None, (session_unpin s)\<lparr>cs_txn_state := MONGOC_INTERNAL_TRANSACTION_STARTING, cs_token := None\<rparr>)))"

definition start_transaction :: "'w env \<Rightarrow> txn_opts option \<Rightarrow> 'w conn \<Rightarrow> (bson_error option \<times> 'w conn) res" where
  "start_transaction env opts c = (case c of (s, w, sent) \<Rightarrow>
     bind_res (stream_for_writes env None \<lparr>rn_session = Some s, rn_world = w, rn_sent = sent\<rparr>) (\<lambda>((stream, err, _), r).
     let s = (case rn_session r of None \<Rightarrow> s | Some s \<Rightarrow> s) in
       if stream = None then Inr (Some err, s, rn_world r, rn_sent r)
       else map_res (\<lambda>(e, s). (e, s, rn_world r, rn_sent r)) (start_checked opts s)))"

definition fail_commit_reply :: "byte list \<Rightarrow> doc" where
  "fail_commit_reply label = body_doc (snd (append_e [] (e_array (str ''errorLabels'') (body_doc (snd (label_append (0, []) label))))))"

definition commit_transaction :: "'w env \<Rightarrow> 'w conn \<Rightarrow> (cmd_result \<times> 'w conn) res" where
  "commit_transaction env c = (case cs_fail_label (fst c) of
       Some label \<Rightarrow> Inr ((False, None, fail_commit_reply label), c)
     | None \<Rightarrow> (case cs_txn_state (fst c) of
         MONGOC_INTERNAL_TRANSACTION_NONE \<Rightarrow> Inr ((False, Some (txn_error ''No transaction started''), doc_empty), c)
       | MONGOC_INTERNAL_TRANSACTION_STARTING \<Rightarrow>
           Inr ((True, None, doc_empty), set_state MONGOC_INTERNAL_TRANSACTION_COMMITTED_EMPTY c)
       | MONGOC_INTERNAL_TRANSACTION_COMMITTED_EMPTY \<Rightarrow>
           Inr ((True, None, doc_empty), set_state MONGOC_INTERNAL_TRANSACTION_COMMITTED_EMPTY c)
       | MONGOC_INTERNAL_TRANSACTION_COMMITTED \<Rightarrow>
           map_res (\<lambda>(x, c). (x, set_state MONGOC_INTERNAL_TRANSACTION_COMMITTED c))
             (txn_commit env True (set_state MONGOC_INTERNAL_TRANSACTION_ENDING c))
       | MONGOC_INTERNAL_TRANSACTION_IN_PROGRESS \<Rightarrow>
           map_res (\<lambda>(x, c). (x, set_state MONGOC_INTERNAL_TRANSACTION_COMMITTED c))
             (txn_commit env False (set_state MONGOC_INTERNAL_TRANSACTION_ENDING c))
       | MONGOC_INTERNAL_TRANSACTION_ENDING \<Rightarrow> Inl AssertFail
       | MONGOC_INTERNAL_TRANSACTION_ABORTED \<Rightarrow>
           Inr ((False, Some (txn_error ''Cannot call commitTransaction after calling abortTransaction''), doc_empty), c)))"

definition abort_transaction :: "'w env \<Rightarrow> 'w conn \<Rightarrow> (bson_error option \<times> 'w conn) res" where
  "abort_transaction env c = (case cs_txn_state (fst c) of
       MONGOC_INTERNAL_TRANSACTION_STARTING \<Rightarrow>
         (case set_state MONGOC_INTERNAL_TRANSACTION_ABORTED c of (s, x) \<Rightarrow>
           Inr (None, (session_unpin s)\<lparr>cs_txn_opts := txn_opts_cleanup (cs_txn_opts s)\<rparr>, x))
     | MONGOC_INTERNAL_TRANSACTION_IN_PROGRESS \<Rightarrow>
         map_res (\<lambda>(_, c). (case set_state MONGOC_INTERNAL_TRANSACTION_ABORTED c of (s, x) \<Rightarrow> (None, session_unpin s, x)))
           (txn_abort env (set_state MONGOC_INTERNAL_TRANSACTION_ENDING c))
     | MONGOC_INTERNAL_TRANSACTION_COMMITTED \<Rightarrow>
         Inr (Some (txn_error ''Cannot call abortTransaction after calling commitTransaction''), c)
     | MONGOC_INTERNAL_TRANSACTION_COMMITTED_EMPTY \<Rightarrow>
         Inr (Some (txn_error ''Cannot call abortTransaction after calling commitTransaction''), c)
     | MONGOC_INTERNAL_TRANSACTION_ABORTED \<Rightarrow> Inr (Some (txn_error ''Cannot call abortTransaction twice''), c)
     | MONGOC_INTERNAL_TRANSACTION_ENDING \<Rightarrow> Inl AssertFail
     | MONGOC_INTERNAL_TRANSACTION_NONE \<Rightarrow> Inr (Some (txn_error ''No transaction started''), c))"

section \<open>With a transaction\<close>

definition max_time_ms_failure :: "doc option \<Rightarrow> bool res" where
  "max_time_ms_failure reply = (case reply of None \<Rightarrow> Inr False
     | Some d \<Rightarrow>
         bind_res (find_typed d (str ''codeName'') [BSON_TYPE_UTF8]) (\<lambda>i.
         bind_res (case i of None \<Rightarrow> Inr False | Some it \<Rightarrow> map_res (\<lambda>s. s = str ''MaxTimeMSExpired'') (str_of it)) (\<lambda>top.
           if top then Inr True
           else (case bson_iter_init (fst d) (snd d) of (ok, it) \<Rightarrow>
             if \<not> ok then Inr False
             else bind_res (bson_iter_find_descendant it (str ''writeConcernError.codeName'')) (\<lambda>i. case i of
                 None \<Rightarrow> Inr False
               | Some it \<Rightarrow> bind_res (holds_type it [BSON_TYPE_UTF8]) (\<lambda>u.
                   if u then map_res (\<lambda>s. s = str ''MaxTimeMSExpired'') (str_of it) else Inr False))))))"

text \<open>
  The callback of the user, whether the deadline of \<open>timer\<close> has passed, and a wait before another attempt, which says
  whether it would end after the deadline.
\<close>

record 'w with_txn =
  wt_cb :: "'w conn \<Rightarrow> ((bool \<times> bson_error option \<times> doc option) \<times> 'w conn) res"
  wt_expired :: "'w \<Rightarrow> bool \<times> 'w"
  wt_backoff :: "'w \<Rightarrow> bool \<times> 'w"

definition in_conn :: "('w \<Rightarrow> 'a \<times> 'w) \<Rightarrow> 'w conn \<Rightarrow> 'a \<times> 'w conn" where
  "in_conn f c = (case c of (s, w, sent) \<Rightarrow> (case f w of (x, w) \<Rightarrow> (x, s, w, sent)))"

text \<open>A label of the reply that is worth another try as long as there is time.\<close>

definition retry_label :: "'w with_txn \<Rightarrow> doc \<Rightarrow> string \<Rightarrow> 'w conn \<Rightarrow> (bool \<times> 'w conn) res" where
  "retry_label wt reply label c =
     bind_res (mongoc_error_has_label reply (str label)) (\<lambda>l.
       if \<not> l then Inr (False, c)
       else (case in_conn (wt_expired wt) c of (x, c) \<Rightarrow> Inr (\<not> x, c)))"

datatype commit_exit = Commit_done cmd_result | Commit_restart "bson_error option"

fun commit_loop :: "nat \<Rightarrow> 'w env \<Rightarrow> 'w with_txn \<Rightarrow> 'w conn \<Rightarrow> (commit_exit \<times> 'w conn) res" where
  "commit_loop 0 env wt c = Inl NoFuel"
| "commit_loop (Suc fuel) env wt c =
     bind_res (commit_transaction env c) (\<lambda>((ret, err, reply), c).
       if ret then Inr (Commit_done (ret, err, reply), c)
       else bind_res (max_time_ms_failure (Some reply)) (\<lambda>m.
         if m then Inr (Commit_done (ret, err, reply), c)
         else bind_res (retry_label wt reply ''UnknownTransactionCommitResult'' c) (\<lambda>(again, c).
           if again then commit_loop fuel env wt c
           else map_res (\<lambda>(restart, c). (if restart then Commit_restart err else Commit_done (ret, err, reply), c))
             (retry_label wt reply ''TransientTransactionError'' c))))"

definition finished :: "txn_state \<Rightarrow> bool" where
  "finished st \<longleftrightarrow> st \<in> {MONGOC_INTERNAL_TRANSACTION_ABORTED, MONGOC_INTERNAL_TRANSACTION_NONE,
     MONGOC_INTERNAL_TRANSACTION_COMMITTED, MONGOC_INTERNAL_TRANSACTION_COMMITTED_EMPTY}"

text \<open>The callback returned false: abort, and say whether to start again.\<close>

definition callback_failed :: "'w env \<Rightarrow> 'w with_txn \<Rightarrow> doc \<Rightarrow> 'w conn \<Rightarrow> (bool \<times> 'w conn) res" where
  "callback_failed env wt reply c =
     bind_res (if in_txn (Some (fst c))
               then bind_res (abort_transaction env c) (\<lambda>(e, c). map_res (\<lambda>_. c) (c_assert (e = None))) else Inr c) (\<lambda>c.
       retry_label wt reply ''TransientTransactionError'' c)"

text \<open>\<open>last_err\<close> is the error that the attempts before have left in the caller's variable.\<close>

fun with_transaction_loop ::
    "nat \<Rightarrow> 'w env \<Rightarrow> 'w with_txn \<Rightarrow> txn_opts option \<Rightarrow> bool \<Rightarrow> bson_error option \<Rightarrow> 'w conn \<Rightarrow> (cmd_result \<times> 'w conn) res" where
  "with_transaction_loop 0 env wt opts is_first last_err c = Inl NoFuel"
| "with_transaction_loop (Suc fuel) env wt opts is_first last_err c =
     (case (if is_first then (False, c) else in_conn (wt_backoff wt) c) of (too_late, c) \<Rightarrow>
       if too_late then Inr ((False, last_err, doc_empty), c)
       else bind_res (start_transaction env opts c) (\<lambda>(err, c).
         if err \<noteq> None then Inr ((False, err, doc_empty), c)
         else bind_res (wt_cb wt c) (\<lambda>((ret, err, reply), c).
           let active_reply = (case reply of None \<Rightarrow> doc_empty | Some d \<Rightarrow> d) in
           if \<not> ret then bind_res (callback_failed env wt active_reply c) (\<lambda>(again, c).
             if again then with_transaction_loop fuel env wt opts False err c else Inr ((ret, err, active_reply), c))
           else if finished (cs_txn_state (fst c)) then Inr ((ret, err, active_reply), c)
           else bind_res (commit_loop (Suc fuel) env wt c) (\<lambda>(x, c). case x of
               Commit_done r \<Rightarrow> Inr (r, c)
             | Commit_restart err \<Rightarrow> with_transaction_loop fuel env wt opts False err c))))"

definition with_transaction ::
    "nat \<Rightarrow> 'w env \<Rightarrow> 'w with_txn \<Rightarrow> txn_opts option \<Rightarrow> 'w conn \<Rightarrow> (cmd_result \<times> 'w conn) res" where
  "with_transaction fuel env wt opts c = with_transaction_loop fuel env wt opts True None c"

end
