(* ===== verification/RunSafe.thy ===== *)
theory RunSafe
  imports AssembleSafe Txn
begin

text \<open>
  Safety of the execution of a command in an environment: the network, the selection of servers and the implicit sessions are
  any functions that return well formed documents and keep a preorder \<open>W\<close> of the worlds. What holds of every such
  environment holds of the code on every reply.
\<close>

section \<open>Environments and runs\<close>

definition client_ok :: "client \<Rightarrow> bool" where
  "client_ok cl \<longleftrightarrow> opt_ok rc_ok (cl_read_concern cl) \<and> opt_ok wc_ok (cl_write_concern cl) \<and> opt_ok prefs_docs_ok (cl_read_prefs cl)"

definition outcome_ok :: "exchange_outcome \<Rightarrow> bool" where
  "outcome_ok out \<longleftrightarrow> (case out of Net_error _ \<Rightarrow> True | Reply d \<Rightarrow> doc_ok d)"

text \<open>An implicit session has another id than the session \<open>n\<close> of the caller, since \<open>mongoc_client_start_session\<close> takes a free one.\<close>

definition env_ok :: "('w \<Rightarrow> 'w \<Rightarrow> bool) \<Rightarrow> nat \<Rightarrow> 'w env \<Rightarrow> bool" where
  "env_ok W n env \<longleftrightarrow> client_ok (ev_client env)
     \<and> (\<forall>w. W w w) \<and> (\<forall>u v w. W u v \<longrightarrow> W v w \<longrightarrow> W u w)
     \<and> (\<forall>ds prefs is_write w. W w (snd (ev_select env ds prefs is_write w)))
     \<and> (\<forall>i w. W w (snd (ev_check_interval env i w)))
     \<and> (\<forall>i w. W w (snd (ev_stream env i w)) \<and> opt_ok stream_ok (fst (fst (ev_stream env i w))) \<and> doc_ok (snd (snd (fst (ev_stream env i w)))))
     \<and> (\<forall>st d w. W w (snd (ev_exchange env st d w)) \<and> outcome_ok (fst (ev_exchange env st d w)))
     \<and> (\<forall>w. W w (snd (ev_implicit env w)) \<and> opt_ok (\<lambda>s. session_ok s \<and> cs_session_id s \<noteq> n) (fst (ev_implicit env w)))"

definition sent_ok :: "doc list \<Rightarrow> doc list \<Rightarrow> bool" where
  "sent_ok sent sent' \<longleftrightarrow> (\<exists>new. sent' = new @ sent \<and> (\<forall>d\<in>set new. doc_ok d))"

lemma sent_ok_refl [simp]: "sent_ok sent sent"
  by (simp add: sent_ok_def)

lemma sent_ok_trans:
  assumes "sent_ok a b" and "sent_ok b c"
  shows "sent_ok a c"
proof -
  from assms obtain m n where "b = m @ a" "\<forall>d\<in>set m. doc_ok d" "c = n @ b" "\<forall>d\<in>set n. doc_ok d"
    unfolding sent_ok_def by blast
  then have "c = (n @ m) @ a \<and> (\<forall>d\<in>set (n @ m). doc_ok d)" by auto
  then show ?thesis unfolding sent_ok_def by blast
qed

lemma sent_ok_Cons: "doc_ok d \<Longrightarrow> sent_ok a b \<Longrightarrow> sent_ok a (d # b)"
  by (rule sent_ok_trans [where b = b]) (auto simp: sent_ok_def intro: exI [of _ "[d]"])

lemma env_okD:
  assumes "env_ok W n env"
  shows "client_ok (ev_client env)" and "W w w" and "W u v \<Longrightarrow> W v w \<Longrightarrow> W u w"
    and "W w (snd (ev_select env ds prefs is_write w))" and "W w (snd (ev_check_interval env i w))"
    and "W w (snd (ev_stream env i w))" and "opt_ok stream_ok (fst (fst (ev_stream env i w)))"
    and "doc_ok (snd (snd (fst (ev_stream env i w))))" and "W w (snd (ev_exchange env st d w))"
    and "outcome_ok (fst (ev_exchange env st d w))" and "W w (snd (ev_implicit env w))"
    and "cs_session_id s0 = n \<Longrightarrow> session_in s0 (fst (ev_implicit env w))"
proof -
  show "client_ok (ev_client env)" "W w w" "W u v \<Longrightarrow> W v w \<Longrightarrow> W u w" "W w (snd (ev_select env ds prefs is_write w))"
    "W w (snd (ev_check_interval env i w))" "W w (snd (ev_stream env i w))" "opt_ok stream_ok (fst (fst (ev_stream env i w)))"
    "doc_ok (snd (snd (fst (ev_stream env i w))))" "W w (snd (ev_exchange env st d w))"
    "outcome_ok (fst (ev_exchange env st d w))" "W w (snd (ev_implicit env w))"
    using assms unfolding env_ok_def by blast+
  have "opt_ok (\<lambda>s. session_ok s \<and> cs_session_id s \<noteq> n) (fst (ev_implicit env w))"
    using assms unfolding env_ok_def by blast
  then show "cs_session_id s0 = n \<Longrightarrow> session_in s0 (fst (ev_implicit env w))"
    by (cases "fst (ev_implicit env w)") (auto simp: session_in_def)
qed

definition run_ok :: "('w \<Rightarrow> 'w \<Rightarrow> bool) \<Rightarrow> 'w conn \<Rightarrow> 'w run \<Rightarrow> bool" where
  "run_ok W c r \<longleftrightarrow> session_in (fst c) (rn_session r) \<and> W (fst (snd c)) (rn_world r) \<and> sent_ok (snd (snd c)) (rn_sent r)"

lemma run_okD: "run_ok W c r \<Longrightarrow> session_in (fst c) (rn_session r)"
  by (simp add: run_ok_def)

lemma run_ok_session: "run_ok W c r \<Longrightarrow> session_in (fst c) s \<Longrightarrow> run_ok W c (r\<lparr>rn_session := s\<rparr>)"
  by (simp add: run_ok_def)

lemma run_ok_upd_session:
  assumes "run_ok W c r" and "\<And>s. session_ok s \<Longrightarrow> later s (f s)"
  shows "run_ok W c (upd_session f r)"
proof (cases "rn_session r")
  case None
  with assms(1) show ?thesis by (simp add: run_ok_def upd_session_def)
next
  case (Some s)
  then have "session_in (fst c) (Some s)" using run_okD [OF assms(1)] by simp
  then have "session_in (fst c) (Some (f s))" by (rule session_in_later) (rule assms(2) [OF session_in_ok], fact)
  with assms(1) Some show ?thesis by (simp add: run_ok_def upd_session_def)
qed

lemma run_ok_pin: "run_ok W c r \<Longrightarrow> run_ok W c (upd_session session_unpin r)" "run_ok W c r \<Longrightarrow> run_ok W c (upd_session (\<lambda>s. session_pin s n) r)"
  by (auto intro!: run_ok_upd_session later_steps later_refl)

section \<open>Selection and streams\<close>

lemma in_world_ok:
  assumes "env_ok W n env" and "run_ok W c r" and "\<And>w. W w (snd (f w))"
  shows "run_ok W c (snd (in_world f r))" and "fst (in_world f r) = fst (f (rn_world r))"
proof -
  have "W (fst (snd c)) (rn_world r)" using assms(2) by (simp add: run_ok_def)
  then have "W (fst (snd c)) (snd (f (rn_world r)))" using env_okD(3) [OF assms(1)] assms(3) by blast
  then show "run_ok W c (snd (in_world f r))" using assms(2) by (simp add: run_ok_def in_world_def case_prod_unfold)
  show "fst (in_world f r) = fst (f (rn_world r))" by (simp add: in_world_def split: prod.splits)
qed

lemma in_world_case:
  assumes "env_ok W n env" and "run_ok W c r" and "\<And>w. W w (snd (f w)) \<and> P (fst (f w))"
    and "\<And>x r. run_ok W c r \<Longrightarrow> P x \<Longrightarrow> safe Q (g x r)"
  shows "safe Q (case in_world f r of (x, r) \<Rightarrow> g x r)"
  using in_world_ok [OF assms(1,2), of f] assms(3,4) by (cases "in_world f r") auto

lemma select_server_id_ok:
  assumes "env_ok W n env" and "run_ok W c r"
  shows "run_ok W c (snd (select_server_id env prefs is_write ds r))"
proof -
  have w: "run_ok W c (snd (in_world (ev_select env ds prefs is_write) r))"
    by (intro in_world_ok [OF assms] env_okD(4) [OF assms(1)])
  obtain sid must err r' where sel: "in_world (ev_select env ds prefs is_write) r = ((sid, must, err), r')"
    by (cases "in_world (ev_select env ds prefs is_write) r") auto
  then have "run_ok W c r'" using w by simp
  then show ?thesis
    using assms(2) unfolding select_server_id_def sel Let_def by (auto intro: run_ok_pin)
qed

definition stream_result :: "('w \<Rightarrow> 'w \<Rightarrow> bool) \<Rightarrow> 'w conn \<Rightarrow> (server_stream option \<times> bson_error \<times> doc) \<times> 'w run \<Rightarrow> bool" where
  "stream_result W c x \<longleftrightarrow> opt_ok stream_ok (fst (fst x)) \<and> doc_ok (snd (snd (fst x))) \<and> run_ok W c (snd x)"

lemma safe_no_server:
  assumes "run_ok W c r" and "\<And>x. stream_result W c x \<Longrightarrow> Q x"
  shows "safe Q (no_server r err)"
  unfolding no_server_def using assms by (intro safe_intro) (auto simp: stream_result_def)

lemma stream_ok_updates [simp]:
  "stream_ok (st\<lparr>st_must_use_primary := b\<rparr>) = stream_ok st" "stream_ok (st\<lparr>st_retry_attempted := b\<rparr>) = stream_ok st"
  by (simp_all add: stream_ok_def)

lemma safe_connect_stream:
  assumes env: "env_ok W n env" and r: "run_ok W c r" and Q: "\<And>x. stream_result W c x \<Longrightarrow> Q x"
  shows "safe Q (connect_stream env is_retryable is_write sid must r)"
proof -
  have st: "W w (snd (ev_stream env sid w)) \<and> (opt_ok stream_ok (fst (fst (ev_stream env sid w))) \<and> doc_ok (snd (snd (fst (ev_stream env sid w)))))" for w
    using env_okD(6-8) [OF env] by blast
  show ?thesis
    unfolding connect_stream_def
  proof (rule in_world_case [OF env r st], clarify, rename_tac r1 stream err reply)
    fix r1 stream and err :: bson_error and reply :: doc
    assume r1: "run_ok W c r1" and "opt_ok stream_ok (fst (stream, err, reply))" "doc_ok (snd (snd (stream, err, reply)))"
    then have reply: "doc_ok reply" and stream: "opt_ok stream_ok stream" by simp_all
    have again: "safe Q (case in_world (ev_stream env sid) r1 of ((stream, _, _), r) \<Rightarrow> (case stream of
                 Some st \<Rightarrow> Inr ((Some (st\<lparr>st_must_use_primary := must, st_retry_attempted := True\<rparr>), err, reply), r)
               | None \<Rightarrow> map_res (\<lambda>reply. ((None, err, reply), r)) (if is_write then append_retryable_label reply else Inr reply)))"
      by (rule in_world_case [OF env r1 st])
        (use reply in \<open>auto intro!: safe_intro Q simp: stream_result_def split: option.splits\<close>)
    show "safe Q (case stream of
         Some st \<Rightarrow> Inr ((Some (st\<lparr>st_must_use_primary := must\<rparr>), err, reply), r1)
       | None \<Rightarrow>
           if is_retryable \<and> (error_is_network (Some err) \<or> error_is_auth (Some err)) then
             (case in_world (ev_stream env sid) r1 of ((stream, _, _), r) \<Rightarrow> (case stream of
                 Some st \<Rightarrow> Inr ((Some (st\<lparr>st_must_use_primary := must, st_retry_attempted := True\<rparr>), err, reply), r)
               | None \<Rightarrow> map_res (\<lambda>reply. ((None, err, reply), r)) (if is_write then append_retryable_label reply else Inr reply)))
           else Inr ((None, err, reply), r1))"
      by (intro safe_case_option safe_if again safe_Inr Q) (use reply stream r1 in \<open>auto simp: stream_result_def\<close>)
  qed
qed

lemma safe_stream_for_optype:
  assumes env: "env_ok W n env" and r: "run_ok W c r" and Q: "\<And>x. stream_result W c x \<Longrightarrow> Q x"
  shows "safe Q (stream_for_optype env prefs is_write is_retryable ds r)"
proof -
  have sel: "safe Q (case select_server_id env prefs is_write ds r of ((sid, must, err), r) \<Rightarrow> f sid must err r)"
    if "run_ok W c r" "\<And>sid must err r. run_ok W c r \<Longrightarrow> safe Q (f sid must err r)" for f r
    using select_server_id_ok [OF env that(1), of prefs is_write ds] that(2)
    by (cases "select_server_id env prefs is_write ds r") auto
  have check: "W w (snd (ev_check_interval env sid w)) \<and> True" for sid w using env_okD(5) [OF env] by simp
  note none = safe_no_server [OF _ Q] and conn = safe_connect_stream [OF env _ Q]
  show ?thesis
    unfolding stream_for_optype_def
    by (rule sel [OF r], rule safe_if, erule none, assumption, rule in_world_case [OF env _ check], assumption, rule safe_if,
        erule conn, assumption, erule sel, rule safe_if, erule none, assumption, erule conn, assumption)
qed

lemma safe_stream_for:
  assumes env: "env_ok W n env" and r: "run_ok W c r" and Q: "\<And>x. stream_result W c x \<Longrightarrow> Q x"
  shows "safe Q (stream_for_reads env prefs ds r)" and "safe Q (stream_for_writes env ds r)"
  unfolding stream_for_reads_def stream_for_writes_def by (rule safe_stream_for_optype [OF env r], erule Q)+

lemma stream_for_server_ok:
  assumes env: "env_ok W n env" and r: "run_ok W c r"
  shows "stream_result W c (stream_for_server env sid r)"
proof -
  have st: "W w (snd (ev_stream env sid w))" "opt_ok stream_ok (fst (fst (ev_stream env sid w)))"
    "doc_ok (snd (snd (fst (ev_stream env sid w))))" for w
    using env_okD(6-8) [OF env] by blast+
  have w: "stream_result W c (in_world (ev_stream env sid) r)"
    using in_world_ok [OF env r, of "ev_stream env sid"] st by (simp add: stream_result_def)
  obtain x r' where x: "in_world (ev_stream env sid) r = (x, r')" by (cases "in_world (ev_stream env sid) r")
  show ?thesis
    using w r unfolding stream_for_server_def x
    by (auto simp: stream_result_def intro: run_ok_pin split: option.splits)
qed

section \<open>One exchange\<close>

definition cmd_result_ok :: "('w \<Rightarrow> 'w \<Rightarrow> bool) \<Rightarrow> 'w conn \<Rightarrow> cmd_result \<times> 'w run \<Rightarrow> bool" where
  "cmd_result_ok W c x \<longleftrightarrow> doc_ok (snd (snd (fst x))) \<and> run_ok W c (snd x)"

lemma safe_handle_network_error:
  assumes r: "run_ok W c r" and Q: "\<And>reply r. doc_ok reply \<Longrightarrow> run_ok W c r \<Longrightarrow> Q (reply, r)"
  shows "safe Q (handle_network_error stream why r)"
proof -
  have dirty: "run_ok W c (upd_session (\<lambda>s. s\<lparr>cs_server_session := (cs_server_session s)\<lparr>ss_dirty := True\<rparr>\<rparr>) r)"
    using r by (auto intro!: run_ok_upd_session later_steps later_refl)
  show ?thesis
    unfolding handle_network_error_def
    by (intro safe_bind safe_if safe_Let safe_map safe_Inr safe_add_error_label safe_add_transient_txn_error Q)
      (use dirty in \<open>auto intro: run_ok_pin\<close>)
qed

lemma safe_run_opmsg:
  assumes env: "env_ok W n env" and r: "run_ok W c r" and d: "doc_ok command" and Q: "\<And>x. cmd_result_ok W c x \<Longrightarrow> Q x"
  shows "safe Q (run_opmsg env parts stream command r)"
  unfolding run_opmsg_def
proof (rule in_world_case [OF env, where P = outcome_ok])
  show "run_ok W c (r\<lparr>rn_sent := command # rn_sent r\<rparr>)" using r d by (simp add: run_ok_def sent_ok_Cons)
  show "W w (snd (ev_exchange env stream command w)) \<and> outcome_ok (fst (ev_exchange env stream command w))" for w
    using env_okD(9,10) [OF env] by blast
  fix out r assume r: "run_ok W c r" and out: "outcome_ok out"
  have reply: "safe Q (bind_res (cmd_check_ok body (cl_error_api (ev_client env))) (\<lambda>err.
             bind_res (case rn_session r of None \<Rightarrow> Inr None
                       | Some s \<Rightarrow> map_res Some (session_handle_reply s (pt_acknowledged parts) (pt_name parts) (Some body))) (\<lambda>s.
               Inr ((err = None, err, copy_doc body), r\<lparr>rn_session := s\<rparr>))))" if body: "doc_ok body" for body
  proof -
    have s: "safe (session_in (fst c)) (case rn_session r of None \<Rightarrow> Inr None
                       | Some s \<Rightarrow> map_res Some (session_handle_reply s (pt_acknowledged parts) (pt_name parts) (Some body)))"
      using run_okD [OF r] body
      by (auto intro!: safe_map safe_handle_reply [OF later_refl] dest: session_in_ok intro: session_in_later split: option.splits)
    show ?thesis
      by (rule safe_bind, rule safe_cmd_check_ok(1) [OF body], rule safe_bind, rule safe_mono [OF s], rule safe_Inr, rule Q)
        (use body in \<open>simp add: cmd_result_ok_def run_ok_session [OF r]\<close>)
  qed
  show "safe Q (case out of
         Net_error why \<Rightarrow> map_res (\<lambda>(reply, r). ((False, Some why, reply), r)) (handle_network_error stream why r)
       | Reply body \<Rightarrow>
           if \<not> pt_acknowledged parts then Inr ((True, None, doc_empty), r)
           else
             bind_res (cmd_check_ok body (cl_error_api (ev_client env))) (\<lambda>err.
             bind_res (case rn_session r of None \<Rightarrow> Inr None
                       | Some s \<Rightarrow> map_res Some (session_handle_reply s (pt_acknowledged parts) (pt_name parts) (Some body))) (\<lambda>s.
               Inr ((err = None, err, copy_doc body), r\<lparr>rn_session := s\<rparr>))))"
  proof (cases out)
    case (Net_error why)
    then show ?thesis
      by (auto intro!: safe_map safe_handle_network_error [OF r] Q simp: cmd_result_ok_def)
  next
    case (Reply body)
    then show ?thesis using reply out r by (auto intro!: Q simp: outcome_ok_def cmd_result_ok_def)
  qed
qed

lemma safe_recovery_token_of:
  assumes "standing it" and "\<And>t. opt_ok doc_ok t \<Longrightarrow> Q t"
  shows "safe Q (recovery_token_of it)"
proof -
  have range: "safe R (rd_range bytes 0 n)" if "n \<le> length bytes" "\<And>bs. length bs = n \<Longrightarrow> R bs" for R bytes n
    using that by simp
  show ?thesis
    unfolding recovery_token_of_def
    using assms(1) by (intro safe_intro range)
      (auto simp: nested_ok_def doc_ok_def BSON_MAX_SIZE_def INT_MAX_def intro!: assms(2))
qed

lemma safe_run_command_monitored:
  assumes env: "env_ok W n env" and r: "run_ok W c r" and d: "doc_ok command" and Q: "\<And>x. cmd_result_ok W c x \<Longrightarrow> Q x"
  shows "safe Q (run_command_monitored env parts stream command r)"
  unfolding run_command_monitored_def
proof (rule safe_bind, rule safe_run_opmsg [OF env r d], clarify, rename_tac ret err reply n r')
  fix ret err r' and data :: "byte list" and n
  assume x: "cmd_result_ok W c ((ret, err, data, n), r')"
  let ?reply = "(data, n)"
  have reply: "doc_ok ?reply" and r': "run_ok W c r'" using x by (simp_all add: cmd_result_ok_def)
  have k: "0 \<notin> set (str ''recoveryToken'')" by (simp add: str_def)
  have token: "run_ok W c (upd_session (\<lambda>s. s\<lparr>cs_token := t\<rparr>) r')" if "opt_ok doc_ok t" for t
    using r' that by (auto intro!: run_ok_upd_session later_steps later_refl)
  show "safe Q (bind_res (if pt_txn_finish parts then apply_retryable_label ret err ?reply (st_sd stream) else Inr ?reply) (\<lambda>reply.
     bind_res (if ret \<and> in_sharded_or_lb_txn env r'
               then bson_iter_init_find (fst reply) (snd reply) (str ''recoveryToken'' @ [0]) else Inr (False, iter_zero)) (\<lambda>(found, it).
       if found then map_res (\<lambda>t. ((ret, err, reply), upd_session (\<lambda>s. s\<lparr>cs_token := t\<rparr>) r')) (recovery_token_of it)
       else Inr ((ret, err, reply), r'))))"
  proof (rule safe_bind, rule safe_mono [where P = doc_ok])
    show "safe doc_ok (if pt_txn_finish parts then apply_retryable_label ret err ?reply (st_sd stream) else Inr ?reply)"
      using reply by (intro safe_intro)
    fix reply :: doc assume reply: "doc_ok reply"
    have find: "safe R (if ret \<and> in_sharded_or_lb_txn env r'
               then bson_iter_init_find (fst reply) (snd reply) (str ''recoveryToken'' @ [0]) else Inr (False, iter_zero))"
      if "\<And>x. found_ok x \<Longrightarrow> R x" for R
      using that by (intro safe_if safe_init_find [OF reply k] safe_Inr) (auto simp: found_ok_def)
    show "safe Q (bind_res (if ret \<and> in_sharded_or_lb_txn env r'
               then bson_iter_init_find (fst reply) (snd reply) (str ''recoveryToken'' @ [0]) else Inr (False, iter_zero)) (\<lambda>(found, it).
       if found then map_res (\<lambda>t. ((ret, err, reply), upd_session (\<lambda>s. s\<lparr>cs_token := t\<rparr>) r')) (recovery_token_of it)
       else Inr ((ret, err, reply), r')))"
      by (rule safe_bind, rule find, intro safe_case_prod safe_if safe_map safe_recovery_token_of safe_Inr Q)
        (use reply r' token in \<open>auto simp: cmd_result_ok_def dest: found_okD\<close>)
  qed
qed

end
