(* ===== verification/CommandSafe.thy ===== *)
theory CommandSafe
  imports RunSafe
begin

text \<open>
  Safety of a command with its retries, for every environment: it returns or stops at one of the faults of \<open>cmd_faults\<close>, the
  loop of the retries ends, every document that is sent is well formed, and the session of the caller is later.
\<close>

section \<open>The loop of the retries\<close>

definition reply_of :: "cmd_result \<Rightarrow> doc" where
  "reply_of r = snd (snd r)"

lemma safe_retryable_loop:
  assumes exec: "\<And>s. I s \<Longrightarrow> safe (\<lambda>x. doc_ok (reply_of (fst x)) \<and> I (snd x)) (execute s)"
    and select: "\<And>ds s. I s \<Longrightarrow> safe (\<lambda>x. I (snd x)) (select ds s)"
    and Q: "\<And>x. doc_ok (reply_of (fst x)) \<Longrightarrow> I (snd x) \<Longrightarrow> Q x"
    and "I s" and "has_room ds" and "0 \<le> attempt" and "attempt \<le> M" and "allowed \<le> M" and "rt_max_adaptive cmd \<le> M"
    and "nat (M - attempt) < fuel"
  shows "safe Q (retryable_loop fuel cmd execute select attempt allowed sd ds s)"
  using assms(4-)
proof (induction fuel arbitrary: attempt allowed sd ds s)
  case (Suc fuel)
  have again: "safe Q (retryable_loop fuel cmd execute select (attempt + 1) allowed' sd' ds' s')"
    if "I s'" "has_room ds'" "attempt + 1 \<le> allowed'" "allowed' \<le> M" for allowed' sd' ds' s'
    using that Suc.prems by (intro Suc.IH) auto
  have max: "(if ov then rt_max_adaptive cmd else allowed) \<le> M" for ov using Suc.prems by simp
  have add: "safe has_room (if b then deprioritized_add ds sd else Inr ds)" for b
    using Suc.prems(2) by (intro safe_if safe_deprioritized_add) auto
  show ?case
    unfolding retryable_loop.simps
  proof (rule safe_bind, rule safe_mono [OF exec [OF Suc.prems(1)]], rule safe_case_prod, rule safe_bind, rule safe_retry_class)
    fix x r s' cls
    assume x: "doc_ok (reply_of (fst x)) \<and> I (snd x)" "x = (r, s')"
    then show "doc_ok (snd (snd r))" by (simp add: reply_of_def)
    have rs: "Q (r, s')" "I s'" using x Q by auto
    have rest: "safe Q (bind_res (if sd_type sd = MONGOC_SERVER_MONGOS \<or> ov \<and> rt_retargeting cmd
                        then deprioritized_add ds sd else Inr ds) (\<lambda>ds.
              bind_res (select ds s') (\<lambda>(sd', s). case sd' of
                  None \<Rightarrow> Inr (r, s)
                | Some sd \<Rightarrow> retryable_loop fuel cmd execute select (attempt + 1) (if ov then rt_max_adaptive cmd else allowed) sd ds s)))"
      if "\<not> attempt + 1 > (if ov then rt_max_adaptive cmd else allowed)" for ov
    proof (rule safe_bind, rule safe_mono [OF add], rule safe_bind, rule safe_mono [OF select [OF rs(2)]])
      fix ds and y :: "server_desc option \<times> 'a" assume "has_room ds" "I (snd y)"
      then show "safe Q (case y of (sd', s) \<Rightarrow> (case sd' of None \<Rightarrow> Inr (r, s)
                | Some sd \<Rightarrow> retryable_loop fuel cmd execute select (attempt + 1) (if ov then rt_max_adaptive cmd else allowed) sd ds s))"
        using that x max [of ov] by (cases y; cases "fst y") (auto intro!: again Q simp del: retryable_loop.simps split del: if_split)
    qed
    show "safe Q (case cls of (is_overload, is_retryable) \<Rightarrow>
       if \<not> is_retryable then Inr (r, s')
       else
         let attempt = attempt + 1;
             allowed_retries = (if is_overload then rt_max_adaptive cmd else allowed)
         in if attempt > allowed_retries then Inr (r, s')
            else
              bind_res (if sd_type sd = MONGOC_SERVER_MONGOS \<or> is_overload \<and> rt_retargeting cmd
                        then deprioritized_add ds sd else Inr ds) (\<lambda>ds.
              bind_res (select ds s') (\<lambda>(sd', s). case sd' of
                  None \<Rightarrow> Inr (r, s)
                | Some sd \<Rightarrow> retryable_loop fuel cmd execute select attempt allowed_retries sd ds s)))"
      unfolding Let_def
      by (rule safe_case_prod, rule safe_if, rule safe_Inr, rule rs(1), rule safe_if, rule safe_Inr, rule rs(1), erule rest)
  qed
qed simp

lemma safe_retryable_cmd_run:
  assumes exec: "\<And>s. I s \<Longrightarrow> safe (\<lambda>x. doc_ok (reply_of (fst x)) \<and> I (snd x)) (execute s)"
    and select: "\<And>ds s. I s \<Longrightarrow> safe (\<lambda>x. I (snd x)) (select ds s)"
    and Q: "\<And>x. doc_ok (reply_of (fst x)) \<Longrightarrow> I (snd x) \<Longrightarrow> Q x" and "I s"
  shows "safe Q (retryable_cmd_run cmd execute select s)"
  unfolding retryable_cmd_run_def
  by (rule safe_retryable_loop [where I = I and M = "max 1 (rt_max_adaptive cmd)"]) (use assms in auto)

lemma safe_case_result:
  "(\<And>x y z w. p = ((x, y, z), w) \<Longrightarrow> safe Q (f x y z w)) \<Longrightarrow> safe Q ((\<lambda>((x, y, z), w). f x y z w) p)"
  by (cases p) auto

section \<open>Attempts\<close>

definition attempt_ok :: "('w \<Rightarrow> 'w \<Rightarrow> bool) \<Rightarrow> 'w conn \<Rightarrow> 'w attempt \<Rightarrow> bool" where
  "attempt_ok W c x \<longleftrightarrow> stream_ok (fst x) \<and> opt_ok (\<lambda>r. doc_ok (reply_of r)) (fst (snd x)) \<and> run_ok W c (snd (snd x))"

lemma safe_write_execute:
  assumes env: "env_ok W n env" and x: "attempt_ok W c x" and d: "doc_ok command"
  shows "safe (\<lambda>x. doc_ok (reply_of (fst x)) \<and> attempt_ok W c (snd x)) (write_execute env parts el command x)"
proof -
  obtain stream saved r where st: "x = (stream, saved, r)" by (cases x) auto
  have ok: "stream_ok stream" "opt_ok (\<lambda>r. doc_ok (reply_of r)) saved" "run_ok W c r" using x by (simp_all add: st attempt_ok_def)
  have label: "safe (\<lambda>x. doc_ok (snd x)) (if el = MONGOC_RETRY_ELIGIBILITY_RETRYABLE_WRITE
               then bind_res (apply_retryable_label ret err reply (st_sd stream)) (\<lambda>reply. update_if_unsupported_engine ret err reply)
               else Inr (err, reply))" if "doc_ok reply" for ret err reply
    using that by (intro safe_if safe_bind safe_apply_retryable_label safe_update_if_unsupported_engine safe_Inr) auto
  have none: "safe R (if saved \<noteq> None then mongoc_error_has_label reply (str ''NoWritesPerformed'') else Inr False)"
    if "doc_ok reply" "\<And>b. R b" for R reply using that by (intro safe_if safe_has_label safe_Inr) auto
  show ?thesis
    unfolding write_execute_def st prod.case
  proof (rule safe_bind, rule safe_run_command_monitored [OF env ok(3) d], clarify)
    fix ret err r' and data :: "byte list" and n
    assume "cmd_result_ok W c ((ret, err, data, n), r')"
    then have r: "doc_ok (data, n)" "run_ok W c r'" by (simp_all add: cmd_result_ok_def)
    show "safe (\<lambda>x. doc_ok (reply_of (fst x)) \<and> attempt_ok W c (snd x)) (bind_res (if el = MONGOC_RETRY_ELIGIBILITY_RETRYABLE_WRITE
               then bind_res (apply_retryable_label ret err (data, n) (st_sd stream)) (\<lambda>reply. update_if_unsupported_engine ret err reply)
               else Inr (err, data, n)) (\<lambda>(err, reply).
     map_res (\<lambda>none_performed.
         ((ret, err, reply), (stream, if saved \<noteq> None \<and> none_performed then saved else Some (ret, err, reply), r')))
       (if saved \<noteq> None then mongoc_error_has_label reply (str ''NoWritesPerformed'') else Inr False)))"
      by (rule safe_bind, rule safe_mono [OF label [OF r(1)]], rule safe_case_prod, rule safe_map, rule none)
        (use ok r in \<open>auto simp: attempt_ok_def reply_of_def\<close>)
  qed
qed

lemma safe_selects:
  assumes env: "env_ok W n env" and x: "attempt_ok W c x"
  shows "safe (\<lambda>x. attempt_ok W c (snd x)) (write_select env ds x)" and "safe (\<lambda>x. attempt_ok W c (snd x)) (read_select env prefs ds x)"
proof -
  obtain stream saved r where st: "x = (stream, saved, r)" by (cases x) auto
  have ok: "stream_ok stream" "opt_ok (\<lambda>r. doc_ok (reply_of r)) saved" "run_ok W c r" using x by (simp_all add: st attempt_ok_def)
  show "safe (\<lambda>x. attempt_ok W c (snd x)) (write_select env ds x)"
    unfolding write_select_def st prod.case
    by (rule safe_map, rule safe_stream_for(2) [OF env ok(3)])
      (use ok in \<open>auto simp: attempt_ok_def stream_result_def split: option.splits\<close>)
  show "safe (\<lambda>x. attempt_ok W c (snd x)) (read_select env prefs ds x)"
    unfolding read_select_def st prod.case
    by (rule safe_map, rule safe_stream_for(1) [OF env ok(3)])
      (use ok in \<open>auto simp: attempt_ok_def stream_result_def split: option.splits\<close>)
qed

lemma safe_read_execute:
  assumes env: "env_ok W n env" and x: "attempt_ok W c x" and d: "doc_ok (sent_command parts)"
  shows "safe (\<lambda>x. doc_ok (reply_of (fst x)) \<and> attempt_ok W c (snd x)) (read_execute env parts x)"
proof -
  obtain stream saved r where st: "x = (stream, saved, r)" by (cases x) auto
  have ok: "stream_ok stream" "opt_ok (\<lambda>r. doc_ok (reply_of r)) saved" "run_ok W c r" using x by (simp_all add: st attempt_ok_def)
  show ?thesis
    unfolding read_execute_def st prod.case
    by (rule safe_map, rule safe_run_command_monitored [OF env ok(3) d])
      (use ok in \<open>auto simp: attempt_ok_def cmd_result_ok_def reply_of_def\<close>)
qed

lemma safe_overwrite_txn_number:
  assumes "doc_ok d" and "\<And>d. doc_ok d \<Longrightarrow> Q d"
  shows "safe Q (overwrite_txn_number d n)"
proof -
  have k: "0 \<notin> set (str ''txnNumber'')" by (simp add: str_def)
  have new: "doc_ok (take i (fst d) @ mlib_write_u64le w @ drop (i + 8) (fst d), snd d)" for i w
    using assms(1) unfolding doc_ok_def by (simp add: min_def) arith
  show ?thesis
    unfolding overwrite_txn_number_def
    by (rule safe_bind, rule safe_init_find [OF assms(1) k], intro safe_case_prod safe_bind safe_assert safe_map safe_iter_type(2) assms(2))
      (use assms(1) new in \<open>auto dest: found_okD\<close>)
qed

lemma safe_next_txn_number:
  assumes p: "parts_ok (fst c) parts" and r: "run_ok W c r" and Q: "\<And>x. doc_ok (fst x) \<Longrightarrow> run_ok W c (snd x) \<Longrightarrow> Q x"
  shows "safe Q (next_txn_number parts r)"
proof -
  have d: "doc_ok (sent_command parts)" by (rule doc_ok_sent_command [OF p])
  have up: "run_ok W c (upd_session (\<lambda>s. s\<lparr>cs_server_session := (cs_server_session s)\<lparr>ss_txn_number := ss_txn_number (cs_server_session s0) + 1\<rparr>\<rparr>) r)"
    if "rn_session r = Some s0" for s0
  proof -
    have s: "session_in (fst c) (Some s0)" using run_okD [OF r] that by simp
    have "later s0 (s0\<lparr>cs_server_session := (cs_server_session s0)\<lparr>ss_txn_number := ss_txn_number (cs_server_session s0) + 1\<rparr>\<rparr>)"
      using later_steps(7) [OF later_refl [OF session_in_ok [OF s]]] by simp
    from session_in_later [OF s this] show ?thesis using r that by (simp add: upd_session_def run_ok_def)
  qed
  show ?thesis
    unfolding next_txn_number_def
    by (intro safe_if safe_bind safe_deref safe_chk64 safe_map safe_overwrite_txn_number [OF d] safe_Inr Q) (use d r up in auto)
qed

section \<open>Commands\<close>

lemma safe_run_retryable_write:
  assumes env: "env_ok W n env" and p: "parts_ok (fst c) parts" and st: "stream_ok stream" and r: "run_ok W c r"
    and Q: "\<And>x. cmd_result_ok W c x \<Longrightarrow> Q x"
  shows "safe Q (run_retryable_write env parts stream r)"
  unfolding run_retryable_write_def
  apply (rule safe_bind, rule safe_next_txn_number [OF p r], rule safe_case_prod, rule safe_Let, rule safe_bind)
  apply (rule safe_retryable_cmd_run [where I = "attempt_ok W c"])
  subgoal by (rule safe_write_execute [OF env]) simp_all
  subgoal by (rule safe_selects(1) [OF env])
  subgoal using Q by (auto simp: attempt_ok_def reply_of_def cmd_result_ok_def split: option.splits prod.splits)
  subgoal using st by (simp add: attempt_ok_def)
  done

lemma safe_run_retryable_read:
  assumes env: "env_ok W n env" and p: "parts_ok (fst c) parts" and st: "stream_ok stream" and r: "run_ok W c r"
    and Q: "\<And>x. cmd_result_ok W c x \<Longrightarrow> Q x"
  shows "safe Q (run_retryable_read env parts stream r)"
  unfolding run_retryable_read_def
  by (rule safe_map, rule safe_retryable_cmd_run [where I = "attempt_ok W c"],
      erule safe_read_execute [OF env], rule doc_ok_sent_command [OF p], erule safe_selects(2) [OF env])
    (use r st Q in \<open>auto simp: attempt_ok_def reply_of_def cmd_result_ok_def\<close>)

lemma safe_command_with_stream:
  assumes env: "env_ok W (cs_session_id (fst c)) env" and p: "parts_ok (fst c) parts" and st: "stream_ok stream" and r: "run_ok W c r"
    and Q: "\<And>x. cmd_result_ok W c x \<Longrightarrow> Q x"
  shows "safe Q (command_with_stream env parts stream r)"
  unfolding command_with_stream_def
proof (rule in_world_case [OF env r, where P = "session_in (fst c)"])
  show "W w (snd ((if pt_session parts = None then ev_implicit env else (\<lambda>w. (None, w))) w))
      \<and> session_in (fst c) (fst ((if pt_session parts = None then ev_implicit env else (\<lambda>w. (None, w))) w))" for w
    using env_okD(11) [OF env] env_okD(12) [OF env refl] env_okD(2) [OF env] by simp
  fix implicit r assume r: "run_ok W c r" and imp: "session_in (fst c) implicit"
  show "safe Q (bind_res (parts_assemble (ev_client env) implicit (ev_now env (rn_world r)) parts stream) (\<lambda>(err, parts).
       let r = r\<lparr>rn_session := pt_session parts\<rparr> in
       if err \<noteq> None then Inr ((False, err, doc_empty), r)
       else if pt_is_write parts then run_retryable_write env parts stream r
       else run_retryable_read env parts stream r))"
  proof (rule safe_bind, rule safe_parts_assemble [OF p imp st], rule safe_case_prod, rule safe_Let)
    fix x :: "bson_error option \<times> cmd_parts" and err parts' r'
    assume x: "parts_ok (fst c) (snd x)" "x = (err, parts')" and "r' = r\<lparr>rn_session := pt_session parts'\<rparr>"
    then have r': "run_ok W c r'" using run_ok_session [OF r] parts_okD(7) [of "fst c" parts'] by simp
    show "safe Q (if err \<noteq> None then Inr ((False, err, doc_empty), r')
       else if pt_is_write parts' then run_retryable_write env parts' stream r'
       else run_retryable_read env parts' stream r')"
      by (intro safe_if safe_Inr Q safe_run_retryable_write [OF env _ st r'] safe_run_retryable_read [OF env _ st r'])
        (use x r' in \<open>auto simp: cmd_result_ok_def\<close>)
  qed
qed

lemma safe_read_prefs_validate:
  "opt_ok prefs_docs_ok prefs \<Longrightarrow> (\<And>x. Q x) \<Longrightarrow> safe Q (read_prefs_validate prefs)"
  unfolding read_prefs_validate_def read_prefs_is_valid_def
  by (intro safe_intro) (auto simp: prefs_docs_ok_def)

lemma safe_command_with_opts:
  assumes env: "env_ok W (cs_session_id (fst c)) env" and d: "doc_ok command" and opts: "opt_ok doc_ok opts" and look: "lookup_ok (fst c) lookup"
    and prefs: "opt_ok prefs_docs_ok up" "opt_ok prefs_docs_ok dp" and rc: "opt_ok rc_ok rc" and wc: "opt_ok wc_ok wc"
    and r: "run_ok W c r" and Q: "\<And>x. cmd_result_ok W c x \<Longrightarrow> Q x"
  shows "safe Q (command_with_opts env lookup db_name command mode opts flags up dp rc wc r)"
proof -
  have fail: "safe Q (Inr ((False, e, doc_empty), r))" if "run_ok W c r" for e r
    using that by (intro safe_Inr Q) (simp add: cmd_result_ok_def)
  have finish: "safe Q ((\<lambda>((ret, err, reply), r).
       if ret \<and> mode_writes mode then map_res (\<lambda>wce. ((wce = None, wce, reply), r)) (parse_wc_err reply)
       else Inr ((ret, err, reply), r)) x)" if "cmd_result_ok W c x" for x
  proof -
    obtain ret err reply r' where x: "x = ((ret, err, reply), r')" by (cases x) auto
    have "doc_ok reply" "run_ok W c r'" using that by (simp_all add: x cmd_result_ok_def)
    then show ?thesis
      unfolding x prod.case
      by (intro safe_if safe_map safe_parse_wc_err safe_Inr Q) (simp_all add: cmd_result_ok_def)
  qed
  have execute: "safe Q (let parts = (if b then parts\<lparr>pt_user_flags := pt_user_flags parts OR MONGOC_QUERY_SECONDARY_OK\<rparr> else parts) in
                      bind_res (command_parts mode rc wc (rw\<lparr>rw_session := rn_session r\<rparr>) parts) (\<lambda>(err, parts).
                      if err \<noteq> None then Inr ((False, err, doc_empty), r)
                      else
                        bind_res (command_with_stream env parts stream r) (\<lambda>((ret, err, reply), r).
                        if ret \<and> mode_writes mode
                        then map_res (\<lambda>wce. ((wce = None, wce, reply), r)) (parse_wc_err reply)
                        else Inr ((ret, err, reply), r))))"
    if "stream_ok stream" "run_ok W c r" "rw_ok (fst c) rw" "parts_ok (fst c) parts" for b parts rw r stream
  proof (rule safe_Let, rule safe_bind, rule safe_command_parts [where ?s0.0 = "fst c", OF _ _ rc wc])
    show "rw_ok (fst c) (rw\<lparr>rw_session := rn_session r\<rparr>)" using that run_okD [OF that(2)] by (simp add: rw_ok_def)
    fix p assume "p = (if b then parts\<lparr>pt_user_flags := pt_user_flags parts OR MONGOC_QUERY_SECONDARY_OK\<rparr> else parts)"
    with that show "parts_ok (fst c) p" by simp
    fix x :: "bson_error option \<times> cmd_parts" assume *: "parts_ok (fst c) (snd x)"
    show "safe Q (case x of (err, parts) \<Rightarrow>
                      if err \<noteq> None then Inr ((False, err, doc_empty), r)
                      else
                        bind_res (command_with_stream env parts stream r) (\<lambda>((ret, err, reply), r).
                        if ret \<and> mode_writes mode
                        then map_res (\<lambda>wce. ((wce = None, wce, reply), r)) (parse_wc_err reply)
                        else Inr ((ret, err, reply), r)))"
    proof (rule safe_case_prod, rule safe_if)
      fix err parts' assume x: "x = (err, parts')"
      show "safe Q (Inr ((False, err, doc_empty), r))" by (rule fail [OF that(2)])
      show "safe Q (bind_res (command_with_stream env parts' stream r) (\<lambda>((ret, err, reply), r).
                        if ret \<and> mode_writes mode
                        then map_res (\<lambda>wce. ((wce = None, wce, reply), r)) (parse_wc_err reply)
                        else Inr ((ret, err, reply), r)))"
        using * x by (intro safe_bind safe_command_with_stream [OF env _ that(1,2)] finish) auto
    qed
  qed
  have check: "safe R (txn_check mode name up rw)" if "rw_ok (fst c) rw" "\<And>x. R x" for R name rw
    using that unfolding txn_check_def by (intro safe_intro) (auto simp: rw_ok_def)
  have stream: "safe R (if rw_server_id rw \<noteq> 0 then Inr (stream_for_server env (rw_server_id rw) r)
                          else if mode_writes mode then stream_for_writes env None r
                          else stream_for_reads env p None r)"
    if "run_ok W c r" "\<And>x. stream_result W c x \<Longrightarrow> R x" for R rw r p
    using that by (intro safe_if safe_Inr that(2) stream_for_server_ok [OF env that(1)]
        safe_stream_for(1) [OF env that(1) that(2)] safe_stream_for(2) [OF env that(1) that(2)])
  have valid: "safe R (if b then read_prefs_validate (if up \<noteq> None then up else dp) else Inr True)" if "\<And>x. R x" for R b
    using that prefs by (intro safe_if safe_read_prefs_validate safe_Inr) auto
  show ?thesis
    unfolding command_with_opts_def
    apply (rule safe_Let, rule safe_Let, rule safe_bind, rule safe_get_command_name [OF d], rule safe_bind,
        rule safe_rw_opts_parse [OF opts look], rule safe_case_option)
    subgoal by (simp add: fail [OF r, simplified])
    apply (rule safe_Let, rule safe_case_option)
    subgoal using r by (simp add: fail [OF run_ok_session, simplified] Q cmd_result_ok_def run_ok_session rw_ok_def)
    apply (rule safe_bind, rule check)
    subgoal by simp
    apply (rule safe_case_option)
    apply (rule safe_Let, rule safe_bind, simp only:, rule valid, rule safe_if)
    subgoal using r by (simp add: Q cmd_result_ok_def run_ok_session rw_ok_def)
    apply (rule safe_Let, rule safe_Let, rule safe_bind, rule stream)
    subgoal using r by (simp add: run_ok_session rw_ok_def)
    apply (rule safe_case_result, rule safe_case_option)
    subgoal by (simp add: Q cmd_result_ok_def stream_result_def)
    apply (rule execute)
    subgoal by (simp add: stream_result_def)
    subgoal by (simp add: stream_result_def)
    subgoal by simp
    subgoal using prefs parts_ok_init [OF d] by (auto intro!: parts_ok_content)
    subgoal using r by (simp add: Q cmd_result_ok_def run_ok_session rw_ok_def)
    done
qed

end
