(* ===== verification/TxnSafe.thy ===== *)
theory TxnSafe
  imports CommandSafe
begin

text \<open>
  The operations of a session: they return or stop at a fault of \<open>cmd_faults\<close>, they keep the session well formed, and
  they follow the diagram of the states of a transaction.
\<close>

section \<open>Commands of a session\<close>

definition conn_le :: "('w \<Rightarrow> 'w \<Rightarrow> bool) \<Rightarrow> 'w conn \<Rightarrow> 'w conn \<Rightarrow> bool" where
  "conn_le W c c' \<longleftrightarrow> later (fst c) (fst c') \<and> W (fst (snd c)) (fst (snd c')) \<and> sent_ok (snd (snd c)) (snd (snd c'))"

lemma conn_le_refl: "env_ok W n env \<Longrightarrow> session_ok (fst c) \<Longrightarrow> conn_le W c c"
  by (simp add: conn_le_def later_refl env_okD)

lemma conn_le_trans:
  assumes "env_ok W n env" and "conn_le W a b" and "conn_le W b c"
  shows "conn_le W a c"
  using assms(2,3) later_trans env_okD(3) [OF assms(1)] sent_ok_trans unfolding conn_le_def by blast

lemma conn_le_session: "conn_le W c (s, x) \<Longrightarrow> later s s' \<Longrightarrow> conn_le W c (s', x)"
  unfolding conn_le_def by (auto intro: later_trans)

lemma conn_leD: "conn_le W c (s, w, sent) \<Longrightarrow> session_ok s" "conn_le W c c' \<Longrightarrow> session_ok (fst c')"
  "conn_le W c c' \<Longrightarrow> cs_session_id (fst c') = cs_session_id (fst c)"
  by (simp_all add: conn_le_def later_def session_le_def same_session_def)

definition op_post :: "('w \<Rightarrow> 'w \<Rightarrow> bool) \<Rightarrow> 'w conn \<Rightarrow> cmd_result \<times> 'w conn \<Rightarrow> bool" where
  "op_post W c x \<longleftrightarrow> doc_ok (reply_of (fst x)) \<and> conn_le W c (snd x)"

lemma op_post_simps [simp]: "op_post W c ((ret, err, reply), c') \<longleftrightarrow> doc_ok reply \<and> conn_le W c c'"
  by (simp add: op_post_def reply_of_def)

lemma safe_session_command:
  assumes env: "env_ok W (cs_session_id s) env" and s: "session_ok s" and b: "body_ok cmd" "body_ok opts"
    and Q: "\<And>x. op_post W (s, w, sent) x \<Longrightarrow> Q x"
  shows "safe Q (session_command env mode db cmd opts s w sent)"
proof -
  have cl: "opt_ok prefs_docs_ok (if mode = MONGOC_CMD_RAW then None else cl_read_prefs (ev_client env))"
    "opt_ok rc_ok (cl_read_concern (ev_client env))" "opt_ok wc_ok (cl_write_concern (ev_client env))"
    using env_okD(1) [OF env] by (simp_all add: client_ok_def)
  have look: "lookup_ok s (lookup_session s)"
    using s by (simp add: lookup_ok_def lookup_session_def session_in_self)
  have r: "run_ok W (s, w, sent) \<lparr>rn_session = None, rn_world = w, rn_sent = sent\<rparr>"
    using env_okD(2) [OF env] by (simp add: run_ok_def)
  show ?thesis
    unfolding session_command_def
  proof (rule safe_map, rule safe_command_with_opts [where c = "(s, w, sent)" and W = W], simp_all only: fst_conv)
    fix x :: "cmd_result \<times> 'a run" assume x: "cmd_result_ok W (s, w, sent) x"
    obtain y r where xr: "x = (y, r)" by (cases x)
    have ok: "doc_ok (reply_of y)" "session_in s (rn_session r)" "W w (rn_world r)" "sent_ok sent (rn_sent r)"
      using x by (simp_all add: xr cmd_result_ok_def run_ok_def reply_of_def)
    have "later s (case rn_session r of None \<Rightarrow> s | Some s' \<Rightarrow> if cs_session_id s' = cs_session_id s then s' else s)"
      using ok(2) s by (cases "rn_session r") (auto simp: session_in_def later_def)
    then show "Q (case x of (x, r) \<Rightarrow> (x, (case rn_session r of None \<Rightarrow> s | Some s' \<Rightarrow> if cs_session_id s' = cs_session_id s then s' else s),
        rn_world r, rn_sent r))"
      using ok unfolding xr prod.case by (intro Q) (simp add: op_post_def conn_le_def)
  qed (use env b cl look r in simp_all)
qed

text \<open>A command after \<open>c\<close>, on a session that is later than the one of \<open>c\<close>.\<close>

lemma op_post_trans:
  assumes "env_ok W n env" and "conn_le W c d" and "op_post W d x"
  shows "op_post W c x"
  using assms(3) conn_le_trans [OF assms(1,2)] unfolding op_post_def by blast

lemma safe_next_command:
  assumes env: "env_ok W (cs_session_id (fst c)) env" and c: "conn_le W c (s, w, sent)" and b: "body_ok cmd" "body_ok opts"
    and Q: "\<And>x. op_post W c x \<Longrightarrow> Q x"
  shows "safe Q (session_command env mode db cmd opts s w sent)"
proof -
  have env': "env_ok W (cs_session_id s) env" using env conn_leD(3) [OF c] by simp
  show ?thesis
    by (rule safe_session_command [OF env' conn_leD(1) [OF c] b], rule Q, erule op_post_trans [OF env c])
qed

section \<open>Abort\<close>

lemma body_ok_finish_command [simp]: "body_ok (finish_command name s)"
  by (simp add: finish_command_def Let_def split: option.splits)

lemma later_txn_wc: "later s0 s \<Longrightarrow> wc_ok wc \<Longrightarrow> later s0 (set_txn_wc s wc)"
  by (erule later_trans) (simp add: later_def session_le_defs session_ok_def set_txn_wc_def txn_opts_ok_def)

lemma session_ok_wc: "session_ok s \<Longrightarrow> to_write_concern (cs_txn_opts s) = Some wc \<Longrightarrow> wc_ok wc"
  by (auto simp: session_ok_def txn_opts_ok_def)

lemma safe_abort_opts:
  assumes s: "session_ok s" and Q: "\<And>x. opt_ok body_ok (fst x) \<Longrightarrow> later s (snd x) \<Longrightarrow> Q x"
  shows "safe Q (abort_opts s)"
proof -
  obtain ok opts where x: "session_append s [] = (ok, opts)" by (cases "session_append s []")
  have b: "body_ok opts" using body_ok_session_append [OF x] by simp
  show ?thesis
  proof (cases "to_write_concern (cs_txn_opts s)")
    case None
    then show ?thesis using b s by (simp add: abort_opts_def x Q later_refl)
  next
    case (Some wc)
    have wc: "wc_ok wc" by (rule session_ok_wc [OF s Some])
    have "safe Q (map_res (\<lambda>(ok, opts, wc). (if ok then Some opts else None, set_txn_wc s wc)) (wc_append wc opts))"
    proof (rule safe_map, rule safe_wc_append [OF wc b], clarify)
      fix ok :: bool and opts' wc' assume *: "body_ok (fst (snd (ok, opts', wc')))" "wc_ok (snd (snd (ok, opts', wc')))"
      show "Q (if ok then Some opts' else None, set_txn_wc s wc')"
        by (rule Q) (use * later_txn_wc [OF later_refl [OF s]] in simp_all)
    qed
    then show ?thesis using s by (simp add: abort_opts_def x Some Q later_refl)
  qed
qed

lemma conn_le_unpin: "conn_le W c (s, w, sent) \<Longrightarrow> conn_le W c (session_unpin s, w, sent)"
  by (rule conn_le_session, assumption, rule later_steps(1), rule later_refl, rule conn_leD(1))

lemma conn_le_start: "env_ok W n env \<Longrightarrow> later s s' \<Longrightarrow> conn_le W (s, w, sent) (s', w, sent)"
  by (simp add: conn_le_def env_okD)

lemma safe_finish_abort:
  assumes "op_post W c x" and "\<And>x. conn_le W c (snd x) \<Longrightarrow> Q x"
  shows "Q ((\<lambda>((ret, _, _), s, w, sent). (ret, if ret then s else session_unpin s, w, sent)) x)"
proof -
  obtain ret err reply s w sent where x: "x = ((ret, err, reply), s, w, sent)" by (cases x) auto
  have "conn_le W c (s, w, sent)" using assms(1) by (simp add: x)
  then show ?thesis unfolding x prod.case by (intro assms(2)) (simp add: conn_le_unpin)
qed

lemma safe_txn_abort:
  assumes env: "env_ok W (cs_session_id (fst c)) env" and s: "session_ok (fst c)" and Q: "\<And>x. conn_le W c (snd x) \<Longrightarrow> Q x"
  shows "safe Q (txn_abort env c)"
proof -
  obtain s0 w0 sent0 where c: "c = (s0, w0, sent0)" by (cases c) auto
  let ?more = "\<lambda>opts cmd ((ret, err, reply), s, w, sent).
     bind_res (mongoc_error_has_label reply (str ''RetryableWriteError'')) (\<lambda>again.
     map_res (\<lambda>((ret, _, _), s, w, sent). (ret, if ret then s else session_unpin s, w, sent))
       (if again then session_command env MONGOC_CMD_WRITE (str ''admin'') cmd opts (session_unpin s) w sent
        else Inr ((ret, err, reply), s, w, sent)))"
  have more: "safe Q (?more opts cmd x)" if x: "op_post W c x" and b: "body_ok cmd" "body_ok opts" for opts cmd x
  proof -
    obtain ret err reply s w sent where xs: "x = ((ret, err, reply), s, w, sent)" by (cases x) auto
    have ok: "doc_ok reply" "conn_le W c (s, w, sent)" using x by (simp_all add: xs)
    show ?thesis
      unfolding xs prod.case
      apply (rule safe_bind, rule safe_has_label [OF ok(1)])
      apply (rule safe_map, rule safe_if)
      apply (rule safe_next_command [OF env conn_le_unpin [OF ok(2)] b])
      apply (rule safe_finish_abort [where Q = Q], assumption, erule Q)
      apply (rule safe_Inr)
      apply (rule safe_finish_abort [OF x [unfolded xs], where Q = Q], erule Q)
      done
  qed
  show ?thesis
    unfolding txn_abort_def c prod.case
  proof (rule safe_bind, rule safe_abort_opts)
    show "session_ok s0" using s by (simp add: c)
    fix x :: "body option \<times> session" assume x: "opt_ok body_ok (fst x)" "later s0 (snd x)"
    obtain opts s1 where xs: "x = (opts, s1)" by (cases x)
    have s1: "conn_le W c (s1, w0, sent0)" using x(2) unfolding c xs by (simp add: conn_le_start [OF env])
    show "safe Q (case x of (opts, s) \<Rightarrow> (case opts of
         None \<Rightarrow> Inr (False, s, w0, sent0)
       | Some opts \<Rightarrow>
           let cmd = finish_command (str ''abortTransaction'') s in
           bind_res (session_command env MONGOC_CMD_WRITE (str ''admin'') cmd opts s w0 sent0) (?more opts cmd)))"
    proof (cases opts)
      case None
      then show ?thesis using s1 by (simp add: xs Q)
    next
      case (Some opts')
      have b: "body_ok opts'" using x by (simp add: xs Some)
      show ?thesis
        unfolding xs Some prod.case option.case Let_def
        by (rule safe_bind, rule safe_next_command [OF env s1 body_ok_finish_command b], erule more [OF _ body_ok_finish_command b])
    qed
  qed
qed

section \<open>Commit\<close>

lemma safe_commit_retry_wc: "(\<And>wc. wc_ok wc \<Longrightarrow> Q wc) \<Longrightarrow> safe Q (create_commit_retry_wc existing)"
  using wc_ok_copy [of existing]
  by (cases "write_concern_copy existing") (auto simp: create_commit_retry_wc_def Let_def intro!: safe_wc_set_w)

definition opts_post :: "session \<Rightarrow> (body + bson_error) \<times> write_concern option \<times> session \<Rightarrow> bool" where
  "opts_post s x \<longleftrightarrow> (case fst x of Inl b \<Rightarrow> body_ok b | Inr _ \<Rightarrow> True) \<and> opt_ok wc_ok (fst (snd x)) \<and> later s (snd (snd x))"

lemma safe_commit_append:
  assumes s: "session_ok s" and b: "body_ok opts" and wc: "opt_ok wc_ok retry_wc" and Q: "\<And>x. opts_post s x \<Longrightarrow> Q x"
  shows "safe Q (case retry_wc of
      Some wc \<Rightarrow> map_res (\<lambda>(ok, opts, wc).
        (if ok then Inl opts else Inr (txn_error ''Invalid transaction write concern''), Some wc, s)) (wc_append wc opts)
    | None \<Rightarrow> (case to_write_concern (cs_txn_opts s) of
          None \<Rightarrow> Inr (Inl opts, None, s)
        | Some wc \<Rightarrow> map_res (\<lambda>(ok, opts, wc).
            (if ok then Inl opts else Inr (txn_error ''Invalid transaction write concern''), None, set_txn_wc s wc)) (wc_append wc opts)))"
proof -
  have append: "safe Q (map_res (\<lambda>(ok, opts, wc). (if ok then Inl opts else Inr err, f wc, g wc)) (wc_append wc opts))"
    if "wc_ok wc" "\<And>wc. wc_ok wc \<Longrightarrow> opt_ok wc_ok (f wc) \<and> later s (g wc)" for wc f g err
    by (rule safe_map, rule safe_wc_append [OF that(1) b]) (use that(2) in \<open>auto intro!: Q simp: opts_post_def\<close>)
  show ?thesis
  proof (cases retry_wc)
    case (Some wc')
    with wc s show ?thesis by (auto intro!: append later_refl)
  next
    case None
    then show ?thesis
      using session_ok_wc [OF s] b s later_txn_wc [OF later_refl [OF s]]
      by (cases "to_write_concern (cs_txn_opts s)") (auto intro!: append Q simp: opts_post_def later_refl)
  qed
qed

lemma safe_commit_opts:
  assumes s: "session_ok s" and wc: "opt_ok wc_ok retry_wc" and Q: "\<And>x. opts_post s x \<Longrightarrow> Q x"
  shows "safe Q (commit_opts cl retrying retry_wc s)"
proof -
  obtain ok opts where x: "session_append s [] = (ok, opts)" by (cases "session_append s []")
  have b: "body_ok opts" using body_ok_session_append [OF x] by simp
  obtain ok' opts' where y: "(if to_max_commit_time (cs_txn_opts s) \<noteq> DEFAULT_MAX_COMMIT_TIME_MS
      then append_e opts (e_int64 (str ''maxTimeMS'') (word_of_int (to_max_commit_time (cs_txn_opts s)))) else (True, opts)) = (ok', opts')"
    by (cases "if to_max_commit_time (cs_txn_opts s) \<noteq> DEFAULT_MAX_COMMIT_TIME_MS
      then append_e opts (e_int64 (str ''maxTimeMS'') (word_of_int (to_max_commit_time (cs_txn_opts s)))) else (True, opts)")
  have b': "body_ok opts'" using y b by (auto dest: body_ok_append_eD split: if_splits)
  have err: "Q (Inr e, retry_wc, s)" for e using wc s by (intro Q) (simp add: opts_post_def later_refl)
  have retry: "safe R (if retry_wc = None \<and> retrying
      then map_res Some (create_commit_retry_wc (if to_write_concern (cs_txn_opts s) \<noteq> None
                                                 then to_write_concern (cs_txn_opts s) else cl_write_concern cl)) else Inr retry_wc)"
    if "\<And>wc. opt_ok wc_ok wc \<Longrightarrow> R wc" for R
    by (rule safe_if, rule safe_map, rule safe_commit_retry_wc) (use that wc in simp_all)
  show ?thesis
    unfolding commit_opts_def x prod.case y
    by (rule safe_if, rule safe_Inr, rule err, rule safe_if, rule safe_Inr, rule err, rule safe_bind, rule retry,
        rule safe_commit_append [OF s b'], assumption, erule Q)
qed

definition attempt_post :: "('w \<Rightarrow> 'w \<Rightarrow> bool) \<Rightarrow> 'w conn \<Rightarrow> (bool \<times> cmd_result \<times> write_concern option) \<times> 'w conn \<Rightarrow> bool" where
  "attempt_post W c x \<longleftrightarrow> doc_ok (reply_of (fst (snd (fst x)))) \<and> opt_ok wc_ok (snd (snd (fst x))) \<and> conn_le W c (snd x)"

lemma safe_commit_attempt:
  assumes env: "env_ok W (cs_session_id (fst c)) env" and le: "conn_le W c d" and wc: "opt_ok wc_ok retry_wc" and b: "body_ok cmd"
    and Q: "\<And>x. attempt_post W c x \<Longrightarrow> Q x"
  shows "safe Q (commit_attempt env retrying cmd retry_wc before d)"
proof -
  obtain s w sent where d: "d = (s, w, sent)" by (cases d) auto
  have s: "session_ok s" using conn_leD(1) [OF le [unfolded d]] .
  show ?thesis
    unfolding commit_attempt_def d prod.case
  proof (rule safe_bind, rule safe_commit_opts [OF s wc])
    fix x :: "(body + bson_error) \<times> write_concern option \<times> session" assume x: "opts_post s x"
    obtain o' wc' s' where xs: "x = (o', wc', s')" by (cases x) auto
    have ok: "opt_ok wc_ok wc'" "conn_le W c (s', w, sent)"
      using x conn_le_session [OF le [unfolded d]] by (simp_all add: opts_post_def xs)
    show "safe Q (case x of (opts, retry_wc, s) \<Rightarrow> (case opts of
         Inr err \<Rightarrow> Inr ((False, (fst before, Some err, doc_empty), retry_wc), s, w, sent)
       | Inl opts \<Rightarrow> map_res (\<lambda>(x, c). ((True, x, retry_wc), c))
           (session_command env MONGOC_CMD_WRITE (str ''admin'') cmd opts s w sent)))"
    proof (cases o')
      case (Inl opts)
      have b': "body_ok opts" using x by (simp add: xs opts_post_def Inl)
      have "safe Q (map_res (\<lambda>(x, c). ((True, x, wc'), c)) (session_command env MONGOC_CMD_WRITE (str ''admin'') cmd opts s' w sent))"
        by (rule safe_map, rule safe_next_command [OF env ok(2) b b'])
          (use ok(1) in \<open>auto intro!: Q simp: attempt_post_def op_post_def\<close>)
      then show ?thesis by (simp add: xs Inl)
    next
      case (Inr err)
      then show ?thesis using ok by (auto intro!: Q simp: xs attempt_post_def reply_of_def)
    qed
  qed
qed

lemma safe_commit_finish:
  assumes x: "doc_ok (reply_of x)" and le: "conn_le W c d" and Q: "\<And>y. op_post W c y \<Longrightarrow> Q y"
  shows "safe Q (commit_finish error_type x d)"
proof -
  obtain ret err reply where xs: "x = (ret, err, reply)" by (cases x) auto
  obtain s w sent where d: "d = (s, w, sent)" by (cases d) auto
  have r: "doc_ok reply" using x by (simp add: xs reply_of_def)
  have le': "conn_le W c (s, w, sent)" using le by (simp add: d)
  show ?thesis
    unfolding commit_finish_def xs d prod.case
    by (rule safe_if, rule safe_bind, rule safe_copy_doc_excluding [OF r body_ok_Nil], rule safe_map,
        rule safe_copy_labels_and_upsert [OF r])
      (use r le' in \<open>auto intro!: Q simp: conn_le_unpin\<close>)
qed

lemma safe_txn_commit:
  assumes env: "env_ok W (cs_session_id (fst c)) env" and s: "session_ok (fst c)" and Q: "\<And>x. op_post W c x \<Longrightarrow> Q x"
  shows "safe Q (txn_commit env retrying c)"
proof -
  let ?cmd = "finish_command (str ''commitTransaction'') (fst c)"
  let ?last = "\<lambda>((was_sent, x, _), c).
      if \<not> was_sent then Inr (x, c)
      else bind_res (write_error_get_type (snd (snd x))) (\<lambda>error_type. commit_finish error_type x c)"
  have post: "doc_ok (reply_of x)" "doc_ok (snd (snd x))" "opt_ok wc_ok wc" "conn_le W c d" "op_post W c (x, d)"
    if "attempt_post W c ((was_sent, x, wc), d)" for was_sent x wc d
    using that by (simp_all add: attempt_post_def op_post_def reply_of_def)
  have last: "safe Q (?last y)" if "attempt_post W c y" for y
  proof -
    obtain was_sent x wc d where y: "y = ((was_sent, x, wc), d)" by (cases y) auto
    note p = post [OF that [unfolded y]]
    show ?thesis
      unfolding y prod.case
      by (rule safe_if, rule safe_Inr, rule Q [OF p(5)], rule safe_bind, rule safe_error_types(2) [OF p(2)],
          rule safe_commit_finish [OF p(1,4)], erule Q)
  qed
  let ?first = "\<lambda>((was_sent, x, retry_wc), c').
      if \<not> was_sent then Inr (x, c')
      else bind_res (write_error_get_type (snd (snd x))) (\<lambda>error_type.
        if error_type \<noteq> MONGOC_WRITE_ERR_RETRY then commit_finish error_type x c'
        else bind_res (commit_attempt env True ?cmd retry_wc x (session_unpin (fst c'), snd c')) ?last)"
  have first: "safe Q (?first y)" if "attempt_post W c y" for y
  proof -
    obtain was_sent x wc d where y: "y = ((was_sent, x, wc), d)" by (cases y) auto
    note p = post [OF that [unfolded y]]
    have d: "conn_le W c (session_unpin (fst d), snd d)" using p(4) by (cases d) (simp add: conn_le_unpin)
    show ?thesis
      unfolding y prod.case
      by (rule safe_if, rule safe_Inr, rule Q [OF p(5)], rule safe_bind, rule safe_error_types(2) [OF p(2)], rule safe_if,
          rule safe_commit_finish [OF p(1,4)], erule Q, rule safe_bind,
          rule safe_commit_attempt [OF env d p(3) body_ok_finish_command], rule last)
  qed
  show ?thesis
    unfolding txn_commit_def Let_def
    by (rule safe_bind, rule safe_commit_attempt [OF env conn_le_refl [OF env s] _ body_ok_finish_command], simp, rule first)
qed

end
