(* ===== verification/SessionStep.thy ===== *)
theory SessionStep
  imports TxnSafe
begin

text \<open>
  The operations that a user calls on a session, the diagram of the states of a transaction that they follow, and the
  relation of a step on a session.
\<close>

section \<open>The diagram\<close>

inductive txn_edge :: "txn_state \<Rightarrow> txn_state \<Rightarrow> bool" where
  edge_stay: "txn_edge st st"
| edge_start: "st \<notin> {MONGOC_INTERNAL_TRANSACTION_STARTING, MONGOC_INTERNAL_TRANSACTION_IN_PROGRESS, MONGOC_INTERNAL_TRANSACTION_ENDING}
    \<Longrightarrow> txn_edge st MONGOC_INTERNAL_TRANSACTION_STARTING"
| edge_progress: "txn_edge MONGOC_INTERNAL_TRANSACTION_STARTING MONGOC_INTERNAL_TRANSACTION_IN_PROGRESS"
| edge_empty: "txn_edge MONGOC_INTERNAL_TRANSACTION_STARTING MONGOC_INTERNAL_TRANSACTION_COMMITTED_EMPTY"
| edge_commit: "txn_edge MONGOC_INTERNAL_TRANSACTION_IN_PROGRESS MONGOC_INTERNAL_TRANSACTION_COMMITTED"
| edge_abort: "st \<in> {MONGOC_INTERNAL_TRANSACTION_STARTING, MONGOC_INTERNAL_TRANSACTION_IN_PROGRESS}
    \<Longrightarrow> txn_edge st MONGOC_INTERNAL_TRANSACTION_ABORTED"
| edge_reset: "st \<in> {MONGOC_INTERNAL_TRANSACTION_COMMITTED, MONGOC_INTERNAL_TRANSACTION_COMMITTED_EMPTY, MONGOC_INTERNAL_TRANSACTION_ABORTED}
    \<Longrightarrow> txn_edge st MONGOC_INTERNAL_TRANSACTION_NONE"

code_pred txn_edge .

inductive_simps txn_edge_ending: "txn_edge MONGOC_INTERNAL_TRANSACTION_ENDING st" "txn_edge st MONGOC_INTERNAL_TRANSACTION_ENDING"

lemma txn_next_edge: "txn_next st st' \<Longrightarrow> txn_edge st st'"
  unfolding txn_next_def by (auto intro: txn_edge.intros)

section \<open>The change of an operation\<close>

definition op_le :: "('w \<Rightarrow> 'w \<Rightarrow> bool) \<Rightarrow> 'w conn \<Rightarrow> 'w conn \<Rightarrow> bool" where
  "op_le W c c' \<longleftrightarrow> session_ok (fst c') \<and> same_session (fst c) (fst c') \<and> W (fst (snd c)) (fst (snd c')) \<and> sent_ok (snd (snd c)) (snd (snd c'))"

lemma op_le_refl: "env_ok W n env \<Longrightarrow> session_ok (fst c) \<Longrightarrow> op_le W c c"
  by (simp add: op_le_def env_okD)

lemma op_le_trans:
  assumes "env_ok W n env" and "op_le W a b" and "op_le W b c"
  shows "op_le W a c"
  using assms(2,3) same_session_trans env_okD(3) [OF assms(1)] sent_ok_trans unfolding op_le_def by blast

lemma conn_le_op: "conn_le W c c' \<Longrightarrow> op_le W c c'"
  by (simp add: conn_le_def op_le_def later_def session_le_def)

lemma conn_le_edge: "conn_le W c c' \<Longrightarrow> txn_edge (cs_txn_state (fst c)) (cs_txn_state (fst c'))"
  by (auto simp: conn_le_def later_def session_le_def intro: txn_next_edge)

lemma op_leD:
  assumes "op_le W c c'"
  shows "session_ok (fst c')" and "cs_session_id (fst c') = cs_session_id (fst c)" and "same_session (fst c) (fst c')"
  using assms by (simp_all add: op_le_def same_session_def)

lemma op_le_state:
  "op_le W c (set_state st c') = op_le W c c'" "op_le W (set_state st c) c' = op_le W c c'"
  by (simp_all add: op_le_def set_state_def session_ok_def same_session_def operation_time_def snapshot_time_def)

lemma session_ok_unpin [simp]: "session_ok (session_unpin s) = session_ok s"
  by (simp add: session_unpin_def session_ok_def)

lemma same_session_unpin [simp]: "same_session s (session_unpin s') = same_session s s'"
  by (simp add: session_unpin_def same_session_def operation_time_def snapshot_time_def)

lemma session_ok_state [simp]: "session_ok (s\<lparr>cs_txn_state := st\<rparr>) = session_ok s"
  by (simp add: session_ok_def)

section \<open>Start\<close>

text \<open>The selection of a server only changes the pin of a session.\<close>

definition pinned :: "session \<Rightarrow> 'w run \<Rightarrow> bool" where
  "pinned s r \<longleftrightarrow> (\<exists>n. rn_session r = Some (s\<lparr>cs_server_id := n\<rparr>))"

lemma pinned_world: "pinned s r \<Longrightarrow> pinned s (snd (in_world f r))"
  by (simp add: pinned_def in_world_def split: prod.splits)

lemma pinned_session:
  assumes "pinned s r"
  shows "pinned s (upd_session session_unpin r)" and "pinned s (upd_session (\<lambda>s. session_pin s n) r)"
  using assms by (auto simp: pinned_def upd_session_def session_unpin_def session_pin_def)

lemma pinned_in_world: "in_world f r = (x, r') \<Longrightarrow> pinned s r \<Longrightarrow> pinned s r'"
  using pinned_world [of s r f] by simp

lemma pinned_select: "select_server_id env prefs is_write ds r = (x, r') \<Longrightarrow> pinned s r \<Longrightarrow> pinned s r'"
  unfolding select_server_id_def Let_def
  by (auto split: if_splits prod.splits intro: pinned_session dest: pinned_in_world)

lemma pinned_no_server: "no_server r err = Inr (x, r') \<Longrightarrow> pinned s r \<Longrightarrow> pinned s r'"
  unfolding no_server_def by (cases "add_transient_txn_error (rn_session r) doc_empty") auto

lemma pinned_connect:
  assumes "connect_stream env retryable is_write sid must r = Inr (x, r')" and "pinned s r"
  shows "pinned s r'"
proof -
  obtain st err reply r1 where 1: "in_world (ev_stream env sid) r = ((st, err, reply), r1)"
    by (cases "in_world (ev_stream env sid) r") auto
  obtain st2 err2 reply2 r2 where 2: "in_world (ev_stream env sid) r1 = ((st2, err2, reply2), r2)"
    by (cases "in_world (ev_stream env sid) r1") auto
  have p: "pinned s r1" "pinned s r2" using pinned_in_world [OF 1 assms(2)] pinned_in_world [OF 2] by auto
  show ?thesis
    using assms(1) p unfolding connect_stream_def 1 prod.case 2
    by (cases "append_retryable_label reply") (auto split: option.splits if_splits)
qed

lemma pinned_stream:
  assumes "stream_for_writes env ds r = Inr (x, r')" and "pinned s r"
  shows "pinned s r'"
proof -
  note sel = pinned_select [where env = env and prefs = None and is_write = True and ds = ds]
  note rest = pinned_connect pinned_no_server pinned_in_world
  show ?thesis
    using assms unfolding stream_for_writes_def stream_for_optype_def
    by (auto split: prod.splits if_splits dest!: sel dest: rest)
qed

lemma pinned_state: "pinned s r \<Longrightarrow> rn_session r = Some s' \<Longrightarrow> session_ok s \<Longrightarrow> later s s' \<and> cs_txn_state s' = cs_txn_state s
    \<and> cs_server_session s' = cs_server_session s \<and> cs_opts s' = cs_opts s"
  by (auto simp: pinned_def later_def session_le_def same_session_def txn_next_def session_ok_def operation_time_def snapshot_time_def time_le_def)

lemma txn_opts_ok_set:
  assumes "txn_opts_ok t" and "opt_ok prefs_docs_ok rp"
  shows "txn_opts_ok (txn_opts_set t rc wc rp ms)"
proof -
  have "opt_ok rc_ok (read_concern_copy rc)" "opt_ok wc_ok (write_concern_copy wc)" by simp_all
  with assms show ?thesis by (simp add: txn_opts_ok_def txn_opts_set_def Let_def)
qed

lemma txn_opts_ok_override: "txn_opts_ok t \<Longrightarrow> txn_opts_ok t' \<Longrightarrow>
    txn_opts_ok (txn_opts_set t (to_read_concern t') (to_write_concern t') (to_read_prefs t') (to_max_commit_time t'))"
  by (rule txn_opts_ok_set) (simp_all add: txn_opts_ok_def)

text \<open>What a call of \<open>mongoc_client_session_start_transaction\<close> does to the session.\<close>

definition started :: "session \<Rightarrow> session \<Rightarrow> bool" where
  "started s s' \<longleftrightarrow> cs_txn_state s \<notin> {MONGOC_INTERNAL_TRANSACTION_STARTING, MONGOC_INTERNAL_TRANSACTION_IN_PROGRESS, MONGOC_INTERNAL_TRANSACTION_ENDING}
     \<and> cs_txn_state s' = MONGOC_INTERNAL_TRANSACTION_STARTING \<and> \<not> session_opts_get_snapshot (cs_opts s)
     \<and> ss_txn_number (cs_server_session s') = ss_txn_number (cs_server_session s) + 1
     \<and> wc_is_acknowledged (to_write_concern (cs_txn_opts s')) \<and> cs_server_id s' = 0 \<and> cs_token s' = None"

definition start_post :: "session \<Rightarrow> bson_error option \<times> session \<Rightarrow> bool" where
  "start_post s x \<longleftrightarrow> session_ok (snd x) \<and> same_session s (snd x)
     \<and> (if fst x = None then started s (snd x) else cs_txn_state (snd x) = cs_txn_state s)"

lemma session_ok_opts: "session_ok s \<Longrightarrow> txn_opts_ok t \<Longrightarrow>
    session_ok (s\<lparr>cs_server_session := (cs_server_session s)\<lparr>ss_txn_number := n\<rparr>, cs_txn_opts := t\<rparr>)"
  by (simp add: session_ok_def)

lemma same_session_opts: "ss_txn_number (cs_server_session s) \<le> n \<Longrightarrow>
    same_session s (s\<lparr>cs_server_session := (cs_server_session s)\<lparr>ss_txn_number := n\<rparr>, cs_txn_opts := t\<rparr>)"
  by (simp add: same_session_def operation_time_def snapshot_time_def time_le_def)

lemma safe_start_checked:
  assumes s: "session_ok s" and opts: "opt_ok txn_opts_ok opts" and Q: "\<And>x. start_post s x \<Longrightarrow> Q x"
  shows "safe Q (start_checked opts s)"
proof -
  let ?d = "so_default_txn (cs_opts s)"
  have same: "Q (Some e, s)" for e using s by (intro Q) (simp add: start_post_def)
  have "txn_opts_ok (cs_txn_opts s)" "txn_opts_ok ?d" using s by (simp_all add: session_ok_def)
  then have t1: "txn_opts_ok (txn_opts_set (cs_txn_opts s) (to_read_concern ?d) (to_write_concern ?d) (to_read_prefs ?d) (to_max_commit_time ?d))"
    (is "txn_opts_ok ?t1") by (rule txn_opts_ok_override)
  have t2: "txn_opts_ok (case opts of None \<Rightarrow> ?t1
      | Some o' \<Rightarrow> txn_opts_set ?t1 (to_read_concern o') (to_write_concern o') (to_read_prefs o') (to_max_commit_time o'))" (is "txn_opts_ok ?t2")
    using t1 opts txn_opts_ok_override by (cases opts) auto
  let ?s = "s\<lparr>cs_server_session := (cs_server_session s)\<lparr>ss_txn_number := ss_txn_number (cs_server_session s) + 1\<rparr>, cs_txn_opts := ?t2\<rparr>"
  have ok: "session_ok ?s" "same_session s ?s" by (rule session_ok_opts [OF s t2], rule same_session_opts) simp
  have refused: "Q (Some e, ?s)" for e using ok by (intro Q) (simp add: start_post_def)
  have go: "Q (None, (session_unpin ?s)\<lparr>cs_txn_state := MONGOC_INTERNAL_TRANSACTION_STARTING, cs_token := None\<rparr>)"
    if "wc_is_acknowledged (to_write_concern ?t2)" "\<not> session_opts_get_snapshot (cs_opts s)"
      "cs_txn_state s \<notin> {MONGOC_INTERNAL_TRANSACTION_STARTING, MONGOC_INTERNAL_TRANSACTION_IN_PROGRESS, MONGOC_INTERNAL_TRANSACTION_ENDING}"
  proof (rule Q)
    have "session_ok ((session_unpin ?s)\<lparr>cs_txn_state := MONGOC_INTERNAL_TRANSACTION_STARTING, cs_token := None\<rparr>)"
      using ok(1) by (simp add: session_ok_def session_unpin_def)
    moreover have "same_session s ((session_unpin ?s)\<lparr>cs_txn_state := MONGOC_INTERNAL_TRANSACTION_STARTING, cs_token := None\<rparr>)"
      by (simp add: same_session_def session_unpin_def operation_time_def snapshot_time_def time_le_def)
    ultimately show "start_post s (None, (session_unpin ?s)\<lparr>cs_txn_state := MONGOC_INTERNAL_TRANSACTION_STARTING, cs_token := None\<rparr>)"
      using that unfolding start_post_def started_def by (simp add: session_unpin_def)
  qed
  show ?thesis
    unfolding start_checked_def
  proof (rule safe_if, rule safe_Inr, rule same, rule safe_if, rule safe_Inr, rule same, rule safe_if, rule safe_Inl)
    show "AssertFail \<in> cmd_faults" by (simp add: cmd_faults_def)
    assume st: "\<not> session_opts_get_snapshot (cs_opts s)"
      "\<not> (cs_txn_state s = MONGOC_INTERNAL_TRANSACTION_STARTING \<or> cs_txn_state s = MONGOC_INTERNAL_TRANSACTION_IN_PROGRESS)"
      "cs_txn_state s \<noteq> MONGOC_INTERNAL_TRANSACTION_ENDING"
    show "safe Q (bind_res (chk64 (ss_txn_number (cs_server_session s) + 1)) (\<lambda>n.
        let dflt = ?d;
            t = txn_opts_set (cs_txn_opts s) (to_read_concern dflt) (to_write_concern dflt) (to_read_prefs dflt) (to_max_commit_time dflt);
            t = (case opts of None \<Rightarrow> t
              | Some o' \<Rightarrow> txn_opts_set t (to_read_concern o') (to_write_concern o') (to_read_prefs o') (to_max_commit_time o'));
            s = s\<lparr>cs_server_session := (cs_server_session s)\<lparr>ss_txn_number := n\<rparr>, cs_txn_opts := t\<rparr>
        in if \<not> wc_is_acknowledged (to_write_concern t)
           then Inr (Some (txn_error ''Transactions do not support unacknowledged write concern''), s)
           else Inr (None, (session_unpin s)\<lparr>cs_txn_state := MONGOC_INTERNAL_TRANSACTION_STARTING, cs_token := None\<rparr>)))"
    proof (cases "int64_range (ss_txn_number (cs_server_session s) + 1)")
      case True
      have eq: "chk64 (ss_txn_number (cs_server_session s) + 1) = Inr (ss_txn_number (cs_server_session s) + 1)"
        using True by (simp add: chk64_def)
      show ?thesis
        unfolding Let_def eq bind_res_simps
        by (rule safe_if, rule safe_Inr, rule refused, rule safe_Inr, rule go) (use st in auto)
    next
      case False
      then show ?thesis by (simp add: chk64_def cmd_faults_def)
    qed
  qed
qed

lemma safe_stream_pinned:
  assumes env: "env_ok W (cs_session_id s) env" and s: "session_ok s"
    and Q: "\<And>st err reply r. pinned s r \<Longrightarrow> W w (rn_world r) \<Longrightarrow> sent_ok sent (rn_sent r) \<Longrightarrow> Q ((st, err, reply), r)"
  shows "safe Q (stream_for_writes env None \<lparr>rn_session = Some s, rn_world = w, rn_sent = sent\<rparr>)"
    (is "safe Q (stream_for_writes env None ?r)")
proof -
  have r: "run_ok W (s, w, sent) ?r" using env_okD(2) [OF env] session_in_self [OF s] by (simp add: run_ok_def)
  have 1: "safe (stream_result W (s, w, sent)) (stream_for_writes env None ?r)" by (rule safe_stream_for(2) [OF env r])
  have p: "pinned s ?r" unfolding pinned_def by (rule exI [of _ "cs_server_id s"]) simp
  show ?thesis
  proof (cases "stream_for_writes env None ?r")
    case (Inl e)
    with 1 show ?thesis by simp
  next
    case (Inr x)
    obtain st err reply r' where x: "x = ((st, err, reply), r')" by (cases x) auto
    have "pinned s r'" by (rule pinned_stream [OF Inr [unfolded x] p])
    moreover have "W w (rn_world r')" "sent_ok sent (rn_sent r')" using 1 by (simp_all add: Inr x stream_result_def run_ok_def)
    ultimately have "Q x" unfolding x by (rule Q)
    with Inr show ?thesis by simp
  qed
qed

definition start_txn_post :: "('w \<Rightarrow> 'w \<Rightarrow> bool) \<Rightarrow> 'w conn \<Rightarrow> bson_error option \<times> 'w conn \<Rightarrow> bool" where
  "start_txn_post W c x \<longleftrightarrow> op_le W c (snd x)
     \<and> (if fst x = None then started (fst c) (fst (snd x)) else cs_txn_state (fst (snd x)) = cs_txn_state (fst c))"

lemma same_session_sym_id: "same_session s s' \<Longrightarrow> cs_session_id s' = cs_session_id s"
  by (simp add: same_session_def)

lemma safe_start_transaction:
  assumes env: "env_ok W (cs_session_id (fst c)) env" and s: "session_ok (fst c)" and opts: "opt_ok txn_opts_ok opts"
    and Q: "\<And>x. start_txn_post W c x \<Longrightarrow> Q x"
  shows "safe Q (start_transaction env opts c)"
proof -
  obtain s0 w sent where c: "c = (s0, w, sent)" by (cases c) auto
  have s0: "session_ok s0" and env0: "env_ok W (cs_session_id s0) env" using s env by (simp_all add: c)
  have end_run: "safe Q (let s = (case rn_session r of None \<Rightarrow> s0 | Some s \<Rightarrow> s) in
       if st = None then Inr (Some err, s, rn_world r, rn_sent r)
       else map_res (\<lambda>(e, s). (e, s, rn_world r, rn_sent r)) (start_checked opts s))"
    if p: "pinned s0 r" and w: "W w (rn_world r)" "sent_ok sent (rn_sent r)" for st :: "server_stream option" and err r
  proof -
    obtain s1 where s1: "rn_session r = Some s1" using p by (auto simp: pinned_def)
    note ps = pinned_state [OF p s1 s0]
    have ok: "session_ok s1" "same_session s0 s1" using ps by (simp_all add: later_def session_le_def)
    have fail: "Q (Some err, s1, rn_world r, rn_sent r)" using ok ps w by (intro Q) (simp add: start_txn_post_def op_le_def c)
    have go: "Q ((\<lambda>(e, s). (e, s, rn_world r, rn_sent r)) x)" if "start_post s1 x" for x
      using that ok ps w same_session_trans [OF ok(2)]
      by (cases x) (auto intro!: Q simp: start_txn_post_def start_post_def op_le_def c started_def)
    show ?thesis
      unfolding s1 Let_def option.case
      by (rule safe_if, rule safe_Inr, rule fail, rule safe_map, rule safe_start_checked [OF ok(1) opts], erule go)
  qed
  show ?thesis
    unfolding start_transaction_def c prod.case
    by (rule safe_bind, rule safe_stream_pinned [OF env0 s0]) (simp add: end_run)
qed

section \<open>Commit and abort\<close>

text \<open>An operation follows the diagram.\<close>

definition edge_post :: "('w \<Rightarrow> 'w \<Rightarrow> bool) \<Rightarrow> 'w conn \<Rightarrow> 'w conn \<Rightarrow> bool" where
  "edge_post W c c' \<longleftrightarrow> op_le W c c' \<and> txn_edge (cs_txn_state (fst c)) (cs_txn_state (fst c'))"

lemma edge_post_stay: "env_ok W n env \<Longrightarrow> session_ok (fst c) \<Longrightarrow> edge_post W c c"
  by (simp add: edge_post_def op_le_refl edge_stay)

lemma edge_post_state: "op_le W c c' \<Longrightarrow> txn_edge (cs_txn_state (fst c)) st \<Longrightarrow> edge_post W c (set_state st c')"
  by (simp add: edge_post_def op_le_state) (simp add: set_state_def)

lemma fst_set_state [simp]: "fst (set_state st c) = (fst c)\<lparr>cs_txn_state := st\<rparr>" "snd (set_state st c) = snd c"
  by (simp_all add: set_state_def)

lemma edge_post_unpin: "edge_post W c (s, x) \<Longrightarrow> edge_post W c (session_unpin s, x)"
  by (simp add: edge_post_def op_le_def) (simp add: session_unpin_def)

definition commit_post :: "('w \<Rightarrow> 'w \<Rightarrow> bool) \<Rightarrow> 'w conn \<Rightarrow> cmd_result \<times> 'w conn \<Rightarrow> bool" where
  "commit_post W c x \<longleftrightarrow> doc_ok (reply_of (fst x)) \<and> edge_post W c (snd x)
     \<and> (fst (fst x) \<longrightarrow> cs_txn_state (fst (snd x)) \<in> {MONGOC_INTERNAL_TRANSACTION_COMMITTED, MONGOC_INTERNAL_TRANSACTION_COMMITTED_EMPTY})"

lemma doc_ok_fail_commit [simp]: "doc_ok (fail_commit_reply label)"
  by (simp add: fail_commit_reply_def)

lemma safe_committing:
  assumes env: "env_ok W (cs_session_id (fst c)) env" and s: "session_ok (fst c)" and Q: "\<And>x. commit_post W c x \<Longrightarrow> Q x"
    and edge: "txn_edge (cs_txn_state (fst c)) MONGOC_INTERNAL_TRANSACTION_COMMITTED"
  shows "safe Q (map_res (\<lambda>(x, c). (x, set_state MONGOC_INTERNAL_TRANSACTION_COMMITTED c))
           (txn_commit env retrying (set_state MONGOC_INTERNAL_TRANSACTION_ENDING c)))"
proof (rule safe_map, rule safe_txn_commit)
  show "env_ok W (cs_session_id (fst (set_state MONGOC_INTERNAL_TRANSACTION_ENDING c))) env" using env by simp
  show "session_ok (fst (set_state MONGOC_INTERNAL_TRANSACTION_ENDING c))" using s by simp
  fix x assume "op_post W (set_state MONGOC_INTERNAL_TRANSACTION_ENDING c) x"
  then have x: "doc_ok (reply_of (fst x))" "op_le W c (snd x)" by (auto simp: op_post_def op_le_state dest: conn_le_op)
  show "Q (case x of (x, c) \<Rightarrow> (x, set_state MONGOC_INTERNAL_TRANSACTION_COMMITTED c))"
    unfolding case_prod_unfold
    by (rule Q) (use x edge_post_state [OF x(2) edge] in \<open>simp add: commit_post_def\<close>)
qed

lemma safe_commit_transaction:
  assumes env: "env_ok W (cs_session_id (fst c)) env" and s: "session_ok (fst c)" and Q: "\<And>x. commit_post W c x \<Longrightarrow> Q x"
  shows "safe Q (commit_transaction env c)"
proof -
  have stay: "Q ((False, e, r), c)" if "doc_ok r" for e r
    using that by (intro Q) (simp add: commit_post_def edge_post_stay [OF env s] reply_of_def)
  have empty: "Q ((True, None, doc_empty), set_state MONGOC_INTERNAL_TRANSACTION_COMMITTED_EMPTY c)"
    if "txn_edge (cs_txn_state (fst c)) MONGOC_INTERNAL_TRANSACTION_COMMITTED_EMPTY"
    using edge_post_state [OF op_le_refl [OF env s] that] by (intro Q) (simp add: commit_post_def reply_of_def)
  have ending: "AssertFail \<in> cmd_faults" by (simp add: cmd_faults_def)
  have committing: "safe Q (map_res (\<lambda>(x, c). (x, set_state MONGOC_INTERNAL_TRANSACTION_COMMITTED c))
           (txn_commit env retrying (set_state MONGOC_INTERNAL_TRANSACTION_ENDING c)))"
    if "txn_edge (cs_txn_state (fst c)) MONGOC_INTERNAL_TRANSACTION_COMMITTED" for retrying
    by (rule safe_committing [OF env s _ that], erule Q)
  show ?thesis
  proof (cases "cs_fail_label (fst c)")
    case (Some label)
    then show ?thesis by (simp add: commit_transaction_def stay)
  next
    case None
    then show ?thesis
      unfolding commit_transaction_def None option.case
      using stay empty ending
      by (cases "cs_txn_state (fst c)") (auto intro!: committing intro: txn_edge.intros)
  qed
qed

definition abort_post :: "('w \<Rightarrow> 'w \<Rightarrow> bool) \<Rightarrow> 'w conn \<Rightarrow> bson_error option \<times> 'w conn \<Rightarrow> bool" where
  "abort_post W c x \<longleftrightarrow> edge_post W c (snd x)
     \<and> (fst x = None \<longleftrightarrow> cs_txn_state (fst c) \<in> {MONGOC_INTERNAL_TRANSACTION_STARTING, MONGOC_INTERNAL_TRANSACTION_IN_PROGRESS})
     \<and> (fst x = None \<longrightarrow> cs_txn_state (fst (snd x)) = MONGOC_INTERNAL_TRANSACTION_ABORTED \<and> cs_server_id (fst (snd x)) = 0)"

lemma safe_abort_transaction:
  assumes env: "env_ok W (cs_session_id (fst c)) env" and s: "session_ok (fst c)" and Q: "\<And>x. abort_post W c x \<Longrightarrow> Q x"
  shows "safe Q (abort_transaction env c)"
proof -
  let ?abort = "MONGOC_INTERNAL_TRANSACTION_ABORTED"
  have refused: "Q (Some e, c)"
    if "cs_txn_state (fst c) \<notin> {MONGOC_INTERNAL_TRANSACTION_STARTING, MONGOC_INTERNAL_TRANSACTION_IN_PROGRESS}" for e
    using that by (intro Q) (simp add: abort_post_def edge_post_stay [OF env s])
  have early: "Q (None, (session_unpin ((fst c)\<lparr>cs_txn_state := ?abort\<rparr>))\<lparr>cs_txn_opts := txn_opts_cleanup (cs_txn_opts (fst c))\<rparr>, snd c)"
    if "cs_txn_state (fst c) = MONGOC_INTERNAL_TRANSACTION_STARTING"
    using that s env_okD(2) [OF env]
    by (intro Q) (simp add: abort_post_def edge_post_def op_le_def session_ok_def same_session_def session_unpin_def operation_time_def
        snapshot_time_def time_le_def txn_opts_ok_def txn_opts_cleanup_def txn_edge.simps)
  have late: "safe Q (map_res (\<lambda>(_, c). (case set_state ?abort c of (s, x) \<Rightarrow> (None, session_unpin s, x)))
           (txn_abort env (set_state MONGOC_INTERNAL_TRANSACTION_ENDING c)))"
    if st: "cs_txn_state (fst c) = MONGOC_INTERNAL_TRANSACTION_IN_PROGRESS"
  proof (rule safe_map, rule safe_txn_abort)
    show "env_ok W (cs_session_id (fst (set_state MONGOC_INTERNAL_TRANSACTION_ENDING c))) env" using env by simp
    show "session_ok (fst (set_state MONGOC_INTERNAL_TRANSACTION_ENDING c))" using s by simp
    fix x :: "bool \<times> 'a conn" assume "conn_le W (set_state MONGOC_INTERNAL_TRANSACTION_ENDING c) (snd x)"
    from conn_le_op [OF this] have le: "op_le W c (snd x)" by (simp only: op_le_state)
    obtain b s1 x1 where x: "x = (b, s1, x1)" by (cases x) auto
    have "edge_post W c (session_unpin (s1\<lparr>cs_txn_state := ?abort\<rparr>), x1)"
      using edge_post_state [OF le edge_abort] st unfolding x by (intro edge_post_unpin) (simp add: set_state_def)
    then have post: "abort_post W c (None, session_unpin (s1\<lparr>cs_txn_state := ?abort\<rparr>), x1)"
      using st by (simp add: abort_post_def session_unpin_def)
    show "Q (case x of (_, c) \<Rightarrow> (case set_state ?abort c of (s, x) \<Rightarrow> (None, session_unpin s, x)))"
      using post by (simp add: x set_state_def Q)
  qed
  show ?thesis
    unfolding abort_transaction_def using refused early late
    by (cases "cs_txn_state (fst c)") (auto simp: set_state_def cmd_faults_def session_unpin_def)
qed

end
