(* ===== verification/WithTxn.thy ===== *)
theory WithTxn
  imports SessionStep
begin

text \<open>
  A step of a session as a relation, the invariant of the sessions that steps reach, and the loop of
  \<open>mongoc_client_session_with_transaction\<close>, which stops when its deadline passes.
\<close>

section \<open>Steps\<close>

inductive session_step :: "'w env \<Rightarrow> 'w conn \<Rightarrow> 'w conn \<Rightarrow> bool" for env where
  step_start: "opt_ok txn_opts_ok opts \<Longrightarrow> start_transaction env opts c = Inr (err, c') \<Longrightarrow> session_step env c c'"
| step_commit: "commit_transaction env c = Inr (x, c') \<Longrightarrow> session_step env c c'"
| step_abort: "abort_transaction env c = Inr (err, c') \<Longrightarrow> session_step env c c'"
| step_command: "body_ok cmd \<Longrightarrow> body_ok opts \<Longrightarrow>
    session_command env mode db cmd opts s w sent = Inr (x, c') \<Longrightarrow> session_step env (s, w, sent) c'"
| step_cluster_time: "doc_ok t \<Longrightarrow> session_advance_cluster_time s t = Inr s' \<Longrightarrow> session_step env (s, w, sent) (s', w, sent)"
| step_operation_time: "session_step env (s, w, sent) (session_advance_operation_time s t i, w, sent)"

lemma safe_Inr_elim: "safe Q r \<Longrightarrow> r = Inr x \<Longrightarrow> Q x"
  by simp

lemma started_edge: "started s s' \<Longrightarrow> txn_edge (cs_txn_state s) (cs_txn_state s')"
  by (auto simp: started_def intro: edge_start)

lemma conn_le_edge_post: "conn_le W c c' \<Longrightarrow> edge_post W c c'"
  by (simp add: edge_post_def conn_le_op conn_le_edge)

lemma start_edge_post: "start_txn_post W c (err, c') \<Longrightarrow> edge_post W c c'"
  by (cases "err = None") (simp_all add: start_txn_post_def edge_post_def started_edge edge_stay)

lemma session_step_edge:
  assumes "session_step env c c'" and env: "env_ok W (cs_session_id (fst c)) env" and s: "session_ok (fst c)"
  shows "edge_post W c c'"
  using assms(1)
proof cases
  case (step_start opts err)
  have "start_txn_post W c (err, c')"
    by (rule safe_Inr_elim [OF safe_start_transaction [OF env s step_start(1)] step_start(2)])
  then show ?thesis by (rule start_edge_post)
next
  case (step_commit x)
  have "commit_post W c (x, c')" by (rule safe_Inr_elim [OF safe_commit_transaction [OF env s] step_commit])
  then show ?thesis by (simp add: commit_post_def)
next
  case (step_abort err)
  have "abort_post W c (err, c')" by (rule safe_Inr_elim [OF safe_abort_transaction [OF env s] step_abort])
  then show ?thesis by (simp add: abort_post_def)
next
  case (step_command cmd opts mode db s w sent x)
  have env': "env_ok W (cs_session_id s) env" and s': "session_ok s" using env s by (simp_all add: step_command)
  have "op_post W c (x, c')"
    unfolding step_command(1) by (rule safe_Inr_elim [OF safe_session_command [OF env' s' step_command(2,3)] step_command(4)])
  then show ?thesis unfolding step_command(1) op_post_def snd_conv by (intro conn_le_edge_post) simp
next
  case (step_cluster_time t s s' w sent)
  have "later s s'"
    by (rule safe_Inr_elim [OF safe_advance_cluster_time [OF later_refl step_cluster_time(3)] step_cluster_time(4)])
      (use s in \<open>simp_all add: step_cluster_time\<close>)
  then show ?thesis unfolding step_cluster_time(1,2) by (intro conn_le_edge_post conn_le_start [OF env])
next
  case (step_operation_time s w sent t i)
  have "later s (session_advance_operation_time s t i)" using s by (intro later_steps later_refl) (simp add: step_operation_time)
  then show ?thesis unfolding step_operation_time by (intro conn_le_edge_post conn_le_start [OF env])
qed

text \<open>What holds after any number of steps.\<close>

lemma session_steps:
  assumes "(session_step env)\<^sup>*\<^sup>* c c'" and env: "env_ok W (cs_session_id (fst c)) env" and s: "session_ok (fst c)"
  shows "op_le W c c' \<and> txn_edge\<^sup>*\<^sup>* (cs_txn_state (fst c)) (cs_txn_state (fst c'))"
  using assms(1)
proof (induction rule: rtranclp_induct)
  case base
  show ?case using op_le_refl [OF env s] by simp
next
  case (step d e)
  have d: "op_le W c d" using step.IH by simp
  have "env_ok W (cs_session_id (fst d)) env" using env op_leD(2) [OF d] by simp
  then have "edge_post W d e" by (rule session_step_edge [OF step.hyps(2) _ op_leD(1) [OF d]])
  then show ?case
    using step.IH op_le_trans [OF env d, of e] unfolding edge_post_def by (auto intro: rtranclp.rtrancl_into_rtrancl)
qed

lemma ending_unreachable:
  assumes "txn_edge\<^sup>*\<^sup>* st st'" and "st \<noteq> MONGOC_INTERNAL_TRANSACTION_ENDING"
  shows "st' \<noteq> MONGOC_INTERNAL_TRANSACTION_ENDING"
  using assms by (induction rule: rtranclp_induct) (auto simp: txn_edge_ending)

section \<open>With a transaction\<close>

lemma safe_max_time_ms_failure:
  assumes "doc_ok d" and "\<And>b. Q b"
  shows "safe Q (max_time_ms_failure (Some d))"
proof -
  have desc: "safe R (bson_iter_find_descendant (iter_start (fst d) (snd d)) (str ''writeConcernError.codeName''))"
    if "R None" "\<And>it. standing it \<Longrightarrow> R (Some it)" for R
  proof -
    have raw: "it_raw (iter_start (fst d) (snd d)) = Some (fst d)" by (simp add: iter_start_def iter_zero_def)
    have k: "0 \<notin> set (str ''writeConcernError.codeName'')" by (simp add: str_def)
    obtain r where r: "bson_iter_find_descendant (iter_start (fst d) (snd d)) (str ''writeConcernError.codeName'') = Inr r"
      and el: "case r of None \<Rightarrow> True | Some it \<Rightarrow> \<exists>data' t. on_element data' t it \<and> elem_key data' it = last_part (str ''writeConcernError.codeName'')"
      using find_descendant_ok [OF doc_ok_start(1) [OF assms(1)] raw k] by blast
    have "R r"
    proof (cases r)
      case None
      then show ?thesis using that(1) by simp
    next
      case (Some it)
      then have "standing it" using el unfolding standing_def by auto
      then show ?thesis using that(2) Some by simp
    qed
    then show ?thesis by (simp add: r)
  qed
  show ?thesis
    unfolding max_time_ms_failure_def option.case doc_ok_start(3) [OF assms(1)] prod.case simp_thms if_False
    using assms by (intro safe_intro desc) (auto dest: typed_optD)
qed

text \<open>\<open>left\<close> bounds the number of times the clock can be read before the deadline.\<close>

definition countdown :: "('w \<Rightarrow> nat) \<Rightarrow> 'w \<Rightarrow> 'w \<Rightarrow> bool" where
  "countdown left w w' \<longleftrightarrow> left w' \<le> left w"

definition with_txn_ok :: "('w \<Rightarrow> nat) \<Rightarrow> nat \<Rightarrow> 'w with_txn \<Rightarrow> bool" where
  "with_txn_ok left n wt \<longleftrightarrow>
     (\<forall>c. session_ok (fst c) \<longrightarrow> cs_session_id (fst c) = n \<longrightarrow>
        safe (\<lambda>x. opt_ok doc_ok (snd (snd (fst x))) \<and> op_le (countdown left) c (snd x)) (wt_cb wt c))
     \<and> (\<forall>w. left (snd (wt_expired wt w)) \<le> left w \<and> (\<not> fst (wt_expired wt w) \<longrightarrow> left (snd (wt_expired wt w)) < left w))
     \<and> (\<forall>w. left (snd (wt_backoff wt w)) \<le> left w)"

definition time_left :: "('w \<Rightarrow> nat) \<Rightarrow> 'w conn \<Rightarrow> nat" where
  "time_left left c = left (fst (snd c))"

lemma op_le_time: "op_le (countdown left) c c' \<Longrightarrow> time_left left c' \<le> time_left left c"
  by (simp add: op_le_def countdown_def time_left_def)

lemma in_conn_simps [simp]: "fst (snd (in_conn f c)) = fst c" "fst (in_conn f c) = fst (f (fst (snd c)))"
  "fst (snd (snd (in_conn f c))) = snd (f (fst (snd c)))" "snd (snd (snd (in_conn f c))) = snd (snd c)"
  by (simp_all add: in_conn_def split: prod.splits)

lemma op_le_in_conn: "session_ok (fst c) \<Longrightarrow> left (snd (f (fst (snd c)))) \<le> left (fst (snd c)) \<Longrightarrow>
    op_le (countdown left) c (snd (in_conn f c))"
  by (simp add: op_le_def countdown_def)

lemma safe_retry_label:
  assumes wt: "with_txn_ok left n wt" and s: "session_ok (fst c)" and d: "doc_ok reply"
    and Q: "\<And>b c'. op_le (countdown left) c c' \<Longrightarrow> (b \<Longrightarrow> time_left left c' < time_left left c) \<Longrightarrow> Q (b, c')"
  shows "safe Q (retry_label wt reply label c)"
proof -
  have t: "left (snd (wt_expired wt w)) \<le> left w" "\<not> fst (wt_expired wt w) \<Longrightarrow> left (snd (wt_expired wt w)) < left w" for w
    using wt by (simp_all add: with_txn_ok_def)
  have stop: "Q (False, c)" using s by (intro Q) (simp_all add: op_le_def countdown_def)
  have go: "Q (\<not> fst (in_conn (wt_expired wt) c), snd (in_conn (wt_expired wt) c))"
    using t by (intro Q op_le_in_conn s) (simp_all add: time_left_def)
  show ?thesis
    unfolding retry_label_def case_prod_unfold
    by (rule safe_bind, rule safe_has_label [OF d], rule safe_if, rule safe_Inr, rule stop, rule safe_Inr, rule go)
qed

text \<open>What a round may assume, and what it keeps.\<close>

definition round_ok :: "('w \<Rightarrow> nat) \<Rightarrow> 'w env \<Rightarrow> 'w with_txn \<Rightarrow> 'w conn \<Rightarrow> bool" where
  "round_ok left env wt c \<longleftrightarrow> session_ok (fst c) \<and> env_ok (countdown left) (cs_session_id (fst c)) env
     \<and> with_txn_ok left (cs_session_id (fst c)) wt"

lemma round_okD:
  assumes "round_ok left env wt c"
  shows "session_ok (fst c)" and "env_ok (countdown left) (cs_session_id (fst c)) env" and "with_txn_ok left (cs_session_id (fst c)) wt"
  using assms by (simp_all add: round_ok_def)

lemma round_ok_next: "round_ok left env wt c \<Longrightarrow> op_le (countdown left) c c' \<Longrightarrow> round_ok left env wt c'"
  using op_leD [of "countdown left" c c'] by (simp add: round_ok_def)

definition exit_post :: "('w \<Rightarrow> nat) \<Rightarrow> 'w conn \<Rightarrow> commit_exit \<times> 'w conn \<Rightarrow> bool" where
  "exit_post left c x \<longleftrightarrow> op_le (countdown left) c (snd x)
     \<and> (case fst x of Commit_done r \<Rightarrow> doc_ok (reply_of r) | Commit_restart _ \<Rightarrow> time_left left (snd x) < time_left left c)"

lemma exit_post_trans:
  assumes "round_ok left env wt c" and "op_le (countdown left) c d" and "exit_post left d x"
  shows "exit_post left c x"
  using assms(3) op_le_trans [OF round_okD(2) [OF assms(1)] assms(2)] op_le_time [OF assms(2)]
  by (cases "fst x") (auto simp: exit_post_def)

lemma safe_commit_loop:
  assumes "round_ok left env wt c" and "time_left left c < fuel" and "\<And>x. exit_post left c x \<Longrightarrow> Q x"
  shows "safe Q (commit_loop fuel env wt c)"
  using assms
proof (induction fuel arbitrary: c Q)
  case 0
  then show ?case by simp
next
  case (Suc fuel)
  note c = round_okD [OF Suc.prems(1)]
  let ?rest = "\<lambda>((ret, err, reply), c).
       if ret then Inr (Commit_done (ret, err, reply), c)
       else bind_res (max_time_ms_failure (Some reply)) (\<lambda>m.
         if m then Inr (Commit_done (ret, err, reply), c)
         else bind_res (retry_label wt reply ''UnknownTransactionCommitResult'' c) (\<lambda>(again, c).
           if again then commit_loop fuel env wt c
           else map_res (\<lambda>(restart, c). (if restart then Commit_restart err else Commit_done (ret, err, reply), c))
             (retry_label wt reply ''TransientTransactionError'' c)))"
  have rest: "safe Q (?rest x)" if post: "commit_post (countdown left) c x" for x
  proof -
    obtain ret err reply d where x: "x = ((ret, err, reply), d)" by (cases x) auto
    have d: "op_le (countdown left) c d" "doc_ok reply" using post by (simp_all add: x commit_post_def edge_post_def reply_of_def)
    have r: "round_ok left env wt d" by (rule round_ok_next [OF Suc.prems(1) d(1)])
    have stop: "Q (Commit_done (ret, err, reply), d)" using d by (intro Suc.prems(3)) (simp add: exit_post_def reply_of_def)
    have again: "safe Q (if b then commit_loop fuel env wt e
           else map_res (\<lambda>(restart, c). (if restart then Commit_restart err else Commit_done (ret, err, reply), c))
             (retry_label wt reply ''TransientTransactionError'' e))"
      if e: "op_le (countdown left) d e" and t: "b \<Longrightarrow> time_left left e < time_left left d" for b e
    proof -
      note re = round_ok_next [OF r e]
      have up: "Q x" if "exit_post left e x" for x
        by (rule Suc.prems(3), rule exit_post_trans [OF Suc.prems(1) d(1)], rule exit_post_trans [OF r e that])
      have fuel: "time_left left e < fuel" if b using t [OF that] op_le_time [OF d(1)] Suc.prems(2) by simp
      show ?thesis
        by (rule safe_if, rule Suc.IH [OF re fuel], assumption, erule up, rule safe_map,
            rule safe_retry_label [OF round_okD(3,1) [OF re] d(2)], unfold prod.case, rule up)
          (use d(2) in \<open>simp add: exit_post_def reply_of_def\<close>)
    qed
    show ?thesis
      unfolding x prod.case
      by (rule safe_if, rule safe_Inr, rule stop, rule safe_bind, rule safe_max_time_ms_failure [OF d(2)], rule safe_if, rule safe_Inr, rule stop,
          rule safe_bind, rule safe_retry_label [OF round_okD(3,1) [OF r] d(2)], unfold prod.case, rule again)
  qed
  show ?case
    unfolding commit_loop.simps
    by (rule safe_bind, rule safe_commit_transaction [OF c(2,1)], erule rest)
qed

definition again_post :: "('w \<Rightarrow> nat) \<Rightarrow> 'w conn \<Rightarrow> bool \<times> 'w conn \<Rightarrow> bool" where
  "again_post left c x \<longleftrightarrow> op_le (countdown left) c (snd x) \<and> (fst x \<longrightarrow> time_left left (snd x) < time_left left c)"

lemma safe_callback_failed:
  assumes r: "round_ok left env wt c" and d: "doc_ok reply" and Q: "\<And>x. again_post left c x \<Longrightarrow> Q x"
  shows "safe Q (callback_failed env wt reply c)"
proof -
  note c = round_okD [OF r]
  have next_ok: "safe Q (retry_label wt reply ''TransientTransactionError'' e)" if e: "op_le (countdown left) c e" for e
  proof (rule safe_retry_label [OF round_okD(3,1) [OF round_ok_next [OF r e]] d], rule Q)
    fix b e' assume *: "op_le (countdown left) e e'" "b \<Longrightarrow> time_left left e' < time_left left e"
    show "again_post left c (b, e')"
      using op_le_trans [OF c(2) e *(1)] op_le_time [OF e] *(2) by (auto simp: again_post_def)
  qed
  have aborted: "safe (\<lambda>c. safe Q (retry_label wt reply ''TransientTransactionError'' c))
      ((\<lambda>(e, c). map_res (\<lambda>_. c) (c_assert (e = None))) x)" if "abort_post (countdown left) c x" for x
    using that by (cases x) (auto intro!: safe_map safe_assert next_ok simp: abort_post_def edge_post_def)
  show ?thesis
    unfolding callback_failed_def
    by (rule safe_bind, rule safe_if, rule safe_bind, rule safe_abort_transaction [OF c(2,1)], erule aborted,
        rule safe_Inr, rule next_ok, rule op_le_refl [OF c(2,1)])
qed

definition done_post :: "('w \<Rightarrow> nat) \<Rightarrow> 'w conn \<Rightarrow> cmd_result \<times> 'w conn \<Rightarrow> bool" where
  "done_post left c x \<longleftrightarrow> doc_ok (reply_of (fst x)) \<and> op_le (countdown left) c (snd x)"

lemma done_postI: "doc_ok reply \<Longrightarrow> op_le (countdown left) c d \<Longrightarrow> done_post left c ((ret, err, reply), d)"
  by (simp add: done_post_def reply_of_def)

lemma done_post_trans: "round_ok left env wt c \<Longrightarrow> op_le (countdown left) c d \<Longrightarrow> done_post left d x \<Longrightarrow> done_post left c x"
  using op_le_trans [OF round_okD(2)] unfolding done_post_def by blast

text \<open>What follows the start of the transaction in a round; \<open>again\<close> is the next round.\<close>

definition after_start :: "nat \<Rightarrow> 'w env \<Rightarrow> 'w with_txn \<Rightarrow> (bson_error option \<Rightarrow> 'w conn \<Rightarrow> (cmd_result \<times> 'w conn) res)
    \<Rightarrow> (bool \<times> bson_error option \<times> doc option) \<times> 'w conn \<Rightarrow> (cmd_result \<times> 'w conn) res" where
  "after_start fuel env wt again = (\<lambda>((ret, err, reply), c).
     let active_reply = (case reply of None \<Rightarrow> doc_empty | Some d \<Rightarrow> d) in
     if \<not> ret then bind_res (callback_failed env wt active_reply c) (\<lambda>(more, c).
       if more then again err c else Inr ((ret, err, active_reply), c))
     else if finished (cs_txn_state (fst c)) then Inr ((ret, err, active_reply), c)
     else bind_res (commit_loop fuel env wt c) (\<lambda>(x, c). case x of
         Commit_done r \<Rightarrow> Inr (r, c)
       | Commit_restart err \<Rightarrow> again err c))"

lemma safe_after_start:
  assumes r: "round_ok left env wt c" and t: "time_left left c < fuel" and d: "opt_ok doc_ok reply"
    and Q: "\<And>x. done_post left c x \<Longrightarrow> Q x"
    and again: "\<And>e d. round_ok left env wt d \<Longrightarrow> op_le (countdown left) c d \<Longrightarrow> time_left left d < time_left left c \<Longrightarrow> safe Q (again e d)"
  shows "safe Q (after_start fuel env wt again ((ret, err, reply), c))"
proof -
  note c = round_okD [OF r]
  define active where "active = (case reply of None \<Rightarrow> doc_empty | Some d \<Rightarrow> d)"
  have active: "doc_ok active" using d by (cases reply) (simp_all add: active_def)
  have failed: "safe Q ((\<lambda>(more, c). if more then again err c else Inr ((ret, err, active), c)) x)" if "again_post left c x" for x
    using that again round_ok_next [OF r] active
    by (cases x) (auto simp: again_post_def intro!: Q done_postI)
  have committed: "safe Q ((\<lambda>(x, c). case x of Commit_done r \<Rightarrow> Inr (r, c) | Commit_restart err \<Rightarrow> again err c) x)"
    if "exit_post left c x" for x
  proof -
    obtain ex d where x: "x = (ex, d)" by (cases x)
    show ?thesis
    proof (cases ex)
      case (Commit_done y)
      then show ?thesis using that by (simp add: x exit_post_def Q done_post_def)
    next
      case (Commit_restart e)
      then show ?thesis using that again round_ok_next [OF r] by (simp add: x exit_post_def)
    qed
  qed
  have stop: "Q ((ret, err, active), c)" by (rule Q, rule done_postI [OF active op_le_refl [OF c(2,1)]])
  show ?thesis
    unfolding after_start_def prod.case Let_def active_def [symmetric]
    by (rule safe_if, rule safe_bind, rule safe_callback_failed [OF r active], erule failed, rule safe_if, rule safe_Inr, rule stop,
        rule safe_bind, rule safe_commit_loop [OF r t], erule committed)
qed

lemma with_transaction_round:
  "with_transaction_loop (Suc fuel) env wt opts is_first last_err c =
     (case (if is_first then (False, c) else in_conn (wt_backoff wt) c) of (too_late, c) \<Rightarrow>
       if too_late then Inr ((False, last_err, doc_empty), c)
       else bind_res (start_transaction env opts c) (\<lambda>(err, c).
         if err \<noteq> None then Inr ((False, err, doc_empty), c)
         else bind_res (wt_cb wt c) (after_start (Suc fuel) env wt (with_transaction_loop fuel env wt opts False))))"
  unfolding with_transaction_loop.simps after_start_def by (rule refl)

lemma safe_round_callback:
  assumes r: "round_ok left env wt c" and t: "time_left left c < fuel" and Q: "\<And>x. done_post left c x \<Longrightarrow> Q x"
    and again: "\<And>e d. round_ok left env wt d \<Longrightarrow> op_le (countdown left) c d \<Longrightarrow> time_left left d < time_left left c \<Longrightarrow> safe Q (again e d)"
  shows "safe Q (bind_res (wt_cb wt c) (after_start fuel env wt again))"
proof (rule safe_bind)
  note c = round_okD [OF r]
  have "safe (\<lambda>x. opt_ok doc_ok (snd (snd (fst x))) \<and> op_le (countdown left) c (snd x)) (wt_cb wt c)"
    using c(1,3) unfolding with_txn_ok_def by blast
  then show "safe (\<lambda>x. safe Q (after_start fuel env wt again x)) (wt_cb wt c)"
  proof (rule safe_mono)
    fix x :: "(bool \<times> bson_error option \<times> doc option) \<times> 'a conn"
    assume x: "opt_ok doc_ok (snd (snd (fst x))) \<and> op_le (countdown left) c (snd x)"
    obtain ret err reply f where xs: "x = ((ret, err, reply), f)" by (cases x) auto
    have f: "op_le (countdown left) c f" using x by (simp add: xs)
    show "safe Q (after_start fuel env wt again x)"
      unfolding xs
    proof (rule safe_after_start [OF round_ok_next [OF r f]])
      show "time_left left f < fuel" using t op_le_time [OF f] by simp
      show "opt_ok doc_ok reply" using x by (simp add: xs)
      show "Q y" if "done_post left f y" for y by (rule Q, rule done_post_trans [OF r f that])
      show "safe Q (again e g)" if "round_ok left env wt g" "op_le (countdown left) f g" "time_left left g < time_left left f" for e g
        using that op_le_trans [OF c(2) f that(2)] op_le_time [OF f] by (intro again) simp_all
    qed
  qed
qed

text \<open>A round after the wait before it.\<close>

lemma safe_round:
  assumes r: "round_ok left env wt c" and t: "time_left left c < fuel" and opts: "opt_ok txn_opts_ok opts"
    and Q: "\<And>x. done_post left c x \<Longrightarrow> Q x"
    and again: "\<And>e d. round_ok left env wt d \<Longrightarrow> op_le (countdown left) c d \<Longrightarrow> time_left left d < time_left left c \<Longrightarrow> safe Q (again e d)"
  shows "safe Q (bind_res (start_transaction env opts c) (\<lambda>(err, c).
         if err \<noteq> None then Inr ((False, err, doc_empty), c) else bind_res (wt_cb wt c) (after_start fuel env wt again)))"
proof (rule safe_bind, rule safe_start_transaction [OF round_okD(2,1) [OF r] opts])
  fix x :: "bson_error option \<times> 'a conn" assume x: "start_txn_post (countdown left) c x"
  obtain err e where xs: "x = (err, e)" by (cases x)
  have e: "op_le (countdown left) c e" using x by (simp add: xs start_txn_post_def)
  have cb: "safe Q (bind_res (wt_cb wt e) (after_start fuel env wt again))"
  proof (rule safe_round_callback [OF round_ok_next [OF r e]])
    show "time_left left e < fuel" using t op_le_time [OF e] by simp
    show "Q y" if "done_post left e y" for y by (rule Q, rule done_post_trans [OF r e that])
    show "safe Q (again err' g)" if "round_ok left env wt g" "op_le (countdown left) e g" "time_left left g < time_left left e" for err' g
      using that op_le_trans [OF round_okD(2) [OF r] e that(2)] op_le_time [OF e] by (intro again) simp_all
  qed
  show "safe Q (case x of (err, c) \<Rightarrow>
         if err \<noteq> None then Inr ((False, err, doc_empty), c) else bind_res (wt_cb wt c) (after_start fuel env wt again))"
    unfolding xs prod.case by (rule safe_if, rule safe_Inr, rule Q, rule done_postI [OF _ e], simp, rule cb)
qed

lemma safe_with_transaction_loop:
  assumes "round_ok left env wt c" and "time_left left c < fuel" and opts: "opt_ok txn_opts_ok opts" and "\<And>x. done_post left c x \<Longrightarrow> Q x"
  shows "safe Q (with_transaction_loop fuel env wt opts is_first last_err c)"
  using assms(1,2,4)
proof (induction fuel arbitrary: c Q is_first last_err)
  case 0
  then show ?case by simp
next
  case (Suc fuel)
  note r = Suc.prems(1)
  note c = round_okD [OF r]
  obtain too_late d where d: "(if is_first then (False, c) else in_conn (wt_backoff wt) c) = (too_late, d)"
    by (rule prod.exhaust)
  have "left (snd (wt_backoff wt w)) \<le> left w" for w using c(3) by (simp add: with_txn_ok_def)
  then have "op_le (countdown left) c (snd (if is_first then (False, c) else in_conn (wt_backoff wt) c))"
    using op_le_refl [OF c(2,1)] op_le_in_conn [OF c(1), of left "wt_backoff wt"] by simp
  then have le: "op_le (countdown left) c d" by (simp only: d snd_conv)
  have t: "time_left left d < Suc fuel" using op_le_time [OF le] Suc.prems(2) by simp
  have post: "Q x" if "done_post left d x" for x by (rule Suc.prems(3), rule done_post_trans [OF r le that])
  have again: "safe Q (with_transaction_loop fuel env wt opts False e g)"
    if g: "round_ok left env wt g" "op_le (countdown left) d g" "time_left left g < time_left left d" for e g
  proof (rule Suc.IH [OF g(1)])
    show "time_left left g < fuel" using g(3) t by simp
    show "Q z" if "done_post left g z" for z by (rule post, rule done_post_trans [OF round_ok_next [OF r le] g(2) that])
  qed
  show ?case
    unfolding with_transaction_round d prod.case
    by (rule safe_if, rule safe_Inr, rule Suc.prems(3), rule done_postI [OF _ le], simp,
        rule safe_round [OF round_ok_next [OF r le] t opts post], assumption, erule again)
qed

end
