(* ===== verification/WriteConcernOk.thy ===== *)
theory WriteConcernOk
  imports WriteConcern
begin

text \<open>
  What holds of write concerns: the document kept in a concern is the encoding of its options, and an encoded concern
  is read back as it was.
\<close>

section \<open>The document that is kept\<close>

definition wc_coherent :: "write_concern \<Rightarrow> bool" where
  "wc_coherent wc \<longleftrightarrow> (wc_frozen wc \<longrightarrow> wc_freeze wc = Inr wc)"

lemma wc_coherent_new [simp]: "wc_coherent write_concern_new"
  by (simp add: wc_coherent_def write_concern_new_def)

lemma wc_coherent_copy: "write_concern_copy w = Some wc \<Longrightarrow> wc_coherent wc"
  by (auto simp: write_concern_copy_def wc_coherent_def)

lemma wc_coherent_thawed: "\<not> wc_frozen wc \<Longrightarrow> wc_coherent wc"
  by (simp add: wc_coherent_def)

lemma wc_set_w_thawed:
  assumes "wc_set_w wc w = Inr wc'"
  shows "\<not> wc_frozen wc'"
proof -
  from assms obtain d where "wc' = wc\<lparr>wc_w := w, wc_default := d, wc_frozen := False\<rparr>"
    unfolding wc_set_w_def map_res_eq_Inr by blast
  then show ?thesis by simp
qed

lemma wc_coherent_setters:
  shows "wc_coherent (wc_set_journal wc j)" and "wc_coherent (wc_set_wmajority wc t)" and "wc_coherent (wc_set_wtag wc tag)"
    and "wc_set_w wc w = Inr wc' \<Longrightarrow> wc_coherent wc'" and "wc_coherent wc \<Longrightarrow> wc_coherent (wc_set_wtimeout wc t)"
proof -
  show "wc_coherent (wc_set_journal wc j)" "wc_coherent (wc_set_wmajority wc t)" "wc_coherent (wc_set_wtag wc tag)"
    by (simp_all add: wc_coherent_thawed wc_set_journal_def wc_set_wmajority_def wc_set_wtag_def Let_def)
  show "wc_set_w wc w = Inr wc' \<Longrightarrow> wc_coherent wc'"
    using wc_set_w_thawed wc_coherent_thawed by blast
  show "wc_coherent wc \<Longrightarrow> wc_coherent (wc_set_wtimeout wc t)"
    unfolding wc_set_wtimeout_def by (split if_split) (auto intro: wc_coherent_thawed)
qed

lemma wc_freeze_options: "wc_freeze (wc\<lparr>wc_frozen := f, wc_compiled := c\<rparr>) = wc_freeze wc"
  by (cases wc) (simp only: wc_freeze_def Let_def write_concern.simps)

lemma wc_freeze_result:
  assumes "wc_freeze wc = Inr wc'"
  obtains c where "wc' = wc\<lparr>wc_frozen := True, wc_compiled := c\<rparr>"
proof -
  from assms obtain c where "wc' = wc\<lparr>wc_frozen := True, wc_compiled := c\<rparr>"
    unfolding wc_freeze_def bind_res_eq_Inr Let_def by blast
  then show ?thesis by (rule that)
qed

lemma wc_freeze_twice:
  assumes "wc_freeze wc = Inr wc'"
  shows "wc_freeze wc' = Inr wc'"
proof -
  obtain c where "wc' = wc\<lparr>wc_frozen := True, wc_compiled := c\<rparr>" by (rule wc_freeze_result [OF assms])
  then show ?thesis using wc_freeze_options assms by metis
qed

lemma wc_get_bson_coherent:
  assumes "wc_coherent wc"
  shows "wc_get_bson wc = map_res (\<lambda>wc. (wc_compiled wc, wc)) (wc_freeze wc)"
  using assms by (simp add: wc_get_bson_def wc_coherent_def)

lemma wc_get_bson_keeps: "wc_coherent wc \<Longrightarrow> wc_get_bson wc = Inr (c, wc') \<Longrightarrow> wc_coherent wc'"
  using wc_freeze_twice by (auto simp: wc_get_bson_coherent map_res_eq_Inr wc_coherent_def)

text \<open>Sequences of calls.\<close>

datatype wc_op = Set_journal bool | Set_w int | Set_wtimeout int | Set_wmajority int | Set_wtag "byte list option" | Get_bson

fun wc_step :: "wc_op \<Rightarrow> write_concern \<Rightarrow> write_concern res" where
  "wc_step (Set_journal j) wc = Inr (wc_set_journal wc j)"
| "wc_step (Set_w w) wc = wc_set_w wc w"
| "wc_step (Set_wtimeout t) wc = Inr (wc_set_wtimeout wc t)"
| "wc_step (Set_wmajority t) wc = Inr (wc_set_wmajority wc t)"
| "wc_step (Set_wtag tag) wc = Inr (wc_set_wtag wc tag)"
| "wc_step Get_bson wc = map_res snd (wc_get_bson wc)"

fun wc_steps :: "wc_op list \<Rightarrow> write_concern \<Rightarrow> write_concern res" where
  "wc_steps [] wc = Inr wc"
| "wc_steps (op # ops) wc = bind_res (wc_step op wc) (wc_steps ops)"

lemma wc_step_coherent: "wc_step op wc = Inr wc' \<Longrightarrow> wc_coherent wc \<Longrightarrow> wc_coherent wc'"
  using wc_get_bson_keeps by (cases op) (auto simp: wc_coherent_setters map_res_eq_Inr)

lemma wc_steps_coherent: "wc_steps ops wc = Inr wc' \<Longrightarrow> wc_coherent wc \<Longrightarrow> wc_coherent wc'"
  by (induction ops arbitrary: wc) (auto simp: bind_res_eq_Inr intro: wc_step_coherent)

section \<open>The encoding\<close>

text \<open>The options are in range: \<open>int32_t\<close>, \<open>int64_t\<close>, a tag that fits into a document.\<close>

definition wc_wf :: "write_concern \<Rightarrow> bool" where
  "wc_wf wc \<longleftrightarrow> wc_journal wc \<in> {- 1, 0, 1} \<and> - 4 \<le> wc_w wc \<and> wc_w wc < 2 ^ 31 \<and> 0 \<le> wc_wtimeout wc \<and> wc_wtimeout wc < 2 ^ 63
     \<and> (wc_w wc = MONGOC_WRITE_CONCERN_W_TAG \<longrightarrow> (\<exists>tag. wc_wtag wc = Some tag \<and> 0 \<notin> set tag \<and> length tag + 60 \<le> BSON_MAX_SIZE))"

definition wc_w_elems :: "write_concern \<Rightarrow> element list" where
  "wc_w_elems wc =
     (if wc_w wc = MONGOC_WRITE_CONCERN_W_TAG then [e_utf8 (str ''w'') (the (wc_wtag wc))]
      else if wc_w wc = MONGOC_WRITE_CONCERN_W_MAJORITY then [e_utf8 (str ''w'') (str ''majority'')]
      else if wc_w wc = MONGOC_WRITE_CONCERN_W_DEFAULT then []
      else [e_int32 (str ''w'') (word_of_int (wc_w wc))])"

definition wc_j_elems :: "write_concern \<Rightarrow> element list" where
  "wc_j_elems wc = (if wc_journal wc \<noteq> - 1 then [e_bool (str ''j'') (wc_journal wc \<noteq> 0)] else [])"

definition wc_t_elems :: "write_concern \<Rightarrow> element list" where
  "wc_t_elems wc = (if wc_wtimeout wc \<noteq> 0 then [e_int64 (str ''wtimeout'') (word_of_int (wc_wtimeout wc))] else [])"

definition wc_elems :: "write_concern \<Rightarrow> element list" where
  "wc_elems wc = wc_w_elems wc @ wc_j_elems wc @ wc_t_elems wc"

lemma length_enc_e:
  "length (enc (e_utf8 k s)) = length k + length s + 7" "length (enc (e_int32 k i)) = length k + 6"
  "length (enc (e_int64 k l)) = length k + 10" "length (enc (e_bool k x)) = length k + 3"
  "length (enc (e_timestamp k u v)) = length k + 10"
  by (simp_all add: enc_def e_defs string_bytes_def)

lemma length_str [simp]: "length (str s) = length s"
  by (simp add: str_def)

lemma wc_sizes:
  assumes "wc_wf wc"
  shows "length (elems_body (wc_w_elems wc)) + 52 \<le> BSON_MAX_SIZE" and "length (elems_body (wc_j_elems wc)) \<le> 4"
    and "length (elems_body (wc_t_elems wc)) \<le> 18"
  using assms by (auto simp: wc_wf_def wc_w_elems_def wc_j_elems_def wc_t_elems_def length_enc_e BSON_MAX_SIZE_def)

lemma wc_freeze_wf:
  assumes "wc_wf wc"
  shows "wc_freeze wc = Inr (wc\<lparr>wc_frozen := True, wc_compiled := elems_body (wc_elems wc)\<rparr>)"
proof -
  note sz = wc_sizes [OF assms]
  let ?w = "if wc_w wc = MONGOC_WRITE_CONCERN_W_TAG
               then (case wc_wtag wc of None \<Rightarrow> Inl AssertFail | Some tag \<Rightarrow> Inr (snd (append_e [] (e_utf8 (str ''w'') tag))))
               else if wc_w wc = MONGOC_WRITE_CONCERN_W_MAJORITY then Inr (snd (append_e [] (e_utf8 (str ''w'') (str ''majority''))))
               else if wc_w wc = MONGOC_WRITE_CONCERN_W_DEFAULT then Inr []
               else Inr (snd (append_e [] (e_int32 (str ''w'') (word_of_int (wc_w wc)))))"
  have w: "?w = Inr (elems_body (wc_w_elems wc))"
    using assms by (auto simp: wc_wf_def wc_w_elems_def append_e_fits length_enc_e BSON_MAX_SIZE_def)
  have j: "(if wc_journal wc \<noteq> - 1 then snd (append_e c (e_bool (str ''j'') (wc_journal wc \<noteq> 0))) else c)
      = c @ elems_body (wc_j_elems wc)" if "length c + 20 \<le> BSON_MAX_SIZE" for c
    using that by (simp add: wc_j_elems_def append_e_fits length_enc_e)
  have t: "(if wc_wtimeout wc \<noteq> 0 then snd (append_e c (e_int64 (str ''wtimeout'') (word_of_int (wc_wtimeout wc)))) else c)
      = c @ elems_body (wc_t_elems wc)" if "length c + 30 \<le> BSON_MAX_SIZE" for c
    using that by (simp add: wc_t_elems_def append_e_fits length_enc_e)
  show ?thesis
    unfolding wc_freeze_def w bind_res_simps Let_def
    using sz by (simp add: j t wc_elems_def)
qed

lemma wc_get_bson_wf:
  assumes "wc_coherent wc" and "wc_wf wc"
  shows "wc_get_bson wc = Inr (elems_body (wc_elems wc), wc\<lparr>wc_frozen := True, wc_compiled := elems_body (wc_elems wc)\<rparr>)"
  using wc_freeze_wf [OF assms(2)] by (simp add: wc_get_bson_coherent [OF assms(1)])

lemma e_ok [simp]:
  "0 \<notin> set k \<Longrightarrow> length s < 2 ^ 32 - 5 \<Longrightarrow> elem_ok (e_utf8 k s)" "0 \<notin> set k \<Longrightarrow> elem_ok (e_int32 k i)"
  "0 \<notin> set k \<Longrightarrow> elem_ok (e_int64 k l)" "0 \<notin> set k \<Longrightarrow> elem_ok (e_bool k x)" "0 \<notin> set k \<Longrightarrow> elem_ok (e_timestamp k u v)"
  using string_enc_ok [of s] by (simp_all add: elem_ok_def e_defs string_enc_def string_bytes_def len_bytes_def add.commute)


section \<open>Reading a concern back\<close>

lemma stands_on_key_of: "stands_on it (t, k, p) \<Longrightarrow> key_of it = Inr k"
  using stands_on_key by (fastforce simp: key_of_def)

lemma stands_on_holds: "stands_on it (t, k, p) \<Longrightarrow> holds_type it ts = Inr (type_byte t \<in> set (map type_byte ts))"
  using stands_on_type by (simp add: holds_type_def)

lemma wc_loop_Nil:
  assumes "meets it []" and "rounds it < fuel"
  shows "wc_loop fuel it wc = Inr (Some wc)"
  using meets_Nil [OF assms(1)] assms(2) by (cases fuel) auto

lemma wc_loop_Cons:
  assumes "meets it ((t, k, p) # es)" and "rounds it < fuel"
    and "\<And>it'. stands_on it' (t, k, p) \<Longrightarrow> wc_field k it' wc = Inr (Some wc')"
    and "\<And>it' fuel. meets it' es \<Longrightarrow> rounds it' < fuel \<Longrightarrow> wc_loop fuel it' wc' = r"
  shows "wc_loop fuel it wc = r"
proof -
  obtain it' where it': "bson_iter_next it = Inr (True, it')" "stands_on it' (t, k, p)" "meets it' es" "rounds it' < rounds it"
    by (rule meets_Cons [OF assms(1)])
  obtain f where f: "fuel = Suc f" using assms(2) by (cases fuel) auto
  then have "rounds it' < f" using it'(4) assms(2) by simp
  from assms(4) [OF it'(3) this] show ?thesis
    using it'(1) assms(3) [OF it'(2)] by (simp add: f stands_on_key_of [OF it'(2)])
qed

lemma str_keys [simp]:
  "str ''w'' \<noteq> str ''j''" "str ''j'' \<noteq> str ''w''" "str ''wtimeout'' \<noteq> str ''w''" "str ''wtimeout'' \<noteq> str ''j''"
  "str ''j'' \<noteq> str ''fsync''" "str ''wtimeout'' \<noteq> str ''fsync''"
  by (simp_all add: str_def)

lemma wc_field_w_int:
  assumes "stands_on it (e_int32 (str ''w'') (word_of_int w))" and "0 \<le> w" and "w < 2 ^ 31"
  shows "wc_field (str ''w'') it wc = Inr (Some (wc\<lparr>wc_w := w, wc_default := False, wc_frozen := False\<rparr>))"
proof -
  have "sint (word_of_int w :: 32 word) = w" using assms(2,3) by (simp add: signed_of_int signed_take_bit_int_eq_self)
  with assms stands_on_holds [OF assms(1) [unfolded e_int32_def]] stands_on_int32 [OF assms(1)] show ?thesis
    by (simp add: wc_field_def wc_set_w_def)
qed

lemma wc_field_w_utf8:
  assumes "stands_on it (e_utf8 (str ''w'') s)" and "0 \<notin> set s"
  shows "wc_field (str ''w'') it wc = (if s = str ''majority'' then map_res Some (wc_set_w wc (- 3))
    else Inr (Some (wc_set_wtag wc (Some s))))"
  using stands_on_holds [OF assms(1) [unfolded e_utf8_def]] stands_on_utf8 [OF assms]
  by (simp add: wc_field_def str_of_def type_byte.simps)

lemma wc_field_j:
  assumes "stands_on it (e_bool (str ''j'') x)"
  shows "wc_field (str ''j'') it wc = Inr (Some (wc_set_journal wc x))"
  using stands_on_holds [OF assms [unfolded e_bool_def]] stands_on_bool [OF assms]
  by (simp add: wc_field_def)

lemma wc_field_wtimeout:
  assumes "stands_on it (e_int64 (str ''wtimeout'') (word_of_int v))" and "0 \<le> v" and "v < 2 ^ 63"
  shows "wc_field (str ''wtimeout'') it wc = Inr (Some (wc_set_wtimeout wc v))"
proof -
  have "sint (word_of_int v :: 64 word) = v" using assms(2,3) by (simp add: signed_of_int signed_take_bit_int_eq_self)
  with assms stands_on_holds [OF assms(1) [unfolded e_int64_def]] stands_on_type [OF assms(1) [unfolded e_int64_def]]
    stands_on_int64 [OF assms(1)] show ?thesis
    by (simp add: wc_field_def bson_iter_as_int64_def type_byte.simps)
qed


text \<open>The tail of an encoded concern, and the whole.\<close>

definition read_t :: "write_concern \<Rightarrow> write_concern \<Rightarrow> write_concern" where
  "read_t wc acc = (if wc_wtimeout wc \<noteq> 0 then wc_set_wtimeout acc (wc_wtimeout wc) else acc)"

definition read_j :: "write_concern \<Rightarrow> write_concern \<Rightarrow> write_concern" where
  "read_j wc acc = (if wc_journal wc \<noteq> - 1 then wc_set_journal acc (wc_journal wc \<noteq> 0) else acc)"

definition read_w :: "write_concern \<Rightarrow> write_concern \<Rightarrow> write_concern" where
  "read_w wc acc =
     (if wc_w wc = MONGOC_WRITE_CONCERN_W_TAG then wc_set_wtag acc (wc_wtag wc)
      else if wc_w wc = MONGOC_WRITE_CONCERN_W_DEFAULT then acc
      else acc\<lparr>wc_w := wc_w wc, wc_default := False, wc_frozen := False\<rparr>)"

lemma wc_loop_t:
  assumes "wc_wf wc" and "meets it (wc_t_elems wc)" and "rounds it < fuel"
  shows "wc_loop fuel it acc = Inr (Some (read_t wc acc))"
proof (cases "wc_wtimeout wc = 0")
  case True
  with assms(2,3) show ?thesis by (simp add: wc_t_elems_def read_t_def wc_loop_Nil)
next
  case False
  then have m: "meets it [e_int64 (str ''wtimeout'') (word_of_int (wc_wtimeout wc))]" using assms(2) by (simp add: wc_t_elems_def)
  have r: "0 \<le> wc_wtimeout wc" "wc_wtimeout wc < 2 ^ 63" using assms(1) by (simp_all add: wc_wf_def)
  show ?thesis
    using False
    by (intro wc_loop_Cons [OF m [unfolded e_int64_def] assms(3), folded e_int64_def])
      (auto simp: wc_field_wtimeout [OF _ r] wc_loop_Nil read_t_def)
qed

lemma wc_loop_j:
  assumes "wc_wf wc" and "meets it (wc_j_elems wc @ wc_t_elems wc)" and "rounds it < fuel"
  shows "wc_loop fuel it acc = Inr (Some (read_t wc (read_j wc acc)))"
proof (cases "wc_journal wc = - 1")
  case True
  with assms wc_loop_t show ?thesis by (simp add: wc_j_elems_def read_j_def)
next
  case False
  then have m: "meets it (e_bool (str ''j'') (wc_journal wc \<noteq> 0) # wc_t_elems wc)" using assms(2) by (simp add: wc_j_elems_def)
  show ?thesis
    using False
    by (intro wc_loop_Cons [OF m [unfolded e_bool_def] assms(3), folded e_bool_def])
      (auto simp: wc_field_j wc_loop_t [OF assms(1)] read_j_def)
qed

text \<open>Not what \<open>wc_from_iter\<close> reads as something else: a negative number of nodes, or a tag "majority".\<close>

definition wc_sendable :: "write_concern \<Rightarrow> bool" where
  "wc_sendable wc \<longleftrightarrow> wc_w wc \<noteq> - 1 \<and> (wc_w wc = MONGOC_WRITE_CONCERN_W_TAG \<longrightarrow> wc_wtag wc \<noteq> Some (str ''majority''))"

lemma wc_loop_all:
  assumes "wc_wf wc" and "wc_sendable wc" and "meets it (wc_elems wc)" and "rounds it < fuel"
  shows "wc_loop fuel it acc = Inr (Some (read_t wc (read_j wc (read_w wc acc))))"
proof -
  note m = assms(3) [unfolded wc_elems_def wc_w_elems_def]
  have maj: "0 \<notin> set (str ''majority'')" by (simp add: str_def)
  consider "wc_w wc = - 4" | "wc_w wc = - 3" | "wc_w wc = - 2" | "0 \<le> wc_w wc"
  proof -
    assume r: "wc_w wc = - 4 \<Longrightarrow> thesis" "wc_w wc = - 3 \<Longrightarrow> thesis" "wc_w wc = - 2 \<Longrightarrow> thesis" "0 \<le> wc_w wc \<Longrightarrow> thesis"
    have "- 4 \<le> wc_w wc" "wc_w wc \<noteq> - 1" using assms(1,2) by (simp_all add: wc_wf_def wc_sendable_def)
    then have "wc_w wc = - 4 \<or> wc_w wc = - 3 \<or> wc_w wc = - 2 \<or> 0 \<le> wc_w wc" by presburger
    then show thesis using r by blast
  qed
  then show ?thesis
  proof cases
    case 1
    then obtain tag where tag: "wc_wtag wc = Some tag" "0 \<notin> set tag" "tag \<noteq> str ''majority''"
      using assms(1,2) by (auto simp: wc_wf_def wc_sendable_def)
    then have m1: "meets it (e_utf8 (str ''w'') tag # wc_j_elems wc @ wc_t_elems wc)" using m 1 by simp
    show ?thesis
      using 1 tag
      by (intro wc_loop_Cons [OF m1 [unfolded e_utf8_def] assms(4), folded e_utf8_def])
        (auto simp: wc_field_w_utf8 wc_loop_j [OF assms(1)] read_w_def)
  next
    case 2
    then have m1: "meets it (e_utf8 (str ''w'') (str ''majority'') # wc_j_elems wc @ wc_t_elems wc)" using m by simp
    show ?thesis
      using 2
      by (intro wc_loop_Cons [OF m1 [unfolded e_utf8_def] assms(4), folded e_utf8_def])
        (auto simp: wc_field_w_utf8 [OF _ maj] wc_loop_j [OF assms(1)] read_w_def wc_set_w_def)
  next
    case 3
    with m wc_loop_j [OF assms(1) _ assms(4)] show ?thesis by (simp add: read_w_def)
  next
    case 4
    then have m1: "meets it (e_int32 (str ''w'') (word_of_int (wc_w wc)) # wc_j_elems wc @ wc_t_elems wc)" using m by simp
    have w: "wc_w wc < 2 ^ 31" using assms(1) by (simp add: wc_wf_def)
    show ?thesis
      using 4
      by (intro wc_loop_Cons [OF m1 [unfolded e_int32_def] assms(4), folded e_int32_def])
        (auto simp: wc_field_w_int [OF _ 4 w] wc_loop_j [OF assms(1)] read_w_def)
  qed
qed

lemma wc_elems_ok:
  assumes "wc_wf wc"
  shows "\<forall>e\<in>set (wc_elems wc). elem_ok e" and "length (doc_of (wc_elems wc)) \<le> INT_MAX"
proof -
  have k: "0 \<notin> set (str ''w'')" "0 \<notin> set (str ''j'')" "0 \<notin> set (str ''wtimeout'')" by (simp_all add: str_def)
  show "\<forall>e\<in>set (wc_elems wc). elem_ok e"
    using assms k by (auto simp: wc_elems_def wc_w_elems_def wc_j_elems_def wc_t_elems_def wc_wf_def BSON_MAX_SIZE_def)
  show "length (doc_of (wc_elems wc)) \<le> INT_MAX"
    using wc_sizes [OF assms] by (simp add: doc_of_def wc_elems_def elems_body_def [symmetric] INT_MAX_def BSON_MAX_SIZE_def)
qed

text \<open>The concern read back from the element that \<open>wc_append\<close> appends.\<close>

lemma wc_from_iter_read:
  assumes "wc_wf wc" and "wc_sendable wc" and "wc_is_valid (Some wc)"
    and "stands_on it (e_doc k (body_doc (elems_body (wc_elems wc))))"
  shows "wc_from_iter it = Inr (Some (read_t wc (read_j wc (read_w wc write_concern_new))))"
proof -
  let ?es = "wc_elems wc" and ?r = "read_t wc (read_j wc (read_w wc write_concern_new))"
  have st: "stands_on it (BSON_TYPE_DOCUMENT, k, doc_of ?es)" using assms(4) by (simp add: e_doc_def body_doc_elems)
  obtain child where child: "bson_iter_recurse it = Inr (Some child)" "meets child ?es" "it_len child = length (doc_of ?es)"
    by (rule stands_on_nested [OF st _ wc_elems_ok [OF assms(1)]]) simp
  have "rounds child < Suc (it_len child)" by (simp add: rounds_def)
  from wc_loop_all [OF assms(1,2) child(2) this] have loop: "wc_loop (Suc (it_len child)) child write_concern_new = Inr (Some ?r)" .
  have "wc_is_valid (Some ?r)"
    using assms(1,3) by (auto simp: wc_is_valid_def read_t_def read_j_def read_w_def write_concern_new_def wc_set_wtimeout_def
        wc_set_journal_def wc_set_wtag_def wc_get_journal_def wc_wf_def)
  then show ?thesis
    using stands_on_holds [OF st] child(1) loop by (simp add: wc_from_iter_def recursed_def)
qed

text \<open>The whole way: the element that is appended to a command, found by an iterator and read.\<close>

lemma e_doc_elems: "e_doc k (body_doc (elems_body es)) = (BSON_TYPE_DOCUMENT, k, doc_of es)" "length (doc_of es) = length (elems_body es) + 5"
  by (simp add: e_doc_def body_doc_elems) (simp add: doc_of_def elems_body_def)

lemma wc_append_elem:
  assumes "wc_coherent wc" and "wc_wf wc" and "wc_is_valid (Some wc)"
  obtains wc' where "wc_append wc [] = Inr (True, elems_body [e_doc (str ''writeConcern'') (body_doc (elems_body (wc_elems wc)))], wc')"
proof -
  let ?e = "e_doc (str ''writeConcern'') (body_doc (elems_body (wc_elems wc)))"
  have "length (enc ?e) = length (elems_body (wc_elems wc)) + 19"
    by (simp add: enc_def e_doc_elems)
  moreover have "length (elems_body (wc_elems wc)) + 30 \<le> BSON_MAX_SIZE" using wc_sizes [OF assms(2)] by (simp add: wc_elems_def)
  ultimately have "append_e [] ?e = (True, enc ?e)" using append_e_fits [of "[]" ?e] by simp
  then have "wc_append wc [] = Inr (True, elems_body [?e], wc\<lparr>wc_frozen := True, wc_compiled := elems_body (wc_elems wc)\<rparr>)"
    using assms(3) wc_get_bson_wf [OF assms(1,2)] by (simp add: wc_append_def)
  then show ?thesis by (rule that)
qed

lemma wc_append_meets:
  assumes "wc_wf wc"
  defines "es \<equiv> [e_doc (str ''writeConcern'') (body_doc (elems_body (wc_elems wc)))]"
  shows "meets (iter_start (fst (body_doc (elems_body es))) (snd (body_doc (elems_body es)))) es"
    and "bson_iter_init (fst (body_doc (elems_body es))) (snd (body_doc (elems_body es)))
      = (True, iter_start (fst (body_doc (elems_body es))) (snd (body_doc (elems_body es))))"
proof -
  have sz: "length (elems_body (wc_elems wc)) + 30 \<le> BSON_MAX_SIZE" using wc_sizes [OF assms(1)] by (simp add: wc_elems_def)
  have ok: "\<forall>e\<in>set es. elem_ok e"
    using sz u32_at_doc_of [of "wc_elems wc" "[]"]
    by (simp add: es_def elem_ok_def e_doc_elems str_def document_payload_def BSON_MAX_SIZE_def)
  have len: "length (doc_of es) \<le> INT_MAX"
    using sz by (simp add: es_def e_doc_elems enc_def INT_MAX_def BSON_MAX_SIZE_def)
  show "meets (iter_start (fst (body_doc (elems_body es))) (snd (body_doc (elems_body es)))) es"
    using meets_doc [OF ok len, of "[]"] by (simp add: body_doc_elems)
  show "bson_iter_init (fst (body_doc (elems_body es))) (snd (body_doc (elems_body es)))
      = (True, iter_start (fst (body_doc (elems_body es))) (snd (body_doc (elems_body es))))"
    using len by (simp add: bson_iter_init_def body_doc_elems e_doc_elems(2) iter_start_def)
qed

text \<open>The options that were read are the options that were sent.\<close>

lemma wc_read_options:
  assumes "wc_wf wc"
  defines "r \<equiv> read_t wc (read_j wc (read_w wc write_concern_new))"
  shows "wc_w r = wc_w wc" and "wc_journal r = wc_journal wc" and "wc_wtimeout r = wc_wtimeout wc"
    and "wc_w wc = MONGOC_WRITE_CONCERN_W_TAG \<Longrightarrow> wc_wtag r = wc_wtag wc"
  using assms(1) by (auto simp: r_def read_t_def read_j_def read_w_def write_concern_new_def wc_set_wtimeout_def wc_set_journal_def
      wc_set_wtag_def wc_wf_def)

end
