(* ===== verification/AssembleTxn.thy ===== *)
theory AssembleTxn
  imports ClientCmd "HOL-Library.Sublist"
begin

text \<open>
  What \<open>mongoc_cmd_parts_assemble\<close> puts into a command of a transaction. Every step after the first copy only appends to the
  command, and only two steps change the session.
\<close>

definition grown :: "cmd_parts \<Rightarrow> cmd_parts \<Rightarrow> bool" where
  "grown p p' \<longleftrightarrow> pt_session p' = pt_session p \<and> pt_prohibit_lsid p' = pt_prohibit_lsid p \<and> pt_txn_finish p' = pt_txn_finish p
     \<and> (pt_command p \<noteq> No_command \<longrightarrow> pt_command p' \<noteq> No_command)
     \<and> (pt_command p = Is_assembled \<longrightarrow> pt_command p' = Is_assembled \<and> prefix (pt_assembled p) (pt_assembled p'))"

lemma grown_refl [simp]: "grown p p"
  by (simp add: grown_def)

lemma grown_trans: "grown p q \<Longrightarrow> grown q r \<Longrightarrow> grown p r"
  by (auto simp: grown_def)

lemma grown_cs: "grown p p' \<Longrightarrow> asm_cs p' = asm_cs p"
  by (simp add: grown_def asm_cs_def)

lemma prefix_append_e [simp]: "prefix b (snd (append_e b e))"
  by (rule append_e_cases [of b e]) auto

lemma prefix_append_eI: "prefix a b \<Longrightarrow> prefix a (snd (append_e b e))"
  using prefix_append_e prefix_order.trans by blast

lemma grown_add_e [simp]: "grown p (add_e p e)"
  by (simp add: grown_def add_e_def)

lemma grown_fields [simp]:
  "grown p (p\<lparr>pt_extra := x\<rparr>)" "grown p (p\<lparr>pt_retryable_write := f\<rparr>)" "grown p (p\<lparr>pt_retryable_read := f\<rparr>)"
  "grown p (p\<lparr>pt_allow_txn := a\<rparr>)" "prefix (pt_assembled p) b \<Longrightarrow> grown p (p\<lparr>pt_assembled := b\<rparr>)"
  by (simp_all add: grown_def)

section \<open>Partial correctness\<close>

text \<open>\<open>gives Q r\<close>: where \<open>r\<close> is a value, it has \<open>Q\<close>.\<close>

abbreviation "gives \<equiv> returns UNIV"

named_theorems gives_intro \<open>rules for gives, backwards along the code\<close>

lemma gives_any: "(\<And>x. Q x) \<Longrightarrow> gives Q r"
  by (cases r) auto

lemma gives_combinators [gives_intro]:
  "gives (\<lambda>x. gives Q (f x)) m \<Longrightarrow> gives Q (bind_res m f)"
  "gives (\<lambda>x. Q (g x)) n \<Longrightarrow> gives Q (map_res g n)"
  "(b \<Longrightarrow> gives Q r) \<Longrightarrow> (\<not> b \<Longrightarrow> gives Q r') \<Longrightarrow> gives Q (if b then r else r')"
  "Q y \<Longrightarrow> gives Q (Inr y)" "gives Q (Inl e)"
  by (cases m; auto) (cases n; auto)+

lemma gives_cases [gives_intro]:
  "(i = None \<Longrightarrow> gives Q r) \<Longrightarrow> (\<And>x. i = Some x \<Longrightarrow> gives Q (f x)) \<Longrightarrow> gives Q (case i of None \<Rightarrow> r | Some x \<Rightarrow> f x)"
  "(\<And>a b. p = (a, b) \<Longrightarrow> gives Q (g a b)) \<Longrightarrow> gives Q (case p of (a, b) \<Rightarrow> g a b)"
  "(\<And>y. y = z \<Longrightarrow> gives Q (h y)) \<Longrightarrow> gives Q (let y = z in h y)"
  by (cases i; auto) (cases p; auto)+

text \<open>Calls whose result does not matter here.\<close>

lemmas gives_foreign [gives_intro] =
  gives_any [of _ "bson_has_field d n k" for d n k] gives_any [of _ "doc_is_empty d" for d] gives_any [of _ "bson_empty d n" for d n]
  gives_any [of _ "add_read_prefs p b" for p b] gives_any [of _ "largest_cluster_time a b" for a b]
  gives_any [of _ "session_get_cluster_time s" for s] gives_any [of _ "allow_txn_number p st" for p st] gives_any [of _ "concat_doc b d" for b d]

text \<open>What a step gives that may stop with an error.\<close>

definition grows_to :: "cmd_parts \<Rightarrow> bson_error option \<times> cmd_parts \<Rightarrow> bool" where
  "grows_to p x \<longleftrightarrow> (fst x = None \<longrightarrow> grown p (snd x))"

lemma gives_checked [gives_intro]:
  "gives (\<lambda>x. fst x = None \<longrightarrow> gives Q (f (snd x))) m \<Longrightarrow> (\<And>e x. e \<noteq> None \<Longrightarrow> Q (e, x)) \<Longrightarrow> gives Q (bind_checked m f)"
  "Q (None, p) \<Longrightarrow> gives Q (ok_parts p)" "(\<And>e. e \<noteq> None \<Longrightarrow> Q (e, p)) \<Longrightarrow> gives Q (fail_parts d c msg p)"
  by (cases m; auto simp: bind_checked_def split: prod.splits if_splits) (auto simp: ok_parts_def fail_parts_def)

lemma gives_ensure_copied:
  assumes "\<And>p'. grown p p' \<Longrightarrow> (pt_command p \<noteq> No_command \<Longrightarrow> pt_command p' = Is_assembled) \<Longrightarrow> Q p'"
  shows "gives Q (ensure_copied p)"
proof (cases "pt_command p")
  case Is_body
  then have "Q (p\<lparr>pt_assembled := b, pt_command := Is_assembled\<rparr>)" for b by (intro assms) (simp_all add: grown_def)
  with Is_body show ?thesis unfolding ensure_copied_def by (intro gives_intro gives_any) auto
qed (auto simp: ensure_copied_def intro!: assms)

lemma gives_copied_add: "(\<And>p'. grown p p' \<Longrightarrow> Q p') \<Longrightarrow> gives (\<lambda>q. Q (add_e q (e q))) (ensure_copied p)"
  by (rule gives_ensure_copied) (blast intro: grown_trans grown_add_e)

lemma gives_add_write_concern: "(\<And>p'. grown p p' \<Longrightarrow> Q p') \<Longrightarrow> gives Q (add_write_concern p)"
  unfolding add_write_concern_def by (intro gives_intro gives_copied_add) auto

section \<open>The steps\<close>

lemma gives_asm_extra:
  assumes "\<And>x. grows_to p x \<Longrightarrow> Q x"
  shows "gives Q (asm_extra prefs stream p)"
proof -
  have tail: "fst x = None \<longrightarrow> gives Q (if pt_extra (snd x) = [] then ok_parts (snd x) else bind_res (ensure_copied (snd x)) ok_parts)"
    if "grows_to p x" for x
  proof
    assume "fst x = None"
    then have g: "grown p (snd x)" using that by (simp add: grows_to_def)
    show "gives Q (if pt_extra (snd x) = [] then ok_parts (snd x) else bind_res (ensure_copied (snd x)) ok_parts)"
      by (intro gives_intro gives_ensure_copied assms) (auto simp: grows_to_def intro: grown_trans [OF g] g)
  qed
  show ?thesis
    unfolding asm_extra_def by (intro gives_intro tail) (auto intro!: assms simp: grows_to_def)
qed

lemma gives_asm_retry:
  assumes "\<And>x. grows_to p x \<Longrightarrow> Q x"
  shows "gives Q (asm_retry cl stream g p)"
proof -
  have last: "gives Q (ok_parts (if b then q\<lparr>pt_retryable_read := True\<rparr> else q))" if "grown p q" for b q
    using that by (intro gives_intro assms) (auto simp: grows_to_def intro: grown_trans)
  have retry: "gives R (map_res (\<lambda>parts. (add_e parts e)\<lparr>pt_retryable_write := True\<rparr>) (ensure_copied q))"
    if "\<And>q'. grown q q' \<Longrightarrow> R q'" for R e q
    by (intro gives_combinators gives_copied_add [where Q = "\<lambda>q. R (q\<lparr>pt_retryable_write := True\<rparr>)"] that) (auto intro: grown_trans)
  have more: "gives Q (bind_res (if is_retryable_write cl q stream
               then map_res (\<lambda>parts. (add_e parts (e_int64 (str ''txnNumber'') 0))\<lparr>pt_retryable_write := True\<rparr>) (ensure_copied q)
               else Inr q) (\<lambda>parts. ok_parts (if is_retryable_read cl parts stream \<and> \<not> g then parts\<lparr>pt_retryable_read := True\<rparr> else parts)))"
    if q: "grown p q" for q
    by (rule gives_combinators(1), rule gives_combinators(3), rule retry, rule last, erule grown_trans [OF q], rule gives_combinators(4), rule last [OF q])
  show ?thesis
    unfolding asm_retry_def
    by (rule gives_combinators(1), rule gives_combinators(3), rule gives_combinators(2), rule gives_any, rule more, simp,
        rule gives_combinators(4), rule more, simp)
qed

lemma gives_asm_cluster_time:
  assumes "\<And>x. grows_to p x \<Longrightarrow> Q x"
  shows "gives Q (asm_cluster_time stream p)"
  unfolding asm_cluster_time_def
  by (intro gives_intro gives_ensure_copied assms) (auto simp: grows_to_def intro: grown_trans)

lemma gives_asm_api:
  assumes "\<And>x. grows_to p x \<Longrightarrow> Q x"
  shows "gives Q (asm_api cl p)"
  unfolding asm_api_def
  by (intro gives_intro assms) (auto simp: grows_to_def append_server_api_def Let_def intro!: grown_fields(5) prefix_append_eI)

lemma gives_append_read_concern: "(\<And>b'. prefix b b' \<Longrightarrow> Q b') \<Longrightarrow> gives Q (append_read_concern s rc f b)"
  unfolding append_read_concern_def by (intro gives_intro) auto

lemma gives_asm_read_concern:
  assumes "\<And>x. grows_to p x \<Longrightarrow> Q x"
  shows "gives Q (asm_read_concern stream g p)"
  unfolding asm_read_concern_def
  by (intro gives_intro gives_ensure_copied gives_append_read_concern assms) (auto simp: grows_to_def intro: grown_trans)

text \<open>The step that appends the session's id.\<close>

definition lsid_elem :: "session \<Rightarrow> element" where
  "lsid_elem s = e_doc (str ''lsid'') (body_doc (ss_lsid (cs_server_session s)))"

definition used :: "int \<Rightarrow> session \<Rightarrow> session" where
  "used now s = s\<lparr>cs_server_session := (cs_server_session s)\<lparr>ss_last_used := now\<rparr>\<rparr>"

definition with_lsid :: "session \<Rightarrow> int \<Rightarrow> cmd_parts \<Rightarrow> bool" where
  "with_lsid s now p \<longleftrightarrow> asm_cs p = Some (used now s) \<and> pt_command p = Is_assembled
     \<and> (\<exists>b. prefix (snd (append_e b (lsid_elem s))) (pt_assembled p))"

lemma with_lsid_grown: "with_lsid s now p \<Longrightarrow> grown p p' \<Longrightarrow> with_lsid s now p'"
  unfolding with_lsid_def using prefix_order.trans grown_cs by (auto simp: grown_def) (auto simp: asm_cs_def)

lemma gives_asm_lsid:
  assumes "asm_cs p = Some s" and "pt_command p \<noteq> No_command" and "\<And>x. (fst x = None \<longrightarrow> with_lsid s now (snd x)) \<Longrightarrow> Q x"
  shows "gives Q (asm_lsid implicit now p)"
proof -
  have p: "\<not> pt_prohibit_lsid p" using assms(1) by (auto simp: asm_cs_def split: if_splits)
  have go: "gives Q (bind_res (ensure_copied p) (\<lambda>parts. ok_parts ((add_e parts (lsid_elem s))\<lparr>pt_session := Some (used now s)\<rparr>)))"
    by (intro gives_intro gives_ensure_copied assms(3))
      (use p assms(2) in \<open>auto simp: with_lsid_def asm_cs_def add_e_def grown_def intro: exI [of _ "pt_assembled _"]\<close>)
  show ?thesis
    unfolding asm_lsid_def assms(1) Let_def lsid_elem_def [symmetric] used_def [symmetric]
    using go by (auto simp: assms(1) intro!: gives_checked(3) assms(3))
qed

section \<open>A command of a transaction\<close>

definition txn_fields :: "session \<Rightarrow> byte list" where
  "txn_fields s = (if cs_txn_state s = MONGOC_INTERNAL_TRANSACTION_STARTING then enc (e_bool (str ''startTransaction'') True) else [])
     @ enc (e_int64 (str ''txnNumber'') (word_of_int (ss_txn_number (cs_server_session s)))) @ enc (e_bool (str ''autocommit'') False)"

lemma append_e_length: "length b \<le> length (snd (append_e b e))"
  by (rule append_e_cases [of b e]) auto

lemma append_e_room: "length (snd (append_e b e)) + length (enc e) + 5 \<le> BSON_MAX_SIZE \<Longrightarrow> snd (append_e b e) = b @ enc e"
  using append_e_length [of b e] append_e_fits [of b e] by simp

lemma append_txn_fields_room:
  assumes "length (append_txn_fields s b) + 200 \<le> BSON_MAX_SIZE"
  shows "append_txn_fields s b = b @ enc (e_int64 (str ''txnNumber'') (word_of_int (ss_txn_number (cs_server_session s))))
    @ enc (e_bool (str ''autocommit'') False)"
proof -
  let ?n = "e_int64 (str ''txnNumber'') (word_of_int (ss_txn_number (cs_server_session s)))" and ?a = "e_bool (str ''autocommit'') False"
  have len: "length (enc ?n) = 19" "length (enc ?a) = 13" by (simp_all add: enc_def e_defs str_def)
  have f: "append_txn_fields s b = snd (append_e (snd (append_e b ?n)) ?a)" by (simp add: append_txn_fields_def)
  have "snd (append_e (snd (append_e b ?n)) ?a) = snd (append_e b ?n) @ enc ?a"
    by (rule append_e_room) (use assms len in \<open>simp add: f\<close>)
  moreover have "snd (append_e b ?n) = b @ enc ?n"
    by (rule append_e_room) (use assms len append_e_length [of "snd (append_e b ?n)" ?a] in \<open>simp add: f\<close>)
  ultimately show ?thesis by (simp add: f)
qed

text \<open>What is known of a command of a transaction when it is put together.\<close>

definition txn_command :: "session \<Rightarrow> body \<Rightarrow> cmd_parts \<Rightarrow> bool" where
  "txn_command s a p \<longleftrightarrow> pt_command p = Is_assembled \<and> asm_cs p = Some (s\<lparr>cs_txn_state := MONGOC_INTERNAL_TRANSACTION_IN_PROGRESS\<rparr>)
     \<and> (length (pt_assembled p) + 200 \<le> BSON_MAX_SIZE \<longrightarrow> (\<exists>b. prefix a b \<and> pt_assembled p = b @ txn_fields s))"

lemma append_txn_grows:
  "prefix b (append_txn_fields s b)" "prefix b (append_txn_fields s (snd (append_e b e)))"
  unfolding append_txn_fields_def by (intro prefix_append_eI prefix_append_e)+ simp_all

lemma append_txn_fields_state [simp]: "append_txn_fields (s\<lparr>cs_txn_state := st\<rparr>) b = append_txn_fields s b"
  by (simp add: append_txn_fields_def)

lemma append_txn_starting_room:
  assumes "length (append_txn_fields s (snd (append_e b (e_bool (str ''startTransaction'') True)))) + 200 \<le> BSON_MAX_SIZE"
  shows "append_txn_fields s (snd (append_e b (e_bool (str ''startTransaction'') True)))
    = b @ enc (e_bool (str ''startTransaction'') True) @ enc (e_int64 (str ''txnNumber'') (word_of_int (ss_txn_number (cs_server_session s))))
      @ enc (e_bool (str ''autocommit'') False)"
proof -
  let ?s = "e_bool (str ''startTransaction'') True"
  have len: "length (enc ?s) = 19" by (simp add: enc_def e_defs str_def)
  have "length (snd (append_e b ?s)) \<le> length (append_txn_fields s (snd (append_e b ?s)))"
    using append_txn_grows(1) prefix_length_le by blast
  then have "snd (append_e b ?s) = b @ enc ?s" by (intro append_e_room) (use assms len in simp)
  with append_txn_fields_room [OF assms] show ?thesis by simp
qed

lemma gives_append_txn:
  assumes "in_txn (Some s)"
    and "\<And>ok b'. ok \<Longrightarrow> (length b' + 200 \<le> BSON_MAX_SIZE \<Longrightarrow> b' = b @ txn_fields s)
      \<Longrightarrow> Q (ok, s\<lparr>cs_txn_state := MONGOC_INTERNAL_TRANSACTION_IN_PROGRESS\<rparr>, b')"
    and "\<And>s b'. Q (False, s, b')"
  shows "gives Q (append_txn s b)"
proof -
  have st: "cs_txn_state s = MONGOC_INTERNAL_TRANSACTION_STARTING \<or> cs_txn_state s = MONGOC_INTERNAL_TRANSACTION_IN_PROGRESS"
    using assms(1) by (auto simp: in_txn_def split: txn_state.splits)
  have start: "Q (True, s\<lparr>cs_txn_state := MONGOC_INTERNAL_TRANSACTION_IN_PROGRESS\<rparr>,
      append_txn_fields (s\<lparr>cs_txn_state := MONGOC_INTERNAL_TRANSACTION_IN_PROGRESS\<rparr>) (snd (append_e b (e_bool (str ''startTransaction'') True))))"
    if "cs_txn_state s = MONGOC_INTERNAL_TRANSACTION_STARTING"
    by (rule assms(2)) (use that in \<open>auto simp: txn_fields_def dest!: append_txn_starting_room\<close>)
  have more: "Q (True, s, append_txn_fields s b)" if "cs_txn_state s = MONGOC_INTERNAL_TRANSACTION_IN_PROGRESS"
  proof -
    have "s\<lparr>cs_txn_state := MONGOC_INTERNAL_TRANSACTION_IN_PROGRESS\<rparr> = s" using that by (cases s) simp
    moreover have "Q (True, s\<lparr>cs_txn_state := MONGOC_INTERNAL_TRANSACTION_IN_PROGRESS\<rparr>, append_txn_fields s b)"
      by (rule assms(2)) (use that in \<open>auto simp: txn_fields_def dest!: append_txn_fields_room\<close>)
    ultimately show ?thesis by simp
  qed
  show ?thesis
    unfolding append_txn_def using st start more assms(3) by (intro gives_intro) (auto simp: Let_def)
qed

lemma gives_asm_txn:
  assumes p: "asm_cs p = Some s" "in_txn (Some s)" "pt_command p = Is_assembled"
    and Q: "\<And>x. (fst x = None \<longrightarrow> txn_command s (pt_assembled p) (snd x)) \<Longrightarrow> Q x"
  shows "gives Q (asm_txn p)"
proof -
  have step: "gives Q (bind_res (append_txn s (pt_assembled r)) (\<lambda>(ok, s, b).
           let parts = r\<lparr>pt_session := Some s, pt_assembled := b\<rparr> in
           if ok then ok_parts parts else fail_parts MONGOC_ERROR_COMMAND 22 ''Empty command in transaction'' parts))"
    if r: "grown p r" for r
  proof (rule gives_combinators(1), rule gives_append_txn [OF p(2)], unfold prod.case Let_def)
    fix ok b' assume b': "ok" "length b' + 200 \<le> BSON_MAX_SIZE \<Longrightarrow> b' = pt_assembled r @ txn_fields s"
    have "pt_command r = Is_assembled" "prefix (pt_assembled p) (pt_assembled r)" "\<not> pt_prohibit_lsid r"
      using r p(1,3) by (auto simp: grown_def asm_cs_def split: if_splits)
    then show "gives Q (if ok then ok_parts (r\<lparr>pt_session := Some (s\<lparr>cs_txn_state := MONGOC_INTERNAL_TRANSACTION_IN_PROGRESS\<rparr>), pt_assembled := b'\<rparr>)
        else fail_parts MONGOC_ERROR_COMMAND 22 ''Empty command in transaction''
          (r\<lparr>pt_session := Some (s\<lparr>cs_txn_state := MONGOC_INTERNAL_TRANSACTION_IN_PROGRESS\<rparr>), pt_assembled := b'\<rparr>))"
      using b' by (auto intro!: gives_checked(2) Q simp: txn_command_def asm_cs_def)
  qed (auto intro!: gives_checked(3) Q)
  have cs: "asm_cs r = Some s" if "grown p r" for r using grown_cs [OF that] p(1) by simp
  show ?thesis
    unfolding asm_txn_def
  proof (rule gives_combinators(1))
    let ?rest = "\<lambda>parts. gives Q (bind_res (ensure_copied parts) (\<lambda>parts. case asm_cs parts of
         None \<Rightarrow> ok_parts parts
       | Some s \<Rightarrow> bind_res (append_txn s (pt_assembled parts)) (\<lambda>(ok, s, b).
           let parts = parts\<lparr>pt_session := Some s, pt_assembled := b\<rparr> in
           if ok then ok_parts parts
           else fail_parts MONGOC_ERROR_COMMAND 22 ''Empty command in transaction'' parts)))"
    have rest: "?rest q" if "grown p q" for q
      by (rule gives_combinators(1), rule gives_ensure_copied) (use grown_trans [OF that] cs step in \<open>simp add: cs\<close>)
    show "gives ?rest (if pt_txn_finish p \<or> \<not> in_txn (asm_cs p) then add_write_concern p else Inr p)"
      by (rule gives_combinators(3), rule gives_add_write_concern, erule rest, rule gives_combinators(4), rule rest, simp)
  qed
qed

section \<open>The assembly\<close>

definition txn_primary :: "session \<Rightarrow> bool \<Rightarrow> bool" where
  "txn_primary s is_write \<longleftrightarrow> is_write \<or> read_prefs_get_mode (to_read_prefs (cs_txn_opts s)) = MONGOC_READ_PRIMARY"

lemma gives_asm_extra_primary:
  assumes "asm_cs p = Some s" and "in_txn (Some s)" and "\<And>x. (fst x = None \<longrightarrow> txn_primary s (pt_is_write p)) \<Longrightarrow> Q x"
  shows "gives Q (asm_extra prefs stream p)"
proof (cases "txn_primary s (pt_is_write p)")
  case True
  then show ?thesis by (intro gives_any assms(3)) simp
next
  case False
  then have f: "read_prefs_get_mode (to_read_prefs (cs_txn_opts s)) \<noteq> MONGOC_READ_PRIMARY \<and> \<not> pt_is_write p" by (simp add: txn_primary_def)
  show ?thesis
    unfolding asm_extra_def asm_cs_def [symmetric] assms(1) Let_def
    by (intro gives_combinators(1) gives_foreign) (use f assms(2,3) in \<open>auto intro!: gives_checked simp: bind_checked_def fail_parts_def\<close>)
qed

lemma gives_conj: "gives P m \<Longrightarrow> gives R m \<Longrightarrow> (\<And>x. P x \<Longrightarrow> R x \<Longrightarrow> Q x) \<Longrightarrow> gives Q m"
  by (cases m) auto

lemma used_simps [simp]: "in_txn (Some (used now s)) = in_txn (Some s)" "txn_fields (used now s) = txn_fields s"
  by (simp_all add: in_txn_def used_def txn_fields_def)

definition assembled :: "session \<Rightarrow> int \<Rightarrow> bool \<Rightarrow> cmd_parts \<Rightarrow> bool" where
  "assembled s now is_write p' \<longleftrightarrow> txn_primary s is_write
     \<and> (\<exists>a b. prefix (snd (append_e b (lsid_elem s))) a \<and> txn_command (used now s) a p')"

lemma assembledI:
  assumes "with_lsid s now q \<and> txn_primary s w" and "txn_command (used now s) (pt_assembled q) p'"
  shows "assembled s now w p'"
  using assms unfolding assembled_def with_lsid_def by blast

lemma gives_step:
  assumes "gives (\<lambda>x. fst x = None \<longrightarrow> P (snd x)) m" and "\<And>q. P q \<Longrightarrow> gives Q (f q)" and "\<And>e q. e \<noteq> None \<Longrightarrow> Q (e, q)"
  shows "gives Q (bind_checked m f)"
  using assms by (cases m) (auto simp: bind_checked_def split: prod.splits if_splits)

lemma gives_asm_opmsg:
  assumes p: "asm_cs p = Some s" "in_txn (Some s)" "pt_command p \<noteq> No_command"
    and Q: "\<And>x. (fst x = None \<longrightarrow> assembled s now (pt_is_write p) (snd x)) \<Longrightarrow> Q x"
  shows "gives Q (asm_opmsg cl implicit now prefs stream p)"
proof -
  let ?L = "\<lambda>q. with_lsid s now q \<and> txn_primary s (pt_is_write p)"
  have err: "Q (e, q)" if "e \<noteq> None" for e q using that by (intro Q) auto
  have extra: "gives (\<lambda>x. fst x = None \<longrightarrow> (grown p (snd x) \<and> txn_primary s (pt_is_write p))) (asm_extra prefs stream p)"
    by (rule gives_conj, rule gives_asm_extra, assumption, rule gives_asm_extra_primary [OF p(1,2)], assumption) (auto simp: grows_to_def)
  have lsid: "gives (\<lambda>x. fst x = None \<longrightarrow> ?L (snd x)) (asm_lsid implicit now q)" if "grown p q \<and> txn_primary s (pt_is_write p)" for q
  proof (rule gives_asm_lsid)
    show "asm_cs q = Some s" using grown_cs [of p q] that p(1) by simp
    show "pt_command q \<noteq> No_command" using that p(3) by (simp add: grown_def)
  qed (use that in blast)
  have keep: "fst x = None \<longrightarrow> ?L (snd x)" if "?L q" "grows_to q x" for q x
    using with_lsid_grown [of s now q "snd x"] that unfolding grows_to_def by blast
  have last: "gives Q (asm_txn q)" if "?L q" for q
  proof (rule gives_asm_txn [where s = "used now s"])
    show "asm_cs q = Some (used now s)" "in_txn (Some (used now s))" "pt_command q = Is_assembled" using that p(2) by (simp_all add: with_lsid_def)
    fix x :: "bson_error option \<times> cmd_parts"
    assume "fst x = None \<longrightarrow> txn_command (used now s) (pt_assembled q) (snd x)"
    then show "Q x" using that by (intro Q) (blast intro: assembledI)
  qed
  let ?g = "pt_name p = str ''getMore''"
  have 4: "gives Q (bind_checked (asm_read_concern stream ?g q) asm_txn)" if "?L q" for q
    by (rule gives_step [where P = ?L], rule gives_asm_read_concern, rule keep [OF that], assumption, erule last, erule err)
  have 3: "gives Q (bind_checked (asm_api cl q) (\<lambda>q. bind_checked (asm_read_concern stream ?g q) asm_txn))" if "?L q" for q
    by (rule gives_step [where P = ?L], rule gives_asm_api, rule keep [OF that], assumption, erule 4, erule err)
  have 2: "gives Q (bind_checked (asm_cluster_time stream q) (\<lambda>q. bind_checked (asm_api cl q) (\<lambda>q. bind_checked (asm_read_concern stream ?g q) asm_txn)))"
    if "?L q" for q
    by (rule gives_step [where P = ?L], rule gives_asm_cluster_time, rule keep [OF that], assumption, erule 3, erule err)
  have 1: "gives Q (bind_checked (asm_retry cl stream ?g q) (\<lambda>q. bind_checked (asm_cluster_time stream q) (\<lambda>q. bind_checked (asm_api cl q)
      (\<lambda>q. bind_checked (asm_read_concern stream ?g q) asm_txn))))" if "?L q" for q
    by (rule gives_step [where P = ?L], rule gives_asm_retry, rule keep [OF that], assumption, erule 2, erule err)
  show ?thesis
    unfolding asm_opmsg_def Let_def
    by (rule gives_step [where P = "\<lambda>q. grown p q \<and> txn_primary s (pt_is_write p)"], rule extra,
        rule gives_step [where P = ?L], erule lsid, erule 1, erule err, erule err)
qed

lemma gives_parts_assemble:
  assumes p: "asm_cs p = Some s" "in_txn (Some s)" and msg: "cl_uses_api cl \<or> cl_uses_lb cl \<or> 8 \<le> sd_max_wire (st_sd stream)"
    and Q: "\<And>x. (fst x = None \<longrightarrow> assembled s now (pt_is_write p) (snd x)) \<Longrightarrow> Q x"
  shows "gives Q (parts_assemble cl implicit now p stream)"
proof -
  have err: "Q (e, q)" if "e \<noteq> None" for e q using that by (intro Q) auto
  have go: "gives Q (asm_opmsg cl implicit now prefs stream (p\<lparr>pt_command := Is_body, pt_flags := fl, pt_name := name, pt_txn_finish := f\<rparr>))"
    for prefs fl name f
    by (rule gives_asm_opmsg [where s = s]) (use p in \<open>auto simp: asm_cs_def Q split: if_splits\<close>)
  have fail: "gives Q (fail_parts d c m q)" for d c m q by (rule gives_checked(3)) (rule err)
  show ?thesis
    unfolding parts_assemble_def Let_def
    by (rule gives_combinators(3), rule fail, rule gives_combinators(1), rule gives_any, rule gives_combinators(1), rule gives_any)
      (use msg go fail in \<open>auto split: option.splits\<close>)
qed

text \<open>The bytes of the command.\<close>

lemma assembled_bytes:
  assumes "assembled s now w p'" and room: "length (pt_assembled p') + 200 \<le> BSON_MAX_SIZE" and id: "length (ss_lsid (cs_server_session s)) \<le> 100"
  obtains b c where "pt_assembled p' = b @ enc (lsid_elem s) @ c @ txn_fields s"
proof -
  from assms(1,2) obtain a b d where a: "prefix (snd (append_e b (lsid_elem s))) a" "prefix a d" "pt_assembled p' = d @ txn_fields s"
    by (auto simp: assembled_def txn_command_def)
  then obtain c where c: "d = snd (append_e b (lsid_elem s)) @ c" using prefix_order.trans prefixE by metis
  have "length (enc (lsid_elem s)) \<le> 120" using id by (simp add: enc_def lsid_elem_def e_doc_def body_doc_def str_def doc_bytes_def)
  then have "snd (append_e b (lsid_elem s)) = b @ enc (lsid_elem s)" by (intro append_e_room) (use room a(3) c in simp)
  with a(3) c show ?thesis by (intro that [of b c]) simp
qed

end
