(* ===== verification/TxnProps.thy ===== *)
theory TxnProps
  imports WithTxn WriteConcernOk AssembleTxn
begin

text \<open>
  The properties of commands, sessions and transactions, and of write concerns.
\<close>

section \<open>A small environment\<close>

text \<open>One server that answers every command with \<open>ok: 1\<close>; the world is the time that is left.\<close>

definition demo_client :: client where
  "demo_client = \<lparr>cl_generation = 0, cl_read_concern = None, cl_write_concern = None, cl_read_prefs = None, cl_uses_api = False,
     cl_api = None, cl_uses_lb = False, cl_retry_reads = True, cl_retry_writes = True, cl_max_adaptive = 2, cl_retargeting = False,
     cl_error_api = 2\<rparr>"

definition demo_session :: session where
  "demo_session = client_session_new demo_client \<lparr>ss_last_used = 0, ss_lsid = [], ss_txn_number = 6, ss_dirty = False\<rparr> None 1"

definition demo_stream :: server_stream where
  "demo_stream = \<lparr>st_topology = MONGOC_TOPOLOGY_RS_WITH_PRIMARY, st_sd = sd_zero, st_cluster_time = doc_empty, st_must_use_primary = False,
     st_retry_attempted = False, st_needs_hello = False\<rparr>"

definition demo_env :: "nat env" where
  "demo_env = \<lparr>ev_client = demo_client, ev_topology = (\<lambda>_. MONGOC_TOPOLOGY_RS_WITH_PRIMARY),
     ev_select = (\<lambda>_ _ _ w. ((1, False, txn_error ''''), w)), ev_check_interval = (\<lambda>_ w. (True, w)),
     ev_stream = (\<lambda>_ w. ((Some demo_stream, txn_error '''', doc_empty), w)),
     ev_exchange = (\<lambda>_ _ w. (Reply (body_doc (elems_body [e_int32 (str ''ok'') 1])), w)),
     ev_implicit = (\<lambda>w. (None, w)), ev_now = (\<lambda>_. 0)\<rparr>"

definition demo_txn :: "nat with_txn" where
  "demo_txn = \<lparr>wt_cb = (\<lambda>c. Inr ((True, None, None), c)), wt_expired = (\<lambda>w. (w = 0, w - 1)), wt_backoff = (\<lambda>w. (False, w))\<rparr>"

lemma demo_session_ok: "session_ok demo_session" "cs_session_id demo_session = 1"
  "cs_txn_state demo_session = MONGOC_INTERNAL_TRANSACTION_NONE"
  by (simp_all add: demo_session_def client_session_new_def Let_def session_ok_def txn_opts_new_def txn_opts_set_def txn_opts_ok_def
      demo_client_def)

lemma demo_env_ok: "env_ok (countdown id) (cs_session_id demo_session) demo_env"
  by (simp add: demo_session_ok env_ok_def demo_env_def client_ok_def demo_client_def countdown_def stream_ok_def demo_stream_def outcome_ok_def
      length_enc_e body_ok_def BSON_MAX_SIZE_def)

lemma demo_txn_ok: "with_txn_ok id (cs_session_id demo_session) demo_txn"
  by (auto simp: with_txn_ok_def demo_txn_def op_le_def countdown_def)

lemma demo_round_ok: "round_ok id demo_env demo_txn (demo_session, w, [])"
  unfolding round_ok_def fst_conv using demo_session_ok(1) demo_env_ok demo_txn_ok by blast


section \<open>Commands\<close>

lemma retry_class_none: "retry_class MONGOC_RETRY_ELIGIBILITY_NONE r = Inr (ov, again) \<Longrightarrow> \<not> again"
  by (cases r) (auto simp: retry_class_def bind_res_eq_Inr map_res_eq_Inr)

lemma retryable_loop_calls:
  fixes calls :: "'s \<Rightarrow> nat"
  assumes exec: "\<And>s r s'. execute s = Inr (r, s') \<Longrightarrow> calls s' = calls s + 1"
    and select: "\<And>ds s sd s'. select ds s = Inr (sd, s') \<Longrightarrow> calls s' = calls s"
    and "retryable_loop fuel cmd execute select attempt allowed sd ds s = Inr (r, s')"
    and "attempt \<le> M" and "allowed \<le> M" and "rt_max_adaptive cmd \<le> M"
  shows "calls s + 1 \<le> calls s' \<and> int (calls s') \<le> int (calls s) + 1 + (M - attempt)
    \<and> (rt_eligibility cmd = MONGOC_RETRY_ELIGIBILITY_NONE \<longrightarrow> calls s' = calls s + 1)"
  using assms(3-5)
proof (induction fuel arbitrary: attempt allowed sd ds s)
  case (Suc fuel)
  let ?step = "\<lambda>r1 s1 ov again. if \<not> again then Inr (r1, s1)
       else if attempt + 1 > (if ov then rt_max_adaptive cmd else allowed) then Inr (r1, s1)
            else bind_res (if sd_type sd = MONGOC_SERVER_MONGOS \<or> ov \<and> rt_retargeting cmd then deprioritized_add ds sd else Inr ds) (\<lambda>ds.
              bind_res (select ds s1) (\<lambda>(sd', s). case sd' of
                  None \<Rightarrow> Inr (r1, s)
                | Some sd \<Rightarrow> retryable_loop fuel cmd execute select (attempt + 1) (if ov then rt_max_adaptive cmd else allowed) sd ds s))"
  have "bind_res (execute s) (\<lambda>(r1, s1). bind_res (retry_class (rt_eligibility cmd) r1) (\<lambda>(ov, again). ?step r1 s1 ov again)) = Inr (r, s')"
    using Suc.prems(1) by (simp only: retryable_loop.simps Let_def)
  then obtain x where "execute s = Inr x"
    and x: "(case x of (r1, s1) \<Rightarrow> bind_res (retry_class (rt_eligibility cmd) r1) (\<lambda>(ov, again). ?step r1 s1 ov again)) = Inr (r, s')"
    unfolding bind_res_eq_Inr [of "execute s"] by blast
  then obtain r1 s1 y where 1: "execute s = Inr (r1, s1)" and y: "retry_class (rt_eligibility cmd) r1 = Inr y"
    "(case y of (ov, again) \<Rightarrow> ?step r1 s1 ov again) = Inr (r, s')"
    by (cases x) (auto simp only: prod.case bind_res_eq_Inr [of "retry_class _ _"])
  obtain ov again where ys: "y = (ov, again)" by (cases y)
  note cls = y(1) [unfolded ys] and rest = y(2) [unfolded ys prod.case]
  note c1 = exec [OF 1]
  show ?case
  proof (cases "again \<and> attempt + 1 \<le> (if ov then rt_max_adaptive cmd else allowed)")
    case False
    then have "s' = s1" using rest by (auto split: if_splits)
    then show ?thesis using c1 Suc.prems(2) by simp
  next
    case True
    then have elig: "rt_eligibility cmd \<noteq> MONGOC_RETRY_ELIGIBILITY_NONE" using cls retry_class_none by metis
    have max: "(if ov then rt_max_adaptive cmd else allowed) \<le> M" using Suc.prems(3) assms(6) by simp
    obtain ds1 sd' s2 where 2: "select ds1 s1 = Inr (sd', s2)"
      and end_run: "(case sd' of None \<Rightarrow> Inr (r1, s2)
        | Some sd \<Rightarrow> retryable_loop fuel cmd execute select (attempt + 1) (if ov then rt_max_adaptive cmd else allowed) sd ds1 s2) = Inr (r, s')"
      using rest True unfolding bind_res_eq_Inr by (auto simp: bind_res_eq_Inr split: if_splits)
    note c2 = select [OF 2]
    show ?thesis
    proof (cases sd')
      case None
      then show ?thesis using end_run c1 c2 elig Suc.prems(2) by simp
    next
      case (Some sd2)
      have "attempt + 1 \<le> M" using True max by linarith
      with Suc.IH [OF end_run [unfolded Some option.case] this max] show ?thesis using c1 c2 elig by simp
    qed
  qed
qed simp

lemma retryable_cmd_run_calls:
  fixes calls :: "'s \<Rightarrow> nat"
  assumes "\<And>s r s'. execute s = Inr (r, s') \<Longrightarrow> calls s' = calls s + 1"
    and "\<And>ds s sd s'. select ds s = Inr (sd, s') \<Longrightarrow> calls s' = calls s"
    and "retryable_cmd_run cmd execute select s = Inr (r, s')"
  shows "calls s + 1 \<le> calls s' \<and> int (calls s') \<le> int (calls s) + 1 + max 1 (rt_max_adaptive cmd)
    \<and> (rt_eligibility cmd = MONGOC_RETRY_ELIGIBILITY_NONE \<longrightarrow> calls s' = calls s + 1)"
proof -
  let ?M = "max 1 (rt_max_adaptive cmd)"
  have "calls s + 1 \<le> calls s' \<and> int (calls s') \<le> int (calls s) + 1 + (?M - 0)
    \<and> (rt_eligibility cmd = MONGOC_RETRY_ELIGIBILITY_NONE \<longrightarrow> calls s' = calls s + 1)"
    by (rule retryable_loop_calls [OF assms(1,2) assms(3) [unfolded retryable_cmd_run_def]]) (simp_all add: max_def)
  then show ?thesis by simp
qed



text \<open>C13: The loop of the retries calls its callback at most once more than the greater of one and the limit of adaptive retries,
  exactly once where the command may not be retried, and it ends whatever the callback and the selection of servers do.\<close>

theorem retry_bounded:
  fixes calls :: "'s \<Rightarrow> nat"
  assumes exec: "\<And>s. returns cmd_faults (\<lambda>(r, s'). doc_ok (snd (snd r)) \<and> calls s' = calls s + 1) (execute s)"
    and select: "\<And>ds s. returns cmd_faults (\<lambda>(sd, s'). calls s' = calls s) (select ds s)"
  shows "returns cmd_faults (\<lambda>(r, s'). calls s + 1 \<le> calls s' \<and> int (calls s') \<le> int (calls s) + 1 + max 1 (rt_max_adaptive cmd)
      \<and> (rt_eligibility cmd = MONGOC_RETRY_ELIGIBILITY_NONE \<longrightarrow> calls s' = calls s + 1))
    (retryable_cmd_run cmd execute select s)"
proof -
  have e: "execute s = Inr (r, s') \<Longrightarrow> calls s' = calls s + 1" for s r s'
    using exec [of s] by auto
  have sel: "select ds s = Inr (sd, s') \<Longrightarrow> calls s' = calls s" for ds s sd s'
    using select [of s ds] by auto
  have "returns cmd_faults (\<lambda>_. True) (retryable_cmd_run cmd execute select s)"
  proof (rule safe_retryable_cmd_run [where I = "\<lambda>_. True"])
    show "returns cmd_faults (\<lambda>x. doc_ok (reply_of (fst x)) \<and> True) (execute s)" for s
      by (rule safe_mono [OF exec]) (auto simp: reply_of_def)
    show "returns cmd_faults (\<lambda>x. True) (select ds s)" for ds s by (rule safe_mono [OF select]) simp
  qed simp_all
  then show ?thesis
    using retryable_cmd_run_calls [where calls = calls, OF e sel] by (cases "retryable_cmd_run cmd execute select s") auto
qed

theorem retry_bounded_witness:
  "returns cmd_faults (\<lambda>(r, s'). 0 + 1 \<le> s' \<and> int s' \<le> int 0 + 1 + max 1 (rt_max_adaptive (make_retryable demo_client MONGOC_RETRY_ELIGIBILITY_RETRYABLE_READ demo_stream))
      \<and> (rt_eligibility (make_retryable demo_client MONGOC_RETRY_ELIGIBILITY_RETRYABLE_READ demo_stream) = MONGOC_RETRY_ELIGIBILITY_NONE \<longrightarrow> s' = 0 + 1))
    (retryable_cmd_run (make_retryable demo_client MONGOC_RETRY_ELIGIBILITY_RETRYABLE_READ demo_stream)
      (\<lambda>s. Inr ((False, None, doc_empty), s + 1)) (\<lambda>ds s. Inr (Some sd_zero, s)) (0 :: nat))"
  by (rule retry_bounded [where calls = "\<lambda>s. s"]) simp_all

section \<open>Sessions and transactions\<close>

text \<open>C22: Starting a transaction returns or stops at an assertion or an overflow. Where it succeeds the session was in no
  transaction that starts, runs or ends and takes no snapshots, the transaction number went up by exactly one, the write concern is
  acknowledged, and the session has no pinned server and no recovery token; where it fails the state of the transaction is the one before.\<close>

theorem start_transaction_outcome:
  assumes "env_ok W (cs_session_id (fst c)) env" and "session_ok (fst c)" and "opt_ok txn_opts_ok opts"
  shows "returns cmd_faults (\<lambda>(err, c'). op_le W c c'
      \<and> (if err = None then started (fst c) (fst c') else cs_txn_state (fst c') = cs_txn_state (fst c)))
    (start_transaction env opts c)"
  by (rule safe_start_transaction [OF assms]) (auto simp: start_txn_post_def)

theorem start_transaction_outcome_witness:
  "returns cmd_faults (\<lambda>(err, c'). op_le (countdown id) (demo_session, 3, []) c'
      \<and> (if err = None then started demo_session (fst c') else cs_txn_state (fst c') = cs_txn_state demo_session))
    (start_transaction demo_env (Some txn_opts_new) (demo_session, 3, []))"
  by (rule start_transaction_outcome [where c = "(demo_session, 3, [])", unfolded fst_conv, OF demo_env_ok demo_session_ok(1)])
    (simp add: txn_opts_new_def txn_opts_ok_def)

text \<open>C14: Committing and aborting return or stop at one of the faults of a command. A commit that reports success leaves the
  transaction committed; both only take a step of the diagram of states. An abort succeeds exactly where a transaction starts or is in
  progress, whatever the server answers, and then the transaction is aborted and the session unpinned.\<close>

theorem commit_abort_outcome:
  assumes "env_ok W (cs_session_id (fst c)) env" and "session_ok (fst c)"
  shows "returns cmd_faults (\<lambda>((ret, err, reply), c'). doc_ok reply \<and> op_le W c c' \<and> txn_edge (cs_txn_state (fst c)) (cs_txn_state (fst c'))
      \<and> (ret \<longrightarrow> cs_txn_state (fst c') \<in> {MONGOC_INTERNAL_TRANSACTION_COMMITTED, MONGOC_INTERNAL_TRANSACTION_COMMITTED_EMPTY}))
      (commit_transaction env c)
    \<and> returns cmd_faults (\<lambda>(err, c'). op_le W c c' \<and> txn_edge (cs_txn_state (fst c)) (cs_txn_state (fst c'))
      \<and> (err = None \<longleftrightarrow> cs_txn_state (fst c) \<in> {MONGOC_INTERNAL_TRANSACTION_STARTING, MONGOC_INTERNAL_TRANSACTION_IN_PROGRESS})
      \<and> (err = None \<longrightarrow> cs_txn_state (fst c') = MONGOC_INTERNAL_TRANSACTION_ABORTED \<and> cs_server_id (fst c') = 0))
      (abort_transaction env c)"
  by (rule conjI, rule safe_commit_transaction [OF assms], simp add: commit_post_def edge_post_def reply_of_def case_prod_unfold,
      rule safe_abort_transaction [OF assms], simp add: abort_post_def edge_post_def case_prod_unfold)

definition demo_running :: session where
  "demo_running = demo_session\<lparr>cs_txn_state := MONGOC_INTERNAL_TRANSACTION_IN_PROGRESS\<rparr>"

lemma demo_running_ok: "session_ok demo_running" "env_ok (countdown id) (cs_session_id demo_running) demo_env"
  using demo_session_ok(1) demo_env_ok by (simp_all add: demo_running_def)

theorem commit_abort_outcome_witness:
  "returns cmd_faults (\<lambda>((ret, err, reply), c'). doc_ok reply \<and> op_le (countdown id) (demo_running, 3, []) c'
      \<and> txn_edge (cs_txn_state demo_running) (cs_txn_state (fst c'))
      \<and> (ret \<longrightarrow> cs_txn_state (fst c') \<in> {MONGOC_INTERNAL_TRANSACTION_COMMITTED, MONGOC_INTERNAL_TRANSACTION_COMMITTED_EMPTY}))
      (commit_transaction demo_env (demo_running, 3, []))
    \<and> returns cmd_faults (\<lambda>(err, c'). op_le (countdown id) (demo_running, 3, []) c' \<and> txn_edge (cs_txn_state demo_running) (cs_txn_state (fst c'))
      \<and> (err = None \<longleftrightarrow> cs_txn_state demo_running \<in> {MONGOC_INTERNAL_TRANSACTION_STARTING, MONGOC_INTERNAL_TRANSACTION_IN_PROGRESS})
      \<and> (err = None \<longrightarrow> cs_txn_state (fst c') = MONGOC_INTERNAL_TRANSACTION_ABORTED \<and> cs_server_id (fst c') = 0))
      (abort_transaction demo_env (demo_running, 3, []))"
  using commit_abort_outcome [of "countdown id" "(demo_running, 3, [])" demo_env] demo_running_ok by (simp only: fst_conv)

text \<open>C5: However a session is used (transactions started, committed or aborted, commands run, times advanced), it stays well formed, it
  keeps its identity, its times and its transaction number never go back, the state of its transaction follows the diagram, and no
  operation leaves it in the state in which a transaction ends.\<close>

theorem session_invariant:
  assumes "(session_step env)\<^sup>*\<^sup>* c c'" and "env_ok W (cs_session_id (fst c)) env" and "session_ok (fst c)"
    and "cs_txn_state (fst c) \<noteq> MONGOC_INTERNAL_TRANSACTION_ENDING"
  shows "session_ok (fst c') \<and> same_session (fst c) (fst c') \<and> txn_edge\<^sup>*\<^sup>* (cs_txn_state (fst c)) (cs_txn_state (fst c'))
    \<and> cs_txn_state (fst c') \<noteq> MONGOC_INTERNAL_TRANSACTION_ENDING"
  using session_steps [OF assms(1-3)] ending_unreachable [OF _ assms(4)] by (auto simp: op_le_def)

text \<open>A transaction that is started and committed at once.\<close>

definition demo_started :: session where
  "demo_started = demo_session\<lparr>cs_server_session := (cs_server_session demo_session)\<lparr>ss_txn_number := 7\<rparr>,
     cs_txn_state := MONGOC_INTERNAL_TRANSACTION_STARTING\<rparr>"

lemma demo_start: "start_transaction demo_env None (demo_session, 3, []) = Inr (None, demo_started, 3, [])"
  by (simp add: start_transaction_def stream_for_writes_def stream_for_optype_def select_server_id_def in_sharded_txn_def in_world_def
      connect_stream_def demo_env_def upd_session_def session_unpin_def in_txn_or_ending_def start_checked_def chk64_def int64_range_def
      demo_session_def client_session_new_def demo_started_def txn_opts_set_def txn_opts_new_def Let_def session_opts_get_snapshot_def
      optional_init_def wc_is_acknowledged_def demo_client_def)

lemma demo_commit: "commit_transaction demo_env (demo_started, 3, [])
    = Inr ((True, None, doc_empty), demo_started\<lparr>cs_txn_state := MONGOC_INTERNAL_TRANSACTION_COMMITTED_EMPTY\<rparr>, 3, [])"
  by (simp add: commit_transaction_def demo_started_def demo_session_def client_session_new_def set_state_def Let_def)

lemma demo_steps: "(session_step demo_env)\<^sup>*\<^sup>* (demo_session, 3, [])
    (demo_started\<lparr>cs_txn_state := MONGOC_INTERNAL_TRANSACTION_COMMITTED_EMPTY\<rparr>, 3, [])"
  using step_start [OF _ demo_start] step_commit [OF demo_commit] by (meson opt_ok_simps(1) r_into_rtranclp rtranclp_trans)

theorem session_invariant_witness:
  "session_ok (demo_started\<lparr>cs_txn_state := MONGOC_INTERNAL_TRANSACTION_COMMITTED_EMPTY\<rparr>)
    \<and> same_session demo_session (demo_started\<lparr>cs_txn_state := MONGOC_INTERNAL_TRANSACTION_COMMITTED_EMPTY\<rparr>)
    \<and> txn_edge\<^sup>*\<^sup>* MONGOC_INTERNAL_TRANSACTION_NONE MONGOC_INTERNAL_TRANSACTION_COMMITTED_EMPTY"
proof -
  have st: "cs_txn_state demo_session \<noteq> MONGOC_INTERNAL_TRANSACTION_ENDING" by (simp add: demo_session_ok)
  show ?thesis
    using session_invariant [OF demo_steps, unfolded fst_conv, OF demo_env_ok demo_session_ok(1) st] by (simp add: demo_session_ok)
qed

text \<open>C10: A command that is assembled for a session in a transaction, for a server that takes \<open>OP_MSG\<close>, carries the session's id and ends
  in the fields of the transaction: its number, \<open>autocommit: false\<close>, and before them \<open>startTransaction: true\<close> exactly where the
  transaction starts. Afterwards the transaction is in progress under the same number, and the command only goes through where it writes
  or the read preference of the transaction is the primary.\<close>

theorem command_in_transaction:
  assumes "parts_assemble cl implicit now parts stream = Inr (None, parts')"
    and "pt_session parts = Some s" and "\<not> pt_prohibit_lsid parts"
    and "cs_txn_state s \<in> {MONGOC_INTERNAL_TRANSACTION_STARTING, MONGOC_INTERNAL_TRANSACTION_IN_PROGRESS}"
    and "cl_uses_api cl \<or> cl_uses_lb cl \<or> 8 \<le> sd_max_wire (st_sd stream)"
    and "length (pt_assembled parts') + 200 \<le> BSON_MAX_SIZE" and "length (ss_lsid (cs_server_session s)) \<le> 100"
  shows "(\<exists>b c. sent_command parts' = body_doc (b @ enc (e_doc (str ''lsid'') (body_doc (ss_lsid (cs_server_session s)))) @ c
      @ (if cs_txn_state s = MONGOC_INTERNAL_TRANSACTION_STARTING then enc (e_bool (str ''startTransaction'') True) else [])
      @ enc (e_int64 (str ''txnNumber'') (word_of_int (ss_txn_number (cs_server_session s)))) @ enc (e_bool (str ''autocommit'') False)))
    \<and> (\<exists>s'. pt_session parts' = Some s' \<and> cs_txn_state s' = MONGOC_INTERNAL_TRANSACTION_IN_PROGRESS
        \<and> ss_txn_number (cs_server_session s') = ss_txn_number (cs_server_session s))
    \<and> (pt_is_write parts \<or> read_prefs_get_mode (to_read_prefs (cs_txn_opts s)) = MONGOC_READ_PRIMARY)"
proof -
  have cs: "asm_cs parts = Some s" "in_txn (Some s)" using assms(2-4) by (auto simp: asm_cs_def in_txn_def)
  have "gives (\<lambda>x. fst x = None \<longrightarrow> assembled s now (pt_is_write parts) (snd x)) (parts_assemble cl implicit now parts stream)"
    by (rule gives_parts_assemble [OF cs assms(5)])
  then have a: "assembled s now (pt_is_write parts) parts'" by (simp add: assms(1))
  then obtain b c where "pt_assembled parts' = b @ enc (lsid_elem s) @ c @ txn_fields s" by (rule assembled_bytes [OF _ assms(6,7)])
  moreover have "pt_command parts' = Is_assembled" "asm_cs parts' = Some ((used now s)\<lparr>cs_txn_state := MONGOC_INTERNAL_TRANSACTION_IN_PROGRESS\<rparr>)"
    "txn_primary s (pt_is_write parts)" using a by (auto simp: assembled_def txn_command_def)
  ultimately show ?thesis
    by (auto simp: sent_command_def lsid_elem_def txn_fields_def txn_primary_def asm_cs_def used_def split: if_splits)
qed

text \<open>C9: \<open>mongoc_client_session_with_transaction\<close> ends: where every reading of the clock before the deadline leaves less time than the
  reading before it, fuel above the time that is left is enough, for every callback that keeps the session well formed. It stops only
  at the faults of its commands.\<close>

theorem with_transaction_terminates:
  assumes "round_ok left env wt c" and "time_left left c < fuel" and "opt_ok txn_opts_ok opts"
  shows "returns cmd_faults (\<lambda>((ret, err, reply), c'). doc_ok reply \<and> op_le (countdown left) c c') (with_transaction fuel env wt opts c)"
  unfolding with_transaction_def
  by (rule safe_with_transaction_loop [OF assms]) (simp add: done_post_def reply_of_def case_prod_unfold)

theorem with_transaction_terminates_witness:
  "returns cmd_faults (\<lambda>((ret, err, reply), c'). doc_ok reply \<and> op_le (countdown id) (demo_session, 3, []) c')
    (with_transaction 4 demo_env demo_txn (Some txn_opts_new) (demo_session, 3, []))"
  by (rule with_transaction_terminates [OF demo_round_ok]) (simp_all add: time_left_def txn_opts_new_def txn_opts_ok_def)

section \<open>Write concerns\<close>




text \<open>C25: The document of a write concern is kept until an option changes. After any calls of the setters and of
  \<open>_mongoc_write_concern_get_bson\<close>, what that function returns is the encoding of the options as they are now, never an older one.\<close>

theorem write_concern_never_stale:
  assumes "wc_steps ops write_concern_new = Inr wc"
  shows "wc_get_bson wc = map_res (\<lambda>wc. (wc_compiled wc, wc)) (wc_freeze wc)"
  by (rule wc_get_bson_coherent, rule wc_steps_coherent [OF assms]) simp

definition demo_changed :: write_concern where
  "demo_changed = write_concern_new\<lparr>wc_w := 2, wc_default := False, wc_compiled := elems_body [e_int32 (str ''w'') 1]\<rparr>"

lemma demo_changed: "wc_steps [Set_w 1, Get_bson, Set_w 2] write_concern_new = Inr demo_changed"
  by (simp add: demo_changed_def wc_set_w_def write_concern_new_def wc_get_bson_def wc_freeze_def append_e_fits length_enc_e
      BSON_MAX_SIZE_def)

theorem write_concern_never_stale_witness:
  "wc_get_bson demo_changed = map_res (\<lambda>wc. (wc_compiled wc, wc)) (wc_freeze demo_changed)"
  by (rule write_concern_never_stale [OF demo_changed])

end
