(* ===== verification/Spec2Isabelle.thy ===== *)
theory Spec2Isabelle
  imports NestProps OidProps RProps TopoProps SelectProps CodecProps RpcProps TxnProps
begin

text \<open>
  A verification of the core of mongolite: the BSON library, the conversion of documents to R, and, in the
  MongoDB C driver that the package bundles, the monitoring of a deployment, the selection of servers, the messages
  of the wire protocol, and commands with their sessions, transactions and retries.

  The program. mongolite is a thin layer of C (\<open>src/*.c\<close>) between R and the MongoDB C driver:
  \<open>src/bson\<close> (documents), \<open>src/common\<close> (shared helpers) and \<open>src/mongoc\<close> (the client). A query is an R
  list that becomes a document, is sent to a server that the client selects from its description of the
  deployment, and the documents of the reply become R lists. All bytes that come from a server or a file
  are untrusted, so the first concern is that no function reads or writes outside its buffer.

  The model. Pointers into a buffer are the memory from the pointer on, a byte list; a read past its
  end is the fault \<open>OutOfBounds\<close>. A failed \<open>BSON_ASSERT\<close> is \<open>AssertFail\<close>, a use of \<open>NULL\<close> is
  \<open>NullDeref\<close>, a conversion of a double out of range is \<open>BadCast\<close>, a signed overflow is \<open>Overflow\<close> (in the arithmetic
  of server selection and of transaction numbers), a value that the code reads before it sets it is \<open>Uninit\<close>, and a loop that runs out of fuel is \<open>NoFuel\<close>; the type \<open>'a res\<close> of \<open>MPrelude\<close> is a fault or a value. \<open>uint32_t\<close> and \<open>size_t\<close> counters
  are natural numbers with the wrap-around written out (\<open>add32\<close>, \<open>sub32\<close>), other machine integers are
  words. \<open>ResLogic\<close> is a small logic of such results.

  Theories and code.
  \<^item> \<open>MPrelude\<close>, \<open>Endian\<close>, \<open>PowerTwo\<close>: faults, C strings, \<open>memcmp\<close>; the little-endian reads and writes
    of \<open>common/mlib/intencode.h\<close>; \<open>bson_next_power_of_two\<close>.
  \<^item> \<open>BsonIter\<close>, \<open>IterAccess\<close>, \<open>IterFind\<close>, \<open>DocNest\<close>: \<open>bson/bson-iter.c\<close>. The record \<open>bson_iter\<close> is
    \<open>bson_iter_t\<close>; \<open>bson_iter_next_internal\<close> reads one element, one definition per case of its switch.
    \<open>IterProps\<close> holds C1, C3, C4, C7 and C8.
  \<^item> \<open>BsonBuild\<close>, \<open>BsonAppend\<close>, \<open>BuildSpec\<close>, \<open>AppendLaw\<close>, \<open>AppendInst\<close>, \<open>BsonCodec\<close>, \<open>BsonCopy\<close>, \<open>CopySpec\<close>,
    \<open>CopyElem\<close>, \<open>CopyDoc\<close>, \<open>DocOps\<close>, \<open>ChildDoc\<close>, \<open>ArrayBuilder\<close>: \<open>bson/bson.c\<close>. The record \<open>bson_t\<close> is a
    document in its inline buffer or in a buffer of an explicit \<open>heap\<close>; appends, growth, copies, child
    documents and the array builder. The interface between the append functions and their clients is a
    locale, interpreted for every append function. \<open>BuildProps\<close> and \<open>NestProps\<close> hold C10, C11, C19 and C20.
  \<^item> \<open>BsonKeys\<close>, \<open>Oid\<close>: \<open>bson/bson-keys.c\<close>, \<open>bson/bson-oid.c\<close>, \<open>bson/bson-context.c\<close>; \<open>OidProps\<close> holds C21 and C23.
  \<^item> \<open>Decimal128\<close>, \<open>RValue\<close>, \<open>RValueOk\<close>, \<open>RRefine\<close>: the printer of \<open>bson/bson-decimal128.c\<close> and mongolite's
    \<open>bson.c\<close>: \<open>bson2list\<close> as a function into a datatype of R values. \<open>RProps\<close> holds C26 to C29.
  \<^item> \<open>MongocSet\<close>: \<open>mongoc/mongoc-set.c\<close>, with the locale \<open>keyed_store\<close> of what its clients rely on.
  \<^item> \<open>HostList\<close>, \<open>HostParse\<close>: \<open>mongoc/mongoc-host-list.c\<close> and the parsers of ports and of numbers.
  \<^item> \<open>ServerDesc\<close>, \<open>ServerHello\<close>: \<open>mongoc/mongoc-server-description.c\<close>; the fields of the record
    \<open>server_desc\<close> are those of \<open>mongoc_server_description_t\<close>.
  \<^item> \<open>TopoDesc\<close>, \<open>TopoInv\<close>, \<open>TopoStep\<close>, \<open>TopoHello\<close>: \<open>mongoc/mongoc-topology-description.c\<close>. Each function of
    \<open>gSDAMTransitionTable\<close> is a definition of type \<open>transition\<close>; \<open>topology_handle_hello\<close> composes them.
    \<open>TopoProps\<close> holds C30 to C37, with the states a topology can reach as the relation \<open>reachable\<close>.
  \<^item> \<open>Select\<close>, \<open>SelectOk\<close>, \<open>SelectTags\<close>, \<open>SelectSpec\<close>: server selection, from
    \<open>mongoc/mongoc-topology-description.c\<close>, the filters of \<open>mongoc/mongoc-server-description.c\<close> and
    \<open>mongoc/mongoc-deprioritized-servers.c\<close>. The array of candidates is a list of options; \<open>eligible\<close> is the
    algorithm of the specification on plain lists, which the code refines. \<open>SelectProps\<close> holds C15, C16, C17
    and C38.
  \<^item> \<open>Base64\<close>, \<open>Base64Ok\<close>: \<open>common/common-b64.c\<close>; \<open>Utf8\<close>, \<open>Utf8Bits\<close>, \<open>Utf8Ok\<close>: \<open>bson/bson-utf8.c\<close> and
    \<open>common/common-utf8-private.h\<close>. \<open>CodecProps\<close> holds C39 and C40.
  \<^item> \<open>Rpc\<close>, \<open>RpcIov\<close>, \<open>RpcOk\<close>, \<open>RpcWire\<close>: \<open>mongoc/mcd-rpc.c\<close>, the messages of the wire protocol. The type
    \<open>'a parser\<close> is a function on the pointer and the number of remaining bytes; \<open>parsed\<close> is its logic.
    \<open>RpcProps\<close> holds C6, C12 and C24.
  \<^item> \<open>CmdError\<close>: \<open>mongoc/mongoc-error.c\<close>, \<open>mongoc-rpc.c\<close> and the classes of write errors of \<open>mongoc-write-command.c\<close>: what
    the reply of a server says about its command, and its labels. \<open>CmdDoc\<close>: documents that are built by appending, as
    their bytes (a \<open>body\<close>); \<open>append_e\<close> has the contract of the append functions.
  \<^item> \<open>WriteConcern\<close>, \<open>WriteConcernOk\<close>: \<open>mongoc/mongoc-write-concern.c\<close> and \<open>mongoc-read-concern.c\<close>.
  \<^item> \<open>Session\<close>: \<open>mongoc/mongoc-client-session.c\<close> up to the reply handler; the record \<open>session\<close> is \<open>mongoc_client_session_t\<close>
    and \<open>txn_state\<close> its internal state of a transaction.
  \<^item> \<open>CmdParts\<close>: \<open>mongoc/mongoc-cmd.c\<close>, which puts a command together (\<open>parts_assemble\<close> has one definition for each step of
    \<open>mongoc_cmd_parts_assemble\<close>). \<open>Retry\<close>: \<open>mongoc/mongoc-retryable-cmd.c\<close> and the labels that a retry adds.
  \<^item> \<open>ClientCmd\<close>: the way of a command in \<open>mongoc/mongoc-client.c\<close> and \<open>mongoc-cluster.c\<close>, from its options to the exchange of
    one message. \<open>Txn\<close>: start, commit, abort and \<open>mongoc_client_session_with_transaction\<close>.
  \<^item> \<open>CmdSafe\<close>, \<open>ReplySafe\<close>, \<open>SessionSafe\<close>, \<open>PartsSafe\<close>, \<open>AssembleSafe\<close>, \<open>RunSafe\<close>, \<open>CommandSafe\<close>, \<open>TxnSafe\<close>: rules that
    follow the code of these theories (the collection \<open>safe_intro\<close>); \<open>safe Q r\<close> says that \<open>r\<close> is a value with \<open>Q\<close> or a fault of
    \<open>cmd_faults\<close>. \<open>later s s'\<close> is what a command may do to a session. \<open>SessionStep\<close>, \<open>WithTxn\<close>: the diagram of states
    \<open>txn_edge\<close>, the steps \<open>session_step\<close> of a session and what they keep. \<open>TxnProps\<close> holds C2, C5, C9, C13, C14, C18,
    C22 and C25.

  The environment of a command. What lies below \<open>ClientCmd\<close> is the record \<open>env\<close> of functions on a world \<open>'w\<close>: the choice
  of a server, the check of its connection, the stream to a server, the exchange of a message for a reply or an error,
  the implicit session and the clock. \<open>env_ok\<close> names what is relied on: replies and cluster times are bounded documents, as
  the parser of messages gives them, an implicit session has an id of its own, and the world moves along a preorder.
  \<open>with_txn\<close> holds the callback of the user, the test of the deadline and the wait before another attempt.

  Fuel. A loop over an iterator has as fuel one more than the length of the buffer: each step moves
  forward by at least two bytes (C4), so it never runs out, which the theorems state by not listing
  \<open>NoFuel\<close>. The recursion of \<open>mongoc_topology_description_handle_hello\<close> has depth two: the call
  for a stale primary has no reply, so the server becomes unknown and no transition calls back. The loop of the retries has the
  limit of its attempts as fuel (C13). \<open>with_transaction\<close> takes its fuel as an argument: it has no bound but the clock, and C9
  says that fuel above the time that is left is enough.

  Bounds. A document has at most \<open>INT_MAX\<close> bytes, which its constructors check. C34 and C35 assume
  that fewer than 2^30 servers were ever added to the topology, so that its counter does not wrap. C15 to
  C17 assume that dates are below 2^50 milliseconds and round trip times below 2^62, so that the sums of
  \<open>int64_t\<close> do not overflow; a server that sends a greater \<open>lastWriteDate\<close> makes them overflow.

  Not modelled. Events for application callbacks, log messages, the texts of errors and the freeing
  of memory; threads and locks; client-side encryption, the reauthentication of OIDC, the length of the waits between
  retries, what an error of a server does to the description of the topology, and bulk writes. JSON (\<open>bson-json.c\<close>, \<open>jsonsl\<close>, \<open>bcon\<close>) and the network, TLS, DNS,
  authentication and encryption layers of \<open>mongoc\<close>, which are input and output or call libraries whose
  code is not here; \<open>utf8proc\<close>, \<open>uthash\<close> and \<open>kms\<close> are third-party code.
\<close>

end
